(* ===== verification/Prelude.thy ===== *)
theory Prelude
  imports Main "HOL-Library.Word" "HOL-Library.Monad_Syntax"
begin

text \<open>
  What every component of the development shares: the names of Rust's unsigned integer types,
  checked indexing (an out-of-range index panics in Rust, so it is \<open>None\<close> here), the
  total-correctness reading of a computation that may panic, and the few facts about masked
  words and bounded indices from which the bounds proofs are made.
\<close>

unbundle bit_operations_syntax

type_synonym u8 = "8 word"
type_synonym u16 = "16 word"
type_synonym u32 = "32 word"
type_synonym u64 = "64 word"

named_theorems wp_intro \<open>total-correctness rules, one per operation that may panic\<close>
named_theorems bounds_simps \<open>bounds of masked words and table indices\<close>

subsection \<open>Computations that may not return\<close>

text \<open>
  A Rust function that can panic (or whose loop need not end) is modelled with an
  \<open>option\<close> result: \<open>None\<close> is ``does not return normally''. \<open>wpo m Q\<close> says that
  \<open>m\<close> returns and its result satisfies \<open>Q\<close>.
\<close>

definition wpo :: "'a option \<Rightarrow> ('a \<Rightarrow> bool) \<Rightarrow> bool" where
  "wpo m Q \<longleftrightarrow> (\<exists>r. m = Some r \<and> Q r)"

lemma wpo_Some [simp]: "wpo (Some r) Q \<longleftrightarrow> Q r"
  by (simp add: wpo_def)

lemma wpo_None [simp]: "\<not> wpo None Q"
  by (simp add: wpo_def)

lemma wpo_bind [simp]: "wpo (Option.bind m f) Q \<longleftrightarrow> wpo m (\<lambda>r. wpo (f r) Q)"
  by (cases m) simp_all

lemma wpo_mono: "wpo m P \<Longrightarrow> (\<And>r. P r \<Longrightarrow> Q r) \<Longrightarrow> wpo m Q"
  by (auto simp: wpo_def)

lemma wpo_conj: "wpo m P \<Longrightarrow> wpo m Q \<Longrightarrow> wpo m (\<lambda>r. P r \<and> Q r)"
  by (auto simp: wpo_def)

lemma wpo_returns: "wpo m Q \<Longrightarrow> \<exists>r. m = Some r"
  by (auto simp: wpo_def)

lemma wpo_SomeD: "wpo m Q \<Longrightarrow> m = Some r \<Longrightarrow> Q r"
  by (simp add: wpo_def)

lemma wpo_if [simp]: "wpo (if b then m else m') Q \<longleftrightarrow> (if b then wpo m Q else wpo m' Q)"
  by simp

lemma wpo_map_option [simp]: "wpo (map_option f m) Q \<longleftrightarrow> wpo m (\<lambda>r. Q (f r))"
  by (cases m) simp_all

subsection \<open>Checked indexing\<close>

definition nth_chk :: "'a list \<Rightarrow> nat \<Rightarrow> 'a option" where
  "nth_chk xs i = (if i < length xs then Some (xs ! i) else None)"

definition upd_chk :: "'a list \<Rightarrow> nat \<Rightarrow> 'a \<Rightarrow> 'a list option" where
  "upd_chk xs i v = (if i < length xs then Some (xs[i := v]) else None)"

lemma nth_chk_Some [simp]: "i < length xs \<Longrightarrow> nth_chk xs i = Some (xs ! i)"
  by (simp add: nth_chk_def)

lemma upd_chk_Some [simp]: "i < length xs \<Longrightarrow> upd_chk xs i v = Some (xs[i := v])"
  by (simp add: upd_chk_def)

lemma nth_chk_eq_Some: "nth_chk xs i = Some v \<longleftrightarrow> i < length xs \<and> v = xs ! i"
  by (auto simp: nth_chk_def)

lemma upd_chk_eq_Some: "upd_chk xs i v = Some ys \<longleftrightarrow> i < length xs \<and> ys = xs[i := v]"
  by (auto simp: upd_chk_def)

text \<open>Slicing \<open>&xs[lo..hi]\<close>, which panics unless \<open>lo \<le> hi \<le> xs.len()\<close>.\<close>

definition slice_chk :: "nat \<Rightarrow> nat \<Rightarrow> 'a list \<Rightarrow> 'a list option" where
  "slice_chk lo hi xs = (if lo \<le> hi \<and> hi \<le> length xs then Some (take (hi - lo) (drop lo xs)) else None)"

lemma length_slice_chk: "slice_chk lo hi xs = Some ys \<Longrightarrow> length ys = hi - lo"
  by (auto simp: slice_chk_def split: if_splits)

subsection \<open>Masks\<close>

lemma unat_and_le: "unat (a AND b) \<le> unat (b :: 'a::len word)"
  by (metis word_and_le1 word_le_nat_alt)

lemma unat_and_less: "unat b < n \<Longrightarrow> unat (a AND b) < n" for a b :: "'a::len word"
  by (meson le_less_trans unat_and_le)

lemma unat_and_numeral_less [bounds_simps]:
  "unat (numeral w :: 'a::len word) < n \<Longrightarrow> unat (a AND numeral w :: 'a word) < n"
  by (rule unat_and_less)

lemma unat_and_one_less [bounds_simps]: "unat (a AND 1 :: 'a::len word) < 2"
  by (rule unat_and_less) simp

lemma unat_and_mask: "unat (w AND mask n) = unat w mod 2 ^ n"
  by (metis take_bit_eq_mask take_bit_eq_mod unsigned_take_bit_eq)

lemma word8_bound [bounds_simps]: "unat (v :: 8 word) < 256"
  using unsigned_less [of v] by simp

lemma word16_bound: "unat (v :: 16 word) < 65536"
  using unsigned_less [of v] by simp

lemma unat_ucast_8_16 [simp]: "unat (ucast (v :: 8 word) :: 16 word) = unat v"
proof -
  have "unat v < 65536" using word8_bound [of v] by simp
  then show ?thesis by (simp add: unsigned_ucast_eq take_bit_nat_eq_self)
qed

lemma unat_ucast_16_8: "unat (ucast (v :: 16 word) :: 8 word) = unat v mod 256"
  by (simp add: unsigned_ucast_eq take_bit_eq_mod)

subsection \<open>Bank arithmetic\<close>

text \<open>
  The offset of byte \<open>off\<close> of bank \<open>b\<close> in a ROM of \<open>n\<close> banks of \<open>sz\<close> bytes is in range:
  the one arithmetic fact behind every bank-switched board.
\<close>

lemma bank_offset_less: "b < n \<Longrightarrow> off < sz \<Longrightarrow> b * sz + off < n * (sz::nat)"
proof -
  assume "b < n" "off < sz"
  then have "b * sz + off < Suc b * sz" by simp
  also have "\<dots> \<le> n * sz" using \<open>b < n\<close> by (intro mult_le_mono1) simp
  finally show ?thesis .
qed

text \<open>Little-endian assembly of a 16-bit word: \<open>u16::from(lo) | (u16::from(hi) << 8)\<close>.\<close>

definition le16 :: "u8 \<Rightarrow> u8 \<Rightarrow> u16" where
  "le16 lo hi = ucast lo OR push_bit 8 (ucast hi)"

lemma bit_word8_beyond [simp]: "8 \<le> n \<Longrightarrow> \<not> bit (w :: u8) n"
  using bit_imp_le_length [of w n] by auto

lemma le16_bytes [simp]:
  "(ucast (le16 lo hi) :: 8 word) = lo"
  "(ucast (drop_bit 8 (le16 lo hi)) :: 8 word) = hi"
  by (rule bit_word_eqI; simp add: le16_def bit_simps)+

lemma le16_join [simp]: "le16 (ucast (w :: u16)) (ucast (drop_bit 8 w)) = w"
  by (rule bit_word_eqI) (auto simp: le16_def bit_simps)


text \<open>A word without bits from \<open>n\<close> on is below \<open>2 ^ n\<close>; words without common bits add without carry.\<close>

lemma unat_bits_less:
  assumes "\<And>i. bit w i \<Longrightarrow> i < n"
  shows "unat (w :: 'a::len word) < 2 ^ n"
proof -
  have "w = take_bit n w"
    by (rule bit_word_eqI) (use assms in \<open>auto simp: bit_take_bit_iff\<close>)
  then have "unat w = take_bit n (unat w)"
    by (metis unsigned_take_bit_eq)
  then show ?thesis using take_bit_nat_less_exp [of n "unat w"] by simp
qed

lemma unat_add_disjoint: "v AND w = 0 \<Longrightarrow> unat v + unat w = unat (v OR w)" for v w :: "'a::len word"
proof -
  assume "v AND w = 0"
  then have "unat v AND unat w = 0" by (metis unsigned_and_eq unsigned_0)
  then have "unat v + unat w = unat v OR unat w" by (rule disjunctive_add_eq_or)
  then show ?thesis by (simp add: unsigned_or_eq)
qed


lemma unat_le16: "unat (le16 lo hi) = unat lo + 256 * unat hi"
proof -
  have "(ucast lo :: u16) AND push_bit 8 (ucast hi) = 0"
    by (rule bit_word_eqI) (auto simp: bit_and_iff bit_push_bit_iff bit_ucast_iff)
  then have "unat (le16 lo hi) = unat lo + unat (push_bit 8 (ucast hi) :: u16)"
    using unat_add_disjoint [of "ucast lo :: u16" "push_bit 8 (ucast hi)"] by (simp add: le16_def)
  moreover have "unat (push_bit 8 (ucast hi) :: u16) = 256 * unat hi"
    using word8_bound [of hi] by (simp add: push_bit_eq_mult unat_word_ariths)
  ultimately show ?thesis by simp
qed

text \<open>Decrementing a 16-bit counter kept as two bytes.\<close>

lemma unat_decrement:
  "unat (w - 1 :: u8) = (if w = 0 then 255 else unat w - 1)"
  "unat (v - 1 :: u16) = (if v = 0 then 65535 else unat v - 1)"
  by (auto simp: unat_minus_one unsigned_minus_1_eq_mask mask_eq_exp_minus_1)

lemma le16_decrement: "le16 (lo - 1) (if lo = 0 then hi - 1 else hi) = le16 lo hi - 1"
proof -
  have z: "le16 l h = 0 \<longleftrightarrow> l = 0 \<and> h = 0" for l h
    by (metis add_is_0 mult_is_0 unat_le16 unat_eq_0 zero_neq_numeral)
  have pos: "w \<noteq> 0 \<Longrightarrow> 0 < unat w" for w :: u8
    by (simp add: unat_gt_0)
  have "unat (le16 (lo - 1) (if lo = 0 then hi - 1 else hi)) = unat (le16 lo hi - 1)"
  proof (cases "lo = 0")
    case True
    then show ?thesis
      using pos [of hi] by (cases "hi = 0") (simp_all add: unat_le16 unat_decrement z del: diff_0)
  next
    case False
    then show ?thesis
      using pos [of lo] by (simp add: unat_le16 unat_decrement z)
  qed
  then show ?thesis by (simp only: word_unat_eq_iff)
qed

subsection \<open>Orbits of a step function\<close>

text \<open>A step function that rotates a list of distinct values has its length as least period.\<close>

lemma funpow_rotates:
  assumes "map f xs = rotate1 xs" "i < length xs"
  shows "(f ^^ m) (xs ! i) = xs ! ((i + m) mod length xs)"
proof (induction m)
  case (Suc m)
  let ?j = "(i + m) mod length xs"
  have j: "?j < length xs" using assms(2) by (intro mod_less_divisor) linarith
  then have "f (xs ! ?j) = rotate1 xs ! ?j"
    by (metis assms(1) nth_map)
  also have "\<dots> = xs ! (Suc ?j mod length xs)"
    using j by (simp add: nth_rotate1)
  finally show ?case using Suc by (simp add: mod_Suc_eq)
qed (use assms in simp)

lemma least_period:
  assumes "map f xs = rotate1 xs" "distinct xs" "x \<in> set xs"
  shows "(f ^^ m) x = x \<longleftrightarrow> length xs dvd m"
proof -
  obtain i where i: "i < length xs" "x = xs ! i" using assms(3) by (auto simp: in_set_conv_nth)
  have "(i + m) mod length xs < length xs" using i(1) by (intro mod_less_divisor) linarith
  then have "(f ^^ m) x = x \<longleftrightarrow> (i + m) mod length xs = i"
    using assms(2) i by (simp add: funpow_rotates [OF assms(1)] nth_eq_iff_index_eq)
  also have "\<dots> \<longleftrightarrow> (i + m) mod length xs = (i + 0) mod length xs"
    using i by simp
  also have "\<dots> \<longleftrightarrow> length xs dvd m"
    by (metis add_diff_cancel_left' le_add1 mod_eq_dvd_iff_nat add_0_right)
  finally show ?thesis .
qed

text \<open>The periods of an orbit are closed under \<open>gcd\<close>.\<close>

lemma funpow_gcd: "(f ^^ m) x = x \<Longrightarrow> (f ^^ n) x = x \<Longrightarrow> (f ^^ gcd m n) x = x" for m n :: nat
proof (induction m n rule: gcd_nat_induct)
  case (step m n)
  then have "(f ^^ (m mod n)) x = x" by (simp add: funpow_mod_eq)
  with step show ?case by (simp add: gcd_red_nat [of m n])
qed simp

end
