(* ===== verification/Audio.thy ===== *)
theory Audio
  imports Prelude
begin

text \<open>
  The TIA's two sound channels (\<open>crates/rusty2600-tia/src/audio.rs\<close>): a prescaler and a divider
  clock a waveform generator made of two shift registers. \<open>Channel::tick\<close> is split as its nesting
  is: \<open>waveform\<close> is the \<open>match\<close> on the control register, \<open>channel_clock\<close> the divider branch,
  \<open>channel_tick\<close> the whole. The plain \<open>+\<close>, \<open>-\<close> and \<open>*\<close> of the code wrap here; the invariant
  \<open>channel_ok\<close> shows that none of them does.
\<close>

subsection \<open>State\<close>

record channel =
  ch_control :: u8
  ch_freq :: u8
  ch_volume :: u8
  ch_divider :: u8
  ch_output :: u8
  ch_poly4 :: u8
  ch_poly5 :: u8
  ch_prescale :: u16

definition channel_default :: channel where
  "channel_default = \<lparr>ch_control = 0, ch_freq = 0, ch_volume = 0, ch_divider = 0, ch_output = 1,
     ch_poly4 = 1, ch_poly5 = 1, ch_prescale = 0\<rparr>"

record audio =
  au_channels :: "channel list"
  au_last_sample :: u8

definition audio_new :: audio where
  "audio_new = \<lparr>au_channels = [channel_default, channel_default], au_last_sample = 0\<rparr>"

subsection \<open>Operations\<close>

definition in5 :: "u8 \<Rightarrow> u8" where
  "in5 p = (drop_bit 4 p XOR drop_bit 3 p) AND 1"

definition in4 :: "u8 \<Rightarrow> u8" where
  "in4 p = (drop_bit 3 p XOR drop_bit 2 p) AND 1"

definition shift5 :: "u8 \<Rightarrow> u8 \<Rightarrow> u8" where
  "shift5 i p = (push_bit 1 p OR i) AND 0x1F"

definition shift4 :: "u8 \<Rightarrow> u8 \<Rightarrow> u8" where
  "shift4 i p = (push_bit 1 p OR i) AND 0x0F"

definition waveform :: "u8 \<Rightarrow> channel \<Rightarrow> channel" where
  "waveform audc c = (let i5 = in5 (ch_poly5 c); i4 = in4 (ch_poly4 c) in
     if audc \<in> {0, 11} then c\<lparr>ch_output := 1\<rparr>
     else if audc = 1 then
       (let c = c\<lparr>ch_poly4 := shift4 i4 (ch_poly4 c)\<rparr> in c\<lparr>ch_output := ch_poly4 c AND 1\<rparr>)
     else if audc = 2 then
       (let c = c\<lparr>ch_poly5 := shift5 i5 (ch_poly5 c)\<rparr>;
            c = (if ch_poly5 c AND 1 = 1 then c\<lparr>ch_poly4 := shift4 i4 (ch_poly4 c)\<rparr> else c)
        in c\<lparr>ch_output := ch_poly4 c AND 1\<rparr>)
     else if audc = 3 then
       (let c = c\<lparr>ch_poly5 := shift5 i5 (ch_poly5 c)\<rparr>;
            composite_in4 = i4 XOR (ch_poly5 c AND 1);
            c = c\<lparr>ch_poly4 := shift4 composite_in4 (ch_poly4 c)\<rparr>
        in c\<lparr>ch_output := ch_poly4 c AND 1\<rparr>)
     else if audc \<in> {4, 5, 12, 13} then c\<lparr>ch_output := ch_output c XOR 1\<rparr>
     else if audc \<in> {6, 10, 14} then
       (let c = c\<lparr>ch_poly5 := shift5 i5 (ch_poly5 c)\<rparr> in c\<lparr>ch_output := ch_poly5 c AND 1\<rparr>)
     else if audc \<in> {7, 15} then
       (let c = c\<lparr>ch_poly5 := shift5 i5 (ch_poly5 c)\<rparr> in
        if ch_poly5 c AND 1 = 1 then c\<lparr>ch_output := ch_output c XOR 1\<rparr> else c)
     else if audc = 8 then
       (let in9 = (drop_bit 4 (ch_poly5 c) XOR drop_bit 3 (ch_poly4 c)) AND 1;
            c = c\<lparr>ch_poly5 := shift5 in9 (ch_poly5 c)\<rparr>;
            c = c\<lparr>ch_poly4 := shift4 (ch_poly5 c AND 1) (ch_poly4 c)\<rparr>
        in c\<lparr>ch_output := ch_poly4 c AND 1\<rparr>)
     else if audc = 9 then
       (let c = c\<lparr>ch_poly5 := shift5 i5 (ch_poly5 c)\<rparr> in c\<lparr>ch_output := ch_poly5 c AND 1\<rparr>)
     else c)"

definition channel_clock :: "u8 \<Rightarrow> channel \<Rightarrow> channel" where
  "channel_clock audc c =
     (if ch_divider c = 0 then waveform audc (c\<lparr>ch_divider := ch_freq c\<rparr>)
      else c\<lparr>ch_divider := ch_divider c - 1\<rparr>)"

definition prescale_limit :: "u8 \<Rightarrow> u16" where
  "prescale_limit audc = (if audc \<ge> 12 then 342 else 114)"

definition channel_tick :: "channel \<Rightarrow> u8 \<times> channel" where
  "channel_tick c = (let
     audc = ch_control c AND 0x0F;
     c = c\<lparr>ch_prescale := ch_prescale c + 1\<rparr>;
     c = (if ch_prescale c \<ge> prescale_limit audc
          then channel_clock audc (c\<lparr>ch_prescale := 0\<rparr>) else c)
   in (ch_output c * ch_volume c, c))"

definition audio_tick :: "audio \<Rightarrow> audio" where
  "audio_tick au = (let
     (a, c0) = channel_tick (au_channels au ! 0);
     (b, c1) = channel_tick (au_channels au ! 1)
   in au\<lparr>au_channels := [c0, c1], au_last_sample := a + b\<rparr>)"

definition sample :: "audio \<Rightarrow> u8" where
  "sample au = au_last_sample au"

subsection \<open>The invariant\<close>

definition channel_ok :: "channel \<Rightarrow> bool" where
  "channel_ok c \<longleftrightarrow> unat (ch_volume c) < 16 \<and> unat (ch_freq c) < 32 \<and> unat (ch_divider c) < 32 \<and>
     unat (ch_output c) < 2 \<and> unat (ch_poly4 c) < 16 \<and> unat (ch_poly5 c) < 32 \<and>
     unat (ch_prescale c) < 342"

definition audio_ok :: "audio \<Rightarrow> bool" where
  "audio_ok au \<longleftrightarrow> length (au_channels au) = 2 \<and> (\<forall>c \<in> set (au_channels au). channel_ok c) \<and>
     unat (au_last_sample au) \<le> 30"

lemma shift_bounds [simp]: "unat (shift4 i p) < 16" "unat (shift5 i p) < 32"
  unfolding shift4_def shift5_def by (rule unat_and_less; simp)+

lemma and_1_bound [simp]: "unat (x AND 1 :: u8) < 2"
  by (rule unat_and_less) simp

lemma small_bit: "unat (x :: u8) < 2 \<Longrightarrow> x = 0 \<or> x = 1"
  by (simp add: word_unat_eq_iff) linarith

lemma xor_1_bound: "unat (x :: u8) < 2 \<Longrightarrow> unat (x XOR 1) < 2"
  using small_bit [of x] by auto

lemma waveform_ok: "channel_ok c \<Longrightarrow> channel_ok (waveform audc c)"
  by (simp add: waveform_def channel_ok_def Let_def xor_1_bound)

lemma channel_clock_ok: "channel_ok c \<Longrightarrow> channel_ok (channel_clock audc c)"
proof (cases "ch_divider c = 0")
  case True
  assume "channel_ok c"
  then have "channel_ok (c\<lparr>ch_divider := ch_freq c\<rparr>)" by (simp add: channel_ok_def)
  with True show ?thesis by (simp add: channel_clock_def waveform_ok)
next
  case False
  assume "channel_ok c"
  with False show ?thesis by (auto simp: channel_clock_def channel_ok_def unat_minus_one intro: less_imp_diff_less)
qed

text \<open>The prescaler and the divider never pass their limits, so neither counter overflows.\<close>

lemma channel_tick_ok:
  assumes "channel_ok c"
  shows "channel_ok (snd (channel_tick c)) \<and> unat (fst (channel_tick c)) \<le> 15 \<and>
    unat (fst (channel_tick c)) =
      unat (ch_output (snd (channel_tick c))) * unat (ch_volume (snd (channel_tick c)))"
proof -
  have inc: "unat (ch_prescale c + 1) = unat (ch_prescale c) + 1"
    using assms by (simp add: channel_ok_def unat_word_ariths)
  have lim: "unat (prescale_limit a) \<le> 342" for a
    by (simp add: prescale_limit_def)
  let ?c = "snd (channel_tick c)"
  have ok: "channel_ok ?c"
  proof (cases "ch_prescale c + 1 \<ge> prescale_limit (ch_control c AND 0x0F)")
    case True
    with assms show ?thesis
      by (simp add: channel_tick_def Let_def channel_clock_ok channel_ok_def [of "c\<lparr>ch_prescale := _\<rparr>"]
          channel_ok_def [of c])
  next
    case False
    then have "unat (ch_prescale c) + 1 < 342"
      using inc lim [of "ch_control c AND 0x0F"] by (simp add: word_le_nat_alt)
    with False assms inc show ?thesis by (simp add: channel_tick_def Let_def channel_ok_def)
  qed
  have "fst (channel_tick c) = ch_output ?c * ch_volume ?c"
    by (simp add: channel_tick_def Let_def)
  moreover have "ch_output ?c = 0 \<or> ch_output ?c = 1" "unat (ch_volume ?c) < 16"
    using ok small_bit by (simp_all add: channel_ok_def)
  ultimately show ?thesis using ok by auto
qed

lemma audio_ok_new [simp]: "audio_ok audio_new"
  by (simp add: audio_ok_def audio_new_def channel_default_def channel_ok_def)

lemma audio_tick_ok [simp]: "audio_ok au \<Longrightarrow> audio_ok (audio_tick au)"
  using channel_tick_ok [of "au_channels au ! 0"] channel_tick_ok [of "au_channels au ! 1"]
  by (auto simp: audio_ok_def audio_tick_def split_beta Let_def unat_word_ariths)

text \<open>
  the mixed sample is the sum of the two channels' volumes, each gated by its output bit; it
  never leaves \<open>0..=30\<close>, so neither the product nor the sum overflows a byte.
\<close>

theorem audio_mix_bound:
  assumes "audio_ok au"
  shows "let au' = audio_tick au; c0 = au_channels au' ! 0; c1 = au_channels au' ! 1 in
    audio_ok au' \<and> unat (sample au') \<le> 30 \<and>
    unat (sample au') = unat (ch_output c0) * unat (ch_volume c0) + unat (ch_output c1) * unat (ch_volume c1)"
proof -
  have "channel_ok (au_channels au ! 0)" "channel_ok (au_channels au ! 1)"
    using assms by (simp_all add: audio_ok_def)
  from this [THEN channel_tick_ok] show ?thesis
    using audio_tick_ok [OF assms]
    by (auto simp: audio_tick_def split_beta Let_def unat_word_ariths sample_def)
qed

definition loud :: audio where
  "loud = audio_new\<lparr>au_channels := [channel_default\<lparr>ch_volume := 15\<rparr>, channel_default\<lparr>ch_volume := 15\<rparr>]\<rparr>"

lemma audio_mix_bound_witness: "audio_ok loud \<and> unat (sample (audio_tick loud)) \<le> 30 \<and>
    sample (audio_tick loud) = 30"
proof -
  have ok: "audio_ok loud"
    by (simp add: loud_def audio_ok_def audio_new_def channel_default_def channel_ok_def)
  show ?thesis
    using audio_mix_bound [OF ok] ok
    by (simp add: Let_def loud_def audio_new_def channel_default_def audio_tick_def channel_tick_def
        prescale_limit_def sample_def word_le_nat_alt)
qed

subsection \<open>Periods of the shift registers\<close>

definition orbit4 :: "u8 list" where
  "orbit4 = [1, 2, 4, 9, 3, 6, 13, 10, 5, 11, 7, 15, 14, 12, 8]"

definition orbit5 :: "u8 list" where
  "orbit5 = [1, 2, 4, 8, 17, 3, 6, 12, 25, 18, 5, 10, 21, 11, 23, 15, 31, 30, 28, 24, 16]"

definition poly4_next :: "u8 \<Rightarrow> u8" where "poly4_next p = shift4 (in4 p) p"
definition poly5_next :: "u8 \<Rightarrow> u8" where "poly5_next p = shift5 (in5 p) p"

lemma orbit4_rotates: "map poly4_next orbit4 = rotate1 orbit4" "distinct orbit4"
  by (simp_all add: orbit4_def poly4_next_def shift4_def in4_def)

lemma orbit5_rotates: "map poly5_next orbit5 = rotate1 orbit5" "distinct orbit5"
  by (simp_all add: orbit5_def poly5_next_def shift5_def in5_def)

lemma small_word8: "unat (x :: u8) < n \<Longrightarrow> x \<in> word_of_nat ` {..<n}"
  by (rule image_eqI [of _ _ "unat x"]) simp_all

lemma orbit4_all: "x \<noteq> 0 \<Longrightarrow> unat x < 16 \<Longrightarrow> x \<in> set orbit4"
  by (drule small_word8) (auto simp: orbit4_def lessThan_nat_numeral lessThan_Suc)

lemma orbit_lengths [simp]: "length orbit4 = 15" "length orbit5 = 21"
  by (simp_all add: orbit4_def orbit5_def eval_nat_numeral)

lemmas orbit_period4 = least_period [OF orbit4_rotates, unfolded orbit_lengths]
lemmas orbit_period5 = least_period [OF orbit5_rotates, unfolded orbit_lengths]

text \<open>The other cycles of the 5-bit register: lengths 7, 3 and 1 beside 21.\<close>

definition orbits5 :: "u8 list list" where
  "orbits5 = [orbit5, [0], [7, 14, 29, 26, 20, 9, 19], [13, 27, 22]]"

lemma orbits5_rotate: "\<forall>xs \<in> set orbits5. map poly5_next xs = rotate1 xs \<and> length xs \<in> {1, 3, 7, 21}"
  by (simp add: orbits5_def orbit5_def poly5_next_def shift5_def in5_def)

lemma orbits5_all: "unat x < 32 \<Longrightarrow> \<exists>xs \<in> set orbits5. x \<in> set xs"
  by (drule small_word8) (auto simp: orbits5_def orbit5_def lessThan_nat_numeral lessThan_Suc)

lemma poly5_21: "unat x < 32 \<Longrightarrow> (poly5_next ^^ 21) x = x"
proof -
  assume "unat x < 32"
  then obtain xs i where xs: "xs \<in> set orbits5" "i < length xs" "x = xs ! i"
    using orbits5_all by (metis in_set_conv_nth)
  with orbits5_rotate have r: "map poly5_next xs = rotate1 xs" "length xs \<in> {1, 3, 7, 21}" by auto
  have "21 mod length xs = 0" using r(2) by auto
  then have "(i + 21) mod length xs = i"
    using xs(2) by (metis mod_add_right_eq mod_less add_0_right)
  then show ?thesis using funpow_rotates [OF r(1) xs(2), of 21] xs(3) by simp
qed


subsection \<open>Periods of the sound modes\<close>

lemma mode1_poly4: "ch_poly4 ((waveform 1 ^^ m) c) = (poly4_next ^^ m) (ch_poly4 c)"
  by (induction m) (simp_all add: waveform_def Let_def poly4_next_def)

definition mode_poly5 :: "u8 list" where
  "mode_poly5 = [6, 7, 9, 10, 14, 15]"

lemma waveform_poly5: "audc \<in> set mode_poly5 \<Longrightarrow> ch_poly5 (waveform audc c) = poly5_next (ch_poly5 c)"
  by (auto simp: waveform_def mode_poly5_def Let_def poly5_next_def)

lemma mode_poly5_steps: "audc \<in> set mode_poly5 \<Longrightarrow>
    ch_poly5 ((waveform audc ^^ m) c) = (poly5_next ^^ m) (ch_poly5 c)"
  by (induction m) (simp_all add: waveform_poly5)

text \<open>
  mode 1 is a maximal-length 4-bit sequence: from any non-zero register it repeats exactly
  every 15 divided clocks.
\<close>

theorem mode1_period:
  assumes "ch_poly4 c \<noteq> 0" "unat (ch_poly4 c) < 16"
  shows "ch_poly4 ((waveform 1 ^^ m) c) = ch_poly4 c \<longleftrightarrow> 15 dvd m"
  using orbit_period4 [OF orbit4_all [OF assms], of m] by (simp add: mode1_poly4)

lemma mode1_period_witness:
  "ch_poly4 ((waveform 1 ^^ 30) channel_default) = 1 \<and> ch_poly4 ((waveform 1 ^^ 31) channel_default) \<noteq> 1"
  using mode1_period [of channel_default 30] mode1_period [of channel_default 31]
  by (simp add: channel_default_def)

text \<open>
  the 5-bit register, which the modes commented ``divide-by-31'' and ``5-bit poly'' clock,
  repeats every 21 clocks from its power-on value 1, and not every 31: the feedback from bits 4
  and 3 is not a maximal-length one.
\<close>

theorem mode_poly5_period:
  assumes "audc \<in> set mode_poly5" "ch_poly5 c = 1"
  shows "ch_poly5 ((waveform audc ^^ m) c) = 1 \<longleftrightarrow> 21 dvd m"
  using orbit_period5 [of 1 m] by (simp add: mode_poly5_steps assms orbit5_def)

lemma mode_poly5_period_witness:
  "ch_poly5 ((waveform 9 ^^ 42) channel_default) = 1 \<and> ch_poly5 ((waveform 9 ^^ 31) channel_default) \<noteq> 1"
  using mode_poly5_period [of 9 channel_default 42] mode_poly5_period [of 9 channel_default 31]
  by (simp add: channel_default_def mode_poly5_def)

text \<open>
  Mode 8 feeds the 4-bit register with the bit that just entered the 5-bit one, so after four
  clocks it holds the low bits of that register, and the feedback is the 5-bit one.
\<close>

definition agree :: "nat \<Rightarrow> channel \<Rightarrow> bool" where
  "agree k c \<longleftrightarrow> (\<forall>i < k. bit (ch_poly4 c) i = bit (ch_poly5 c) i)"

lemma bit_shift4: "bit (shift4 (i AND 1) p) n \<longleftrightarrow> n < 4 \<and> (if n = 0 then bit i 0 else bit p (n - 1))"
proof -
  have m: "(0x0F :: u8) = mask 4" by (simp add: mask_eq_exp_minus_1)
  show ?thesis
    unfolding shift4_def m
    by (cases n) (auto simp only: bit_and_iff bit_or_iff bit_push_bit_iff bit_mask_iff bit_1_iff
      diff_Suc_1 possible_bit_word, auto)
qed

lemma bit_shift5: "bit (shift5 (i AND 1) p) n \<longleftrightarrow> n < 5 \<and> (if n = 0 then bit i 0 else bit p (n - 1))"
proof -
  have m: "(0x1F :: u8) = mask 5" by (simp add: mask_eq_exp_minus_1)
  show ?thesis
    unfolding shift5_def m
    by (cases n) (auto simp only: bit_and_iff bit_or_iff bit_push_bit_iff bit_mask_iff bit_1_iff
      diff_Suc_1 possible_bit_word, auto)
qed

lemma mode8_output: "ch_output (waveform 8 c) = ch_poly5 (waveform 8 c) AND 1"
  by (rule bit_word_eqI)
    (auto simp: waveform_def Let_def bit_and_iff bit_1_iff bit_shift4)

lemma mode8_bits:
  "bit (ch_poly5 (waveform 8 c)) n \<longleftrightarrow> n < 5 \<and> (if n = 0 then bit (ch_poly5 c) 4 \<noteq> bit (ch_poly4 c) 3
     else bit (ch_poly5 c) (n - 1))"
  "bit (ch_poly4 (waveform 8 c)) n \<longleftrightarrow> n < 4 \<and> (if n = 0 then bit (ch_poly5 c) 4 \<noteq> bit (ch_poly4 c) 3
     else bit (ch_poly4 c) (n - 1))"
  by (simp_all add: waveform_def Let_def bit_shift4 bit_shift5 bit_xor_iff bit_drop_bit_eq)

lemma mode8_small: "unat (ch_poly5 (waveform 8 c)) < 32"
  by (simp add: waveform_def Let_def)

lemma mode8_agree: "k < 4 \<Longrightarrow> agree k c \<Longrightarrow> agree (Suc k) (waveform 8 c)"
  by (auto simp: agree_def mode8_bits)

lemma mode8_agree_mono: "agree 4 c \<Longrightarrow> agree 3 c"
  by (simp add: agree_def)

lemma mode8_poly5: "agree 4 c \<Longrightarrow> ch_poly5 (waveform 8 c) = poly5_next (ch_poly5 c)"
  by (rule bit_word_eqI)
    (auto simp: mode8_bits poly5_next_def in5_def bit_shift5 bit_xor_iff bit_drop_bit_eq agree_def)

lemma mode8_settles: "k \<le> 4 \<Longrightarrow> agree k ((waveform 8 ^^ k) c)"
proof (induction k)
  case (Suc k)
  then show ?case using mode8_agree [of k] by simp
qed (simp add: agree_def)

lemma mode8_settled: "agree 4 c \<Longrightarrow> agree 4 ((waveform 8 ^^ n) c) \<and>
    ch_poly5 ((waveform 8 ^^ n) c) = (poly5_next ^^ n) (ch_poly5 c)"
proof (induction n)
  case (Suc n)
  then show ?case
    using mode8_agree [of 3] mode8_agree_mono by (simp add: mode8_poly5)
qed simp

text \<open>
  the mode commented ``9-bit poly (white noise)'' repeats every 21 divided clocks, from the
  fifth on and whatever the registers held: it has no 511-clock sequence.
\<close>

theorem mode8_period:
  "n \<ge> 5 \<Longrightarrow> ch_output ((waveform 8 ^^ (n + 21)) c) = ch_output ((waveform 8 ^^ n) c)"
proof -
  assume "n \<ge> 5"
  then obtain m where n: "n = Suc m + 4"
    by (auto dest: le_Suc_ex)
  define c4 where "c4 = (waveform 8 ^^ 4) c"
  have a: "agree 4 c4" using mode8_settles [of 4 c] by (simp add: c4_def)
  have steps: "(waveform 8 ^^ (k + 4)) c = (waveform 8 ^^ k) c4" for k
    by (simp only: funpow_add o_apply c4_def)
  have out: "ch_output ((waveform 8 ^^ (Suc k + 4)) c) = (poly5_next ^^ Suc k) (ch_poly5 c4) AND 1" for k
    unfolding steps using mode8_settled [OF a, of "Suc k"]
    by (simp add: mode8_output [of "(waveform 8 ^^ k) c4"])
  have "unat (ch_poly5 c4) < 32"
    unfolding c4_def using mode8_small [of "(waveform 8 ^^ 3) c"] by (simp add: numeral_eq_Suc)
  then have "(poly5_next ^^ (Suc m + 21)) (ch_poly5 c4) = (poly5_next ^^ Suc m) (ch_poly5 c4)"
    by (simp only: funpow_add o_apply poly5_21)
  moreover have "n + 21 = Suc (m + 21) + 4" "Suc m + 21 = Suc (m + 21)" using n by simp_all
  ultimately show ?thesis
    using out [of m] out [of "m + 21"] n by metis
qed

lemma mode8_period_witness:
  "ch_output ((waveform 8 ^^ 26) channel_default) = ch_output ((waveform 8 ^^ 5) channel_default)"
  using mode8_period [of 5 channel_default] by simp

end
