(* ===== verification/Paddle.thy ===== *)
theory Paddle
  imports Prelude
begin

text \<open>
  The paddle inputs \<open>INPT0..INPT3\<close> (\<open>crates/rusty2600-tia/src/paddle.rs\<close>): an RC circuit
  simulated in \<open>f64\<close>. IEEE arithmetic and \<open>libm::exp\<close> are not the repository's code: the model
  takes them as the parameter \<open>F\<close>, a record of the operations the source uses, and is
  polymorphic in the type \<open>'f\<close> of the numbers, so every expression is written as in the source
  and nothing is assumed of it. \<open>f_lit m e\<close> is the literal \<open>m * 10 ^ e\<close>.
\<close>

record 'f fops =
  f_lit :: "nat \<Rightarrow> int \<Rightarrow> 'f"
  f_of_u8 :: "u8 \<Rightarrow> 'f"
  f_of_u64 :: "u64 \<Rightarrow> 'f"
  f_add :: "'f \<Rightarrow> 'f \<Rightarrow> 'f"
  f_sub :: "'f \<Rightarrow> 'f \<Rightarrow> 'f"
  f_mul :: "'f \<Rightarrow> 'f \<Rightarrow> 'f"
  f_div :: "'f \<Rightarrow> 'f \<Rightarrow> 'f"
  f_neg :: "'f \<Rightarrow> 'f"
  f_exp :: "'f \<Rightarrow> 'f"
  f_gt :: "'f \<Rightarrow> 'f \<Rightarrow> bool"

subsection \<open>Constants of the circuit\<close>

definition R0 :: "'f fops \<Rightarrow> 'f" where "R0 F = f_lit F 1800 0"
definition CAP :: "'f fops \<Rightarrow> 'f" where "CAP F = f_lit F 68 (-9)"
definition R_DUMP :: "'f fops \<Rightarrow> 'f" where "R_DUMP F = f_lit F 50 0"
definition U_SUPP :: "'f fops \<Rightarrow> 'f" where "U_SUPP F = f_lit F 5 0"
definition MAX_POT_RESISTANCE :: "'f fops \<Rightarrow> 'f" where "MAX_POT_RESISTANCE F = f_lit F 1000000 0"
definition TRIPPOINT_LINES :: "'f fops \<Rightarrow> 'f" where "TRIPPOINT_LINES F = f_lit F 379 0"

definition NTSC_CLOCK_FREQ :: "'f fops \<Rightarrow> 'f" where
  "NTSC_CLOCK_FREQ F = f_mul F (f_mul F (f_lit F 60 0) (f_lit F 228 0)) (f_lit F 262 0)"

definition position_to_resistance :: "'f fops \<Rightarrow> u8 \<Rightarrow> 'f" where
  "position_to_resistance F position =
     f_mul F (f_div F (f_of_u8 F position) (f_lit F 255 0)) (MAX_POT_RESISTANCE F)"

definition ntsc_threshold :: "'f fops \<Rightarrow> 'f" where
  "ntsc_threshold F = f_mul F (U_SUPP F) (f_sub F (f_lit F 1 0) (f_exp F
     (f_div F (f_div F (f_div F (f_mul F (f_neg F (TRIPPOINT_LINES F)) (f_lit F 228 0))
       (NTSC_CLOCK_FREQ F)) (f_add F (MAX_POT_RESISTANCE F) (R0 F))) (CAP F))))"

subsection \<open>State and operations\<close>

datatype 'f connection = Vcc 'f | Disconnected

record 'f paddle =
  pd_u :: 'f
  pd_u_thresh :: 'f
  pd_connection :: "'f connection"
  pd_last_timestamp :: u64
  pd_is_dumped :: bool

definition paddle_default :: "'f fops \<Rightarrow> 'f paddle" where
  "paddle_default F = \<lparr>pd_u = f_lit F 0 0, pd_u_thresh = ntsc_threshold F,
     pd_connection = Disconnected, pd_last_timestamp = 0, pd_is_dumped = False\<rparr>"

definition update_charge :: "'f fops \<Rightarrow> u64 \<Rightarrow> 'f paddle \<Rightarrow> 'f paddle" where
  "update_charge F timestamp p = (let
     elapsed = f_of_u64 F (timestamp - pd_last_timestamp p);
     p = (if pd_is_dumped p then
            p\<lparr>pd_u := f_mul F (pd_u p) (f_exp F
               (f_div F (f_div F (f_div F (f_neg F elapsed) (R_DUMP F)) (CAP F)) (NTSC_CLOCK_FREQ F)))\<rparr>
          else case pd_connection p of
            Vcc resistance \<Rightarrow>
              p\<lparr>pd_u := f_mul F (U_SUPP F) (f_sub F (f_lit F 1 0)
                 (f_mul F (f_sub F (f_lit F 1 0) (f_div F (pd_u p) (U_SUPP F)))
                    (f_exp F (f_div F (f_div F (f_div F (f_neg F elapsed)
                       (f_add F resistance (R0 F))) (CAP F)) (NTSC_CLOCK_FREQ F)))))\<rparr>
          | Disconnected \<Rightarrow> p)
   in p\<lparr>pd_last_timestamp := timestamp\<rparr>)"

definition set_position :: "'f fops \<Rightarrow> u8 \<Rightarrow> u64 \<Rightarrow> 'f paddle \<Rightarrow> 'f paddle" where
  "set_position F position timestamp p =
     (update_charge F timestamp p)\<lparr>pd_connection := Vcc (position_to_resistance F position)\<rparr>"

definition paddle_vblank :: "'f fops \<Rightarrow> u8 \<Rightarrow> u64 \<Rightarrow> 'f paddle \<Rightarrow> 'f paddle" where
  "paddle_vblank F v timestamp p = (let
     p = update_charge F timestamp p;
     was_dumped = pd_is_dumped p;
     p = (if v AND 0x80 \<noteq> 0 then p\<lparr>pd_is_dumped := True\<rparr>
          else if was_dumped then p\<lparr>pd_is_dumped := False\<rparr> else p)
   in p\<lparr>pd_last_timestamp := timestamp\<rparr>)"

definition inpt :: "'f fops \<Rightarrow> u64 \<Rightarrow> 'f paddle \<Rightarrow> u8 \<times> 'f paddle" where
  "inpt F timestamp p = (let
     p = update_charge F timestamp p;
     high = (\<not> pd_is_dumped p \<and> f_gt F (pd_u p) (pd_u_thresh p))
   in (if high then 0x80 else 0, p))"

subsection \<open>The dump\<close>

lemma update_charge_simps [simp]:
  "pd_is_dumped (update_charge F t p) = pd_is_dumped p"
  "pd_u_thresh (update_charge F t p) = pd_u_thresh p"
  "pd_connection (update_charge F t p) = pd_connection p"
  "pd_last_timestamp (update_charge F t p) = t"
  by (simp_all add: update_charge_def Let_def split: connection.split)

lemma paddle_vblank_dumped [simp]: "pd_is_dumped (paddle_vblank F v t p) \<longleftrightarrow> v AND 0x80 \<noteq> 0"
  by (simp add: paddle_vblank_def Let_def)

text \<open>
  a \<open>VBLANK\<close> write decides what its input reads until the next one: with bit 7 set the
  capacitor is grounded and the input is low however long one waits; with it clear the input is
  high exactly when the charge has passed the comparator threshold.
\<close>

theorem paddle_dump:
  "fst (inpt F t' (paddle_vblank F v t p)) =
     (if v AND 0x80 \<noteq> 0 then 0
      else if f_gt F (pd_u (update_charge F t' (paddle_vblank F v t p))) (pd_u_thresh p)
      then 0x80 else 0)"
proof -
  have "pd_u_thresh (paddle_vblank F v t p) = pd_u_thresh p"
    by (simp add: paddle_vblank_def Let_def)
  then show ?thesis by (simp add: inpt_def Let_def)
qed

end
