(* ===== verification/Tia.thy ===== *)
theory Tia
  imports Audio Paddle
begin

text \<open>
  The TIA (\<open>crates/rusty2600-tia/src/lib.rs\<close>): the register file, the beam position and the pixel
  pipeline. \<open>write_register\<close> and \<open>tia_read\<close> are the CPU's side; \<open>tick_color_clock\<close> advances the
  beam by one of the 228 clocks of a line, renders one pixel with its collisions, clocks the
  audio and appends to the two output buffers. The optional \<open>hd-pack\<close> feature (off by default,
  output only) is not modelled. \<open>F\<close> is the floating-point parameter of the paddle circuit.
\<close>

subsection \<open>Register numbers\<close>

abbreviation (input) VSYNC :: u8 where "VSYNC \<equiv> 0x00"
abbreviation (input) VBLANK :: u8 where "VBLANK \<equiv> 0x01"
abbreviation (input) WSYNC :: u8 where "WSYNC \<equiv> 0x02"
abbreviation (input) RSYNC :: u8 where "RSYNC \<equiv> 0x03"
abbreviation (input) NUSIZ0 :: u8 where "NUSIZ0 \<equiv> 0x04"
abbreviation (input) NUSIZ1 :: u8 where "NUSIZ1 \<equiv> 0x05"
abbreviation (input) COLUP0 :: u8 where "COLUP0 \<equiv> 0x06"
abbreviation (input) COLUP1 :: u8 where "COLUP1 \<equiv> 0x07"
abbreviation (input) COLUPF :: u8 where "COLUPF \<equiv> 0x08"
abbreviation (input) COLUBK :: u8 where "COLUBK \<equiv> 0x09"
abbreviation (input) CTRLPF :: u8 where "CTRLPF \<equiv> 0x0A"
abbreviation (input) REFP0 :: u8 where "REFP0 \<equiv> 0x0B"
abbreviation (input) REFP1 :: u8 where "REFP1 \<equiv> 0x0C"
abbreviation (input) PF0 :: u8 where "PF0 \<equiv> 0x0D"
abbreviation (input) PF1 :: u8 where "PF1 \<equiv> 0x0E"
abbreviation (input) PF2 :: u8 where "PF2 \<equiv> 0x0F"
abbreviation (input) RESP0 :: u8 where "RESP0 \<equiv> 0x10"
abbreviation (input) RESP1 :: u8 where "RESP1 \<equiv> 0x11"
abbreviation (input) RESM0 :: u8 where "RESM0 \<equiv> 0x12"
abbreviation (input) RESM1 :: u8 where "RESM1 \<equiv> 0x13"
abbreviation (input) RESBL :: u8 where "RESBL \<equiv> 0x14"
abbreviation (input) AUDC0 :: u8 where "AUDC0 \<equiv> 0x15"
abbreviation (input) AUDC1 :: u8 where "AUDC1 \<equiv> 0x16"
abbreviation (input) AUDF0 :: u8 where "AUDF0 \<equiv> 0x17"
abbreviation (input) AUDF1 :: u8 where "AUDF1 \<equiv> 0x18"
abbreviation (input) AUDV0 :: u8 where "AUDV0 \<equiv> 0x19"
abbreviation (input) AUDV1 :: u8 where "AUDV1 \<equiv> 0x1A"
abbreviation (input) GRP0 :: u8 where "GRP0 \<equiv> 0x1B"
abbreviation (input) GRP1 :: u8 where "GRP1 \<equiv> 0x1C"
abbreviation (input) ENAM0 :: u8 where "ENAM0 \<equiv> 0x1D"
abbreviation (input) ENAM1 :: u8 where "ENAM1 \<equiv> 0x1E"
abbreviation (input) ENABL :: u8 where "ENABL \<equiv> 0x1F"
abbreviation (input) HMP0 :: u8 where "HMP0 \<equiv> 0x20"
abbreviation (input) HMP1 :: u8 where "HMP1 \<equiv> 0x21"
abbreviation (input) HMM0 :: u8 where "HMM0 \<equiv> 0x22"
abbreviation (input) HMM1 :: u8 where "HMM1 \<equiv> 0x23"
abbreviation (input) HMBL :: u8 where "HMBL \<equiv> 0x24"
abbreviation (input) VDELP0 :: u8 where "VDELP0 \<equiv> 0x25"
abbreviation (input) VDELP1 :: u8 where "VDELP1 \<equiv> 0x26"
abbreviation (input) VDELBL :: u8 where "VDELBL \<equiv> 0x27"
abbreviation (input) RESMP0 :: u8 where "RESMP0 \<equiv> 0x28"
abbreviation (input) RESMP1 :: u8 where "RESMP1 \<equiv> 0x29"
abbreviation (input) HMOVE :: u8 where "HMOVE \<equiv> 0x2A"
abbreviation (input) HMCLR :: u8 where "HMCLR \<equiv> 0x2B"
abbreviation (input) CXCLR :: u8 where "CXCLR \<equiv> 0x2C"
abbreviation (input) CXM0P :: u8 where "CXM0P \<equiv> 0x00"
abbreviation (input) CXM1P :: u8 where "CXM1P \<equiv> 0x01"
abbreviation (input) CXP0FB :: u8 where "CXP0FB \<equiv> 0x02"
abbreviation (input) CXP1FB :: u8 where "CXP1FB \<equiv> 0x03"
abbreviation (input) CXM0FB :: u8 where "CXM0FB \<equiv> 0x04"
abbreviation (input) CXM1FB :: u8 where "CXM1FB \<equiv> 0x05"
abbreviation (input) CXBLPF :: u8 where "CXBLPF \<equiv> 0x06"
abbreviation (input) CXPPMM :: u8 where "CXPPMM \<equiv> 0x07"
abbreviation (input) INPT0 :: u8 where "INPT0 \<equiv> 0x08"
abbreviation (input) INPT1 :: u8 where "INPT1 \<equiv> 0x09"
abbreviation (input) INPT2 :: u8 where "INPT2 \<equiv> 0x0A"
abbreviation (input) INPT3 :: u8 where "INPT3 \<equiv> 0x0B"
abbreviation (input) INPT4 :: u8 where "INPT4 \<equiv> 0x0C"
abbreviation (input) INPT5 :: u8 where "INPT5 \<equiv> 0x0D"

subsection \<open>State\<close>

record objects =
  ob_pf :: u32
  ob_grp :: "u8 list"
  ob_nusiz :: "u8 list"
  ob_pos :: "u8 list"
  ob_hm :: "u8 list"
  ob_colu :: "u8 list"
  ob_vblank :: u8
  ob_vsync :: u8
  ob_ctrlpf :: u8
  ob_refp :: "bool list"
  ob_enam :: "bool list"
  ob_enabl :: bool
  ob_vdelp :: "bool list"
  ob_vdelbl :: bool
  ob_resmp :: "bool list"
  ob_old_grp :: "u8 list"

definition objects_default :: objects where
  "objects_default = \<lparr>ob_pf = 0, ob_grp = [0, 0], ob_nusiz = [0, 0], ob_pos = replicate 5 0,
     ob_hm = replicate 5 0, ob_colu = replicate 4 0, ob_vblank = 0, ob_vsync = 0, ob_ctrlpf = 0,
     ob_refp = [False, False], ob_enam = [False, False], ob_enabl = False,
     ob_vdelp = [False, False], ob_vdelbl = False, ob_resmp = [False, False], ob_old_grp = [0, 0]\<rparr>"

record collisions =
  cxm0p :: u8
  cxm1p :: u8
  cxp0fb :: u8
  cxp1fb :: u8
  cxm0fb :: u8
  cxm1fb :: u8
  cxblpf :: u8
  cxppmm :: u8

definition collisions_default :: collisions where
  "collisions_default = \<lparr>cxm0p = 0, cxm1p = 0, cxp0fb = 0, cxp1fb = 0, cxm0fb = 0, cxm1fb = 0,
     cxblpf = 0, cxppmm = 0\<rparr>"

record 'f tia =
  tia_objects :: objects
  tia_collisions :: collisions
  tia_audio :: audio
  tia_color_clock :: u16
  tia_scanline :: u16
  tia_inpt :: "u8 list"
  tia_current_color :: u8
  tia_rdy_stall :: bool
  tia_paddles :: "'f paddle list"
  tia_paddle_clock :: u64
  tia_video_buffer :: "u8 list"
  tia_audio_buffer :: "u8 list"

definition tia_default :: "'f fops \<Rightarrow> 'f tia" where
  "tia_default F = \<lparr>tia_objects = objects_default, tia_collisions = collisions_default,
     tia_audio = audio_new, tia_color_clock = 0, tia_scanline = 0,
     tia_inpt = replicate 6 0, tia_current_color = 0, tia_rdy_stall = False,
     tia_paddles = replicate 4 (paddle_default F), tia_paddle_clock = 0,
     tia_video_buffer = [], tia_audio_buffer = []\<rparr>"

definition tia_new :: "'f fops \<Rightarrow> 'f tia" where
  "tia_new F = (let t = tia_default F in t\<lparr>tia_inpt := (tia_inpt t)[4 := 0x80, 5 := 0x80]\<rparr>)"

text \<open>Assignments into the nested structures, \<open>self.objects.pos[i] = v\<close> and the like.\<close>

definition on_objects :: "(objects \<Rightarrow> objects) \<Rightarrow> 'f tia \<Rightarrow> 'f tia" where
  "on_objects f t = t\<lparr>tia_objects := f (tia_objects t)\<rparr>"

definition on_channel :: "nat \<Rightarrow> (channel \<Rightarrow> channel) \<Rightarrow> 'f tia \<Rightarrow> 'f tia" where
  "on_channel i f t = t\<lparr>tia_audio := (tia_audio t)\<lparr>au_channels :=
     (au_channels (tia_audio t))[i := f (au_channels (tia_audio t) ! i)]\<rparr>\<rparr>"

subsection \<open>Register writes and reads\<close>

definition sign_extend_4bit :: "u8 \<Rightarrow> u8" where
  "sign_extend_4bit v = (let v = drop_bit 4 v in if v AND 0x08 \<noteq> 0 then v OR 0xF0 else v)"

definition resolve_position :: "u16 \<Rightarrow> 'f tia \<Rightarrow> u8" where
  "resolve_position delay t = (let visible_clock = max (tia_color_clock t) 68 - 68
     in ucast ((visible_clock + delay) mod 160))"

text \<open>One object's \<open>HMOVE\<close>: the source computes in \<open>i16\<close>, which no byte difference overflows.\<close>

definition hmove1 :: "u8 \<Rightarrow> u8 \<Rightarrow> u8" where
  "hmove1 pos hm = (let
     p = uint pos - sint hm;
     p = (if p < 0 then p + 160 else p)
   in word_of_int (p mod 160))"

definition set_pos :: "nat \<Rightarrow> u16 \<Rightarrow> 'f tia \<Rightarrow> 'f tia" where
  "set_pos i delay t = on_objects (\<lambda>ob. ob\<lparr>ob_pos := (ob_pos ob)[i := resolve_position delay t]\<rparr>) t"

definition write_register :: "'f fops \<Rightarrow> u8 \<Rightarrow> u8 \<Rightarrow> 'f tia \<Rightarrow> 'f tia" where
  "write_register F reg v t =
     (if reg = VSYNC then
        (let old_vsync = ob_vsync (tia_objects t);
             t = on_objects (\<lambda>ob. ob\<lparr>ob_vsync := v\<rparr>) t
         in if old_vsync AND 0x02 \<noteq> 0 \<and> v AND 0x02 = 0 then t\<lparr>tia_scanline := 0\<rparr> else t)
      else if reg = VBLANK then
        (let t = on_objects (\<lambda>ob. ob\<lparr>ob_vblank := v\<rparr>) t
         in t\<lparr>tia_paddles := map (paddle_vblank F v (tia_paddle_clock t)) (tia_paddles t)\<rparr>)
      else if reg = WSYNC then
        (if tia_color_clock t \<noteq> 0 then t\<lparr>tia_rdy_stall := True\<rparr> else t)
      else if reg = RSYNC then t\<lparr>tia_color_clock := 0\<rparr>
      else if reg = NUSIZ0 then on_objects (\<lambda>ob. ob\<lparr>ob_nusiz := (ob_nusiz ob)[0 := v]\<rparr>) t
      else if reg = NUSIZ1 then on_objects (\<lambda>ob. ob\<lparr>ob_nusiz := (ob_nusiz ob)[1 := v]\<rparr>) t
      else if reg = COLUP0 then on_objects (\<lambda>ob. ob\<lparr>ob_colu := (ob_colu ob)[0 := v]\<rparr>) t
      else if reg = COLUP1 then on_objects (\<lambda>ob. ob\<lparr>ob_colu := (ob_colu ob)[1 := v]\<rparr>) t
      else if reg = COLUPF then on_objects (\<lambda>ob. ob\<lparr>ob_colu := (ob_colu ob)[2 := v]\<rparr>) t
      else if reg = COLUBK then on_objects (\<lambda>ob. ob\<lparr>ob_colu := (ob_colu ob)[3 := v]\<rparr>) t
      else if reg = CTRLPF then on_objects (\<lambda>ob. ob\<lparr>ob_ctrlpf := v\<rparr>) t
      else if reg = REFP0 then on_objects (\<lambda>ob. ob\<lparr>ob_refp := (ob_refp ob)[0 := v AND 0x08 \<noteq> 0]\<rparr>) t
      else if reg = REFP1 then on_objects (\<lambda>ob. ob\<lparr>ob_refp := (ob_refp ob)[1 := v AND 0x08 \<noteq> 0]\<rparr>) t
      else if reg = PF0 then on_objects (\<lambda>ob. ob\<lparr>ob_pf :=
             (ob_pf ob AND 0x000FFFFF) OR push_bit 16 (ucast (drop_bit 4 v))\<rparr>) t
      else if reg = PF1 then on_objects (\<lambda>ob. ob\<lparr>ob_pf :=
             (ob_pf ob AND 0x000F00FF) OR push_bit 8 (ucast v)\<rparr>) t
      else if reg = PF2 then on_objects (\<lambda>ob. ob\<lparr>ob_pf := (ob_pf ob AND 0x000FFF00) OR ucast v\<rparr>) t
      else if reg = RESP0 then set_pos 0 5 t
      else if reg = RESP1 then set_pos 1 5 t
      else if reg = RESM0 then set_pos 2 4 t
      else if reg = RESM1 then set_pos 3 4 t
      else if reg = RESBL then set_pos 4 4 t
      else if reg = AUDC0 then on_channel 0 (\<lambda>c. c\<lparr>ch_control := v\<rparr>) t
      else if reg = AUDC1 then on_channel 1 (\<lambda>c. c\<lparr>ch_control := v\<rparr>) t
      else if reg = AUDF0 then on_channel 0 (\<lambda>c. c\<lparr>ch_freq := v AND 0x1F\<rparr>) t
      else if reg = AUDF1 then on_channel 1 (\<lambda>c. c\<lparr>ch_freq := v AND 0x1F\<rparr>) t
      else if reg = AUDV0 then on_channel 0 (\<lambda>c. c\<lparr>ch_volume := v AND 0x0F\<rparr>) t
      else if reg = AUDV1 then on_channel 1 (\<lambda>c. c\<lparr>ch_volume := v AND 0x0F\<rparr>) t
      else if reg = GRP0 then on_objects (\<lambda>ob. ob\<lparr>ob_old_grp := (ob_old_grp ob)[1 := ob_grp ob ! 1],
             ob_grp := (ob_grp ob)[0 := v]\<rparr>) t
      else if reg = GRP1 then on_objects (\<lambda>ob. ob\<lparr>ob_old_grp := (ob_old_grp ob)[0 := ob_grp ob ! 0],
             ob_grp := (ob_grp ob)[1 := v]\<rparr>) t
      else if reg = ENAM0 then on_objects (\<lambda>ob. ob\<lparr>ob_enam := (ob_enam ob)[0 := v AND 0x02 \<noteq> 0]\<rparr>) t
      else if reg = ENAM1 then on_objects (\<lambda>ob. ob\<lparr>ob_enam := (ob_enam ob)[1 := v AND 0x02 \<noteq> 0]\<rparr>) t
      else if reg = ENABL then on_objects (\<lambda>ob. ob\<lparr>ob_enabl := v AND 0x02 \<noteq> 0\<rparr>) t
      else if reg = HMP0 then on_objects (\<lambda>ob. ob\<lparr>ob_hm := (ob_hm ob)[0 := sign_extend_4bit v]\<rparr>) t
      else if reg = HMP1 then on_objects (\<lambda>ob. ob\<lparr>ob_hm := (ob_hm ob)[1 := sign_extend_4bit v]\<rparr>) t
      else if reg = HMM0 then on_objects (\<lambda>ob. ob\<lparr>ob_hm := (ob_hm ob)[2 := sign_extend_4bit v]\<rparr>) t
      else if reg = HMM1 then on_objects (\<lambda>ob. ob\<lparr>ob_hm := (ob_hm ob)[3 := sign_extend_4bit v]\<rparr>) t
      else if reg = HMBL then on_objects (\<lambda>ob. ob\<lparr>ob_hm := (ob_hm ob)[4 := sign_extend_4bit v]\<rparr>) t
      else if reg = VDELP0 then on_objects (\<lambda>ob. ob\<lparr>ob_vdelp := (ob_vdelp ob)[0 := v AND 0x01 \<noteq> 0]\<rparr>) t
      else if reg = VDELP1 then on_objects (\<lambda>ob. ob\<lparr>ob_vdelp := (ob_vdelp ob)[1 := v AND 0x01 \<noteq> 0]\<rparr>) t
      else if reg = VDELBL then on_objects (\<lambda>ob. ob\<lparr>ob_vdelbl := v AND 0x01 \<noteq> 0\<rparr>) t
      else if reg = RESMP0 then on_objects (\<lambda>ob. ob\<lparr>ob_resmp := (ob_resmp ob)[0 := v AND 0x02 \<noteq> 0]\<rparr>) t
      else if reg = RESMP1 then on_objects (\<lambda>ob. ob\<lparr>ob_resmp := (ob_resmp ob)[1 := v AND 0x02 \<noteq> 0]\<rparr>) t
      else if reg = HMOVE then on_objects (\<lambda>ob. ob\<lparr>ob_pos := map2 hmove1 (ob_pos ob) (ob_hm ob)\<rparr>) t
      else if reg = HMCLR then on_objects (\<lambda>ob. ob\<lparr>ob_hm := replicate 5 0\<rparr>) t
      else if reg = CXCLR then t\<lparr>tia_collisions := collisions_default\<rparr>
      else t)"

definition tia_write :: "'f fops \<Rightarrow> u16 \<Rightarrow> u8 \<Rightarrow> 'f tia \<Rightarrow> 'f tia" where
  "tia_write F addr v t = write_register F (ucast (addr AND 0x3F)) v t"

definition read_paddle :: "'f fops \<Rightarrow> nat \<Rightarrow> 'f tia \<Rightarrow> u8 \<times> 'f tia" where
  "read_paddle F i t = (let (v, p) = inpt F (tia_paddle_clock t) (tia_paddles t ! i)
     in (v, t\<lparr>tia_paddles := (tia_paddles t)[i := p]\<rparr>))"

definition tia_read :: "'f fops \<Rightarrow> u16 \<Rightarrow> 'f tia \<Rightarrow> u8 \<times> 'f tia" where
  "tia_read F addr t = (let reg = (ucast (addr AND 0x0F) :: u8); cx = tia_collisions t in
     if reg = CXM0P then (cxm0p cx, t)
     else if reg = CXM1P then (cxm1p cx, t)
     else if reg = CXP0FB then (cxp0fb cx, t)
     else if reg = CXP1FB then (cxp1fb cx, t)
     else if reg = CXM0FB then (cxm0fb cx, t)
     else if reg = CXM1FB then (cxm1fb cx, t)
     else if reg = CXBLPF then (cxblpf cx, t)
     else if reg = CXPPMM then (cxppmm cx, t)
     else if reg = INPT0 then read_paddle F 0 t
     else if reg = INPT1 then read_paddle F 1 t
     else if reg = INPT2 then read_paddle F 2 t
     else if reg = INPT3 then read_paddle F 3 t
     else if reg = INPT4 then (tia_inpt t ! 4, t)
     else if reg = INPT5 then (tia_inpt t ! 5, t)
     else (0, t))"

text \<open>\<open>self.paddles.get_mut(index)\<close>: an index past the four paddles is ignored.\<close>

definition set_paddle_position :: "'f fops \<Rightarrow> nat \<Rightarrow> u8 \<Rightarrow> 'f tia \<Rightarrow> 'f tia" where
  "set_paddle_position F index position t =
     (if index < length (tia_paddles t)
      then t\<lparr>tia_paddles := (tia_paddles t)[index :=
             set_position F position (tia_paddle_clock t) (tia_paddles t ! index)]\<rparr>
      else t)"

subsection \<open>The pixel pipeline\<close>

text \<open>The playfield bit that dot \<open>pf_idx\<close> of a half line shows: PF0 low to high, PF1 high to low,
  PF2 low to high.\<close>

definition pf_bit :: "u16 \<Rightarrow> nat" where
  "pf_bit pf_idx =
     (if pf_idx < 4 then 16 + unat pf_idx
      else if pf_idx < 12 then 19 - unat pf_idx
      else unat pf_idx - 12)"

definition playfield_pixel :: "objects \<Rightarrow> u16 \<Rightarrow> bool" where
  "playfield_pixel ob x = (let
     pf_idx = x div 4;
     reflect = (ob_ctrlpf ob AND 0x01 \<noteq> 0);
     pf_idx = (if pf_idx \<ge> 20 then (if reflect then 39 - pf_idx else pf_idx - 20) else pf_idx)
   in pf_idx < 20 \<and> ob_pf ob AND push_bit (pf_bit pf_idx) 1 \<noteq> 0)"

definition ball_pixel :: "objects \<Rightarrow> u16 \<Rightarrow> bool" where
  "ball_pixel ob x \<longleftrightarrow> ob_enabl ob \<and>
     (x + 160 - ucast (ob_pos ob ! 4)) mod 160 < push_bit (unat (drop_bit 4 (ob_ctrlpf ob) AND 0x03)) 1"

definition pm_copies :: "u8 \<Rightarrow> u16 list" where
  "pm_copies number_size =
     (if number_size \<in> {0, 5, 7} then [0]
      else if number_size = 1 then [0, 16]
      else if number_size = 2 then [0, 32]
      else if number_size = 3 then [0, 16, 32]
      else if number_size = 4 then [0, 64]
      else if number_size = 6 then [0, 32, 64]
      else [0])"

definition pm_scale :: "u8 \<Rightarrow> u16" where
  "pm_scale number_size = (if number_size = 5 then 2 else if number_size = 7 then 4 else 1)"

fun pm_search :: "u16 \<Rightarrow> u8 \<Rightarrow> bool \<Rightarrow> u16 list \<Rightarrow> u16 option" where
  "pm_search diff nusiz is_missile [] = None"
| "pm_search diff nusiz is_missile (start # rest) =
     (if diff \<ge> start then
        (let offset = diff - start in
         if is_missile then
           (if offset < push_bit (unat (drop_bit 4 nusiz AND 0x03)) 1 then Some 0
            else pm_search diff nusiz is_missile rest)
         else
           (let scale = pm_scale (nusiz AND 0x07) in
            if offset < 8 * scale then Some (offset div scale)
            else pm_search diff nusiz is_missile rest))
      else pm_search diff nusiz is_missile rest)"

definition check_pm :: "u16 \<Rightarrow> u16 \<Rightarrow> u8 \<Rightarrow> bool \<Rightarrow> u16 option" where
  "check_pm cc pos nusiz is_missile =
     pm_search ((cc + 160 - pos) mod 160) nusiz is_missile (pm_copies (nusiz AND 0x07))"

definition player_pixel :: "objects \<Rightarrow> nat \<Rightarrow> u16 \<Rightarrow> bool" where
  "player_pixel ob i x = (case check_pm x (ucast (ob_pos ob ! i)) (ob_nusiz ob ! i) False of
     Some offset \<Rightarrow>
       (let grp = (if ob_vdelp ob ! i then ob_old_grp ob ! i else ob_grp ob ! i);
            bt = (if ob_refp ob ! i then offset else 7 - offset)
        in grp AND push_bit (unat bt) 1 \<noteq> 0)
   | None \<Rightarrow> False)"

definition missile_pixel :: "objects \<Rightarrow> nat \<Rightarrow> u16 \<Rightarrow> bool" where
  "missile_pixel ob i x \<longleftrightarrow> ob_enam ob ! i \<and> \<not> ob_resmp ob ! i \<and>
     check_pm x (ucast (ob_pos ob ! (2 + i))) (ob_nusiz ob ! i) True \<noteq> None"

text \<open>What is on at a dot, in the order the source computes it.\<close>

record pixels =
  px_pf :: bool
  px_bl :: bool
  px_p0 :: bool
  px_p1 :: bool
  px_m0 :: bool
  px_m1 :: bool

definition pixels_at :: "objects \<Rightarrow> u16 \<Rightarrow> pixels" where
  "pixels_at ob x = \<lparr>px_pf = playfield_pixel ob x, px_bl = ball_pixel ob x,
     px_p0 = player_pixel ob 0 x, px_p1 = player_pixel ob 1 x,
     px_m0 = missile_pixel ob 0 x, px_m1 = missile_pixel ob 1 x\<rparr>"

definition latch :: "bool \<Rightarrow> u8 \<Rightarrow> u8 \<Rightarrow> u8" where
  "latch hit m r = (if hit then r OR m else r)"

definition collide :: "pixels \<Rightarrow> collisions \<Rightarrow> collisions" where
  "collide p cx = \<lparr>
     cxm0p = latch (px_m0 p \<and> px_p0 p) 0x40 (latch (px_m0 p \<and> px_p1 p) 0x80 (cxm0p cx)),
     cxm1p = latch (px_m1 p \<and> px_p1 p) 0x40 (latch (px_m1 p \<and> px_p0 p) 0x80 (cxm1p cx)),
     cxp0fb = latch (px_p0 p \<and> px_bl p) 0x40 (latch (px_p0 p \<and> px_pf p) 0x80 (cxp0fb cx)),
     cxp1fb = latch (px_p1 p \<and> px_bl p) 0x40 (latch (px_p1 p \<and> px_pf p) 0x80 (cxp1fb cx)),
     cxm0fb = latch (px_m0 p \<and> px_bl p) 0x40 (latch (px_m0 p \<and> px_pf p) 0x80 (cxm0fb cx)),
     cxm1fb = latch (px_m1 p \<and> px_bl p) 0x40 (latch (px_m1 p \<and> px_pf p) 0x80 (cxm1fb cx)),
     cxblpf = latch (px_bl p \<and> px_pf p) 0x80 (cxblpf cx),
     cxppmm = latch (px_m0 p \<and> px_m1 p) 0x40 (latch (px_p0 p \<and> px_p1 p) 0x80 (cxppmm cx))\<rparr>"

definition color_at :: "objects \<Rightarrow> u16 \<Rightarrow> pixels \<Rightarrow> u8" where
  "color_at ob x p = (let
     pf_priority = (ob_ctrlpf ob AND 0x04 \<noteq> 0);
     score_mode = (ob_ctrlpf ob AND 0x02 \<noteq> 0);
     pf_color = (if score_mode then (if x < 80 then ob_colu ob ! 0 else ob_colu ob ! 1)
                 else ob_colu ob ! 2);
     field_color = (if px_bl p \<and> \<not> px_pf p then ob_colu ob ! 2 else pf_color)
   in if pf_priority then
        (if px_pf p \<or> px_bl p then field_color
         else if px_p0 p \<or> px_m0 p then ob_colu ob ! 0
         else if px_p1 p \<or> px_m1 p then ob_colu ob ! 1
         else ob_colu ob ! 3)
      else
        (if px_p0 p \<or> px_m0 p then ob_colu ob ! 0
         else if px_p1 p \<or> px_m1 p then ob_colu ob ! 1
         else if px_pf p \<or> px_bl p then field_color
         else ob_colu ob ! 3))"

definition render_pixel :: "'f tia \<Rightarrow> 'f tia" where
  "render_pixel t =
     (if tia_color_clock t < 68 \<or> tia_scanline t \<ge> 300 then t\<lparr>tia_current_color := 0\<rparr>
      else (let
        x = tia_color_clock t - 68;
        p = pixels_at (tia_objects t) x
      in t\<lparr>tia_collisions := collide p (tia_collisions t),
           tia_current_color := color_at (tia_objects t) x p\<rparr>))"

subsection \<open>The beam\<close>

text \<open>\<open>Vec::resize\<close> to a larger length.\<close>

definition resize_to :: "nat \<Rightarrow> 'a \<Rightarrow> 'a list \<Rightarrow> 'a list" where
  "resize_to n v xs = take n xs @ replicate (n - length xs) v"

definition advance_beam :: "'f tia \<Rightarrow> 'f tia" where
  "advance_beam t = (let
     t = t\<lparr>tia_paddle_clock := tia_paddle_clock t + 1, tia_color_clock := tia_color_clock t + 1\<rparr>
   in if tia_color_clock t \<ge> 228
      then t\<lparr>tia_color_clock := 0, tia_scanline := tia_scanline t + 1, tia_rdy_stall := False\<rparr>
      else t)"

definition store_dot :: "'f tia \<Rightarrow> 'f tia option" where
  "store_dot t =
     (if tia_color_clock t \<ge> 68 \<and> unat (tia_scanline t) < 312 then do {
        let x = unat (tia_color_clock t - 68);
        let idx = unat (tia_scanline t) * 160 + x;
        let buf = (if length (tia_video_buffer t) \<le> idx
                   then resize_to (312 * 160) 0 (tia_video_buffer t) else tia_video_buffer t);
        buf \<leftarrow> upd_chk buf idx (tia_current_color t);
        Some (t\<lparr>tia_video_buffer := buf\<rparr>) }
      else Some t)"

definition push_sample :: "'f tia \<Rightarrow> 'f tia" where
  "push_sample t = (if tia_color_clock t = 114 \<or> tia_color_clock t = 227
     then t\<lparr>tia_audio_buffer := tia_audio_buffer t @ [sample (tia_audio t)]\<rparr> else t)"

definition tick_color_clock :: "'f tia \<Rightarrow> 'f tia option" where
  "tick_color_clock t = do {
     let t = render_pixel (advance_beam t);
     let t = t\<lparr>tia_audio := audio_tick (tia_audio t)\<rparr>;
     t \<leftarrow> store_dot t;
     Some (push_sample t) }"

end
