(* ===== verification/Tia_Props.thy ===== *)
theory Tia_Props
  imports Tia
begin

text \<open>
  The TIA's invariant \<open>tia_ok\<close> and what the chip promises under it: no access is out of range,
  the beam is a mixed-radix counter, a \<open>WSYNC\<close> stall ends at the start of the next line,
  positions stay on the line, collisions latch until \<open>CXCLR\<close>, and each dot shows the object that
  wins.
\<close>

subsection \<open>The invariant\<close>

definition objects_ok :: "objects \<Rightarrow> bool" where
  "objects_ok ob \<longleftrightarrow> length (ob_grp ob) = 2 \<and> length (ob_nusiz ob) = 2 \<and> length (ob_pos ob) = 5 \<and>
     length (ob_hm ob) = 5 \<and> length (ob_colu ob) = 4 \<and> length (ob_refp ob) = 2 \<and>
     length (ob_enam ob) = 2 \<and> length (ob_vdelp ob) = 2 \<and> length (ob_resmp ob) = 2 \<and>
     length (ob_old_grp ob) = 2 \<and> (\<forall>p \<in> set (ob_pos ob). unat p < 160)"

definition tia_ok :: "'f tia \<Rightarrow> bool" where
  "tia_ok t \<longleftrightarrow> objects_ok (tia_objects t) \<and> audio_ok (tia_audio t) \<and>
     unat (tia_color_clock t) < 228 \<and> length (tia_inpt t) = 6 \<and> length (tia_paddles t) = 4"

lemma objects_ok_default [simp]: "objects_ok objects_default"
  by (simp add: objects_ok_def objects_default_def)

lemma tia_ok_default [simp]: "tia_ok (tia_default F)"
  by (simp add: tia_ok_def tia_default_def)

lemma tia_ok_new [simp]: "tia_ok (tia_new F)"
  by (simp add: tia_ok_def tia_new_def tia_default_def Let_def)

lemma tia_ok_on_objects: "tia_ok t \<Longrightarrow> objects_ok (f (tia_objects t)) \<Longrightarrow> tia_ok (on_objects f t)"
  by (simp add: tia_ok_def on_objects_def)

lemma on_channel_ok:
  "tia_ok t \<Longrightarrow> (\<And>c. channel_ok c \<Longrightarrow> channel_ok (f c)) \<Longrightarrow> i < 2 \<Longrightarrow> tia_ok (on_channel i f t)"
  unfolding tia_ok_def audio_ok_def on_channel_def
  by (auto dest!: set_update_subset_insert [THEN subsetD] simp: nth_mem)

lemma set_pos_list: "\<forall>p \<in> set ps. unat p < n \<Longrightarrow> unat v < n \<Longrightarrow> \<forall>p \<in> set (ps[i := v]). unat p < n"
  by (auto dest!: set_update_subset_insert [THEN subsetD])

lemma resolve_position_bound: "unat (resolve_position d t) < 160"
proof -
  have "unat (x mod 160 :: u16) < 160" for x
    by (simp add: unat_mod)
  then show ?thesis
    unfolding resolve_position_def Let_def unat_ucast_16_8
    using mod_less_eq_dividend le_less_trans by blast
qed

lemma set_pos_ok: "tia_ok t \<Longrightarrow> tia_ok (set_pos i d t)"
  unfolding set_pos_def using resolve_position_bound [of d t]
  by (intro tia_ok_on_objects) (auto simp: tia_ok_def objects_ok_def
      dest!: set_update_subset_insert [THEN subsetD])

text \<open>
  \<open>HMOVE\<close> moves an object left by its motion register, around a line of 160 dots.
\<close>

theorem hmove1_mod: "uint (hmove1 p h) = (uint p - sint h) mod 160"
proof -
  have "0 \<le> x mod 160 \<and> x mod 160 < 256" for x :: int
    using pos_mod_bound [of 160 x] by simp
  moreover have "(x + 160) mod 160 = x mod 160" for x :: int by simp
  ultimately show ?thesis
    by (simp add: hmove1_def Let_def uint_word_of_int take_bit_eq_mod)
qed

lemma hmove1_bound: "unat (hmove1 p h) < 160"
  using hmove1_mod [of p h] pos_mod_bound [of 160 "uint p - sint h"]
  by (simp add: unat_eq_nat_uint nat_less_iff)


lemma hmove_all_bound: "\<forall>p \<in> set (map2 hmove1 ps hs). unat p < 160"
  by (auto simp: hmove1_bound)

lemma tia_ok_if: "(c \<Longrightarrow> tia_ok a) \<Longrightarrow> (\<not> c \<Longrightarrow> tia_ok b) \<Longrightarrow> tia_ok (if c then a else b)"
  by simp

lemma write_register_ok: "tia_ok t \<Longrightarrow> tia_ok (write_register F reg v t)"
proof -
  assume ok: "tia_ok t"
  then have ob: "objects_ok (tia_objects t)" by (simp add: tia_ok_def)
  have upd: "tia_ok (on_objects f t)" if "objects_ok (f (tia_objects t))" for f
    using ok that by (rule tia_ok_on_objects)
  have ch: "tia_ok (on_channel i f t)" if "\<And>c. channel_ok c \<Longrightarrow> channel_ok (f c)" "i < 2" for i f
    using ok that by (rule on_channel_ok)
  have mask: "unat (v AND 0x1F) < 32" "unat (v AND 0x0F) < 16"
    by (rule unat_and_less; simp)+
  show ?thesis
    unfolding write_register_def Let_def
    by (intro tia_ok_if upd ch set_pos_ok ok)
      (use ok ob mask hmove_all_bound in \<open>auto simp: objects_ok_def channel_ok_def tia_ok_def on_objects_def\<close>)
qed

lemma tia_write_ok: "tia_ok t \<Longrightarrow> tia_ok (tia_write F a v t)"
  by (simp add: tia_write_def write_register_ok)

lemma tia_read_ok: "tia_ok t \<Longrightarrow> tia_ok (snd (tia_read F a t))"
  by (simp add: tia_read_def Let_def read_paddle_def split_beta tia_ok_def)

lemma paddle_clock_kept [simp]:
  "tia_paddle_clock (tia_write F a v t) = tia_paddle_clock t"
  "tia_paddle_clock (snd (tia_read F a t)) = tia_paddle_clock t"
  by (simp_all add: tia_write_def write_register_def tia_read_def read_paddle_def on_objects_def
      on_channel_def set_pos_def Let_def split_beta)

lemma set_paddle_position_ok: "tia_ok t \<Longrightarrow> tia_ok (set_paddle_position F i pos t)"
  by (simp add: set_paddle_position_def tia_ok_def)

subsection \<open>The beam\<close>

lemma render_pixel_simps [simp]:
  "tia_color_clock (render_pixel t) = tia_color_clock t"
  "tia_scanline (render_pixel t) = tia_scanline t"
  "tia_rdy_stall (render_pixel t) = tia_rdy_stall t"
  "tia_objects (render_pixel t) = tia_objects t"
  "tia_audio (render_pixel t) = tia_audio t"
  "tia_inpt (render_pixel t) = tia_inpt t"
  "tia_paddles (render_pixel t) = tia_paddles t"
  "tia_paddle_clock (render_pixel t) = tia_paddle_clock t"
  by (simp_all add: render_pixel_def Let_def)

text \<open>What one clock does to the fields other operations look at.\<close>

definition ticked_to :: "'f tia \<Rightarrow> 'f tia \<Rightarrow> bool" where
  "ticked_to t t' \<longleftrightarrow> (let r = render_pixel (advance_beam t) in
     tia_objects t' = tia_objects t \<and> tia_color_clock t' = tia_color_clock r \<and>
     tia_scanline t' = tia_scanline r \<and> tia_rdy_stall t' = tia_rdy_stall r \<and>
     tia_audio t' = audio_tick (tia_audio t) \<and> tia_inpt t' = tia_inpt t \<and>
     tia_paddles t' = tia_paddles t \<and> tia_paddle_clock t' = tia_paddle_clock t + 1 \<and>
     tia_collisions t' = tia_collisions r \<and> tia_current_color t' = tia_current_color r)"

lemma advance_beam_simps [simp]:
  "tia_objects (advance_beam t) = tia_objects t"
  "tia_audio (advance_beam t) = tia_audio t"
  "tia_inpt (advance_beam t) = tia_inpt t"
  "tia_paddles (advance_beam t) = tia_paddles t"
  "tia_paddle_clock (advance_beam t) = tia_paddle_clock t + 1"
  "tia_collisions (advance_beam t) = tia_collisions t"
  by (simp_all add: advance_beam_def Let_def)

lemma length_resize_to [simp]: "length (resize_to n v xs) = max n (min n (length xs))"
  by (simp add: resize_to_def)

lemma store_dot_total:
  assumes "unat (tia_color_clock t) < 228"
  shows "wpo (store_dot t) (\<lambda>t'. \<exists>buf. t' = t\<lparr>tia_video_buffer := buf\<rparr> \<and>
    (tia_color_clock t \<ge> 68 \<and> unat (tia_scanline t) < 312 \<longrightarrow>
       (let idx = unat (tia_scanline t) * 160 + (unat (tia_color_clock t) - 68) in
        idx < length buf \<and> buf ! idx = tia_current_color t)))"
proof (cases "tia_color_clock t \<ge> 68 \<and> unat (tia_scanline t) < 312")
  case True
  have x: "unat (tia_color_clock t - 68) = unat (tia_color_clock t) - 68"
    using True by (simp add: unat_sub word_le_nat_alt)
  have idx: "unat (tia_scanline t) * 160 + (unat (tia_color_clock t) - 68) < 312 * 160"
    using True assms by (intro bank_offset_less) auto
  show ?thesis
    using True idx by (auto simp: store_dot_def x Let_def not_le)
next
  case False
  then show ?thesis
    by (auto simp: store_dot_def intro!: exI [of _ "tia_video_buffer t"])
qed

lemma advance_beam_ok: "tia_ok t \<Longrightarrow> tia_ok (advance_beam t)"
proof -
  assume ok: "tia_ok t"
  then have "unat (tia_color_clock t + 1) = unat (tia_color_clock t) + 1"
    by (simp add: tia_ok_def unat_word_ariths)
  with ok show ?thesis
    by (auto simp: advance_beam_def tia_ok_def Let_def word_le_nat_alt)
qed

lemma tick_ticked: "tia_ok t \<Longrightarrow> wpo (tick_color_clock t) (ticked_to t)"
proof -
  assume "tia_ok t"
  then have "unat (tia_color_clock (advance_beam t)) < 228"
    using advance_beam_ok [of t] by (simp add: tia_ok_def)
  then show ?thesis
    unfolding tick_color_clock_def Let_def
    by (auto intro!: wpo_mono [OF store_dot_total] simp: ticked_to_def push_sample_def)
qed

lemma ticked_to_ok: "tia_ok t \<Longrightarrow> ticked_to t t' \<Longrightarrow> tia_ok t'"
  using advance_beam_ok [of t] by (simp add: ticked_to_def tia_ok_def Let_def)


lemma tick_color_clock_ok: "tia_ok t \<Longrightarrow> wpo (tick_color_clock t) (\<lambda>t'. tia_ok t' \<and> ticked_to t t')"
  by (rule wpo_mono [OF tick_ticked]) (auto intro: ticked_to_ok)

lemma ticked_beam:
  assumes "tia_ok t" "ticked_to t t'"
  shows "unat (tia_color_clock t') = (unat (tia_color_clock t) + 1) mod 228"
    and "tia_scanline t' = tia_scanline t + of_nat ((unat (tia_color_clock t) + 1) div 228)"
    and "tia_rdy_stall t' \<longleftrightarrow> tia_rdy_stall t \<and> unat (tia_color_clock t) \<noteq> 227"
proof -
  let ?n = "unat (tia_color_clock t)"
  have n: "?n < 228" using assms(1) by (simp add: tia_ok_def)
  then have u: "unat (tia_color_clock t + 1) = ?n + 1"
    by (simp add: unat_word_ariths)
  have "?n = 227 \<or> ?n < 227" using n by linarith
  then show "unat (tia_color_clock t') = (?n + 1) mod 228"
    "tia_scanline t' = tia_scanline t + of_nat ((?n + 1) div 228)"
    "tia_rdy_stall t' \<longleftrightarrow> tia_rdy_stall t \<and> ?n \<noteq> 227"
    using assms(2) u by (auto simp: ticked_to_def advance_beam_def Let_def word_le_nat_alt)
qed

text \<open>\<open>n\<close> color clocks with no register access.\<close>

fun tia_run :: "nat \<Rightarrow> 'f tia \<Rightarrow> 'f tia option" where
  "tia_run 0 t = Some t"
| "tia_run (Suc n) t = do { t \<leftarrow> tia_run n t; tick_color_clock t }"

lemma carry_div: "0 < m \<Longrightarrow> a div m + Suc (a mod m) div m = Suc a div m" for a m :: nat
  by (simp add: div_Suc mod_Suc)

lemma tia_run_beam:
  assumes "tia_ok t"
  shows "wpo (tia_run n t) (\<lambda>t'. tia_ok t' \<and>
    unat (tia_color_clock t') = (unat (tia_color_clock t) + n) mod 228 \<and>
    tia_scanline t' = tia_scanline t + of_nat ((unat (tia_color_clock t) + n) div 228) \<and>
    (tia_rdy_stall t' \<longleftrightarrow> tia_rdy_stall t \<and> n < 228 - unat (tia_color_clock t)))"
proof (induction n)
  case 0
  then show ?case using assms by (simp add: tia_ok_def)
next
  case (Suc n)
  let ?c = "unat (tia_color_clock t)"
  have c: "?c < 228" using assms by (simp add: tia_ok_def)
  have step: "unat (tia_color_clock t'') = (?c + Suc n) mod 228 \<and>
      tia_scanline t'' = tia_scanline t + of_nat ((?c + Suc n) div 228) \<and>
      (tia_rdy_stall t'' \<longleftrightarrow> tia_rdy_stall t \<and> Suc n < 228 - ?c)"
    if ok: "tia_ok t'" "ticked_to t' t''" and cc: "unat (tia_color_clock t') = (?c + n) mod 228"
      and sl: "tia_scanline t' = tia_scanline t + of_nat ((?c + n) div 228)"
      and rdy: "tia_rdy_stall t' \<longleftrightarrow> tia_rdy_stall t \<and> n < 228 - ?c" for t' t''
  proof -
    note b = ticked_beam [OF ok]
    have "(?c + n) div 228 + ((?c + n) mod 228 + 1) div 228 = (?c + Suc n) div 228"
      using carry_div [of 228 "?c + n"] by simp
    then have "tia_scanline t'' = tia_scanline t + of_nat ((?c + Suc n) div 228)"
      unfolding b(2) sl cc by (simp only: add.assoc of_nat_add [symmetric])
    moreover have "unat (tia_color_clock t'') = (?c + Suc n) mod 228"
      unfolding b(1) cc by (simp add: mod_Suc_eq)
    moreover have "n < 228 - ?c \<Longrightarrow> (?c + n) mod 228 = ?c + n" by simp
    ultimately show ?thesis
      unfolding b(3) rdy cc using c by auto
  qed
  show ?case
    unfolding tia_run.simps wpo_bind
  proof (rule wpo_mono [OF Suc])
    fix t' :: "'a tia"
    assume t': "tia_ok t' \<and> unat (tia_color_clock t') = (?c + n) mod 228 \<and>
      tia_scanline t' = tia_scanline t + of_nat ((?c + n) div 228) \<and>
      (tia_rdy_stall t' \<longleftrightarrow> tia_rdy_stall t \<and> n < 228 - ?c)"
    then show "wpo (tick_color_clock t') (\<lambda>t''. tia_ok t'' \<and>
        unat (tia_color_clock t'') = (?c + Suc n) mod 228 \<and>
        tia_scanline t'' = tia_scanline t + of_nat ((?c + Suc n) div 228) \<and>
        (tia_rdy_stall t'' \<longleftrightarrow> tia_rdy_stall t \<and> Suc n < 228 - ?c))"
      by (intro wpo_mono [OF tick_color_clock_ok]) (use step in blast)+
  qed
qed

text \<open>
  the beam is a counter of 228 clocks a line: after \<open>n\<close> clocks it stands at the \<open>n\<close>-th dot
  after where it was, carrying into the line number, and no access of a frame buffer was out of
  range on the way.
\<close>

theorem beam_position:
  assumes "tia_ok t"
  shows "\<exists>t'. tia_run n t = Some t' \<and> tia_ok t' \<and>
    unat (tia_color_clock t') = (unat (tia_color_clock t) + n) mod 228 \<and>
    tia_scanline t' = tia_scanline t + of_nat ((unat (tia_color_clock t) + n) div 228)"
  using tia_run_beam [OF assms, of n] by (auto simp: wpo_def)

lemma beam_position_witness:
  "\<forall>(F :: 'f fops).
   \<exists>t'. tia_run 59736 (tia_new F) = Some t' \<and> unat (tia_color_clock t') = 0 \<and> tia_scanline t' = 262"
proof (intro allI)
  fix F :: "'f fops"
  show "\<exists>t'. tia_run 59736 (tia_new F) = Some t' \<and> unat (tia_color_clock t') = 0 \<and> tia_scanline t' = 262"
    using beam_position [OF tia_ok_new, of 59736 F] by (auto simp: tia_new_def tia_default_def Let_def)
qed

text \<open>
  C39: a \<open>WSYNC\<close> strobe off the line start stalls the CPU for exactly the rest of the line: it is
  still stalled one clock before the line ends, and at the end it is released at clock 0.
\<close>

theorem wsync_stalls_to_line_end:
  assumes "tia_ok t" "tia_color_clock t \<noteq> 0"
  shows "wpo (tia_run n (write_register F WSYNC v t))
    (\<lambda>t'. tia_rdy_stall t' \<longleftrightarrow> n < 228 - unat (tia_color_clock t)) \<and>
   wpo (tia_run (228 - unat (tia_color_clock t)) (write_register F WSYNC v t))
    (\<lambda>t'. tia_color_clock t' = 0 \<and> tia_scanline t' = tia_scanline t + 1)"
proof -
  have w: "write_register F WSYNC v t = t\<lparr>tia_rdy_stall := True\<rparr>"
    using assms(2) by (simp add: write_register_def)
  have ok: "tia_ok (write_register F WSYNC v t)" using assms(1) by (rule write_register_ok)
  have "unat (tia_color_clock t) < 228" using assms(1) by (simp add: tia_ok_def)
  then show ?thesis
    using tia_run_beam [OF ok, of n] tia_run_beam [OF ok, of "228 - unat (tia_color_clock t)"]
    unfolding w by (auto elim!: wpo_mono simp: unat_eq_0)
qed

lemma wsync_stalls_to_line_end_witness:
  "\<forall>(F :: 'f fops).
   wpo (tia_run 128 (write_register F WSYNC 0 ((tia_new F)\<lparr>tia_color_clock := 100\<rparr>)))
     (\<lambda>t'. tia_color_clock t' = 0 \<and> tia_scanline t' = 1)"
proof (intro allI)
  fix F :: "'f fops"
  show "wpo (tia_run 128 (write_register F WSYNC 0 ((tia_new F)\<lparr>tia_color_clock := 100\<rparr>)))
     (\<lambda>t'. tia_color_clock t' = 0 \<and> tia_scanline t' = 1)"
    using wsync_stalls_to_line_end [of "(tia_new F)\<lparr>tia_color_clock := 100\<rparr>" 0 F 0]
    by (simp add: tia_ok_def tia_new_def tia_default_def Let_def)
qed


subsection \<open>Objects on the line\<close>

text \<open>
  \<open>HMOVE\<close> with opposite motions returns every object on the line to where it was, wrapping
  around the edges.
\<close>

theorem hmove_round_trip:
  assumes "unat p < 160" "- 8 \<le> sint h" "sint h < 8"
  shows "hmove1 (hmove1 p h) (- h) = p"
proof -
  have "sint (- h) = signed_take_bit 7 (- sint h)"
    using sint_word_ariths(4) [of h] by simp
  also have "\<dots> = - sint h"
    using assms(2,3) signed_take_bit_int_eq_self [of 7 "- sint h"] by simp
  finally have "sint (- h) = - sint h" .
  then have "uint (hmove1 (hmove1 p h) (- h)) = (uint p - sint h + sint h) mod 160"
    unfolding hmove1_mod by (simp add: mod_add_left_eq)
  also have "\<dots> = uint p"
  proof -
    have "uint p < 160" using assms(1) unfolding uint_nat by linarith
    then show ?thesis by simp
  qed
  finally show ?thesis by (rule word_uint_eqI)
qed

lemma hmove_round_trip_witness: "hmove1 (hmove1 3 7) (- 7) = 3 \<and> hmove1 3 7 = 156"
  using hmove_round_trip [of 3 7] by (simp add: hmove1_def)

text \<open>The dot distance the pixel tests compute, for a dot on the line and an object on it.\<close>

lemma dot_distance:
  assumes "unat (x :: u16) < 160" "unat (p :: u16) < 160"
  shows "unat ((x + 160 - p) mod 160) = (unat x + 160 - unat p) mod 160"
proof -
  have "unat (x + 160) = unat x + 160" using assms by (simp add: unat_word_ariths)
  then have "unat (x + 160 - p) = unat x + 160 - unat p"
    using assms by (subst unat_sub) (simp_all add: word_le_nat_alt)
  then show ?thesis by (simp add: unat_mod)
qed

text \<open>A player offset selects one of the eight bits of its graphics.\<close>

lemma pm_scale_cases: "pm_scale n = 1 \<or> pm_scale n = 2 \<or> pm_scale n = 4"
  by (simp add: pm_scale_def)

lemma pm_search_offset: "pm_search d nusiz m cs = Some k \<Longrightarrow> unat k < 8"
proof (induction d nusiz m cs rule: pm_search.induct)
  case (2 diff nusiz is_missile start rest)
  have "unat (w div pm_scale n) < 8" if "w < 8 * pm_scale n" for w n
    using that pm_scale_cases [of n] by (auto simp: unat_div word_less_nat_alt)
  with 2 show ?case by (auto simp: Let_def split: if_splits)
qed simp

theorem check_pm_offset: "check_pm x p nusiz m = Some k \<Longrightarrow> unat k < 8"
  unfolding check_pm_def by (rule pm_search_offset)

lemma bit_test: "n < 8 \<Longrightarrow> (g :: u8) AND 2 ^ n \<noteq> 0 \<longleftrightarrow> bit g n"
proof -
  have "g AND 2 ^ n = of_bool (bit g n) * 2 ^ n"
    by (rule bit_word_eqI) (auto simp: bit_simps)
  moreover assume "n < 8"
  then have "bit (2 ^ n :: u8) n" by (simp add: bit_exp_iff)
  then have "2 ^ n \<noteq> (0 :: u8)" by auto
  ultimately show ?thesis by auto
qed

text \<open>
  a single-size player is drawn over the eight dots from its position, most significant bit
  first, and mirrored when \<open>REFP\<close> is set; the byte is the delayed one when \<open>VDELP\<close> is set.
\<close>

theorem player_bits:
  assumes "unat (ob_pos ob ! i) < 160" "ob_nusiz ob ! i AND 0x07 = 0" "k < 8"
    and x: "unat x = (unat (ob_pos ob ! i) + k) mod 160"
  shows "player_pixel ob i x \<longleftrightarrow>
    bit (if ob_vdelp ob ! i then ob_old_grp ob ! i else ob_grp ob ! i) (if ob_refp ob ! i then k else 7 - k)"
proof -
  let ?p = "ucast (ob_pos ob ! i) :: u16" and ?d = "(x + 160 - ucast (ob_pos ob ! i)) mod 160"
  have p: "unat ?p < 160" using assms(1) by simp
  have "unat x < 160" by (simp add: x)
  then have "unat ?d = ((unat ?p + k) mod 160 + 160 - unat ?p) mod 160"
    using dot_distance [OF _ p] by (simp add: x)
  also have "\<dots> = k"
    using assms(3) p by (cases "unat ?p + k < 160") (simp_all add: mod_if)
  finally have d: "unat ?d = k" .
  then have "?d < 8" using assms(3) by (simp add: word_less_nat_alt)
  moreover from this have "unat (7 - ?d) = 7 - k"
    using d by (subst unat_sub) (simp_all add: word_le_nat_alt word_less_nat_alt)
  ultimately show ?thesis
    using assms(2,3) d by (simp add: player_pixel_def check_pm_def pm_copies_def pm_scale_def Let_def bit_test)
qed

lemma player_bits_witness:
  "player_pixel (objects_default\<lparr>ob_pos := [158, 0, 0, 0, 0], ob_grp := [0x20, 0]\<rparr>) 0 0"
  using player_bits [of "objects_default\<lparr>ob_pos := [158, 0, 0, 0, 0], ob_grp := [0x20, 0]\<rparr>" 0 2 0]
  by (simp add: objects_default_def bit_numeral_rec)

lemma quarter: "unat (x div 4 :: u16) = unat x div 4"
  by (simp add: unat_div)

text \<open>
  the right half of the line shows the playfield of the left half again, or its mirror image
  when bit 0 of \<open>CTRLPF\<close> is set.
\<close>

theorem playfield_halves:
  assumes "unat x < 80" "unat y = (if ob_ctrlpf ob AND 1 = 0 then unat x + 80 else 159 - unat x)"
  shows "playfield_pixel ob y = playfield_pixel ob x"
proof -
  have x: "unat (x div 4) < 20" "unat (y div 4) \<ge> 20"
    using assms by (auto simp: quarter split: if_splits)
  have "y div 4 - 20 = x div 4" if "ob_ctrlpf ob AND 1 = 0"
    using that assms x by (simp add: word_unat_eq_iff unat_sub word_le_nat_alt quarter)
  moreover have "39 - y div 4 = x div 4" if "ob_ctrlpf ob AND 1 \<noteq> 0"
  proof -
    have "39 - (159 - unat x) div 4 = unat x div 4" using assms(1) by linarith
    moreover have "(159 - unat x) div 4 \<le> 39" by simp
    ultimately show ?thesis
      using that assms by (simp add: word_unat_eq_iff unat_sub word_le_nat_alt quarter)
  qed
  ultimately show ?thesis
    using x by (auto simp: playfield_pixel_def Let_def word_le_nat_alt word_less_nat_alt)
qed

lemma playfield_halves_witness:
  "playfield_pixel (objects_default\<lparr>ob_pf := 0x10000, ob_ctrlpf := 1\<rparr>) 159 =
   playfield_pixel (objects_default\<lparr>ob_pf := 0x10000, ob_ctrlpf := 1\<rparr>) 0"
  using playfield_halves [of 0 159 "objects_default\<lparr>ob_pf := 0x10000, ob_ctrlpf := 1\<rparr>"]
  by (simp add: objects_default_def)

subsection \<open>Collisions and colors\<close>

text \<open>The dot the beam shows after a clock, when it shows one.\<close>

definition visible :: "'f tia \<Rightarrow> bool" where
  "visible t \<longleftrightarrow> tia_color_clock t \<ge> 68 \<and> tia_scanline t < 300"

definition shown :: "'f tia \<Rightarrow> pixels" where
  "shown t = pixels_at (tia_objects t) (tia_color_clock t - 68)"

lemma ticked_collisions:
  assumes "ticked_to t t'"
  shows "tia_collisions t' = (if visible t' then collide (shown t') (tia_collisions t) else tia_collisions t)"
  using assms by (auto simp: ticked_to_def render_pixel_def visible_def shown_def Let_def)

lemma bit_latch: "bit (latch hit m r) n \<longleftrightarrow> bit r n \<or> hit \<and> bit m n"
  by (auto simp: latch_def bit_or_iff)

lemma bit_latch80: "bit (latch hit 0x80 r) n \<longleftrightarrow> bit r n \<or> hit \<and> n = 7"
proof -
  have "bit (2 ^ 7 :: u8) n \<longleftrightarrow> n = 7" by (auto simp only: bit_exp_iff possible_bit_word)  simp
  then show ?thesis by (auto simp: bit_latch)
qed

lemma bit_latch40: "bit (latch hit 0x40 r) n \<longleftrightarrow> bit r n \<or> hit \<and> n = 6"
proof -
  have "bit (2 ^ 6 :: u8) n \<longleftrightarrow> n = 6" by (auto simp only: bit_exp_iff possible_bit_word) simp
  then show ?thesis by (auto simp: bit_latch)
qed

text \<open>
  each of the fifteen collision bits is set by a clock exactly when it was set already or the
  dot just shown has both its objects on; no other bit of a collision register changes.
\<close>

theorem collision_latches:
  assumes "tia_ok t"
  shows "\<exists>t'. tick_color_clock t = Some t' \<and> (\<forall>n.
    let c = tia_collisions t; c' = tia_collisions t'; p = shown t'; v = visible t' in
    (bit (cxm0p c') n \<longleftrightarrow> bit (cxm0p c) n \<or> v \<and> (n = 7 \<and> px_m0 p \<and> px_p1 p \<or> n = 6 \<and> px_m0 p \<and> px_p0 p)) \<and>
    (bit (cxm1p c') n \<longleftrightarrow> bit (cxm1p c) n \<or> v \<and> (n = 7 \<and> px_m1 p \<and> px_p0 p \<or> n = 6 \<and> px_m1 p \<and> px_p1 p)) \<and>
    (bit (cxp0fb c') n \<longleftrightarrow> bit (cxp0fb c) n \<or> v \<and> (n = 7 \<and> px_p0 p \<and> px_pf p \<or> n = 6 \<and> px_p0 p \<and> px_bl p)) \<and>
    (bit (cxp1fb c') n \<longleftrightarrow> bit (cxp1fb c) n \<or> v \<and> (n = 7 \<and> px_p1 p \<and> px_pf p \<or> n = 6 \<and> px_p1 p \<and> px_bl p)) \<and>
    (bit (cxm0fb c') n \<longleftrightarrow> bit (cxm0fb c) n \<or> v \<and> (n = 7 \<and> px_m0 p \<and> px_pf p \<or> n = 6 \<and> px_m0 p \<and> px_bl p)) \<and>
    (bit (cxm1fb c') n \<longleftrightarrow> bit (cxm1fb c) n \<or> v \<and> (n = 7 \<and> px_m1 p \<and> px_pf p \<or> n = 6 \<and> px_m1 p \<and> px_bl p)) \<and>
    (bit (cxblpf c') n \<longleftrightarrow> bit (cxblpf c) n \<or> v \<and> n = 7 \<and> px_bl p \<and> px_pf p) \<and>
    (bit (cxppmm c') n \<longleftrightarrow> bit (cxppmm c) n \<or> v \<and> (n = 7 \<and> px_p0 p \<and> px_p1 p \<or> n = 6 \<and> px_m0 p \<and> px_m1 p)))"
proof -
  obtain t' where t': "tick_color_clock t = Some t'" "ticked_to t t'"
    using tick_ticked [OF assms] by (auto simp: wpo_def)
  show ?thesis
    by (rule exI [of _ t'], simp add: t'(1) ticked_collisions [OF t'(2)] Let_def collide_def
        bit_latch80 bit_latch40) blast
qed

lemma collision_latches_witness:
  "\<forall>(F :: 'f fops).
   \<exists>t'. tick_color_clock ((tia_new F)\<lparr>tia_color_clock := 67\<rparr>) = Some t' \<and> \<not> bit (cxppmm (tia_collisions t')) 5"
proof (intro allI)
  fix F :: "'f fops"
  show "\<exists>t'. tick_color_clock ((tia_new F)\<lparr>tia_color_clock := 67\<rparr>) = Some t' \<and> \<not> bit (cxppmm (tia_collisions t')) 5"
    using collision_latches [of "(tia_new F)\<lparr>tia_color_clock := 67\<rparr>"]
    by (auto simp: Let_def tia_ok_def tia_new_def tia_default_def collisions_default_def)
qed

text \<open>
  collisions last until \<open>CXCLR\<close>: no other register write, and no read, touches them.
\<close>

theorem collisions_until_cxclr:
  "tia_collisions (write_register F reg v t) = (if reg = CXCLR then collisions_default else tia_collisions t) \<and>
   tia_collisions (snd (tia_read F a t)) = tia_collisions t"
proof -
  have same_if: "tia_collisions (if c then a else b) = x"
    if "c \<Longrightarrow> tia_collisions a = x" "\<not> c \<Longrightarrow> tia_collisions b = x" for c and a b :: "'a tia" and x
    using that by simp
  have [simp]: "tia_collisions (on_objects f t) = tia_collisions t"
    "tia_collisions (on_channel i g t) = tia_collisions t"
    "tia_collisions (set_pos j d t) = tia_collisions t" for f g i j d
    by (simp_all add: on_objects_def on_channel_def set_pos_def)
  have "reg \<noteq> CXCLR \<Longrightarrow> tia_collisions (write_register F reg v t) = tia_collisions t"
    unfolding write_register_def Let_def by (intro same_if) simp_all
  moreover have "tia_collisions (write_register F CXCLR v t) = collisions_default"
    by (simp add: write_register_def)
  ultimately show ?thesis
    by (simp add: tia_read_def read_paddle_def split_beta Let_def)
qed

text \<open>
  what a clock shows: black outside the picture, else one of the four color registers, and in
  the frame buffer at its place on the screen.
\<close>

theorem dot_color:
  assumes "tia_ok t"
  shows "\<exists>t'. tick_color_clock t = Some t' \<and>
    (\<not> visible t' \<longrightarrow> tia_current_color t' = 0) \<and>
    (visible t' \<longrightarrow> tia_current_color t' \<in> set (ob_colu (tia_objects t)) \<and>
       tia_video_buffer t' ! (unat (tia_scanline t') * 160 + (unat (tia_color_clock t') - 68)) =
         tia_current_color t')"
proof -
  from tick_color_clock_ok [OF assms] obtain t' where
    t': "tick_color_clock t = Some t'" "ticked_to t t'" "tia_ok t'"
    by (auto simp: wpo_def)
  have "objects_ok (tia_objects t)" using assms by (simp add: tia_ok_def)
  then have colu: "ob_colu (tia_objects t) ! i \<in> set (ob_colu (tia_objects t))" if "i < 4" for i
    using that by (simp add: objects_ok_def)
  have "color_at (tia_objects t) x p \<in> set (ob_colu (tia_objects t))" for x p
    using colu [of 0] colu [of 1] colu [of 2] colu [of 3] by (simp add: color_at_def Let_def)
  then have "visible t' \<longrightarrow> tia_current_color t' \<in> set (ob_colu (tia_objects t))"
      "\<not> visible t' \<longrightarrow> tia_current_color t' = 0"
    using t'(2) by (auto simp: ticked_to_def render_pixel_def visible_def Let_def)
  moreover have "visible t' \<longrightarrow> tia_video_buffer t' ! (unat (tia_scanline t') * 160 +
      (unat (tia_color_clock t') - 68)) = tia_current_color t'"
  proof -
    let ?r = "(render_pixel (advance_beam t))\<lparr>tia_audio := audio_tick (tia_audio t)\<rparr>"
    have "unat (tia_color_clock ?r) < 228"
      using advance_beam_ok [OF assms] by (simp add: tia_ok_def)
    from store_dot_total [OF this] show ?thesis
      using t'(1) by (auto simp: tick_color_clock_def Let_def wpo_def visible_def push_sample_def
          word_le_nat_alt word_less_nat_alt split: if_splits)
  qed
  ultimately show ?thesis using t'(1) by auto
qed

lemma dot_color_witness:
  "\<forall>(F :: 'f fops).
   \<exists>t'. tick_color_clock ((tia_new F)\<lparr>tia_color_clock := 67\<rparr>) = Some t' \<and> tia_current_color t' = 0"
proof (intro allI)
  fix F :: "'f fops"
  show "\<exists>t'. tick_color_clock ((tia_new F)\<lparr>tia_color_clock := 67\<rparr>) = Some t' \<and> tia_current_color t' = 0"
  proof -
    let ?t = "(tia_new F)\<lparr>tia_color_clock := 67\<rparr>"
    have "tia_ok ?t" by (simp add: tia_ok_def tia_new_def tia_default_def Let_def)
    moreover have "set (ob_colu (tia_objects ?t)) = {0}"
      by (simp add: tia_new_def tia_default_def Let_def objects_default_def)
    ultimately show ?thesis using dot_color [of ?t] by (metis singletonD)
  qed
qed

end
