(* ===== verification/Riot.thy ===== *)
theory Riot
  imports Prelude
begin

text \<open>
  The MOS 6532 RIOT (\<open>crates/rusty2600-riot/src/lib.rs\<close>): 128 bytes of RAM, two I/O ports with
  data-direction registers, and the interval timer. The chip has no state but the record below;
  its operations are \<open>Riot::tick\<close>, \<open>cpu_read\<close>, \<open>cpu_write\<close> and the private \<open>set_timer\<close>. The
  lemmas give the invariant \<open>riot_ok\<close> and the closed form of the timer.
\<close>

subsection \<open>State\<close>

datatype prescale = By1 | By8 | By64 | By1024

primrec prescale_u16 :: "prescale \<Rightarrow> u16" where
  "prescale_u16 By1 = 1"
| "prescale_u16 By8 = 8"
| "prescale_u16 By64 = 64"
| "prescale_u16 By1024 = 1024"

record timer =
  tm_value :: u8
  tm_prescale :: prescale
  tm_elapsed :: u16
  tm_underflow :: bool
  tm_post_underflow :: bool
  tm_wrapped_this_cycle :: bool

record riot =
  riot_ram :: "u8 list"
  riot_ports :: "u8 list"
  riot_ddr :: "u8 list"
  riot_timer :: timer
  riot_pins :: "u8 list"

definition timer_default :: timer where
  "timer_default = \<lparr>tm_value = 0, tm_prescale = By1024, tm_elapsed = 0, tm_underflow = False,
     tm_post_underflow = False, tm_wrapped_this_cycle = False\<rparr>"

definition riot_new :: riot where
  "riot_new = \<lparr>riot_ram = replicate 128 0, riot_ports = [0xFF, 0xFF], riot_ddr = [0, 0],
     riot_timer = timer_default, riot_pins = [0xFF, 0xFF]\<rparr>"

subsection \<open>Operations\<close>

definition timer_tick :: "timer \<Rightarrow> timer" where
  "timer_tick t = (let
     t = t\<lparr>tm_wrapped_this_cycle := False, tm_elapsed := tm_elapsed t + 1\<rparr>;
     target = (if tm_post_underflow t then 1 else prescale_u16 (tm_prescale t))
   in if tm_elapsed t \<ge> target then
        (let t = t\<lparr>tm_elapsed := 0\<rparr> in
         if tm_value t = 0
         then t\<lparr>tm_value := 0xFF, tm_underflow := True, tm_post_underflow := True,
                tm_wrapped_this_cycle := True\<rparr>
         else t\<lparr>tm_value := tm_value t - 1\<rparr>)
      else t)"

definition riot_tick :: "riot \<Rightarrow> riot" where
  "riot_tick r = r\<lparr>riot_timer := timer_tick (riot_timer r)\<rparr>"

definition timer_set :: "u8 \<Rightarrow> prescale \<Rightarrow> timer \<Rightarrow> timer" where
  "timer_set v ps t = t\<lparr>tm_value := v, tm_prescale := ps, tm_elapsed := prescale_u16 ps - 1,
     tm_underflow := False, tm_post_underflow := False\<rparr>"

text \<open>An \<open>INTIM\<close> read: it clears the flag, and leaves the divide-by-one mode unless the
  underflow happened on this very cycle.\<close>

definition read_intim :: "timer \<Rightarrow> u8 \<times> timer" where
  "read_intim t = (let
     t = t\<lparr>tm_underflow := False\<rparr>;
     t = (if \<not> tm_wrapped_this_cycle t then t\<lparr>tm_post_underflow := False\<rparr> else t)
   in (tm_value t, t))"

definition read_instat :: "timer \<Rightarrow> u8" where
  "read_instat t = (if tm_underflow t then 0xC0 else 0)"

definition read_port :: "riot \<Rightarrow> nat \<Rightarrow> u8" where
  "read_port r i = (riot_ports r ! i AND riot_ddr r ! i) OR (riot_pins r ! i AND NOT (riot_ddr r ! i))"

definition riot_io_read :: "riot \<Rightarrow> u16 \<Rightarrow> u8" where
  "riot_io_read r sel =
     (if sel = 0 then read_port r 0
      else if sel = 1 then riot_ddr r ! 0
      else if sel = 2 then read_port r 1
      else riot_ddr r ! 1)"

definition riot_read :: "u16 \<Rightarrow> riot \<Rightarrow> (u8 \<times> riot) option" where
  "riot_read addr r =
     (if addr AND 0x0200 = 0
      then do { v \<leftarrow> nth_chk (riot_ram r) (unat (addr AND 0x7F)); Some (v, r) }
      else if addr AND 0x04 = 0
      then Some (riot_io_read r (addr AND 0x03), r)
      else if addr AND 0x01 = 0
      then (let (v, t) = read_intim (riot_timer r) in Some (v, r\<lparr>riot_timer := t\<rparr>))
      else Some (read_instat (riot_timer r), r))"

definition prescale_of :: "u16 \<Rightarrow> prescale" where
  "prescale_of sel = (if sel = 0 then By1 else if sel = 1 then By8 else if sel = 2 then By64 else By1024)"

definition riot_io_write :: "u16 \<Rightarrow> u8 \<Rightarrow> riot \<Rightarrow> riot" where
  "riot_io_write sel v r =
     (if sel = 0 then r\<lparr>riot_ports := (riot_ports r)[0 := v]\<rparr>
      else if sel = 1 then r\<lparr>riot_ddr := (riot_ddr r)[0 := v]\<rparr>
      else if sel = 2 then r\<lparr>riot_ports := (riot_ports r)[1 := v]\<rparr>
      else r\<lparr>riot_ddr := (riot_ddr r)[1 := v]\<rparr>)"

definition riot_write :: "u16 \<Rightarrow> u8 \<Rightarrow> riot \<Rightarrow> riot option" where
  "riot_write addr v r =
     (if addr AND 0x0200 = 0
      then do { m \<leftarrow> upd_chk (riot_ram r) (unat (addr AND 0x7F)) v; Some (r\<lparr>riot_ram := m\<rparr>) }
      else if addr AND 0x04 = 0 then Some (riot_io_write (addr AND 0x03) v r)
      else Some (r\<lparr>riot_timer := timer_set v (prescale_of (addr AND 0x03)) (riot_timer r)\<rparr>))"

subsection \<open>The invariant\<close>

definition timer_ok :: "timer \<Rightarrow> bool" where
  "timer_ok t \<longleftrightarrow> tm_elapsed t < prescale_u16 (tm_prescale t) \<and>
     (tm_post_underflow t \<longrightarrow> tm_elapsed t = 0)"

definition riot_ok :: "riot \<Rightarrow> bool" where
  "riot_ok r \<longleftrightarrow> length (riot_ram r) = 128 \<and> length (riot_ports r) = 2 \<and>
     length (riot_ddr r) = 2 \<and> length (riot_pins r) = 2 \<and> timer_ok (riot_timer r)"

lemma prescale_nat [simp]: "0 < prescale_u16 ps" "\<not> prescale_u16 ps < 1"
  "unat (prescale_u16 ps - 1) = unat (prescale_u16 ps) - 1" "prescale_u16 ps - 1 < prescale_u16 ps"
  by (cases ps; simp add: unat_minus_one)+

lemma prescale_unat: "1 \<le> unat (prescale_u16 ps)" "unat (prescale_u16 ps) \<le> 1024"
  by (cases ps; simp)+

lemma timer_ok_default [simp]: "timer_ok timer_default"
  by (simp add: timer_ok_def timer_default_def)

lemma timer_ok_set [simp]: "timer_ok (timer_set v ps t)"
  by (simp add: timer_ok_def timer_set_def)

lemma timer_ok_intim [simp]: "timer_ok t \<Longrightarrow> timer_ok (snd (read_intim t))"
  by (simp add: timer_ok_def read_intim_def Let_def)

lemma unat_elapsed_succ:
  "timer_ok t \<Longrightarrow> unat (tm_elapsed t + 1) = unat (tm_elapsed t) + 1"
  using prescale_unat [of "tm_prescale t"]
  by (simp add: timer_ok_def word_less_nat_alt unat_word_ariths)

lemma timer_ok_tick [simp]: "timer_ok t \<Longrightarrow> timer_ok (timer_tick t)"
  using unat_elapsed_succ [of t]
  by (auto simp: timer_ok_def timer_tick_def Let_def word_less_nat_alt word_le_nat_alt)

lemma riot_ok_new [simp]: "riot_ok riot_new"
  by (simp add: riot_ok_def riot_new_def)

lemma riot_ok_tick [simp]: "riot_ok r \<Longrightarrow> riot_ok (riot_tick r)"
  by (simp add: riot_ok_def riot_tick_def)

lemma ram_index [bounds_simps, simp]: "unat (a AND 0x7F :: u16) < 128"
  by (rule unat_and_less) simp

lemma riot_read_ok: "riot_ok r \<Longrightarrow> wpo (riot_read addr r) (\<lambda>(v, r'). riot_ok r')"
  using timer_ok_intim [of "riot_timer r"]
  by (simp add: riot_read_def riot_ok_def split_beta Let_def del: timer_ok_intim)

lemma riot_write_ok: "riot_ok r \<Longrightarrow> wpo (riot_write addr v r) riot_ok"
  by (simp add: riot_write_def riot_ok_def riot_io_write_def)

subsection \<open>The timer\<close>

text \<open>The timer after \<open>k\<close> CPU cycles.\<close>

definition timer_after :: "nat \<Rightarrow> timer \<Rightarrow> timer" where
  "timer_after k t = (timer_tick ^^ k) t"

lemma timer_after_0 [simp]: "timer_after 0 t = t"
  by (simp add: timer_after_def)

lemma timer_after_Suc [simp]: "timer_after (Suc k) t = timer_tick (timer_after k t)"
  by (simp add: timer_after_def)

lemma timer_after_add: "timer_after (m + k) t = timer_after k (timer_after m t)"
  by (simp add: timer_after_def funpow_add add.commute [of m k])


text \<open>One cycle, by the three cases of the code: within an interval, at its end, and at zero.\<close>

lemma tick_within:
  assumes "\<not> tm_post_underflow t" "tm_elapsed t + 1 < prescale_u16 (tm_prescale t)"
  shows "timer_tick t = t\<lparr>tm_wrapped_this_cycle := False, tm_elapsed := tm_elapsed t + 1\<rparr>"
  using assms by (simp add: timer_tick_def Let_def)

lemma tick_end:
  assumes "\<not> tm_post_underflow t" "tm_elapsed t + 1 = prescale_u16 (tm_prescale t)" "tm_value t \<noteq> 0"
  shows "timer_tick t = t\<lparr>tm_wrapped_this_cycle := False, tm_elapsed := 0, tm_value := tm_value t - 1\<rparr>"
  using assms by (simp add: timer_tick_def Let_def)

lemma tick_zero:
  assumes "\<not> tm_post_underflow t" "tm_elapsed t + 1 = prescale_u16 (tm_prescale t)" "tm_value t = 0"
  shows "timer_tick t = t\<lparr>tm_wrapped_this_cycle := True, tm_elapsed := 0, tm_value := 0xFF,
    tm_underflow := True, tm_post_underflow := True\<rparr>"
  using assms by (simp add: timer_tick_def Let_def)

lemma last_interval:
  assumes "1 \<le> (p::nat)"
  shows "(p - 1 + n * p) div p = n" "(p - 1 + n * p) mod p = p - 1"
  using assms by (simp_all only: div_mult_self1 mod_mult_self1) simp_all

text \<open>While the timer runs, the cycles spent are the intervals done and the rest of one.\<close>

lemma timer_running:
  fixes ps v t
  defines "p \<equiv> unat (prescale_u16 ps)"
  assumes "k \<le> unat v * p"
  shows "let t' = timer_after k (timer_set v ps t) in
     \<not> tm_post_underflow t' \<and> \<not> tm_underflow t' \<and> tm_prescale t' = ps \<and>
     unat (tm_elapsed t') = (p - 1 + k) mod p \<and> unat (tm_value t') = unat v - (p - 1 + k) div p"
  using assms(2)
proof (induction k)
  case 0
  have "(p - 1) div p = 0" "(p - 1) mod p = p - 1"
    using prescale_unat [of ps] by (simp_all add: p_def)
  then show ?case by (simp add: timer_set_def p_def Let_def)
next
  case (Suc k)
  let ?t = "timer_after k (timer_set v ps t)"
  define n where "n = p - 1 + k"
  have p: "1 \<le> p" "p \<le> 1024" using prescale_unat [of ps] by (simp_all add: p_def)
  have n: "p - 1 + Suc k = Suc n" by (simp add: n_def)
  from Suc have IH: "\<not> tm_post_underflow ?t" "\<not> tm_underflow ?t" "tm_prescale ?t = ps"
      "unat (tm_elapsed ?t) = n mod p" "unat (tm_value ?t) = unat v - n div p"
    by (simp_all add: Let_def n_def)
  have lt: "n mod p < p" using p by simp
  have e1: "unat (tm_elapsed ?t + 1) = n mod p + 1"
    using IH(4) p less_le_trans [OF lt p(2)] by (simp add: unat_word_ariths)
  show ?case
  proof (cases "n mod p + 1 < p")
    case True
    have "Suc n mod p = Suc (n mod p)" "Suc n div p = n div p"
      using True by (simp_all add: mod_Suc div_Suc)
    moreover have "tm_elapsed ?t + 1 < prescale_u16 (tm_prescale ?t)"
      using True e1 by (simp add: word_less_nat_alt IH(3) p_def)
    ultimately show ?thesis
      using IH e1 unfolding n by (simp add: tick_within Let_def)
  next
    case False
    have last: "n mod p + 1 = p" using False lt by linarith
    have s: "Suc n mod p = 0" "Suc n div p = Suc (n div p)"
      using last by (simp_all add: mod_Suc div_Suc)
    have "n div p < unat v"
    proof -
      have "Suc n \<le> p - 1 + unat v * p" using Suc.prems n_def by simp
      then have "Suc n div p \<le> (p - 1 + unat v * p) div p" by (rule div_le_mono)
      also have "\<dots> = unat v" using p(1) by (rule last_interval)
      finally show ?thesis using s by simp
    qed
    then have "tm_value ?t \<noteq> 0" using IH(5) by (auto simp: unat_eq_0)
    moreover have "tm_elapsed ?t + 1 = prescale_u16 (tm_prescale ?t)"
      using last e1 by (simp add: word_unat_eq_iff IH(3) p_def)
    ultimately show ?thesis
      using IH e1 s unfolding n by (simp add: tick_end Let_def unat_minus_one)
  qed
qed

text \<open>After the underflow the timer counts down once per cycle, for good.\<close>

lemma tick_fast:
  assumes "timer_ok t" "tm_post_underflow t"
  shows "timer_tick t = t\<lparr>tm_elapsed := 0, tm_value := tm_value t - 1,
    tm_underflow := tm_underflow t \<or> tm_value t = 0, tm_wrapped_this_cycle := tm_value t = 0\<rparr>"
  using assms by (auto simp: timer_tick_def timer_ok_def Let_def)

lemma timer_fast:
  assumes "timer_ok t" "tm_post_underflow t" "tm_underflow t"
  shows "timer_ok (timer_after j t) \<and> tm_post_underflow (timer_after j t) \<and>
    tm_underflow (timer_after j t) \<and> tm_value (timer_after j t) = tm_value t - of_nat j"
proof (induction j)
  case (Suc j)
  then show ?case
    using timer_ok_tick [of "timer_after j t"] by (simp add: tick_fast del: timer_ok_tick)
qed (use assms in simp)

lemma timer_underflows:
  fixes ps v t
  defines "p \<equiv> unat (prescale_u16 ps)"
  shows "let t' = timer_after (Suc (unat v * p)) (timer_set v ps t) in
     timer_ok t' \<and> tm_post_underflow t' \<and> tm_underflow t' \<and> tm_value t' = 0xFF"
proof -
  let ?t = "timer_after (unat v * p) (timer_set v ps t)"
  have p: "1 \<le> p" "p \<le> 1024" using prescale_unat [of ps] by (simp_all add: p_def)
  have last: "(p - 1 + unat v * p) mod p = p - 1" "(p - 1 + unat v * p) div p = unat v"
    using last_interval [OF p(1)] by simp_all
  have r: "\<not> tm_post_underflow ?t" "tm_prescale ?t = ps" "unat (tm_elapsed ?t) = p - 1"
      "unat (tm_value ?t) = 0"
    using timer_running [of "unat v * p" v ps t] last by (simp_all add: Let_def p_def)
  have "unat (tm_elapsed ?t + 1) = p"
    using r(3) p by (simp add: unat_word_ariths)
  then have "tm_elapsed ?t + 1 = prescale_u16 (tm_prescale ?t)"
    by (simp add: word_unat_eq_iff r(2) p_def [symmetric])
  then show ?thesis
    using r(1,4) by (simp add: tick_zero unat_eq_0 Let_def timer_ok_def)
qed

text \<open>
  C38: what a program that wrote \<open>v\<close> to \<open>TIMxT\<close> sees \<open>k\<close> cycles later, over the whole life of
  the timer.
\<close>

theorem timer_closed_form:
  fixes ps v t k
  defines "p \<equiv> unat (prescale_u16 ps)"
  shows "tm_value (timer_after k (timer_set v ps t)) =
      (if k \<le> unat v * p then v - of_nat ((p - 1 + k) div p)
       else 0xFF - of_nat (k - Suc (unat v * p))) \<and>
    tm_underflow (timer_after k (timer_set v ps t)) = (unat v * p < k)"
proof (cases "k \<le> unat v * p")
  case True
  let ?d = "(p - 1 + k) div p"
  have p: "1 \<le> p" using prescale_unat [of ps] by (simp_all add: p_def)
  have "?d \<le> (p - 1 + unat v * p) div p" using True by (intro div_le_mono) simp
  also have "\<dots> = unat v" using p by (rule last_interval)
  finally have "?d \<le> unat v" .
  moreover from this have d: "unat (of_nat ?d :: u8) = ?d"
    using word8_bound [of v] by (simp add: unat_of_nat)
  ultimately have "unat v - ?d = unat (v - of_nat ?d)"
    by (simp add: unat_sub word_le_nat_alt d)
  then show ?thesis
    using True timer_running [of k v ps t] by (simp add: Let_def p_def word_unat_eq_iff)
next
  case False
  define j where "j = k - Suc (unat v * p)"
  have k: "k = Suc (unat v * p) + j" using False by (simp add: j_def)
  let ?t = "timer_after (Suc (unat v * p)) (timer_set v ps t)"
  have "timer_ok ?t \<and> tm_post_underflow ?t \<and> tm_underflow ?t \<and> tm_value ?t = 0xFF"
    using timer_underflows [of v ps t] by (simp add: Let_def p_def)
  then have "tm_underflow (timer_after j ?t) \<and> tm_value (timer_after j ?t) = 0xFF - of_nat j"
    using timer_fast [of ?t j] by simp
  then have "tm_underflow (timer_after k (timer_set v ps t)) \<and>
      tm_value (timer_after k (timer_set v ps t)) = 0xFF - of_nat j"
    unfolding k timer_after_add .
  then show ?thesis
    using False by (simp add: j_def)
qed

subsection \<open>What the CPU reads back\<close>

text \<open>
  a \<open>RAM\<close> byte reads back through every mirror.\<close>

theorem riot_ram_roundtrip:
  assumes "riot_ok r" "a AND 0x0200 = 0" "b AND 0x0200 = 0"
  shows "do { r' \<leftarrow> riot_write a v r; riot_read b r' } =
    (if a AND 0x7F = b AND 0x7F then Some (v, r\<lparr>riot_ram := (riot_ram r)[unat (a AND 0x7F) := v]\<rparr>)
     else map_option (\<lambda>(w, _). (w, r\<lparr>riot_ram := (riot_ram r)[unat (a AND 0x7F) := v]\<rparr>)) (riot_read b r))"
  using assms
  by (auto simp: riot_write_def riot_read_def riot_ok_def word_unat_eq_iff)

lemma riot_ram_roundtrip_witness:
  "riot_write 0x0085 7 riot_new \<bind> riot_read 0x0105 = Some (7, riot_new\<lparr>riot_ram := (riot_ram riot_new)[5 := 7]\<rparr>)"
  using riot_ram_roundtrip [of riot_new "0x0085" "0x0105" 7] by simp

text \<open>
  a port reads the output latch on the pins driven out and the outside on the others.\<close>

theorem riot_port_bit:
  assumes "n < 8"
  shows "bit (read_port r i) n = (if bit (riot_ddr r ! i) n then bit (riot_ports r ! i) n
    else bit (riot_pins r ! i) n)"
  using assms by (auto simp: read_port_def bit_simps)

lemma riot_port_bit_witness: "\<not> bit (read_port (riot_new\<lparr>riot_pins := [0xFE, 0xFF]\<rparr>) 0) 0"
  using riot_port_bit [of 0 "riot_new\<lparr>riot_pins := [0xFE, 0xFF]\<rparr>" 0]
  by (simp add: riot_new_def)

end
