(* ===== verification/Board.thy ===== *)
theory Board
  imports Prelude
begin

text \<open>
  The cartridge interface (\<open>crates/rusty2600-cart/src/lib.rs\<close>, trait \<open>Board\<close>). The trait is the
  record \<open>board_ops\<close> of its methods, each taking and returning the board's state; the defaults of
  the trait are the operations that leave the state alone. What the bus relies on is the locale
  \<open>board\<close>: under an invariant no method panics on the addresses the bus passes, which have bit
  12 set for the cartridge's own window.
\<close>

datatype tier = Core | Curated | BestEffort

primrec tier_name :: "tier \<Rightarrow> string" where
  "tier_name Core = ''Core''"
| "tier_name Curated = ''Curated''"
| "tier_name BestEffort = ''BestEffort''"

definition is_accuracy_gated :: "tier \<Rightarrow> bool" where
  "is_accuracy_gated t \<longleftrightarrow> t = Core \<or> t = Curated"

record 'c board_ops =
  bd_read :: "u16 \<Rightarrow> 'c \<Rightarrow> (u8 \<times> 'c) option"
  bd_write :: "u16 \<Rightarrow> u8 \<Rightarrow> 'c \<Rightarrow> 'c option"
  bd_tier :: "'c \<Rightarrow> tier"
  bd_tick :: "'c \<Rightarrow> 'c option"
  bd_tick_coprocessor :: "'c \<Rightarrow> 'c option"
  bd_snoop_write :: "u16 \<Rightarrow> u8 \<Rightarrow> 'c \<Rightarrow> 'c option"
  bd_snoop_read :: "u16 \<Rightarrow> u8 \<Rightarrow> 'c \<Rightarrow> 'c option"
  bd_take_oob_pokes :: "'c \<Rightarrow> (u16 \<times> u8) list \<times> 'c"

text \<open>The trait's default methods, for a board that only has a read, a write and a tier.\<close>

definition default_board ::
  "(u16 \<Rightarrow> 'c \<Rightarrow> (u8 \<times> 'c) option) \<Rightarrow> (u16 \<Rightarrow> u8 \<Rightarrow> 'c \<Rightarrow> 'c option) \<Rightarrow> tier \<Rightarrow> 'c board_ops" where
  "default_board rd wr tr = \<lparr>bd_read = rd, bd_write = wr, bd_tier = (\<lambda>_. tr), bd_tick = Some,
     bd_tick_coprocessor = Some, bd_snoop_write = (\<lambda>addr v. Some), bd_snoop_read = (\<lambda>addr v. Some),
     bd_take_oob_pokes = (\<lambda>c. ([], c))\<rparr>"

definition in_window :: "u16 \<Rightarrow> bool" where
  "in_window a \<longleftrightarrow> a AND 0x1000 \<noteq> 0 \<and> a AND 0x1FFF = a"

text \<open>The calls the bus makes of a board, one per CPU access or cycle.\<close>

datatype board_event = Read u16 | Write u16 u8 | Snoop_Read u16 u8 | Snoop_Write u16 u8 | Tick

primrec event :: "'c board_ops \<Rightarrow> board_event \<Rightarrow> 'c \<Rightarrow> 'c option" where
  "event C (Read a) c = map_option snd (bd_read C a c)"
| "event C (Write a v) c = bd_write C a v c"
| "event C (Snoop_Read a v) c = bd_snoop_read C a v c"
| "event C (Snoop_Write a v) c = bd_snoop_write C a v c"
| "event C Tick c = bd_tick C c"

primrec event_in_window :: "board_event \<Rightarrow> bool" where
  "event_in_window (Read a) \<longleftrightarrow> in_window a"
| "event_in_window (Write a v) \<longleftrightarrow> in_window a"
| "event_in_window (Snoop_Read a v) \<longleftrightarrow> True"
| "event_in_window (Snoop_Write a v) \<longleftrightarrow> True"
| "event_in_window Tick \<longleftrightarrow> True"

fun board_run :: "'c board_ops \<Rightarrow> board_event list \<Rightarrow> 'c \<Rightarrow> 'c option" where
  "board_run C [] c = Some c"
| "board_run C (e # es) c = do { c \<leftarrow> event C e c; board_run C es c }"

locale board =
  fixes C :: "'c board_ops"
    and ok :: "'c \<Rightarrow> bool"
  assumes read_ok: "ok c \<Longrightarrow> in_window a \<Longrightarrow> wpo (bd_read C a c) (\<lambda>(v, c'). ok c')"
    and write_ok: "ok c \<Longrightarrow> in_window a \<Longrightarrow> wpo (bd_write C a v c) ok"
    and tick_ok: "ok c \<Longrightarrow> wpo (bd_tick C c) ok"
    and coprocessor_ok: "ok c \<Longrightarrow> wpo (bd_tick_coprocessor C c) ok"
    and snoop_write_ok: "ok c \<Longrightarrow> wpo (bd_snoop_write C a v c) ok"
    and snoop_read_ok: "ok c \<Longrightarrow> wpo (bd_snoop_read C a v c) ok"
    and take_oob_ok: "ok c \<Longrightarrow> ok (snd (bd_take_oob_pokes C c))"
begin

text \<open>Any sequence of calls the bus may make is safe.\<close>

lemma event_ok: "ok c \<Longrightarrow> event_in_window e \<Longrightarrow> wpo (event C e c) ok"
  by (cases e) (auto intro: write_ok tick_ok snoop_write_ok snoop_read_ok elim: wpo_mono [OF read_ok])

lemma run_ok: "ok c \<Longrightarrow> list_all event_in_window es \<Longrightarrow> wpo (board_run C es c) ok"
  by (induction es arbitrary: c) (auto intro: wpo_mono [OF event_ok])

end

lemma default_board_simps [simp]:
  "bd_read (default_board rd wr tr) = rd" "bd_write (default_board rd wr tr) = wr"
  "bd_tier (default_board rd wr tr) = (\<lambda>_. tr)" "bd_tick (default_board rd wr tr) = Some"
  "bd_tick_coprocessor (default_board rd wr tr) = Some"
  "bd_snoop_write (default_board rd wr tr) a v = Some"
  "bd_snoop_read (default_board rd wr tr) a v = Some"
  "bd_take_oob_pokes (default_board rd wr tr) = (\<lambda>c. ([], c))"
  by (simp_all add: default_board_def)

lemma default_boardI:
  assumes "\<And>c a. ok c \<Longrightarrow> in_window a \<Longrightarrow> wpo (rd a c) (\<lambda>(v, c'). ok c')"
    and "\<And>c a v. ok c \<Longrightarrow> in_window a \<Longrightarrow> wpo (wr a v c) ok"
  shows "board (default_board rd wr tr) ok"
  by unfold_locales (simp_all add: assms)

subsection \<open>Reading a bank\<close>

text \<open>\<open>self.rom[usize::from(bank) * size + off as usize]\<close>.\<close>

definition rom_at :: "u8 list \<Rightarrow> nat \<Rightarrow> u8 \<Rightarrow> u16 \<Rightarrow> u8 option" where
  "rom_at rom sz bank off = nth_chk rom (unat bank * sz + unat off)"

lemma rom_at_ok: "length rom = n * sz \<Longrightarrow> unat bank < n \<Longrightarrow> unat off < sz \<Longrightarrow>
    rom_at rom sz bank off = Some (rom ! (unat bank * sz + unat off))"
  by (simp add: rom_at_def bank_offset_less)

lemma off_bounds [simp]:
  "unat (a AND 0x0FFF :: u16) < 0x1000" "unat (a AND 0x07FF :: u16) < 0x0800"
  "unat (a AND 0x03FF :: u16) < 0x0400" "unat (a AND 0x00FF :: u16) < 0x0100"
  "unat (a AND 0x007F :: u16) < 0x0080" "unat (a AND 0x0007 :: u16) < 8"
  by (rule unat_and_less; simp)+


lemma mask_mod:
  "unat (a AND 0x1FFF :: u16) = unat a mod 0x2000" "unat (a AND 0x0FFF :: u16) = unat a mod 0x1000"
  "unat (a AND 0x07FF :: u16) = unat a mod 0x0800" "unat (a AND 0x03FF :: u16) = unat a mod 0x0400"
  "unat (a AND 0x00FF :: u16) = unat a mod 0x0100" "unat (a AND 0x007F :: u16) = unat a mod 0x0080"
  "unat (a AND 0x0007 :: u16) = unat a mod 8"
proof -
  have m: "unat (a AND mask n) = unat a mod 2 ^ n" for n and a :: u16
    by (metis take_bit_eq_mask take_bit_eq_mod unsigned_take_bit_eq)
  have "(0x1FFF :: u16) = mask 13" "(0x0FFF :: u16) = mask 12" "(0x07FF :: u16) = mask 11"
    "(0x03FF :: u16) = mask 10" "(0x00FF :: u16) = mask 8" "(0x007F :: u16) = mask 7"
    "(0x0007 :: u16) = mask 3"
    by (simp_all add: mask_eq_exp_minus_1)
  then show "unat (a AND 0x1FFF) = unat a mod 0x2000" "unat (a AND 0x0FFF) = unat a mod 0x1000"
    "unat (a AND 0x07FF) = unat a mod 0x0800" "unat (a AND 0x03FF) = unat a mod 0x0400"
    "unat (a AND 0x00FF) = unat a mod 0x0100" "unat (a AND 0x007F) = unat a mod 0x0080"
    "unat (a AND 0x0007) = unat a mod 8"
    by (simp_all only: m) simp_all
qed

lemma window_low: "unat (a AND 0x0FFF :: u16) < k \<Longrightarrow> unat (a AND 0x1FFF) < 0x1000 + k"
proof -
  assume "unat (a AND 0x0FFF) < k"
  moreover have "unat a mod 8192 \<le> 4096 + unat a mod 4096"
    using mod_mult2_eq [of "unat a" 4096 2] by simp
  ultimately show ?thesis by (simp add: mask_mod)
qed

end
