(* ===== verification/Boards_Banked.thy ===== *)
theory Boards_Banked
  imports Board
begin

text \<open>
  The ROM-only boards and the 4 KiB-bank boards of \<open>crates/rusty2600-cart/src/lib.rs\<close>: 2K, 4K,
  F8, F6, F4 and the CPUWIZ family EF, DF, BF. The six banked boards have the same four fields,
  kept in one record \<open>banked\<close>, and the same read and write bodies after their hotspots; what
  differs is the hotspot function and the number of banks, which the locale \<open>banked_board\<close> takes
  as its parameters.
\<close>

subsection \<open>2K and 4K\<close>

type_synonym rom_only = "u8 list"

definition rom2k_new :: "u8 list \<Rightarrow> rom_only option" where
  "rom2k_new rom = (if length rom = 0x0800 then Some rom else None)"

definition rom2k_read :: "u16 \<Rightarrow> rom_only \<Rightarrow> (u8 \<times> rom_only) option" where
  "rom2k_read addr c = do { v \<leftarrow> nth_chk c (unat (addr AND 0x07FF)); Some (v, c) }"

definition rom4k_new :: "u8 list \<Rightarrow> rom_only option" where
  "rom4k_new rom = (if length rom = 0x1000 then Some rom else None)"

definition rom4k_read :: "u16 \<Rightarrow> rom_only \<Rightarrow> (u8 \<times> rom_only) option" where
  "rom4k_read addr c = do { v \<leftarrow> nth_chk c (unat (addr AND 0x0FFF)); Some (v, c) }"

definition rom_write :: "u16 \<Rightarrow> u8 \<Rightarrow> rom_only \<Rightarrow> rom_only option" where
  "rom_write addr v c = Some c"

definition rom2k :: "rom_only board_ops" where "rom2k = default_board rom2k_read rom_write Core"
definition rom4k :: "rom_only board_ops" where "rom4k = default_board rom4k_read rom_write Core"

definition rom2k_ok :: "rom_only \<Rightarrow> bool" where "rom2k_ok c \<longleftrightarrow> length c = 0x0800"
definition rom4k_ok :: "rom_only \<Rightarrow> bool" where "rom4k_ok c \<longleftrightarrow> length c = 0x1000"

interpretation rom2k: board rom2k rom2k_ok
  unfolding rom2k_def
  by (rule default_boardI) (simp_all add: rom2k_read_def rom_write_def rom2k_ok_def)

interpretation rom4k: board rom4k rom4k_ok
  unfolding rom4k_def
  by (rule default_boardI) (simp_all add: rom4k_read_def rom_write_def rom4k_ok_def)

subsection \<open>The banked boards\<close>

record banked =
  bk_rom :: "u8 list"
  bk_bank :: u8
  bk_ram :: "u8 list"
  bk_superchip :: bool

definition banked_init :: "u8 list \<Rightarrow> u8 \<Rightarrow> banked" where
  "banked_init rom bank = \<lparr>bk_rom = rom, bk_bank = bank, bk_ram = replicate 0x80 0, bk_superchip = False\<rparr>"

definition with_superchip :: "banked \<Rightarrow> banked" where
  "with_superchip c = c\<lparr>bk_superchip := True\<rparr>"

definition superchip_read :: "u16 \<Rightarrow> banked \<Rightarrow> u8 option" where
  "superchip_read addr c = (let a = addr AND 0x0FFF in
     if bk_superchip c \<and> 0x0080 \<le> a \<and> a < 0x0100 then nth_chk (bk_ram c) (unat (a AND 0x007F))
     else rom_at (bk_rom c) 0x1000 (bk_bank c) a)"

definition superchip_write :: "u16 \<Rightarrow> u8 \<Rightarrow> banked \<Rightarrow> banked option" where
  "superchip_write addr v c =
     (if bk_superchip c then
        (let a = addr AND 0x0FFF in
         if a < 0x0080 then do { m \<leftarrow> upd_chk (bk_ram c) (unat a) v; Some (c\<lparr>bk_ram := m\<rparr>) } else Some c)
      else Some c)"

definition banked_read :: "(u16 \<Rightarrow> banked \<Rightarrow> banked) \<Rightarrow> u16 \<Rightarrow> banked \<Rightarrow> (u8 \<times> banked) option" where
  "banked_read hotspot addr c = do {
     let c = hotspot addr c;
     v \<leftarrow> superchip_read addr c;
     Some (v, c) }"

definition banked_write :: "(u16 \<Rightarrow> banked \<Rightarrow> banked) \<Rightarrow> u16 \<Rightarrow> u8 \<Rightarrow> banked \<Rightarrow> banked option" where
  "banked_write hotspot addr v c = superchip_write addr v (hotspot addr c)"

definition f8_new :: "u8 list \<Rightarrow> banked option" where
  "f8_new rom = (if length rom = 0x2000 then Some (banked_init rom 1) else None)"

definition f8_hotspot :: "u16 \<Rightarrow> banked \<Rightarrow> banked" where
  "f8_hotspot addr c = (let a = addr AND 0x1FFF in
     if a = 0x1FF8 then c\<lparr>bk_bank := 0\<rparr> else if a = 0x1FF9 then c\<lparr>bk_bank := 1\<rparr> else c)"

definition f6_new :: "u8 list \<Rightarrow> banked option" where
  "f6_new rom = (if length rom = 0x4000 then Some (banked_init rom 3) else None)"

definition f6_hotspot :: "u16 \<Rightarrow> banked \<Rightarrow> banked" where
  "f6_hotspot addr c = (let a = addr AND 0x1FFF in
     if a = 0x1FF6 then c\<lparr>bk_bank := 0\<rparr> else if a = 0x1FF7 then c\<lparr>bk_bank := 1\<rparr>
     else if a = 0x1FF8 then c\<lparr>bk_bank := 2\<rparr> else if a = 0x1FF9 then c\<lparr>bk_bank := 3\<rparr> else c)"

definition f4_new :: "u8 list \<Rightarrow> banked option" where
  "f4_new rom = (if length rom = 0x8000 then Some (banked_init rom 7) else None)"

definition f4_hotspot :: "u16 \<Rightarrow> banked \<Rightarrow> banked" where
  "f4_hotspot addr c = (let a = addr AND 0x1FFF in
     if a = 0x1FF4 then c\<lparr>bk_bank := 0\<rparr> else if a = 0x1FF5 then c\<lparr>bk_bank := 1\<rparr>
     else if a = 0x1FF6 then c\<lparr>bk_bank := 2\<rparr> else if a = 0x1FF7 then c\<lparr>bk_bank := 3\<rparr>
     else if a = 0x1FF8 then c\<lparr>bk_bank := 4\<rparr> else if a = 0x1FF9 then c\<lparr>bk_bank := 5\<rparr>
     else if a = 0x1FFA then c\<lparr>bk_bank := 6\<rparr> else if a = 0x1FFB then c\<lparr>bk_bank := 7\<rparr> else c)"

definition ef_family_hotspot :: "u16 \<Rightarrow> u8 \<Rightarrow> u16 \<Rightarrow> banked \<Rightarrow> banked" where
  "ef_family_hotspot base count addr c = (let a = addr AND 0x1FFF in
     if base \<le> a \<and> a < base + ucast count then c\<lparr>bk_bank := ucast (a - base)\<rparr> else c)"

definition ef_new :: "u8 list \<Rightarrow> banked option" where
  "ef_new rom = (if length rom \<noteq> 0x10000 then None else Some (banked_init rom 0))"

definition df_new :: "u8 list \<Rightarrow> banked option" where
  "df_new rom = (if length rom \<noteq> 0x20000 then None else Some (banked_init rom 0))"

definition bf_new :: "u8 list \<Rightarrow> banked option" where
  "bf_new rom = (if length rom \<noteq> 0x40000 then None else Some (banked_init rom 0))"

definition ef_hotspot :: "u16 \<Rightarrow> banked \<Rightarrow> banked" where "ef_hotspot = ef_family_hotspot 0x1FE0 16"
definition df_hotspot :: "u16 \<Rightarrow> banked \<Rightarrow> banked" where "df_hotspot = ef_family_hotspot 0x1FC0 32"
definition bf_hotspot :: "u16 \<Rightarrow> banked \<Rightarrow> banked" where "bf_hotspot = ef_family_hotspot 0x1F80 64"

definition banked_ops :: "(u16 \<Rightarrow> banked \<Rightarrow> banked) \<Rightarrow> tier \<Rightarrow> banked board_ops" where
  "banked_ops hotspot tr = default_board (banked_read hotspot) (banked_write hotspot) tr"

definition bank_f8 :: "banked board_ops" where "bank_f8 = banked_ops f8_hotspot Curated"
definition bank_f6 :: "banked board_ops" where "bank_f6 = banked_ops f6_hotspot Curated"
definition bank_f4 :: "banked board_ops" where "bank_f4 = banked_ops f4_hotspot Curated"
definition bank_ef :: "banked board_ops" where "bank_ef = banked_ops ef_hotspot BestEffort"
definition bank_df :: "banked board_ops" where "bank_df = banked_ops df_hotspot BestEffort"
definition bank_bf :: "banked board_ops" where "bank_bf = banked_ops bf_hotspot BestEffort"

subsection \<open>The contract of a banked board\<close>

definition banked_ok :: "nat \<Rightarrow> banked \<Rightarrow> bool" where
  "banked_ok n c \<longleftrightarrow> length (bk_rom c) = n * 0x1000 \<and> unat (bk_bank c) < n \<and> length (bk_ram c) = 0x80"

text \<open>
  A hotspot function selects, for each address, a bank below \<open>n\<close> or none, and looks at thirteen
  address bits only.
\<close>

locale banked_board =
  fixes hotspot :: "u16 \<Rightarrow> banked \<Rightarrow> banked"
    and n :: nat
    and sel :: "u16 \<Rightarrow> u8 option"
  assumes hotspot_sel: "hotspot a c = (case sel (a AND 0x1FFF) of None \<Rightarrow> c | Some b \<Rightarrow> c\<lparr>bk_bank := b\<rparr>)"
    and sel_bound: "sel a = Some b \<Longrightarrow> unat b < n"
    and sel_high: "sel a = Some b \<Longrightarrow> 0x1F00 \<le> a"
begin

lemma hotspot_ok: "banked_ok n c \<Longrightarrow> banked_ok n (hotspot a c)"
  by (auto simp: hotspot_sel banked_ok_def sel_bound split: option.split)

lemma hotspot_fields [simp]:
  "bk_rom (hotspot a c) = bk_rom c" "bk_ram (hotspot a c) = bk_ram c"
  "bk_superchip (hotspot a c) = bk_superchip c"
  by (simp_all add: hotspot_sel split: option.split)

lemma superchip_read_total: "banked_ok n c \<Longrightarrow> superchip_read a c = Some (
    if bk_superchip c \<and> 0x0080 \<le> a AND 0x0FFF \<and> a AND 0x0FFF < 0x0100
    then bk_ram c ! unat ((a AND 0x0FFF) AND 0x007F)
    else bk_rom c ! (unat (bk_bank c) * 0x1000 + unat (a AND 0x0FFF)))"
  by (simp add: superchip_read_def banked_ok_def Let_def rom_at_ok)

lemma superchip_write_ok: "banked_ok n c \<Longrightarrow> wpo (superchip_write a v c) (banked_ok n)"
  by (auto simp: superchip_write_def banked_ok_def Let_def word_less_nat_alt)

lemma board_ok: "board (banked_ops hotspot tr) (banked_ok n)"
  unfolding banked_ops_def
  by (rule default_boardI)
    (auto simp: banked_read_def banked_write_def superchip_read_total hotspot_ok Let_def
       intro!: superchip_write_ok)

text \<open>Touching a hotspot switches the bank seen by the next access of an ordinary address.\<close>

lemma select_bank:
  assumes "banked_ok n c" "sel h = Some b" "h AND 0x1FFF = h" "sel (a AND 0x1FFF) = None"
    and "\<not> bk_superchip c"
  shows "do { (_, c') \<leftarrow> banked_read hotspot h c; banked_read hotspot a c' } =
    Some (bk_rom c ! (unat b * 0x1000 + unat (a AND 0x0FFF)), c\<lparr>bk_bank := b\<rparr>)"
proof -
  have h: "hotspot h c = c\<lparr>bk_bank := b\<rparr>" "banked_ok n (hotspot h c)"
    using assms(2,3) hotspot_ok [OF assms(1), of h] by (simp_all add: hotspot_sel [of h])
  have a: "hotspot a (hotspot h c) = hotspot h c"
    using assms by (simp add: hotspot_sel [of a])
  show ?thesis
    using superchip_read_total [OF h(2)] a assms(5) by (simp add: banked_read_def h(1))
qed

text \<open>A Superchip byte written through the low port reads back through the high one.\<close>

lemma low_no_hotspot: "a AND 0x0FFF < 0x0100 \<Longrightarrow> hotspot a c = c"
proof -
  assume "a AND 0x0FFF < 0x0100"
  then have "unat (a AND 0x1FFF) < 0x1100" using window_low [of a "0x100"] by (simp add: word_less_nat_alt)
  then have "sel (a AND 0x1FFF) = None"
    using sel_high [of "a AND 0x1FFF"] by (cases "sel (a AND 0x1FFF)") (auto simp: word_le_nat_alt)
  then show ?thesis by (simp add: hotspot_sel)
qed

lemma superchip_roundtrip:
  assumes ok: "banked_ok n c" "bk_superchip c"
    and w: "w AND 0x0FFF = k" "k < 0x80" and r: "r AND 0x0FFF = 0x80 + k"
  shows "do { c' \<leftarrow> banked_write hotspot w v c; banked_read hotspot r c' } =
    Some (v, c\<lparr>bk_ram := (bk_ram c)[unat k := v]\<rparr>)"
proof -
  have k: "unat k < 0x80" using w(2) by (simp add: word_less_nat_alt)
  then have u: "unat (0x80 + k) = 0x80 + unat k" by (simp add: unat_word_ariths)
  let ?c = "c\<lparr>bk_ram := (bk_ram c)[unat k := v]\<rparr>"
  have "banked_write hotspot w v c = Some ?c"
    using ok k w by (simp add: banked_write_def superchip_write_def low_no_hotspot word_less_nat_alt
        banked_ok_def Let_def)
  moreover have "banked_ok n ?c" using ok by (simp add: banked_ok_def)
  moreover have "unat ((0x80 + k) AND 0x7F) = unat k" using k u by (simp add: mask_mod)
  ultimately show ?thesis
    using ok k r u low_no_hotspot [of r ?c] superchip_read_total [of ?c r]
    by (simp add: banked_read_def word_less_nat_alt word_le_nat_alt banked_ok_def Let_def)
qed

end

subsection \<open>The six boards keep it\<close>

definition f8_sel :: "u16 \<Rightarrow> u8 option" where
  "f8_sel a = (if a = 0x1FF8 then Some 0 else if a = 0x1FF9 then Some 1 else None)"

definition f6_sel :: "u16 \<Rightarrow> u8 option" where
  "f6_sel a = (
    if a = 0x1FF6 then Some 0 else if a = 0x1FF7 then Some 1 else if a = 0x1FF8 then Some 2
    else if a = 0x1FF9 then Some 3 else None)"

definition f4_sel :: "u16 \<Rightarrow> u8 option" where
  "f4_sel a = (
    if a = 0x1FF4 then Some 0 else if a = 0x1FF5 then Some 1 else if a = 0x1FF6 then Some 2
    else if a = 0x1FF7 then Some 3 else if a = 0x1FF8 then Some 4 else if a = 0x1FF9 then
    Some 5 else if a = 0x1FFA then Some 6 else if a = 0x1FFB then Some 7 else None)"

definition ef_family_sel :: "u16 \<Rightarrow> u8 \<Rightarrow> u16 \<Rightarrow> u8 option" where
  "ef_family_sel base count a =
     (if base \<le> a \<and> a < base + ucast count then Some (ucast (a - base)) else None)"

interpretation f8: banked_board f8_hotspot 2 f8_sel
  by unfold_locales (auto simp: f8_hotspot_def f8_sel_def Let_def split: if_splits)

interpretation f6: banked_board f6_hotspot 4 f6_sel
  by unfold_locales (auto simp: f6_hotspot_def f6_sel_def Let_def split: if_splits)

interpretation f4: banked_board f4_hotspot 8 f4_sel
  by unfold_locales (auto simp: f4_hotspot_def f4_sel_def Let_def split: if_splits)

lemma offset_byte: "base \<le> a \<Longrightarrow> a < base + ucast (count :: u8) \<Longrightarrow> unat base + 256 < 65536 \<Longrightarrow>
    unat (ucast (a - base) :: u8) = unat (a - base) \<and> unat (a - base) < unat count" for a base :: u16
proof -
  assume a: "base \<le> a" "a < base + ucast count" "unat base + 256 < 65536"
  have "unat (base + ucast count) = unat base + unat count"
    using a(3) word8_bound [of count] by (simp add: unat_word_ariths)
  then have lt: "unat (a - base) < unat count"
    using a by (simp add: unat_sub word_le_nat_alt word_less_nat_alt)
  then have "unat (a - base) < 256" using word8_bound [of count] by linarith
  with lt show ?thesis by (simp add: unat_ucast_16_8)
qed

lemma ef_family_board:
  assumes "0x1F00 \<le> base" "unat base + 256 < 65536"
  shows "banked_board (ef_family_hotspot base count) (unat count) (ef_family_sel base count)"
  by unfold_locales
    (use assms offset_byte [of base _ count] in \<open>auto simp: ef_family_hotspot_def ef_family_sel_def
      Let_def split: if_splits dest: order_trans\<close>)

interpretation ef: banked_board ef_hotspot 16 "ef_family_sel 0x1FE0 16"
  using ef_family_board [of "0x1FE0" 16] by (simp add: ef_hotspot_def)

interpretation df: banked_board df_hotspot 32 "ef_family_sel 0x1FC0 32"
  using ef_family_board [of "0x1FC0" 32] by (simp add: df_hotspot_def)

interpretation bf: banked_board bf_hotspot 64 "ef_family_sel 0x1F80 64"
  using ef_family_board [of "0x1F80" 64] by (simp add: bf_hotspot_def)


interpretation bank_f8: board bank_f8 "banked_ok 2"
  unfolding bank_f8_def by (rule f8.board_ok)

interpretation bank_f6: board bank_f6 "banked_ok 4"
  unfolding bank_f6_def by (rule f6.board_ok)

interpretation bank_f4: board bank_f4 "banked_ok 8"
  unfolding bank_f4_def by (rule f4.board_ok)

interpretation bank_ef: board bank_ef "banked_ok 16"
  unfolding bank_ef_def by (rule ef.board_ok)

interpretation bank_df: board bank_df "banked_ok 32"
  unfolding bank_df_def by (rule df.board_ok)

interpretation bank_bf: board bank_bf "banked_ok 64"
  unfolding bank_bf_def by (rule bf.board_ok)

lemma banked_new_ok:
  "f8_new rom = Some c \<Longrightarrow> banked_ok 2 c" "f6_new rom = Some c \<Longrightarrow> banked_ok 4 c"
  "f4_new rom = Some c \<Longrightarrow> banked_ok 8 c" "ef_new rom = Some c \<Longrightarrow> banked_ok 16 c"
  "df_new rom = Some c \<Longrightarrow> banked_ok 32 c" "bf_new rom = Some c \<Longrightarrow> banked_ok 64 c"
  by (auto simp: f8_new_def f6_new_def f4_new_def ef_new_def df_new_def bf_new_def banked_init_def
      banked_ok_def split: if_splits)

lemma with_superchip_ok [simp]: "banked_ok n (with_superchip c) = banked_ok n c"
  by (simp add: with_superchip_def banked_ok_def)

subsection \<open>What a program sees\<close>

lemma small_sels:
  "b < 2 \<Longrightarrow> f8_sel (0x1FF8 + of_nat b) = Some (of_nat b)"
  "b < 4 \<Longrightarrow> f6_sel (0x1FF6 + of_nat b) = Some (of_nat b)"
  "b < 8 \<Longrightarrow> f4_sel (0x1FF4 + of_nat b) = Some (of_nat b)"
proof -
  have "b < 2 \<Longrightarrow> b \<in> {0, 1}" "b < 4 \<Longrightarrow> b \<in> {0, 1, 2, 3}" "b < 8 \<Longrightarrow> b \<in> {0, 1, 2, 3, 4, 5, 6, 7}"
    by auto
  then show "b < 2 \<Longrightarrow> f8_sel (0x1FF8 + of_nat b) = Some (of_nat b)"
    "b < 4 \<Longrightarrow> f6_sel (0x1FF6 + of_nat b) = Some (of_nat b)"
    "b < 8 \<Longrightarrow> f4_sel (0x1FF4 + of_nat b) = Some (of_nat b)"
    by (auto simp: f8_sel_def f6_sel_def f4_sel_def)
qed

lemma ef_family_sel_at:
  assumes "b < unat count" "unat base + 256 < 65536"
  shows "ef_family_sel base count (base + of_nat b) = Some (of_nat b)"
proof -
  have b: "b < 256" using assms(1) word8_bound [of count] by linarith
  then have "unat (base + of_nat b) = unat base + b" "unat (base + ucast count) = unat base + unat count"
    using assms word8_bound [of count] by (simp_all add: unat_word_ariths unat_of_nat)
  then show ?thesis
    using assms b by (simp add: ef_family_sel_def word_le_nat_alt word_less_nat_alt word_unat_eq_iff
        unat_ucast_16_8 unat_of_nat)
qed

text \<open>The six schemes: their hotspots, the address of the first one, and the number of banks.\<close>

definition schemes :: "((u16 \<Rightarrow> banked \<Rightarrow> banked) \<times> u16 \<times> nat \<times> (u16 \<Rightarrow> u8 option)) set" where
  "schemes = {(f8_hotspot, 0x1FF8, 2, f8_sel), (f6_hotspot, 0x1FF6, 4, f6_sel),
     (f4_hotspot, 0x1FF4, 8, f4_sel), (ef_hotspot, 0x1FE0, 16, ef_family_sel 0x1FE0 16),
     (df_hotspot, 0x1FC0, 32, ef_family_sel 0x1FC0 32), (bf_hotspot, 0x1F80, 64, ef_family_sel 0x1F80 64)}"

lemma schemes_banked: "(hs, base, n, sel) \<in> schemes \<Longrightarrow> banked_board hs n sel"
  using f8.banked_board_axioms f6.banked_board_axioms f4.banked_board_axioms ef.banked_board_axioms
    df.banked_board_axioms bf.banked_board_axioms
  by (auto simp: schemes_def)

lemma schemes_sel:
  assumes "(hs, base, n, sel) \<in> schemes" "b < n"
  shows "sel (base + of_nat b) = Some (of_nat b) \<and> (base + of_nat b) AND 0x1FFF = base + of_nat b"
proof
  show "sel (base + of_nat b) = Some (of_nat b)"
    using assms small_sels [of b] ef_family_sel_at [of b 16 "0x1FE0"]
      ef_family_sel_at [of b 32 "0x1FC0"] ef_family_sel_at [of b 64 "0x1F80"]
    by (auto simp: schemes_def)
  have "unat (base + of_nat b) < 0x2000"
    using assms by (auto simp: schemes_def unat_word_ariths unat_of_nat)
  then show "(base + of_nat b) AND 0x1FFF = base + of_nat b"
    by (simp add: word_unat_eq_iff mask_mod)
qed

lemma schemes_below:
  "(hs, base, n, sel) \<in> schemes \<Longrightarrow> unat a < 0x1F80 \<Longrightarrow> sel a = None"
  by (auto simp: schemes_def f8_sel_def f6_sel_def f4_sel_def ef_family_sel_def word_le_nat_alt)

text \<open>
  on every F8, F6, F4, EF, DF and BF board, touching hotspot \<open>b\<close> makes the next read of an
  ordinary address come from bank \<open>b\<close> of the image.
\<close>

theorem hotspot_selects_bank:
  assumes "(hs, base, n, sel) \<in> schemes" "banked_ok n c" "\<not> bk_superchip c" "b < n"
    and "unat (a AND 0x1FFF) < 0x1F80"
  shows "do { (_, c') \<leftarrow> banked_read hs (base + of_nat b) c; banked_read hs a c' } =
    Some (bk_rom c ! (b * 0x1000 + unat (a AND 0x0FFF)), c\<lparr>bk_bank := of_nat b\<rparr>)"
proof -
  have "b < 64" using assms(1,4) by (auto simp: schemes_def)
  then have "unat (of_nat b :: u8) = b" by (simp add: unat_of_nat)
  then show ?thesis
    using banked_board.select_bank [OF schemes_banked [OF assms(1)] assms(2), of "base + of_nat b" "of_nat b" a]
      schemes_sel [OF assms(1,4)] schemes_below [OF assms(1,5)] assms(3) by simp
qed

definition demo_f8 :: banked where
  "demo_f8 = banked_init (replicate 0x1000 0xAA @ replicate 0x1000 0xBB) 1"

lemma demo_f8_ok: "banked_ok 2 demo_f8"
  by (simp add: demo_f8_def banked_init_def banked_ok_def)

lemma hotspot_selects_bank_witness:
  "do { (_, c') \<leftarrow> banked_read f8_hotspot 0x1FF8 demo_f8; banked_read f8_hotspot 0x1123 c' } =
   Some (0xAA, demo_f8\<lparr>bk_bank := 0\<rparr>)"
proof -
  have "bk_rom demo_f8 ! 0x123 = 0xAA" "\<not> bk_superchip demo_f8"
    by (simp_all add: demo_f8_def banked_init_def nth_append)
  then show ?thesis
    using hotspot_selects_bank [of f8_hotspot "0x1FF8" 2 f8_sel demo_f8 0 "0x1123"] demo_f8_ok
    by (simp add: schemes_def)
qed

text \<open>
  with the Superchip, a byte written through the low 128-byte port reads back through the
  high one at every mirror, and changes nothing else.
\<close>

theorem superchip_ports:
  assumes "(hs, base, n, sel) \<in> schemes" "banked_ok n c" "bk_superchip c"
    and "w AND 0x0FFF = k" "k < 0x80" "r AND 0x0FFF = 0x80 + k"
  shows "do { c' \<leftarrow> banked_write hs w v c; banked_read hs r c' } =
    Some (v, c\<lparr>bk_ram := (bk_ram c)[unat k := v]\<rparr>)"
  by (rule banked_board.superchip_roundtrip [OF schemes_banked [OF assms(1)] assms(2-)])

lemma superchip_ports_witness:
  "do { c' \<leftarrow> banked_write f8_hotspot 0x1005 7 (with_superchip demo_f8); banked_read f8_hotspot 0x3085 c' } =
   Some (7, (with_superchip demo_f8)\<lparr>bk_ram := (bk_ram demo_f8)[5 := 7]\<rparr>)"
  using superchip_ports [of f8_hotspot "0x1FF8" 2 f8_sel "with_superchip demo_f8" "0x1005" 5 "0x3085" 7]
    demo_f8_ok
  by (simp add: schemes_def with_superchip_def banked_ok_def)

end
