(* ===== verification/Boards_Ram.thy ===== *)
theory Boards_Ram
  imports Board
begin

text \<open>
  The boards of \<open>crates/rusty2600-cart/src/lib.rs\<close> with RAM or segments of their own: CV
  (CommaVid), FA (CBS RAM Plus), E7 (M-Network), F0 (Megaboy), E0 (Parker Brothers), 3F and 3E
  (Tigervision). Each has its record, constructor, hotspots, read and write, and the
  interpretation that it keeps the contract of the bus.
\<close>

subsection \<open>CV\<close>

record bank_cv =
  cv_rom :: "u8 list"
  cv_ram :: "u8 list"

definition cv_new :: "u8 list \<Rightarrow> bank_cv option" where
  "cv_new img =
     (if length img = 0x0800 then Some \<lparr>cv_rom = img, cv_ram = replicate 0x0400 0\<rparr>
      else if length img = 0x1000 then do {
        ram \<leftarrow> slice_chk 0 0x0400 img;
        rom \<leftarrow> slice_chk 0x0800 0x1000 img;
        Some \<lparr>cv_rom = rom, cv_ram = ram\<rparr> }
      else None)"

text \<open>\<open>None\<close> below the window is the \<open>unreachable!()\<close> arm.\<close>

definition cv_read :: "u16 \<Rightarrow> bank_cv \<Rightarrow> (u8 \<times> bank_cv) option" where
  "cv_read addr c = (let a = addr AND 0x1FFF in
     if 0x1000 \<le> a \<and> a \<le> 0x13FF then do { v \<leftarrow> nth_chk (cv_ram c) (unat (a AND 0x03FF)); Some (v, c) }
     else if 0x1400 \<le> a \<and> a \<le> 0x1FFF then
       (if a < 0x1800 then Some (0, c)
        else do { v \<leftarrow> nth_chk (cv_rom c) (unat (a AND 0x07FF)); Some (v, c) })
     else None)"

definition cv_write :: "u16 \<Rightarrow> u8 \<Rightarrow> bank_cv \<Rightarrow> bank_cv option" where
  "cv_write addr v c =
     (if 0x1400 \<le> addr AND 0x1FFF \<and> addr AND 0x1FFF \<le> 0x17FF
      then do { m \<leftarrow> upd_chk (cv_ram c) (unat (addr AND 0x03FF)) v; Some (c\<lparr>cv_ram := m\<rparr>) }
      else Some c)"

definition cv_board :: "bank_cv board_ops" where "cv_board = default_board cv_read cv_write Curated"

definition cv_ok :: "bank_cv \<Rightarrow> bool" where
  "cv_ok c \<longleftrightarrow> length (cv_rom c) = 0x0800 \<and> length (cv_ram c) = 0x0400"

lemma in_window_ge: "in_window a \<Longrightarrow> 0x1000 \<le> a \<and> a \<le> 0x1FFF"
proof -
  assume a: "in_window a"
  then have lt: "unat a < 0x2000" by (metis in_window_def mask_mod(1) mod_less_divisor zero_less_numeral)
  have "\<not> unat a < 0x1000"
  proof
    assume "unat a < 0x1000"
    then have "a AND 0x0FFF = a" by (simp add: word_unat_eq_iff mask_mod)
    then have "a AND 0x1000 = (a AND 0x0FFF) AND 0x1000" by simp
    also have "\<dots> = 0" by (simp add: and.assoc)
    finally show False using a by (simp add: in_window_def)
  qed
  with lt show ?thesis by (simp add: word_le_nat_alt)
qed

lemma in_window_masks: "in_window a \<Longrightarrow> a AND 0x1FFF = a"
  by (simp add: in_window_def)

interpretation cv: board cv_board cv_ok
  unfolding cv_board_def
proof (rule default_boardI)
  fix c a
  assume "cv_ok c" "in_window a"
  then show "wpo (cv_read a c) (\<lambda>(v, c'). cv_ok c')"
    using in_window_ge [of a] by (auto simp: cv_read_def cv_ok_def Let_def in_window_masks
        word_le_nat_alt word_less_nat_alt)
qed (auto simp: cv_write_def cv_ok_def)

subsection \<open>FA\<close>

record bank_fa =
  fa_rom :: "u8 list"
  fa_ram :: "u8 list"
  fa_bank :: u8

definition fa_new :: "u8 list \<Rightarrow> bank_fa option" where
  "fa_new rom = (if length rom = 0x3000
     then Some \<lparr>fa_rom = rom, fa_ram = replicate 0x100 0, fa_bank = 2\<rparr> else None)"

definition fa_hotspot :: "u16 \<Rightarrow> bank_fa \<Rightarrow> bank_fa" where
  "fa_hotspot addr c = (let a = addr AND 0x1FFF in
     if 0x1FF8 \<le> a \<and> a \<le> 0x1FF8 + 2 then c\<lparr>fa_bank := ucast (a - 0x1FF8)\<rparr> else c)"

definition fa_read :: "u16 \<Rightarrow> bank_fa \<Rightarrow> (u8 \<times> bank_fa) option" where
  "fa_read addr c = do {
     let c = fa_hotspot addr c;
     let a = addr AND 0x0FFF;
     v \<leftarrow> (if 0x0100 \<le> a \<and> a < 0x0200 then nth_chk (fa_ram c) (unat (a AND 0x00FF))
           else rom_at (fa_rom c) 0x1000 (fa_bank c) a);
     Some (v, c) }"

definition fa_write :: "u16 \<Rightarrow> u8 \<Rightarrow> bank_fa \<Rightarrow> bank_fa option" where
  "fa_write addr v c = do {
     let c = fa_hotspot addr c;
     let a = addr AND 0x0FFF;
     if a < 0x0100 then do { m \<leftarrow> upd_chk (fa_ram c) (unat a) v; Some (c\<lparr>fa_ram := m\<rparr>) } else Some c }"

definition fa_board :: "bank_fa board_ops" where "fa_board = default_board fa_read fa_write Curated"

definition fa_ok :: "bank_fa \<Rightarrow> bool" where
  "fa_ok c \<longleftrightarrow> length (fa_rom c) = 3 * 0x1000 \<and> length (fa_ram c) = 0x100 \<and> unat (fa_bank c) < 3"

text \<open>A hotspot range of \<open>k + 1\<close> addresses gives a byte of at most \<open>k\<close>.\<close>

lemma hotspot_byte: "b \<le> a \<Longrightarrow> a \<le> b + k \<Longrightarrow> unat b + 256 \<le> 65536 \<Longrightarrow> unat k < 256 \<Longrightarrow>
    unat (ucast (a - b) :: u8) \<le> unat k" for a b k :: u16
proof -
  assume a: "b \<le> a" "a \<le> b + k" "unat b + 256 \<le> 65536" "unat k < 256"
  have "unat (b + k) = unat b + unat k" using a(3,4) by (simp add: unat_word_ariths)
  then have "unat (a - b) \<le> unat k" using a(1,2) by (simp add: unat_sub word_le_nat_alt)
  then show ?thesis using a(4) by (simp add: unat_ucast_16_8)
qed

lemma fa_hotspot_ok: "fa_ok c \<Longrightarrow> fa_ok (fa_hotspot a c)"
  using hotspot_byte [of "0x1FF8" "a AND 0x1FFF" 2] by (auto simp: fa_hotspot_def fa_ok_def Let_def)

interpretation fa: board fa_board fa_ok
  unfolding fa_board_def
proof (rule default_boardI)
  fix c a v
  assume c: "fa_ok c"
  note h = fa_hotspot_ok [OF c, of a]
  show "wpo (fa_read a c) (\<lambda>(v, c'). fa_ok c')"
    using h by (auto simp: fa_read_def fa_ok_def Let_def rom_at_ok)
  show "wpo (fa_write a v c) fa_ok"
    using h by (auto simp: fa_write_def fa_ok_def Let_def word_less_nat_alt)
qed

subsection \<open>E7\<close>

record bank_e7 =
  e7_rom :: "u8 list"
  e7_ram_big :: "u8 list"
  e7_ram_small :: "u8 list"
  e7_bank0 :: u8
  e7_ram_bank :: u8

definition e7_new :: "u8 list \<Rightarrow> bank_e7 option" where
  "e7_new rom = (if length rom = 0x4000
     then Some \<lparr>e7_rom = rom, e7_ram_big = replicate 0x400 0, e7_ram_small = replicate 0x400 0,
                e7_bank0 = 0, e7_ram_bank = 0\<rparr> else None)"

definition e7_switch :: "u16 \<Rightarrow> bank_e7 \<Rightarrow> bank_e7" where
  "e7_switch addr c = (let a = addr AND 0x1FFF in
     if 0x1FE0 \<le> a \<and> a \<le> 0x1FE0 + 7 then c\<lparr>e7_bank0 := ucast (a - 0x1FE0)\<rparr>
     else if 0x1FE8 \<le> a \<and> a \<le> 0x1FE8 + 3 then c\<lparr>e7_ram_bank := ucast (a - 0x1FE8)\<rparr>
     else c)"

definition e7_read :: "u16 \<Rightarrow> bank_e7 \<Rightarrow> (u8 \<times> bank_e7) option" where
  "e7_read addr c = do {
     let c = e7_switch addr c;
     let a = addr AND 0x0FFF;
     v \<leftarrow> (if a < 0x0800 then
             (if e7_bank0 c = 7 then nth_chk (e7_ram_big c) (unat (a AND 0x03FF))
              else rom_at (e7_rom c) 0x800 (e7_bank0 c) a)
           else if a < 0x0A00 then rom_at (e7_ram_small c) 0x100 (e7_ram_bank c) (a AND 0x00FF)
           else rom_at (e7_rom c) 0x800 7 (a AND 0x07FF));
     Some (v, c) }"

definition e7_write :: "u16 \<Rightarrow> u8 \<Rightarrow> bank_e7 \<Rightarrow> bank_e7 option" where
  "e7_write addr v c = do {
     let c = e7_switch addr c;
     let a = addr AND 0x0FFF;
     if a < 0x0400 \<and> e7_bank0 c = 7 then do {
       m \<leftarrow> upd_chk (e7_ram_big c) (unat a) v; Some (c\<lparr>e7_ram_big := m\<rparr>) }
     else if 0x0800 \<le> a \<and> a < 0x0900 then do {
       m \<leftarrow> upd_chk (e7_ram_small c) (unat (e7_ram_bank c) * 0x100 + unat (a AND 0x00FF)) v;
       Some (c\<lparr>e7_ram_small := m\<rparr>) }
     else Some c }"

definition e7_board :: "bank_e7 board_ops" where "e7_board = default_board e7_read e7_write Curated"

definition e7_ok :: "bank_e7 \<Rightarrow> bool" where
  "e7_ok c \<longleftrightarrow> length (e7_rom c) = 8 * 0x800 \<and> length (e7_ram_big c) = 0x400 \<and>
     length (e7_ram_small c) = 4 * 0x100 \<and> unat (e7_bank0 c) < 8 \<and> unat (e7_ram_bank c) < 4"

lemma e7_switch_ok: "e7_ok c \<Longrightarrow> e7_ok (e7_switch a c)"
  using hotspot_byte [of "0x1FE0" "a AND 0x1FFF" 7] hotspot_byte [of "0x1FE8" "a AND 0x1FFF" 3]
  by (auto simp: e7_switch_def e7_ok_def Let_def)

interpretation e7: board e7_board e7_ok
  unfolding e7_board_def
proof (rule default_boardI)
  fix c a v
  assume c: "e7_ok c"
  note h = e7_switch_ok [OF c, of a]
  show "wpo (e7_read a c) (\<lambda>(v, c'). e7_ok c')"
    using h by (auto simp: e7_read_def e7_ok_def Let_def rom_at_ok word_less_nat_alt)
  show "wpo (e7_write a v c) e7_ok"
    using h bank_offset_less [of "unat (e7_ram_bank (e7_switch a c))" 4 "unat ((a AND 0x0FFF) AND 0x00FF)" 256]
    by (auto simp: e7_write_def e7_ok_def Let_def word_less_nat_alt)
qed


subsection \<open>F0\<close>

record bank_f0 =
  f0_rom :: "u8 list"
  f0_bank :: u8

definition f0_new :: "u8 list \<Rightarrow> bank_f0 option" where
  "f0_new rom = (if length rom \<noteq> 0x10000 then None else Some \<lparr>f0_rom = rom, f0_bank = 15\<rparr>)"

definition f0_hotspot :: "u16 \<Rightarrow> bank_f0 \<Rightarrow> bank_f0" where
  "f0_hotspot addr c = (if addr AND 0x1FFF = 0x1FF0
     then c\<lparr>f0_bank := (f0_bank c + 1) AND 0x0F\<rparr> else c)"

definition f0_read :: "u16 \<Rightarrow> bank_f0 \<Rightarrow> (u8 \<times> bank_f0) option" where
  "f0_read addr c = do {
     let c = f0_hotspot addr c;
     v \<leftarrow> rom_at (f0_rom c) 0x1000 (f0_bank c) (addr AND 0x0FFF);
     Some (v, c) }"

definition f0_write :: "u16 \<Rightarrow> u8 \<Rightarrow> bank_f0 \<Rightarrow> bank_f0 option" where
  "f0_write addr v c = Some (f0_hotspot addr c)"

definition f0_board :: "bank_f0 board_ops" where "f0_board = default_board f0_read f0_write BestEffort"

definition f0_ok :: "bank_f0 \<Rightarrow> bool" where
  "f0_ok c \<longleftrightarrow> length (f0_rom c) = 16 * 0x1000 \<and> unat (f0_bank c) < 16"

lemma f0_hotspot_ok: "f0_ok c \<Longrightarrow> f0_ok (f0_hotspot a c)"
  using unat_and_less [of "0x0F" 16 "f0_bank c + 1"] by (auto simp: f0_hotspot_def f0_ok_def)

interpretation f0: board f0_board f0_ok
  unfolding f0_board_def
proof (rule default_boardI)
  fix c a v
  assume c: "f0_ok c"
  show "wpo (f0_read a c) (\<lambda>(v, c'). f0_ok c')"
    using f0_hotspot_ok [OF c, of a] by (auto simp: f0_read_def f0_ok_def Let_def rom_at_ok)
  show "wpo (f0_write a v c) f0_ok"
    using f0_hotspot_ok [OF c, of a] by (simp add: f0_write_def)
qed

subsection \<open>E0\<close>

record bank_e0 =
  e0_rom :: "u8 list"
  e0_segments :: "u8 list"

definition e0_new :: "u8 list \<Rightarrow> bank_e0 option" where
  "e0_new rom = (if length rom = 0x2000 then Some \<lparr>e0_rom = rom, e0_segments = [4, 5, 6]\<rparr> else None)"

definition e0_hotspot :: "u16 \<Rightarrow> bank_e0 \<Rightarrow> bank_e0" where
  "e0_hotspot addr c = (let a = addr AND 0x1FFF; b = (ucast (a AND 0x0007) :: u8) in
     if 0x1FE0 \<le> a \<and> a \<le> 0x1FE7 then c\<lparr>e0_segments := (e0_segments c)[0 := b]\<rparr>
     else if 0x1FE8 \<le> a \<and> a \<le> 0x1FEF then c\<lparr>e0_segments := (e0_segments c)[1 := b]\<rparr>
     else if 0x1FF0 \<le> a \<and> a \<le> 0x1FF7 then c\<lparr>e0_segments := (e0_segments c)[2 := b]\<rparr>
     else c)"

definition e0_bank_for :: "u16 \<Rightarrow> bank_e0 \<Rightarrow> u8" where
  "e0_bank_for a c = (let s = drop_bit 10 a in
     if s = 0 then e0_segments c ! 0 else if s = 1 then e0_segments c ! 1
     else if s = 2 then e0_segments c ! 2 else 7)"

definition e0_read :: "u16 \<Rightarrow> bank_e0 \<Rightarrow> (u8 \<times> bank_e0) option" where
  "e0_read addr c = do {
     let c = e0_hotspot addr c;
     let a = addr AND 0x0FFF;
     v \<leftarrow> rom_at (e0_rom c) 0x400 (e0_bank_for a c) (a AND 0x03FF);
     Some (v, c) }"

definition e0_write :: "u16 \<Rightarrow> u8 \<Rightarrow> bank_e0 \<Rightarrow> bank_e0 option" where
  "e0_write addr v c = Some (e0_hotspot addr c)"

definition e0_board :: "bank_e0 board_ops" where "e0_board = default_board e0_read e0_write BestEffort"

definition e0_ok :: "bank_e0 \<Rightarrow> bool" where
  "e0_ok c \<longleftrightarrow> length (e0_rom c) = 8 * 0x400 \<and> length (e0_segments c) = 3 \<and>
     (\<forall>b \<in> set (e0_segments c). unat b < 8)"

lemma e0_hotspot_ok: "e0_ok c \<Longrightarrow> e0_ok (e0_hotspot a c)"
proof -
  have "unat (ucast ((a AND 0x1FFF) AND 0x0007 :: u16) :: u8) < 8"
    using mod_less_eq_dividend le_less_trans off_bounds(6) unfolding unat_ucast_16_8 by blast
  then show "e0_ok c \<Longrightarrow> ?thesis"
    by (auto simp: e0_hotspot_def e0_ok_def Let_def dest!: set_update_subset_insert [THEN subsetD])
qed

lemma e0_bank_for_bound: "e0_ok c \<Longrightarrow> unat (e0_bank_for a c) < 8"
  by (simp add: e0_bank_for_def e0_ok_def Let_def)

interpretation e0: board e0_board e0_ok
  unfolding e0_board_def
proof (rule default_boardI)
  fix c a v
  assume c: "e0_ok c"
  note h = e0_hotspot_ok [OF c, of a]
  show "wpo (e0_read a c) (\<lambda>(v, c'). e0_ok c')"
    using h e0_bank_for_bound [OF h, of "a AND 0x0FFF"]
    by (auto simp: e0_read_def Let_def e0_ok_def [of "e0_hotspot a c"] rom_at_ok)
  show "wpo (e0_write a v c) e0_ok"
    using h by (simp add: e0_write_def)
qed

subsection \<open>3F\<close>

record bank_3f =
  b3f_rom :: "u8 list"
  b3f_bank_count :: u8
  b3f_bank :: u8

definition b3f_new :: "u8 list \<Rightarrow> bank_3f option" where
  "b3f_new rom = (if rom = [] \<or> length rom mod 0x0800 \<noteq> 0 then None
     else Some \<lparr>b3f_rom = rom, b3f_bank_count = word_of_nat (length rom div 0x0800), b3f_bank = 0\<rparr>)"

definition b3f_read :: "u16 \<Rightarrow> bank_3f \<Rightarrow> (u8 \<times> bank_3f) option" where
  "b3f_read addr c = do {
     let a = addr AND 0x0FFF;
     let bank = (if a < 0x0800 then b3f_bank c else b3f_bank_count c - 1);
     v \<leftarrow> rom_at (b3f_rom c) 0x0800 bank (a AND 0x07FF);
     Some (v, c) }"

definition b3f_write :: "u16 \<Rightarrow> u8 \<Rightarrow> bank_3f \<Rightarrow> bank_3f option" where
  "b3f_write addr v c = Some c"

text \<open>\<open>val % count\<close>, which panics when \<open>count\<close> is zero.\<close>

definition mod_chk :: "u8 \<Rightarrow> u8 \<Rightarrow> u8 option" where
  "mod_chk v count = (if count = 0 then None else Some (v mod count))"

definition b3f_snoop_write :: "u16 \<Rightarrow> u8 \<Rightarrow> bank_3f \<Rightarrow> bank_3f option" where
  "b3f_snoop_write addr v c =
     (if addr AND 0x00FF = 0x003F then do { b \<leftarrow> mod_chk v (b3f_bank_count c); Some (c\<lparr>b3f_bank := b\<rparr>) }
      else Some c)"

definition b3f_board :: "bank_3f board_ops" where
  "b3f_board = (default_board b3f_read b3f_write BestEffort)\<lparr>bd_snoop_write := b3f_snoop_write\<rparr>"

definition b3f_ok :: "bank_3f \<Rightarrow> bool" where
  "b3f_ok c \<longleftrightarrow> b3f_bank_count c \<noteq> 0 \<and> b3f_bank c < b3f_bank_count c \<and>
     length (b3f_rom c) = unat (b3f_bank_count c) * 0x0800"

lemma mod_chk_total: "n \<noteq> 0 \<Longrightarrow> mod_chk v n = Some (v mod n) \<and> v mod n < n"
  by (simp add: mod_chk_def word_less_nat_alt unat_mod unat_gt_0)

lemma last_bank: "(n :: u8) \<noteq> 0 \<Longrightarrow> unat (n - 1) < unat n"
  by (simp add: unat_minus_one unat_gt_0)

lemma b3f_read_total:
  assumes "b3f_ok c"
  shows "b3f_read addr c = Some (b3f_rom c ! (
    unat (if addr AND 0x0FFF < 0x0800 then b3f_bank c else b3f_bank_count c - 1) * 0x0800 +
    unat ((addr AND 0x0FFF) AND 0x07FF)), c)"
  using assms last_bank [of "b3f_bank_count c"]
  by (auto simp: b3f_read_def b3f_ok_def Let_def word_less_nat_alt
      rom_at_ok [where n = "unat (b3f_bank_count c)"])

interpretation b3f: board b3f_board b3f_ok
  by unfold_locales (auto simp: b3f_board_def b3f_read_total b3f_write_def b3f_snoop_write_def
      mod_chk_total b3f_ok_def [of "_\<lparr>b3f_bank := _\<rparr>"] b3f_ok_def)

lemma b3f_new_ok:
  assumes "b3f_new rom = Some c" "length rom < 256 * 0x0800"
  shows "b3f_ok c"
proof -
  define k where "k = length rom div 0x0800"
  have new: "rom \<noteq> []" "length rom mod 0x0800 = 0"
    using assms(1) by (auto simp: b3f_new_def split: if_splits)
  then have "length rom = k * 0x0800" by (auto simp: k_def)
  then have k: "length rom = k * 0x0800" "k < 256" "0 < k"
    using assms(2) new(1) by (cases k; auto)+
  then have "unat (word_of_nat k :: u8) = k" by (simp add: unat_of_nat)
  then show ?thesis
    using assms(1) k by (auto simp: b3f_new_def b3f_ok_def word_less_nat_alt unat_eq_0 split: if_splits)
qed

subsection \<open>3E\<close>

record bank_3e =
  b3e_rom :: "u8 list"
  b3e_rom_bank_count :: u8
  b3e_ram :: "u8 list"
  b3e_ram_bank_count :: u8
  b3e_ram_bank :: "u8 option"
  b3e_rom_bank :: u8

definition b3e_new :: "u8 list \<Rightarrow> nat \<Rightarrow> bank_3e option" where
  "b3e_new rom ram_kib =
     (if rom = [] \<or> length rom mod 0x0800 \<noteq> 0 \<or> ram_kib = 0 then None
      else (let ram_bytes = ram_kib * 1024 in
        if ram_bytes mod 0x0400 \<noteq> 0 then None
        else Some \<lparr>b3e_rom = rom, b3e_rom_bank_count = word_of_nat (length rom div 0x0800),
               b3e_ram = replicate ram_bytes 0, b3e_ram_bank_count = word_of_nat (ram_bytes div 0x0400),
               b3e_ram_bank = None, b3e_rom_bank = 0\<rparr>))"

definition b3e_read :: "u16 \<Rightarrow> bank_3e \<Rightarrow> (u8 \<times> bank_3e) option" where
  "b3e_read addr c = do {
     let a = addr AND 0x0FFF;
     v \<leftarrow> (if a \<ge> 0x0800 then rom_at (b3e_rom c) 0x0800 (b3e_rom_bank_count c - 1) (a AND 0x07FF)
           else case b3e_ram_bank c of
             Some ram_bank \<Rightarrow> rom_at (b3e_ram c) 0x0400 ram_bank (a AND 0x03FF)
           | None \<Rightarrow> rom_at (b3e_rom c) 0x0800 (b3e_rom_bank c) a);
     Some (v, c) }"

definition b3e_write :: "u16 \<Rightarrow> u8 \<Rightarrow> bank_3e \<Rightarrow> bank_3e option" where
  "b3e_write addr v c = (let a = addr AND 0x0FFF in
     case b3e_ram_bank c of
       Some ram_bank \<Rightarrow>
         (if a < 0x0400 then do {
            m \<leftarrow> upd_chk (b3e_ram c) (unat ram_bank * 0x0400 + unat a) v;
            Some (c\<lparr>b3e_ram := m\<rparr>) }
          else Some c)
     | None \<Rightarrow> Some c)"

definition b3e_snoop_write :: "u16 \<Rightarrow> u8 \<Rightarrow> bank_3e \<Rightarrow> bank_3e option" where
  "b3e_snoop_write addr v c =
     (if addr AND 0x00FF = 0x003F then do {
        b \<leftarrow> mod_chk v (b3e_rom_bank_count c);
        Some (c\<lparr>b3e_rom_bank := b, b3e_ram_bank := None\<rparr>) }
      else if addr AND 0x00FF = 0x003E then do {
        b \<leftarrow> mod_chk v (b3e_ram_bank_count c);
        Some (c\<lparr>b3e_ram_bank := Some b\<rparr>) }
      else Some c)"

definition b3e_board :: "bank_3e board_ops" where
  "b3e_board = (default_board b3e_read b3e_write BestEffort)\<lparr>bd_snoop_write := b3e_snoop_write\<rparr>"

definition b3e_ok :: "bank_3e \<Rightarrow> bool" where
  "b3e_ok c \<longleftrightarrow> b3e_rom_bank_count c \<noteq> 0 \<and> b3e_ram_bank_count c \<noteq> 0 \<and>
     length (b3e_rom c) = unat (b3e_rom_bank_count c) * 0x0800 \<and>
     length (b3e_ram c) = unat (b3e_ram_bank_count c) * 0x0400 \<and>
     b3e_rom_bank c < b3e_rom_bank_count c \<and>
     (\<forall>b. b3e_ram_bank c = Some b \<longrightarrow> b < b3e_ram_bank_count c)"

lemma b3e_read_ok: "b3e_ok c \<Longrightarrow> wpo (b3e_read a c) (\<lambda>(v, c'). c' = c)"
  using last_bank [of "b3e_rom_bank_count c"]
  by (auto simp: b3e_read_def b3e_ok_def Let_def word_less_nat_alt word_le_nat_alt
      rom_at_ok [where n = "unat (b3e_rom_bank_count c)"] rom_at_ok [where n = "unat (b3e_ram_bank_count c)"]
      split: option.split)

interpretation b3e: board b3e_board b3e_ok
proof
  fix c a v
  assume c: "b3e_ok c"
  show "wpo (bd_read b3e_board a c) (\<lambda>(v, c'). b3e_ok c')"
    using c by (auto simp: b3e_board_def intro!: wpo_mono [OF b3e_read_ok])
  show "wpo (bd_write b3e_board a v c) b3e_ok"
    using c by (auto simp: b3e_board_def b3e_write_def b3e_ok_def Let_def word_less_nat_alt
        bank_offset_less split: option.split)
  show "wpo (bd_snoop_write b3e_board a v c) b3e_ok"
    using c by (auto simp: b3e_board_def b3e_snoop_write_def b3e_ok_def mod_chk_total)
qed (auto simp: b3e_board_def)


subsection \<open>Construction\<close>

lemma ram_boards_new_ok:
  "cv_new rom = Some cv \<Longrightarrow> cv_ok cv" "fa_new rom = Some fa \<Longrightarrow> fa_ok fa"
  "e7_new rom = Some e7 \<Longrightarrow> e7_ok e7" "f0_new rom = Some f0 \<Longrightarrow> f0_ok f0"
  "e0_new rom = Some e0 \<Longrightarrow> e0_ok e0"
  by (auto simp: cv_new_def cv_ok_def fa_new_def fa_ok_def e7_new_def e7_ok_def f0_new_def f0_ok_def
      e0_new_def e0_ok_def slice_chk_def split: if_splits)

lemma b3e_new_ok:
  assumes "b3e_new rom kib = Some c" "length rom < 256 * 0x0800" "kib < 256"
  shows "b3e_ok c"
proof -
  define k where "k = length rom div 0x0800"
  have new: "rom \<noteq> []" "length rom mod 0x0800 = 0" "kib \<noteq> 0"
    using assms(1) by (auto simp: b3e_new_def split: if_splits)
  then have "length rom = k * 0x0800" by (auto simp: k_def)
  then have k: "length rom = k * 0x0800" "k < 256" "0 < k"
    using assms(2) new(1) by (cases k; auto)+
  then have "unat (word_of_nat k :: u8) = k" "unat (word_of_nat kib :: u8) = kib"
    using assms(3) by (simp_all add: unat_of_nat)
  then show ?thesis
    using assms(1) k new by (auto simp: b3e_new_def b3e_ok_def word_less_nat_alt unat_eq_0 Let_def
        split: if_splits)
qed

subsection \<open>What a program sees\<close>

text \<open>
  a 512 KiB Tigervision image, the largest size the board is documented for, is accepted by
  the constructor but has 256 banks, which the byte-wide count stores as 0: the first bank
  select divides by zero.
\<close>

theorem bank3f_512k_select_panics:
  assumes "length rom = 512 * 1024"
  shows "\<exists>c. b3f_new rom = Some c \<and> (\<forall>v. b3f_snoop_write 0x3F v c = None)"
proof -
  have "rom \<noteq> []" using assms by auto
  then show ?thesis
    using assms by (simp add: b3f_new_def b3f_snoop_write_def mod_chk_def)
qed

lemma bank3f_512k_select_panics_witness:
  "\<exists>c. b3f_new (replicate 524288 0) = Some c \<and> b3f_snoop_write 0x3F 1 c = None"
  using bank3f_512k_select_panics [of "replicate 524288 0"] by auto

text \<open>
  on a 3E board, selecting RAM bank \<open>v\<close> maps it into the low window: a byte written through
  its write port reads back through the read port, in that bank and nowhere else.
\<close>

theorem bank3e_ram_roundtrip:
  assumes "b3e_ok c" "h AND 0x00FF = 0x003E" "a AND 0x0FFF = k" "k < 0x0400" "r AND 0x0FFF = 0x0400 + k"
  shows "do { c \<leftarrow> b3e_snoop_write h v c; c \<leftarrow> b3e_write a w c; b3e_read r c } =
    Some (w, c\<lparr>b3e_ram_bank := Some (v mod b3e_ram_bank_count c),
      b3e_ram := (b3e_ram c)[unat (v mod b3e_ram_bank_count c) * 0x0400 + unat k := w]\<rparr>)"
proof -
  let ?n = "b3e_ram_bank_count c" and ?b = "v mod b3e_ram_bank_count c"
  have b: "unat ?b < unat ?n" "mod_chk v ?n = Some ?b"
    using assms(1) mod_chk_total [of ?n v] by (auto simp: b3e_ok_def word_less_nat_alt)
  have k: "unat k < 0x0400" using assms(4) by (simp add: word_less_nat_alt)
  have i: "unat ?b * 0x0400 + unat k < length (b3e_ram c)"
    using assms(1) b(1) k by (simp add: b3e_ok_def bank_offset_less)
  have r: "unat (0x0400 + k) = 0x0400 + unat k" using k by (simp add: unat_word_ariths)
  then have "\<not> 0x0800 \<le> 0x0400 + k" "unat ((0x0400 + k) AND 0x03FF) = unat k"
    using k by (simp_all add: word_le_nat_alt mask_mod)
  then show ?thesis
    using assms(2-) b i by (simp add: b3e_snoop_write_def b3e_write_def b3e_read_def rom_at_def Let_def)
qed

lemma bank3e_ram_roundtrip_witness:
  "\<exists>c c'. b3e_new (replicate 2048 9) 2 = Some c \<and>
     do { c \<leftarrow> b3e_snoop_write 0x3E 1 c; c \<leftarrow> b3e_write 0x1005 7 c; b3e_read 0x1405 c } = Some (7, c')"
proof -
  let ?rom = "replicate 2048 9 :: u8 list"
  obtain c where c: "b3e_new ?rom 2 = Some c"
    by (simp add: b3e_new_def Let_def)
  then have "b3e_ok c" by (rule b3e_new_ok) simp_all
  from bank3e_ram_roundtrip [OF this, of "0x3E" "0x1005" 5 "0x1405" 1 7] c show ?thesis
    by auto
qed

lemma e0_hotspot_at:
  assumes "s < 3" "b < 8"
  shows "e0_hotspot (0x1FE0 + of_nat (8 * s + b)) c = c\<lparr>e0_segments := (e0_segments c)[s := of_nat b]\<rparr>"
proof -
  let ?h = "0x1FE0 + of_nat (8 * s + b) :: u16"
  have u: "unat ?h = 0x1FE0 + (8 * s + b)"
    using assms by (simp only: unat_word_ariths unat_of_nat) simp
  have low: "?h AND 0x1FFF = ?h" using u assms by (simp only: word_unat_eq_iff mask_mod) simp
  have "unat (?h AND 7) = unat ?h mod 8"
    by (rule mask_mod(7))
  also have "\<dots> = b"
  proof -
    have "0x1FE0 + (8 * s + b) = b + 8 * (0x3FC + s)" by simp
    then show ?thesis unfolding u using assms(2) by (simp only: mod_mult_self2 mod_less)
  qed
  finally have "unat (ucast (?h AND 7) :: u8) = b"
    using assms(2) by (simp add: unat_ucast_16_8)
  then have "(ucast (?h AND 7) :: u8) = of_nat b"
    using assms(2) by (simp add: word_unat_eq_iff unat_of_nat)
  moreover have "s = 0 \<or> s = 1 \<or> s = 2" using assms(1) by linarith
  ultimately show ?thesis
    using u assms(2) unfolding e0_hotspot_def Let_def low by (auto simp only: word_le_nat_alt) simp_all
qed

text \<open>
  the four 1 KiB segments of an E0 board are independent: touching hotspot \<open>8 * s + b\<close> of the
  table changes only what segment \<open>s\<close> reads, to bank \<open>b\<close>, and the last segment always reads the
  last bank.
\<close>

theorem e0_segment_reads:
  assumes "e0_ok c" "s < 3" "b < 8" "unat a < 0x1FE0" "in_window a"
  shows "do { c' \<leftarrow> e0_write (0x1FE0 + of_nat (8 * s + b)) v c; e0_read a c' } =
    (let segs = (e0_segments c)[s := of_nat b];
         seg = unat (a AND 0x0FFF) div 0x400;
         bank = (if seg = 3 then 7 else unat (segs ! seg))
     in Some (e0_rom c ! (bank * 0x400 + unat (a AND 0x03FF)), c\<lparr>e0_segments := segs\<rparr>))"
proof -
  let ?c = "c\<lparr>e0_segments := (e0_segments c)[s := of_nat b]\<rparr>" and ?a = "a AND 0x0FFF"
  note h = e0_hotspot_at [OF assms(2,3), of c]
  have ok: "e0_ok ?c" using e0_hotspot_ok [OF assms(1), of "0x1FE0 + of_nat (8 * s + b)"] h by simp
  have "e0_hotspot a ?c = ?c"
    using assms(4,5) by (simp add: e0_hotspot_def Let_def in_window_masks word_le_nat_alt)
  moreover have d: "unat (drop_bit 10 ?a) = unat ?a div 0x400"
    by (simp add: drop_bit_eq_div unat_div)
  have "drop_bit 10 ?a = of_nat (unat ?a div 0x400)"
    unfolding d [symmetric] by simp
  moreover have "unat ?a div 0x400 < 4"
    by (rule less_mult_imp_div_less) (use off_bounds(1) [of a] in simp)
  then have "unat ?a div 0x400 \<in> {0, 1, 2, 3}" by auto
  ultimately have "unat (e0_bank_for ?a ?c) =
      (if unat ?a div 0x400 = 3 then 7 else unat (e0_segments ?c ! (unat ?a div 0x400)))"
    by (auto simp: e0_bank_for_def Let_def)
  moreover have "?a AND 0x03FF = a AND 0x03FF" by (simp add: and.assoc)
  ultimately show ?thesis
    using ok e0_bank_for_bound [OF ok, of ?a] \<open>e0_hotspot a ?c = ?c\<close>
    unfolding e0_write_def h bind.bind_lunit
    by (simp add: e0_read_def Let_def e0_ok_def [of ?c] rom_at_ok [where n = 8])
qed

definition demo_e0 :: bank_e0 where
  "demo_e0 = \<lparr>e0_rom = concat (map (replicate 0x400) [0, 1, 2, 3, 4, 5, 6, 7]), e0_segments = [4, 5, 6]\<rparr>"

lemma e0_segment_reads_witness:
  "\<exists>v. do { c' \<leftarrow> e0_write 0x1FEA 0 demo_e0; e0_read 0x1423 c' } =
     Some (v, demo_e0\<lparr>e0_segments := [4, 2, 6]\<rparr>)"
proof -
  have "e0_ok demo_e0" by (simp add: demo_e0_def e0_ok_def)
  from e0_segment_reads [OF this, of 1 2 "0x1423" 0] show ?thesis
    by (simp add: Let_def in_window_def demo_e0_def)
qed

end
