(* ===== verification/Boards_Snoop.thy ===== *)
theory Boards_Snoop
  imports Board
begin

text \<open>
  The boards of \<open>crates/rusty2600-cart/src/lib.rs\<close> that switch banks on accesses outside their own
  window: UA, 0840, FE, SB and X07. UA, 0840 and X07 keep an image and a bank (\<open>snooped\<close>); SB
  adds the mask of its size and FE the flag of its stack-frame trigger. The locale
  \<open>snooping_board\<close> states what the three plain ones share.
\<close>

record snooped =
  sn_rom :: "u8 list"
  sn_bank :: u8

definition ua_new :: "u8 list \<Rightarrow> snooped option" where
  "ua_new rom = (if length rom = 0x2000 then Some \<lparr>sn_rom = rom, sn_bank = 0\<rparr> else None)"

definition ua_hotspot :: "u16 \<Rightarrow> snooped \<Rightarrow> snooped" where
  "ua_hotspot addr c = (let a = addr AND 0x1260 in
     if a = 0x0220 then c\<lparr>sn_bank := 0\<rparr> else if a = 0x0240 then c\<lparr>sn_bank := 1\<rparr> else c)"

definition b0840_new :: "u8 list \<Rightarrow> snooped option" where
  "b0840_new rom = (if length rom = 0x2000 then Some \<lparr>sn_rom = rom, sn_bank = 0\<rparr> else None)"

definition b0840_hotspot :: "u16 \<Rightarrow> snooped \<Rightarrow> snooped" where
  "b0840_hotspot addr c = (let a = addr AND 0x1840 in
     if a = 0x0800 then c\<lparr>sn_bank := 0\<rparr> else if a = 0x0840 then c\<lparr>sn_bank := 1\<rparr> else c)"

definition x07_new :: "u8 list \<Rightarrow> snooped option" where
  "x07_new rom = (if length rom \<noteq> 0x10000 then None else Some \<lparr>sn_rom = rom, sn_bank = 0\<rparr>)"

definition x07_hotspot :: "u16 \<Rightarrow> snooped \<Rightarrow> snooped" where
  "x07_hotspot addr c =
     (if addr AND 0x180F = 0x080D then c\<lparr>sn_bank := ucast (drop_bit 4 (addr AND 0x00F0))\<rparr>
      else if addr AND 0x1880 = 0 \<and> sn_bank c AND 0x0E = 0x0E
      then c\<lparr>sn_bank := ucast (drop_bit 6 (addr AND 0x0040)) OR 0x0E\<rparr>
      else c)"

text \<open>The reads and writes the five boards share; their writes do nothing.\<close>

definition snooped_read :: "u16 \<Rightarrow> snooped \<Rightarrow> (u8 \<times> snooped) option" where
  "snooped_read addr c = do {
     v \<leftarrow> rom_at (sn_rom c) 0x1000 (sn_bank c) (addr AND 0x0FFF);
     Some (v, c) }"

definition snooped_write :: "u16 \<Rightarrow> u8 \<Rightarrow> snooped \<Rightarrow> snooped option" where
  "snooped_write addr v c = Some c"

definition snooped_ops :: "(u16 \<Rightarrow> snooped \<Rightarrow> snooped) \<Rightarrow> snooped board_ops" where
  "snooped_ops hotspot = (default_board snooped_read snooped_write BestEffort)\<lparr>
     bd_snoop_read := (\<lambda>addr v c. Some (hotspot addr c)),
     bd_snoop_write := (\<lambda>addr v c. Some (hotspot addr c))\<rparr>"

definition bank_ua :: "snooped board_ops" where "bank_ua = snooped_ops ua_hotspot"
definition bank_0840 :: "snooped board_ops" where "bank_0840 = snooped_ops b0840_hotspot"
definition bank_x07 :: "snooped board_ops" where "bank_x07 = snooped_ops x07_hotspot"

definition snooped_ok :: "nat \<Rightarrow> snooped \<Rightarrow> bool" where
  "snooped_ok n c \<longleftrightarrow> length (sn_rom c) = n * 0x1000 \<and> unat (sn_bank c) < n"

locale snooping_board =
  fixes hotspot :: "u16 \<Rightarrow> snooped \<Rightarrow> snooped"
    and n :: nat
  assumes keeps_rom: "sn_rom (hotspot a c) = sn_rom c"
    and keeps_bound: "unat (sn_bank c) < n \<Longrightarrow> unat (sn_bank (hotspot a c)) < n"
begin

lemma read_total: "snooped_ok n c \<Longrightarrow>
    snooped_read a c = Some (sn_rom c ! (unat (sn_bank c) * 0x1000 + unat (a AND 0x0FFF)), c)"
  by (simp add: snooped_read_def snooped_ok_def rom_at_ok)

lemma board_ok: "board (snooped_ops hotspot) (snooped_ok n)"
  by unfold_locales
    (auto simp: snooped_ops_def read_total snooped_write_def snooped_ok_def keeps_rom keeps_bound)

end

interpretation ua: snooping_board ua_hotspot 2
  by unfold_locales (auto simp: ua_hotspot_def Let_def)

interpretation b0840: snooping_board b0840_hotspot 2
  by unfold_locales (auto simp: b0840_hotspot_def Let_def)

lemma x07_banks: "unat (ucast (drop_bit 4 (a AND 0x00F0 :: u16)) :: u8) < 16"
  "unat (ucast (drop_bit 6 (a AND 0x0040 :: u16)) OR 0x0E :: u8) < 16"
proof -
  have m: "(0x00F0 :: u16) = push_bit 4 (mask 4)" "(0x0040 :: u16) = push_bit 6 (mask 1)"
    "(0x0E :: u8) = push_bit 1 (mask 3)"
    by (simp_all add: mask_eq_exp_minus_1)
  show "unat (ucast (drop_bit 4 (a AND 0x00F0)) :: u8) < 16"
    unfolding m
    by (rule unat_bits_less [where n = 4, simplified]) (simp only: bit_simps o_apply, linarith)
  show "unat (ucast (drop_bit 6 (a AND 0x0040)) OR 0x0E :: u8) < 16"
    unfolding m
    by (rule unat_bits_less [where n = 4, simplified]) (simp only: bit_simps o_apply, linarith)
qed

interpretation x07: snooping_board x07_hotspot 16
  by unfold_locales (auto simp: x07_hotspot_def x07_banks [simplified])

interpretation bank_ua: board bank_ua "snooped_ok 2"
  unfolding bank_ua_def by (rule ua.board_ok)

interpretation bank_0840: board bank_0840 "snooped_ok 2"
  unfolding bank_0840_def by (rule b0840.board_ok)

interpretation bank_x07: board bank_x07 "snooped_ok 16"
  unfolding bank_x07_def by (rule x07.board_ok)

subsection \<open>FE\<close>

record bank_fe =
  fe_rom :: "u8 list"
  fe_bank :: u8
  fe_last_access_was_01fe :: bool

definition fe_new :: "u8 list \<Rightarrow> bank_fe option" where
  "fe_new rom = (if length rom = 0x2000
     then Some \<lparr>fe_rom = rom, fe_bank = 0, fe_last_access_was_01fe = False\<rparr> else None)"

definition fe_check_switch :: "u16 \<Rightarrow> u8 \<Rightarrow> bank_fe \<Rightarrow> bank_fe" where
  "fe_check_switch addr v c =
     (if fe_last_access_was_01fe c
      then c\<lparr>fe_bank := (drop_bit 5 v XOR 7) AND 0x01, fe_last_access_was_01fe := False\<rparr>
      else c\<lparr>fe_last_access_was_01fe := addr = 0x01FE\<rparr>)"

definition fe_read :: "u16 \<Rightarrow> bank_fe \<Rightarrow> (u8 \<times> bank_fe) option" where
  "fe_read addr c = do {
     v \<leftarrow> rom_at (fe_rom c) 0x1000 (fe_bank c) (addr AND 0x0FFF);
     Some (v, fe_check_switch addr v c) }"

definition fe_write :: "u16 \<Rightarrow> u8 \<Rightarrow> bank_fe \<Rightarrow> bank_fe option" where
  "fe_write addr v c = Some (fe_check_switch addr v c)"

definition fe_snoop :: "u16 \<Rightarrow> u8 \<Rightarrow> bank_fe \<Rightarrow> bank_fe option" where
  "fe_snoop addr v c = Some (fe_check_switch addr v c)"

definition fe_board :: "bank_fe board_ops" where
  "fe_board = (default_board fe_read fe_write BestEffort)\<lparr>
     bd_snoop_read := fe_snoop, bd_snoop_write := fe_snoop\<rparr>"

definition fe_ok :: "bank_fe \<Rightarrow> bool" where
  "fe_ok c \<longleftrightarrow> length (fe_rom c) = 2 * 0x1000 \<and> unat (fe_bank c) < 2"

lemma fe_check_switch_ok: "fe_ok c \<Longrightarrow> fe_ok (fe_check_switch a v c)"
  using unat_and_less [of 1 2 "drop_bit 5 v XOR 7"] by (simp add: fe_ok_def fe_check_switch_def)

lemma fe_read_ok: "fe_ok c \<Longrightarrow> wpo (fe_read a c) (\<lambda>(v, c'). fe_ok c')"
proof -
  assume c: "fe_ok c"
  then have "rom_at (fe_rom c) 0x1000 (fe_bank c) (a AND 0x0FFF) =
      Some (fe_rom c ! (unat (fe_bank c) * 0x1000 + unat (a AND 0x0FFF)))"
    by (simp add: fe_ok_def rom_at_ok [where n = 2])
  then show ?thesis by (simp add: fe_read_def fe_check_switch_ok c)
qed

interpretation fe: board fe_board fe_ok
  by unfold_locales
    (simp_all add: fe_board_def fe_read_ok fe_write_def fe_snoop_def fe_check_switch_ok)

subsection \<open>SB\<close>

record bank_sb =
  sb_rom :: "u8 list"
  sb_bank :: u8
  sb_bank_mask :: u8

definition sb_new :: "u8 list \<Rightarrow> bank_sb option" where
  "sb_new rom = do {
     bank_count \<leftarrow> (if length rom = 0x20000 then Some (32 :: u16)
                    else if length rom = 0x40000 then Some 64 else None);
     Some \<lparr>sb_rom = rom, sb_bank = 0, sb_bank_mask = ucast (bank_count - 1)\<rparr> }"

definition sb_hotspot :: "u16 \<Rightarrow> bank_sb \<Rightarrow> bank_sb" where
  "sb_hotspot addr c =
     (if addr AND 0x1800 = 0x0800 then c\<lparr>sb_bank := ucast addr AND sb_bank_mask c\<rparr> else c)"

definition sb_read :: "u16 \<Rightarrow> bank_sb \<Rightarrow> (u8 \<times> bank_sb) option" where
  "sb_read addr c = do {
     v \<leftarrow> rom_at (sb_rom c) 0x1000 (sb_bank c) (addr AND 0x0FFF);
     Some (v, c) }"

definition sb_write :: "u16 \<Rightarrow> u8 \<Rightarrow> bank_sb \<Rightarrow> bank_sb option" where
  "sb_write addr v c = Some c"

definition sb_snoop :: "u16 \<Rightarrow> u8 \<Rightarrow> bank_sb \<Rightarrow> bank_sb option" where
  "sb_snoop addr v c = Some (sb_hotspot addr c)"

definition sb_board :: "bank_sb board_ops" where
  "sb_board = (default_board sb_read sb_write BestEffort)\<lparr>
     bd_snoop_read := sb_snoop, bd_snoop_write := sb_snoop\<rparr>"

definition sb_ok :: "bank_sb \<Rightarrow> bool" where
  "sb_ok c \<longleftrightarrow> length (sb_rom c) = (unat (sb_bank_mask c) + 1) * 0x1000 \<and>
     unat (sb_bank c) < unat (sb_bank_mask c) + 1"

lemma sb_hotspot_ok: "sb_ok c \<Longrightarrow> sb_ok (sb_hotspot a c)"
  using unat_and_le [of "ucast a :: u8" "sb_bank_mask c"] by (auto simp: sb_ok_def sb_hotspot_def)

lemma sb_read_total: "sb_ok c \<Longrightarrow>
    sb_read a c = Some (sb_rom c ! (unat (sb_bank c) * 0x1000 + unat (a AND 0x0FFF)), c)"
  by (simp add: sb_read_def sb_ok_def rom_at_ok [where n = "Suc (unat (sb_bank_mask c))"])

interpretation sb: board sb_board sb_ok
  by unfold_locales
    (simp_all add: sb_board_def sb_read_total sb_write_def sb_snoop_def sb_hotspot_ok)

subsection \<open>Construction\<close>

lemma snoop_boards_new_ok:
  "ua_new rom = Some c \<Longrightarrow> snooped_ok 2 c" "b0840_new rom = Some c \<Longrightarrow> snooped_ok 2 c"
  "x07_new rom = Some c \<Longrightarrow> snooped_ok 16 c" "fe_new rom = Some fe \<Longrightarrow> fe_ok fe"
  "sb_new rom = Some sb \<Longrightarrow> sb_ok sb"
  by (auto simp: ua_new_def b0840_new_def x07_new_def snooped_ok_def fe_new_def fe_ok_def sb_new_def
      sb_ok_def split: if_splits)

end
