(* ===== verification/Board_4A50.thy ===== *)
theory Board_4A50
  imports Board
begin

text \<open>
  The 4A50 board of \<open>crates/rusty2600-cart/src/lib.rs\<close>: three segments that map ROM or RAM slices,
  switched by a state machine over the previous access. The invariant bounds the slice registers
  tightly enough that no read or write of the 128 KiB image or the 32 KiB RAM is out of range.
\<close>

record bank_4a50 =
  x_rom :: "u8 list"
  x_ram :: "u8 list"
  x_slice_low :: u16
  x_slice_middle :: u16
  x_slice_high :: u16
  x_is_rom_low :: bool
  x_is_rom_middle :: bool
  x_is_rom_high :: bool
  x_last_data :: u8
  x_last_address :: u16

definition x_new :: "u8 list \<Rightarrow> bank_4a50 option" where
  "x_new rom = (let sz = length rom in
     if sz \<noteq> 0x8000 \<and> sz \<noteq> 0x10000 \<and> sz \<noteq> 0x20000 then None
     else Some \<lparr>x_rom = concat (replicate (0x20000 div sz) rom), x_ram = replicate 0x8000 0,
            x_slice_low = 0, x_slice_middle = 0, x_slice_high = 0, x_is_rom_low = True,
            x_is_rom_middle = True, x_is_rom_high = True, x_last_data = 0xFF,
            x_last_address = 0xFFFF\<rparr>)"

definition hotspots_active :: "bank_4a50 \<Rightarrow> bool" where
  "hotspots_active c \<longleftrightarrow> x_last_data c AND 0xE0 = 0x60 \<and>
     (x_last_address c \<ge> 0x1000 \<or> x_last_address c < 0x200)"

definition bank_rom_lower :: "u16 \<Rightarrow> bank_4a50 \<Rightarrow> bank_4a50" where
  "bank_rom_lower v c = c\<lparr>x_is_rom_low := True, x_slice_low := push_bit 11 v\<rparr>"
definition bank_ram_lower :: "u16 \<Rightarrow> bank_4a50 \<Rightarrow> bank_4a50" where
  "bank_ram_lower v c = c\<lparr>x_is_rom_low := False, x_slice_low := push_bit 11 v\<rparr>"
definition bank_rom_middle :: "u16 \<Rightarrow> bank_4a50 \<Rightarrow> bank_4a50" where
  "bank_rom_middle v c = c\<lparr>x_is_rom_middle := True, x_slice_middle := push_bit 11 v\<rparr>"
definition bank_ram_middle :: "u16 \<Rightarrow> bank_4a50 \<Rightarrow> bank_4a50" where
  "bank_ram_middle v c = c\<lparr>x_is_rom_middle := False, x_slice_middle := push_bit 11 v\<rparr>"
definition bank_rom_high :: "u16 \<Rightarrow> bank_4a50 \<Rightarrow> bank_4a50" where
  "bank_rom_high v c = c\<lparr>x_is_rom_high := True, x_slice_high := push_bit 8 v\<rparr>"
definition bank_ram_high :: "u16 \<Rightarrow> bank_4a50 \<Rightarrow> bank_4a50" where
  "bank_ram_high v c = c\<lparr>x_is_rom_high := False, x_slice_high := push_bit 8 v\<rparr>"

definition main_hotspots :: "u16 \<Rightarrow> bank_4a50 \<Rightarrow> bank_4a50" where
  "main_hotspots a c =
     (if a AND 0x0F00 = 0x0C00 then bank_rom_high (a AND 0xFF) c
      else if a AND 0x0F00 = 0x0D00 then bank_ram_high (a AND 0x7F) c
      else if a AND 0x0F40 = 0x0E00 then bank_rom_lower (a AND 0x1F) c
      else if a AND 0x0F40 = 0x0E40 then bank_ram_lower (a AND 0x0F) c
      else if a AND 0x0F40 = 0x0F00 then bank_rom_middle (a AND 0x1F) c
      else if a AND 0x0F50 = 0x0F40 then bank_ram_middle (a AND 0x0F) c
      else if a AND 0x0F00 = 0x0400 then c\<lparr>x_slice_low := x_slice_low c XOR 0x800\<rparr>
      else if a AND 0x0F00 = 0x0500 then c\<lparr>x_slice_low := x_slice_low c XOR 0x1000\<rparr>
      else if a AND 0x0F00 = 0x0800 then c\<lparr>x_slice_middle := x_slice_middle c XOR 0x800\<rparr>
      else if a AND 0x0F00 = 0x0900 then c\<lparr>x_slice_middle := x_slice_middle c XOR 0x1000\<rparr>
      else c)"

definition zero_page_hotspots :: "u16 \<Rightarrow> u8 \<Rightarrow> bank_4a50 \<Rightarrow> bank_4a50" where
  "zero_page_hotspots a v c = (let v16 = ucast v :: u16 in
     if a AND 0xF75 = 0x74 then bank_rom_high v16 c
     else if a AND 0xF75 = 0x75 then bank_ram_high (v16 AND 0x7F) c
     else if a AND 0xF7C = 0x78 then
       (if v16 AND 0xF0 = 0 then bank_rom_lower (v16 AND 0x0F) c
        else if v16 AND 0xF0 = 0x40 then bank_ram_lower (v16 AND 0x0F) c
        else if v16 AND 0xF0 = 0x90 then bank_rom_middle ((v16 AND 0x0F) OR 0x10) c
        else if v16 AND 0xF0 = 0xC0 then bank_ram_middle (v16 AND 0x0F) c
        else c)
     else c)"

definition check_bank_switch :: "u16 \<Rightarrow> u8 \<Rightarrow> bank_4a50 \<Rightarrow> bank_4a50" where
  "check_bank_switch a v c =
     zero_page_hotspots a v (if hotspots_active c then main_hotspots a c else c)"

definition record_access :: "u16 \<Rightarrow> u8 \<Rightarrow> bank_4a50 \<Rightarrow> bank_4a50" where
  "record_access a v c = c\<lparr>x_last_data := v, x_last_address := a AND 0x1FFF\<rparr>"

definition toggle_high :: "u16 \<Rightarrow> bank_4a50 \<Rightarrow> bank_4a50" where
  "toggle_high a c = c\<lparr>x_slice_high :=
     (x_slice_high c AND 0xF0FF) OR push_bit 8 (a AND 0x8) OR push_bit 4 (a AND 0x70)\<rparr>"

definition x_read :: "u16 \<Rightarrow> bank_4a50 \<Rightarrow> (u8 \<times> bank_4a50) option" where
  "x_read addr c = do {
     let a = addr AND 0x1FFF;
     (v, c) \<leftarrow>
       (if a AND 0x1800 = 0x1000 then do {
          v \<leftarrow> (if x_is_rom_low c then nth_chk (x_rom c) (unat (a AND 0x7FF) + unat (x_slice_low c))
                else nth_chk (x_ram c) (unat (a AND 0x7FF) + unat (x_slice_low c)));
          Some (v, c) }
        else if 0x1800 \<le> a \<and> a \<le> 0x1DFF then do {
          v \<leftarrow> (if x_is_rom_middle c
                then nth_chk (x_rom c) (unat (a AND 0x7FF) + unat (x_slice_middle c) + 0x10000)
                else nth_chk (x_ram c) (unat (a AND 0x7FF) + unat (x_slice_middle c)));
          Some (v, c) }
        else if a AND 0x1F00 = 0x1E00 then do {
          v \<leftarrow> (if x_is_rom_high c
                then nth_chk (x_rom c) (unat (a AND 0xFF) + unat (x_slice_high c) + 0x10000)
                else nth_chk (x_ram c) (unat (a AND 0xFF) + unat (x_slice_high c)));
          Some (v, c) }
        else do {
          v \<leftarrow> nth_chk (x_rom c) (unat (a AND 0xFF) + 0x1FF00);
          Some (v, if hotspots_active c then toggle_high a c else c) });
     Some (v, record_access a v c) }"

definition x_write :: "u16 \<Rightarrow> u8 \<Rightarrow> bank_4a50 \<Rightarrow> bank_4a50 option" where
  "x_write addr v c = do {
     let a = addr AND 0x1FFF;
     c \<leftarrow>
       (if a AND 0x1800 = 0x1000 then
          (if \<not> x_is_rom_low c then do {
             m \<leftarrow> upd_chk (x_ram c) (unat (a AND 0x7FF) + unat (x_slice_low c)) v;
             Some (c\<lparr>x_ram := m\<rparr>) } else Some c)
        else if 0x1800 \<le> a \<and> a \<le> 0x1DFF then
          (if \<not> x_is_rom_middle c then do {
             m \<leftarrow> upd_chk (x_ram c) (unat (a AND 0x7FF) + unat (x_slice_middle c)) v;
             Some (c\<lparr>x_ram := m\<rparr>) } else Some c)
        else if a AND 0x1F00 = 0x1E00 then
          (if \<not> x_is_rom_high c then do {
             m \<leftarrow> upd_chk (x_ram c) (unat (a AND 0xFF) + unat (x_slice_high c)) v;
             Some (c\<lparr>x_ram := m\<rparr>) } else Some c)
        else if hotspots_active c then Some (toggle_high a c)
        else Some c);
     Some (record_access a v c) }"

definition x_snoop :: "u16 \<Rightarrow> u8 \<Rightarrow> bank_4a50 \<Rightarrow> bank_4a50 option" where
  "x_snoop addr v c = Some (record_access addr v (check_bank_switch addr v c))"

definition x_board :: "bank_4a50 board_ops" where
  "x_board = (default_board x_read x_write BestEffort)\<lparr>bd_snoop_read := x_snoop, bd_snoop_write := x_snoop\<rparr>"

subsection \<open>The slices stay in range\<close>

text \<open>
  A slice register is a multiple of its granule (2 KiB for the two large segments, 256 bytes for
  the high one), and below 32 KiB when it maps RAM.
\<close>

definition slice_ok :: "nat \<Rightarrow> bool \<Rightarrow> u16 \<Rightarrow> bool" where
  "slice_ok k is_rom s \<longleftrightarrow> (\<forall>i. bit s i \<longrightarrow> k \<le> i) \<and> (is_rom \<or> \<not> bit s 15)"

definition x_ok :: "bank_4a50 \<Rightarrow> bool" where
  "x_ok c \<longleftrightarrow> length (x_rom c) = 0x20000 \<and> length (x_ram c) = 0x8000 \<and>
     slice_ok 11 (x_is_rom_low c) (x_slice_low c) \<and>
     slice_ok 11 (x_is_rom_middle c) (x_slice_middle c) \<and>
     slice_ok 8 (x_is_rom_high c) (x_slice_high c)"

text \<open>The offset within a granule does not carry into the slice.\<close>

lemma slice_offset:
  assumes "slice_ok k r s" "\<And>i. bit (w :: u16) i \<Longrightarrow> i < k" "k \<le> 15"
  shows "unat w + unat s < 0x10000" and "\<not> r \<Longrightarrow> unat w + unat s < 0x8000"
proof -
  have "w AND s = 0"
    by (rule bit_word_eqI) (use assms(1,2) in \<open>fastforce simp: slice_ok_def bit_and_iff\<close>)
  then have sum: "unat w + unat s = unat (w OR s)" by (rule unat_add_disjoint)
  then show "unat w + unat s < 0x10000" using word16_bound [of "w OR s"] by simp
  assume "\<not> r"
  then have "\<not> bit s 15" using assms(1) by (simp add: slice_ok_def)
  then have "i < 15" if "bit (w OR s) i" for i
    using that assms(2) [of i] assms(3) bit_imp_le_length [of s i] by (cases "i = 15") (auto simp: bit_or_iff)
  then have "unat (w OR s) < 2 ^ 15" by (rule unat_bits_less)
  then show "unat w + unat s < 0x8000" using sum by simp
qed

lemma low_mask_bits: "bit (a AND 0x7FF :: u16) i \<Longrightarrow> i < 11" "bit (a AND 0xFF :: u16) i \<Longrightarrow> i < 8"
proof -
  have m: "(0x7FF :: u16) = mask 11" "(0xFF :: u16) = mask 8" by (simp_all add: mask_eq_exp_minus_1)
  show "bit (a AND 0x7FF) i \<Longrightarrow> i < 11" "bit (a AND 0xFF) i \<Longrightarrow> i < 8"
    unfolding m by (simp_all only: bit_and_iff bit_mask_iff)
qed

lemma slice_low_offset:
  fixes a :: u16
  assumes "slice_ok 11 r s"
  shows "unat (a AND 0x7FF) + unat s < 0x10000" "\<not> r \<Longrightarrow> unat (a AND 0x7FF) + unat s < 0x8000"
  using slice_offset [OF assms, of "a AND 0x7FF"] low_mask_bits(1) [of a] by auto

lemma slice_high_offset:
  fixes a :: u16
  assumes "slice_ok 8 r s"
  shows "unat (a AND 0xFF) + unat s < 0x10000" "\<not> r \<Longrightarrow> unat (a AND 0xFF) + unat s < 0x8000"
  using slice_offset [OF assms, of "a AND 0xFF"] low_mask_bits(2) [of a] by auto

lemma slice_ok_push: "r \<or> \<not> bit v (15 - k) \<Longrightarrow> k \<le> 15 \<Longrightarrow> slice_ok k r (push_bit k v)"
  by (auto simp: slice_ok_def bit_push_bit_iff)

lemma narrow_bits [simp]: "\<not> bit (v AND 0x0F :: u16) 4" "\<not> bit (v AND 0x7F :: u16) 7"
proof -
  have m: "(0x0F :: u16) = mask 4" "(0x7F :: u16) = mask 7" by (simp_all add: mask_eq_exp_minus_1)
  show "\<not> bit (v AND 0x0F) 4" "\<not> bit (v AND 0x7F) 7"
    unfolding m by (simp_all only: bit_and_iff bit_mask_iff) simp_all
qed

lemma slice_ok_xor:
  assumes "slice_ok 11 r s"
  shows "slice_ok 11 r (s XOR 0x800)" "slice_ok 11 r (s XOR 0x1000)"
proof -
  have m: "(0x800 :: u16) = 2 ^ 11" "(0x1000 :: u16) = 2 ^ 12" by simp_all
  show "slice_ok 11 r (s XOR 0x800)" "slice_ok 11 r (s XOR 0x1000)"
    unfolding m using assms by (auto simp only: slice_ok_def bit_xor_iff bit_exp_iff)
qed

lemma slice_ok_toggle:
  assumes "slice_ok 8 r s"
  shows "slice_ok 8 r ((s AND 0xF0FF) OR push_bit 8 (a AND 0x8) OR push_bit 4 (a AND 0x70))"
proof -
  have m: "(0x8 :: u16) = push_bit 3 (mask 1)" "(0x70 :: u16) = push_bit 4 (mask 3)"
    by (simp_all add: mask_eq_exp_minus_1)
  show ?thesis
    unfolding m using assms
    by (auto simp only: slice_ok_def bit_or_iff bit_and_iff bit_push_bit_iff bit_mask_iff)
qed

lemma bank_rom_ok:
  "x_ok c \<Longrightarrow> x_ok (bank_rom_lower v c)" "x_ok c \<Longrightarrow> x_ok (bank_rom_middle v c)"
  "x_ok c \<Longrightarrow> x_ok (bank_rom_high v c)"
  by (simp_all add: x_ok_def bank_rom_lower_def bank_rom_middle_def bank_rom_high_def slice_ok_push)

lemma bank_ram_ok:
  "x_ok c \<Longrightarrow> \<not> bit v 4 \<Longrightarrow> x_ok (bank_ram_lower v c)"
  "x_ok c \<Longrightarrow> \<not> bit v 4 \<Longrightarrow> x_ok (bank_ram_middle v c)"
  "x_ok c \<Longrightarrow> \<not> bit v 7 \<Longrightarrow> x_ok (bank_ram_high v c)"
  by (simp_all add: x_ok_def bank_ram_lower_def bank_ram_middle_def bank_ram_high_def slice_ok_push)

lemma slice_xor_ok:
  "x_ok c \<Longrightarrow> x_ok (c\<lparr>x_slice_low := x_slice_low c XOR 0x800\<rparr>)"
  "x_ok c \<Longrightarrow> x_ok (c\<lparr>x_slice_low := x_slice_low c XOR 0x1000\<rparr>)"
  "x_ok c \<Longrightarrow> x_ok (c\<lparr>x_slice_middle := x_slice_middle c XOR 0x800\<rparr>)"
  "x_ok c \<Longrightarrow> x_ok (c\<lparr>x_slice_middle := x_slice_middle c XOR 0x1000\<rparr>)"
  by (simp_all add: x_ok_def slice_ok_xor)

lemma main_hotspots_ok: "x_ok c \<Longrightarrow> x_ok (main_hotspots a c)"
  by (simp add: main_hotspots_def bank_rom_ok bank_ram_ok slice_xor_ok)

lemma zero_page_hotspots_ok: "x_ok c \<Longrightarrow> x_ok (zero_page_hotspots a v c)"
  by (simp add: zero_page_hotspots_def Let_def bank_rom_ok bank_ram_ok)

lemma check_bank_switch_ok: "x_ok c \<Longrightarrow> x_ok (check_bank_switch a v c)"
  by (simp add: check_bank_switch_def main_hotspots_ok zero_page_hotspots_ok)

lemma record_access_ok [simp]: "x_ok (record_access a v c) = x_ok c"
  by (simp add: record_access_def x_ok_def)

lemma toggle_high_ok: "x_ok c \<Longrightarrow> x_ok (toggle_high a c)"
  by (simp add: x_ok_def toggle_high_def slice_ok_toggle [simplified])

text \<open>Every address the code forms is in range.\<close>

lemma x_offsets:
  fixes a :: u16
  assumes "x_ok c"
  shows "unat (a AND 0x7FF) + unat (x_slice_low c) < 0x20000"
    and "\<not> x_is_rom_low c \<Longrightarrow> unat (a AND 0x7FF) + unat (x_slice_low c) < 0x8000"
    and "unat (a AND 0x7FF) + unat (x_slice_middle c) + 0x10000 < 0x20000"
    and "\<not> x_is_rom_middle c \<Longrightarrow> unat (a AND 0x7FF) + unat (x_slice_middle c) < 0x8000"
    and "unat (a AND 0xFF) + unat (x_slice_high c) + 0x10000 < 0x20000"
    and "\<not> x_is_rom_high c \<Longrightarrow> unat (a AND 0xFF) + unat (x_slice_high c) < 0x8000"
    and "unat (a AND 0xFF) + 0x1FF00 < 0x20000"
proof -
  have s: "slice_ok 11 (x_is_rom_low c) (x_slice_low c)"
    "slice_ok 11 (x_is_rom_middle c) (x_slice_middle c)"
    "slice_ok 8 (x_is_rom_high c) (x_slice_high c)"
    using assms by (simp_all add: x_ok_def)
  show "unat (a AND 0x7FF) + unat (x_slice_low c) < 0x20000"
    using slice_low_offset(1) [OF s(1), of a] by simp
  show "\<not> x_is_rom_low c \<Longrightarrow> unat (a AND 0x7FF) + unat (x_slice_low c) < 0x8000"
    using slice_low_offset(2) [OF s(1), of a] by simp
  show "unat (a AND 0x7FF) + unat (x_slice_middle c) + 0x10000 < 0x20000"
    using slice_low_offset(1) [OF s(2), of a] by simp
  show "\<not> x_is_rom_middle c \<Longrightarrow> unat (a AND 0x7FF) + unat (x_slice_middle c) < 0x8000"
    using slice_low_offset(2) [OF s(2), of a] by simp
  show "unat (a AND 0xFF) + unat (x_slice_high c) + 0x10000 < 0x20000"
    using slice_high_offset(1) [OF s(3), of a] by simp
  show "\<not> x_is_rom_high c \<Longrightarrow> unat (a AND 0xFF) + unat (x_slice_high c) < 0x8000"
    using slice_high_offset(2) [OF s(3), of a] by simp
  show "unat (a AND 0xFF) + 0x1FF00 < 0x20000"
    using off_bounds(4) [of a] by simp
qed

lemma x_read_ok: "x_ok c \<Longrightarrow> wpo (x_read addr c) (\<lambda>(v, c'). x_ok c')"
proof -
  assume c: "x_ok c"
  then have l: "length (x_rom c) = 0x20000" "length (x_ram c) = 0x8000" by (simp_all add: x_ok_def)
  show ?thesis
    using x_offsets [OF c, of "addr AND 0x1FFF"] c
    by (simp add: x_read_def Let_def l toggle_high_ok)
qed

lemma x_write_ok: "x_ok c \<Longrightarrow> wpo (x_write addr v c) x_ok"
proof -
  assume c: "x_ok c"
  then have l: "length (x_ram c) = 0x8000" by (simp_all add: x_ok_def)
  have upd: "x_ok (c\<lparr>x_ram := (x_ram c)[i := v]\<rparr>)" for i
    using c by (simp add: x_ok_def)
  show ?thesis
    using x_offsets [OF c, of "addr AND 0x1FFF"] c
    by (simp add: x_write_def Let_def l toggle_high_ok upd)
qed

interpretation x4a50: board x_board x_ok
  by unfold_locales
    (simp_all add: x_board_def x_read_ok x_write_ok x_snoop_def check_bank_switch_ok)

lemma x_new_ok: "x_new rom = Some c \<Longrightarrow> x_ok c"
  by (auto simp: x_new_def x_ok_def slice_ok_def Let_def length_concat sum_list_replicate split: if_splits)

text \<open>
  the 4A50 board never panics: from any image it accepts, whatever the program does in its
  window and the console does outside it, every access finds its byte.
\<close>

theorem bank4a50_total:
  assumes "x_new rom = Some c" "list_all event_in_window es"
  shows "\<exists>c'. board_run x_board es c = Some c' \<and> x_ok c'"
  using x4a50.run_ok [OF x_new_ok [OF assms(1)] assms(2)] by (auto simp: wpo_def)

lemma bank4a50_total_witness:
  "\<exists>c c'. x_new (replicate 0x8000 7) = Some c \<and>
     board_run x_board [Read 0x1FF0, Snoop_Write 0x0E45 0x60, Write 0x17FF 9, Read 0x17FF] c = Some c'"
proof -
  obtain c where "x_new (replicate 0x8000 7) = Some c"
    by (simp add: x_new_def Let_def)
  then show ?thesis
    using bank4a50_total [of "replicate 0x8000 7" c
      "[Read 0x1FF0, Snoop_Write 0x0E45 0x60, Write 0x17FF 9, Read 0x17FF]"]
    by (auto simp: in_window_def)
qed

end
