(* ===== verification/Board_Dpc.thy ===== *)
theory Board_Dpc
  imports Board
begin

text \<open>
  The DPC board of \<open>crates/rusty2600-cart/src/lib.rs\<close> (Pitfall II): two program banks, a display
  ROM read through eight data fetchers, and a shift-register random number generator clocked by
  every access.
\<close>

record bank_dpc =
  dpc_program :: "u8 list"
  dpc_display :: "u8 list"
  dpc_bank :: u8
  dpc_tops :: "u8 list"
  dpc_bottoms :: "u8 list"
  dpc_low :: "u8 list"
  dpc_hi :: "u8 list"
  dpc_flags :: "bool list"
  dpc_music_mode :: "bool list"
  dpc_random_number :: u8

definition dpc_new :: "u8 list \<Rightarrow> bank_dpc option" where
  "dpc_new rom = (if length rom < 0x2800 then None
     else do {
       program \<leftarrow> slice_chk 0 0x2000 rom;
       display \<leftarrow> slice_chk 0x2000 0x2800 rom;
       Some \<lparr>dpc_program = program, dpc_display = display, dpc_bank = 1,
         dpc_tops = replicate 8 0, dpc_bottoms = replicate 8 0, dpc_low = replicate 8 0,
         dpc_hi = replicate 8 0, dpc_flags = replicate 8 False,
         dpc_music_mode = replicate 3 False, dpc_random_number = 1\<rparr> })"

definition dpc_hotspot :: "u16 \<Rightarrow> bank_dpc \<Rightarrow> bank_dpc" where
  "dpc_hotspot addr c = (let a = addr AND 0x1FFF in
     if a = 0x1FF8 then c\<lparr>dpc_bank := 0\<rparr> else if a = 0x1FF9 then c\<lparr>dpc_bank := 1\<rparr> else c)"

definition rng_next :: "u8 \<Rightarrow> u8" where
  "rng_next r = (let
     b = ((drop_bit 3 r AND 1) XOR (drop_bit 4 r AND 1) XOR (drop_bit 5 r AND 1) XOR (drop_bit 7 r AND 1)) XOR 1
   in push_bit 1 r OR b)"

definition clock_rng :: "bank_dpc \<Rightarrow> bank_dpc" where
  "clock_rng c = c\<lparr>dpc_random_number := rng_next (dpc_random_number c)\<rparr>"

text \<open>\<open>i >= 5 && self.music_mode[i - 5]\<close>\<close>

definition in_music :: "nat \<Rightarrow> bank_dpc \<Rightarrow> bool" where
  "in_music i c \<longleftrightarrow> i \<ge> 5 \<and> dpc_music_mode c ! (i - 5)"

definition fetcher_clock :: "nat \<Rightarrow> bank_dpc \<Rightarrow> bank_dpc" where
  "fetcher_clock i c = (let
     c = c\<lparr>dpc_low := (dpc_low c)[i := dpc_low c ! i - 1]\<rparr>
   in if dpc_low c ! i = 0xFF then
        (let c = c\<lparr>dpc_hi := (dpc_hi c)[i := dpc_hi c ! i - 1]\<rparr>
         in if in_music i c then c\<lparr>dpc_low := (dpc_low c)[i := dpc_tops c ! i]\<rparr> else c)
      else c)"

definition fetcher_set_flag :: "nat \<Rightarrow> bank_dpc \<Rightarrow> bank_dpc" where
  "fetcher_set_flag i c =
     (if dpc_low c ! i = dpc_tops c ! i then c\<lparr>dpc_flags := (dpc_flags c)[i := True]\<rparr>
      else if dpc_low c ! i = dpc_bottoms c ! i then c\<lparr>dpc_flags := (dpc_flags c)[i := False]\<rparr>
      else c)"

definition gfx_addr :: "nat \<Rightarrow> bank_dpc \<Rightarrow> nat" where
  "gfx_addr i c = (let counter = (push_bit 8 (ucast (dpc_hi c ! i)) OR ucast (dpc_low c ! i)) AND 0x07FF :: u16
     in unat (counter XOR 0x07FF))"

definition music_mix :: "bank_dpc \<Rightarrow> u8" where
  "music_mix c = (let
     mix = 0;
     mix = (if dpc_music_mode c ! 0 \<and> dpc_flags c ! 5 then mix + 4 else mix);
     mix = (if dpc_music_mode c ! 1 \<and> dpc_flags c ! 6 then mix + 5 else mix);
     mix = (if dpc_music_mode c ! 2 \<and> dpc_flags c ! 7 then mix + 6 else mix)
   in mix)"

definition dpc_register :: "u16 \<Rightarrow> nat \<Rightarrow> bank_dpc \<Rightarrow> u8 option" where
  "dpc_register fn index c =
     (if fn = 0 then Some (if index < 4 then dpc_random_number c else music_mix c)
      else if fn = 1 then nth_chk (dpc_display c) (gfx_addr index c)
      else if fn = 2 then (if dpc_flags c ! index then nth_chk (dpc_display c) (gfx_addr index c) else Some 0)
      else if fn = 7 then Some (of_bool (dpc_flags c ! index) * 0xFF)
      else Some 0)"

definition dpc_read :: "u16 \<Rightarrow> bank_dpc \<Rightarrow> (u8 \<times> bank_dpc) option" where
  "dpc_read addr c = do {
     let c = clock_rng (dpc_hotspot addr c);
     let a = addr AND 0x0FFF;
     if a \<ge> 0x0080 then do {
       v \<leftarrow> rom_at (dpc_program c) 0x1000 (dpc_bank c) a;
       Some (v, c) }
     else do {
       let index = unat (a AND 0x07);
       let fn = drop_bit 3 a AND 0x07;
       let c = fetcher_set_flag index c;
       v \<leftarrow> dpc_register fn index c;
       let c = (if index < 5 \<or> \<not> dpc_music_mode c ! (index - 5) then fetcher_clock index c else c);
       Some (v, c) } }"

definition dpc_write :: "u16 \<Rightarrow> u8 \<Rightarrow> bank_dpc \<Rightarrow> bank_dpc option" where
  "dpc_write addr v c = (let
     c = clock_rng (dpc_hotspot addr c);
     a = addr AND 0x0FFF;
     index = unat (a AND 0x07);
     fn = drop_bit 3 a AND 0x07
   in if \<not> (0x0040 \<le> a \<and> a < 0x0080) then Some c
      else if fn = 0 then Some (c\<lparr>dpc_tops := (dpc_tops c)[index := v], dpc_flags := (dpc_flags c)[index := False]\<rparr>)
      else if fn = 1 then Some (c\<lparr>dpc_bottoms := (dpc_bottoms c)[index := v]\<rparr>)
      else if fn = 2 then
        Some (if in_music index c then c\<lparr>dpc_low := (dpc_low c)[index := dpc_tops c ! index]\<rparr>
              else c\<lparr>dpc_low := (dpc_low c)[index := v]\<rparr>)
      else if fn = 3 then
        (let c = c\<lparr>dpc_hi := (dpc_hi c)[index := v]\<rparr>
         in Some (if index \<ge> 5
                  then c\<lparr>dpc_music_mode := (dpc_music_mode c)[index - 5 := v AND 0x10 \<noteq> 0]\<rparr> else c))
      else if fn = 6 then Some (c\<lparr>dpc_random_number := 1\<rparr>)
      else Some c)"

definition dpc_board :: "bank_dpc board_ops" where "dpc_board = default_board dpc_read dpc_write Curated"

subsection \<open>The invariant\<close>

definition dpc_ok :: "bank_dpc \<Rightarrow> bool" where
  "dpc_ok c \<longleftrightarrow> length (dpc_program c) = 2 * 0x1000 \<and> length (dpc_display c) = 0x800 \<and>
     unat (dpc_bank c) < 2 \<and> length (dpc_tops c) = 8 \<and> length (dpc_bottoms c) = 8 \<and>
     length (dpc_low c) = 8 \<and> length (dpc_hi c) = 8 \<and> length (dpc_flags c) = 8 \<and>
     length (dpc_music_mode c) = 3"

lemma dpc_parts_ok [simp]:
  "dpc_ok c \<Longrightarrow> dpc_ok (dpc_hotspot a c)" "dpc_ok c \<Longrightarrow> dpc_ok (clock_rng c)"
  "dpc_ok c \<Longrightarrow> dpc_ok (fetcher_clock i c)" "dpc_ok c \<Longrightarrow> dpc_ok (fetcher_set_flag i c)"
  by (simp_all add: dpc_ok_def dpc_hotspot_def clock_rng_def fetcher_clock_def fetcher_set_flag_def Let_def)

text \<open>A fetcher reads the display ROM from its end: 2047 less its counter modulo 2048.\<close>

lemma gfx_addr_eq: "gfx_addr i c = 2047 - unat (le16 (dpc_low c ! i) (dpc_hi c ! i)) mod 2048"
proof -
  let ?w = "(push_bit 8 (ucast (dpc_hi c ! i)) OR ucast (dpc_low c ! i)) :: u16"
  have w: "?w = le16 (dpc_low c ! i) (dpc_hi c ! i)" by (simp add: le16_def or.commute)
  let ?m = "?w AND 0x07FF"
  have "?m AND (?m XOR 0x07FF) = 0" "?m OR (?m XOR 0x07FF) = 0x07FF"
    by (rule bit_word_eqI; auto simp: bit_and_iff bit_or_iff bit_xor_iff)+
  then have "unat ?m + unat (?m XOR 0x07FF) = 2047"
    using unat_add_disjoint [of ?m "?m XOR 0x07FF"] by simp
  then show ?thesis using w by (simp add: gfx_addr_def Let_def mask_mod)
qed

lemma gfx_addr_less: "gfx_addr i c < 0x800"
  by (simp add: gfx_addr_eq)

lemma dpc_register_ok: "dpc_ok c \<Longrightarrow> wpo (dpc_register fn i c) (\<lambda>_. True)"
  by (simp add: dpc_register_def dpc_ok_def gfx_addr_less)

lemma dpc_read_ok: "dpc_ok c \<Longrightarrow> wpo (dpc_read a c) (\<lambda>(v, c'). dpc_ok c')"
proof -
  assume c: "dpc_ok c"
  let ?c = "clock_rng (dpc_hotspot a c)"
  have ok: "dpc_ok ?c" using c by simp
  then have "rom_at (dpc_program ?c) 0x1000 (dpc_bank ?c) (a AND 0x0FFF) =
      Some (dpc_program ?c ! (unat (dpc_bank ?c) * 0x1000 + unat (a AND 0x0FFF)))"
    by (simp add: dpc_ok_def rom_at_ok [where n = 2])
  then show ?thesis
    using ok by (auto simp: dpc_read_def Let_def intro!: wpo_mono [OF dpc_register_ok])
qed

lemma dpc_write_ok: "dpc_ok c \<Longrightarrow> wpo (dpc_write a v c) dpc_ok"
  using dpc_parts_ok(2) [OF dpc_parts_ok(1), of c a]
  by (simp add: dpc_write_def Let_def dpc_ok_def [of "_\<lparr>dpc_tops := _\<rparr>"] dpc_ok_def)

interpretation dpc: board dpc_board dpc_ok
  unfolding dpc_board_def by (rule default_boardI [OF dpc_read_ok dpc_write_ok])

lemma dpc_new_ok: "dpc_new rom = Some c \<Longrightarrow> dpc_ok c"
  by (auto simp: dpc_new_def dpc_ok_def slice_chk_def split: if_splits)


subsection \<open>The random number generator\<close>

definition rng_orbit :: "u8 list" where
  "rng_orbit = [1, 3, 7, 15, 30, 61, 122, 244, 232, 208, 161, 67, 135, 14, 28, 57, 114, 229, 203, 151, 47,
   95, 191, 127, 254, 253, 251, 247, 238, 220, 184, 113, 227, 199, 142, 29, 59, 118, 237, 218,
   180, 104, 209, 163, 71, 143, 31, 63, 126, 252, 249, 243, 230, 205, 155, 54, 109, 219, 182,
   108, 217, 178, 100, 200, 145, 35, 70, 141, 27, 55, 111, 223, 190, 125, 250, 245, 234, 212,
   169, 82, 164, 73, 146, 37, 74, 148, 41, 83, 166, 77, 154, 52, 105, 211, 167, 79, 158, 60,
   120, 240, 224, 193, 130, 4, 9, 18, 36, 72, 144, 33, 66, 133, 10, 20, 40, 81, 162, 69, 139,
   23, 46, 93, 187, 119, 239, 222, 188, 121, 242, 228, 201, 147, 39, 78, 156, 56, 112, 225, 195,
   134, 12, 24, 49, 99, 198, 140, 25, 51, 103, 206, 157, 58, 116, 233, 210, 165, 75, 150, 45,
   91, 183, 110, 221, 186, 117, 235, 214, 173, 90, 181, 106, 213, 171, 86, 172, 88, 177, 98,
   196, 136, 17, 34, 68, 137, 19, 38, 76, 152, 48, 97, 194, 132, 8, 16, 32, 64, 129, 2, 5, 11,
   22, 44, 89, 179, 102, 204, 153, 50, 101, 202, 149, 43, 87, 174, 92, 185, 115, 231, 207, 159,
   62, 124, 248, 241, 226, 197, 138, 21, 42, 85, 170, 84, 168, 80, 160, 65, 131, 6, 13, 26, 53,
   107, 215, 175, 94, 189, 123, 246, 236, 216, 176, 96, 192, 128, 0]"

lemma rng_orbit_rotates: "map rng_next rng_orbit = rotate1 rng_orbit"
  by (simp add: rng_orbit_def rng_next_def)

lemma rng_orbit_length: "length rng_orbit = 255"
  by (simp add: rng_orbit_def)

lemma rng_orbit_nth: "(rng_next ^^ m) 1 = rng_orbit ! (m mod 255)"
proof -
  have "rng_orbit ! 0 = 1" by (simp add: rng_orbit_def)
  then show ?thesis
    using funpow_rotates [OF rng_orbit_rotates, of 0 m] by (simp add: rng_orbit_length)
qed

lemma rng_orbit_no_fixpoint: "0xFF \<notin> set rng_orbit"
  by (simp add: rng_orbit_def)

lemma rng_orbit_divisors: "rng_orbit ! 15 \<noteq> 1" "rng_orbit ! 51 \<noteq> 1" "rng_orbit ! 85 \<noteq> 1"
  by (simp_all add: rng_orbit_def)

lemma dvd_255: "d dvd 255 \<Longrightarrow> d dvd 15 \<or> d dvd 51 \<or> d dvd 85 \<or> d = 255" for d :: nat
proof -
  assume d: "d dvd 255"
  then obtain k where k: "255 = d * k" by (rule dvdE)
  have "d \<le> 15 \<or> k \<le> 15"
    using mult_le_mono [of 16 d 16 k] k by linarith
  then consider "d \<le> 15" | "k \<le> 15" by auto
  then show ?thesis
  proof cases
    case 1
    then have "d \<in> {0,1,2,3,4,5,6,7,8,9,10,11,12,13,14,15}"
      unfolding insert_iff empty_iff by presburger
    with d show ?thesis by auto
  next
    case 2
    then have "k \<in> {0,1,2,3,4,5,6,7,8,9,10,11,12,13,14,15}"
      unfolding insert_iff empty_iff by presburger
    moreover have "k dvd 255" using k by (metis dvd_triv_right)
    ultimately have "k \<in> {1, 3, 5, 15}" by auto
    then have "d \<in> {255, 85, 51, 17}" using k by auto
    then show ?thesis by auto
  qed
qed

text \<open>
  the generator, clocked by every access, repeats exactly every 255 accesses from its power-on
  value 1 and never reaches 0xFF, the one value it would be stuck at; 0 is a value like the others.
\<close>

theorem dpc_rng_period:
  "((rng_next ^^ m) 1 = 1 \<longleftrightarrow> 255 dvd m) \<and> (rng_next ^^ m) 1 \<noteq> 0xFF \<and>
   rng_next 0xFF = 0xFF \<and> rng_next 0 = 1"
proof -
  have "(rng_next ^^ m) 1 \<noteq> 0xFF"
  proof -
    have "m mod 255 < length rng_orbit" by (simp add: rng_orbit_length)
    then have "rng_orbit ! (m mod 255) \<in> set rng_orbit" by (rule nth_mem)
    then show ?thesis using rng_orbit_no_fixpoint unfolding rng_orbit_nth by metis
  qed
  moreover have "255 dvd m" if "(rng_next ^^ m) 1 = 1"
  proof -
    have p: "(rng_next ^^ 255) 1 = 1" 
    proof -
      have "rng_orbit ! 0 = 1" by (simp add: rng_orbit_def)
      then show ?thesis unfolding rng_orbit_nth by simp
    qed
    let ?g = "gcd m 255"
    have g: "(rng_next ^^ ?g) 1 = 1" by (rule funpow_gcd [OF that p])
    have "rng_orbit ! (k mod 255) = 1" if "?g dvd k" for k
      using that g funpow_mod_eq [OF g, of k] unfolding rng_orbit_nth [symmetric] by simp
    from this [of 15] this [of 51] this [of 85] have "\<not> ?g dvd 15" "\<not> ?g dvd 51" "\<not> ?g dvd 85"
      using rng_orbit_divisors by auto
    then have "?g = 255" using dvd_255 [of ?g] by auto
    then show ?thesis by (metis gcd_dvd1)
  qed
  moreover have "(rng_next ^^ m) 1 = 1" if "255 dvd m"
  proof -
    have "rng_orbit ! 0 = 1" by (simp add: rng_orbit_def)
    moreover have "m mod 255 = 0" using that by (simp add: mod_eq_0_iff_dvd)
    ultimately show ?thesis unfolding rng_orbit_nth by simp
  qed
  moreover have "rng_next 0xFF = 0xFF" "rng_next 0 = 1" by (simp_all add: rng_next_def)
  ultimately show ?thesis by blast
qed

text \<open>The generator is clocked by a read of the program ROM as by one of a register.\<close>

lemma dpc_read_clocks: "dpc_read a c = Some (v, c') \<Longrightarrow>
    dpc_random_number c' = rng_next (dpc_random_number c)"
proof -
  have [simp]: "dpc_random_number (dpc_hotspot a c) = dpc_random_number c"
    "dpc_random_number (fetcher_clock i d) = dpc_random_number d"
    "dpc_random_number (fetcher_set_flag i d) = dpc_random_number d" for i d
    by (simp_all add: dpc_hotspot_def fetcher_clock_def fetcher_set_flag_def Let_def)
  show "dpc_read a c = Some (v, c') \<Longrightarrow> ?thesis"
    by (auto simp: dpc_read_def Let_def clock_rng_def bind_eq_Some_conv split: if_splits)
qed

subsection \<open>The data fetchers\<close>

text \<open>
  a display read of fetcher \<open>i\<close> outside music mode returns the display byte its counter
  points at, counted from the end of the display ROM, and decrements the counter by one, across
  the borrow between its bytes.
\<close>

theorem dpc_fetcher_read:
  assumes "dpc_ok c" "i < 8" "\<not> in_music i c"
    and a: "a AND 0x0FFF = 0x0008 + of_nat i"
  shows "\<exists>c'. dpc_read a c =
      Some (dpc_display c ! (2047 - unat (le16 (dpc_low c ! i) (dpc_hi c ! i)) mod 2048), c') \<and>
    le16 (dpc_low c' ! i) (dpc_hi c' ! i) = le16 (dpc_low c ! i) (dpc_hi c ! i) - 1"
proof -
  let ?a = "a AND 0x0FFF" and ?c = "fetcher_set_flag i (clock_rng (dpc_hotspot a c))"
  have u: "unat ?a = 8 + i" using assms(2) unfolding a by (simp add: unat_word_ariths unat_of_nat)
  then have reg: "\<not> 0x0080 \<le> ?a" "unat (?a AND 0x07) = i"
    using assms(2) by (simp_all add: word_le_nat_alt mask_mod)
  have "unat (drop_bit 3 ?a) = 1"
    using u assms(2) by (simp add: drop_bit_eq_div unat_div)
  then have "drop_bit 3 ?a = 1" by (simp add: word_unat_eq_iff)
  then have fn: "drop_bit 3 ?a AND 0x07 = 1" by (simp only:) simp
  have same: "dpc_display ?c = dpc_display c" "dpc_low ?c = dpc_low c" "dpc_hi ?c = dpc_hi c"
    "dpc_music_mode ?c = dpc_music_mode c" "length (dpc_display c) = 0x800"
    "length (dpc_low c) = 8" "length (dpc_hi c) = 8"
    using assms(1) by (simp_all add: fetcher_set_flag_def clock_rng_def dpc_hotspot_def Let_def dpc_ok_def)
  then have "dpc_register 1 i ?c = Some (dpc_display c ! gfx_addr i c)"
    using gfx_addr_less [of i ?c] by (simp add: dpc_register_def gfx_addr_def)
  moreover have "i < 5 \<or> \<not> dpc_music_mode ?c ! (i - 5)"
    using assms(3) same(4) by (auto simp: in_music_def)
  ultimately have "dpc_read a c = Some (dpc_display c ! gfx_addr i c, fetcher_clock i ?c)"
    using reg fn by (simp add: dpc_read_def Let_def)
  moreover have "le16 (dpc_low (fetcher_clock i ?c) ! i) (dpc_hi (fetcher_clock i ?c) ! i) =
      le16 (dpc_low c ! i - 1) (if dpc_low c ! i = 0 then dpc_hi c ! i - 1 else dpc_hi c ! i)"
  proof -
    have "w - 1 = 0xFF \<longleftrightarrow> w = 0" for w :: u8
    proof
      assume "w - 1 = 0xFF"
      then have "w = 0xFF + 1" by (metis diff_add_cancel)
      then show "w = 0" by simp
    qed simp
    then show ?thesis
      using same assms(2,3) by (auto simp: fetcher_clock_def Let_def in_music_def)
  qed
  ultimately show ?thesis by (simp add: le16_decrement gfx_addr_eq)
qed

definition demo_dpc :: bank_dpc where
  "demo_dpc = the (dpc_new (replicate 0x2800 9))"

lemma dpc_fetcher_read_witness:
  "\<exists>c'. dpc_read 0x100A demo_dpc = Some (9, c') \<and> le16 (dpc_low c' ! 2) (dpc_hi c' ! 2) = - 1"
proof -
  have new: "dpc_new (replicate 0x2800 9) = Some demo_dpc"
    by (simp add: demo_dpc_def dpc_new_def slice_chk_def)
  have "dpc_low demo_dpc ! 2 = 0" "dpc_hi demo_dpc ! 2 = 0" "dpc_display demo_dpc ! 2047 = 9"
      "\<not> in_music 2 demo_dpc"
    by (simp_all add: demo_dpc_def dpc_new_def slice_chk_def in_music_def)
  then show ?thesis
    using dpc_fetcher_read [OF dpc_new_ok [OF new], of 2 "0x100A"] by (simp add: le16_def)
qed

end
