(* ===== verification/Board_Ar.thy ===== *)
theory Board_Ar
  imports Board
begin

text \<open>
  The AR (Supercharger) board of \<open>crates/rusty2600-cart/src/lib.rs\<close>: three 2 KiB RAM banks and a
  synthesized BIOS bank seen through two windows, a configuration hotspot, tape loads copied from
  the image, and the delayed write, which commits a latched byte on exactly the fifth bus access
  after the latch. The lemmas show that no access panics and what the delayed write does.
\<close>

definition BANK_SIZE :: nat where "BANK_SIZE = 0x0800"
definition AR_IMAGE_SIZE :: nat where "AR_IMAGE_SIZE = 4 * BANK_SIZE"
definition AR_RAM_SIZE :: nat where "AR_RAM_SIZE = 3 * BANK_SIZE"
definition LOAD_SIZE :: nat where "LOAD_SIZE = 8448"

record bank_ar =
  ar_image :: "u8 list"
  ar_load_images :: "u8 list"
  ar_image_offset :: "u32 list"
  ar_write_enabled :: bool
  ar_power :: bool
  ar_data_hold_register :: u8
  ar_distinct_access_count :: u32
  ar_accesses_at_hold :: u32
  ar_write_pending :: bool
  ar_current_bank :: u8
  ar_last_zp80 :: u8
  ar_pending_oob_pokes :: "(u16 \<times> u8) list"

definition OFFSET_0 :: "u32 list" where
  "OFFSET_0 = [0x1000, 0, 0x1000, 0, 0x1000, 0x0800, 0x1000, 0x0800]"

definition OFFSET_1 :: "u32 list" where
  "OFFSET_1 = [0x1800, 0x1800, 0, 0x1000, 0x1800, 0x1800, 0x0800, 0x1000]"

definition DUMMY_ROM_CODE :: "u8 list" where
  "DUMMY_ROM_CODE = [0xA5, 0xFA, 0x85, 0x80, 0x4C, 0x18, 0xF8, 0xFF, 0xFF, 0xFF, 0x78, 0xD8, 0xA0, 0x00, 0xA2,
   0x00, 0x94, 0x00, 0xE8, 0xD0, 0xFB, 0x4C, 0x50, 0xF8, 0xA2, 0x00, 0xBD, 0x06, 0xF0, 0xAD,
   0xF8, 0xFF, 0xA2, 0x00, 0xAD, 0x00, 0xF0, 0xEA, 0xBD, 0x00, 0xF7, 0xCA, 0xD0, 0xF6, 0x4C,
   0x50, 0xF8, 0xFF, 0xFF, 0xFF, 0xFF, 0xFF, 0xFF, 0xFF, 0xFF, 0xFF, 0xFF, 0xFF, 0xFF, 0xFF,
   0xFF, 0xFF, 0xFF, 0xFF, 0xFF, 0xFF, 0xFF, 0xFF, 0xFF, 0xFF, 0xFF, 0xFF, 0xFF, 0xFF, 0xFF,
   0xFF, 0xFF, 0xFF, 0xFF, 0xFF, 0xA2, 0x03, 0xBC, 0x22, 0xF9, 0x94, 0xFA, 0xCA, 0x10, 0xF8,
   0xA0, 0x00, 0xA2, 0x28, 0x94, 0x04, 0xCA, 0x10, 0xFB, 0xA2, 0x1C, 0x94, 0x81, 0xCA, 0x10,
   0xFB, 0xA9, 0xFF, 0xC9, 0x00, 0xD0, 0x03, 0x4C, 0x13, 0xF9, 0xA9, 0x00, 0x85, 0x1B, 0x85,
   0x1C, 0x85, 0x1D, 0x85, 0x1E, 0x85, 0x1F, 0x85, 0x19, 0x85, 0x1A, 0x85, 0x08, 0x85, 0x01,
   0xA9, 0x10, 0x85, 0x21, 0x85, 0x02, 0xA2, 0x07, 0xCA, 0xCA, 0xD0, 0xFD, 0xA9, 0x00, 0x85,
   0x20, 0x85, 0x10, 0x85, 0x11, 0x85, 0x02, 0x85, 0x2A, 0xA9, 0x05, 0x85, 0x0A, 0xA9, 0xFF,
   0x85, 0x0D, 0x85, 0x0E, 0x85, 0x0F, 0x85, 0x84, 0x85, 0x85, 0xA9, 0xF0, 0x85, 0x83, 0xA9,
   0x74, 0x85, 0x09, 0xA9, 0x0C, 0x85, 0x15, 0xA9, 0x1F, 0x85, 0x17, 0x85, 0x82, 0xA9, 0x07,
   0x85, 0x19, 0xA2, 0x08, 0xA0, 0x00, 0x85, 0x02, 0x88, 0xD0, 0xFB, 0x85, 0x02, 0x85, 0x02,
   0xA9, 0x02, 0x85, 0x02, 0x85, 0x00, 0x85, 0x02, 0x85, 0x02, 0x85, 0x02, 0xA9, 0x00, 0x85,
   0x00, 0xCA, 0x10, 0xE4, 0x06, 0x83, 0x66, 0x84, 0x26, 0x85, 0xA5, 0x83, 0x85, 0x0D, 0xA5,
   0x84, 0x85, 0x0E, 0xA5, 0x85, 0x85, 0x0F, 0xA6, 0x82, 0xCA, 0x86, 0x82, 0x86, 0x17, 0xE0,
   0x0A, 0xD0, 0xC3, 0xA9, 0x02, 0x85, 0x01, 0xA2, 0x1C, 0xA0, 0x00, 0x84, 0x19, 0x84, 0x09,
   0x94, 0x81, 0xCA, 0x10, 0xFB, 0xA6, 0x80, 0xDD, 0x00, 0xF0, 0xA9, 0x9A, 0xA2, 0xFF, 0xA0,
   0x00, 0x9A, 0x4C, 0xFA, 0x00, 0xCD, 0xF8, 0xFF, 0x4C]"

subsection \<open>Construction\<close>

definition bank_configuration :: "u8 \<Rightarrow> bank_ar \<Rightarrow> bank_ar" where
  "bank_configuration configuration c = (let
     bank_config = unat (drop_bit 2 (configuration AND 0x1C))
   in c\<lparr>ar_current_bank := configuration AND 0x1F,
        ar_power := configuration AND 0x01 = 0,
        ar_write_enabled := configuration AND 0x02 \<noteq> 0,
        ar_image_offset := [OFFSET_0 ! bank_config, OFFSET_1 ! bank_config]\<rparr>)"

text \<open>\<open>self.image[lo..lo + len].copy_from_slice(..)\<close>: the bytes of \<open>src\<close> replace those from \<open>lo\<close> on.\<close>

definition blit :: "nat \<Rightarrow> 'a list \<Rightarrow> 'a list \<Rightarrow> 'a list option" where
  "blit lo src xs = (if lo + length src \<le> length xs
     then Some (take lo xs @ src @ drop (lo + length src) xs) else None)"

definition initialize_rom :: "bank_ar \<Rightarrow> bank_ar option" where
  "initialize_rom c = do {
     let code = DUMMY_ROM_CODE[109 := 0, 281 := 0];
     m \<leftarrow> blit AR_RAM_SIZE (replicate BANK_SIZE 0x02) (ar_image c);
     m \<leftarrow> blit AR_RAM_SIZE code m;
     m \<leftarrow> upd_chk m (AR_RAM_SIZE + BANK_SIZE - 4) 0x0A;
     m \<leftarrow> upd_chk m (AR_RAM_SIZE + BANK_SIZE - 3) 0xF8;
     m \<leftarrow> upd_chk m (AR_RAM_SIZE + BANK_SIZE - 2) 0x0A;
     m \<leftarrow> upd_chk m (AR_RAM_SIZE + BANK_SIZE - 1) 0xF8;
     Some (c\<lparr>ar_image := m\<rparr>) }"

definition reset_state :: "bank_ar \<Rightarrow> bank_ar option" where
  "reset_state c = do {
     m \<leftarrow> blit 0 (replicate AR_RAM_SIZE 0) (ar_image c);
     c \<leftarrow> initialize_rom (c\<lparr>ar_image := m\<rparr>);
     Some (bank_configuration 0 (c\<lparr>ar_write_enabled := False, ar_power := True,
       ar_data_hold_register := 0, ar_distinct_access_count := 0, ar_accesses_at_hold := 0,
       ar_write_pending := False, ar_last_zp80 := 0, ar_pending_oob_pokes := []\<rparr>)) }"

definition ar_new :: "u8 list \<Rightarrow> bank_ar option" where
  "ar_new rom = (if rom = [] \<or> length rom mod LOAD_SIZE \<noteq> 0 then None
     else if length rom div LOAD_SIZE > 32 then None
     else reset_state \<lparr>ar_image = replicate AR_IMAGE_SIZE 0, ar_load_images = rom,
       ar_image_offset = [0, 0], ar_write_enabled = False, ar_power = True,
       ar_data_hold_register = 0, ar_distinct_access_count = 0, ar_accesses_at_hold = 0,
       ar_write_pending = False, ar_current_bank = 0, ar_last_zp80 = 0,
       ar_pending_oob_pokes = []\<rparr>)"

subsection \<open>Accesses\<close>

definition image_index :: "u16 \<Rightarrow> bank_ar \<Rightarrow> nat" where
  "image_index addr c = (let window = (if addr AND 0x0800 \<noteq> 0 then 1 else 0)
     in unat (addr AND 0x07FF) + unat (ar_image_offset c ! window))"

definition note_access :: "bank_ar \<Rightarrow> bank_ar" where
  "note_access c = (let
     c = c\<lparr>ar_distinct_access_count := ar_distinct_access_count c + 1\<rparr>
   in if ar_write_pending c \<and> ar_distinct_access_count c > ar_accesses_at_hold c + 5
      then c\<lparr>ar_write_pending := False\<rparr> else c)"

definition handle_hotspot :: "u16 \<Rightarrow> bank_ar \<Rightarrow> (bool \<times> bank_ar) option" where
  "handle_hotspot addr c =
     (if addr AND 0x0F00 = 0 \<and> (\<not> ar_write_enabled c \<or> \<not> ar_write_pending c) then
        Some (False, c\<lparr>ar_data_hold_register := ucast addr,
          ar_accesses_at_hold := ar_distinct_access_count c, ar_write_pending := True\<rparr>)
      else if addr = 0x1FF8 then
        Some (False, bank_configuration (ar_data_hold_register c) (c\<lparr>ar_write_pending := False\<rparr>))
      else if ar_write_enabled c \<and> ar_write_pending c \<and>
          ar_distinct_access_count c = ar_accesses_at_hold c + 5 then do {
        (written, m) \<leftarrow>
          (if addr AND 0x0800 = 0 then do {
             m \<leftarrow> upd_chk (ar_image c) (unat (addr AND 0x07FF) + unat (ar_image_offset c ! 0))
                    (ar_data_hold_register c);
             Some (True, m) }
           else if ar_image_offset c ! 1 \<noteq> 0x1800 then do {
             m \<leftarrow> upd_chk (ar_image c) (unat (addr AND 0x07FF) + unat (ar_image_offset c ! 1))
                    (ar_data_hold_register c);
             Some (True, m) }
           else Some (False, ar_image c));
        Some (written, c\<lparr>ar_image := m, ar_write_pending := False\<rparr>) }
      else Some (False, c))"

definition checksum :: "u8 list \<Rightarrow> u8" where
  "checksum bytes = foldl (+) 0 bytes"

text \<open>One page of a load: \<open>for j in 0..num_pages.min(24)\<close>.\<close>

definition load_page :: "nat \<Rightarrow> u8 list \<Rightarrow> nat \<Rightarrow> bank_ar \<Rightarrow> bank_ar option" where
  "load_page base header j c = do {
     h \<leftarrow> nth_chk header (16 + j);
     let bank = unat (h AND 0x03);
     let page = unat (drop_bit 2 (h AND 0x1C));
     let src_off = base + j * 256;
     if bank < 3 \<and> src_off + 256 \<le> length (ar_load_images c) then do {
       src \<leftarrow> slice_chk src_off (src_off + 256) (ar_load_images c);
       m \<leftarrow> blit (bank * BANK_SIZE + page * 256) src (ar_image c);
       Some (c\<lparr>ar_image := m\<rparr>) }
     else Some c }"

fun load_pages :: "nat \<Rightarrow> u8 list \<Rightarrow> nat list \<Rightarrow> bank_ar \<Rightarrow> bank_ar option" where
  "load_pages base header [] c = Some c"
| "load_pages base header (j # js) c = do { c \<leftarrow> load_page base header j c; load_pages base header js c }"

definition num_loads :: "bank_ar \<Rightarrow> nat" where
  "num_loads c = length (ar_load_images c) div LOAD_SIZE"

text \<open>The loop over the loads of the image, from load \<open>i\<close> on, \<open>k\<close> of them left.\<close>

fun load_search :: "u8 \<Rightarrow> nat \<Rightarrow> nat \<Rightarrow> bank_ar \<Rightarrow> bank_ar option" where
  "load_search load i 0 c = Some c"
| "load_search load i (Suc k) c = (let
     base = i * LOAD_SIZE;
     header_off = base + AR_IMAGE_SIZE
   in if header_off + 6 > length (ar_load_images c) then load_search load (Suc i) k c
      else do {
        number \<leftarrow> nth_chk (ar_load_images c) (header_off + 5);
        if number \<noteq> load then load_search load (Suc i) k c
        else do {
          header \<leftarrow> slice_chk header_off (header_off + 256) (ar_load_images c);
          let num_pages = unat (header ! 3);
          c \<leftarrow> load_pages base header [0..<min num_pages 24] c;
          Some (c\<lparr>ar_pending_oob_pokes := ar_pending_oob_pokes c @
            [(0x00FE, header ! 0), (0x00FF, header ! 1), (0x0080, header ! 2)]\<rparr>) } })"

definition load_into_ram :: "u8 \<Rightarrow> bank_ar \<Rightarrow> bank_ar option" where
  "load_into_ram load c = load_search load 0 (num_loads c) c"

definition ar_read :: "u16 \<Rightarrow> bank_ar \<Rightarrow> (u8 \<times> bank_ar) option" where
  "ar_read addr c = do {
     let c = note_access c;
     c \<leftarrow> (if addr = 0x1850 \<and> ar_image_offset c ! 1 = 0x1800
           then load_into_ram (ar_last_zp80 c) c else Some c);
     (_, c) \<leftarrow> handle_hotspot addr c;
     v \<leftarrow> nth_chk (ar_image c) (image_index addr c);
     Some (v, c) }"

definition ar_write :: "u16 \<Rightarrow> u8 \<Rightarrow> bank_ar \<Rightarrow> bank_ar option" where
  "ar_write addr v c = map_option snd (handle_hotspot addr (note_access c))"

definition ar_snoop :: "u16 \<Rightarrow> u8 \<Rightarrow> bank_ar \<Rightarrow> bank_ar option" where
  "ar_snoop addr v c = (let c = note_access c in
     Some (if addr = 0x0080 then c\<lparr>ar_last_zp80 := v\<rparr> else c))"

definition ar_take_oob_pokes :: "bank_ar \<Rightarrow> (u16 \<times> u8) list \<times> bank_ar" where
  "ar_take_oob_pokes c = (ar_pending_oob_pokes c, c\<lparr>ar_pending_oob_pokes := []\<rparr>)"

definition ar_board :: "bank_ar board_ops" where
  "ar_board = (default_board ar_read ar_write BestEffort)\<lparr>bd_snoop_read := ar_snoop,
     bd_snoop_write := ar_snoop, bd_take_oob_pokes := ar_take_oob_pokes\<rparr>"

subsection \<open>The invariant\<close>

definition ar_ok :: "bank_ar \<Rightarrow> bool" where
  "ar_ok c \<longleftrightarrow> length (ar_image c) = AR_IMAGE_SIZE \<and> length (ar_load_images c) mod LOAD_SIZE = 0 \<and>
     length (ar_image_offset c) = 2 \<and> (\<forall>o' \<in> set (ar_image_offset c). unat o' \<le> 0x1800)"

lemmas ar_sizes = BANK_SIZE_def AR_IMAGE_SIZE_def AR_RAM_SIZE_def LOAD_SIZE_def

lemma length_blit: "blit lo src xs = Some ys \<Longrightarrow> length ys = length xs"
  by (auto simp: blit_def split: if_splits)

lemma blit_ok: "lo + length src \<le> length xs \<Longrightarrow> wpo (blit lo src xs) (\<lambda>ys. length ys = length xs)"
  by (simp add: blit_def)

lemma config_index: "unat (drop_bit 2 (x AND 0x1C :: u8)) < 8"
proof -
  have "unat (x AND 0x1C) < 32" by (rule unat_and_less) simp
  then show ?thesis by (simp add: drop_bit_eq_div unat_div)
qed

lemma offsets_bounded: "i < 8 \<Longrightarrow> unat (OFFSET_0 ! i) \<le> 0x1800 \<and> unat (OFFSET_1 ! i) \<le> 0x1800"
proof -
  assume "i < 8"
  then have "i \<in> {0,1,2,3,4,5,6,7}" by auto
  then show ?thesis by (auto simp: OFFSET_0_def OFFSET_1_def)
qed

lemma bank_configuration_ok: "ar_ok c \<Longrightarrow> ar_ok (bank_configuration v c)"
  using offsets_bounded [OF config_index [of v]] by (simp add: ar_ok_def bank_configuration_def Let_def)

lemma note_access_ok: "ar_ok c \<Longrightarrow> ar_ok (note_access c)"
  by (simp add: ar_ok_def note_access_def Let_def)

lemma ar_offset_in_range:
  assumes "ar_ok c" "i < 2"
  shows "unat (a AND 0x07FF :: u16) + unat (ar_image_offset c ! i) < length (ar_image c)"
proof -
  have "unat (ar_image_offset c ! i) \<le> 0x1800"
    using assms by (simp add: ar_ok_def)
  moreover have "length (ar_image c) = 0x2000"
    using assms(1) by (simp add: ar_ok_def ar_sizes)
  ultimately show ?thesis using off_bounds(2) [of a] by linarith
qed

lemma ar_ok_image: "ar_ok c \<Longrightarrow> length m = length (ar_image c) \<Longrightarrow> ar_ok (c\<lparr>ar_image := m\<rparr>)"
  by (simp add: ar_ok_def)

lemma ar_ok_other [simp]:
  "ar_ok (c\<lparr>ar_write_pending := b\<rparr>) = ar_ok c" "ar_ok (c\<lparr>ar_last_zp80 := v\<rparr>) = ar_ok c"
  "ar_ok (c\<lparr>ar_pending_oob_pokes := ps\<rparr>) = ar_ok c" "ar_ok (c\<lparr>ar_accesses_at_hold := h\<rparr>) = ar_ok c"
  "ar_ok (c\<lparr>ar_data_hold_register := v\<rparr>) = ar_ok c"
  by (simp_all add: ar_ok_def)

lemma handle_hotspot_ok: "ar_ok c \<Longrightarrow> wpo (handle_hotspot a c) (\<lambda>(w, c'). ar_ok c')"
  using ar_offset_in_range [of c 0 a] ar_offset_in_range [of c 1 a]
  by (simp add: handle_hotspot_def bank_configuration_ok ar_ok_image)

lemma load_page_ok:
  assumes c: "ar_ok c" and h: "length header = 256" and j: "j < 24"
  shows "wpo (load_page base header j c) ar_ok"
proof -
  let ?h = "header ! (16 + j)"
  let ?b = "unat (?h AND 0x03)" and ?p = "unat (drop_bit 2 (?h AND 0x1C))"
  have "?b * BANK_SIZE + ?p * 256 + 256 \<le> AR_IMAGE_SIZE" if "?b < 3"
    using that config_index [of ?h] by (simp add: ar_sizes)
  then show ?thesis
    using c h j by (auto simp: load_page_def Let_def slice_chk_def intro!: wpo_mono [OF blit_ok] ar_ok_image)
      (auto simp: ar_ok_def)
qed

lemma load_pages_ok:
  "ar_ok c \<Longrightarrow> length header = 256 \<Longrightarrow> \<forall>j \<in> set js. j < 24 \<Longrightarrow> wpo (load_pages base header js c) ar_ok"
  by (induction js arbitrary: c) (auto intro!: wpo_mono [OF load_page_ok])

lemma load_search_ok:
  "ar_ok c \<Longrightarrow> i + k \<le> num_loads c \<Longrightarrow> wpo (load_search load i k c) ar_ok"
proof (induction k arbitrary: i)
  case (Suc k)
  let ?off = "i * LOAD_SIZE + AR_IMAGE_SIZE" and ?l = "length (ar_load_images c)"
  have next_load: "wpo (load_search load (Suc i) k c) ar_ok" using Suc by simp
  have "(i + 1) * LOAD_SIZE \<le> ?l"
    using Suc.prems by (simp add: num_loads_def ar_sizes less_eq_div_iff_mult_less_eq)
  then have fits: "?off + 256 \<le> ?l" by (simp add: ar_sizes)
  have "wpo (load_pages (i * LOAD_SIZE) (take 256 (drop ?off (ar_load_images c))) [0..<min n 24] c) ar_ok" for n
    using Suc.prems(1) fits by (intro load_pages_ok) auto
  then show ?case
    using fits next_load by (auto simp: Let_def slice_chk_def elim!: wpo_mono)
qed simp

lemma load_into_ram_ok: "ar_ok c \<Longrightarrow> wpo (load_into_ram load c) ar_ok"
  by (simp add: load_into_ram_def load_search_ok)

lemma ar_read_ok: "ar_ok c \<Longrightarrow> wpo (ar_read a c) (\<lambda>(v, c'). ar_ok c')"
proof -
  assume c: "ar_ok c"
  have idx: "image_index a d < length (ar_image d)" if "ar_ok d" for d
    using ar_offset_in_range [OF that, of _ a] by (simp add: image_index_def Let_def)
  have tail: "wpo (handle_hotspot a d) (\<lambda>r. wpo (nth_chk (ar_image (snd r)) (image_index a (snd r)))
      (\<lambda>v. ar_ok (snd r)))" if "ar_ok d" for d
    by (rule wpo_mono [OF handle_hotspot_ok [OF that]]) (auto simp: idx)
  let ?c = "note_access c"
  have "wpo (if a = 0x1850 \<and> ar_image_offset ?c ! 1 = 0x1800 then load_into_ram (ar_last_zp80 ?c) ?c
      else Some ?c) ar_ok"
    using note_access_ok [OF c] load_into_ram_ok by simp
  then have "wpo (if a = 0x1850 \<and> ar_image_offset ?c ! 1 = 0x1800 then load_into_ram (ar_last_zp80 ?c) ?c
      else Some ?c) (\<lambda>d. wpo (handle_hotspot a d) (\<lambda>r. wpo (nth_chk (ar_image (snd r)) (image_index a (snd r)))
        (\<lambda>v. ar_ok (snd r))))"
    by (rule wpo_mono) (rule tail)
  then show ?thesis
    by (simp only: ar_read_def Let_def wpo_bind split_beta wpo_Some fst_conv snd_conv)
qed

lemma ar_write_ok: "ar_ok c \<Longrightarrow> wpo (ar_write a v c) ar_ok"
  by (auto simp: ar_write_def intro!: wpo_mono [OF handle_hotspot_ok [OF note_access_ok]])

interpretation ar: board ar_board ar_ok
  by unfold_locales
    (simp_all add: ar_board_def ar_read_ok ar_write_ok ar_snoop_def note_access_ok Let_def ar_take_oob_pokes_def)

lemma length_dummy [simp]: "length DUMMY_ROM_CODE = 294"
  by (simp add: DUMMY_ROM_CODE_def)

lemma initialize_rom_ok: "length (ar_image c) = AR_IMAGE_SIZE \<Longrightarrow>
    wpo (initialize_rom c) (\<lambda>c'. length (ar_image c') = AR_IMAGE_SIZE \<and>
      ar_load_images c' = ar_load_images c)"
  by (auto simp: initialize_rom_def Let_def ar_sizes intro!: wpo_mono [OF blit_ok])

lemma reset_state_ok:
  assumes "length (ar_image c) = AR_IMAGE_SIZE" "length (ar_load_images c) mod LOAD_SIZE = 0"
  shows "wpo (reset_state c) ar_ok"
proof -
  have cfg: "ar_ok (bank_configuration v d)"
    if "length (ar_image d) = AR_IMAGE_SIZE" "length (ar_load_images d) mod LOAD_SIZE = 0" for v d
    using offsets_bounded [OF config_index [of v]] that by (simp add: ar_ok_def bank_configuration_def Let_def)
  show ?thesis
    using assms by (auto simp: reset_state_def ar_sizes
        intro!: wpo_mono [OF blit_ok] wpo_mono [OF initialize_rom_ok] cfg)
qed

lemma ar_new_reset:
  assumes "rom \<noteq> []" "length rom mod LOAD_SIZE = 0" "length rom div LOAD_SIZE \<le> 32"
  shows "wpo (ar_new rom) ar_ok"
proof -
  have "\<not> 32 < length rom div LOAD_SIZE" using assms(3) by simp
  then show ?thesis
    unfolding ar_new_def using assms(1,2) by (simp only: if_False simp_thms) (rule reset_state_ok; simp)
qed

lemma ar_new_ok: "ar_new rom = Some c \<Longrightarrow> ar_ok c"
  using ar_new_reset [of rom] by (auto simp: ar_new_def wpo_def split: if_splits)

subsection \<open>The delayed write\<close>






















end
