(* ===== verification/Status.thy ===== *)
theory Status
  imports Prelude
begin

text \<open>
  The processor status register \<open>P\<close> (\<open>crates/rusty2600-cpu/src/status.rs\<close>): a bit set over
  \<open>u8\<close>. The set operations are those the \<open>bitflags\<close> crate documents for such a type
  (\<open>contains\<close>, \<open>insert\<close>, \<open>remove\<close>, \<open>set\<close>, \<open>from_bits_truncate\<close>; all eight bits are
  declared, so truncation keeps every bit). The lemmas reduce every query after an update to
  single bits, which the simplifier decides.
\<close>

type_synonym status = u8

definition CARRY :: status where "CARRY = 0x01"
definition ZERO :: status where "ZERO = 0x02"
definition INTERRUPT_DISABLE :: status where "INTERRUPT_DISABLE = 0x04"
definition DECIMAL :: status where "DECIMAL = 0x08"
definition BREAK :: status where "BREAK = 0x10"
definition UNUSED :: status where "UNUSED = 0x20"
definition OVERFLOW :: status where "OVERFLOW = 0x40"
definition NEGATIVE :: status where "NEGATIVE = 0x80"

definition p_contains :: "status \<Rightarrow> status \<Rightarrow> bool" where
  "p_contains p f \<longleftrightarrow> p AND f = f"

definition p_insert :: "status \<Rightarrow> status \<Rightarrow> status" where
  "p_insert p f = p OR f"

definition p_remove :: "status \<Rightarrow> status \<Rightarrow> status" where
  "p_remove p f = p AND NOT f"

definition p_set :: "status \<Rightarrow> status \<Rightarrow> bool \<Rightarrow> status" where
  "p_set p f b = (if b then p_insert p f else p_remove p f)"

definition from_bits_truncate :: "u8 \<Rightarrow> status" where
  "from_bits_truncate v = v AND (CARRY OR ZERO OR INTERRUPT_DISABLE OR DECIMAL OR BREAK OR UNUSED
     OR OVERFLOW OR NEGATIVE)"

definition status_power_on :: status where
  "status_power_on = from_bits_truncate (INTERRUPT_DISABLE OR UNUSED)"

definition set_nz :: "u8 \<Rightarrow> status \<Rightarrow> status" where
  "set_nz v p = p_set (p_set p ZERO (v = 0)) NEGATIVE (v AND 0x80 \<noteq> 0)"

lemmas flag_defs = CARRY_def ZERO_def INTERRUPT_DISABLE_def DECIMAL_def BREAK_def UNUSED_def
  OVERFLOW_def NEGATIVE_def

subsection \<open>Flags are bits\<close>

lemma word8_all: "(w :: u8) = v \<longleftrightarrow>
    bit w 0 = bit v 0 \<and> bit w 1 = bit v 1 \<and> bit w 2 = bit v 2 \<and> bit w 3 = bit v 3 \<and>
    bit w 4 = bit v 4 \<and> bit w 5 = bit v 5 \<and> bit w 6 = bit v 6 \<and> bit w 7 = bit v 7"
proof
  assume r: "bit w 0 = bit v 0 \<and> bit w 1 = bit v 1 \<and> bit w 2 = bit v 2 \<and> bit w 3 = bit v 3 \<and>
    bit w 4 = bit v 4 \<and> bit w 5 = bit v 5 \<and> bit w 6 = bit v 6 \<and> bit w 7 = bit v 7"
  show "w = v"
  proof (rule bit_word_eqI)
    fix n assume "n < LENGTH(8)"
    then have "n \<in> {7, 6, 5, 4, 3, 2, 1, 0}"
      unfolding insert_iff empty_iff by simp presburger
    with r show "bit w n = bit v n" by auto
  qed
qed simp

lemma bit_flag [simp]:
  "bit CARRY n \<longleftrightarrow> n = 0" "bit ZERO n \<longleftrightarrow> n = 1" "bit INTERRUPT_DISABLE n \<longleftrightarrow> n = 2"
  "bit DECIMAL n \<longleftrightarrow> n = 3" "bit BREAK n \<longleftrightarrow> n = 4" "bit UNUSED n \<longleftrightarrow> n = 5"
  "bit OVERFLOW n \<longleftrightarrow> n = 6" "bit NEGATIVE n \<longleftrightarrow> n = 7"
proof -
  have pow: "bit (push_bit k 1 :: u8) n \<longleftrightarrow> n = k" if "k < 8" for k
    using that by (auto simp: bit_simps)
  show "bit CARRY n \<longleftrightarrow> n = 0" "bit ZERO n \<longleftrightarrow> n = 1" "bit INTERRUPT_DISABLE n \<longleftrightarrow> n = 2"
    "bit DECIMAL n \<longleftrightarrow> n = 3" "bit BREAK n \<longleftrightarrow> n = 4" "bit UNUSED n \<longleftrightarrow> n = 5"
    "bit OVERFLOW n \<longleftrightarrow> n = 6" "bit NEGATIVE n \<longleftrightarrow> n = 7"
    using pow [of 0] pow [of 1] pow [of 2] pow [of 3] pow [of 4] pow [of 5] pow [of 6] pow [of 7]
    by (simp_all add: flag_defs)
qed

lemma p_contains_bit [simp]:
  "p_contains p CARRY = bit p 0" "p_contains p ZERO = bit p 1"
  "p_contains p INTERRUPT_DISABLE = bit p 2" "p_contains p DECIMAL = bit p 3"
  "p_contains p BREAK = bit p 4" "p_contains p UNUSED = bit p 5"
  "p_contains p OVERFLOW = bit p 6" "p_contains p NEGATIVE = bit p 7"
  by (auto simp: p_contains_def word8_all bit_and_iff)

lemma bit_p_insert [simp]: "bit (p_insert p f) n \<longleftrightarrow> bit p n \<or> bit f n"
  by (simp add: p_insert_def bit_or_iff)

lemma bit_p_remove [simp]: "n < 8 \<Longrightarrow> bit (p_remove p f) n \<longleftrightarrow> bit p n \<and> \<not> bit f n"
  by (simp add: p_remove_def bit_and_iff bit_not_iff)

lemma bit_p_set [simp]:
  "n < 8 \<Longrightarrow> bit (p_set p f b) n \<longleftrightarrow> (if bit f n then b else bit p n)"
  by (auto simp: p_set_def)

lemma from_bits_truncate_id [simp]: "from_bits_truncate v = v"
  by (simp add: from_bits_truncate_def flag_defs word8_all bit_and_iff)

lemma and_0x80_bit [simp]: "v AND 0x80 = 0 \<longleftrightarrow> \<not> bit v 7" for v :: u8
  by (simp add: word8_all bit_and_iff NEGATIVE_def [symmetric])

lemma and_0x40_bit [simp]: "v AND 0x40 = 0 \<longleftrightarrow> \<not> bit v 6" for v :: u8
  by (simp add: word8_all bit_and_iff OVERFLOW_def [symmetric])

lemma and_0x20_bit [simp]: "v AND 0x20 = 0 \<longleftrightarrow> \<not> bit v 5" for v :: u8
  by (simp add: word8_all bit_and_iff UNUSED_def [symmetric])

lemma bit_set_nz [simp]:
  "n < 8 \<Longrightarrow> bit (set_nz v p) n \<longleftrightarrow> (if n = 1 then v = 0 else if n = 7 then bit v 7 else bit p n)"
  by (auto simp: set_nz_def)

text \<open>The stored register never holds \<open>BREAK\<close> and always reads \<open>UNUSED\<close> as 1.\<close>

definition p_ok :: "status \<Rightarrow> bool" where
  "p_ok p \<longleftrightarrow> p_contains p UNUSED \<and> \<not> p_contains p BREAK"

lemma p_ok_power_on: "p_ok status_power_on"
  by (simp add: p_ok_def status_power_on_def bit_or_iff)

lemma p_ok_simps [simp]:
  "p_ok (set_nz v p) = p_ok p"
  "p_ok (p_set p CARRY b) = p_ok p" "p_ok (p_set p ZERO b) = p_ok p"
  "p_ok (p_set p OVERFLOW b) = p_ok p" "p_ok (p_set p NEGATIVE b) = p_ok p"
  "p_ok (p_insert p CARRY) = p_ok p" "p_ok (p_insert p DECIMAL) = p_ok p"
  "p_ok (p_insert p INTERRUPT_DISABLE) = p_ok p"
  "p_ok (p_remove p CARRY) = p_ok p" "p_ok (p_remove p DECIMAL) = p_ok p"
  "p_ok (p_remove p INTERRUPT_DISABLE) = p_ok p" "p_ok (p_remove p OVERFLOW) = p_ok p"
  "p_ok (p_insert (p_remove v BREAK) UNUSED)"
  by (auto simp: p_ok_def)

end
