(* ===== verification/Thumb_State.thy ===== *)
theory Thumb_State
  imports Complex_Main Status
begin

text \<open>
  The state of the ARM7TDMI coprocessor (\<open>crates/rusty2600-thumb/src\<close>): the condition flags
  (\<open>status.rs\<close>), the memory accelerator registers (\<open>mam.rs\<close>), the cycle bookkeeping
  (\<open>cycles.rs\<close>), the memory interface a cartridge supplies and the accesses made through it
  (\<open>memory.rs\<close>). A \<open>Result\<close> of the source is a sum, \<open>Inl\<close> the fault; a mutable slice handed
  out by \<open>map\<close> is its bytes, its origin and the function that puts changed bytes back.
\<close>

subsection \<open>Single-precision numbers\<close>

text \<open>
  The cycle counter is an \<open>f32\<close>. Its values are small, so a number is the rational it stands
  for and every operation rounds its exact result to 24 significant bits, ties to even.
\<close>

type_synonym f32 = rat

fun bit_count :: "nat \<Rightarrow> nat" where
  "bit_count n = (if n = 0 then 0 else Suc (bit_count (n div 2)))"

declare bit_count.simps [simp del]

definition round_half_even :: "rat \<Rightarrow> int" where
  "round_half_even x = (let f = \<lfloor>x\<rfloor>; d = x - of_int f
     in if d < 1 / 2 then f else if d > 1 / 2 then f + 1 else if even f then f else f + 1)"

definition f32_round :: "rat \<Rightarrow> f32" where
  "f32_round x = (if x = 0 then 0 else (let
     (p, q) = quotient_of x;
     e = int (bit_count (nat \<bar>p\<bar>)) - int (bit_count (nat q));
     e = (if \<bar>x\<bar> < 2 powi e then e - 1 else e);
     ulp = 2 powi (e - 23)
   in of_int (round_half_even (x / ulp)) * ulp))"

definition f32_add :: "f32 \<Rightarrow> f32 \<Rightarrow> f32" where "f32_add x y = f32_round (x + y)"
definition f32_sub :: "f32 \<Rightarrow> f32 \<Rightarrow> f32" where "f32_sub x y = f32_round (x - y)"
definition f32_mul :: "f32 \<Rightarrow> f32 \<Rightarrow> f32" where "f32_mul x y = f32_round (x * y)"

text \<open>\<open>x as u32\<close>: truncation, saturating at the ends of the type.\<close>

definition f32_as_u32 :: "f32 \<Rightarrow> u32" where
  "f32_as_u32 x = (if x \<le> 0 then 0 else if x \<ge> 4294967295 then 0xFFFFFFFF else of_int \<lfloor>x\<rfloor>)"

subsection \<open>Condition flags\<close>

definition T_NEGATIVE :: status where "T_NEGATIVE = 0b0001"
definition T_ZERO :: status where "T_ZERO = 0b0010"
definition T_CARRY :: status where "T_CARRY = 0b0100"
definition T_OVERFLOW :: status where "T_OVERFLOW = 0b1000"

lemmas t_flag_defs = T_NEGATIVE_def T_ZERO_def T_CARRY_def T_OVERFLOW_def

definition t_set_nz :: "u32 \<Rightarrow> status \<Rightarrow> status" where
  "t_set_nz r p = p_set (p_set p T_NEGATIVE (r AND 0x80000000 \<noteq> 0)) T_ZERO (r = 0)"

definition set_add_flags :: "u32 \<Rightarrow> u32 \<Rightarrow> u32 \<Rightarrow> status \<Rightarrow> status" where
  "set_add_flags a b carry_in p = (let
     carry_into_msb = drop_bit 31 ((a AND 0x7FFFFFFF) + (b AND 0x7FFFFFFF) + carry_in);
     sign_sum = carry_into_msb + drop_bit 31 a + drop_bit 31 b;
     carry_out_of_msb = (sign_sum AND 0x02 = 0x02);
     p = p_set p T_CARRY carry_out_of_msb
   in p_set p T_OVERFLOW ((carry_into_msb XOR of_bool carry_out_of_msb) AND 1 = 1))"

text \<open>The arm of the reserved code \<open>0b1111\<close> is \<open>unreachable!()\<close>.\<close>

definition condition :: "u8 \<Rightarrow> status \<Rightarrow> bool option" where
  "condition cond p = (let
     n = p_contains p T_NEGATIVE; z = p_contains p T_ZERO;
     c = p_contains p T_CARRY; v = p_contains p T_OVERFLOW
   in if cond = 0b0000 then Some z
      else if cond = 0b0001 then Some (\<not> z)
      else if cond = 0b0010 then Some c
      else if cond = 0b0011 then Some (\<not> c)
      else if cond = 0b0100 then Some n
      else if cond = 0b0101 then Some (\<not> n)
      else if cond = 0b0110 then Some v
      else if cond = 0b0111 then Some (\<not> v)
      else if cond = 0b1000 then Some (c \<and> \<not> z)
      else if cond = 0b1001 then Some (\<not> c \<or> z)
      else if cond = 0b1010 then Some (n = v)
      else if cond = 0b1011 then Some (n \<noteq> v)
      else if cond = 0b1100 then Some (\<not> z \<and> n = v)
      else if cond = 0b1101 then Some (z \<or> n \<noteq> v)
      else if cond = 0b1110 then Some True
      else None)"

subsection \<open>The memory accelerator\<close>

datatype mam_mode = Disabled | Partial | Full

definition mam_from_bits :: "u32 \<Rightarrow> mam_mode" where
  "mam_from_bits v = (if v = 1 then Partial else if v = 2 then Full else Disabled)"

fun mam_to_bits :: "mam_mode \<Rightarrow> u32" where
  "mam_to_bits Disabled = 0"
| "mam_to_bits Partial = 1"
| "mam_to_bits Full = 2"

record mam =
  mam_mode :: mam_mode
  mam_mamtim :: u32
  mam_prefetch_latch :: u32
  mam_data_latch :: u32
  mam_branch_latch :: u32
  mam_prefetch_aborted :: bool

definition mam_default :: mam where
  "mam_default = \<lparr>mam_mode = Disabled, mam_mamtim = 0, mam_prefetch_latch = 0, mam_data_latch = 0,
     mam_branch_latch = 0, mam_prefetch_aborted = False\<rparr>"

definition MAMCR_ADDR :: u32 where "MAMCR_ADDR = 0xE01FC000"
definition MAMTIM_ADDR :: u32 where "MAMTIM_ADDR = 0xE01FC004"

definition mam_read :: "u32 \<Rightarrow> mam \<Rightarrow> u32 option" where
  "mam_read addr m = (if addr = MAMCR_ADDR then Some (mam_to_bits (mam_mode m))
     else if addr = MAMTIM_ADDR then Some (mam_mamtim m) else None)"

definition mam_write :: "u32 \<Rightarrow> u32 \<Rightarrow> mam \<Rightarrow> bool \<times> mam" where
  "mam_write addr v m = (if addr = MAMCR_ADDR then (True, m\<lparr>mam_mode := mam_from_bits v\<rparr>)
     else if addr = MAMTIM_ADDR then (True, m\<lparr>mam_mamtim := v\<rparr>) else (False, m))"

subsection \<open>The processor\<close>

datatype cycle_type = CycleN | CycleS | CycleI

datatype bus_access = Prefetch | Branch | DataRead | DataWrite

fun is_data_access :: "bus_access \<Rightarrow> bool" where
  "is_data_access Prefetch = False"
| "is_data_access Branch = False"
| "is_data_access DataRead = True"
| "is_data_access DataWrite = True"

datatype branch_trail = NotUsed | Used | Flushed

record cycle_state =
  cs_stretched_cycles :: f32
  cs_last_cycle :: "cycle_type option"
  cs_prefetch_cycle :: cycle_type
  cs_branch_trail :: branch_trail
  cs_merged_is :: bool

definition cycle_state_default :: cycle_state where
  "cycle_state_default = \<lparr>cs_stretched_cycles = 0, cs_last_cycle = None, cs_prefetch_cycle = CycleS,
     cs_branch_trail = NotUsed, cs_merged_is = False\<rparr>"

datatype fault = IllegalAddress u32 | UnimplementedPeripheral u32 | NullDereference u32 | Misaligned u32

record 'm thumb_memory =
  tm_map :: "u32 \<Rightarrow> bool \<Rightarrow> bool \<Rightarrow> 'm \<Rightarrow> (u8 list \<times> u32 \<times> (u8 list \<Rightarrow> 'm)) option"
  tm_reset_vectors :: "'m \<Rightarrow> u32 \<times> u32 \<times> u32"
  tm_is_executable :: "u32 \<Rightarrow> 'm \<Rightarrow> bool"
  tm_null_access_boundary :: "'m \<Rightarrow> u32"
  tm_tolerates_misaligned_access :: "'m \<Rightarrow> bool"

text \<open>The default methods of the trait, for an implementation that supplies the first three.\<close>

definition default_thumb_memory where
  "default_thumb_memory mp rv ex = \<lparr>tm_map = mp, tm_reset_vectors = rv, tm_is_executable = ex,
     tm_null_access_boundary = (\<lambda>_. 0), tm_tolerates_misaligned_access = (\<lambda>_. False)\<rparr>"

record 'm arm7 =
  arm_registers :: "u32 list"
  arm_status :: status
  arm_mam :: mam
  arm_cycles :: cycle_state
  arm_instruction_pc :: u32
  arm_expected_return_address :: u32
  arm_mem :: 'm

definition NUM_REGISTERS :: nat where "NUM_REGISTERS = 16"
definition REG_SP :: nat where "REG_SP = 13"
definition REG_LR :: nat where "REG_LR = 14"
definition REG_PC :: nat where "REG_PC = 15"

definition get_reg :: "nat \<Rightarrow> 'm arm7 \<Rightarrow> u32 option" where
  "get_reg i a = nth_chk (arm_registers a) i"

definition set_reg :: "nat \<Rightarrow> u32 \<Rightarrow> 'm arm7 \<Rightarrow> 'm arm7 option" where
  "set_reg i v a = do { r \<leftarrow> upd_chk (arm_registers a) i v; Some (a\<lparr>arm_registers := r\<rparr>) }"

text \<open>\<open>register\<close> and \<open>set_register\<close>, the accesses of a host, see the address of the next instruction.\<close>

definition register :: "nat \<Rightarrow> 'm arm7 \<Rightarrow> u32 option" where
  "register i a = (if i = REG_PC then do { v \<leftarrow> get_reg i a; Some (v - 2) } else get_reg i a)"

definition set_register :: "nat \<Rightarrow> u32 \<Rightarrow> 'm arm7 \<Rightarrow> 'm arm7 option" where
  "set_register i v a = (if i = REG_PC then set_reg i (v + 2) a else set_reg i v a)"

definition arm_reset :: "'m thumb_memory \<Rightarrow> 'm arm7 \<Rightarrow> 'm arm7 option" where
  "arm_reset M a = do {
     let a = a\<lparr>arm_registers := replicate NUM_REGISTERS 0, arm_status := 0\<rparr>;
     let (sp, lr, pc) = tm_reset_vectors M (arm_mem a);
     a \<leftarrow> set_reg REG_SP sp a;
     a \<leftarrow> set_reg REG_LR lr a;
     a \<leftarrow> set_reg REG_PC (pc + 2) a;
     Some (a\<lparr>arm_expected_return_address := (lr + 2) AND NOT 1, arm_instruction_pc := pc\<rparr>) }"

definition arm_new :: "'m thumb_memory \<Rightarrow> 'm \<Rightarrow> 'm arm7 option" where
  "arm_new M m = arm_reset M \<lparr>arm_registers = replicate NUM_REGISTERS 0, arm_status = 0,
     arm_mam = mam_default, arm_cycles = cycle_state_default, arm_instruction_pc = 0,
     arm_expected_return_address = 0, arm_mem = m\<rparr>"

definition with_status :: "(status \<Rightarrow> status) \<Rightarrow> 'm arm7 \<Rightarrow> 'm arm7" where
  "with_status f a = a\<lparr>arm_status := f (arm_status a)\<rparr>"

definition with_mam :: "(mam \<Rightarrow> mam) \<Rightarrow> 'm arm7 \<Rightarrow> 'm arm7" where
  "with_mam f a = a\<lparr>arm_mam := f (arm_mam a)\<rparr>"

definition with_cycles :: "(cycle_state \<Rightarrow> cycle_state) \<Rightarrow> 'm arm7 \<Rightarrow> 'm arm7" where
  "with_cycles f a = a\<lparr>arm_cycles := f (arm_cycles a)\<rparr>"

subsection \<open>Cycle accounting\<close>

definition FLAT_REGION_LENGTH :: f32 where "FLAT_REGION_LENGTH = 1"

definition stretch :: "f32 \<Rightarrow> 'm arm7 \<Rightarrow> 'm arm7" where
  "stretch x = with_cycles (\<lambda>c. c\<lparr>cs_stretched_cycles := f32_add (cs_stretched_cycles c) x\<rparr>)"

definition cycles_begin_instruction :: "'m arm7 \<Rightarrow> 'm arm7" where
  "cycles_begin_instruction = with_cycles (\<lambda>c. c\<lparr>cs_stretched_cycles := 0,
     cs_branch_trail := NotUsed, cs_merged_is := False\<rparr>)"

definition cycles_end_instruction :: "'m arm7 \<Rightarrow> u32" where
  "cycles_end_instruction a = f32_as_u32 (f32_add (cs_stretched_cycles (arm_cycles a)) (1 / 2))"

definition is_latched :: "cycle_type \<Rightarrow> bus_access \<Rightarrow> u32 \<Rightarrow> 'm arm7 \<Rightarrow> bool \<times> 'm arm7" where
  "is_latched cycle bus addr a = (let latch = addr AND 0xFFFFFF80 in
     case bus of
       Prefetch \<Rightarrow>
         if latch = mam_prefetch_latch (arm_mam a) then (True, a)
         else (cycle = CycleS \<and> \<not> mam_prefetch_aborted (arm_mam a),
               with_mam (\<lambda>m. m\<lparr>mam_prefetch_latch := latch\<rparr>) a)
     | Branch \<Rightarrow>
         if latch = mam_branch_latch (arm_mam a)
         then (True, with_cycles (\<lambda>c. c\<lparr>cs_branch_trail := Used\<rparr>) a)
         else (False, with_cycles (\<lambda>c. c\<lparr>cs_branch_trail := Flushed\<rparr>)
                 (with_mam (\<lambda>m. m\<lparr>mam_branch_latch := latch\<rparr>) a))
     | DataRead \<Rightarrow>
         if latch = mam_data_latch (arm_mam a) then (True, a)
         else (False, with_mam (\<lambda>m. m\<lparr>mam_data_latch := latch\<rparr>) a)
     | DataWrite \<Rightarrow> (False, with_mam (\<lambda>m. m\<lparr>mam_data_latch := 0\<rparr>) a))"

definition icycle :: "'m arm7 \<Rightarrow> 'm arm7" where
  "icycle a = with_mam (\<lambda>m. m\<lparr>mam_prefetch_aborted := False\<rparr>)
     (with_cycles (\<lambda>c. c\<lparr>cs_last_cycle := Some CycleI\<rparr>) (stretch 1 a))"

definition scycle :: "bus_access \<Rightarrow> u32 \<Rightarrow> 'm arm7 \<Rightarrow> 'm arm7" where
  "scycle bus addr a = (let
     a = with_mam (\<lambda>m. m\<lparr>mam_prefetch_aborted := is_data_access bus\<rparr>) a;
     a = (if cs_last_cycle (arm_cycles a) = Some CycleI
          then with_cycles (\<lambda>c. c\<lparr>cs_stretched_cycles := f32_sub (cs_stretched_cycles c) 1,
                 cs_merged_is := True\<rparr>) a
          else a);
     a = with_cycles (\<lambda>c. c\<lparr>cs_last_cycle := Some CycleS\<rparr>) a
   in case mam_mode (arm_mam a) of
        Disabled \<Rightarrow> stretch FLAT_REGION_LENGTH a
      | Partial \<Rightarrow>
          if is_data_access bus then stretch FLAT_REGION_LENGTH a
          else (let (l, a) = is_latched CycleS bus addr a
                in if l then stretch 1 a else stretch FLAT_REGION_LENGTH a)
      | Full \<Rightarrow>
          (let (l, a) = is_latched CycleS bus addr a
           in if l then stretch 1 a else stretch FLAT_REGION_LENGTH a))"

definition ncycle :: "bus_access \<Rightarrow> u32 \<Rightarrow> 'm arm7 \<Rightarrow> 'm arm7" where
  "ncycle bus addr a = (let
     a = with_mam (\<lambda>m. m\<lparr>mam_prefetch_aborted := is_data_access bus\<rparr>) a;
     (mclk_flash, mclk_non_flash) =
       (if cs_last_cycle (arm_cycles a) = Some CycleN then (f32_round (13 / 10), f32_round (18 / 10))
        else (1, 1));
     a = with_cycles (\<lambda>c. c\<lparr>cs_last_cycle := Some CycleN\<rparr>) a
   in case mam_mode (arm_mam a) of
        Full \<Rightarrow>
          (let (l, a) = is_latched CycleN bus addr a
           in if l then stretch mclk_non_flash a else stretch (f32_mul FLAT_REGION_LENGTH mclk_flash) a)
      | _ \<Rightarrow> stretch (f32_mul FLAT_REGION_LENGTH mclk_flash) a)"

definition store_register_cycles :: "u32 \<Rightarrow> 'm arm7 \<Rightarrow> 'm arm7" where
  "store_register_cycles addr a =
     with_cycles (\<lambda>c. c\<lparr>cs_prefetch_cycle := CycleN\<rparr>) (ncycle DataWrite addr a)"

definition fill_pipeline :: "'m arm7 \<Rightarrow> 'm arm7 option" where
  "fill_pipeline a = do {
     pc \<leftarrow> get_reg REG_PC a;
     Some (scycle Prefetch (pc + 2) (ncycle Branch pc a)) }"

subsection \<open>Memory accesses\<close>

text \<open>The \<open>?\<close> of the source on a \<open>Result\<close>.\<close>

definition try_ok :: "fault + 'a \<Rightarrow> ('a \<Rightarrow> fault + 'b) \<Rightarrow> fault + 'b" where
  "try_ok r k = (case r of Inl e \<Rightarrow> Inl e | Inr v \<Rightarrow> k v)"

definition check_null :: "'m thumb_memory \<Rightarrow> u32 \<Rightarrow> 'm arm7 \<Rightarrow> fault + unit" where
  "check_null M addr a =
     (if addr < tm_null_access_boundary M (arm_mem a) then Inl (NullDereference addr) else Inr ())"

definition check_alignment :: "'m thumb_memory \<Rightarrow> u32 \<Rightarrow> u32 \<Rightarrow> 'm arm7 \<Rightarrow> fault + u32" where
  "check_alignment M addr align a =
     (if addr AND (align - 1) = 0 then Inr addr
      else if tm_tolerates_misaligned_access M (arm_mem a) then Inr addr
      else Inl (Misaligned addr))"

definition aligned :: "'m thumb_memory \<Rightarrow> u32 \<Rightarrow> u32 \<Rightarrow> bool \<Rightarrow> 'm arm7 \<Rightarrow> fault + u32" where
  "aligned M addr align requires_alignment a =
     (if requires_alignment \<or> \<not> tm_tolerates_misaligned_access M (arm_mem a)
      then check_alignment M addr align a else Inr addr)"

definition peripheral_read :: "u32 \<Rightarrow> 'm arm7 \<Rightarrow> fault + u32" where
  "peripheral_read addr a = (case mam_read addr (arm_mam a) of
     Some v \<Rightarrow> Inr v | None \<Rightarrow> Inl (IllegalAddress addr))"

definition peripheral_write :: "u32 \<Rightarrow> u32 \<Rightarrow> 'm arm7 \<Rightarrow> fault + 'm arm7" where
  "peripheral_write addr v a = (let (known, m) = mam_write addr v (arm_mam a)
     in if known then Inr (a\<lparr>arm_mam := m\<rparr>) else Inl (IllegalAddress addr))"

definition le32 :: "u8 \<Rightarrow> u8 \<Rightarrow> u8 \<Rightarrow> u8 \<Rightarrow> u32" where
  "le32 b0 b1 b2 b3 = ucast b0 OR push_bit 8 (ucast b1) OR push_bit 16 (ucast b2) OR push_bit 24 (ucast b3)"

definition byte_of :: "nat \<Rightarrow> 'a::len word \<Rightarrow> u8" where
  "byte_of i w = ucast (drop_bit (8 * i) w)"

definition read8 :: "'m thumb_memory \<Rightarrow> u32 \<Rightarrow> 'm arm7 \<Rightarrow> fault + u8" where
  "read8 M addr a = try_ok (check_null M addr a) (\<lambda>_.
     case tm_map M addr False False (arm_mem a) of
       Some (bytes, origin, put) \<Rightarrow>
         (let idx = unat (addr - origin)
          in if idx < length bytes then Inr (bytes ! idx) else Inl (IllegalAddress addr))
     | None \<Rightarrow> try_ok (peripheral_read addr a) (\<lambda>v. Inr (ucast v)))"

definition write8 :: "'m thumb_memory \<Rightarrow> u32 \<Rightarrow> u8 \<Rightarrow> 'm arm7 \<Rightarrow> fault + 'm arm7" where
  "write8 M addr v a = try_ok (check_null M addr a) (\<lambda>_.
     case tm_map M addr True False (arm_mem a) of
       Some (bytes, origin, put) \<Rightarrow>
         (let idx = unat (addr - origin)
          in if idx < length bytes then Inr (a\<lparr>arm_mem := put (bytes[idx := v])\<rparr>)
             else Inl (IllegalAddress addr))
     | None \<Rightarrow> peripheral_write addr (ucast v) a)"

definition read16 :: "'m thumb_memory \<Rightarrow> u32 \<Rightarrow> bool \<Rightarrow> 'm arm7 \<Rightarrow> fault + u16" where
  "read16 M addr requires_alignment a = try_ok (check_null M addr a) (\<lambda>_.
     try_ok (aligned M addr 2 requires_alignment a) (\<lambda>addr.
     case tm_map M addr False False (arm_mem a) of
       Some (bytes, origin, put) \<Rightarrow>
         (let idx = unat (addr - origin)
          in if idx + 2 \<le> length bytes then Inr (le16 (bytes ! idx) (bytes ! (idx + 1)))
             else Inl (IllegalAddress addr))
     | None \<Rightarrow> try_ok (peripheral_read addr a) (\<lambda>v. Inr (ucast v))))"

definition write16 :: "'m thumb_memory \<Rightarrow> u32 \<Rightarrow> u16 \<Rightarrow> bool \<Rightarrow> 'm arm7 \<Rightarrow> fault + 'm arm7" where
  "write16 M addr v requires_alignment a = try_ok (check_null M addr a) (\<lambda>_.
     try_ok (aligned M addr 2 requires_alignment a) (\<lambda>addr.
     case tm_map M addr True False (arm_mem a) of
       Some (bytes, origin, put) \<Rightarrow>
         (let idx = unat (addr - origin)
          in if idx + 2 \<le> length bytes
             then Inr (a\<lparr>arm_mem := put (bytes[idx := byte_of 0 v, idx + 1 := byte_of 1 v])\<rparr>)
             else Inl (IllegalAddress addr))
     | None \<Rightarrow> peripheral_write addr (ucast v) a))"

definition read32 :: "'m thumb_memory \<Rightarrow> u32 \<Rightarrow> bool \<Rightarrow> 'm arm7 \<Rightarrow> fault + u32" where
  "read32 M addr requires_alignment a = try_ok (check_null M addr a) (\<lambda>_.
     try_ok (aligned M addr 4 requires_alignment a) (\<lambda>addr.
     case tm_map M addr False False (arm_mem a) of
       Some (bytes, origin, put) \<Rightarrow>
         (let idx = unat (addr - origin)
          in if idx + 4 \<le> length bytes
             then Inr (le32 (bytes ! idx) (bytes ! (idx + 1)) (bytes ! (idx + 2)) (bytes ! (idx + 3)))
             else Inl (IllegalAddress addr))
     | None \<Rightarrow> peripheral_read addr a))"

definition write32 :: "'m thumb_memory \<Rightarrow> u32 \<Rightarrow> u32 \<Rightarrow> bool \<Rightarrow> 'm arm7 \<Rightarrow> fault + 'm arm7" where
  "write32 M addr v requires_alignment a = try_ok (check_null M addr a) (\<lambda>_.
     try_ok (aligned M addr 4 requires_alignment a) (\<lambda>addr.
     case tm_map M addr True False (arm_mem a) of
       Some (bytes, origin, put) \<Rightarrow>
         (let idx = unat (addr - origin)
          in if idx + 4 \<le> length bytes
             then Inr (a\<lparr>arm_mem := put (bytes[idx := byte_of 0 v, idx + 1 := byte_of 1 v,
                    idx + 2 := byte_of 2 v, idx + 3 := byte_of 3 v])\<rparr>)
             else Inl (IllegalAddress addr))
     | None \<Rightarrow> peripheral_write addr v a))"

end
