(* ===== verification/Thumb_Exec.thy ===== *)
theory Thumb_Exec
  imports Thumb_State
begin

text \<open>
  Decoding and execution of the Thumb-1 instructions (\<open>crates/rusty2600-thumb/src/thumb.rs\<close>), one
  definition per instruction format, and the single step of \<open>lib.rs\<close>. A handler returns the
  source's \<open>StepResult\<close> beside the changed processor, since a fault does not undo what came before
  it; \<open>None\<close> would be a panic.
\<close>

type_synonym 'm exec = "'m arm7 \<Rightarrow> ((fault + unit option) \<times> 'm arm7) option"

text \<open>\<open>Ok(Some(()))\<close>, and the \<open>?\<close> of a read or a write.\<close>

definition normal :: "'m exec" where
  "normal a = Some (Inr (Some ()), a)"

definition on_ok :: "fault + 'a \<Rightarrow> 'm arm7 \<Rightarrow> ('a \<Rightarrow> ((fault + 'b) \<times> 'm arm7) option) \<Rightarrow>
    ((fault + 'b) \<times> 'm arm7) option" where
  "on_ok r a k = (case r of Inl f \<Rightarrow> Some (Inl f, a) | Inr v \<Rightarrow> k v)"

text \<open>\<open>usize::from((opcode & mask) >> sh)\<close>, the register and operation fields of an opcode.\<close>

definition op_field :: "u16 \<Rightarrow> u16 \<Rightarrow> nat \<Rightarrow> nat" where
  "op_field opcode msk sh = unat (drop_bit sh (opcode AND msk))"

definition align_to_32bits :: "u32 \<Rightarrow> u32" where
  "align_to_32bits v = v AND 0xFFFFFFFC"

definition go_shl :: "u32 \<Rightarrow> u32 \<Rightarrow> u32" where
  "go_shl v n = (if n \<ge> 32 then 0 else push_bit (unat n) v)"

definition set_carry :: "bool \<Rightarrow> 'm arm7 \<Rightarrow> 'm arm7" where
  "set_carry b = with_status (\<lambda>p. p_set p T_CARRY b)"

text \<open>\<open>src_val & m == m\<close>\<close>

definition has_bits :: "u32 \<Rightarrow> u32 \<Rightarrow> bool" where
  "has_bits v m \<longleftrightarrow> v AND m = m"

text \<open>\<open>arm.status.set_nz(arm.registers[i])\<close>\<close>

definition set_nz_reg :: "nat \<Rightarrow> 'm arm7 \<Rightarrow> 'm arm7 option" where
  "set_nz_reg i a = do { v \<leftarrow> get_reg i a; Some (with_status (t_set_nz v) a) }"

subsection \<open>Data processing\<close>

definition asr_bits :: "u32 \<Rightarrow> nat \<Rightarrow> u32" where
  "asr_bits v n = (let a = drop_bit n v
     in if has_bits v 0x80000000 then a OR push_bit (32 - n) 0xFFFFFFFF else a)"

definition move_shifted_register :: "u16 \<Rightarrow> 'm exec" where
  "move_shifted_register opcode a = do {
     let op1 = op_field opcode 0x1800 11;
     let shift = op_field opcode 0x7C0 6;
     let src_reg = op_field opcode 0x38 3;
     let dest_reg = op_field opcode 0x07 0;
     src_val \<leftarrow> get_reg src_reg a;
     a \<leftarrow> (if op1 = 0b00 then
             (if shift = 0 then set_reg dest_reg src_val a
              else set_reg dest_reg (push_bit shift src_val)
                     (set_carry (has_bits src_val (push_bit (32 - shift) 1)) a))
           else if op1 = 0b01 then
             (if shift = 0 then set_reg dest_reg 0 (set_carry (has_bits src_val 0x80000000) a)
              else set_reg dest_reg (drop_bit shift src_val)
                     (set_carry (has_bits src_val (push_bit (shift - 1) 1)) a))
           else if op1 = 0b10 then
             (if shift = 0 then
                (let a = set_carry (has_bits src_val 0x80000000) a
                 in set_reg dest_reg (if p_contains (arm_status a) T_CARRY then 0xFFFFFFFF else 0) a)
              else set_reg dest_reg (asr_bits src_val shift)
                     (set_carry (has_bits src_val (push_bit (shift - 1) 1)) a))
           else None);
     a \<leftarrow> set_nz_reg dest_reg a;
     normal (if shift > 0 then icycle a else a) }"

definition add_subtract :: "u16 \<Rightarrow> 'm exec" where
  "add_subtract opcode a = do {
     let immediate = (opcode AND 0x0400 = 0x0400);
     let subtract = (opcode AND 0x0200 = 0x0200);
     let imm = op_field opcode 0x01C0 6;
     let src_reg = op_field opcode 0x038 3;
     let dest_reg = op_field opcode 0x07 0;
     v \<leftarrow> (if immediate then Some (word_of_nat imm) else get_reg imm a);
     s \<leftarrow> get_reg src_reg a;
     a \<leftarrow> (if subtract then set_reg dest_reg (s - v) (with_status (set_add_flags s (NOT v) 1) a)
           else set_reg dest_reg (s + v) (with_status (set_add_flags s v 0) a));
     a \<leftarrow> set_nz_reg dest_reg a;
     normal a }"

definition mov_cmp_add_sub_imm :: "u16 \<Rightarrow> 'm exec" where
  "mov_cmp_add_sub_imm opcode a = do {
     let op1 = op_field opcode 0x1800 11;
     let dest_reg = op_field opcode 0x0700 8;
     let imm = (ucast (opcode AND 0x00FF) :: u32);
     d \<leftarrow> get_reg dest_reg a;
     a \<leftarrow> (if op1 = 0b00 then do { a \<leftarrow> set_reg dest_reg imm a; set_nz_reg dest_reg a }
           else if op1 = 0b01 then
             Some (with_status (t_set_nz (d - imm)) (with_status (set_add_flags d (NOT imm) 1) a))
           else if op1 = 0b10 then do {
             a \<leftarrow> set_reg dest_reg (d + imm) (with_status (set_add_flags d imm 0) a);
             set_nz_reg dest_reg a }
           else if op1 = 0b11 then do {
             a \<leftarrow> set_reg dest_reg (d - imm) (with_status (set_add_flags d (NOT imm) 1) a);
             set_nz_reg dest_reg a }
           else None);
     normal a }"

text \<open>The three shifts by register of format 4 leave the carry alone when the amount is zero.\<close>

definition lsl_reg :: "nat \<Rightarrow> u32 \<Rightarrow> u32 \<Rightarrow> 'm arm7 \<Rightarrow> 'm arm7 option" where
  "lsl_reg dest_reg d shift a =
     (if shift > 0 \<and> shift < 32 then
        set_reg dest_reg (push_bit (unat shift) d) (set_carry (has_bits d (push_bit (32 - unat shift) 1)) a)
      else if shift = 32 then set_reg dest_reg 0 (set_carry (has_bits d 0x01) a)
      else if shift > 32 then set_reg dest_reg 0 (set_carry False a)
      else Some a)"

definition lsr_reg :: "nat \<Rightarrow> u32 \<Rightarrow> u32 \<Rightarrow> 'm arm7 \<Rightarrow> 'm arm7 option" where
  "lsr_reg dest_reg d shift a =
     (if shift > 0 \<and> shift < 32 then
        set_reg dest_reg (drop_bit (unat shift) d) (set_carry (has_bits d (push_bit (unat shift - 1) 1)) a)
      else if shift = 32 then set_reg dest_reg 0 (set_carry (has_bits d 0x80000000) a)
      else if shift > 32 then set_reg dest_reg 0 (set_carry False a)
      else Some a)"

definition asr_reg :: "nat \<Rightarrow> u32 \<Rightarrow> u32 \<Rightarrow> 'm arm7 \<Rightarrow> 'm arm7 option" where
  "asr_reg dest_reg d shift a =
     (if shift > 0 \<and> shift < 32 then
        set_reg dest_reg (asr_bits d (unat shift)) (set_carry (has_bits d (push_bit (unat shift - 1) 1)) a)
      else if shift \<ge> 32 then
        (let a = set_carry (has_bits d 0x80000000) a
         in set_reg dest_reg (if p_contains (arm_status a) T_CARRY then 0xFFFFFFFF else 0) a)
      else Some a)"

definition ror_reg :: "nat \<Rightarrow> u32 \<Rightarrow> u32 \<Rightarrow> 'm arm7 \<Rightarrow> 'm arm7 option" where
  "ror_reg dest_reg d shift a =
     (if shift AND 0xFF = 0 then Some a
      else if shift AND 0x1F = 0 then Some (set_carry (has_bits d 0x80000000) a)
      else set_reg dest_reg (word_rotr (unat (shift AND 0x1F)) d)
             (set_carry (has_bits d (go_shl 1 (shift - 1))) a))"

definition count_ones :: "'a::len word \<Rightarrow> nat" where
  "count_ones w = length (filter (bit w) [0..<LENGTH('a)])"

text \<open>The multiplier's high bits decide how many internal cycles a product takes.\<close>

definition mul_cycles :: "u32 \<Rightarrow> 'm arm7 \<Rightarrow> 'm arm7" where
  "mul_cycles v a =
     (if count_ones (v AND 0xFFFFFF00) = 0 \<or> count_ones (v AND 0xFFFFFF00) = 24 then icycle a
      else if count_ones (v AND 0xFFFF0000) = 0 \<or> count_ones (v AND 0xFFFF0000) = 16 then icycle (icycle a)
      else if count_ones (v AND 0xFF000000) = 0 \<or> count_ones (v AND 0xFF000000) = 8
        then icycle (icycle (icycle a))
      else icycle (icycle (icycle (icycle a))))"

definition alu_op :: "nat \<Rightarrow> nat \<Rightarrow> u32 \<Rightarrow> u32 \<Rightarrow> 'm arm7 \<Rightarrow> 'm arm7 option" where
  "alu_op op1 dest_reg d s a = (let
     write = (\<lambda>v a. do { a \<leftarrow> set_reg dest_reg v a; set_nz_reg dest_reg a });
     flags = (\<lambda>x y c. with_status (set_add_flags x y c) a);
     carry = p_contains (arm_status a) T_CARRY
   in if op1 = 0b0000 then write (d AND s) a
      else if op1 = 0b0001 then write (d XOR s) a
      else if op1 = 0b0010 then do { a \<leftarrow> lsl_reg dest_reg d s a; set_nz_reg dest_reg a }
      else if op1 = 0b0011 then do { a \<leftarrow> lsr_reg dest_reg d s a; set_nz_reg dest_reg a }
      else if op1 = 0b0100 then do { a \<leftarrow> asr_reg dest_reg d s a; set_nz_reg dest_reg a }
      else if op1 = 0b0101 then (if carry then write (d + s + 1) (flags d s 1) else write (d + s) (flags d s 0))
      else if op1 = 0b0110 then
        (if carry then write (d - s) (flags d (NOT s) 1) else write (d - s - 1) (flags d (NOT s) 0))
      else if op1 = 0b0111 then do { a \<leftarrow> ror_reg dest_reg d s a; set_nz_reg dest_reg a }
      else if op1 = 0b1000 then Some (with_status (t_set_nz (d AND s)) a)
      else if op1 = 0b1001 then write (0 - s) (flags 0 (NOT s) 1)
      else if op1 = 0b1010 then Some (with_status (t_set_nz (d - s)) (flags d (NOT s) 1))
      else if op1 = 0b1011 then Some (with_status (t_set_nz (d + s)) (flags d s 0))
      else if op1 = 0b1100 then write (d OR s) a
      else if op1 = 0b1101 then write (d * s) a
      else if op1 = 0b1110 then write (d AND NOT s) a
      else if op1 = 0b1111 then write (NOT s) a
      else None)"

definition alu_operations :: "u16 \<Rightarrow> 'm exec" where
  "alu_operations opcode a = do {
     let op1 = op_field opcode 0x03C0 6;
     let src_reg = op_field opcode 0x38 3;
     let dest_reg = op_field opcode 0x07 0;
     d \<leftarrow> get_reg dest_reg a;
     s \<leftarrow> get_reg src_reg a;
     a \<leftarrow> alu_op op1 dest_reg d s a;
     let shift = (if op1 = 0b0010 \<or> op1 = 0b0011 \<or> op1 = 0b0100 \<or> op1 = 0b0111 then s else 0);
     normal (if op1 = 0b1101 then mul_cycles s a else if shift > 0 then icycle a else a) }"

definition hi_register_ops :: "u16 \<Rightarrow> 'm exec" where
  "hi_register_ops opcode a = do {
     let op1 = op_field opcode 0x300 8;
     let hi1 = (opcode AND 0x80 = 0x80);
     let hi2 = (opcode AND 0x40 = 0x40);
     let src_reg = op_field opcode 0x38 3 + (if hi2 then 8 else 0);
     let dest_reg = op_field opcode 0x07 0 + (if hi1 then 8 else 0);
     d \<leftarrow> get_reg dest_reg a;
     s \<leftarrow> get_reg src_reg a;
     if op1 = 0b00 then do {
       a \<leftarrow> set_reg dest_reg (if dest_reg = REG_PC then (d + s + 2) AND 0xFFFFFFFE else d + s) a;
       normal a }
     else if op1 = 0b01 then
       normal (with_status (t_set_nz (d - s)) (with_status (set_add_flags d (NOT s) 1) a))
     else if op1 = 0b10 then do {
       a \<leftarrow> set_reg dest_reg (if dest_reg = REG_PC then (s + 2) AND 0xFFFFFFFE else s) a;
       normal a }
     else if op1 = 0b11 then do {
       let thumb_mode = (s AND 0x01 = 0x01);
       let new_pc = (if src_reg = REG_PC then s + 2 else (s + 2) AND 0xFFFFFFFE);
       if thumb_mode then do { a \<leftarrow> set_reg REG_PC new_pc a; normal a }
       else if new_pc = arm_expected_return_address a then Some (Inr None, a)
       else Some (Inl (UnimplementedPeripheral new_pc), a) }
     else None }"

subsection \<open>Loads and stores\<close>

definition load_cycles :: "u32 \<Rightarrow> 'm arm7 \<Rightarrow> 'm arm7" where
  "load_cycles addr a = icycle (ncycle DataRead addr a)"

text \<open>\<open>arm.registers[r] = load?\<close> and its cycles, and a store with its cycles.\<close>

definition load_to :: "nat \<Rightarrow> fault + u32 \<Rightarrow> u32 \<Rightarrow> 'm exec" where
  "load_to r m addr a = on_ok m a (\<lambda>v. do { a \<leftarrow> set_reg r v a; normal (load_cycles addr a) })"

definition stored :: "fault + 'm arm7 \<Rightarrow> u32 \<Rightarrow> 'm exec" where
  "stored m addr a = on_ok m a (\<lambda>a. normal (store_register_cycles addr a))"

definition widened :: "(fault + 'a::len word) \<Rightarrow> fault + u32" where
  "widened m = try_ok m (\<lambda>v. Inr (ucast v))"

definition pc_relative_load :: "'m thumb_memory \<Rightarrow> u16 \<Rightarrow> 'm exec" where
  "pc_relative_load M opcode a = do {
     let dest_reg = op_field opcode 0x0700 8;
     let imm = push_bit 2 (ucast (opcode AND 0x00FF));
     pc \<leftarrow> get_reg REG_PC a;
     let addr = align_to_32bits pc + imm;
     load_to dest_reg (read32 M addr False a) addr a }"

definition load_store_with_register_offset :: "'m thumb_memory \<Rightarrow> u16 \<Rightarrow> 'm exec" where
  "load_store_with_register_offset M opcode a = do {
     let load = (opcode AND 0x0800 = 0x0800);
     let byte_transfer = (opcode AND 0x0400 = 0x0400);
     let r = op_field opcode 0x0007 0;
     base \<leftarrow> get_reg (op_field opcode 0x0038 3) a;
     offset \<leftarrow> get_reg (op_field opcode 0x01C0 6) a;
     let addr = base + offset;
     v \<leftarrow> get_reg r a;
     if load then
       (if byte_transfer then load_to r (widened (read8 M addr a)) addr a
        else load_to r (read32 M addr False a) addr a)
     else if byte_transfer then stored (write8 M addr (ucast v) a) addr a
     else stored (write32 M addr v False a) addr a }"

definition load_store_sign_extended :: "'m thumb_memory \<Rightarrow> u16 \<Rightarrow> 'm exec" where
  "load_store_sign_extended M opcode a = do {
     let hi = (opcode AND 0x0800 = 0x0800);
     let sign = (opcode AND 0x0400 = 0x0400);
     let r = op_field opcode 0x0007 0;
     base \<leftarrow> get_reg (op_field opcode 0x0038 3) a;
     offset \<leftarrow> get_reg (op_field opcode 0x01C0 6) a;
     let addr = base + offset;
     v \<leftarrow> get_reg r a;
     if sign then
       (if hi then
          load_to r (try_ok (widened (read16 M addr False a))
            (\<lambda>v. Inr (if v AND 0x8000 = 0x8000 then v OR 0xFFFF0000 else v))) addr a
        else
          load_to r (try_ok (widened (read8 M addr a))
            (\<lambda>v. Inr (if v AND 0x0080 = 0x0080 then v OR 0xFFFFFF00 else v))) addr a)
     else if hi then load_to r (widened (read16 M addr False a)) addr a
     else stored (write16 M addr (ucast v) False a) addr a }"

definition load_store_with_imm_offset :: "'m thumb_memory \<Rightarrow> u16 \<Rightarrow> 'm exec" where
  "load_store_with_imm_offset M opcode a = do {
     let load = (opcode AND 0x0800 = 0x0800);
     let byte_transfer = (opcode AND 0x1000 = 0x1000);
     let offset = (ucast (drop_bit 6 (opcode AND 0x07C0)) :: u32);
     let r = op_field opcode 0x0007 0;
     base \<leftarrow> get_reg (op_field opcode 0x0038 3) a;
     let addr = base + (if \<not> byte_transfer then push_bit 2 offset else offset);
     v \<leftarrow> get_reg r a;
     if load then
       (if byte_transfer then load_to r (widened (read8 M addr a)) addr a
        else load_to r (read32 M addr False a) addr a)
     else if byte_transfer then stored (write8 M addr (ucast v) a) addr a
     else stored (write32 M addr v False a) addr a }"

definition load_store_halfword :: "'m thumb_memory \<Rightarrow> u16 \<Rightarrow> 'm exec" where
  "load_store_halfword M opcode a = do {
     let load = (opcode AND 0x0800 = 0x0800);
     let offset = push_bit 1 (ucast (drop_bit 6 (opcode AND 0x07C0)) :: u32);
     let r = op_field opcode 0x0007 0;
     base \<leftarrow> get_reg (op_field opcode 0x0038 3) a;
     let addr = base + offset;
     v \<leftarrow> get_reg r a;
     if load then load_to r (widened (read16 M addr False a)) addr a
     else stored (write16 M addr (ucast v) False a) addr a }"

definition sp_relative_load_store :: "'m thumb_memory \<Rightarrow> u16 \<Rightarrow> 'm exec" where
  "sp_relative_load_store M opcode a = do {
     let load = (opcode AND 0x0800 = 0x0800);
     let r = op_field opcode 0x07FF 8;
     let offset = push_bit 2 (ucast (opcode AND 0xFF) :: u32);
     sp \<leftarrow> get_reg REG_SP a;
     let addr = sp + offset;
     v \<leftarrow> get_reg r a;
     if load then load_to r (read32 M addr False a) addr a
     else stored (write32 M addr v False a) addr a }"

definition load_address :: "u16 \<Rightarrow> 'm exec" where
  "load_address opcode a = do {
     let use_sp = (opcode AND 0x0800 = 0x0800);
     let dest_reg = op_field opcode 0x0700 8;
     let offset = push_bit 2 (ucast (opcode AND 0x00FF) :: u32);
     sp \<leftarrow> get_reg REG_SP a;
     pc \<leftarrow> get_reg REG_PC a;
     a \<leftarrow> set_reg dest_reg (if use_sp then sp + offset
            else align_to_32bits ((pc AND 0xFFFFFFFD) + offset)) a;
     normal a }"

definition add_offset_to_sp :: "u16 \<Rightarrow> 'm exec" where
  "add_offset_to_sp opcode a = do {
     let sign = (opcode AND 0x80 = 0x80);
     let imm = push_bit 2 (ucast (opcode AND 0x7F) :: u32);
     sp \<leftarrow> get_reg REG_SP a;
     a \<leftarrow> set_reg REG_SP (if sign then sp - imm else sp + imm) a;
     normal a }"

subsection \<open>Register lists\<close>

text \<open>The cycle of the first transfer differs from those of the others.\<close>

definition list_cycle :: "bus_access \<Rightarrow> nat \<Rightarrow> u32 \<Rightarrow> 'm arm7 \<Rightarrow> 'm arm7" where
  "list_cycle bus n addr a = (if n = 1 then ncycle bus addr a else scycle bus addr a)"

definition store_list_cycle :: "nat \<Rightarrow> u32 \<Rightarrow> 'm arm7 \<Rightarrow> 'm arm7" where
  "store_list_cycle n addr a = (if n = 1 then store_register_cycles addr a else scycle DataWrite addr a)"

definition in_list :: "u8 \<Rightarrow> nat \<Rightarrow> bool" where
  "in_list reg_list i \<longleftrightarrow> reg_list AND push_bit i 1 = push_bit i 1"

text \<open>
  The loops \<open>for i in 0..=7\<close>: the address behind the last transfer and the number of transfers.
\<close>

fun load_regs :: "'m thumb_memory \<Rightarrow> bus_access \<Rightarrow> u8 \<Rightarrow> nat list \<Rightarrow> u32 \<Rightarrow> nat \<Rightarrow> 'm arm7 \<Rightarrow>
    ((fault + u32 \<times> nat) \<times> 'm arm7) option" where
  "load_regs M bus reg_list [] addr n a = Some (Inr (addr, n), a)"
| "load_regs M bus reg_list (i # is) addr n a =
     (if in_list reg_list i then do {
        let a = list_cycle bus (n + 1) addr a;
        on_ok (read32 M addr True a) a (\<lambda>v. do {
          a \<leftarrow> set_reg i v a;
          load_regs M bus reg_list is (addr + 4) (n + 1) a }) }
      else load_regs M bus reg_list is addr n a)"

fun store_regs :: "'m thumb_memory \<Rightarrow> u8 \<Rightarrow> nat list \<Rightarrow> u32 \<Rightarrow> nat \<Rightarrow> 'm arm7 \<Rightarrow>
    ((fault + u32 \<times> nat) \<times> 'm arm7) option" where
  "store_regs M reg_list [] addr n a = Some (Inr (addr, n), a)"
| "store_regs M reg_list (i # is) addr n a =
     (if in_list reg_list i then do {
        let a = store_list_cycle (n + 1) addr a;
        v \<leftarrow> get_reg i a;
        on_ok (write32 M addr v True a) a (\<lambda>a.
          store_regs M reg_list is (addr + 4) (n + 1) a) }
      else store_regs M reg_list is addr n a)"

definition on_done :: "((fault + 'a) \<times> 'm arm7) option \<Rightarrow> ('a \<Rightarrow> 'm arm7 \<Rightarrow> ((fault + 'b) \<times> 'm arm7) option) \<Rightarrow>
    ((fault + 'b) \<times> 'm arm7) option" where
  "on_done m k = do { (r, a) \<leftarrow> m; on_ok r a (\<lambda>v. k v a) }"

definition pop_registers :: "'m thumb_memory \<Rightarrow> bool \<Rightarrow> u8 \<Rightarrow> 'm exec" where
  "pop_registers M pclr reg_list a = do {
     sp \<leftarrow> get_reg REG_SP a;
     on_done (load_regs M DataRead reg_list [0..<8] sp 0 a) (\<lambda>(addr, n) a.
     on_done (if pclr then do {
                let a = list_cycle DataRead (n + 1) addr a;
                on_ok (read32 M addr True a) a (\<lambda>v. do {
                  a \<leftarrow> set_reg REG_PC ((v AND 0xFFFFFFFE) + 2) a;
                  Some (Inr (addr + 4), a) }) }
              else Some (Inr addr, a)) (\<lambda>addr a. do {
       a \<leftarrow> set_reg REG_SP addr (icycle a);
       normal a })) }"

definition push_registers :: "'m thumb_memory \<Rightarrow> bool \<Rightarrow> u8 \<Rightarrow> 'm exec" where
  "push_registers M pclr reg_list a = do {
     let c = (if pclr then (word_of_nat (count_ones reg_list) + 1) * 4
              else word_of_nat (count_ones reg_list) * 4);
     sp \<leftarrow> get_reg REG_SP a;
     on_done (store_regs M reg_list [0..<8] (sp - c) 0 a) (\<lambda>(addr, n) a.
     on_done (if pclr then do {
                lr \<leftarrow> get_reg REG_LR a;
                on_ok (write32 M addr lr True a) a (\<lambda>a. Some (Inr (), store_list_cycle (n + 1) addr a)) }
              else Some (Inr (), a)) (\<lambda>_ a. do {
       sp \<leftarrow> get_reg REG_SP a;
       a \<leftarrow> set_reg REG_SP (sp - c) a;
       normal a })) }"

definition push_pop_registers :: "'m thumb_memory \<Rightarrow> u16 \<Rightarrow> 'm exec" where
  "push_pop_registers M opcode a = (let
     load = (opcode AND 0x0800 = 0x0800);
     pclr = (opcode AND 0x0100 = 0x0100);
     reg_list = (ucast (opcode AND 0x00FF) :: u8)
   in if load then pop_registers M pclr reg_list a else push_registers M pclr reg_list a)"

definition multiple_load_store :: "'m thumb_memory \<Rightarrow> u16 \<Rightarrow> 'm exec" where
  "multiple_load_store M opcode a = do {
     let load = (opcode AND 0x0800 = 0x0800);
     let base_reg = op_field opcode 0x07FF 8;
     let reg_list = (ucast (opcode AND 0x00FF) :: u8);
     addr \<leftarrow> get_reg base_reg a;
     if load then
       on_done (load_regs M DataWrite reg_list [0..<8] addr 0 a) (\<lambda>(addr, n) a. do {
         let a = icycle a;
         let update_base_reg = (\<not> (base_reg < 8 \<and> in_list reg_list base_reg));
         a \<leftarrow> (if update_base_reg then set_reg base_reg addr a else Some a);
         normal a })
     else
       on_done (store_regs M reg_list [0..<8] addr 0 a) (\<lambda>(addr, n) a. do {
         a \<leftarrow> set_reg base_reg addr a;
         normal a }) }"

subsection \<open>Branches\<close>

definition conditional_branch :: "u16 \<Rightarrow> 'm exec" where
  "conditional_branch opcode a = do {
     let cond = (ucast (drop_bit 8 (opcode AND 0x0F00)) :: u8);
     let offset = push_bit 1 (ucast (opcode AND 0x00FF) :: u32);
     let offset = (if offset AND 0x100 = 0x100 then offset OR 0xFFFFFF00 else offset);
     let offset = offset + 2;
     taken \<leftarrow> condition cond (arm_status a);
     if taken then do { pc \<leftarrow> get_reg REG_PC a; a \<leftarrow> set_reg REG_PC (pc + offset) a; normal a }
     else normal a }"

definition software_interrupt :: "'m exec" where
  "software_interrupt a = Some (Inl (UnimplementedPeripheral (arm_instruction_pc a)), a)"

definition unconditional_branch :: "u16 \<Rightarrow> 'm exec" where
  "unconditional_branch opcode a = do {
     let offset = push_bit 1 (ucast (opcode AND 0x07FF) :: u32);
     let offset = (if offset AND 0x800 = 0x800 then offset OR 0xFFFFF800 else offset);
     let offset = offset + 2;
     pc \<leftarrow> get_reg REG_PC a;
     a \<leftarrow> set_reg REG_PC (pc + offset) a;
     normal a }"

definition long_branch_with_link :: "u16 \<Rightarrow> 'm exec" where
  "long_branch_with_link opcode a = do {
     let low = (opcode AND 0x800 = 0x800);
     let offset = (ucast (opcode AND 0x07FF) :: u32);
     pc \<leftarrow> get_reg REG_PC a;
     if low then do {
       lr \<leftarrow> get_reg REG_LR a;
       a \<leftarrow> set_reg REG_PC (lr + push_bit 1 offset) a;
       a \<leftarrow> set_reg REG_LR (pc - 1) a;
       normal a }
     else do {
       let offset = push_bit 12 offset;
       let offset = (if offset AND 0x00400000 = 0x00400000 then offset OR 0xFFC00000 else offset);
       let offset = offset + 2;
       a \<leftarrow> set_reg REG_LR (pc + offset) a;
       normal a } }"

subsection \<open>Decoding and the single step\<close>

definition execute :: "'m thumb_memory \<Rightarrow> u16 \<Rightarrow> 'm exec" where
  "execute M opcode =
     (if opcode AND 0xF000 = 0xF000 then long_branch_with_link opcode
      else if opcode AND 0xF000 = 0xE000 then unconditional_branch opcode
      else if opcode AND 0xFF00 = 0xDF00 then software_interrupt
      else if opcode AND 0xF000 = 0xD000 then conditional_branch opcode
      else if opcode AND 0xF000 = 0xC000 then multiple_load_store M opcode
      else if opcode AND 0xF600 = 0xB400 then push_pop_registers M opcode
      else if opcode AND 0xFF00 = 0xB000 then add_offset_to_sp opcode
      else if opcode AND 0xF000 = 0xA000 then load_address opcode
      else if opcode AND 0xF000 = 0x9000 then sp_relative_load_store M opcode
      else if opcode AND 0xF000 = 0x8000 then load_store_halfword M opcode
      else if opcode AND 0xE000 = 0x6000 then load_store_with_imm_offset M opcode
      else if opcode AND 0xF200 = 0x5200 then load_store_sign_extended M opcode
      else if opcode AND 0xF200 = 0x5000 then load_store_with_register_offset M opcode
      else if opcode AND 0xF800 = 0x4800 then pc_relative_load M opcode
      else if opcode AND 0xFC00 = 0x4400 then hi_register_ops opcode
      else if opcode AND 0xFC00 = 0x4000 then alu_operations opcode
      else if opcode AND 0xE000 = 0x2000 then mov_cmp_add_sub_imm opcode
      else if opcode AND 0xF800 = 0x1800 then add_subtract opcode
      else move_shifted_register opcode)"

datatype step_outcome = Normal | ProgramEnded | Fault fault

fun outcome_of :: "fault + unit option \<Rightarrow> step_outcome" where
  "outcome_of (Inr (Some _)) = Normal"
| "outcome_of (Inr None) = ProgramEnded"
| "outcome_of (Inl f) = Fault f"

definition arm_step :: "'m thumb_memory \<Rightarrow> 'm arm7 \<Rightarrow> ((step_outcome \<times> u32) \<times> 'm arm7) option" where
  "arm_step M a = do {
     pc \<leftarrow> get_reg REG_PC a;
     let fetch_addr = pc - 2;
     let a = a\<lparr>arm_instruction_pc := fetch_addr\<rparr>;
     (case read16 M fetch_addr False a of
        Inl f \<Rightarrow> Some ((Fault f, 0), a)
      | Inr opcode \<Rightarrow> do {
          a \<leftarrow> set_reg REG_PC (fetch_addr + 4) a;
          pc_before_execute \<leftarrow> get_reg REG_PC a;
          let a = cycles_begin_instruction a;
          let a = (if cs_prefetch_cycle (arm_cycles a) = CycleN then ncycle Prefetch fetch_addr a
                   else scycle Prefetch fetch_addr a);
          let a = with_cycles (\<lambda>c. c\<lparr>cs_prefetch_cycle := CycleS\<rparr>) a;
          (outcome, a) \<leftarrow> execute M opcode a;
          pc_after \<leftarrow> get_reg REG_PC a;
          a \<leftarrow> (if pc_after \<noteq> pc_before_execute then fill_pipeline a else Some a);
          Some ((outcome_of outcome, cycles_end_instruction a), a) }) }"

end
