(* ===== verification/Thumb_Safe.thy ===== *)
theory Thumb_Safe
  imports Thumb_Exec
begin

text \<open>
  Which Thumb programs can stop the emulator. The interpreter is generic over the memory it runs
  against; \<open>thumb_mem\<close> is what it relies on: writing back a slice of unchanged length keeps
  the memory's invariant. Under it every opcode keeps the processor well formed and returns, but for
  six values of the opcode's upper byte that no format claims and that fall through to
  an \<open>unreachable!()\<close>.
\<close>

subsection \<open>What cycle accounting leaves alone\<close>

lemma with_frame [simp]:
  "arm_registers (with_status f a) = arm_registers a" "arm_mem (with_status f a) = arm_mem a"
  "arm_registers (with_mam g a) = arm_registers a" "arm_mem (with_mam g a) = arm_mem a"
  "arm_registers (with_cycles h a) = arm_registers a" "arm_mem (with_cycles h a) = arm_mem a"
  "arm_registers (stretch x a) = arm_registers a" "arm_mem (stretch x a) = arm_mem a"
  by (simp_all add: with_status_def with_mam_def with_cycles_def stretch_def)

lemma is_latched_frame [simp]:
  "arm_registers (snd (is_latched t bus addr a)) = arm_registers a"
  "arm_mem (snd (is_latched t bus addr a)) = arm_mem a"
  by (simp_all add: is_latched_def Let_def split: bus_access.split)

lemma cycle_frame [simp]:
  "arm_registers (icycle a) = arm_registers a" "arm_mem (icycle a) = arm_mem a"
  "arm_registers (scycle bus addr a) = arm_registers a" "arm_mem (scycle bus addr a) = arm_mem a"
  "arm_registers (ncycle bus addr a) = arm_registers a" "arm_mem (ncycle bus addr a) = arm_mem a"
  "arm_registers (store_register_cycles addr a) = arm_registers a"
  "arm_mem (store_register_cycles addr a) = arm_mem a"
  "arm_registers (load_cycles addr a) = arm_registers a" "arm_mem (load_cycles addr a) = arm_mem a"
  "arm_registers (cycles_begin_instruction a) = arm_registers a"
  "arm_mem (cycles_begin_instruction a) = arm_mem a"
  by (simp_all add: icycle_def scycle_def ncycle_def store_register_cycles_def load_cycles_def
      cycles_begin_instruction_def Let_def split_beta split: mam_mode.split)

lemma list_cycle_frame [simp]:
  "arm_registers (list_cycle bus n addr a) = arm_registers a" "arm_mem (list_cycle bus n addr a) = arm_mem a"
  "arm_registers (store_list_cycle n addr a) = arm_registers a"
  "arm_mem (store_list_cycle n addr a) = arm_mem a"
  "arm_registers (mul_cycles v a) = arm_registers a" "arm_mem (mul_cycles v a) = arm_mem a"
  "arm_registers (set_carry b a) = arm_registers a" "arm_mem (set_carry b a) = arm_mem a"
  by (simp_all add: list_cycle_def store_list_cycle_def mul_cycles_def set_carry_def)

subsection \<open>Register fields\<close>

lemma op_field_le: "op_field opcode m sh \<le> unat m div 2 ^ sh"
  unfolding op_field_def unat_drop_bit_eq unfolding drop_bit_eq_div
  by (rule div_le_mono) (rule unat_and_le)

lemma op_field_less [simp]:
  "op_field opcode 0x38 3 < 8" "op_field opcode 0x07 0 < 8" "op_field opcode 0x01C0 6 < 8"
  "op_field opcode 0x0700 8 < 8" "op_field opcode 0x07FF 8 < 8"
  using op_field_le [of opcode "0x38" 3] op_field_le [of opcode "0x07" 0] op_field_le [of opcode "0x01C0" 6]
    op_field_le [of opcode "0x0700" 8] op_field_le [of opcode "0x07FF" 8] by simp_all

lemma op_field_reg [simp]:
  "op_field opcode 0x38 3 < 16" "op_field opcode 0x07 0 < 16" "op_field opcode 0x01C0 6 < 16"
  "op_field opcode 0x0700 8 < 16" "op_field opcode 0x07FF 8 < 16"
  "op_field opcode 0x38 3 + 8 < 16" "op_field opcode 0x07 0 + 8 < 16"
  using op_field_less [of opcode] by linarith+

lemma hi_reg_less: "n < 8 \<Longrightarrow> n + (if b then 8 else 0) < (16 :: nat)"
  by simp

lemma special_reg [simp]: "REG_SP < 16" "REG_LR < 16" "REG_PC < 16"
  by (simp_all add: REG_SP_def REG_LR_def REG_PC_def)

lemma op_field_op [simp]:
  "op_field opcode 0x1800 11 < 4" "op_field opcode 0x300 8 < 4" "op_field opcode 0x03C0 6 < 16"
  using op_field_le [of opcode "0x1800" 11] op_field_le [of opcode "0x300" 8] op_field_le [of opcode "0x03C0" 6]
  by simp_all

lemma less_4_cases: "n < 4 \<Longrightarrow> n = 0 \<or> n = 1 \<or> n = 2 \<or> n = (3 :: nat)" by linarith

definition arm_ok :: "('m \<Rightarrow> bool) \<Rightarrow> 'm arm7 \<Rightarrow> bool" where
  "arm_ok ok a \<longleftrightarrow> length (arm_registers a) = 16 \<and> ok (arm_mem a)"

lemma arm_ok_frame [simp]:
  "arm_ok ok (with_status f a) = arm_ok ok a" "arm_ok ok (with_cycles h a) = arm_ok ok a"
  "arm_ok ok (icycle a) = arm_ok ok a" "arm_ok ok (scycle bus addr a) = arm_ok ok a"
  "arm_ok ok (ncycle bus addr a) = arm_ok ok a" "arm_ok ok (store_register_cycles addr a) = arm_ok ok a"
  "arm_ok ok (load_cycles addr a) = arm_ok ok a" "arm_ok ok (cycles_begin_instruction a) = arm_ok ok a"
  "arm_ok ok (list_cycle bus n addr a) = arm_ok ok a" "arm_ok ok (store_list_cycle n addr a) = arm_ok ok a"
  "arm_ok ok (mul_cycles v a) = arm_ok ok a" "arm_ok ok (set_carry b a) = arm_ok ok a"
  "arm_ok ok (a\<lparr>arm_instruction_pc := pc\<rparr>) = arm_ok ok a"
  "arm_ok ok (a\<lparr>arm_mam := m\<rparr>) = arm_ok ok a"
  by (simp_all add: arm_ok_def)

lemma get_reg_ok [simp]: "arm_ok ok a \<Longrightarrow> i < 16 \<Longrightarrow> get_reg i a = Some (arm_registers a ! i)"
  by (simp add: get_reg_def arm_ok_def)

lemma wpo_set_reg:
  assumes "arm_ok ok a" "i < 16" "\<And>a'. arm_ok ok a' \<Longrightarrow> Q a'"
  shows "wpo (set_reg i v a) Q"
  using assms(1,2) by (auto simp: set_reg_def arm_ok_def intro!: assms(3))

lemma wpo_set_nz_reg:
  assumes "arm_ok ok a" "i < 16" "\<And>a'. arm_ok ok a' \<Longrightarrow> Q a'"
  shows "wpo (set_nz_reg i a) Q"
  using assms(1,2) get_reg_ok [OF assms(1,2)] by (auto simp: set_nz_reg_def intro!: assms(3))

text \<open>The result of a handler: it returns, and leaves the processor well formed.\<close>

definition fine :: "('m \<Rightarrow> bool) \<Rightarrow> ('r \<times> 'm arm7) option \<Rightarrow> bool" where
  "fine ok m \<longleftrightarrow> wpo m (\<lambda>(_, a'). arm_ok ok a')"

lemma fine_Some [simp]: "fine ok (Some (r, a)) = arm_ok ok a"
  by (simp add: fine_def)

lemma fine_normal [simp]: "fine ok (normal a) = arm_ok ok a"
  by (simp add: normal_def)

lemma fine_set_reg:
  assumes "arm_ok ok a" "i < 16" "\<And>a'. arm_ok ok a' \<Longrightarrow> fine ok (k a')"
  shows "fine ok (Option.bind (set_reg i v a) k)"
  unfolding fine_def wpo_bind by (rule wpo_set_reg [OF assms(1,2)]) (use assms(3) in \<open>simp add: fine_def\<close>)

lemma fine_bind:
  assumes "wpo m (arm_ok ok)" "\<And>a'. arm_ok ok a' \<Longrightarrow> fine ok (k a')"
  shows "fine ok (Option.bind m k)"
  unfolding fine_def wpo_bind using assms by (auto intro: wpo_mono simp: fine_def)

lemma fine_on_ok:
  "arm_ok ok a \<Longrightarrow> (\<And>v. r = Inr v \<Longrightarrow> fine ok (k v)) \<Longrightarrow> fine ok (on_ok r a k)"
  by (simp add: on_ok_def split: sum.split)

lemma fine_on_done:
  "fine ok m \<Longrightarrow> (\<And>v a. arm_ok ok a \<Longrightarrow> fine ok (k v a)) \<Longrightarrow> fine ok (on_done m k)"
  unfolding on_done_def fine_def wpo_bind
  by (erule wpo_mono) (auto simp: fine_on_ok [unfolded fine_def])

lemmas fine_rules = fine_set_reg fine_on_ok

lemma load_to_fine: "arm_ok ok a \<Longrightarrow> r < 16 \<Longrightarrow> fine ok (load_to r m addr a)"
  by (auto simp: load_to_def intro!: fine_rules)

subsection \<open>Register-only formats\<close>

lemma add_subtract_fine: "arm_ok ok a \<Longrightarrow> fine ok (add_subtract opcode a)"
  unfolding add_subtract_def Let_def
  by (auto intro!: fine_bind wpo_set_reg wpo_set_nz_reg)

lemma fine_if: "(b \<Longrightarrow> fine ok m) \<Longrightarrow> (\<not> b \<Longrightarrow> fine ok m') \<Longrightarrow> fine ok (if b then m else m')"
  by simp

lemma wpo_if_rule: "(b \<Longrightarrow> wpo m Q) \<Longrightarrow> (\<not> b \<Longrightarrow> wpo m' Q) \<Longrightarrow> wpo (if b then m else m') Q"
  by simp

lemmas fine_intros = fine_bind fine_if fine_on_ok wpo_set_reg wpo_set_nz_reg

lemma mov_cmp_add_sub_imm_fine: "arm_ok ok a \<Longrightarrow> fine ok (mov_cmp_add_sub_imm opcode a)"
  unfolding mov_cmp_add_sub_imm_def Let_def
  using less_4_cases [OF op_field_op(1), of opcode]
  by (auto intro!: fine_bind wpo_set_reg wpo_set_nz_reg)

lemma shift_reg_ok:
  assumes "arm_ok ok a" "i < 16" "\<And>a'. arm_ok ok a' \<Longrightarrow> Q a'"
  shows "wpo (lsl_reg i d n a) Q" "wpo (lsr_reg i d n a) Q" "wpo (asr_reg i d n a) Q" "wpo (ror_reg i d n a) Q"
  using assms by (auto simp: lsl_reg_def lsr_reg_def asr_reg_def ror_reg_def Let_def intro!: wpo_set_reg)

lemma less_16_cases: "n < 16 \<Longrightarrow> n \<in> {15, 14, 13, 12, 11, 10, 9, 8, 7, 6, 5, 4, 3, 2, 1, 0 :: nat}"
  unfolding insert_iff empty_iff by presburger

lemma alu_op_ok:
  assumes "arm_ok ok a" "i < 16" "op1 < 16"
  shows "wpo (alu_op op1 i d s a) (arm_ok ok)"
  unfolding alu_op_def Let_def
  using less_16_cases [OF assms(3)] assms(1,2) unfolding insert_iff empty_iff
  by (elim disjE; simp; auto intro!: wpo_set_reg wpo_set_nz_reg shift_reg_ok)

lemma alu_operations_fine: "arm_ok ok a \<Longrightarrow> fine ok (alu_operations opcode a)"
  unfolding alu_operations_def Let_def
  by (auto intro!: fine_bind alu_op_ok)

lemma hi_register_ops_fine:
  assumes ok: "arm_ok ok a"
  shows "fine ok (hi_register_ops opcode a)"
proof -
  define src where "src = op_field opcode 0x38 3 + (if opcode AND 0x40 = 0x40 then 8 else 0)"
  define dst where "dst = op_field opcode 0x07 0 + (if opcode AND 0x80 = 0x80 then 8 else 0)"
  have "src < 16" "dst < 16" by (simp_all add: src_def dst_def)
  then show ?thesis
    using less_4_cases [OF op_field_op(2), of opcode] ok
    by (auto simp: hi_register_ops_def Let_def simp flip: src_def dst_def intro!: fine_bind wpo_set_reg)
qed

lemma load_address_fine: "arm_ok ok a \<Longrightarrow> fine ok (load_address opcode a)"
  unfolding load_address_def Let_def by (auto intro!: fine_bind wpo_set_reg)

lemma add_offset_to_sp_fine: "arm_ok ok a \<Longrightarrow> fine ok (add_offset_to_sp opcode a)"
  unfolding add_offset_to_sp_def Let_def by (auto intro!: fine_bind wpo_set_reg)

lemma unconditional_branch_fine: "arm_ok ok a \<Longrightarrow> fine ok (unconditional_branch opcode a)"
  unfolding unconditional_branch_def Let_def by (auto intro!: fine_bind wpo_set_reg)

lemma long_branch_fine: "arm_ok ok a \<Longrightarrow> fine ok (long_branch_with_link opcode a)"
  unfolding long_branch_with_link_def Let_def by (auto intro!: fine_bind wpo_set_reg)

lemma software_interrupt_fine: "arm_ok ok a \<Longrightarrow> fine ok (software_interrupt a)"
  by (simp add: software_interrupt_def)


subsection \<open>Branch conditions\<close>

lemma condition_Some: "unat cond < 15 \<Longrightarrow> condition cond p \<noteq> None"
proof -
  assume "unat cond < 15"
  then have "unat cond \<in> set [0..<15]" by simp
  moreover have "\<forall>k \<in> set [0..<15]. condition (word_of_nat k) p \<noteq> None"
    by (auto simp: condition_def upt_rec ex_bool_eq)
  ultimately have "condition (word_of_nat (unat cond)) p \<noteq> None" by blast
  then show ?thesis by simp
qed

lemma conditional_branch_fine:
  assumes "arm_ok ok a" "opcode AND 0x0F00 \<noteq> 0x0F00"
  shows "fine ok (conditional_branch opcode a)"
proof -
  define w where "w = opcode AND 0x0F00"
  let ?c = "ucast (drop_bit 8 w) :: u8"
  have "(0x0F00 :: u16) = push_bit 8 (mask 4)" by code_simp
  then have "bit (0x0F00 :: u16) n \<longleftrightarrow> 8 \<le> n \<and> n < 12" for n
    by (simp only: bit_push_bit_iff bit_mask_iff) auto
  then have b: "bit w n \<longleftrightarrow> bit opcode n \<and> 8 \<le> n \<and> n < 12" for n
    by (auto simp: w_def bit_and_iff)
  have w: "w = push_bit 8 (ucast ?c)"
  proof (rule bit_word_eqI)
    fix n assume "n < LENGTH(16)"
    then show "bit w n = bit (push_bit 8 (ucast ?c) :: u16) n"
      by (cases "8 \<le> n") (auto simp: b bit_push_bit_iff bit_ucast_iff bit_drop_bit_eq)
  qed
  have "unat w \<le> 0xF00" unfolding w_def using unat_and_le [of opcode "0x0F00"] by simp
  then have "unat (drop_bit 8 w) \<le> 15"
    unfolding unat_drop_bit_eq unfolding drop_bit_eq_div using div_le_mono [of "unat w" 3840 256] by simp
  then have "unat ?c \<le> 15" by (simp add: unat_ucast_16_8)
  moreover have "unat ?c \<noteq> 15"
  proof
    assume "unat ?c = 15"
    then have "?c = 15" by (simp add: word_unat_eq_iff)
    then have "w = 0x0F00" using w by simp
    then show False using assms(2) by (simp add: w_def)
  qed
  ultimately have "condition ?c (arm_status a) \<noteq> None" by (intro condition_Some) linarith
  then show ?thesis
    using assms(1) unfolding conditional_branch_def Let_def w_def [symmetric]
    by (auto intro!: fine_bind wpo_set_reg)
qed

lemma move_shifted_fine:
  assumes "arm_ok ok a" "op_field opcode 0x1800 11 \<noteq> 3"
  shows "fine ok (move_shifted_register opcode a)"
  using assms less_4_cases [OF op_field_op(1), of opcode] unfolding move_shifted_register_def Let_def
  by (auto intro!: fine_bind wpo_set_reg wpo_set_nz_reg)

lemma move_shifted_panics:
  assumes "arm_ok ok a" "op_field opcode 0x1800 11 = 3"
  shows "move_shifted_register opcode a = None"
  using assms by (simp add: move_shifted_register_def Let_def)

subsection \<open>Formats that use the memory\<close>

locale thumb_mem =
  fixes M :: "'m thumb_memory" and ok :: "'m \<Rightarrow> bool"
  assumes put_ok: "ok m \<Longrightarrow> tm_map M addr w x m = Some (bs, origin, put) \<Longrightarrow> length bs' = length bs \<Longrightarrow> ok (put bs')"
begin

lemma peripheral_write_ok: "arm_ok ok a \<Longrightarrow> peripheral_write addr v a = Inr a' \<Longrightarrow> arm_ok ok a'"
  by (auto simp: peripheral_write_def split: prod.splits if_splits)

lemma write_ok:
  assumes "arm_ok ok a"
  shows "write8 M addr v8 a = Inr a' \<Longrightarrow> arm_ok ok a'"
    "write16 M addr v16 al a = Inr a' \<Longrightarrow> arm_ok ok a'"
    "write32 M addr v32 al a = Inr a' \<Longrightarrow> arm_ok ok a'"
  using assms put_ok
  by (auto simp: write8_def write16_def write32_def try_ok_def Let_def arm_ok_def
      split: sum.splits option.splits if_splits dest!: peripheral_write_ok [unfolded arm_ok_def, rotated])

lemmas write_okD = write_ok [rotated]

lemma stored_fine:
  "arm_ok ok a \<Longrightarrow> fine ok (stored (write8 M addr v8 a) addr a)"
  "arm_ok ok a \<Longrightarrow> fine ok (stored (write16 M addr v16 al a) addr a)"
  "arm_ok ok a \<Longrightarrow> fine ok (stored (write32 M addr v32 al a) addr a)"
  by (auto simp: stored_def intro!: fine_on_ok dest: write_okD)

lemma load_regs_fine:
  assumes "arm_ok ok a" "\<forall>i \<in> set is. i < 8"
  shows "fine ok (load_regs M bus rl is addr n a)"
  using assms
proof (induction "is" arbitrary: addr n a)
  case (Cons i js)
  have "fine ok (Option.bind (set_reg i v (list_cycle bus (n + 1) addr a))
      (load_regs M bus rl js (addr + 4) (n + 1)))" for v
    by (rule fine_set_reg) (use Cons in auto)
  with Cons show ?case by (auto simp: Let_def intro!: fine_on_ok)
qed simp

lemma store_regs_fine:
  assumes "arm_ok ok a" "\<forall>i \<in> set is. i < 8"
  shows "fine ok (store_regs M rl is addr n a)"
  using assms
proof (induction "is" arbitrary: addr n a)
  case (Cons i js)
  let ?a = "store_list_cycle (n + 1) addr a"
  have "fine ok (on_ok (write32 M addr v True ?a) ?a (store_regs M rl js (addr + 4) (n + 1)))" for v
    by (rule fine_on_ok) (use Cons in \<open>auto dest!: write_okD\<close>)
  with Cons show ?case by (auto simp: Let_def get_reg_ok [where ok = ok])
qed simp

lemma reg_list_ok: "\<forall>i \<in> set [0..<8]. i < (8 :: nat)"
  by simp

lemma pop_fine: "arm_ok ok a \<Longrightarrow> fine ok (pop_registers M pclr rl a)"
  unfolding pop_registers_def Let_def
  by (auto intro!: fine_on_done load_regs_fine fine_on_ok fine_set_reg)

lemma push_fine: "arm_ok ok a \<Longrightarrow> fine ok (push_registers M pclr rl a)"
  unfolding push_registers_def Let_def
  by (auto intro!: fine_on_done store_regs_fine fine_on_ok fine_set_reg dest!: write_okD)

lemma multiple_load_store_fine: "arm_ok ok a \<Longrightarrow> fine ok (multiple_load_store M opcode a)"
  unfolding multiple_load_store_def Let_def
  by (auto intro!: fine_on_done load_regs_fine store_regs_fine fine_set_reg)

lemma load_store_fine:
  assumes "arm_ok ok a"
  shows "fine ok (pc_relative_load M opcode a)" "fine ok (load_store_with_register_offset M opcode a)"
    "fine ok (load_store_sign_extended M opcode a)" "fine ok (load_store_with_imm_offset M opcode a)"
    "fine ok (load_store_halfword M opcode a)" "fine ok (sp_relative_load_store M opcode a)"
    "fine ok (push_pop_registers M opcode a)"
  using assms
  by (auto simp: pc_relative_load_def load_store_with_register_offset_def load_store_sign_extended_def
      load_store_with_imm_offset_def load_store_halfword_def sp_relative_load_store_def push_pop_registers_def
      Let_def intro!: load_to_fine stored_fine pop_fine push_fine)

end

subsection \<open>Decoding\<close>

text \<open>The tests of \<open>execute\<close> look at the upper byte only.\<close>

definition hi_byte :: "u16 \<Rightarrow> u8" where
  "hi_byte opcode = ucast (drop_bit 8 opcode)"

lemma hi_byte_test:
  "opcode AND push_bit 8 (ucast m) = push_bit 8 (ucast v) \<longleftrightarrow> hi_byte opcode AND m = v"
proof
  assume a: "opcode AND push_bit 8 (ucast m) = push_bit 8 (ucast v)"
  show "hi_byte opcode AND m = v"
  proof (rule bit_word_eqI)
    fix n assume "n < LENGTH(8)"
    then show "bit (hi_byte opcode AND m) n = bit v n"
      using arg_cong [OF a, of "\<lambda>w. bit w (n + 8)"]
      by (simp add: hi_byte_def bit_and_iff bit_push_bit_iff bit_ucast_iff bit_drop_bit_eq add.commute)
  qed
next
  assume a: "hi_byte opcode AND m = v"
  show "opcode AND push_bit 8 (ucast m) = push_bit 8 (ucast v)"
    unfolding a [symmetric]
    by (rule bit_word_eqI) (auto simp: hi_byte_def bit_and_iff bit_push_bit_iff bit_ucast_iff bit_drop_bit_eq)
qed

lemma hi_masks:
  "(0xF000 :: u16) = push_bit 8 (ucast (0xF0 :: u8))" "(0xE000 :: u16) = push_bit 8 (ucast (0xE0 :: u8))"
  "(0xD000 :: u16) = push_bit 8 (ucast (0xD0 :: u8))" "(0xC000 :: u16) = push_bit 8 (ucast (0xC0 :: u8))"
  "(0xDF00 :: u16) = push_bit 8 (ucast (0xDF :: u8))" "(0xFF00 :: u16) = push_bit 8 (ucast (0xFF :: u8))"
  "(0xF600 :: u16) = push_bit 8 (ucast (0xF6 :: u8))" "(0xB400 :: u16) = push_bit 8 (ucast (0xB4 :: u8))"
  "(0xB000 :: u16) = push_bit 8 (ucast (0xB0 :: u8))" "(0xA000 :: u16) = push_bit 8 (ucast (0xA0 :: u8))"
  "(0x9000 :: u16) = push_bit 8 (ucast (0x90 :: u8))" "(0x8000 :: u16) = push_bit 8 (ucast (0x80 :: u8))"
  "(0x6000 :: u16) = push_bit 8 (ucast (0x60 :: u8))" "(0xF200 :: u16) = push_bit 8 (ucast (0xF2 :: u8))"
  "(0x5200 :: u16) = push_bit 8 (ucast (0x52 :: u8))" "(0x5000 :: u16) = push_bit 8 (ucast (0x50 :: u8))"
  "(0xF800 :: u16) = push_bit 8 (ucast (0xF8 :: u8))" "(0x4800 :: u16) = push_bit 8 (ucast (0x48 :: u8))"
  "(0xFC00 :: u16) = push_bit 8 (ucast (0xFC :: u8))" "(0x4400 :: u16) = push_bit 8 (ucast (0x44 :: u8))"
  "(0x4000 :: u16) = push_bit 8 (ucast (0x40 :: u8))" "(0x2000 :: u16) = push_bit 8 (ucast (0x20 :: u8))"
  "(0x1800 :: u16) = push_bit 8 (ucast (0x18 :: u8))" "(0x0F00 :: u16) = push_bit 8 (ucast (0x0F :: u8))"
  by code_simp+

definition claimed :: "u8 \<Rightarrow> bool" where
  "claimed h \<longleftrightarrow> h AND 0xF0 = 0xF0 \<or> h AND 0xF0 = 0xE0 \<or> h AND 0xFF = 0xDF \<or> h AND 0xF0 = 0xD0 \<or>
     h AND 0xF0 = 0xC0 \<or> h AND 0xF6 = 0xB4 \<or> h AND 0xFF = 0xB0 \<or> h AND 0xF0 = 0xA0 \<or> h AND 0xF0 = 0x90 \<or>
     h AND 0xF0 = 0x80 \<or> h AND 0xE0 = 0x60 \<or> h AND 0xF2 = 0x52 \<or> h AND 0xF2 = 0x50 \<or>
     h AND 0xF8 = 0x48 \<or> h AND 0xFC = 0x44 \<or> h AND 0xFC = 0x40 \<or> h AND 0xE0 = 0x20 \<or> h AND 0xF8 = 0x18"

definition undefined_opcode :: "u16 \<Rightarrow> bool" where
  "undefined_opcode opcode \<longleftrightarrow> hi_byte opcode \<in> {0xB8, 0xB9, 0xBA, 0xBB, 0xBE, 0xBF}"

lemma unclaimed:
  "h \<in> {0xB8, 0xB9, 0xBA, 0xBB, 0xBE, 0xBF} \<longleftrightarrow> \<not> claimed h \<and> h AND 0x18 = 0x18"
  unfolding claimed_def insert_iff empty_iff unfolding word8_all
  by (simp add: bit_and_iff) argo

lemma op_field_3: "op_field opcode 0x1800 11 = 3 \<longleftrightarrow> opcode AND 0x1800 = 0x1800"
proof
  assume "op_field opcode 0x1800 11 = 3"
  then have "unat (opcode AND 0x1800) div 2048 = 3"
    unfolding op_field_def unat_drop_bit_eq unfolding drop_bit_eq_div by simp
  moreover have "unat (opcode AND 0x1800) \<le> 6144"
    using unat_and_le [of opcode "0x1800"] by simp
  ultimately have "unat (opcode AND 0x1800) = unat (0x1800 :: u16)" by simp
  then show "opcode AND 0x1800 = 0x1800" by (simp only: word_unat_eq_iff)
next
  assume "opcode AND 0x1800 = 0x1800"
  moreover have "unat (drop_bit 11 (0x1800 :: u16)) = 3" by code_simp
  ultimately show "op_field opcode 0x1800 11 = 3" by (simp only: op_field_def)
qed

lemma execute_unclaimed: "\<not> claimed (hi_byte opcode) \<Longrightarrow> execute M opcode = move_shifted_register opcode"
  unfolding execute_def hi_masks hi_byte_test claimed_def by simp

lemma undefined_iff:
  "undefined_opcode opcode \<longleftrightarrow> \<not> claimed (hi_byte opcode) \<and> op_field opcode 0x1800 11 = 3"
  unfolding undefined_opcode_def unclaimed op_field_3 unfolding hi_masks hi_byte_test ..

lemma fine_if_app:
  "(b \<Longrightarrow> fine ok (f a)) \<Longrightarrow> (\<not> b \<Longrightarrow> fine ok (g a)) \<Longrightarrow> fine ok ((if b then f else g) a)"
  by simp

lemma not_always:
  "opcode AND 0xF000 = 0xD000 \<Longrightarrow> opcode AND 0xFF00 \<noteq> 0xDF00 \<Longrightarrow> opcode AND 0x0F00 \<noteq> 0x0F00"
  for opcode :: u16
  unfolding hi_masks hi_byte_test unfolding word8_all by (simp add: bit_and_iff)

lemma execute_undefined:
  "arm_ok ok a \<Longrightarrow> undefined_opcode opcode \<Longrightarrow> execute M opcode a = None"
  by (simp add: undefined_iff execute_unclaimed move_shifted_panics)

context thumb_mem
begin

lemma execute_fine:
  assumes ok: "arm_ok ok a" and u: "\<not> undefined_opcode opcode"
  shows "fine ok (execute M opcode a)"
  unfolding execute_def
proof (intro fine_if_app)
  assume "opcode AND 0xF000 = 0xD000" "opcode AND 0xFF00 \<noteq> 0xDF00"
  then show "fine ok (conditional_branch opcode a)"
    by (intro conditional_branch_fine [OF ok] not_always)
next
  assume n: "opcode AND 0xF000 \<noteq> 0xF000" "opcode AND 0xF000 \<noteq> 0xE000" "opcode AND 0xFF00 \<noteq> 0xDF00"
    "opcode AND 0xF000 \<noteq> 0xD000" "opcode AND 0xF000 \<noteq> 0xC000" "opcode AND 0xF600 \<noteq> 0xB400"
    "opcode AND 0xFF00 \<noteq> 0xB000" "opcode AND 0xF000 \<noteq> 0xA000" "opcode AND 0xF000 \<noteq> 0x9000"
    "opcode AND 0xF000 \<noteq> 0x8000" "opcode AND 0xE000 \<noteq> 0x6000" "opcode AND 0xF200 \<noteq> 0x5200"
    "opcode AND 0xF200 \<noteq> 0x5000" "opcode AND 0xF800 \<noteq> 0x4800" "opcode AND 0xFC00 \<noteq> 0x4400"
    "opcode AND 0xFC00 \<noteq> 0x4000" "opcode AND 0xE000 \<noteq> 0x2000" "opcode AND 0xF800 \<noteq> 0x1800"
  then have "\<not> claimed (hi_byte opcode)"
    unfolding hi_masks hi_byte_test claimed_def by blast
  then show "fine ok (move_shifted_register opcode a)"
    using u by (intro move_shifted_fine [OF ok]) (simp add: undefined_iff)
qed (rule long_branch_fine unconditional_branch_fine software_interrupt_fine multiple_load_store_fine
    load_store_fine add_offset_to_sp_fine load_address_fine hi_register_ops_fine alu_operations_fine
    mov_cmp_add_sub_imm_fine add_subtract_fine; rule ok)+

lemma execute_None_iff: "arm_ok ok a \<Longrightarrow> execute M opcode a = None \<longleftrightarrow> undefined_opcode opcode"
  using execute_fine [of a opcode] execute_undefined [of ok a opcode M] by (fastforce simp: fine_def wpo_def)

end

end
