(* ===== verification/Thumb_Props.thy ===== *)
theory Thumb_Props
  imports Thumb_Safe
begin

text \<open>
  What the Thumb interpreter computes: the carry and overflow of its adder, the meaning of the branch
  conditions after a comparison, calls that return, and which programs can stop it.
\<close>

subsection \<open>Flags as bits\<close>

lemma bit_t_flag [simp]:
  "bit T_NEGATIVE n \<longleftrightarrow> n = 0" "bit T_ZERO n \<longleftrightarrow> n = 1" "bit T_CARRY n \<longleftrightarrow> n = 2" "bit T_OVERFLOW n \<longleftrightarrow> n = 3"
  using bit_flag(1,2,3,4) [of n] by (simp_all add: t_flag_defs flag_defs)

lemma t_contains_bit [simp]:
  "p_contains p T_NEGATIVE = bit p 0" "p_contains p T_ZERO = bit p 1"
  "p_contains p T_CARRY = bit p 2" "p_contains p T_OVERFLOW = bit p 3"
  by (auto simp: p_contains_def word8_all bit_and_iff)

lemma word32_bound: "unat (w :: u32) < 4294967296"
  using unsigned_less [of w] by simp

lemma low31: "unat (w AND 0x7FFFFFFF) = unat (w :: u32) mod 2147483648"
proof -
  have "(0x7FFFFFFF :: u32) = mask 31" by code_simp
  then show ?thesis using unat_and_mask [of w 31] by simp
qed

lemma sign_div: "unat (drop_bit 31 w) = unat (w :: u32) div 2147483648"
  unfolding unat_drop_bit_eq unfolding drop_bit_eq_div by simp

lemma bit31: "bit (w :: u32) 31 \<longleftrightarrow> 2147483648 \<le> unat w"
proof -
  have "bit w 31 \<longleftrightarrow> odd (unat w div 2147483648)"
    using bit_iff_odd [of "unat w" 31] by (simp add: bit_unsigned_iff)
  moreover have "unat w div 2147483648 < 2" using word32_bound [of w] by simp
  moreover have "odd n \<longleftrightarrow> n = 1" if "n < 2" for n :: nat using that by (cases n) auto
  ultimately show ?thesis by auto
qed

lemma sint_word32: "sint (w :: u32) = int (unat w) - (if 2147483648 \<le> unat w then 4294967296 else 0)"
proof -
  have "take_bit 32 (uint w) = uint w"
    using uint_lt2p [of w] by (simp add: take_bit_int_eq_self)
  then show ?thesis
    by (simp add: sint_uint signed_take_bit_eq_take_bit_minus bit_unsigned_iff bit31)
qed

subsection \<open>The adder\<close>

lemma set_add_flags_bits:
  fixes a b c :: u32
  assumes "unat c \<le> 1"
  shows "bit (set_add_flags a b c p) 2 \<longleftrightarrow> 4294967296 \<le> unat a + unat b + unat c"
    and "bit (set_add_flags a b c p) 3 \<longleftrightarrow>
      sint a + sint b + int (unat c) \<notin> {-2147483648 ..< 2147483648}"
    and "n \<notin> {2, 3} \<Longrightarrow> n < 8 \<Longrightarrow> bit (set_add_flags a b c p) n = bit p n"
proof -
  let ?x = "unat a mod 2147483648" and ?y = "unat b mod 2147483648"
  define s where "s = ?x + ?y + unat c"
  define q where "q = drop_bit 31 ((a AND 0x7FFFFFFF) + (b AND 0x7FFFFFFF) + c)"
  define t where "t = q + drop_bit 31 a + drop_bit 31 b"
  have s: "s < 4294967296" using assms mod_less_divisor [of 2147483648 "unat a"]
      mod_less_divisor [of 2147483648 "unat b"] by (simp add: s_def)
  then have "unat ((a AND 0x7FFFFFFF) + (b AND 0x7FFFFFFF) + c) = s"
    by (simp add: unat_word_ariths low31 s_def)
  then have q: "unat q = s div 2147483648" by (simp add: q_def sign_div)
  have ha: "unat a div 2147483648 < 2" and hb: "unat b div 2147483648 < 2" and hq: "s div 2147483648 < 2"
    using word32_bound [of a] word32_bound [of b] s by simp_all
  have t: "unat t = s div 2147483648 + unat a div 2147483648 + unat b div 2147483648"
    using ha hb hq by (simp add: t_def q sign_div unat_word_ariths)
  have bit1: "w AND 2 = 2 \<longleftrightarrow> 2 \<le> unat w" if "unat w < 4" for w :: u32
  proof -
    have "unat w \<in> set [0..<4]" using that by simp
    moreover have "\<forall>n \<in> set [0..<4]. (word_of_nat n :: u32) AND 2 = 2 \<longleftrightarrow> 2 \<le> n" by code_simp
    moreover have "word_of_nat (unat w) = w" by simp
    ultimately show ?thesis by metis
  qed
  define hx hy where "hx = unat a div 2147483648" and "hy = unat b div 2147483648"
  have x: "unat a = ?x + 2147483648 * hx" and y: "unat b = ?y + 2147483648 * hy"
    by (simp_all add: hx_def hy_def)
  have h: "hx = 0 \<or> hx = 1" "hy = 0 \<or> hy = 1" "unat q = 0 \<or> unat q = 1"
    using ha hb hq q by (simp_all add: hx_def hy_def) linarith+
  have q': "1 \<le> unat q \<longleftrightarrow> 2147483648 \<le> s" unfolding q by linarith
  have "t AND 0x02 = 0x02 \<longleftrightarrow> 2 \<le> unat t" using t ha hb hq by (intro bit1) linarith
  also have "\<dots> \<longleftrightarrow> 2 \<le> unat q + hx + hy" by (simp add: t q hx_def hy_def)
  also have "\<dots> \<longleftrightarrow> 4294967296 \<le> unat a + unat b + unat c"
    using h q' s s_def x y by (elim disjE) linarith+
  finally have t2: "t AND 0x02 = 0x02 \<longleftrightarrow> 4294967296 \<le> unat a + unat b + unat c" .
  have q1: "(q XOR of_bool k) AND 1 = 1 \<longleftrightarrow> (1 \<le> unat q) \<noteq> k" for k
  proof -
    have "q = 0 \<or> q = 1" using h(3) by (simp add: word_unat_eq_iff)
    then show ?thesis by auto
  qed
  have v: "(1 \<le> unat q) \<noteq> (4294967296 \<le> unat a + unat b + unat c) \<longleftrightarrow>
      sint a + sint b + int (unat c) \<notin> {-2147483648 ..< 2147483648}"
  proof -
    have "sint a = int ?x - 2147483648 * int hx" "sint b = int ?y - 2147483648 * int hy"
      using h x y mod_less_divisor [of 2147483648 "unat a"] mod_less_divisor [of 2147483648 "unat b"]
      unfolding sint_word32 by (auto simp del: of_nat_unat split: if_splits)
    then show ?thesis
      using h q' s s_def x y by (elim disjE) (auto simp del: of_nat_unat)
  qed
  show "bit (set_add_flags a b c p) 2 \<longleftrightarrow> 4294967296 \<le> unat a + unat b + unat c"
    "bit (set_add_flags a b c p) 3 \<longleftrightarrow> sint a + sint b + int (unat c) \<notin> {-2147483648 ..< 2147483648}"
    "n \<notin> {2, 3} \<Longrightarrow> n < 8 \<Longrightarrow> bit (set_add_flags a b c p) n = bit p n"
    unfolding set_add_flags_def Let_def q_def [symmetric] t_def [symmetric] t2 q1 v [symmetric]
    by simp_all
qed

subsection \<open>Comparing and branching\<close>

lemma not32: "unat (NOT s) = 4294967295 - unat s" "sint (NOT s) = - sint s - 1" for s :: u32
proof -
  have "unat s + unat (NOT s) = unat (- 1 :: u32)"
    using unat_add_disjoint [of s "NOT s"] by simp
  moreover have "unat (- 1 :: u32) = 4294967295"
    by (simp add: unsigned_minus_1_eq_mask mask_eq_exp_minus_1)
  ultimately show n: "unat (NOT s) = 4294967295 - unat s" by linarith
  then show "sint (NOT s) = - sint s - 1"
    using word32_bound [of s] unfolding sint_word32 n
    by (auto simp del: of_nat_unat simp: of_nat_diff)
qed

lemma sint_range: "- 2147483648 \<le> sint s" "sint s < 2147483648" for s :: u32
  using word32_bound [of s] unfolding sint_word32 by (auto simp del: of_nat_unat)

lemma sint_inject: "sint s = sint d \<longleftrightarrow> s = (d :: u32)"
  by (auto intro: signed_word_eqI)

lemma compare_flags:
  fixes d s :: u32 and p :: status
  defines "p' \<equiv> t_set_nz (d - s) (set_add_flags d (NOT s) 1 p)"
  shows "bit p' 1 \<longleftrightarrow> d = s" "bit p' 2 \<longleftrightarrow> s \<le> d" "bit p' 0 = bit p' 3 \<longleftrightarrow> sint s \<le> sint d"
proof -
  have c: "unat (1 :: u32) \<le> 1" by simp
  show "bit p' 1 \<longleftrightarrow> d = s" by (simp add: p'_def t_set_nz_def)
  show "bit p' 2 \<longleftrightarrow> s \<le> d"
    using word32_bound [of s]
    by (simp add: p'_def t_set_nz_def set_add_flags_bits(1) [OF c] not32 word_le_nat_alt del: unat_1) linarith
  have "bit p' 0 \<longleftrightarrow> bit (d - s) 31"
  proof -
    have "(0x80000000 :: u32) = push_bit 31 1" by code_simp
    then have "(d - s) AND 0x80000000 \<noteq> 0 \<longleftrightarrow> bit (d - s) 31"
      by (simp only: and_exp_eq_0_iff_not_bit push_bit_of_1 not_not)
    then show ?thesis by (simp add: p'_def t_set_nz_def)
  qed
  then have n: "bit p' 0 \<longleftrightarrow> sint (d - s) < 0"
    using word32_bound [of "d - s"] unfolding bit31 sint_word32 by (auto simp del: of_nat_unat)
  have v: "bit p' 3 \<longleftrightarrow> sint d - sint s \<notin> {-2147483648 ..< 2147483648}"
    by (simp add: p'_def t_set_nz_def set_add_flags_bits(2) [OF c] not32)
  have "sint (d - s) = sint d - sint s \<or> sint (d - s) = sint d - sint s + 4294967296 \<or>
      sint (d - s) = sint d - sint s - 4294967296"
  proof -
    have "unat (d - s) = (if unat s \<le> unat d then unat d - unat s else unat d + 4294967296 - unat s)"
      using unat_sub_if' [of d s] by simp
    then have "int (unat (d - s)) = int (unat d) - int (unat s) + (if unat s \<le> unat d then 0 else 4294967296)"
      using word32_bound [of s] by (simp del: of_nat_unat add: of_nat_diff)
    then show ?thesis unfolding sint_word32 by presburger
  qed
  then show "bit p' 0 = bit p' 3 \<longleftrightarrow> sint s \<le> sint d"
    unfolding n v using sint_range [of d] sint_range [of s] sint_range [of "d - s"] by auto
qed

text \<open>An opcode whose upper ten bits are those of \<open>CMP Rd, Rs\<close>.\<close>

lemma decode_compare:
  assumes "opcode AND 0xFFC0 = 0x4280"
  shows "execute M opcode = alu_operations opcode" "op_field opcode 0x03C0 6 = 10"
proof -
  have sub: "opcode AND m = 0x4280 AND m" if "0xFFC0 AND m = m" for m
    using assms that by (metis and.assoc)
  have "opcode AND 0xFF00 = 0x4200" using sub [of "0xFF00"] by simp
  then have "hi_byte opcode = 0x42"
    using hi_byte_test [of opcode "0xFF" "0x42"] by (simp add: word8_all bit_and_iff)
  then show "execute M opcode = alu_operations opcode"
    unfolding execute_def hi_masks hi_byte_test by simp
  have "opcode AND 0x03C0 = 0x0280" using sub [of "0x03C0"] by simp
  moreover have "unat (drop_bit 6 (0x0280 :: u16)) = 10" by code_simp
  ultimately show "op_field opcode 0x03C0 6 = 10" by (simp only: op_field_def)
qed

lemma conditions_mean:
  fixes d s :: u32
  assumes z: "bit p 1 \<longleftrightarrow> d = s" and c: "bit p 2 \<longleftrightarrow> s \<le> d" and nv: "bit p 0 = bit p 3 \<longleftrightarrow> sint s \<le> sint d"
  shows "condition 0b0000 p = Some (d = s)" "condition 0b0001 p = Some (d \<noteq> s)"
    "condition 0b0010 p = Some (s \<le> d)" "condition 0b0011 p = Some (d < s)"
    "condition 0b1000 p = Some (s < d)" "condition 0b1001 p = Some (d \<le> s)"
    "condition 0b1010 p = Some (s \<le>s d)" "condition 0b1011 p = Some (d <s s)"
    "condition 0b1100 p = Some (s <s d)" "condition 0b1101 p = Some (d \<le>s s)"
proof -
  have lt: "d < s \<longleftrightarrow> \<not> s \<le> d" "s < d \<longleftrightarrow> s \<le> d \<and> d \<noteq> s" "d \<le> s \<longleftrightarrow> \<not> s \<le> d \<or> d = s" by auto
  have slt: "d <s s \<longleftrightarrow> \<not> sint s \<le> sint d" "s \<le>s d \<longleftrightarrow> sint s \<le> sint d"
    "s <s d \<longleftrightarrow> sint s \<le> sint d \<and> d \<noteq> s" "d \<le>s s \<longleftrightarrow> \<not> sint s \<le> sint d \<or> d = s"
    using sint_inject [of s d] by (auto simp: word_sle_eq word_sless_alt)
  show "condition 0b0000 p = Some (d = s)" "condition 0b0001 p = Some (d \<noteq> s)"
    "condition 0b0010 p = Some (s \<le> d)" "condition 0b0011 p = Some (d < s)"
    "condition 0b1000 p = Some (s < d)" "condition 0b1001 p = Some (d \<le> s)"
    "condition 0b1010 p = Some (s \<le>s d)" "condition 0b1011 p = Some (d <s s)"
    "condition 0b1100 p = Some (s <s d)" "condition 0b1101 p = Some (d \<le>s s)"
    unfolding lt slt using z c nv by (auto simp: condition_def)
qed

text \<open>
  after \<open>CMP Rd, Rs\<close> the branch conditions are the comparisons they are named after, equal and
  unequal, the unsigned order and the signed order, for all operands; no register changes.
\<close>

theorem compare_then_branch:
  assumes "length (arm_registers a) = 16" "opcode AND 0xFFC0 = 0x4280"
  shows "wpo (execute M opcode a) (\<lambda>(r, a'). let
      d = arm_registers a ! op_field opcode 0x07 0; s = arm_registers a ! op_field opcode 0x38 3; p = arm_status a'
    in r = Inr (Some ()) \<and> arm_registers a' = arm_registers a \<and>
       condition 0b0000 p = Some (d = s) \<and> condition 0b0001 p = Some (d \<noteq> s) \<and>
       condition 0b0010 p = Some (s \<le> d) \<and> condition 0b0011 p = Some (d < s) \<and>
       condition 0b1000 p = Some (s < d) \<and> condition 0b1001 p = Some (d \<le> s) \<and>
       condition 0b1010 p = Some (s \<le>s d) \<and> condition 0b1011 p = Some (d <s s) \<and>
       condition 0b1100 p = Some (s <s d) \<and> condition 0b1101 p = Some (d \<le>s s))"
proof -
  have ok: "arm_ok (\<lambda>_. True) a" using assms(1) by (simp add: arm_ok_def)
  note c = conditions_mean [OF compare_flags]
  show ?thesis
    unfolding decode_compare(1) [OF assms(2)] alu_operations_def Let_def decode_compare(2) [OF assms(2)]
    by (simp add: get_reg_ok [OF ok] alu_op_def normal_def with_status_def c)
qed

text \<open>A processor with the given registers, for examples.\<close>

definition arm_with :: "u32 list \<Rightarrow> 'm \<Rightarrow> 'm arm7" where
  "arm_with regs m = \<lparr>arm_registers = regs, arm_status = 0, arm_mam = mam_default,
     arm_cycles = cycle_state_default, arm_instruction_pc = 0, arm_expected_return_address = 0, arm_mem = m\<rparr>"

lemma compare_then_branch_witness:
  "\<forall>(M :: 'm thumb_memory) m. wpo (execute M 0x4288 (arm_with ([0x80000000, 1] @ replicate 14 0) m)) (\<lambda>(r, a').
     condition 0b1000 (arm_status a') = Some True \<and> condition 0b1011 (arm_status a') = Some True)"
proof (intro allI)
  fix M :: "'m thumb_memory" and m
  have f: "op_field 0x4288 0x07 0 = 0" "op_field 0x4288 0x38 3 = 1"
    by (simp_all add: op_field_def)
  show "wpo (execute M 0x4288 (arm_with ([0x80000000, 1] @ replicate 14 0) m)) (\<lambda>(r, a').
     condition 0b1000 (arm_status a') = Some True \<and> condition 0b1011 (arm_status a') = Some True)"
    by (rule wpo_mono [OF compare_then_branch]) (auto simp: arm_with_def f Let_def word_sless_alt)
qed

subsection \<open>Branch targets\<close>

lemma and_single_bit: "k < LENGTH('a) \<Longrightarrow> v AND push_bit k 1 = push_bit k 1 \<longleftrightarrow> bit v k" for v :: "'a::len word"
  by (auto intro!: bit_word_eqI simp: bit_simps dest: arg_cong [where f = "\<lambda>w. bit w k"])

text \<open>The sign extension written with masks is the signed reading of the low bits.\<close>

lemma bit_below_32: "bit (w :: u32) n \<Longrightarrow> n < 32"
  using bit_imp_le_length [of w n] by simp

lemma sign_extensions:
  fixes opcode :: u16
  shows "(let v = push_bit 1 (ucast (opcode AND 0x00FF) :: u32)
      in if v AND 0x100 = 0x100 then v OR 0xFFFFFF00 else v) = push_bit 1 (signed_take_bit 7 (ucast opcode))"
    "(let v = push_bit 1 (ucast (opcode AND 0x07FF) :: u32)
      in if v AND 0x800 = 0x800 then v OR 0xFFFFF800 else v) = push_bit 1 (signed_take_bit 10 (ucast opcode))"
    "(let v = push_bit 12 (ucast (opcode AND 0x07FF) :: u32)
      in if v AND 0x00400000 = 0x00400000 then v OR 0xFFC00000 else v) = push_bit 12 (signed_take_bit 10 (ucast opcode))"
proof -
  have one: "v AND push_bit k 1 = push_bit k 1 \<longleftrightarrow> bit v k" if "k < 32" for v :: u32 and k
    by (rule and_single_bit) (use that in simp)
  have gen: "(if v AND push_bit (s + k) 1 = push_bit (s + k) 1 then v OR NOT (mask (s + k)) else v) =
      push_bit s (signed_take_bit k (ucast opcode))"
    if "v = push_bit s (ucast (opcode AND mask (Suc k)) :: u32)" "s + k < 32" "k < 16" for v s k
    unfolding one [OF that(2)] unfolding that(1)
    by (rule bit_word_eqI) (use that(2,3) in \<open>auto simp: bit_simps min_def not_le less_Suc_eq\<close>)
  have m: "(0x00FF :: u16) = mask (Suc 7)" "(0x07FF :: u16) = mask (Suc 10)"
    "(0x100 :: u32) = push_bit (1 + 7) 1" "(0x800 :: u32) = push_bit (1 + 10) 1"
    "(0x00400000 :: u32) = push_bit (12 + 10) 1" "(0xFFFFFF00 :: u32) = NOT (mask (1 + 7))"
    "(0xFFFFF800 :: u32) = NOT (mask (1 + 10))" "(0xFFC00000 :: u32) = NOT (mask (12 + 10))"
    by code_simp+
  show "(let v = push_bit 1 (ucast (opcode AND 0x00FF) :: u32)
      in if v AND 0x100 = 0x100 then v OR 0xFFFFFF00 else v) = push_bit 1 (signed_take_bit 7 (ucast opcode))"
    unfolding m Let_def by (rule gen) simp_all
  show "(let v = push_bit 1 (ucast (opcode AND 0x07FF) :: u32)
      in if v AND 0x800 = 0x800 then v OR 0xFFFFF800 else v) = push_bit 1 (signed_take_bit 10 (ucast opcode))"
    unfolding m Let_def by (rule gen) simp_all
  show "(let v = push_bit 12 (ucast (opcode AND 0x07FF) :: u32)
      in if v AND 0x00400000 = 0x00400000 then v OR 0xFFC00000 else v) = push_bit 12 (signed_take_bit 10 (ucast opcode))"
    unfolding m Let_def by (rule gen) simp_all
qed

lemma set_reg_eq: "length (arm_registers a) = 16 \<Longrightarrow> i < 16 \<Longrightarrow>
    set_reg i v a = Some (a\<lparr>arm_registers := (arm_registers a)[i := v]\<rparr>)"
  by (simp add: set_reg_def)

lemma get_reg_eq: "length (arm_registers a) = 16 \<Longrightarrow> i < 16 \<Longrightarrow> get_reg i a = Some (arm_registers a ! i)"
  by (simp add: get_reg_def)

lemmas reg_ops = set_reg_eq get_reg_eq register_def REG_PC_def REG_LR_def

text \<open>
  a taken branch at address \<open>f\<close> continues at \<open>f + 4\<close> plus twice the signed offset in its low bits
  (eleven for \<open>B\<close>, eight for a conditional one), and one whose condition fails changes nothing.
\<close>

theorem branch_targets:
  assumes "length (arm_registers a) = 16" "arm_registers a ! REG_PC = f + 4"
  shows "wpo (unconditional_branch opcode a) (\<lambda>(r, a').
      r = Inr (Some ()) \<and> register REG_PC a' = Some (f + 4 + push_bit 1 (signed_take_bit 10 (ucast opcode))))"
    and "condition (ucast (drop_bit 8 (opcode AND 0x0F00))) (arm_status a) = Some taken \<Longrightarrow>
      wpo (conditional_branch opcode a) (\<lambda>(r, a'). r = Inr (Some ()) \<and>
        (if taken then register REG_PC a' = Some (f + 4 + push_bit 1 (signed_take_bit 7 (ucast opcode))) else a' = a))"
  using assms sign_extensions(1,2) [of opcode]
  by (simp_all add: unconditional_branch_def conditional_branch_def Let_def reg_ops normal_def)

lemma branch_targets_witness:
  "\<forall>m :: 'm.
     wpo (unconditional_branch 0xE7FE (arm_with (replicate 15 0 @ [0x104]) m)) (\<lambda>(r, a'). register REG_PC a' = Some 0x100) \<and>
     wpo (conditional_branch 0xD1FD (arm_with (replicate 15 0 @ [0x104]) m)) (\<lambda>(r, a'). register REG_PC a' = Some 0xFE)"
proof (intro allI conjI)
  fix m :: 'm
  let ?a = "arm_with (replicate 15 0 @ [0x104]) m"
  have a: "length (arm_registers ?a) = 16" "arm_registers ?a ! REG_PC = 0x100 + 4"
    by (simp_all add: arm_with_def REG_PC_def nth_append)
  have v: "push_bit 1 (signed_take_bit 10 (ucast (0xE7FE :: u16))) = (- 4 :: u32)"
    "push_bit 1 (signed_take_bit 7 (ucast (0xD1FD :: u16))) = (- 6 :: u32)"
    by code_simp+
  have c: "condition (ucast (drop_bit 8 (0xD1FD AND 0x0F00 :: u16))) (arm_status ?a) = Some True"
    by (simp add: arm_with_def condition_def)
  show "wpo (unconditional_branch 0xE7FE ?a) (\<lambda>(r, a'). register REG_PC a' = Some 0x100)"
    by (rule wpo_mono [OF branch_targets(1) [OF a]]) (simp add: split_beta v)
  show "wpo (conditional_branch 0xD1FD ?a) (\<lambda>(r, a'). register REG_PC a' = Some 0xFE)"
    by (rule wpo_mono [OF branch_targets(2) [OF a c]]) (simp add: split_beta v)
qed

text \<open>
  a call returns. The two halves of \<open>BL\<close> at an even address \<open>f\<close> lead to \<open>f + 4\<close> plus the
  22-bit signed offset they carry, and \<open>BX LR\<close> there continues at \<open>f + 4\<close>, behind the pair.
\<close>

theorem call_returns:
  assumes "length (arm_registers a) = 16" "arm_registers a ! REG_PC = f + 4" "\<not> bit f 0"
    and "\<not> bit hi 11" "bit lo 11"
  shows "wpo (do {
      (_, a) \<leftarrow> long_branch_with_link hi a;
      a \<leftarrow> set_reg REG_PC (f + 2 + 4) a;
      (_, a) \<leftarrow> long_branch_with_link lo a;
      (_, b) \<leftarrow> hi_register_ops 0x4770 a;
      Some (a, b) }) (\<lambda>(a, b).
    register REG_PC a = Some (f + 4 + push_bit 12 (signed_take_bit 10 (ucast hi)) +
      push_bit 1 (ucast (lo AND 0x07FF))) \<and>
    register REG_PC b = Some (f + 4))"
proof -
  have mask: "(0x800 :: u16) = push_bit 11 1" by code_simp
  have hl: "hi AND 0x800 \<noteq> 0x800" "lo AND 0x800 = 0x800"
    unfolding mask using assms(4,5) and_single_bit [of 11, where 'a = 16] by simp_all
  have bx: "op_field 0x4770 0x300 8 = 3" "op_field 0x4770 0x38 3 = 6" "op_field 0x4770 0x07 0 = 0"
    by (simp_all add: op_field_def)
  have "even f" using assms(3) by (simp add: bit_0)
  then have odd: "odd (f + 5)" "odd (f + 7)" by simp_all
  then have o: "(f + 5) AND 1 = 1" by (simp only: and_one_eq odd_iff_mod_2_eq_one)
  have "NOT (f + 7) AND 1 = 0"
    using odd(2) by (simp only: and_one_eq even_iff_mod_2_eq_zero [symmetric] even_not_iff) simp
  then have d: "(f + 7) - 1 = (f + 7) AND NOT 1" by (rule disjunctive_diff_eq_and_not)
  have m: "(0xFFFFFFFE :: u32) = NOT 1" by code_simp
  have e: "(f + 7) AND 0xFFFFFFFE = f + 6" unfolding m using d by (simp add: add.commute)
  show ?thesis
    using assms(1,2) hl sign_extensions(3) [of hi]
    by (simp add: long_branch_with_link_def hi_register_ops_def Let_def reg_ops normal_def bx o [unfolded add.commute [of f]] e [unfolded add.commute [of f]])
qed

lemma call_returns_witness:
  "\<forall>m :: 'm. wpo (do {
      (_, a) \<leftarrow> long_branch_with_link 0xF7FF (arm_with (replicate 15 0 @ [0x104]) m);
      a \<leftarrow> set_reg REG_PC (0x100 + 2 + 4) a;
      (_, a) \<leftarrow> long_branch_with_link 0xFFFE a;
      (_, b) \<leftarrow> hi_register_ops 0x4770 a;
      Some (a, b) }) (\<lambda>(a, b). register REG_PC a = Some 0x100 \<and> register REG_PC b = Some 0x104)"
proof
  fix m :: 'm
  let ?a = "arm_with (replicate 15 0 @ [0x104]) m"
  have a: "length (arm_registers ?a) = 16" "arm_registers ?a ! REG_PC = 0x100 + 4"
    by (simp_all add: arm_with_def REG_PC_def nth_append)
  have b: "\<not> bit (0x100 :: u32) 0" "\<not> bit (0xF7FF :: u16) 11" "bit (0xFFFE :: u16) 11"
    by code_simp+
  have v: "push_bit 12 (signed_take_bit 10 (ucast (0xF7FF :: u16))) + push_bit 1 (ucast (0xFFFE AND 0x07FF :: u16)) = (- 4 :: u32)"
    by code_simp
  show "wpo (do {
      (_, a) \<leftarrow> long_branch_with_link 0xF7FF ?a;
      a \<leftarrow> set_reg REG_PC (0x100 + 2 + 4) a;
      (_, a) \<leftarrow> long_branch_with_link 0xFFFE a;
      (_, b) \<leftarrow> hi_register_ops 0x4770 a;
      Some (a, b) }) (\<lambda>(a, b). register REG_PC a = Some 0x100 \<and> register REG_PC b = Some 0x104)"
    by (rule wpo_mono [OF call_returns [OF a b]]) (simp only: split_beta add.assoc v, simp)
qed

subsection \<open>Programs that stop the interpreter\<close>

lemma read16_frame [simp]:
  "read16 M addr al (a\<lparr>arm_instruction_pc := pc\<rparr>) = read16 M addr al a"
  by (simp add: read16_def check_null_def aligned_def check_alignment_def peripheral_read_def
      cong: option.case_cong)

lemma pipeline_ok: "arm_ok ok a \<Longrightarrow> (\<And>a'. arm_ok ok a' \<Longrightarrow> Q a') \<Longrightarrow> wpo (fill_pipeline a) Q"
  by (simp add: fill_pipeline_def)

context thumb_mem
begin

lemma step_fine:
  assumes ok: "arm_ok ok a"
    and u: "\<And>opcode. read16 M (arm_registers a ! REG_PC - 2) False a = Inr opcode \<Longrightarrow> \<not> undefined_opcode opcode"
  shows "fine ok (arm_step M a)"
proof (cases "read16 M (arm_registers a ! REG_PC - 2) False a")
  case (Inl f)
  then show ?thesis using ok by (simp add: arm_step_def Let_def)
next
  case (Inr opcode)
  let ?f = "arm_registers a ! REG_PC - 2"
  have x: "wpo (execute M opcode b) (\<lambda>(r, b'). arm_ok ok b')" if "arm_ok ok b" for b
    using execute_fine [OF that u [OF Inr]] by (simp add: fine_def)
  have len: "length (arm_registers a) = 16" and m: "ok (arm_mem a)" using ok by (simp_all add: arm_ok_def)
  show ?thesis
    unfolding arm_step_def get_reg_eq [OF len special_reg(3)] fine_def
    using ok len m Inr
    by (auto simp: Let_def set_reg_eq get_reg_eq arm_ok_def
        intro!: wpo_mono [OF x] pipeline_ok [of ok] simp del: arm_ok_frame)
qed

end

lemma step_undefined:
  assumes ok: "arm_ok ok a"
    and u: "read16 M (arm_registers a ! REG_PC - 2) False a = Inr opcode" "undefined_opcode opcode"
  shows "arm_step M a = None"
proof -
  have x: "execute M opcode b = None" if "arm_ok ok b" for b
    by (rule execute_undefined [OF that u(2)])
  have len: "length (arm_registers a) = 16" and m: "ok (arm_mem a)" using ok by (simp_all add: arm_ok_def)
  show ?thesis
    unfolding arm_step_def get_reg_eq [OF len special_reg(3)]
    using len m u(1) by (simp add: Let_def set_reg_eq get_reg_eq x arm_ok_def del: arm_ok_frame)
qed

interpretation any_memory: thumb_mem M "\<lambda>_. True" for M :: "'m thumb_memory"
  by unfold_locales simp

text \<open>
  C29: which programs stop the emulator: a step of the interpreter fails to return exactly when the opcode it
  fetches has one of the six upper bytes \<open>B8 B9 BA BB BE BF\<close>, whatever the memory behind it. Every
  other opcode returns, memory faults included.
\<close>

theorem thumb_step_panics_iff:
  assumes "length (arm_registers a) = 16"
  shows "arm_step M a = None \<longleftrightarrow>
    (\<exists>opcode. read16 M (arm_registers a ! REG_PC - 2) False a = Inr opcode \<and> undefined_opcode opcode)"
proof -
  have ok: "arm_ok (\<lambda>_. True) a" using assms by (simp add: arm_ok_def)
  have "\<exists>opcode. read16 M (arm_registers a ! REG_PC - 2) False a = Inr opcode \<and> undefined_opcode opcode"
    if "arm_step M a = None"
    using any_memory.step_fine [OF ok, of M] that by (auto simp: fine_def)
  then show ?thesis using step_undefined [OF ok, of M] by blast
qed

text \<open>A memory of one slice at address 0.\<close>

definition flat_memory :: "u8 list thumb_memory" where
  "flat_memory = default_thumb_memory (\<lambda>addr w x m. Some (m, 0, \<lambda>m'. m')) (\<lambda>_. (0xFF00, 0x1FFE, 0)) (\<lambda>addr m. True)"

lemma thumb_step_panics_iff_witness:
  "arm_step flat_memory (arm_with (replicate 15 0 @ [2]) [0x00, 0xBE]) = None \<and>
   arm_step flat_memory (arm_with (replicate 15 0 @ [2]) [0x00, 0xDF]) \<noteq> None"
proof -
  have len: "length (arm_registers (arm_with (replicate 15 0 @ [2]) m)) = 16" for m :: "u8 list"
    by (simp add: arm_with_def)
  have rd: "read16 flat_memory (arm_registers (arm_with (replicate 15 0 @ [2]) [0x00, h]) ! REG_PC - 2) False
      (arm_with (replicate 15 0 @ [2]) [0x00, h]) = Inr (le16 0x00 h)" for h
    by (simp add: arm_with_def REG_PC_def nth_append read16_def flat_memory_def default_thumb_memory_def
        check_null_def try_ok_def aligned_def check_alignment_def)
  have h: "hi_byte (le16 0x00 h) = h" for h
    by (simp add: hi_byte_def)
  show ?thesis
    unfolding thumb_step_panics_iff [OF len] rd by (simp add: undefined_opcode_def h)
qed

end
