(* ===== verification/Board_DpcPlus.thy ===== *)
theory Board_DpcPlus
  imports Board Thumb_Props
begin

text \<open>
  The DPC+ board of \<open>crates/rusty2600-cart/src/lib.rs\<close>: a register window with data fetchers, music and a
  random number generator, and the ARM coprocessor, which a register write runs to completion (or to the
  step cap) against the board's own ROM and RAM. The memory the coprocessor borrows is the
  board itself: \<open>map_address\<close> hands out one of its seven buffers.
\<close>

subsection \<open>Checked accesses to buffers\<close>

text \<open>\<open>xs.get(i).copied().unwrap_or(0)\<close> and \<open>if let Some(slot) = xs.get_mut(i) { *slot = v }\<close>.\<close>

definition get_or_0 :: "u8 list \<Rightarrow> nat \<Rightarrow> u8" where
  "get_or_0 xs i = (if i < length xs then xs ! i else 0)"

definition set_in :: "u8 list \<Rightarrow> nat \<Rightarrow> u8 \<Rightarrow> u8 list" where
  "set_in xs i v = (if i < length xs then xs[i := v] else xs)"

lemma length_set_in [simp]: "length (set_in xs i v) = length xs"
  by (simp add: set_in_def)

text \<open>
  The loop over the segments of a coprocessor's address space: origin, contents, and how to put
  changed contents back; the first segment that holds the address is handed out.
\<close>

fun find_segment :: "(u32 \<times> u8 list \<times> (u8 list \<Rightarrow> 'm)) list \<Rightarrow> u32 \<Rightarrow> (u8 list \<times> u32 \<times> (u8 list \<Rightarrow> 'm)) option" where
  "find_segment [] addr = None"
| "find_segment ((origin, buf, put) # ss) addr =
     (if origin \<le> addr \<and> addr < origin + word_of_nat (length buf) then Some (buf, origin, put)
      else find_segment ss addr)"

lemma find_segment_in: "find_segment ss addr = Some (buf, origin, put) \<Longrightarrow> (origin, buf, put) \<in> set ss"
  by (induction ss addr rule: find_segment.induct) (auto split: if_splits)

subsection \<open>State\<close>

record dpc_plus_fetcher =
  pf_low :: u8
  pf_hi :: u8
  pf_top :: u8
  pf_bottom :: u8

definition pf_default :: dpc_plus_fetcher where
  "pf_default = \<lparr>pf_low = 0, pf_hi = 0, pf_top = 0, pf_bottom = 0\<rparr>"

definition pf_inc :: "dpc_plus_fetcher \<Rightarrow> dpc_plus_fetcher" where
  "pf_inc f = (let f = f\<lparr>pf_low := pf_low f + 1\<rparr>
     in if pf_low f = 0x00 then f\<lparr>pf_hi := pf_hi f + 1\<rparr> else f)"

definition pf_dec :: "dpc_plus_fetcher \<Rightarrow> dpc_plus_fetcher" where
  "pf_dec f = (let f = f\<lparr>pf_low := pf_low f - 1\<rparr>
     in if pf_low f = 0xFF then f\<lparr>pf_hi := pf_hi f - 1\<rparr> else f)"

definition pf_is_window :: "dpc_plus_fetcher \<Rightarrow> bool" where
  "pf_is_window f = (let
     a = (ucast (pf_top f) - ucast (pf_low f) :: u16) AND 0xFF;
     b = (ucast (pf_top f) - ucast (pf_bottom f) :: u16) AND 0xFF
   in b <s a)"

definition pf_addr :: "dpc_plus_fetcher \<Rightarrow> nat" where
  "pf_addr f = unat (le16 (pf_low f) (pf_hi f) AND 0x0FFF)"

record dpc_plus_frac_fetcher =
  ff_low :: u8
  ff_hi :: u8
  ff_increment :: u8
  ff_count :: u8

definition ff_default :: dpc_plus_frac_fetcher where
  "ff_default = \<lparr>ff_low = 0, ff_hi = 0, ff_increment = 0, ff_count = 0\<rparr>"

definition ff_inc :: "dpc_plus_frac_fetcher \<Rightarrow> dpc_plus_frac_fetcher" where
  "ff_inc f = (let
     new_count = ff_count f + ff_increment f;
     overflowed = (256 \<le> unat (ff_count f) + unat (ff_increment f));
     f = f\<lparr>ff_count := new_count\<rparr>
   in if overflowed \<or> new_count < ff_increment f then
        (let f = f\<lparr>ff_low := ff_low f + 1\<rparr>
         in if ff_low f = 0x00 then f\<lparr>ff_hi := (ff_hi f + 1) AND 0x0F\<rparr> else f)
      else f)"

definition ff_addr :: "dpc_plus_frac_fetcher \<Rightarrow> nat" where
  "ff_addr f = unat (le16 (ff_low f) (ff_hi f) AND 0x0FFF)"

record dpc_plus_music_fetcher =
  pm_waveform :: u8
  pm_freq :: u32
  pm_count :: u32

definition pm_default :: dpc_plus_music_fetcher where
  "pm_default = \<lparr>pm_waveform = 0, pm_freq = 0, pm_count = 0\<rparr>"

definition MAGIC :: u32 where "MAGIC = 0x10ADAB1E"

definition dpp_rng_next :: "u32 \<Rightarrow> u32" where
  "dpp_rng_next v = (if v AND push_bit 10 1 \<noteq> 0 then MAGIC XOR (drop_bit 11 v OR push_bit 21 v)
     else drop_bit 11 v OR push_bit 21 v)"

definition dpp_rng_prev :: "u32 \<Rightarrow> u32" where
  "dpp_rng_prev v = (if v AND push_bit 31 1 \<noteq> 0 then push_bit 11 (MAGIC AND v) OR drop_bit 21 (MAGIC XOR v)
     else push_bit 11 v OR drop_bit 21 v)"

record bank_dpc_plus =
  dpp_driver_rom :: "u8 list"
  dpp_custom_rom :: "u8 list"
  dpp_data_rom :: "u8 list"
  dpp_freq_rom :: "u8 list"
  dpp_driver_ram :: "u8 list"
  dpp_data_ram :: "u8 list"
  dpp_freq_ram :: "u8 list"
  dpp_bank :: nat
  dpp_bank_count :: nat
  dpp_fetcher :: "dpc_plus_fetcher list"
  dpp_frac_fetcher :: "dpc_plus_frac_fetcher list"
  dpp_music :: "dpc_plus_music_fetcher list"
  dpp_rng :: u32
  dpp_fast_fetch :: bool
  dpp_lda_pending :: bool
  dpp_parameters :: "u8 list"
  dpp_arm_active :: bool
  dpp_beats :: u32

definition DRIVER_SIZE :: nat where "DRIVER_SIZE = 3072"
definition DATA_SIZE :: nat where "DATA_SIZE = 4096"
definition FREQ_SIZE :: nat where "FREQ_SIZE = 1024"
definition DPP_BANK_SIZE :: nat where "DPP_BANK_SIZE = 4096"
definition ARM_STEP_SAFETY_CAP :: nat where "ARM_STEP_SAFETY_CAP = 4000000"
definition RNG_SEED :: u32 where "RNG_SEED = 0x2B435044"

definition dpp_bank_count_of :: "u8 list \<Rightarrow> nat option" where
  "dpp_bank_count_of rom = (let overhead = DRIVER_SIZE + DATA_SIZE + FREQ_SIZE
     in if length rom \<le> overhead \<or> (length rom - overhead) mod DPP_BANK_SIZE \<noteq> 0 then None
        else (let bank_count = (length rom - overhead) div DPP_BANK_SIZE
              in if bank_count = 0 \<or> bank_count > 8 then None else Some bank_count))"

definition dpp_new :: "u8 list \<Rightarrow> bank_dpc_plus option" where
  "dpp_new rom = do {
     bank_count \<leftarrow> dpp_bank_count_of rom;
     driver_rom \<leftarrow> slice_chk 0 DRIVER_SIZE rom;
     let custom_end = DRIVER_SIZE + bank_count * DPP_BANK_SIZE;
     custom_rom \<leftarrow> slice_chk DRIVER_SIZE custom_end rom;
     data_rom \<leftarrow> slice_chk custom_end (custom_end + DATA_SIZE) rom;
     freq_rom \<leftarrow> slice_chk (custom_end + DATA_SIZE) (custom_end + DATA_SIZE + FREQ_SIZE) rom;
     Some \<lparr>dpp_driver_rom = driver_rom, dpp_custom_rom = custom_rom, dpp_data_rom = data_rom,
       dpp_freq_rom = freq_rom, dpp_driver_ram = driver_rom, dpp_data_ram = data_rom,
       dpp_freq_ram = freq_rom, dpp_bank = 0, dpp_bank_count = bank_count,
       dpp_fetcher = replicate 8 pf_default, dpp_frac_fetcher = replicate 8 ff_default,
       dpp_music = replicate 3 pm_default, dpp_rng = RNG_SEED, dpp_fast_fetch = False,
       dpp_lda_pending = False, dpp_parameters = [], dpp_arm_active = False, dpp_beats = 0\<rparr> }"

definition dpp_hotspot :: "u16 \<Rightarrow> bank_dpc_plus \<Rightarrow> bool \<times> bank_dpc_plus" where
  "dpp_hotspot addr c = (let a = addr AND 0x1FFF
     in if dpp_arm_active c then (False, c)
        else if 0x1FF6 \<le> a \<and> a \<le> 0x1FFB then (True, c\<lparr>dpp_bank := unat (a - 0x1FF6)\<rparr>)
        else (False, c))"

subsection \<open>The coprocessor's memory\<close>

definition DPP_FLASH_BASE :: u32 where "DPP_FLASH_BASE = 0x00000000"
definition DPP_SRAM_BASE :: u32 where "DPP_SRAM_BASE = 0x40000000"

definition custom_rom_origin :: "bank_dpc_plus \<Rightarrow> u32" where
  "custom_rom_origin c = DPP_FLASH_BASE + word_of_nat DRIVER_SIZE"

definition data_rom_origin :: "bank_dpc_plus \<Rightarrow> u32" where
  "data_rom_origin c = custom_rom_origin c + word_of_nat (length (dpp_custom_rom c))"

definition freq_rom_origin :: "bank_dpc_plus \<Rightarrow> u32" where
  "freq_rom_origin c = data_rom_origin c + word_of_nat (length (dpp_data_rom c))"

definition data_ram_origin :: "bank_dpc_plus \<Rightarrow> u32" where
  "data_ram_origin c = DPP_SRAM_BASE + word_of_nat DRIVER_SIZE"

definition freq_ram_origin :: "bank_dpc_plus \<Rightarrow> u32" where
  "freq_ram_origin c = data_ram_origin c + word_of_nat (length (dpp_data_ram c))"

definition dpp_segments :: "bank_dpc_plus \<Rightarrow> (u32 \<times> u8 list \<times> (u8 list \<Rightarrow> bank_dpc_plus)) list" where
  "dpp_segments c =
     [(DPP_FLASH_BASE, dpp_driver_rom c, \<lambda>m. c\<lparr>dpp_driver_rom := m\<rparr>),
      (custom_rom_origin c, dpp_custom_rom c, \<lambda>m. c\<lparr>dpp_custom_rom := m\<rparr>),
      (data_rom_origin c, dpp_data_rom c, \<lambda>m. c\<lparr>dpp_data_rom := m\<rparr>),
      (freq_rom_origin c, dpp_freq_rom c, \<lambda>m. c\<lparr>dpp_freq_rom := m\<rparr>),
      (DPP_SRAM_BASE, dpp_driver_ram c, \<lambda>m. c\<lparr>dpp_driver_ram := m\<rparr>),
      (data_ram_origin c, dpp_data_ram c, \<lambda>m. c\<lparr>dpp_data_ram := m\<rparr>),
      (freq_ram_origin c, dpp_freq_ram c, \<lambda>m. c\<lparr>dpp_freq_ram := m\<rparr>)]"

definition dpp_reset_vectors :: "bank_dpc_plus \<Rightarrow> u32 \<times> u32 \<times> u32" where
  "dpp_reset_vectors c = (freq_ram_origin c + word_of_nat (length (dpp_freq_ram c)) - 3,
     custom_rom_origin c, custom_rom_origin c + 8)"

definition dpp_memory :: "bank_dpc_plus thumb_memory" where
  "dpp_memory = default_thumb_memory (\<lambda>addr w x c. find_segment (dpp_segments c) addr)
     dpp_reset_vectors (\<lambda>addr c. True)"

text \<open>The loop \<open>for _ in 0..CAP\<close>: the processor when the program has ended, faulted or used up the cap.\<close>

fun arm_run :: "'m thumb_memory \<Rightarrow> nat \<Rightarrow> 'm arm7 \<Rightarrow> 'm arm7 option" where
  "arm_run M 0 a = Some a"
| "arm_run M (Suc n) a = do {
     ((outcome, _), a) \<leftarrow> arm_step M a;
     (case outcome of Normal \<Rightarrow> arm_run M n a | _ \<Rightarrow> Some a) }"

definition dpp_run_arm :: "bank_dpc_plus \<Rightarrow> bank_dpc_plus option" where
  "dpp_run_arm c = do {
     let c = c\<lparr>dpp_arm_active := True\<rparr>;
     arm \<leftarrow> arm_new dpp_memory c;
     arm \<leftarrow> arm_run dpp_memory ARM_STEP_SAFETY_CAP arm;
     Some ((arm_mem arm)\<lparr>dpp_arm_active := False\<rparr>) }"

subsection \<open>Registers\<close>

definition copy_rom_to_fetcher :: "bank_dpc_plus \<Rightarrow> bank_dpc_plus" where
  "copy_rom_to_fetcher c = (let
     addr = le16 (dpp_parameters c ! 0) (dpp_parameters c ! 1);
     fetcher_idx = unat (dpp_parameters c ! 2 AND 0x07);
     count = unat (dpp_parameters c ! 3);
     base = pf_addr (dpp_fetcher c ! fetcher_idx);
     src_base = unat addr - length (dpp_custom_rom c)
   in fold (\<lambda>i c. let src = src_base + i; dst = (base + i) AND 0x0FFF
        in if src < length (dpp_data_rom c)
           then c\<lparr>dpp_data_ram := set_in (dpp_data_ram c) dst (dpp_data_rom c ! src)\<rparr> else c) [0..<count] c)"

definition copy_value_to_fetcher :: "bank_dpc_plus \<Rightarrow> bank_dpc_plus" where
  "copy_value_to_fetcher c = (let
     v = dpp_parameters c ! 0;
     fetcher_idx = unat (dpp_parameters c ! 2 AND 0x07);
     count = unat (dpp_parameters c ! 3);
     f = dpp_fetcher c ! fetcher_idx
   in fold (\<lambda>i c. let low = pf_low f + word_of_nat i; hi = pf_hi f + word_of_nat i;
           dst = unat (le16 low hi AND 0x0FFF)
        in c\<lparr>dpp_data_ram := set_in (dpp_data_ram c) dst v\<rparr>) [0..<count] c)"

definition dispatch_function_call :: "u8 \<Rightarrow> bank_dpc_plus \<Rightarrow> bank_dpc_plus option" where
  "dispatch_function_call data c =
     (if data = 0 then Some (c\<lparr>dpp_parameters := []\<rparr>)
      else if data = 1 then
        (let c = (if length (dpp_parameters c) = 4 then copy_rom_to_fetcher c else c)
         in Some (c\<lparr>dpp_parameters := []\<rparr>))
      else if data = 2 then
        (let c = (if length (dpp_parameters c) = 4 then copy_value_to_fetcher c else c)
         in Some (c\<lparr>dpp_parameters := []\<rparr>))
      else if data = 254 \<or> data = 255 then dpp_run_arm c
      else Some c)"

definition on_fetcher :: "nat \<Rightarrow> (dpc_plus_fetcher \<Rightarrow> dpc_plus_fetcher) \<Rightarrow> bank_dpc_plus \<Rightarrow> bank_dpc_plus" where
  "on_fetcher i f c = c\<lparr>dpp_fetcher := (dpp_fetcher c)[i := f (dpp_fetcher c ! i)]\<rparr>"

definition on_frac :: "nat \<Rightarrow> (dpc_plus_frac_fetcher \<Rightarrow> dpc_plus_frac_fetcher) \<Rightarrow> bank_dpc_plus \<Rightarrow> bank_dpc_plus" where
  "on_frac i f c = c\<lparr>dpp_frac_fetcher := (dpp_frac_fetcher c)[i := f (dpp_frac_fetcher c ! i)]\<rparr>"

definition on_music :: "nat \<Rightarrow> (dpc_plus_music_fetcher \<Rightarrow> dpc_plus_music_fetcher) \<Rightarrow> bank_dpc_plus \<Rightarrow> bank_dpc_plus" where
  "on_music i f c = c\<lparr>dpp_music := (dpp_music c)[i := f (dpp_music c ! i)]\<rparr>"

definition music_sum :: "bank_dpc_plus \<Rightarrow> u8" where
  "music_sum c = fold (\<lambda>m sum. let
       idx = unat (pm_waveform m) * 32 + unat (drop_bit 27 (pm_count m))
     in sum + get_or_0 (dpp_data_ram c) (idx AND 0x0FFF)) (dpp_music c) 0"

definition dpp_read_register :: "u16 \<Rightarrow> bank_dpc_plus \<Rightarrow> u8 \<times> bank_dpc_plus" where
  "dpp_read_register a c = (let i = unat (a AND 0x07) in
     if a = 0x00 then (let c = c\<lparr>dpp_rng := dpp_rng_next (dpp_rng c)\<rparr> in (ucast (dpp_rng c), c))
     else if a = 0x01 then (let c = c\<lparr>dpp_rng := dpp_rng_prev (dpp_rng c)\<rparr> in (ucast (dpp_rng c), c))
     else if a = 0x02 then (ucast (drop_bit 8 (dpp_rng c)), c)
     else if a = 0x03 then (ucast (drop_bit 16 (dpp_rng c)), c)
     else if a = 0x04 then (ucast (drop_bit 24 (dpp_rng c)), c)
     else if a = 0x05 then (music_sum c, c)
     else if 0x08 \<le> a \<and> a \<le> 0x0F then
       (get_or_0 (dpp_data_ram c) (pf_addr (dpp_fetcher c ! i)), on_fetcher i pf_inc c)
     else if 0x10 \<le> a \<and> a \<le> 0x17 then
       (if pf_is_window (dpp_fetcher c ! i) then get_or_0 (dpp_data_ram c) (pf_addr (dpp_fetcher c ! i)) else 0,
        on_fetcher i pf_inc c)
     else if 0x18 \<le> a \<and> a \<le> 0x1F then
       (get_or_0 (dpp_data_ram c) (ff_addr (dpp_frac_fetcher c ! i)), on_frac i ff_inc c)
     else if 0x20 \<le> a \<and> a \<le> 0x23 then (if pf_is_window (dpp_fetcher c ! i) then 0xFF else 0x00, c)
     else (0, c))"

definition freq_at :: "nat \<Rightarrow> u8 list \<Rightarrow> u32 option" where
  "freq_at base bs = (if base + 4 \<le> length bs
     then Some (le32 (bs ! base) (bs ! (base + 1)) (bs ! (base + 2)) (bs ! (base + 3))) else None)"

definition dpp_write_register :: "u16 \<Rightarrow> u8 \<Rightarrow> bank_dpc_plus \<Rightarrow> bank_dpc_plus option" where
  "dpp_write_register a v c = (let i = unat (a AND 0x07) in
     if 0x28 \<le> a \<and> a \<le> 0x2F then Some (on_frac i (\<lambda>f. f\<lparr>ff_low := v, ff_count := 0\<rparr>) c)
     else if 0x30 \<le> a \<and> a \<le> 0x37 then Some (on_frac i (\<lambda>f. f\<lparr>ff_hi := v AND 0x0F\<rparr>) c)
     else if 0x38 \<le> a \<and> a \<le> 0x3F then Some (on_frac i (\<lambda>f. f\<lparr>ff_increment := v, ff_count := 0\<rparr>) c)
     else if 0x40 \<le> a \<and> a \<le> 0x47 then Some (on_fetcher i (\<lambda>f. f\<lparr>pf_top := v\<rparr>) c)
     else if 0x48 \<le> a \<and> a \<le> 0x4F then Some (on_fetcher i (\<lambda>f. f\<lparr>pf_bottom := v\<rparr>) c)
     else if 0x50 \<le> a \<and> a \<le> 0x57 then Some (on_fetcher i (\<lambda>f. f\<lparr>pf_low := v\<rparr>) c)
     else if a = 0x58 then Some (c\<lparr>dpp_fast_fetch := (v = 0)\<rparr>)
     else if a = 0x59 then
       Some (if length (dpp_parameters c) < 4 then c\<lparr>dpp_parameters := dpp_parameters c @ [v]\<rparr> else c)
     else if a = 0x5A then dispatch_function_call v c
     else if 0x5D \<le> a \<and> a \<le> 0x5F then Some (on_music (unat (a - 0x5D)) (\<lambda>m. m\<lparr>pm_waveform := v AND 0x7F\<rparr>) c)
     else if 0x60 \<le> a \<and> a \<le> 0x67 then
       (let c = on_fetcher i pf_dec c; dst = pf_addr (dpp_fetcher c ! i)
        in Some (c\<lparr>dpp_data_ram := set_in (dpp_data_ram c) dst v\<rparr>))
     else if 0x68 \<le> a \<and> a \<le> 0x6F then Some (on_fetcher i (\<lambda>f. f\<lparr>pf_hi := v\<rparr>) c)
     else if a = 0x70 then Some (c\<lparr>dpp_rng := RNG_SEED\<rparr>)
     else if a = 0x71 then Some (c\<lparr>dpp_rng := (dpp_rng c AND 0xFFFFFF00) OR ucast v\<rparr>)
     else if a = 0x72 then Some (c\<lparr>dpp_rng := (dpp_rng c AND 0xFFFF00FF) OR push_bit 8 (ucast v)\<rparr>)
     else if a = 0x73 then Some (c\<lparr>dpp_rng := (dpp_rng c AND 0xFF00FFFF) OR push_bit 16 (ucast v)\<rparr>)
     else if a = 0x74 then Some (c\<lparr>dpp_rng := (dpp_rng c AND 0x00FFFFFF) OR push_bit 24 (ucast v)\<rparr>)
     else if 0x75 \<le> a \<and> a \<le> 0x77 then
       (case freq_at (unat v * 4) (dpp_freq_ram c) of
          Some freq \<Rightarrow> Some (on_music (unat (a - 0x75)) (\<lambda>m. m\<lparr>pm_freq := freq\<rparr>) c)
        | None \<Rightarrow> Some c)
     else if 0x78 \<le> a \<and> a \<le> 0x7F then
       (let dst = pf_addr (dpp_fetcher c ! i);
            c = c\<lparr>dpp_data_ram := set_in (dpp_data_ram c) dst v\<rparr>
        in Some (on_fetcher i pf_inc c))
     else Some c)"

subsection \<open>The board\<close>

definition dpp_read :: "u16 \<Rightarrow> bank_dpc_plus \<Rightarrow> (u8 \<times> bank_dpc_plus) option" where
  "dpp_read addr c = (let (hit, c) = dpp_hotspot addr c in
     if hit then Some (0, c)
     else (let a = addr AND 0x0FFF in
       if a \<ge> 0x0080 then
         (let data = get_or_0 (dpp_custom_rom c) (dpp_bank c * DPP_BANK_SIZE + unat a)
          in if dpp_fast_fetch c \<and> dpp_lda_pending c \<and> data < 0x28
             then Some (dpp_read_register (ucast data) (c\<lparr>dpp_lda_pending := False\<rparr>))
             else Some (data, c\<lparr>dpp_lda_pending := (dpp_fast_fetch c \<and> data = 0xA9)\<rparr>))
       else Some (dpp_read_register a c)))"

definition dpp_write :: "u16 \<Rightarrow> u8 \<Rightarrow> bank_dpc_plus \<Rightarrow> bank_dpc_plus option" where
  "dpp_write addr v c = (let (hit, c) = dpp_hotspot addr c in
     if hit then Some c
     else (let a = addr AND 0x0FFF
       in if a \<ge> 0x0028 \<and> a \<le> 0x007F then dpp_write_register a v c else Some c))"

definition dpp_tick :: "bank_dpc_plus \<Rightarrow> bank_dpc_plus option" where
  "dpp_tick c = (let c = c\<lparr>dpp_beats := dpp_beats c + 1\<rparr> in
     if dpp_beats c mod 59 = 0
     then Some (c\<lparr>dpp_beats := 0, dpp_music := map (\<lambda>m. m\<lparr>pm_count := pm_count m + pm_freq m\<rparr>) (dpp_music c)\<rparr>)
     else Some c)"

definition dpp_board :: "bank_dpc_plus board_ops" where
  "dpp_board = (default_board dpp_read dpp_write BestEffort)\<lparr>bd_tick := dpp_tick\<rparr>"

subsection \<open>The invariant\<close>

text \<open>What every access keeps, the coprocessor's included: the sizes of the buffers and arrays.\<close>

definition dpp_shape :: "bank_dpc_plus \<Rightarrow> bool" where
  "dpp_shape c \<longleftrightarrow> length (dpp_driver_rom c) = 3072 \<and> length (dpp_data_rom c) = 4096 \<and>
     length (dpp_freq_rom c) = 1024 \<and> length (dpp_driver_ram c) = 3072 \<and> length (dpp_data_ram c) = 4096 \<and>
     length (dpp_freq_ram c) = 1024 \<and> length (dpp_custom_rom c) = dpp_bank_count c * 4096 \<and>
     dpp_bank_count c \<in> {1..8} \<and> length (dpp_fetcher c) = 8 \<and> length (dpp_frac_fetcher c) = 8 \<and>
     length (dpp_music c) = 3 \<and> length (dpp_parameters c) \<le> 4"

definition dpp_ok :: "bank_dpc_plus \<Rightarrow> bool" where
  "dpp_ok c \<longleftrightarrow> dpp_shape c \<and> \<not> dpp_arm_active c"

lemma dpp_new_ok: "dpp_new rom = Some c \<Longrightarrow> dpp_ok c"
  by (auto simp: dpp_new_def dpp_bank_count_of_def Let_def bind_eq_Some_conv dpp_ok_def dpp_shape_def
      DRIVER_SIZE_def DATA_SIZE_def FREQ_SIZE_def DPP_BANK_SIZE_def dest!: length_slice_chk split: if_splits)

text \<open>\<open>new\<close> accepts exactly the images of one to eight banks, and never slices out of range.\<close>

lemma dpp_new_iff:
  "dpp_new rom \<noteq> None \<longleftrightarrow> (\<exists>n \<in> {1..8}. length rom = 3072 + n * 4096 + 4096 + 1024)"
proof -
  have "(\<exists>n \<in> {1..8}. l = 3072 + n * 4096 + 4096 + 1024) \<longleftrightarrow>
      \<not> (l \<le> 8192 \<or> (l - 8192) mod 4096 \<noteq> 0) \<and> (l - 8192) div 4096 \<in> {1..8}" for l :: nat
    by (auto intro!: bexI [of _ "(l - 8192) div 4096"])
  moreover have "x * 4096 \<le> l - 8192" if "x = (l - 8192) div 4096" for x l :: nat
    using that by simp
  ultimately show ?thesis
    by (auto simp: dpp_new_def dpp_bank_count_of_def Let_def DRIVER_SIZE_def DATA_SIZE_def FREQ_SIZE_def
        DPP_BANK_SIZE_def slice_chk_def)
qed

interpretation dpp_arm: thumb_mem dpp_memory dpp_shape
  by unfold_locales
    (auto simp: dpp_memory_def default_thumb_memory_def dpp_segments_def dpp_shape_def
      simp del: find_segment.simps dest!: find_segment_in)

lemma fold_inv: "I x \<Longrightarrow> (\<And>i x. I x \<Longrightarrow> I (f i x)) \<Longrightarrow> I (fold f is x)"
  by (induction "is" arbitrary: x) auto

lemma copies_ok:
  "dpp_ok c \<Longrightarrow> dpp_ok (copy_rom_to_fetcher c)" "dpp_ok c \<Longrightarrow> dpp_ok (copy_value_to_fetcher c)"
  unfolding copy_rom_to_fetcher_def copy_value_to_fetcher_def Let_def
  by (rule fold_inv; simp add: dpp_ok_def dpp_shape_def)+

lemma on_parts_ok [simp]:
  "dpp_ok (on_fetcher i f c) = dpp_ok c" "dpp_ok (on_frac i g c) = dpp_ok c" "dpp_ok (on_music i h c) = dpp_ok c"
  "dpp_ok (c\<lparr>dpp_rng := r\<rparr>) = dpp_ok c" "dpp_ok (c\<lparr>dpp_fast_fetch := b\<rparr>) = dpp_ok c"
  "dpp_ok (c\<lparr>dpp_lda_pending := b\<rparr>) = dpp_ok c" "dpp_ok (c\<lparr>dpp_bank := n\<rparr>) = dpp_ok c"
  "dpp_ok (c\<lparr>dpp_data_ram := set_in (dpp_data_ram c) k v\<rparr>) = dpp_ok c"
  "dpp_ok (on_fetcher i f (c\<lparr>dpp_data_ram := set_in (dpp_data_ram c) k v\<rparr>)) = dpp_ok c"
  by (simp_all add: dpp_ok_def dpp_shape_def on_fetcher_def on_frac_def on_music_def)

lemma dpp_register_read_ok: "dpp_ok c \<Longrightarrow> dpp_ok (snd (dpp_read_register a c))"
  by (simp add: dpp_read_register_def Let_def)

lemma dpp_hotspot_ok: "dpp_ok c \<Longrightarrow> dpp_ok (snd (dpp_hotspot a c))"
  by (simp add: dpp_hotspot_def Let_def)

text \<open>The one write that runs the coprocessor.\<close>

definition calls_arm :: "u16 \<Rightarrow> u8 \<Rightarrow> bool" where
  "calls_arm a v \<longleftrightarrow> a AND 0x0FFF = 0x5A \<and> (v = 254 \<or> v = 255)"

lemma dispatch_ok:
  "dpp_ok c \<Longrightarrow> v \<noteq> 254 \<Longrightarrow> v \<noteq> 255 \<Longrightarrow> wpo (dispatch_function_call v c) dpp_ok"
  using copies_ok [of c] by (auto simp: dispatch_function_call_def Let_def dpp_ok_def dpp_shape_def)

lemma dpp_register_write_ok:
  assumes "dpp_ok c" "a = 0x5A \<Longrightarrow> v \<noteq> 254 \<and> v \<noteq> 255"
  shows "wpo (dpp_write_register a v c) dpp_ok"
proof (cases "a = 0x5A")
  case True
  then show ?thesis using assms dispatch_ok by (simp add: dpp_write_register_def Let_def)
next
  case False
  have "dpp_ok (c\<lparr>dpp_parameters := dpp_parameters c @ [v]\<rparr>)" if "length (dpp_parameters c) < 4"
    using assms(1) that by (simp add: dpp_ok_def dpp_shape_def)
  moreover have "dpp_ok ((on_fetcher i pf_dec c)\<lparr>dpp_data_ram := set_in (dpp_data_ram (on_fetcher i pf_dec c)) k v\<rparr>)" for i k
    using assms(1) by simp
  ultimately show ?thesis
    using False assms(1) by (simp add: dpp_write_register_def Let_def split: option.split)
qed

lemma dpp_read_ok: "dpp_ok c \<Longrightarrow> wpo (dpp_read a c) (\<lambda>(v, c'). dpp_ok c')"
  using dpp_hotspot_ok [of c a] dpp_register_read_ok
  by (auto simp: dpp_read_def Let_def split_beta dpp_hotspot_def)

lemma dpp_write_ok: "dpp_ok c \<Longrightarrow> \<not> calls_arm a v \<Longrightarrow> wpo (dpp_write a v c) dpp_ok"
  using dpp_hotspot_ok [of c a] dpp_register_write_ok [of _ "a AND 0x0FFF" v]
  by (auto simp: dpp_write_def Let_def split_beta calls_arm_def)

lemma dpp_tick_ok: "dpp_ok c \<Longrightarrow> wpo (dpp_tick c) dpp_ok"
  by (simp add: dpp_tick_def Let_def dpp_ok_def dpp_shape_def)

subsection \<open>Running the coprocessor\<close>

definition at_undefined :: "'m thumb_memory \<Rightarrow> 'm arm7 \<Rightarrow> bool" where
  "at_undefined M a \<longleftrightarrow> (case read16 M (arm_registers a ! REG_PC - 2) False a of
     Inr opcode \<Rightarrow> undefined_opcode opcode | Inl f \<Rightarrow> False)"

lemma arm_new_wpo:
  assumes "\<And>a. length (arm_registers a) = 16 \<Longrightarrow> arm_mem a = m \<Longrightarrow>
      arm_registers a ! REG_SP = fst (tm_reset_vectors M m) \<Longrightarrow>
      arm_registers a ! REG_PC = snd (snd (tm_reset_vectors M m)) + 2 \<Longrightarrow> Q a"
  shows "wpo (arm_new M m) Q"
  using assms
  by (auto simp: arm_new_def arm_reset_def Let_def split_beta set_reg_def NUM_REGISTERS_def
      REG_SP_def REG_LR_def REG_PC_def)

text \<open>The processor as it was before each instruction that a run of at most \<open>n\<close> steps executes.\<close>

fun executed :: "'m thumb_memory \<Rightarrow> nat \<Rightarrow> 'm arm7 \<Rightarrow> 'm arm7 list" where
  "executed M 0 a = []"
| "executed M (Suc n) a = a # (case arm_step M a of Some ((Normal, _), a') \<Rightarrow> executed M n a' | _ \<Rightarrow> [])"

lemma step_at_undefined: "arm_ok ok a \<Longrightarrow> at_undefined M a \<Longrightarrow> arm_step M a = None"
  by (auto simp: at_undefined_def intro: step_undefined split: sum.splits)

context thumb_mem
begin

lemma step_fine_iff:
  assumes "arm_ok ok a"
  shows "arm_step M a = None \<longleftrightarrow> at_undefined M a" "arm_step M a = Some ((r, cy), a') \<Longrightarrow> arm_ok ok a'"
proof -
  have fine: "fine ok (arm_step M a)" if "\<not> at_undefined M a"
    using that by (intro step_fine [OF assms]) (auto simp: at_undefined_def)
  show "arm_step M a = None \<longleftrightarrow> at_undefined M a"
    using fine step_at_undefined [OF assms, of M]
    by (cases "at_undefined M a") (auto simp: fine_def wpo_def)
  show "arm_ok ok a'" if "arm_step M a = Some ((r, cy), a')"
    using that fine step_at_undefined [OF assms, of M] by (auto simp: fine_def wpo_def)
qed

lemma arm_run_fine:
  assumes "arm_ok ok a"
  shows "case arm_run M n a of
     None \<Rightarrow> \<exists>b \<in> set (executed M n a). at_undefined M b
   | Some a' \<Rightarrow> arm_ok ok a' \<and> \<not> (\<exists>b \<in> set (executed M n a). at_undefined M b)"
  using assms
proof (induction n arbitrary: a)
  case (Suc n)
  show ?case
  proof (cases "arm_step M a")
    case None
    then show ?thesis using step_fine_iff(1) [OF Suc.prems] by simp
  next
    case (Some x)
    then obtain r cy a' where s: "arm_step M a = Some ((r, cy), a')" by (cases x) auto
    note step_fine_iff [OF Suc.prems]
    then show ?thesis using s Suc.IH [of a'] by (cases r) (auto split: option.splits)
  qed
qed simp

end

text \<open>The processor at the start of a call.\<close>

definition dpp_entry :: "bank_dpc_plus \<Rightarrow> bank_dpc_plus arm7 option" where
  "dpp_entry c = arm_new dpp_memory (c\<lparr>dpp_arm_active := True\<rparr>)"

lemma dpp_entry_wpo:
  assumes "dpp_shape c" "\<And>a. arm_ok dpp_shape a \<Longrightarrow> arm_registers a ! REG_SP = 0x40001FFD \<Longrightarrow>
      arm_registers a ! REG_PC = 0x0C0A \<Longrightarrow> arm_mem a = c\<lparr>dpp_arm_active := True\<rparr> \<Longrightarrow> Q a"
  shows "wpo (dpp_entry c) Q"
  unfolding dpp_entry_def using assms(1)
  by (intro arm_new_wpo assms(2))
    (auto simp: arm_ok_def dpp_shape_def dpp_memory_def default_thumb_memory_def dpp_reset_vectors_def
      freq_ram_origin_def data_ram_origin_def DPP_SRAM_BASE_def custom_rom_origin_def DPP_FLASH_BASE_def DRIVER_SIZE_def)

text \<open>
  C30: a call of the DPC+ coprocessor. It ends after at most \<open>ARM_STEP_SAFETY_CAP\<close> instructions, whatever the program does, and
  leaves the board well formed; it panics exactly when one of the instructions it executes is one of the undefined opcodes.
\<close>

theorem dpp_call_returns:
  assumes "dpp_ok c"
  shows "case dpp_run_arm c of
     None \<Rightarrow> \<exists>a b. dpp_entry c = Some a \<and> b \<in> set (executed dpp_memory ARM_STEP_SAFETY_CAP a) \<and> at_undefined dpp_memory b
   | Some c' \<Rightarrow> dpp_ok c' \<and> (\<exists>a. dpp_entry c = Some a \<and>
       (\<forall>b \<in> set (executed dpp_memory ARM_STEP_SAFETY_CAP a). \<not> at_undefined dpp_memory b))"
proof -
  obtain a where a: "dpp_entry c = Some a" "arm_ok dpp_shape a"
    using dpp_entry_wpo [of c "arm_ok dpp_shape"] assms by (auto simp: dpp_ok_def wpo_def)
  have run: "dpp_run_arm c = map_option (\<lambda>arm. (arm_mem arm)\<lparr>dpp_arm_active := False\<rparr>) (arm_run dpp_memory ARM_STEP_SAFETY_CAP a)"
    using a(1) unfolding dpp_run_arm_def Let_def dpp_entry_def
    by (cases "arm_run dpp_memory ARM_STEP_SAFETY_CAP a") simp_all
  show ?thesis
    using dpp_arm.arm_run_fine [OF a(2), of ARM_STEP_SAFETY_CAP] a(1) unfolding run
    by (auto simp: arm_ok_def dpp_ok_def dpp_shape_def split: option.splits)
qed

text \<open>A board whose coprocessor program is the one instruction \<open>BX LR\<close>.\<close>

definition demo_dpp :: bank_dpc_plus where
  "demo_dpp = \<lparr>dpp_driver_rom = replicate 3072 0, dpp_custom_rom = (replicate 4096 0)[8 := 0x70, 9 := 0x47],
     dpp_data_rom = replicate 4096 0, dpp_freq_rom = replicate 1024 0, dpp_driver_ram = replicate 3072 0,
     dpp_data_ram = replicate 4096 0, dpp_freq_ram = replicate 1024 0, dpp_bank = 0, dpp_bank_count = 1,
     dpp_fetcher = replicate 8 pf_default, dpp_frac_fetcher = replicate 8 ff_default,
     dpp_music = replicate 3 pm_default, dpp_rng = RNG_SEED, dpp_fast_fetch = False,
     dpp_lda_pending = False, dpp_parameters = [], dpp_arm_active = False, dpp_beats = 0\<rparr>"

lemma demo_dpp_ok: "dpp_ok demo_dpp"
  by (simp add: dpp_ok_def dpp_shape_def demo_dpp_def)

lemma expected_frame [simp]:
  "arm_expected_return_address (scycle bus addr a) = arm_expected_return_address a"
  "arm_expected_return_address (ncycle bus addr a) = arm_expected_return_address a"
  "arm_expected_return_address (cycles_begin_instruction a) = arm_expected_return_address a"
  "arm_expected_return_address (with_cycles h a) = arm_expected_return_address a"
  by (simp_all add: scycle_def ncycle_def cycles_begin_instruction_def Let_def split_beta with_mam_def
      with_cycles_def stretch_def is_latched_def split: mam_mode.split bus_access.split)

lemma demo_dpp_read16:
  assumes "arm_mem a = demo_dpp\<lparr>dpp_arm_active := True\<rparr>" "addr \<in> {0x0C08, 0x0C0A}"
  shows "read16 dpp_memory addr False a = Inr (if addr = 0x0C08 then 0x4770 else 0)"
proof -
  have l: "length (dpp_driver_rom (arm_mem a)) = 3072" "length (dpp_custom_rom demo_dpp) = 4096"
    "dpp_custom_rom (arm_mem a) = dpp_custom_rom demo_dpp"
    by (simp_all add: assms(1) demo_dpp_def)
  have r: "\<not> addr < DPP_FLASH_BASE + word_of_nat (length (dpp_driver_rom (arm_mem a)))"
    "custom_rom_origin (arm_mem a) \<le> addr" "custom_rom_origin (arm_mem a) = 0x0C00"
    "addr < custom_rom_origin (arm_mem a) + word_of_nat (length (dpp_custom_rom (arm_mem a)))"
    using assms(2) by (auto simp: l custom_rom_origin_def DPP_FLASH_BASE_def DRIVER_SIZE_def)
  have m: "find_segment (dpp_segments (arm_mem a)) addr =
      Some (dpp_custom_rom demo_dpp, 0x0C00, \<lambda>m. (arm_mem a)\<lparr>dpp_custom_rom := m\<rparr>)"
    using r l(3) by (simp add: dpp_segments_def)
  have c: "dpp_custom_rom demo_dpp ! 8 = 0x70" "dpp_custom_rom demo_dpp ! 9 = 0x47"
    "dpp_custom_rom demo_dpp ! 10 = 0" "dpp_custom_rom demo_dpp ! 11 = 0"
    by (simp_all add: demo_dpp_def)
  have v: "le16 0x70 0x47 = 0x4770" "le16 0 0 = 0" by code_simp+
  from assms(2) consider "addr = 0x0C08" | "addr = 0x0C0A" by blast
  then show ?thesis
    using m
    by cases (simp_all add: read16_def check_null_def aligned_def check_alignment_def try_ok_def Let_def
        dpp_memory_def default_thumb_memory_def l c v)
qed

text \<open>\<open>BX LR\<close> as the first instruction of a program ends it.\<close>

lemma bx_lr_ends:
  assumes "length (arm_registers a) = 16" "arm_registers a ! REG_PC = p + 2"
    "arm_registers a ! 14 AND 1 \<noteq> 1"
    "arm_expected_return_address a = (arm_registers a ! 14 + 2) AND 0xFFFFFFFE" "read16 M p False a = Inr 0x4770"
  shows "\<exists>cy b. arm_step M a = Some ((ProgramEnded, cy), b) \<and>
    arm_registers b ! REG_PC = p + 4 \<and> arm_mem b = arm_mem a"
proof -
  have bx: "op_field 0x4770 0x300 8 = 3" "op_field 0x4770 0x38 3 = 6" "op_field 0x4770 0x07 0 = 0"
    by (simp_all add: op_field_def)
  have e: "execute M 0x4770 = hi_register_ops 0x4770"
    by (simp add: execute_def)
  show ?thesis
    using assms by (simp add: arm_step_def get_reg_eq set_reg_eq Let_def e hi_register_ops_def bx REG_PC_def)
qed

lemma demo_dpp_step:
  assumes "dpp_entry demo_dpp = Some a"
  shows "\<exists>cy b. arm_step dpp_memory a = Some ((ProgramEnded, cy), b) \<and>
    arm_registers b ! REG_PC = 0x0C0C \<and> arm_mem b = demo_dpp\<lparr>dpp_arm_active := True\<rparr>"
proof -
  have a: "length (arm_registers a) = 16" "arm_mem a = demo_dpp\<lparr>dpp_arm_active := True\<rparr>"
    "arm_registers a ! REG_PC = 0x0C08 + 2" "arm_registers a ! 14 AND 1 \<noteq> 1"
    "arm_expected_return_address a = (arm_registers a ! 14 + 2) AND 0xFFFFFFFE"
    using assms
    by (auto simp: dpp_entry_def arm_new_def arm_reset_def Let_def split_beta set_reg_def NUM_REGISTERS_def
        REG_SP_def REG_LR_def REG_PC_def dpp_memory_def default_thumb_memory_def dpp_reset_vectors_def
        custom_rom_origin_def DPP_FLASH_BASE_def DRIVER_SIZE_def)
  show ?thesis
    using bx_lr_ends [OF a(1,3,4,5), of dpp_memory] demo_dpp_read16 [OF a(2), of "0x0C08"] a(2) by simp
qed

lemma dpp_call_returns_witness: "wpo (dpp_run_arm demo_dpp) dpp_ok"
proof -
  obtain a where a: "dpp_entry demo_dpp = Some a" "arm_registers a ! REG_PC = 0x0C0A" "arm_mem a = demo_dpp\<lparr>dpp_arm_active := True\<rparr>"
    using dpp_entry_wpo [of demo_dpp "\<lambda>a. arm_registers a ! REG_PC = 0x0C0A \<and> arm_mem a = demo_dpp\<lparr>dpp_arm_active := True\<rparr>"]
      demo_dpp_ok by (auto simp: dpp_ok_def wpo_def)
  have h: "hi_byte 0x4770 = 0x47" by code_simp
  have "\<not> at_undefined dpp_memory a"
    using a(2) demo_dpp_read16 [OF a(3), of "0x0C08"] by (simp add: at_undefined_def undefined_opcode_def h)
  moreover have "set (executed dpp_memory n a) \<subseteq> {a}" for n
    using demo_dpp_step [OF a(1)] by (cases n) auto
  ultimately have "b \<in> set (executed dpp_memory ARM_STEP_SAFETY_CAP a) \<Longrightarrow> \<not> at_undefined dpp_memory b" for b by blast
  then show ?thesis using dpp_call_returns [OF demo_dpp_ok] a(1) by (auto simp: wpo_def split: option.splits)
qed

subsection \<open>The entry stack pointer\<close>

lemma low_bits_sub: "(x - w * 4) AND 3 = x AND 3" for x w :: u32
proof -
  have m: "(3 :: u32) = mask 2" by code_simp
  have n: "uint (4 :: u32) = 4" "2 ^ LENGTH(32) = (4294967296 :: int)" by simp_all
  have "uint (x - w * 4) = (uint x - uint (w * 4)) mod 4294967296"
    using uint_word_ariths(2) [of x "w * 4"] unfolding n .
  moreover have "uint (w * 4) = (uint w * 4) mod 4294967296"
    using uint_word_ariths(3) [of w 4] unfolding n .
  moreover have "(uint x - y mod 4294967296) mod 4294967296 mod 4 = (uint x - y) mod 4" for y
    by (simp add: mod_mod_cancel mod_diff_right_eq)
  moreover have "(uint x - uint w * 4) mod 4 = uint x mod 4"
    by (metis mod_diff_right_eq mod_mult_self2_is_0 diff_zero)
  ultimately have "uint (x - w * 4) mod 4 = uint x mod 4" by simp
  then have "int (unat (x - w * 4) mod 4) = int (unat x mod 4)" by (simp add: of_nat_mod)
  then have "unat ((x - w * 4) AND mask 2) = unat (x AND mask 2)"
    unfolding unat_and_mask by simp
  then show ?thesis unfolding m word_unat_eq_iff .
qed

lemma write32_misaligned:
  "addr AND 3 \<noteq> 0 \<Longrightarrow> write32 (default_thumb_memory mp rv ex) addr v al a = Inl (Misaligned addr)"
  by (simp add: write32_def check_null_def try_ok_def aligned_def check_alignment_def default_thumb_memory_def)

lemma store_regs_misaligned:
  fixes mp :: "u32 \<Rightarrow> bool \<Rightarrow> bool \<Rightarrow> 'm \<Rightarrow> (u8 list \<times> u32 \<times> (u8 list \<Rightarrow> 'm)) option"
  assumes "length (arm_registers a) = 16" "addr AND 3 \<noteq> 0" "\<forall>i \<in> set is. i < 8"
  shows "wpo (store_regs (default_thumb_memory mp rv ex) rl is addr n a) (\<lambda>(r, a').
    if \<exists>i \<in> set is. in_list rl i then r = Inl (Misaligned addr) else r = Inr (addr, n) \<and> a' = a)"
  using assms
proof (induction "is")
  case (Cons i js)
  then show ?case
    by (auto simp: get_reg_eq Let_def on_ok_def write32_misaligned elim!: wpo_mono)
qed simp

lemma in_list_ex: "rl \<noteq> 0 \<Longrightarrow> \<exists>i \<in> set [0..<8]. in_list rl i" for rl :: u8
proof -
  assume "rl \<noteq> 0"
  then obtain n where "bit rl n" by (metis bit_0_eq bot_apply bot_bool_def bit_eqI bit_0_eq)
  moreover from this have "n < 8" using bit_imp_le_length [of rl n] by simp
  ultimately show ?thesis
    using and_single_bit [of n rl] by (auto simp: in_list_def)
qed

lemma decode_push:
  assumes "opcode AND 0xFE00 = 0xB400" "opcode AND 0x01FF \<noteq> 0"
  shows "execute M opcode = push_pop_registers M opcode" "opcode AND 0x0800 \<noteq> 0x0800"
    "(ucast (opcode AND 0x00FF) :: u8) \<noteq> 0 \<or> opcode AND 0x0100 = 0x0100"
proof -
  let ?h = "hi_byte opcode"
  have p: "(0xFE00 :: u16) = push_bit 8 (ucast (0xFE :: u8))" "(0x0800 :: u16) = push_bit 8 (ucast (0x08 :: u8))"
    by code_simp+
  have "?h AND 0xFE = 0xB4" using assms(1) unfolding p hi_masks hi_byte_test .
  then have h: "\<not> bit ?h 1 \<and> bit ?h 2 \<and> \<not> bit ?h 3 \<and> bit ?h 4 \<and> bit ?h 5 \<and> \<not> bit ?h 6 \<and> bit ?h 7"
    unfolding word8_all by (simp add: bit_and_iff)
  show "opcode AND 0x0800 \<noteq> 0x0800"
    unfolding p hi_byte_test using h by (simp add: word8_all bit_and_iff)
  have "?h AND 0xF0 \<noteq> 0xF0" "?h AND 0xF0 \<noteq> 0xE0" "?h AND 0xFF \<noteq> 0xDF" "?h AND 0xF0 \<noteq> 0xD0"
    "?h AND 0xF0 \<noteq> 0xC0" "?h AND 0xF6 = 0xB4"
    by (use h in \<open>simp_all add: word8_all bit_and_iff\<close>)
  then show "execute M opcode = push_pop_registers M opcode"
    unfolding execute_def hi_masks hi_byte_test by simp
  show "(ucast (opcode AND 0x00FF) :: u8) \<noteq> 0 \<or> opcode AND 0x0100 = 0x0100"
  proof (cases "(ucast (opcode AND 0x00FF) :: u8) = 0")
    case z: True
    have m: "(0x00FF :: u16) = mask 8" "(0x01FF :: u16) = mask 9" "(0x0100 :: u16) = push_bit 8 1"
      by code_simp+
    have low: "\<not> bit opcode n" if "n < 8" for n
      using arg_cong [OF z, of "\<lambda>w. bit w n"] that
      unfolding m by (simp add: bit_ucast_iff bit_and_iff bit_mask_iff)
    obtain n where "bit (opcode AND mask 9) n"
      using assms(2) unfolding m by (metis bit_0_eq bot_apply bot_bool_def bit_eqI)
    then have "bit opcode n" "n < 9" by (auto simp: bit_and_iff bit_mask_iff)
    then have "bit opcode 8" using low [of n] by (cases "n = 8") auto
    then show ?thesis
      unfolding m using and_single_bit [of 8 opcode] by simp
  qed simp
qed

text \<open>
  the stack pointer a DPC+ call starts with is not a multiple of four, so every \<open>PUSH\<close> before the
  program sets its own stack pointer is a misaligned access and ends the call with a fault.
\<close>

theorem dpp_push_faults:
  assumes "dpp_ok c" "opcode AND 0xFE00 = 0xB400" "opcode AND 0x01FF \<noteq> 0"
  shows "wpo (do { a \<leftarrow> dpp_entry c; execute dpp_memory opcode a }) (\<lambda>(r, a'). \<exists>addr. r = Inl (Misaligned addr))"
proof -
  let ?rl = "ucast (opcode AND 0x00FF) :: u8" and ?pclr = "opcode AND 0x0100 = 0x0100"
  have d: "execute dpp_memory opcode = push_pop_registers dpp_memory opcode" "opcode AND 0x0800 \<noteq> 0x0800"
    "?rl \<noteq> 0 \<or> ?pclr"
    by (rule decode_push [OF assms(2,3)])+
  have "wpo (push_pop_registers dpp_memory opcode a) (\<lambda>(r, a'). \<exists>addr. r = Inl (Misaligned addr))"
    if a: "length (arm_registers a) = 16" "arm_registers a ! REG_SP = 0x40001FFD" for a
  proof -
    define k :: u32 where "k = word_of_nat (count_ones ?rl) + (if ?pclr then 1 else 0)"
    let ?addr = "0x40001FFD - k * 4"
    have mis: "?addr AND 3 \<noteq> 0" by (simp add: low_bits_sub)
    have c: "(if ?pclr then (word_of_nat (count_ones ?rl) + 1) * 4 else word_of_nat (count_ones ?rl) * 4) = k * 4"
      by (simp add: k_def)
    note s = store_regs_misaligned [OF a(1) mis, of "[0..<8]" "\<lambda>addr w x c. find_segment (dpp_segments c) addr"
        dpp_reset_vectors "\<lambda>addr c. True" ?rl 0, folded dpp_memory_def]
    then obtain r b where r: "store_regs dpp_memory ?rl [0..<8] ?addr 0 a = Some (r, b)"
        "if \<exists>i \<in> set [0..<8]. in_list ?rl i then r = Inl (Misaligned ?addr) else r = Inr (?addr, 0) \<and> b = a"
      by (auto simp: wpo_def)
    have w: "write32 dpp_memory ?addr v True a = Inl (Misaligned ?addr)" for v
      unfolding dpp_memory_def by (rule write32_misaligned [OF mis])
    show ?thesis
    proof (cases "\<exists>i \<in> set [0..<8]. in_list ?rl i")
      case True
      then show ?thesis
        using r d(2) a by (simp add: push_pop_registers_def Let_def push_registers_def c get_reg_eq on_done_def on_ok_def)
    next
      case False
      then have "?pclr" using in_list_ex [of ?rl] d(3) by blast
      then show ?thesis
        using False r d(2) a c w
        by (simp add: push_pop_registers_def Let_def push_registers_def get_reg_eq on_done_def on_ok_def)
    qed
  qed
  then show ?thesis
    unfolding wpo_bind d(1) using assms(1)
    by (intro dpp_entry_wpo) (auto simp: dpp_ok_def arm_ok_def)
qed

lemma dpp_push_faults_witness:
  "wpo (do { a \<leftarrow> dpp_entry demo_dpp; execute dpp_memory 0xB500 a }) (\<lambda>(r, a'). \<exists>addr. r = Inl (Misaligned addr))"
  by (rule dpp_push_faults [OF demo_dpp_ok]) simp_all

subsection \<open>The random number generator\<close>

lemma and_bit: "n < LENGTH('a) \<Longrightarrow> w AND push_bit n 1 \<noteq> 0 \<longleftrightarrow> bit w n" for w :: "'a::len word"
  by (simp only: push_bit_of_1 and_exp_eq_0_iff_not_bit not_not)

text \<open>
  stepping the DPC+ random number generator back undoes a step forward exactly when bit 10 of the
  value was clear; in the other half of the cases the old value is not restored.
\<close>

theorem dpp_rng_prev_next: "dpp_rng_prev (dpp_rng_next v) = v \<longleftrightarrow> \<not> bit v 10"
proof -
  define r where "r = drop_bit 11 v OR push_bit 21 v"
  have r: "bit r n \<longleftrightarrow> (if n < 21 then bit v (n + 11) else bit v (n - 21) \<and> n < 32)" for n
  proof (cases "n < 32")
    case True
    then show ?thesis
      using bit_imp_le_length [of v "n + 11"] by (auto simp: r_def bit_or_iff bit_drop_bit_eq bit_push_bit_iff add.commute)
  next
    case False
    then show ?thesis using bit_imp_le_length [of r n] by auto
  qed
  have m: "\<not> bit MAGIC 31" "bit MAGIC 1" by (simp_all add: MAGIC_def)
  show ?thesis
  proof (cases "bit v 10")
    case False
    then have "dpp_rng_next v = r" by (simp add: dpp_rng_next_def and_bit [of 10] r_def del: push_bit_of_1)
    moreover have "\<not> bit r 31" using False by (simp add: r)
    ultimately have "dpp_rng_prev (dpp_rng_next v) = push_bit 11 r OR drop_bit 21 r"
      by (simp add: dpp_rng_prev_def and_bit [of 31] del: push_bit_of_1)
    moreover have "push_bit 11 r OR drop_bit 21 r = v"
      by (rule bit_word_eqI) (auto simp: bit_simps r)
    ultimately show ?thesis using False by simp
  next
    case True
    let ?w = "MAGIC XOR r"
    have n: "dpp_rng_next v = ?w" using True by (simp add: dpp_rng_next_def and_bit [of 10] r_def del: push_bit_of_1)
    have "bit ?w 31" using True m by (simp add: bit_xor_iff r)
    then have p: "dpp_rng_prev ?w = push_bit 11 (MAGIC AND ?w) OR drop_bit 21 (MAGIC XOR ?w)"
      by (simp add: dpp_rng_prev_def and_bit [of 31] del: push_bit_of_1)
    have "bit (dpp_rng_prev ?w) 12 \<longleftrightarrow> \<not> bit v 12"
      using m bit_imp_le_length [of "MAGIC XOR ?w" 33] by (auto simp: p bit_simps r)
    then show ?thesis using True n by auto
  qed
qed

subsection \<open>Accesses by the 6507\<close>

primrec no_call :: "board_event \<Rightarrow> bool" where
  "no_call (Read a) \<longleftrightarrow> True"
| "no_call (Write a v) \<longleftrightarrow> \<not> calls_arm a v"
| "no_call (Snoop_Read a v) \<longleftrightarrow> True"
| "no_call (Snoop_Write a v) \<longleftrightarrow> True"
| "no_call Tick \<longleftrightarrow> True"

lemma dpp_event_ok: "dpp_ok c \<Longrightarrow> no_call e \<Longrightarrow> wpo (event dpp_board e c) dpp_ok"
  by (cases e) (auto simp: dpp_board_def default_board_def intro: dpp_write_ok dpp_tick_ok
      elim: wpo_mono [OF dpp_read_ok])

text \<open>
  no sequence of accesses and ticks of a DPC+ board panics, as long as it does not call the
  coprocessor, and the board stays well formed.
\<close>

theorem dpp_events_safe: "dpp_ok c \<Longrightarrow> list_all no_call es \<Longrightarrow> wpo (board_run dpp_board es c) dpp_ok"
  by (induction es arbitrary: c) (auto intro: wpo_mono [OF dpp_event_ok])

lemma dpp_events_safe_witness:
  "wpo (board_run dpp_board [Write 0x105A 1, Read 0x1008, Write 0x1FF9 0, Tick, Read 0x1FFF] demo_dpp) dpp_ok"
  by (rule dpp_events_safe [OF demo_dpp_ok]) (simp add: calls_arm_def)

text \<open>The registers of the eight fetchers, as the decoders of reads and writes see them.\<close>

lemma fetcher_address:
  assumes "i < 8"
  shows "(0x1060 + i) AND 0x1FFF = 0x1060 + i" "(0x1008 + i) AND 0x1FFF = 0x1008 + i"
    "(0x1060 + i) AND 0x0FFF = 0x60 + i" "(0x1008 + i) AND 0x0FFF = 0x08 + i"
    "(0x60 + i) AND 0x07 = i" "(0x08 + i) AND 0x07 = (i :: u16)"
proof -
  have "\<forall>n \<in> set [0..<8]. let i = word_of_nat n :: u16 in
      (0x1060 + i) AND 0x1FFF = 0x1060 + i \<and> (0x1008 + i) AND 0x1FFF = 0x1008 + i \<and>
      (0x1060 + i) AND 0x0FFF = 0x60 + i \<and> (0x1008 + i) AND 0x0FFF = 0x08 + i \<and>
      (0x60 + i) AND 0x07 = i \<and> (0x08 + i) AND 0x07 = i"
    by code_simp
  moreover have "unat i \<in> set [0..<8]" using assms by (simp add: word_less_nat_alt)
  moreover have "word_of_nat (unat i) = i" by simp
  ultimately show "(0x1060 + i) AND 0x1FFF = 0x1060 + i" "(0x1008 + i) AND 0x1FFF = 0x1008 + i"
    "(0x1060 + i) AND 0x0FFF = 0x60 + i" "(0x1008 + i) AND 0x0FFF = 0x08 + i"
    "(0x60 + i) AND 0x07 = i" "(0x08 + i) AND 0x07 = i"
    by (metis (no_types, lifting))+
qed

lemma fetcher_unat:
  assumes "i < (8 :: u16)"
  shows "unat (0x1060 + i) = 0x1060 + unat i" "unat (0x1008 + i) = 0x1008 + unat i"
    "unat (0x60 + i) = 0x60 + unat i" "unat (0x08 + i) = 0x08 + unat i"
  using assms by (simp_all add: word_less_nat_alt unat_word_ariths)

lemma pf_inc_dec: "pf_inc (pf_dec f) = f"
  by (auto simp: pf_inc_def pf_dec_def Let_def)

lemma pf_addr_bound: "pf_addr f < 4096"
  by (simp add: pf_addr_def)

text \<open>
  the push register of a fetcher and its read register work as a stack: a byte written through
  \<open>0x1060 + i\<close> is read back from \<open>0x1008 + i\<close>, which puts the fetcher's pointer back.
\<close>

theorem dpp_stack:
  assumes "dpp_ok c" "i < 8"
  shows "wpo (do { c' \<leftarrow> dpp_write (0x1060 + i) v c; dpp_read (0x1008 + i) c' }) (\<lambda>(x, c').
    x = v \<and> dpp_fetcher c' = dpp_fetcher c \<and>
    dpp_data_ram c' = (dpp_data_ram c)[pf_addr (pf_dec (dpp_fetcher c ! unat i)) := v])"
proof -
  have len: "length (dpp_fetcher c) = 8" "length (dpp_data_ram c) = 4096" "\<not> dpp_arm_active c"
    using assms(1) by (simp_all add: dpp_ok_def dpp_shape_def)
  have n: "unat i < 8" using assms(2) by (simp add: word_less_nat_alt)
  note a = fetcher_address [OF assms(2)] fetcher_unat [OF assms(2)]
  define c1 where "c1 = (on_fetcher (unat i) pf_dec c)
    \<lparr>dpp_data_ram := (dpp_data_ram c)[pf_addr (pf_dec (dpp_fetcher c ! unat i)) := v]\<rparr>"
  have "dpp_write (0x1060 + i) v c = Some c1"
    using n by (simp add: dpp_write_def dpp_hotspot_def Let_def a word_le_nat_alt dpp_write_register_def
        word_unat_eq_iff on_fetcher_def set_in_def len pf_addr_bound c1_def)
  moreover have "dpp_read (0x1008 + i) c1 = Some (v, on_fetcher (unat i) pf_inc c1)"
    using n by (simp add: dpp_read_def dpp_hotspot_def Let_def a word_le_nat_alt dpp_read_register_def
        word_unat_eq_iff on_fetcher_def get_or_0_def len pf_addr_bound c1_def)
  moreover have "dpp_fetcher (on_fetcher (unat i) pf_inc c1) = dpp_fetcher c"
    using n by (simp add: on_fetcher_def c1_def len pf_inc_dec)
  ultimately show ?thesis by (simp add: wpo_def on_fetcher_def c1_def)
qed

lemma dpp_stack_witness:
  "wpo (do { c' \<leftarrow> dpp_write (0x1060 + 3) 0x42 demo_dpp; dpp_read (0x1008 + 3) c' }) (\<lambda>(x, c').
    x = 0x42 \<and> dpp_fetcher c' = dpp_fetcher demo_dpp \<and>
    dpp_data_ram c' = (dpp_data_ram demo_dpp)[pf_addr (pf_dec (dpp_fetcher demo_dpp ! unat (3 :: u16))) := 0x42])"
  by (rule dpp_stack [OF demo_dpp_ok]) simp

end
