(* ===== verification/Board_Cdf.thy ===== *)
theory Board_Cdf
  imports Board_DpcPlus
begin

text \<open>
  The CDF, CDFJ and CDFJ+ board of \<open>crates/rusty2600-cart/src/lib.rs\<close>: one board for four versions that
  differ in a table of constants, whose datastream pointers live inside the coprocessor's own RAM, and
  whose reads of an immediate operand (FastFetch) or of a jump's target (FastJMP) are redirected to a
  datastream. The coprocessor's driver calls back into the board, which the loop of
  \<open>cdf_run_arm\<close> services.
\<close>

subsection \<open>Byte strings\<close>

text \<open>\<open>haystack.windows(needle.len()).position(|w| w == needle)\<close>.\<close>

fun window_position :: "u8 list \<Rightarrow> u8 list \<Rightarrow> nat \<Rightarrow> nat option" where
  "window_position needle [] i = None"
| "window_position needle (h # hs) i =
     (if take (length needle) (h # hs) = needle then Some i else window_position needle hs (Suc i))"

definition find_subslice :: "u8 list \<Rightarrow> u8 list \<Rightarrow> nat option" where
  "find_subslice haystack needle = (if needle = [] \<or> length haystack < length needle then None
     else window_position needle haystack 0)"

definition contains_subslice :: "u8 list \<Rightarrow> u8 list \<Rightarrow> bool" where
  "contains_subslice haystack needle \<longleftrightarrow> find_subslice haystack needle \<noteq> None"

definition read_u32_le :: "u8 list \<Rightarrow> nat \<Rightarrow> u32" where
  "read_u32_le buf idx = (if idx + 4 \<le> length buf
     then le32 (buf ! idx) (buf ! (idx + 1)) (buf ! (idx + 2)) (buf ! (idx + 3)) else 0)"

definition write_u32_le :: "u8 list \<Rightarrow> nat \<Rightarrow> u32 \<Rightarrow> u8 list" where
  "write_u32_le buf idx v = (if idx + 4 \<le> length buf
     then buf[idx := byte_of 0 v, idx + 1 := byte_of 1 v, idx + 2 := byte_of 2 v, idx + 3 := byte_of 3 v]
     else buf)"

lemma length_write_u32_le [simp]: "length (write_u32_le buf idx v) = length buf"
  by (simp add: write_u32_le_def)

lemma le32_bytes: "le32 (byte_of 0 v) (byte_of 1 v) (byte_of 2 v) (byte_of 3 v) = v"
proof (rule bit_word_eqI)
  fix n assume "n < LENGTH(32)"
  then consider "n < 8" | "8 \<le> n \<and> n < 16" | "16 \<le> n \<and> n < 24" | "24 \<le> n \<and> n < 32" by fastforce
  then show "bit (le32 (byte_of 0 v) (byte_of 1 v) (byte_of 2 v) (byte_of 3 v)) n = bit v n"
    by cases (auto simp: le32_def byte_of_def bit_simps)
qed

lemma read_write_u32_le: "idx + 4 \<le> length buf \<Longrightarrow> read_u32_le (write_u32_le buf idx v) idx = v"
  by (simp add: read_u32_le_def write_u32_le_def nth_list_update le32_bytes [unfolded One_nat_def])

text \<open>\<open>find_subslice\<close> finds the first window that equals the needle.\<close>

lemma window_position_Some:
  "window_position needle hay i = Some j \<Longrightarrow>
     i \<le> j \<and> take (length needle) (drop (j - i) hay) = needle \<and> j - i < length hay"
  by (induction needle hay i rule: window_position.induct)
    (auto split: if_splits simp: Suc_diff_le Suc_le_eq dest: Suc_le_lessD simp flip: Suc_diff_Suc)

subsection \<open>Versions\<close>

datatype cdf_kind = Cdf0 | Cdf1 | Cdfj | CdfjPlus

record cdf_version =
  cv_kind :: cdf_kind
  cv_fetcher_base :: u32
  cv_increment_base :: u32
  cv_music_base :: u32
  cv_amplitude_register :: u8
  cv_fast_jmp_mask :: u8
  cv_fetcher_shift :: nat
  cv_increment_shift :: nat
  cv_music_fetcher_shift :: nat
  cv_fetcher_mask :: u32
  cv_fast_ldx :: bool
  cv_fast_ldy :: bool
  cv_datastream_offset :: u8
  cv_entry_sp :: u32
  cv_entry_lr :: u32
  cv_entry_pc :: u32

definition CDF_FLASH_BASE :: u32 where "CDF_FLASH_BASE = 0x00000000"
definition CDF_SRAM_BASE :: u32 where "CDF_SRAM_BASE = 0x40000000"
definition FORMULA_ENTRY_SP :: u32 where "FORMULA_ENTRY_SP = CDF_SRAM_BASE OR 0x00001FDC"
definition FORMULA_ENTRY_LR :: u32 where "FORMULA_ENTRY_LR = CDF_FLASH_BASE OR 0x00000800"
definition FORMULA_ENTRY_PC :: u32 where "FORMULA_ENTRY_PC = FORMULA_ENTRY_LR + 8"

definition cdf_detect :: "cdf_kind \<Rightarrow> u8 list \<Rightarrow> cdf_version" where
  "cdf_detect kind rom = (case kind of
     Cdfj \<Rightarrow> \<lparr>cv_kind = kind, cv_fetcher_base = 0x0098, cv_increment_base = 0x0124, cv_music_base = 0x01B0,
       cv_amplitude_register = 35, cv_fast_jmp_mask = 0xFE, cv_fetcher_shift = 20, cv_increment_shift = 12,
       cv_music_fetcher_shift = 20, cv_fetcher_mask = 0xF0000000, cv_fast_ldx = False, cv_fast_ldy = False,
       cv_datastream_offset = 0, cv_entry_sp = FORMULA_ENTRY_SP, cv_entry_lr = FORMULA_ENTRY_LR,
       cv_entry_pc = FORMULA_ENTRY_PC\<rparr>
   | Cdf0 \<Rightarrow> \<lparr>cv_kind = kind, cv_fetcher_base = 0x06E0, cv_increment_base = 0x0768, cv_music_base = 0x07F0,
       cv_amplitude_register = 34, cv_fast_jmp_mask = 0xFF, cv_fetcher_shift = 20, cv_increment_shift = 12,
       cv_music_fetcher_shift = 20, cv_fetcher_mask = 0xF0000000, cv_fast_ldx = False, cv_fast_ldy = False,
       cv_datastream_offset = 0, cv_entry_sp = FORMULA_ENTRY_SP, cv_entry_lr = FORMULA_ENTRY_LR,
       cv_entry_pc = FORMULA_ENTRY_PC\<rparr>
   | Cdf1 \<Rightarrow> \<lparr>cv_kind = kind, cv_fetcher_base = 0x00A0, cv_increment_base = 0x0128, cv_music_base = 0x01B0,
       cv_amplitude_register = 34, cv_fast_jmp_mask = 0xFF, cv_fetcher_shift = 20, cv_increment_shift = 12,
       cv_music_fetcher_shift = 20, cv_fetcher_mask = 0xF0000000, cv_fast_ldx = False, cv_fast_ldy = False,
       cv_datastream_offset = 0, cv_entry_sp = FORMULA_ENTRY_SP, cv_entry_lr = FORMULA_ENTRY_LR,
       cv_entry_pc = FORMULA_ENTRY_PC\<rparr>
   | CdfjPlus \<Rightarrow> (let
       scan = take 2048 rom;
       fast_ldx = contains_subslice scan [0xA2, 0x00, 0x52, 0x13];
       fast_ldy = contains_subslice scan [0xA0, 0x00, 0x52, 0x13];
       datastream_offset = (case find_subslice scan [0x20, 0x42, 0xE2] of
           Some offset \<Rightarrow> if offset > 0 then scan ! (offset - 1) else 0
         | None \<Rightarrow> 0);
       entry_sp = read_u32_le rom 0x17F4;
       entry_lr = read_u32_le rom 0x17F8 AND 0xFFFFFFFE
     in \<lparr>cv_kind = kind, cv_fetcher_base = 0x0098, cv_increment_base = 0x0124, cv_music_base = 0x01B0,
       cv_amplitude_register = 35, cv_fast_jmp_mask = 0xFE, cv_fetcher_shift = 16, cv_increment_shift = 8,
       cv_music_fetcher_shift = 12, cv_fetcher_mask = 0xFF000000, cv_fast_ldx = fast_ldx,
       cv_fast_ldy = fast_ldy, cv_datastream_offset = datastream_offset, cv_entry_sp = entry_sp,
       cv_entry_lr = entry_lr, cv_entry_pc = entry_lr\<rparr>))"

subsection \<open>State\<close>

record cdf_music_fetcher =
  cm_waveform :: u8
  cm_freq :: u32
  cm_count :: u32

definition cm_default :: cdf_music_fetcher where
  "cm_default = \<lparr>cm_waveform = 0x1B, cm_freq = 0, cm_count = 0\<rparr>"

record bank_cdf =
  cdf_version :: cdf_version
  cdf_driver_rom :: "u8 list"
  cdf_custom_rom :: "u8 list"
  cdf_driver_ram :: "u8 list"
  cdf_data_ram :: "u8 list"
  cdf_variables_ram :: "u8 list"
  cdf_bank :: nat
  cdf_fast_fetch :: bool
  cdf_sample_mode :: bool
  cdf_fast_load :: u8
  cdf_fast_jmp :: u8
  cdf_music :: "cdf_music_fetcher list"
  cdf_beats :: u32
  cdf_arm_active :: bool

definition CDF_DRIVER_SIZE :: nat where "CDF_DRIVER_SIZE = 2048"
definition CUSTOM_SIZE :: nat where "CUSTOM_SIZE = 2048"
definition CDF_BANK_SIZE :: nat where "CDF_BANK_SIZE = 4096"
definition NUM_BANKS :: nat where "NUM_BANKS = 7"
definition DATA_RAM_SIZE_STANDARD :: nat where "DATA_RAM_SIZE_STANDARD = 0x1000"
definition DATA_RAM_SIZE_CDFJ_PLUS :: nat where "DATA_RAM_SIZE_CDFJ_PLUS = 0x7800"
definition VARIABLES_RAM_SIZE :: nat where "VARIABLES_RAM_SIZE = 0x0800"
definition DS_COMM :: u32 where "DS_COMM = 32"
definition DS_JMP :: u32 where "DS_JMP = 33"

definition cdf_new :: "u8 list \<Rightarrow> cdf_kind \<Rightarrow> bank_cdf option" where
  "cdf_new rom kind = (if length rom \<le> CDF_DRIVER_SIZE then None
     else (let
       version = cdf_detect kind rom;
       driver_rom = take CDF_DRIVER_SIZE rom;
       custom_rom = drop CDF_DRIVER_SIZE rom;
       min_custom_len = (if kind = CdfjPlus then NUM_BANKS * CDF_BANK_SIZE
         else CUSTOM_SIZE + NUM_BANKS * CDF_BANK_SIZE)
     in if length custom_rom < min_custom_len then None
     else Some \<lparr>cdf_version = version, cdf_driver_rom = driver_rom, cdf_custom_rom = custom_rom,
       cdf_driver_ram = driver_rom,
       cdf_data_ram = replicate (if kind = CdfjPlus then DATA_RAM_SIZE_CDFJ_PLUS else DATA_RAM_SIZE_STANDARD) 0,
       cdf_variables_ram = (if kind = CdfjPlus then [] else replicate VARIABLES_RAM_SIZE 0),
       cdf_bank = 0, cdf_fast_fetch = False, cdf_sample_mode = False, cdf_fast_load = 0, cdf_fast_jmp = 0,
       cdf_music = replicate 3 cm_default, cdf_beats = 0, cdf_arm_active = False\<rparr>))"

subsection \<open>Datastreams\<close>

definition bank_window_offset :: "bank_cdf \<Rightarrow> nat" where
  "bank_window_offset c = (if cv_kind (cdf_version c) = CdfjPlus then cdf_bank c * CDF_BANK_SIZE
     else CUSTOM_SIZE + cdf_bank c * CDF_BANK_SIZE)"

definition read_datastream_pointer :: "u32 \<Rightarrow> bank_cdf \<Rightarrow> u32" where
  "read_datastream_pointer reg c =
     read_u32_le (cdf_driver_ram c) (unat (cv_fetcher_base (cdf_version c) + reg * 4))"

definition update_datastream_pointer :: "u32 \<Rightarrow> u32 \<Rightarrow> bank_cdf \<Rightarrow> bank_cdf" where
  "update_datastream_pointer reg data c = c\<lparr>cdf_driver_ram :=
     write_u32_le (cdf_driver_ram c) (unat (cv_fetcher_base (cdf_version c) + reg * 4)) data\<rparr>"

definition read_datastream_increment :: "u32 \<Rightarrow> bank_cdf \<Rightarrow> u32" where
  "read_datastream_increment reg c =
     read_u32_le (cdf_driver_ram c) (unat (cv_increment_base (cdf_version c) + reg * 4))"

definition read_music_fetcher_base :: "nat \<Rightarrow> bank_cdf \<Rightarrow> u32" where
  "read_music_fetcher_base mus c =
     read_u32_le (cdf_driver_ram c) (unat (cv_music_base (cdf_version c) + word_of_nat mus * 4))"

definition stream_data :: "u32 \<Rightarrow> bank_cdf \<Rightarrow> u8 \<times> bank_cdf" where
  "stream_data reg c = (let
     ptr = read_datastream_pointer reg c;
     inc = read_datastream_increment reg c;
     idx = unat (drop_bit (cv_fetcher_shift (cdf_version c)) ptr);
     output = get_or_0 (cdf_data_ram c) idx;
     new_ptr = ptr + push_bit (cv_increment_shift (cdf_version c)) inc
   in (output, update_datastream_pointer reg new_ptr c))"

definition cdf_bankswitch :: "u16 \<Rightarrow> bank_cdf \<Rightarrow> bool \<times> bank_cdf" where
  "cdf_bankswitch addr c = (let a = addr AND 0x0FFF in
     if \<not> (0x0FF4 \<le> a \<and> a \<le> 0x0FFB) then (False, c)
     else if cdf_arm_active c then (True, c)
     else (True, c\<lparr>cdf_bank :=
       (if cv_kind (cdf_version c) = CdfjPlus then unat (a - 0x0FF4)
        else if a = 0x0FF4 then 6 else if a = 0x0FF5 then 0 else if a = 0x0FF6 then 1
        else if a = 0x0FF7 then 2 else if a = 0x0FF8 then 3 else if a = 0x0FF9 then 4
        else if a = 0x0FFA then 5 else 6)\<rparr>))"

subsection \<open>The coprocessor\<close>

definition cdf_segments :: "bank_cdf \<Rightarrow> (u32 \<times> u8 list \<times> (u8 list \<Rightarrow> bank_cdf)) list" where
  "cdf_segments c = filter (\<lambda>(origin, buf, put). buf \<noteq> [])
     [(CDF_SRAM_BASE OR 0x00000800, cdf_data_ram c, \<lambda>m. c\<lparr>cdf_data_ram := m\<rparr>),
      (CDF_SRAM_BASE OR 0x00001800, cdf_variables_ram c, \<lambda>m. c\<lparr>cdf_variables_ram := m\<rparr>),
      (CDF_FLASH_BASE OR 0x00000800, cdf_custom_rom c, \<lambda>m. c\<lparr>cdf_custom_rom := m\<rparr>),
      (CDF_SRAM_BASE, cdf_driver_ram c, \<lambda>m. c\<lparr>cdf_driver_ram := m\<rparr>),
      (CDF_FLASH_BASE, cdf_driver_rom c, \<lambda>m. c\<lparr>cdf_driver_rom := m\<rparr>)]"

definition cdf_memory :: "bank_cdf thumb_memory" where
  "cdf_memory = default_thumb_memory (\<lambda>addr w x c. find_segment (cdf_segments c) addr)
     (\<lambda>c. (cv_entry_sp (cdf_version c), cv_entry_lr (cdf_version c), cv_entry_pc (cdf_version c)))
     (\<lambda>addr c. True)"

definition service_arm_interrupt :: "cdf_music_fetcher list \<Rightarrow> cdf_kind \<Rightarrow> u32 \<Rightarrow> u32 \<Rightarrow> u32 \<Rightarrow>
    u32 option option \<times> cdf_music_fetcher list" where
  "service_arm_interrupt music kind call_site val1 val2 = (let
     (set_note, reset_wave, get_wave_ptr, set_wave_size) =
       (if kind = Cdf0
        then (CDF_FLASH_BASE OR 0x000006E2, CDF_FLASH_BASE OR 0x000006E6,
              CDF_FLASH_BASE OR 0x000006EA, CDF_FLASH_BASE OR 0x000006EE)
        else (CDF_FLASH_BASE OR 0x00000752, CDF_FLASH_BASE OR 0x00000756,
              CDF_FLASH_BASE OR 0x0000075A, CDF_FLASH_BASE OR 0x0000075E));
     idx = unat val1
   in if call_site \<noteq> set_note \<and> call_site \<noteq> reset_wave \<and> call_site \<noteq> get_wave_ptr \<and> call_site \<noteq> set_wave_size
      then (None, music)
      else if \<not> idx < length music then (None, music)
      else let fetcher = music ! idx in
        if call_site = set_note then (Some None, music[idx := fetcher\<lparr>cm_freq := val2\<rparr>])
        else if call_site = reset_wave then (Some None, music[idx := fetcher\<lparr>cm_count := 0\<rparr>])
        else if call_site = get_wave_ptr then (Some (Some (cm_count fetcher)), music)
        else (Some None, music[idx := fetcher\<lparr>cm_waveform := ucast val2\<rparr>]))"

text \<open>
  A branch out of Thumb code at one of the driver's four call sites is serviced, and the program then resumes at the link
  register; at any other site it ends. The flag tells whether it goes on.
\<close>

definition cdf_service :: "cdf_kind \<Rightarrow> bank_cdf arm7 \<Rightarrow> (bool \<times> bank_cdf arm7) option" where
  "cdf_service kind a = do {
     val1 \<leftarrow> register 2 a;
     val2 \<leftarrow> register 3 a;
     let (serviced, music) = service_arm_interrupt (cdf_music (arm_mem a)) kind (arm_instruction_pc a) val1 val2;
     let a = a\<lparr>arm_mem := (arm_mem a)\<lparr>cdf_music := music\<rparr>\<rparr>;
     (case serviced of
        Some result \<Rightarrow> do {
          a \<leftarrow> (case result of Some value \<Rightarrow> set_register 2 value a | None \<Rightarrow> Some a);
          lr \<leftarrow> register REG_LR a;
          a \<leftarrow> set_register REG_PC lr a;
          Some (True, a) }
      | None \<Rightarrow> Some (False, a)) }"

text \<open>The loop \<open>for _ in 0..CAP\<close>.\<close>

fun cdf_arm_loop :: "cdf_kind \<Rightarrow> nat \<Rightarrow> bank_cdf arm7 \<Rightarrow> bank_cdf arm7 option" where
  "cdf_arm_loop kind 0 a = Some a"
| "cdf_arm_loop kind (Suc n) a = do {
     ((outcome, _), a) \<leftarrow> arm_step cdf_memory a;
     (case outcome of
        Normal \<Rightarrow> cdf_arm_loop kind n a
      | ProgramEnded \<Rightarrow> Some a
      | Fault (UnimplementedPeripheral _) \<Rightarrow> do {
          (resumes, a) \<leftarrow> cdf_service kind a;
          if resumes then cdf_arm_loop kind n a else Some a }
      | Fault _ \<Rightarrow> Some a) }"

definition cdf_run_arm :: "bank_cdf \<Rightarrow> bank_cdf option" where
  "cdf_run_arm c = do {
     let c = c\<lparr>cdf_arm_active := True\<rparr>;
     let version = cdf_version c;
     arm \<leftarrow> arm_new cdf_memory c;
     arm \<leftarrow> cdf_arm_loop (cv_kind version) ARM_STEP_SAFETY_CAP arm;
     Some ((arm_mem arm)\<lparr>cdf_arm_active := False\<rparr>) }"

subsection \<open>The board\<close>

text \<open>\<open>window_offset + usize::from(a).wrapping_sub(1)\<close>, a 64-bit index that wraps.\<close>

definition byte_before :: "nat \<Rightarrow> u16 \<Rightarrow> nat" where
  "byte_before window_offset a =
     (window_offset + (if unat a = 0 then 2 ^ 64 - 1 else unat a - 1)) mod 2 ^ 64"

text \<open>The first phase of a read: the bytes of a jump's target come from the jump datastream.\<close>

definition fast_jump :: "u16 \<Rightarrow> bank_cdf \<Rightarrow> u8 option \<times> bank_cdf" where
  "fast_jump a c = (if cdf_fast_fetch c \<and> cdf_fast_jmp c > 0 then
     let window_offset = bank_window_offset c;
         before = byte_before window_offset a
     in if cdf_fast_jmp c < 2 \<or>
           (cdf_fast_jmp c = 2 \<and> before < length (cdf_custom_rom c) \<and> cdf_custom_rom c ! before = 0x4C)
        then let
          c = c\<lparr>cdf_fast_jmp := cdf_fast_jmp c - 1\<rparr>;
          reg_byte = get_or_0 (cdf_custom_rom c) ((before + unat (cdf_fast_jmp c)) mod 2 ^ 64);
          reg = ucast reg_byte + DS_JMP;
          ptr = read_datastream_pointer reg c;
          idx = unat (drop_bit (cv_fetcher_shift (cdf_version c)) ptr)
        in if \<not> idx < length (cdf_data_ram c) then (Some 0, c)
           else (Some (cdf_data_ram c ! idx),
                 update_datastream_pointer reg (ptr + push_bit (cv_fetcher_shift (cdf_version c)) 1) c)
        else (None, c\<lparr>cdf_fast_jmp := 0\<rparr>)
     else (None, c))"

text \<open>The second: an immediate operand that names a datastream, or the amplitude register.\<close>

definition cdf_music_sum :: "bank_cdf \<Rightarrow> u8" where
  "cdf_music_sum c = fold (\<lambda>i sum. let
       base = read_music_fetcher_base i c;
       m = base + drop_bit (unat (cm_waveform (cdf_music c ! i)) mod 32) (cm_count (cdf_music c ! i))
     in sum + get_or_0 (cdf_data_ram c) (unat m)) [0..<length (cdf_music c)] 0"

definition digital_sample :: "bank_cdf \<Rightarrow> u8" where
  "digital_sample c = (let
     base = read_music_fetcher_base 0 c;
     count = cm_count (cdf_music c ! 0);
     addr = base + drop_bit (cv_music_fetcher_shift (cdf_version c) + 1) count;
     sample = get_or_0 (cdf_data_ram c) (unat addr)
   in if count AND push_bit (cv_music_fetcher_shift (cdf_version c)) 1 = 0 then drop_bit 4 sample else sample)"

definition fast_load :: "u8 \<Rightarrow> bank_cdf \<Rightarrow> u8 option \<times> bank_cdf" where
  "fast_load data c = (if cdf_fast_fetch c \<and> cdf_fast_load c > 0 then
     let c = c\<lparr>cdf_fast_load := cdf_fast_load c - 1\<rparr>;
         ds_offset = cv_datastream_offset (cdf_version c)
     in if data \<ge> ds_offset \<and> data \<le> ds_offset + ucast DS_COMM then
          (let (v, c) = stream_data (ucast (data - ds_offset)) c in (Some v, c))
        else if data = cv_amplitude_register (cdf_version c) + ds_offset then
          (if cdf_sample_mode c then (Some (digital_sample c), c) else (Some (cdf_music_sum c), c))
        else (None, c)
     else (None, c))"

text \<open>The third: an opcode that arms one of the two redirections.\<close>

definition arm_fast_fetch :: "u8 \<Rightarrow> u16 \<Rightarrow> bank_cdf \<Rightarrow> bank_cdf" where
  "arm_fast_fetch data a c = (if \<not> cdf_fast_fetch c then c
     else let window_offset = bank_window_offset c;
              get_or_ff = (\<lambda>i. if i < length (cdf_custom_rom c) then cdf_custom_rom c ! i else 0xFF)
     in if data = 0x4C then
          (let op_lo = get_or_ff (window_offset + unat (a + 1 AND 0x0FFF));
               op_hi = get_or_ff (window_offset + unat (a + 2 AND 0x0FFF))
           in if op_lo AND cv_fast_jmp_mask (cdf_version c) = 0x00 \<and> op_hi = 0x00
              then c\<lparr>cdf_fast_jmp := 2\<rparr> else c)
        else if data = 0xA9 then c\<lparr>cdf_fast_load := 2\<rparr>
        else if data = 0xA2 \<and> cv_fast_ldx (cdf_version c) then c\<lparr>cdf_fast_load := 2\<rparr>
        else if data = 0xA0 \<and> cv_fast_ldy (cdf_version c) then c\<lparr>cdf_fast_load := 2\<rparr>
        else c)"

definition cdf_read :: "u16 \<Rightarrow> bank_cdf \<Rightarrow> (u8 \<times> bank_cdf) option" where
  "cdf_read addr c = (let (hit, c) = cdf_bankswitch addr c in
     if hit then Some (0, c)
     else let a = addr AND 0x0FFF;
              data = get_or_0 (cdf_custom_rom c) (bank_window_offset c + unat a);
              (redirected, c) = fast_jump a c
     in case redirected of Some v \<Rightarrow> Some (v, c)
        | None \<Rightarrow> let (redirected, c) = fast_load data c
            in case redirected of Some v \<Rightarrow> Some (v, c)
               | None \<Rightarrow> Some (data, arm_fast_fetch data a c))"

definition cdf_write :: "u16 \<Rightarrow> u8 \<Rightarrow> bank_cdf \<Rightarrow> bank_cdf option" where
  "cdf_write addr v c = (if cdf_arm_active c then Some c
     else let (hit, c) = cdf_bankswitch addr c in
     if hit then Some c
     else let a = addr AND 0x0FFF in
       if a = 0x0FF0 then
         (let p = read_datastream_pointer DS_COMM c;
              idx = unat (drop_bit (cv_fetcher_shift (cdf_version c)) p)
          in if \<not> idx < length (cdf_data_ram c) then Some c
             else let c = c\<lparr>cdf_data_ram := (cdf_data_ram c)[idx := v]\<rparr>;
                      new_p = p + push_bit (cv_fetcher_shift (cdf_version c)) 1
                  in Some (update_datastream_pointer DS_COMM new_p c))
       else if a = 0x0FF1 then
         (let p = push_bit 8 (read_datastream_pointer DS_COMM c);
              p = p AND cv_fetcher_mask (cdf_version c);
              p = p OR push_bit (cv_fetcher_shift (cdf_version c)) (ucast v)
          in Some (update_datastream_pointer DS_COMM p c))
       else if a = 0x0FF2 then
         (let c = c\<lparr>cdf_fast_fetch := (v AND 0x0F \<noteq> 0x0F), cdf_sample_mode := (v AND 0xF0 \<noteq> 0xF0)\<rparr>
          in Some (if \<not> cdf_fast_fetch c then c\<lparr>cdf_fast_load := 0, cdf_fast_jmp := 0\<rparr> else c))
       else if a = 0x0FF3 \<and> (v = 0xFE \<or> v = 0xFF) then cdf_run_arm c
       else Some c)"

definition cdf_tick :: "bank_cdf \<Rightarrow> bank_cdf option" where
  "cdf_tick c = (let
     c = (if cdf_fast_load c > 0 then c\<lparr>cdf_fast_load := cdf_fast_load c - 1\<rparr> else c);
     c = c\<lparr>cdf_beats := cdf_beats c + 1\<rparr>
   in if cdf_beats c mod 59 = 0
      then Some (c\<lparr>cdf_beats := 0, cdf_music := map (\<lambda>m. m\<lparr>cm_count := cm_count m + cm_freq m\<rparr>) (cdf_music c)\<rparr>)
      else Some c)"

definition cdf_board :: "bank_cdf board_ops" where
  "cdf_board = (default_board cdf_read cdf_write BestEffort)\<lparr>bd_tick := cdf_tick\<rparr>"

subsection \<open>The invariant\<close>

definition version_ok :: "cdf_version \<Rightarrow> bool" where
  "version_ok v \<longleftrightarrow> (\<exists>rom. v = cdf_detect (cv_kind v) rom)"

definition cdf_shape :: "bank_cdf \<Rightarrow> bool" where
  "cdf_shape c \<longleftrightarrow> version_ok (cdf_version c) \<and>
     length (cdf_driver_rom c) = 2048 \<and> length (cdf_driver_ram c) = 2048 \<and>
     length (cdf_custom_rom c) \<ge> (if cv_kind (cdf_version c) = CdfjPlus then 28672 else 30720) \<and>
     length (cdf_data_ram c) = (if cv_kind (cdf_version c) = CdfjPlus then 0x7800 else 0x1000) \<and>
     length (cdf_variables_ram c) = (if cv_kind (cdf_version c) = CdfjPlus then 0 else 0x0800) \<and>
     length (cdf_music c) = 3 \<and> cdf_bank c < 8 \<and> cdf_fast_load c \<le> 2 \<and> cdf_fast_jmp c \<le> 2"

definition cdf_ok :: "bank_cdf \<Rightarrow> bool" where
  "cdf_ok c \<longleftrightarrow> cdf_shape c \<and> \<not> cdf_arm_active c"

lemma cdf_detect_kind [simp]: "cv_kind (cdf_detect kind rom) = kind"
  by (simp add: cdf_detect_def Let_def split: cdf_kind.split)

lemma cdf_detect_ok [simp]: "version_ok (cdf_detect kind rom)"
  by (auto simp: version_ok_def)

text \<open>\<open>new\<close> accepts exactly the images that hold the driver, the prelude and seven banks.\<close>

lemma cdf_new_iff:
  "cdf_new rom kind \<noteq> None \<longleftrightarrow> length rom \<ge> (if kind = CdfjPlus then 30720 else 32768)"
  by (auto simp: cdf_new_def Let_def CDF_DRIVER_SIZE_def NUM_BANKS_def CDF_BANK_SIZE_def CUSTOM_SIZE_def)

lemma cdf_new_ok: "cdf_new rom kind = Some c \<Longrightarrow> cdf_ok c"
  by (auto simp: cdf_new_def Let_def CDF_DRIVER_SIZE_def NUM_BANKS_def CDF_BANK_SIZE_def CUSTOM_SIZE_def
      cdf_ok_def cdf_shape_def DATA_RAM_SIZE_CDFJ_PLUS_def DATA_RAM_SIZE_STANDARD_def VARIABLES_RAM_SIZE_def
      split: if_splits)

interpretation cdf_arm: thumb_mem cdf_memory cdf_shape
  by unfold_locales
    (auto simp: cdf_memory_def default_thumb_memory_def cdf_segments_def cdf_shape_def
      simp del: find_segment.simps filter.simps dest!: find_segment_in)

lemma update_pointer_ok [simp]: "cdf_ok (update_datastream_pointer reg v c) = cdf_ok c"
  by (simp add: update_datastream_pointer_def cdf_ok_def cdf_shape_def)

lemma cdf_bankswitch_ok: "cdf_ok c \<Longrightarrow> cdf_ok (snd (cdf_bankswitch a c))"
proof -
  assume ok: "cdf_ok c"
  have "unat (x - 0x0FF4) < 8" if "0x0FF4 \<le> x" "x \<le> 0x0FFB" for x :: u16
    using that by (simp add: word_le_nat_alt unat_sub)
  moreover have "cdf_ok (c\<lparr>cdf_bank := b\<rparr>)" if "b < 8" for b
    using ok that by (simp add: cdf_ok_def cdf_shape_def)
  ultimately show ?thesis using ok by (simp add: cdf_bankswitch_def Let_def)
qed

lemma countdown_ok: "x \<le> 2 \<Longrightarrow> x > 0 \<Longrightarrow> x - 1 \<le> (2 :: u8)"
  by (simp add: word_le_nat_alt word_less_nat_alt unat_sub)

lemma fast_phases_ok:
  "cdf_ok c \<Longrightarrow> cdf_ok (snd (fast_jump a c))" "cdf_ok c \<Longrightarrow> cdf_ok (snd (fast_load data c))"
  "cdf_ok c \<Longrightarrow> cdf_ok (arm_fast_fetch data a c)"
proof -
  assume ok: "cdf_ok c"
  have j: "cdf_ok (c\<lparr>cdf_fast_jmp := cdf_fast_jmp c - 1\<rparr>)" if "cdf_fast_jmp c > 0"
    using ok that countdown_ok by (simp add: cdf_ok_def cdf_shape_def)
  have l: "cdf_ok (c\<lparr>cdf_fast_load := cdf_fast_load c - 1\<rparr>)" if "cdf_fast_load c > 0"
    using ok that countdown_ok by (simp add: cdf_ok_def cdf_shape_def)
  have "cdf_ok (c\<lparr>cdf_fast_jmp := 0\<rparr>)" "cdf_ok (c\<lparr>cdf_fast_jmp := 1\<rparr>)"
    "cdf_ok (c\<lparr>cdf_fast_jmp := 2\<rparr>)" "cdf_ok (c\<lparr>cdf_fast_load := 2\<rparr>)"
    using ok by (simp_all add: cdf_ok_def cdf_shape_def)
  with ok j l show "cdf_ok (snd (fast_jump a c))" "cdf_ok (snd (fast_load data c))"
    "cdf_ok (arm_fast_fetch data a c)"
    by (simp_all add: fast_jump_def fast_load_def arm_fast_fetch_def Let_def stream_data_def)
qed

lemma cdf_read_ok: "cdf_ok c \<Longrightarrow> wpo (cdf_read a c) (\<lambda>(v, c'). cdf_ok c')"
proof -
  assume "cdf_ok c"
  then have "cdf_ok (snd (cdf_bankswitch a c))" by (rule cdf_bankswitch_ok)
  then show ?thesis
    using fast_phases_ok
    by (auto simp: cdf_read_def Let_def split_beta split: option.split)
qed

text \<open>The one write that runs the coprocessor.\<close>

definition calls_cdf :: "u16 \<Rightarrow> u8 \<Rightarrow> bool" where
  "calls_cdf a v \<longleftrightarrow> a AND 0x0FFF = 0x0FF3 \<and> (v = 0xFE \<or> v = 0xFF)"

lemma cdf_write_ok:
  assumes "cdf_ok c" "\<not> calls_cdf a v"
  shows "wpo (cdf_write a v c) cdf_ok"
proof -
  have p: "cdf_ok (c\<lparr>cdf_data_ram := (cdf_data_ram c)[i := v]\<rparr>)"
    "cdf_ok (c\<lparr>cdf_fast_fetch := b, cdf_sample_mode := b', cdf_fast_load := 0, cdf_fast_jmp := 0\<rparr>)"
    "cdf_ok (c\<lparr>cdf_fast_fetch := b, cdf_sample_mode := b'\<rparr>)" if "cdf_ok c" for c i b b'
    using that by (simp_all add: cdf_ok_def cdf_shape_def)
  have n: "\<not> (a AND 0x0FFF = 0x0FF3 \<and> (v = 0xFE \<or> v = 0xFF))" using assms(2) by (simp add: calls_cdf_def)
  show ?thesis
    unfolding cdf_write_def Let_def split_beta if_not_P [OF n]
    using p cdf_bankswitch_ok [OF assms(1), of a] assms(1) by simp
qed

lemma cdf_tick_ok: "cdf_ok c \<Longrightarrow> wpo (cdf_tick c) cdf_ok"
proof -
  assume ok: "cdf_ok c"
  have "cdf_ok (c\<lparr>cdf_fast_load := cdf_fast_load c - 1\<rparr>)" if "cdf_fast_load c > 0"
    using ok that countdown_ok by (simp add: cdf_ok_def cdf_shape_def)
  moreover have "cdf_ok (c\<lparr>cdf_beats := b\<rparr>)"
    "cdf_ok (c\<lparr>cdf_beats := b, cdf_music := map f (cdf_music c)\<rparr>)" if "cdf_ok c" for c b f
    using that by (simp_all add: cdf_ok_def cdf_shape_def)
  ultimately show ?thesis using ok unfolding cdf_tick_def Let_def by fastforce
qed

text \<open>Everything but a call of the coprocessor is safe.\<close>

primrec cdf_event_in_scope :: "board_event \<Rightarrow> bool" where
  "cdf_event_in_scope (Write a v) \<longleftrightarrow> \<not> calls_cdf a v"
| "cdf_event_in_scope (Read a) \<longleftrightarrow> True"
| "cdf_event_in_scope (Snoop_Read a v) \<longleftrightarrow> True"
| "cdf_event_in_scope (Snoop_Write a v) \<longleftrightarrow> True"
| "cdf_event_in_scope Tick \<longleftrightarrow> True"

lemma cdf_event_ok: "cdf_ok c \<Longrightarrow> cdf_event_in_scope e \<Longrightarrow> wpo (event cdf_board e c) cdf_ok"
  by (cases e) (auto simp: cdf_board_def default_board_def
      intro: cdf_write_ok cdf_tick_ok wpo_mono [OF cdf_read_ok])

text \<open>
  no sequence of reads, writes and ticks makes a CDF board panic or leave its invariant (the
  sizes of its buffers, the version's constants, a bank below eight, both countdowns at most
  two) as long as it does not call the coprocessor.
\<close>

theorem cdf_events_safe:
  "cdf_ok c \<Longrightarrow> list_all cdf_event_in_scope es \<Longrightarrow> wpo (board_run cdf_board es c) cdf_ok"
  by (induction es arbitrary: c) (auto intro: wpo_mono [OF cdf_event_ok])

text \<open>An image of the right size, filled with one byte.\<close>

definition demo_cdf :: "cdf_kind \<Rightarrow> bank_cdf" where
  "demo_cdf kind = the (cdf_new (replicate 32768 0xEA) kind)"

lemma demo_cdf_ok: "cdf_ok (demo_cdf kind)" "cv_kind (cdf_version (demo_cdf kind)) = kind"
proof -
  have "cdf_new (replicate 32768 0xEA) kind \<noteq> None" unfolding cdf_new_iff by simp
  then obtain c where c: "cdf_new (replicate 32768 0xEA) kind = Some c" by blast
  then show "cdf_ok (demo_cdf kind)" by (simp add: demo_cdf_def cdf_new_ok)
  show "cv_kind (cdf_version (demo_cdf kind)) = kind"
    using c by (auto simp: demo_cdf_def cdf_new_def Let_def split: if_splits)
qed

lemma cdf_events_safe_witness:
  "wpo (board_run cdf_board [Write 0x1FF2 0xF0, Read 0x1100, Tick, Write 0x1FF0 7] (demo_cdf Cdfj)) cdf_ok"
  by (rule cdf_events_safe [OF demo_cdf_ok(1)]) (simp add: calls_cdf_def)

subsection \<open>Calls of the coprocessor\<close>

lemma service_keeps: "length (snd (service_arm_interrupt music kind site v1 v2)) = length music"
  by (cases "kind = Cdf0") (simp_all add: service_arm_interrupt_def Let_def)

lemma register_ok: "arm_ok ok a \<Longrightarrow> i < 15 \<Longrightarrow> register i a = Some (arm_registers a ! i)"
  by (simp add: register_def REG_PC_def)

lemma set_register_ok: "arm_ok ok a \<Longrightarrow> i < 16 \<Longrightarrow> \<exists>a'. set_register i v a = Some a' \<and> arm_ok ok a'"
  by (auto simp: set_register_def set_reg_def arm_ok_def)

lemma cdf_service_ok:
  assumes "arm_ok cdf_shape a"
  shows "wpo (cdf_service kind a) (\<lambda>(resumes, b). arm_ok cdf_shape b)"
proof -
  obtain sv music where sv: "service_arm_interrupt (cdf_music (arm_mem a)) kind (arm_instruction_pc a)
      (arm_registers a ! 2) (arm_registers a ! 3) = (sv, music)" by fastforce
  let ?a = "a\<lparr>arm_mem := (arm_mem a)\<lparr>cdf_music := music\<rparr>\<rparr>"
  have "length music = length (cdf_music (arm_mem a))"
    using service_keeps [of "cdf_music (arm_mem a)"] sv by (metis snd_conv)
  then have a: "arm_ok cdf_shape ?a" using assms by (simp add: arm_ok_def cdf_shape_def)
  show ?thesis
  proof (cases sv)
    case None
    then show ?thesis using assms sv a by (simp add: cdf_service_def register_ok)
  next
    case (Some result)
    obtain b where b: "(case result of Some value \<Rightarrow> set_register 2 value ?a | None \<Rightarrow> Some ?a) = Some b"
        "arm_ok cdf_shape b"
      using a set_register_ok [OF a, of 2] by (cases result) auto
    obtain d where d: "set_register REG_PC (arm_registers b ! REG_LR) b = Some d" "arm_ok cdf_shape d"
      using set_register_ok [OF b(2), of REG_PC] by (auto simp: REG_PC_def)
    have "register REG_LR b = Some (arm_registers b ! REG_LR)"
      using register_ok [OF b(2), of REG_LR] by (simp add: REG_LR_def)
    then show ?thesis using assms sv Some b d by (simp add: cdf_service_def register_ok)
  qed
qed

text \<open>The processor as it was before each instruction that a run of at most \<open>n\<close> steps executes.\<close>

fun cdf_executed :: "cdf_kind \<Rightarrow> nat \<Rightarrow> bank_cdf arm7 \<Rightarrow> bank_cdf arm7 list" where
  "cdf_executed kind 0 a = []"
| "cdf_executed kind (Suc n) a = a # (case arm_step cdf_memory a of
     Some ((Normal, _), a') \<Rightarrow> cdf_executed kind n a'
   | Some ((Fault (UnimplementedPeripheral _), _), a') \<Rightarrow> (case cdf_service kind a' of
       Some (True, b) \<Rightarrow> cdf_executed kind n b | _ \<Rightarrow> [])
   | _ \<Rightarrow> [])"

lemma cdf_arm_loop_fine:
  assumes "arm_ok cdf_shape a"
  shows "case cdf_arm_loop kind n a of
     None \<Rightarrow> \<exists>b \<in> set (cdf_executed kind n a). at_undefined cdf_memory b
   | Some a' \<Rightarrow> arm_ok cdf_shape a' \<and> \<not> (\<exists>b \<in> set (cdf_executed kind n a). at_undefined cdf_memory b)"
  using assms
proof (induction n arbitrary: a)
  case (Suc n)
  show ?case
  proof (cases "arm_step cdf_memory a")
    case None
    then show ?thesis using cdf_arm.step_fine_iff(1) [OF Suc.prems] by simp
  next
    case (Some x)
    then obtain r cy a' where s: "arm_step cdf_memory a = Some ((r, cy), a')" by (cases x) auto
    have u: "\<not> at_undefined cdf_memory a" and ok: "arm_ok cdf_shape a'"
      using cdf_arm.step_fine_iff [OF Suc.prems] s by auto
    consider "r = Normal" | x where "r = Fault (UnimplementedPeripheral x)"
      | "r \<noteq> Normal" "\<forall>x. r \<noteq> Fault (UnimplementedPeripheral x)" by blast
    then show ?thesis
    proof cases
      case 1
      then show ?thesis using s u Suc.IH [OF ok] by (auto split: option.splits)
    next
      case 2
      obtain resumes b where b: "cdf_service kind a' = Some (resumes, b)" "arm_ok cdf_shape b"
        using cdf_service_ok [OF ok, of kind] by (auto simp: wpo_def)
      then show ?thesis using s u 2 Suc.IH [OF b(2)] by (cases resumes) (auto split: option.splits)
    next
      case 3
      then show ?thesis using s u ok by (cases r) (auto split: fault.split)
    qed
  qed
qed simp

text \<open>The processor at the start of a call.\<close>

definition cdf_entry :: "bank_cdf \<Rightarrow> bank_cdf arm7 option" where
  "cdf_entry c = arm_new cdf_memory (c\<lparr>cdf_arm_active := True\<rparr>)"

lemma cdf_entry_ok:
  assumes "cdf_shape c"
  shows "wpo (cdf_entry c) (\<lambda>a. arm_ok cdf_shape a \<and> cdf_entry c = Some a)"
proof -
  have "wpo (cdf_entry c) (arm_ok cdf_shape)"
    unfolding cdf_entry_def by (rule arm_new_wpo) (use assms in \<open>simp add: arm_ok_def cdf_shape_def\<close>)
  then show ?thesis by (auto simp: wpo_def)
qed

text \<open>
  C31: a call of a CDF board's coprocessor. It ends after at most \<open>ARM_STEP_SAFETY_CAP\<close> instructions, serviced callbacks
  included, whatever the program does, and leaves the board well formed; it panics exactly when one of the instructions it executes
  is one of the undefined opcodes.
\<close>

theorem cdf_call_returns:
  assumes "cdf_ok c"
  shows "case cdf_run_arm c of
     None \<Rightarrow> \<exists>a b. cdf_entry c = Some a \<and> b \<in> set (cdf_executed (cv_kind (cdf_version c)) ARM_STEP_SAFETY_CAP a) \<and>
       at_undefined cdf_memory b
   | Some c' \<Rightarrow> cdf_ok c' \<and> (\<exists>a. cdf_entry c = Some a \<and>
       (\<forall>b \<in> set (cdf_executed (cv_kind (cdf_version c)) ARM_STEP_SAFETY_CAP a). \<not> at_undefined cdf_memory b))"
proof -
  let ?k = "cv_kind (cdf_version c)"
  obtain a where a: "cdf_entry c = Some a" "arm_ok cdf_shape a"
    using cdf_entry_ok [of c] assms by (auto simp: cdf_ok_def wpo_def)
  have run: "cdf_run_arm c = map_option (\<lambda>arm. (arm_mem arm)\<lparr>cdf_arm_active := False\<rparr>) (cdf_arm_loop ?k ARM_STEP_SAFETY_CAP a)"
    using a(1) unfolding cdf_run_arm_def Let_def cdf_entry_def
    by (cases "cdf_arm_loop ?k ARM_STEP_SAFETY_CAP a") simp_all
  show ?thesis
    using cdf_arm_loop_fine [OF a(2), of ?k ARM_STEP_SAFETY_CAP] a(1) unfolding run
    by (auto simp: arm_ok_def cdf_ok_def cdf_shape_def split: option.splits)
qed

text \<open>A board whose coprocessor program is the one instruction \<open>BX LR\<close>.\<close>

definition demo_bx :: bank_cdf where
  "demo_bx = (demo_cdf Cdfj)\<lparr>cdf_custom_rom := (replicate 30720 0)[8 := 0x70, 9 := 0x47]\<rparr>"

lemma demo_bx_ok: "cdf_ok demo_bx" "cdf_version demo_bx = cdf_detect Cdfj []"
proof -
  have "\<exists>rom. cdf_version (demo_cdf Cdfj) = cdf_detect Cdfj rom"
    using demo_cdf_ok [of Cdfj] by (simp add: cdf_ok_def cdf_shape_def version_ok_def)
  then show "cdf_version demo_bx = cdf_detect Cdfj []" by (auto simp: demo_bx_def cdf_detect_def)
  show "cdf_ok demo_bx" using demo_cdf_ok [of Cdfj] by (simp add: cdf_ok_def cdf_shape_def demo_bx_def)
qed

lemma demo_bx_read16:
  assumes "arm_mem a = demo_bx\<lparr>cdf_arm_active := True\<rparr>" "addr \<in> {0x0808, 0x080A}"
  shows "read16 cdf_memory addr False a = Inr (if addr = 0x0808 then 0x4770 else 0)"
proof -
  let ?c = "arm_mem a"
  have l: "length (cdf_custom_rom ?c) = 30720" "length (cdf_data_ram ?c) = 4096"
    "length (cdf_variables_ram ?c) = 2048"
    using demo_bx_ok by (simp_all add: assms(1) cdf_ok_def cdf_shape_def) (simp add: demo_bx_def)
  then have ne: "cdf_custom_rom ?c \<noteq> []" "cdf_data_ram ?c \<noteq> []" "cdf_variables_ram ?c \<noteq> []" by auto
  have r: "\<not> (CDF_SRAM_BASE OR 0x00000800 \<le> addr)" "\<not> (CDF_SRAM_BASE OR 0x00001800 \<le> addr)"
    "CDF_FLASH_BASE OR 0x00000800 \<le> addr" "addr < 32768"
    "CDF_FLASH_BASE OR 0x00000800 = 0x0800"
    using assms(2) by (auto simp: CDF_SRAM_BASE_def CDF_FLASH_BASE_def)
  have m: "find_segment (cdf_segments ?c) addr =
      Some (cdf_custom_rom ?c, 0x0800, \<lambda>m. ?c\<lparr>cdf_custom_rom := m\<rparr>)"
    using r ne by (simp add: cdf_segments_def l)
  have c: "cdf_custom_rom ?c ! 8 = 0x70" "cdf_custom_rom ?c ! 9 = 0x47"
    "cdf_custom_rom ?c ! 10 = 0" "cdf_custom_rom ?c ! 11 = 0"
    by (simp_all add: assms(1) demo_bx_def)
  have v: "le16 0x70 0x47 = 0x4770" "le16 0 0 = 0" by code_simp+
  from assms(2) consider "addr = 0x0808" | "addr = 0x080A" by blast
  then show ?thesis
    using m
    by cases (simp_all add: read16_def check_null_def aligned_def check_alignment_def try_ok_def Let_def
        cdf_memory_def default_thumb_memory_def l c v)
qed

lemma cdf_call_returns_witness: "wpo (cdf_run_arm demo_bx) cdf_ok"
proof -
  obtain a where e: "cdf_entry demo_bx = Some a"
    using cdf_entry_ok [of demo_bx] demo_bx_ok(1) by (auto simp: cdf_ok_def wpo_def)
  have a: "length (arm_registers a) = 16" "arm_mem a = demo_bx\<lparr>cdf_arm_active := True\<rparr>"
    "arm_registers a ! REG_PC = 0x0808 + 2" "arm_registers a ! 14 AND 1 \<noteq> 1"
    "arm_expected_return_address a = (arm_registers a ! 14 + 2) AND 0xFFFFFFFE"
    using e demo_bx_ok(2)
    by (auto simp: cdf_entry_def arm_new_def arm_reset_def Let_def split_beta set_reg_def NUM_REGISTERS_def
        REG_SP_def REG_LR_def REG_PC_def cdf_memory_def default_thumb_memory_def cdf_detect_def
        FORMULA_ENTRY_LR_def FORMULA_ENTRY_PC_def CDF_FLASH_BASE_def)
  have h: "hi_byte 0x4770 = 0x47" by code_simp
  have "\<not> at_undefined cdf_memory a"
    using a(3) demo_bx_read16 [OF a(2), of "0x0808"] by (simp add: at_undefined_def undefined_opcode_def h)
  moreover have "set (cdf_executed k n a) \<subseteq> {a}" for k n
    using bx_lr_ends [OF a(1,3,4,5), of cdf_memory] demo_bx_read16 [OF a(2), of "0x0808"] by (cases n) auto
  ultimately have "b \<in> set (cdf_executed k ARM_STEP_SAFETY_CAP a) \<Longrightarrow> \<not> at_undefined cdf_memory b" for b k by blast
  then show ?thesis using cdf_call_returns [OF demo_bx_ok(1)] e by (auto simp: wpo_def split: option.splits)
qed

subsection \<open>The communication stream\<close>

lemma comm_slot:
  assumes "cdf_ok c"
  shows "unat (cv_fetcher_base (cdf_version c) + DS_COMM * 4) + 4 \<le> length (cdf_driver_ram c)"
proof -
  obtain rom where "cdf_version c = cdf_detect (cv_kind (cdf_version c)) rom"
    using assms by (auto simp: cdf_ok_def cdf_shape_def version_ok_def)
  then have "unat (cv_fetcher_base (cdf_version c) + DS_COMM * 4) + 4 \<le> 2048"
    by (cases "cv_kind (cdf_version c)") (simp_all add: cdf_detect_def DS_COMM_def Let_def)
  then show ?thesis using assms by (simp add: cdf_ok_def cdf_shape_def)
qed

lemma shift_and_mask:
  assumes "cdf_ok c"
  shows "cv_kind (cdf_version c) = CdfjPlus \<Longrightarrow>
      cv_fetcher_shift (cdf_version c) = 16 \<and> cv_fetcher_mask (cdf_version c) = push_bit 24 (mask 8)"
    "cv_kind (cdf_version c) \<noteq> CdfjPlus \<Longrightarrow>
      cv_fetcher_shift (cdf_version c) = 20 \<and> cv_fetcher_mask (cdf_version c) = push_bit 28 (mask 4)"
proof -
  obtain rom where v: "cdf_version c = cdf_detect (cv_kind (cdf_version c)) rom"
    using assms by (auto simp: cdf_ok_def cdf_shape_def version_ok_def)
  have m: "(0xFF000000 :: u32) = push_bit 24 (mask 8)" "(0xF0000000 :: u32) = push_bit 28 (mask 4)"
    by code_simp+
  show "cv_kind (cdf_version c) = CdfjPlus \<Longrightarrow>
      cv_fetcher_shift (cdf_version c) = 16 \<and> cv_fetcher_mask (cdf_version c) = push_bit 24 (mask 8)"
    "cv_kind (cdf_version c) \<noteq> CdfjPlus \<Longrightarrow>
      cv_fetcher_shift (cdf_version c) = 20 \<and> cv_fetcher_mask (cdf_version c) = push_bit 28 (mask 4)"
    unfolding m [symmetric]
    by (subst v, subst v, simp add: cdf_detect_def Let_def,
        subst v, subst v, cases "cv_kind (cdf_version c)", simp_all add: cdf_detect_def Let_def)
qed

lemma comm_pointer_update:
  assumes "cdf_ok c"
  shows "read_datastream_pointer DS_COMM (update_datastream_pointer DS_COMM p c) = p"
  using read_write_u32_le [OF comm_slot [OF assms]]
  by (simp add: read_datastream_pointer_def update_datastream_pointer_def)

lemma update_pointer_frame [simp]:
  "cdf_data_ram (update_datastream_pointer reg p c) = cdf_data_ram c"
  "cdf_version (update_datastream_pointer reg p c) = cdf_version c"
  by (simp_all add: update_datastream_pointer_def)

lemma pointer_data_ram [simp]:
  "read_datastream_pointer reg (c\<lparr>cdf_data_ram := m\<rparr>) = read_datastream_pointer reg c"
  by (simp add: read_datastream_pointer_def)

lemma two_bytes_make_pointer:
  "(push_bit 8 ((push_bit 8 p AND push_bit 28 (mask 4)) OR push_bit 20 (ucast hi)) AND push_bit 28 (mask 4))
     OR push_bit 20 (ucast lo) = (push_bit 20 (ucast (le16 lo hi)) :: u32)"
  "(push_bit 8 ((push_bit 8 p AND push_bit 24 (mask 8)) OR push_bit 16 (ucast hi)) AND push_bit 24 (mask 8))
     OR push_bit 16 (ucast lo) = (push_bit 16 (ucast (le16 lo hi)) :: u32)"
  by (rule bit_word_eqI, auto simp: le16_def bit_simps)+

lemma drop_push: "k \<le> 32 \<Longrightarrow> unat w < 2 ^ (32 - k) \<Longrightarrow> drop_bit k (push_bit k w) = (w :: u32)"
proof (rule bit_word_eqI)
  fix n assume k: "k \<le> 32" "unat w < 2 ^ (32 - k)"
  have "w = take_bit (32 - k) w"
    using k(2) by (metis take_bit_nat_eq_self_iff unsigned_take_bit_eq word_unat_eq_iff)
  then have "bit w n \<Longrightarrow> n < 32 - k" by (metis bit_take_bit_iff)
  then show "bit (drop_bit k (push_bit k w)) n = bit w n" using k(1) by (auto simp: bit_simps)
qed

text \<open>The communication stream points at byte \<open>i\<close> of the data RAM.\<close>

definition comm_at :: "nat \<Rightarrow> bank_cdf \<Rightarrow> bool" where
  "comm_at i c \<longleftrightarrow> read_datastream_pointer DS_COMM c = push_bit (cv_fetcher_shift (cdf_version c)) (word_of_nat i)"

lemma comm_index:
  assumes "cdf_ok c" "comm_at i c" "i < length (cdf_data_ram c)"
  shows "unat (drop_bit (cv_fetcher_shift (cdf_version c)) (read_datastream_pointer DS_COMM c)) = i"
proof -
  have "i < 32768" "cv_fetcher_shift (cdf_version c) = 16 \<or> i < 4096 \<and> cv_fetcher_shift (cdf_version c) = 20"
    using assms(1,3) shift_and_mask [OF assms(1)]
    by (cases "cv_kind (cdf_version c) = CdfjPlus"; simp add: cdf_ok_def cdf_shape_def)+
  then show ?thesis
    using assms(2) drop_push [of "cv_fetcher_shift (cdf_version c)" "word_of_nat i"]
    by (auto simp: comm_at_def unat_of_nat)
qed

lemma comm_write:
  assumes "cdf_ok c" "comm_at i c" "i < length (cdf_data_ram c)"
  shows "\<exists>c'. cdf_write 0x1FF0 v c = Some c' \<and> cdf_ok c' \<and> comm_at (Suc i) c' \<and>
    cdf_data_ram c' = (cdf_data_ram c)[i := v] \<and> cdf_version c' = cdf_version c"
proof -
  let ?c = "c\<lparr>cdf_data_ram := (cdf_data_ram c)[i := v]\<rparr>"
  let ?p = "read_datastream_pointer DS_COMM c + push_bit (cv_fetcher_shift (cdf_version c)) 1"
  have ok: "cdf_ok ?c" using assms(1) by (simp add: cdf_ok_def cdf_shape_def)
  have "cdf_write 0x1FF0 v c = Some (update_datastream_pointer DS_COMM ?p ?c)"
    using assms(1,3) comm_index [OF assms]
    by (simp add: cdf_write_def cdf_bankswitch_def Let_def cdf_ok_def)
  moreover have "comm_at (Suc i) (update_datastream_pointer DS_COMM ?p ?c)"
    using assms(2) comm_pointer_update [OF ok]
    by (simp add: comm_at_def push_bit_eq_mult algebra_simps)
  ultimately show ?thesis using ok by simp
qed

lemma comm_seek:
  assumes "cdf_ok c"
  shows "wpo (do { c \<leftarrow> cdf_write 0x1FF1 hi c; cdf_write 0x1FF1 lo c }) (\<lambda>c'. cdf_ok c' \<and>
    read_datastream_pointer DS_COMM c' = push_bit (cv_fetcher_shift (cdf_version c)) (ucast (le16 lo hi)) \<and>
    cdf_data_ram c' = cdf_data_ram c \<and> cdf_version c' = cdf_version c)"
proof -
  have w: "cdf_write 0x1FF1 v c = Some (update_datastream_pointer DS_COMM
      ((push_bit 8 (read_datastream_pointer DS_COMM c) AND cv_fetcher_mask (cdf_version c))
        OR push_bit (cv_fetcher_shift (cdf_version c)) (ucast v)) c)" if "cdf_ok c" for v c
    using that by (simp add: cdf_write_def cdf_bankswitch_def Let_def cdf_ok_def)
  show ?thesis
    using assms shift_and_mask [OF assms] two_bytes_make_pointer
    by (cases "cv_kind (cdf_version c) = CdfjPlus") (simp_all add: w comm_pointer_update)
qed


primrec cdf_write_all :: "u8 list \<Rightarrow> bank_cdf \<Rightarrow> bank_cdf option" where
  "cdf_write_all [] c = Some c"
| "cdf_write_all (v # vs) c = do { c \<leftarrow> cdf_write 0x1FF0 v c; cdf_write_all vs c }"

lemma comm_write_all:
  assumes "cdf_ok c" "comm_at i c" "i + length vs \<le> length (cdf_data_ram c)"
  shows "wpo (cdf_write_all vs c) (\<lambda>c'. cdf_ok c' \<and> comm_at (i + length vs) c' \<and>
    cdf_data_ram c' = take i (cdf_data_ram c) @ vs @ drop (i + length vs) (cdf_data_ram c))"
  using assms
proof (induction vs arbitrary: c i)
  case (Cons v vs)
  from comm_write [OF Cons.prems(1,2)] Cons.prems(3) obtain c1 where c1: "cdf_write 0x1FF0 v c = Some c1"
      "cdf_ok c1" "comm_at (Suc i) c1" "cdf_data_ram c1 = (cdf_data_ram c)[i := v]" by fastforce
  have "take (Suc i) ((cdf_data_ram c)[i := v]) = take i (cdf_data_ram c) @ [v]"
    using Cons.prems(3) by (simp add: take_Suc_conv_app_nth)
  then show ?case
    using c1 Cons.IH [OF c1(2,3)] Cons.prems(3) by (simp add: wpo_def)
qed simp

text \<open>
  two bytes written to DSPTR and any number written to DSWRITE fill the data RAM from the address
  the two bytes spell, high byte first, as long as they fit.
\<close>

theorem cdf_comm_stream:
  assumes "cdf_ok c" "unat (le16 lo hi) + length vs \<le> length (cdf_data_ram c)"
  shows "wpo (do { c \<leftarrow> cdf_write 0x1FF1 hi c; c \<leftarrow> cdf_write 0x1FF1 lo c; cdf_write_all vs c })
    (\<lambda>c'. cdf_data_ram c' = take (unat (le16 lo hi)) (cdf_data_ram c) @ vs @
       drop (unat (le16 lo hi) + length vs) (cdf_data_ram c))"
proof -
  have u: "word_of_nat (unat (le16 lo hi)) = (ucast (le16 lo hi) :: u32)" by (simp add: unsigned_def)
  have "wpo (do { c \<leftarrow> cdf_write 0x1FF1 hi c; cdf_write 0x1FF1 lo c }) (\<lambda>c1.
      wpo (cdf_write_all vs c1) (\<lambda>c'. cdf_data_ram c' = take (unat (le16 lo hi)) (cdf_data_ram c) @ vs @
         drop (unat (le16 lo hi) + length vs) (cdf_data_ram c)))"
  proof (rule wpo_mono [OF comm_seek [OF assms(1), of hi lo]], elim conjE)
    fix c1
    assume c1: "cdf_ok c1" "read_datastream_pointer DS_COMM c1 =
        push_bit (cv_fetcher_shift (cdf_version c)) (ucast (le16 lo hi))"
      "cdf_data_ram c1 = cdf_data_ram c" "cdf_version c1 = cdf_version c"
    then have "comm_at (unat (le16 lo hi)) c1" by (simp add: comm_at_def u del: of_nat_unat)
    from comm_write_all [OF c1(1) this, of vs] assms(2) c1(3)
    show "wpo (cdf_write_all vs c1) (\<lambda>c'. cdf_data_ram c' = take (unat (le16 lo hi)) (cdf_data_ram c) @ vs @
         drop (unat (le16 lo hi) + length vs) (cdf_data_ram c))"
      by (auto simp: wpo_def)
  qed
  then show ?thesis by (simp add: wpo_def bind_eq_Some_conv) blast
qed

lemma demo_cdf_ram: "length (cdf_data_ram (demo_cdf Cdf1)) = 4096"
  using demo_cdf_ok [of Cdf1] by (simp add: cdf_ok_def cdf_shape_def)

lemma cdf_comm_stream_witness:
  "wpo (do { c \<leftarrow> cdf_write 0x1FF1 0x01 (demo_cdf Cdf1); c \<leftarrow> cdf_write 0x1FF1 0x23 c; cdf_write_all [1, 2, 3] c })
    (\<lambda>c'. cdf_data_ram c' = take (unat (le16 0x23 0x01)) (cdf_data_ram (demo_cdf Cdf1)) @ [1, 2, 3] @
       drop (unat (le16 0x23 0x01) + length [1, 2, 3 :: u8]) (cdf_data_ram (demo_cdf Cdf1)))"
  by (rule cdf_comm_stream [OF demo_cdf_ok(1)]) (simp add: demo_cdf_ram unat_le16)

end
