(* ===== verification/Cartridge.thy ===== *)
theory Cartridge
  imports Boards_Banked Boards_Ram Boards_Snoop Board_4A50 Board_Dpc Board_Ar Board_Cdf
begin

text \<open>
  The enum \<open>Cartridge\<close> (\<open>crates/rusty2600-cart/src/lib.rs\<close>): one constructor per board, and the
  trait's methods by dispatch on the constructor. \<open>cart_ok\<close> is the 25 boards' invariants side by side;
  \<open>plain_cart_ok\<close> leaves out the two boards whose coprocessor can panic.
\<close>

datatype cartridge =
    Rom2K rom_only
  | Rom4K rom_only
  | BankF8 banked
  | BankF6 banked
  | BankF4 banked
  | BankCV bank_cv
  | BankFA bank_fa
  | BankDpc bank_dpc
  | BankE7 bank_e7
  | BankF0 bank_f0
  | BankE0 bank_e0
  | Bank3F bank_3f
  | Bank3E bank_3e
  | BankEF banked
  | BankDF banked
  | BankBF banked
  | BankUA snooped
  | Bank0840 snooped
  | BankFe bank_fe
  | BankSb bank_sb
  | BankX07 snooped
  | Bank4A50 bank_4a50
  | BankAr bank_ar
  | BankDpcPlus bank_dpc_plus
  | BankCdf bank_cdf

primrec scheme_name :: "cartridge \<Rightarrow> string" where
  "scheme_name (Rom2K b) = ''2K''"
| "scheme_name (Rom4K b) = ''4K''"
| "scheme_name (BankF8 b) = ''F8''"
| "scheme_name (BankF6 b) = ''F6''"
| "scheme_name (BankF4 b) = ''F4''"
| "scheme_name (BankCV b) = ''CV''"
| "scheme_name (BankFA b) = ''FA''"
| "scheme_name (BankDpc b) = ''DPC''"
| "scheme_name (BankE7 b) = ''E7''"
| "scheme_name (BankF0 b) = ''F0''"
| "scheme_name (BankE0 b) = ''E0''"
| "scheme_name (Bank3F b) = ''3F''"
| "scheme_name (Bank3E b) = ''3E''"
| "scheme_name (BankEF b) = ''EF''"
| "scheme_name (BankDF b) = ''DF''"
| "scheme_name (BankBF b) = ''BF''"
| "scheme_name (BankUA b) = ''UA''"
| "scheme_name (Bank0840 b) = ''0840''"
| "scheme_name (BankFe b) = ''FE''"
| "scheme_name (BankSb b) = ''SB''"
| "scheme_name (BankX07 b) = ''X07''"
| "scheme_name (Bank4A50 b) = ''4A50''"
| "scheme_name (BankAr b) = ''AR''"
| "scheme_name (BankDpcPlus b) = ''DPC+''"
| "scheme_name (BankCdf b) = ''CDF/CDFJ/CDFJ+''"

subsection \<open>Dispatch\<close>

primrec cart_read :: "u16 \<Rightarrow> cartridge \<Rightarrow> (u8 \<times> cartridge) option" where
  "cart_read a (Rom2K b) = map_option (map_prod id Rom2K) (bd_read rom2k a b)"
| "cart_read a (Rom4K b) = map_option (map_prod id Rom4K) (bd_read rom4k a b)"
| "cart_read a (BankF8 b) = map_option (map_prod id BankF8) (bd_read bank_f8 a b)"
| "cart_read a (BankF6 b) = map_option (map_prod id BankF6) (bd_read bank_f6 a b)"
| "cart_read a (BankF4 b) = map_option (map_prod id BankF4) (bd_read bank_f4 a b)"
| "cart_read a (BankCV b) = map_option (map_prod id BankCV) (bd_read cv_board a b)"
| "cart_read a (BankFA b) = map_option (map_prod id BankFA) (bd_read fa_board a b)"
| "cart_read a (BankDpc b) = map_option (map_prod id BankDpc) (bd_read dpc_board a b)"
| "cart_read a (BankE7 b) = map_option (map_prod id BankE7) (bd_read e7_board a b)"
| "cart_read a (BankF0 b) = map_option (map_prod id BankF0) (bd_read f0_board a b)"
| "cart_read a (BankE0 b) = map_option (map_prod id BankE0) (bd_read e0_board a b)"
| "cart_read a (Bank3F b) = map_option (map_prod id Bank3F) (bd_read b3f_board a b)"
| "cart_read a (Bank3E b) = map_option (map_prod id Bank3E) (bd_read b3e_board a b)"
| "cart_read a (BankEF b) = map_option (map_prod id BankEF) (bd_read bank_ef a b)"
| "cart_read a (BankDF b) = map_option (map_prod id BankDF) (bd_read bank_df a b)"
| "cart_read a (BankBF b) = map_option (map_prod id BankBF) (bd_read bank_bf a b)"
| "cart_read a (BankUA b) = map_option (map_prod id BankUA) (bd_read bank_ua a b)"
| "cart_read a (Bank0840 b) = map_option (map_prod id Bank0840) (bd_read bank_0840 a b)"
| "cart_read a (BankFe b) = map_option (map_prod id BankFe) (bd_read fe_board a b)"
| "cart_read a (BankSb b) = map_option (map_prod id BankSb) (bd_read sb_board a b)"
| "cart_read a (BankX07 b) = map_option (map_prod id BankX07) (bd_read bank_x07 a b)"
| "cart_read a (Bank4A50 b) = map_option (map_prod id Bank4A50) (bd_read x_board a b)"
| "cart_read a (BankAr b) = map_option (map_prod id BankAr) (bd_read ar_board a b)"
| "cart_read a (BankDpcPlus b) = map_option (map_prod id BankDpcPlus) (bd_read dpp_board a b)"
| "cart_read a (BankCdf b) = map_option (map_prod id BankCdf) (bd_read cdf_board a b)"

primrec cart_write :: "u16 \<Rightarrow> u8 \<Rightarrow> cartridge \<Rightarrow> cartridge option" where
  "cart_write a v (Rom2K b) = map_option Rom2K (bd_write rom2k a v b)"
| "cart_write a v (Rom4K b) = map_option Rom4K (bd_write rom4k a v b)"
| "cart_write a v (BankF8 b) = map_option BankF8 (bd_write bank_f8 a v b)"
| "cart_write a v (BankF6 b) = map_option BankF6 (bd_write bank_f6 a v b)"
| "cart_write a v (BankF4 b) = map_option BankF4 (bd_write bank_f4 a v b)"
| "cart_write a v (BankCV b) = map_option BankCV (bd_write cv_board a v b)"
| "cart_write a v (BankFA b) = map_option BankFA (bd_write fa_board a v b)"
| "cart_write a v (BankDpc b) = map_option BankDpc (bd_write dpc_board a v b)"
| "cart_write a v (BankE7 b) = map_option BankE7 (bd_write e7_board a v b)"
| "cart_write a v (BankF0 b) = map_option BankF0 (bd_write f0_board a v b)"
| "cart_write a v (BankE0 b) = map_option BankE0 (bd_write e0_board a v b)"
| "cart_write a v (Bank3F b) = map_option Bank3F (bd_write b3f_board a v b)"
| "cart_write a v (Bank3E b) = map_option Bank3E (bd_write b3e_board a v b)"
| "cart_write a v (BankEF b) = map_option BankEF (bd_write bank_ef a v b)"
| "cart_write a v (BankDF b) = map_option BankDF (bd_write bank_df a v b)"
| "cart_write a v (BankBF b) = map_option BankBF (bd_write bank_bf a v b)"
| "cart_write a v (BankUA b) = map_option BankUA (bd_write bank_ua a v b)"
| "cart_write a v (Bank0840 b) = map_option Bank0840 (bd_write bank_0840 a v b)"
| "cart_write a v (BankFe b) = map_option BankFe (bd_write fe_board a v b)"
| "cart_write a v (BankSb b) = map_option BankSb (bd_write sb_board a v b)"
| "cart_write a v (BankX07 b) = map_option BankX07 (bd_write bank_x07 a v b)"
| "cart_write a v (Bank4A50 b) = map_option Bank4A50 (bd_write x_board a v b)"
| "cart_write a v (BankAr b) = map_option BankAr (bd_write ar_board a v b)"
| "cart_write a v (BankDpcPlus b) = map_option BankDpcPlus (bd_write dpp_board a v b)"
| "cart_write a v (BankCdf b) = map_option BankCdf (bd_write cdf_board a v b)"

primrec cart_tier :: "cartridge \<Rightarrow> tier" where
  "cart_tier (Rom2K b) = bd_tier rom2k b"
| "cart_tier (Rom4K b) = bd_tier rom4k b"
| "cart_tier (BankF8 b) = bd_tier bank_f8 b"
| "cart_tier (BankF6 b) = bd_tier bank_f6 b"
| "cart_tier (BankF4 b) = bd_tier bank_f4 b"
| "cart_tier (BankCV b) = bd_tier cv_board b"
| "cart_tier (BankFA b) = bd_tier fa_board b"
| "cart_tier (BankDpc b) = bd_tier dpc_board b"
| "cart_tier (BankE7 b) = bd_tier e7_board b"
| "cart_tier (BankF0 b) = bd_tier f0_board b"
| "cart_tier (BankE0 b) = bd_tier e0_board b"
| "cart_tier (Bank3F b) = bd_tier b3f_board b"
| "cart_tier (Bank3E b) = bd_tier b3e_board b"
| "cart_tier (BankEF b) = bd_tier bank_ef b"
| "cart_tier (BankDF b) = bd_tier bank_df b"
| "cart_tier (BankBF b) = bd_tier bank_bf b"
| "cart_tier (BankUA b) = bd_tier bank_ua b"
| "cart_tier (Bank0840 b) = bd_tier bank_0840 b"
| "cart_tier (BankFe b) = bd_tier fe_board b"
| "cart_tier (BankSb b) = bd_tier sb_board b"
| "cart_tier (BankX07 b) = bd_tier bank_x07 b"
| "cart_tier (Bank4A50 b) = bd_tier x_board b"
| "cart_tier (BankAr b) = bd_tier ar_board b"
| "cart_tier (BankDpcPlus b) = bd_tier dpp_board b"
| "cart_tier (BankCdf b) = bd_tier cdf_board b"

primrec cart_tick :: "cartridge \<Rightarrow> cartridge option" where
  "cart_tick (Rom2K b) = map_option Rom2K (bd_tick rom2k b)"
| "cart_tick (Rom4K b) = map_option Rom4K (bd_tick rom4k b)"
| "cart_tick (BankF8 b) = map_option BankF8 (bd_tick bank_f8 b)"
| "cart_tick (BankF6 b) = map_option BankF6 (bd_tick bank_f6 b)"
| "cart_tick (BankF4 b) = map_option BankF4 (bd_tick bank_f4 b)"
| "cart_tick (BankCV b) = map_option BankCV (bd_tick cv_board b)"
| "cart_tick (BankFA b) = map_option BankFA (bd_tick fa_board b)"
| "cart_tick (BankDpc b) = map_option BankDpc (bd_tick dpc_board b)"
| "cart_tick (BankE7 b) = map_option BankE7 (bd_tick e7_board b)"
| "cart_tick (BankF0 b) = map_option BankF0 (bd_tick f0_board b)"
| "cart_tick (BankE0 b) = map_option BankE0 (bd_tick e0_board b)"
| "cart_tick (Bank3F b) = map_option Bank3F (bd_tick b3f_board b)"
| "cart_tick (Bank3E b) = map_option Bank3E (bd_tick b3e_board b)"
| "cart_tick (BankEF b) = map_option BankEF (bd_tick bank_ef b)"
| "cart_tick (BankDF b) = map_option BankDF (bd_tick bank_df b)"
| "cart_tick (BankBF b) = map_option BankBF (bd_tick bank_bf b)"
| "cart_tick (BankUA b) = map_option BankUA (bd_tick bank_ua b)"
| "cart_tick (Bank0840 b) = map_option Bank0840 (bd_tick bank_0840 b)"
| "cart_tick (BankFe b) = map_option BankFe (bd_tick fe_board b)"
| "cart_tick (BankSb b) = map_option BankSb (bd_tick sb_board b)"
| "cart_tick (BankX07 b) = map_option BankX07 (bd_tick bank_x07 b)"
| "cart_tick (Bank4A50 b) = map_option Bank4A50 (bd_tick x_board b)"
| "cart_tick (BankAr b) = map_option BankAr (bd_tick ar_board b)"
| "cart_tick (BankDpcPlus b) = map_option BankDpcPlus (bd_tick dpp_board b)"
| "cart_tick (BankCdf b) = map_option BankCdf (bd_tick cdf_board b)"

primrec cart_tick_coprocessor :: "cartridge \<Rightarrow> cartridge option" where
  "cart_tick_coprocessor (Rom2K b) = map_option Rom2K (bd_tick_coprocessor rom2k b)"
| "cart_tick_coprocessor (Rom4K b) = map_option Rom4K (bd_tick_coprocessor rom4k b)"
| "cart_tick_coprocessor (BankF8 b) = map_option BankF8 (bd_tick_coprocessor bank_f8 b)"
| "cart_tick_coprocessor (BankF6 b) = map_option BankF6 (bd_tick_coprocessor bank_f6 b)"
| "cart_tick_coprocessor (BankF4 b) = map_option BankF4 (bd_tick_coprocessor bank_f4 b)"
| "cart_tick_coprocessor (BankCV b) = map_option BankCV (bd_tick_coprocessor cv_board b)"
| "cart_tick_coprocessor (BankFA b) = map_option BankFA (bd_tick_coprocessor fa_board b)"
| "cart_tick_coprocessor (BankDpc b) = map_option BankDpc (bd_tick_coprocessor dpc_board b)"
| "cart_tick_coprocessor (BankE7 b) = map_option BankE7 (bd_tick_coprocessor e7_board b)"
| "cart_tick_coprocessor (BankF0 b) = map_option BankF0 (bd_tick_coprocessor f0_board b)"
| "cart_tick_coprocessor (BankE0 b) = map_option BankE0 (bd_tick_coprocessor e0_board b)"
| "cart_tick_coprocessor (Bank3F b) = map_option Bank3F (bd_tick_coprocessor b3f_board b)"
| "cart_tick_coprocessor (Bank3E b) = map_option Bank3E (bd_tick_coprocessor b3e_board b)"
| "cart_tick_coprocessor (BankEF b) = map_option BankEF (bd_tick_coprocessor bank_ef b)"
| "cart_tick_coprocessor (BankDF b) = map_option BankDF (bd_tick_coprocessor bank_df b)"
| "cart_tick_coprocessor (BankBF b) = map_option BankBF (bd_tick_coprocessor bank_bf b)"
| "cart_tick_coprocessor (BankUA b) = map_option BankUA (bd_tick_coprocessor bank_ua b)"
| "cart_tick_coprocessor (Bank0840 b) = map_option Bank0840 (bd_tick_coprocessor bank_0840 b)"
| "cart_tick_coprocessor (BankFe b) = map_option BankFe (bd_tick_coprocessor fe_board b)"
| "cart_tick_coprocessor (BankSb b) = map_option BankSb (bd_tick_coprocessor sb_board b)"
| "cart_tick_coprocessor (BankX07 b) = map_option BankX07 (bd_tick_coprocessor bank_x07 b)"
| "cart_tick_coprocessor (Bank4A50 b) = map_option Bank4A50 (bd_tick_coprocessor x_board b)"
| "cart_tick_coprocessor (BankAr b) = map_option BankAr (bd_tick_coprocessor ar_board b)"
| "cart_tick_coprocessor (BankDpcPlus b) = map_option BankDpcPlus (bd_tick_coprocessor dpp_board b)"
| "cart_tick_coprocessor (BankCdf b) = map_option BankCdf (bd_tick_coprocessor cdf_board b)"

primrec cart_snoop_write :: "u16 \<Rightarrow> u8 \<Rightarrow> cartridge \<Rightarrow> cartridge option" where
  "cart_snoop_write a v (Rom2K b) = map_option Rom2K (bd_snoop_write rom2k a v b)"
| "cart_snoop_write a v (Rom4K b) = map_option Rom4K (bd_snoop_write rom4k a v b)"
| "cart_snoop_write a v (BankF8 b) = map_option BankF8 (bd_snoop_write bank_f8 a v b)"
| "cart_snoop_write a v (BankF6 b) = map_option BankF6 (bd_snoop_write bank_f6 a v b)"
| "cart_snoop_write a v (BankF4 b) = map_option BankF4 (bd_snoop_write bank_f4 a v b)"
| "cart_snoop_write a v (BankCV b) = map_option BankCV (bd_snoop_write cv_board a v b)"
| "cart_snoop_write a v (BankFA b) = map_option BankFA (bd_snoop_write fa_board a v b)"
| "cart_snoop_write a v (BankDpc b) = map_option BankDpc (bd_snoop_write dpc_board a v b)"
| "cart_snoop_write a v (BankE7 b) = map_option BankE7 (bd_snoop_write e7_board a v b)"
| "cart_snoop_write a v (BankF0 b) = map_option BankF0 (bd_snoop_write f0_board a v b)"
| "cart_snoop_write a v (BankE0 b) = map_option BankE0 (bd_snoop_write e0_board a v b)"
| "cart_snoop_write a v (Bank3F b) = map_option Bank3F (bd_snoop_write b3f_board a v b)"
| "cart_snoop_write a v (Bank3E b) = map_option Bank3E (bd_snoop_write b3e_board a v b)"
| "cart_snoop_write a v (BankEF b) = map_option BankEF (bd_snoop_write bank_ef a v b)"
| "cart_snoop_write a v (BankDF b) = map_option BankDF (bd_snoop_write bank_df a v b)"
| "cart_snoop_write a v (BankBF b) = map_option BankBF (bd_snoop_write bank_bf a v b)"
| "cart_snoop_write a v (BankUA b) = map_option BankUA (bd_snoop_write bank_ua a v b)"
| "cart_snoop_write a v (Bank0840 b) = map_option Bank0840 (bd_snoop_write bank_0840 a v b)"
| "cart_snoop_write a v (BankFe b) = map_option BankFe (bd_snoop_write fe_board a v b)"
| "cart_snoop_write a v (BankSb b) = map_option BankSb (bd_snoop_write sb_board a v b)"
| "cart_snoop_write a v (BankX07 b) = map_option BankX07 (bd_snoop_write bank_x07 a v b)"
| "cart_snoop_write a v (Bank4A50 b) = map_option Bank4A50 (bd_snoop_write x_board a v b)"
| "cart_snoop_write a v (BankAr b) = map_option BankAr (bd_snoop_write ar_board a v b)"
| "cart_snoop_write a v (BankDpcPlus b) = map_option BankDpcPlus (bd_snoop_write dpp_board a v b)"
| "cart_snoop_write a v (BankCdf b) = map_option BankCdf (bd_snoop_write cdf_board a v b)"

primrec cart_snoop_read :: "u16 \<Rightarrow> u8 \<Rightarrow> cartridge \<Rightarrow> cartridge option" where
  "cart_snoop_read a v (Rom2K b) = map_option Rom2K (bd_snoop_read rom2k a v b)"
| "cart_snoop_read a v (Rom4K b) = map_option Rom4K (bd_snoop_read rom4k a v b)"
| "cart_snoop_read a v (BankF8 b) = map_option BankF8 (bd_snoop_read bank_f8 a v b)"
| "cart_snoop_read a v (BankF6 b) = map_option BankF6 (bd_snoop_read bank_f6 a v b)"
| "cart_snoop_read a v (BankF4 b) = map_option BankF4 (bd_snoop_read bank_f4 a v b)"
| "cart_snoop_read a v (BankCV b) = map_option BankCV (bd_snoop_read cv_board a v b)"
| "cart_snoop_read a v (BankFA b) = map_option BankFA (bd_snoop_read fa_board a v b)"
| "cart_snoop_read a v (BankDpc b) = map_option BankDpc (bd_snoop_read dpc_board a v b)"
| "cart_snoop_read a v (BankE7 b) = map_option BankE7 (bd_snoop_read e7_board a v b)"
| "cart_snoop_read a v (BankF0 b) = map_option BankF0 (bd_snoop_read f0_board a v b)"
| "cart_snoop_read a v (BankE0 b) = map_option BankE0 (bd_snoop_read e0_board a v b)"
| "cart_snoop_read a v (Bank3F b) = map_option Bank3F (bd_snoop_read b3f_board a v b)"
| "cart_snoop_read a v (Bank3E b) = map_option Bank3E (bd_snoop_read b3e_board a v b)"
| "cart_snoop_read a v (BankEF b) = map_option BankEF (bd_snoop_read bank_ef a v b)"
| "cart_snoop_read a v (BankDF b) = map_option BankDF (bd_snoop_read bank_df a v b)"
| "cart_snoop_read a v (BankBF b) = map_option BankBF (bd_snoop_read bank_bf a v b)"
| "cart_snoop_read a v (BankUA b) = map_option BankUA (bd_snoop_read bank_ua a v b)"
| "cart_snoop_read a v (Bank0840 b) = map_option Bank0840 (bd_snoop_read bank_0840 a v b)"
| "cart_snoop_read a v (BankFe b) = map_option BankFe (bd_snoop_read fe_board a v b)"
| "cart_snoop_read a v (BankSb b) = map_option BankSb (bd_snoop_read sb_board a v b)"
| "cart_snoop_read a v (BankX07 b) = map_option BankX07 (bd_snoop_read bank_x07 a v b)"
| "cart_snoop_read a v (Bank4A50 b) = map_option Bank4A50 (bd_snoop_read x_board a v b)"
| "cart_snoop_read a v (BankAr b) = map_option BankAr (bd_snoop_read ar_board a v b)"
| "cart_snoop_read a v (BankDpcPlus b) = map_option BankDpcPlus (bd_snoop_read dpp_board a v b)"
| "cart_snoop_read a v (BankCdf b) = map_option BankCdf (bd_snoop_read cdf_board a v b)"

definition cart_take_oob_pokes ::
  "cartridge \<Rightarrow> (u16 \<times> u8) list \<times> cartridge" where
  "cart_take_oob_pokes c = (case c of
     BankAr b \<Rightarrow> map_prod id BankAr (bd_take_oob_pokes ar_board b)
   | BankDpcPlus b \<Rightarrow> map_prod id BankDpcPlus (bd_take_oob_pokes dpp_board b)
   | BankCdf b \<Rightarrow> map_prod id BankCdf (bd_take_oob_pokes cdf_board b)
   | _ \<Rightarrow> ([], c))"

definition cart_ops :: "cartridge board_ops" where
  "cart_ops = \<lparr>bd_read = cart_read, bd_write = cart_write, bd_tier = cart_tier,
     bd_tick = cart_tick, bd_tick_coprocessor = cart_tick_coprocessor,
     bd_snoop_write = cart_snoop_write, bd_snoop_read = cart_snoop_read,
     bd_take_oob_pokes = cart_take_oob_pokes\<rparr>"

subsection \<open>The contract\<close>

primrec cart_ok :: "cartridge \<Rightarrow> bool" where
  "cart_ok (Rom2K b) \<longleftrightarrow> rom2k_ok b"
| "cart_ok (Rom4K b) \<longleftrightarrow> rom4k_ok b"
| "cart_ok (BankF8 b) \<longleftrightarrow> banked_ok 2 b"
| "cart_ok (BankF6 b) \<longleftrightarrow> banked_ok 4 b"
| "cart_ok (BankF4 b) \<longleftrightarrow> banked_ok 8 b"
| "cart_ok (BankCV b) \<longleftrightarrow> cv_ok b"
| "cart_ok (BankFA b) \<longleftrightarrow> fa_ok b"
| "cart_ok (BankDpc b) \<longleftrightarrow> dpc_ok b"
| "cart_ok (BankE7 b) \<longleftrightarrow> e7_ok b"
| "cart_ok (BankF0 b) \<longleftrightarrow> f0_ok b"
| "cart_ok (BankE0 b) \<longleftrightarrow> e0_ok b"
| "cart_ok (Bank3F b) \<longleftrightarrow> b3f_ok b"
| "cart_ok (Bank3E b) \<longleftrightarrow> b3e_ok b"
| "cart_ok (BankEF b) \<longleftrightarrow> banked_ok 16 b"
| "cart_ok (BankDF b) \<longleftrightarrow> banked_ok 32 b"
| "cart_ok (BankBF b) \<longleftrightarrow> banked_ok 64 b"
| "cart_ok (BankUA b) \<longleftrightarrow> snooped_ok 2 b"
| "cart_ok (Bank0840 b) \<longleftrightarrow> snooped_ok 2 b"
| "cart_ok (BankFe b) \<longleftrightarrow> fe_ok b"
| "cart_ok (BankSb b) \<longleftrightarrow> sb_ok b"
| "cart_ok (BankX07 b) \<longleftrightarrow> snooped_ok 16 b"
| "cart_ok (Bank4A50 b) \<longleftrightarrow> x_ok b"
| "cart_ok (BankAr b) \<longleftrightarrow> ar_ok b"
| "cart_ok (BankDpcPlus b) \<longleftrightarrow> dpp_ok b"
| "cart_ok (BankCdf b) \<longleftrightarrow> cdf_ok b"

lemmas cart_read_rules =
  rom2k.read_ok rom4k.read_ok bank_f8.read_ok bank_f6.read_ok bank_f4.read_ok cv.read_ok
  fa.read_ok dpc.read_ok e7.read_ok f0.read_ok e0.read_ok b3f.read_ok b3e.read_ok
  bank_ef.read_ok bank_df.read_ok bank_bf.read_ok bank_ua.read_ok bank_0840.read_ok fe.read_ok
  sb.read_ok bank_x07.read_ok x4a50.read_ok ar.read_ok

lemmas cart_write_rules =
  rom2k.write_ok rom4k.write_ok bank_f8.write_ok bank_f6.write_ok bank_f4.write_ok cv.write_ok
  fa.write_ok dpc.write_ok e7.write_ok f0.write_ok e0.write_ok b3f.write_ok b3e.write_ok
  bank_ef.write_ok bank_df.write_ok bank_bf.write_ok bank_ua.write_ok bank_0840.write_ok
  fe.write_ok sb.write_ok bank_x07.write_ok x4a50.write_ok ar.write_ok

lemmas cart_tick_rules =
  rom2k.tick_ok rom4k.tick_ok bank_f8.tick_ok bank_f6.tick_ok bank_f4.tick_ok cv.tick_ok
  fa.tick_ok dpc.tick_ok e7.tick_ok f0.tick_ok e0.tick_ok b3f.tick_ok b3e.tick_ok
  bank_ef.tick_ok bank_df.tick_ok bank_bf.tick_ok bank_ua.tick_ok bank_0840.tick_ok fe.tick_ok
  sb.tick_ok bank_x07.tick_ok x4a50.tick_ok ar.tick_ok

lemmas cart_coprocessor_rules =
  rom2k.coprocessor_ok rom4k.coprocessor_ok bank_f8.coprocessor_ok bank_f6.coprocessor_ok
  bank_f4.coprocessor_ok cv.coprocessor_ok fa.coprocessor_ok dpc.coprocessor_ok
  e7.coprocessor_ok f0.coprocessor_ok e0.coprocessor_ok b3f.coprocessor_ok b3e.coprocessor_ok
  bank_ef.coprocessor_ok bank_df.coprocessor_ok bank_bf.coprocessor_ok bank_ua.coprocessor_ok
  bank_0840.coprocessor_ok fe.coprocessor_ok sb.coprocessor_ok bank_x07.coprocessor_ok
  x4a50.coprocessor_ok ar.coprocessor_ok

lemmas cart_snoop_write_rules =
  rom2k.snoop_write_ok rom4k.snoop_write_ok bank_f8.snoop_write_ok bank_f6.snoop_write_ok
  bank_f4.snoop_write_ok cv.snoop_write_ok fa.snoop_write_ok dpc.snoop_write_ok
  e7.snoop_write_ok f0.snoop_write_ok e0.snoop_write_ok b3f.snoop_write_ok b3e.snoop_write_ok
  bank_ef.snoop_write_ok bank_df.snoop_write_ok bank_bf.snoop_write_ok bank_ua.snoop_write_ok
  bank_0840.snoop_write_ok fe.snoop_write_ok sb.snoop_write_ok bank_x07.snoop_write_ok
  x4a50.snoop_write_ok ar.snoop_write_ok

lemmas cart_snoop_read_rules =
  rom2k.snoop_read_ok rom4k.snoop_read_ok bank_f8.snoop_read_ok bank_f6.snoop_read_ok
  bank_f4.snoop_read_ok cv.snoop_read_ok fa.snoop_read_ok dpc.snoop_read_ok e7.snoop_read_ok
  f0.snoop_read_ok e0.snoop_read_ok b3f.snoop_read_ok b3e.snoop_read_ok bank_ef.snoop_read_ok
  bank_df.snoop_read_ok bank_bf.snoop_read_ok bank_ua.snoop_read_ok bank_0840.snoop_read_ok
  fe.snoop_read_ok sb.snoop_read_ok bank_x07.snoop_read_ok x4a50.snoop_read_ok ar.snoop_read_ok

lemma wpo_snd: "wpo m (\<lambda>(v, c). Q c) \<longleftrightarrow> wpo m (\<lambda>r. Q (snd r))"
  by (simp add: split_beta')

text \<open>
  The two boards with an ARM coprocessor, and the calls that run it: all others are safe.
\<close>

fun has_arm :: "cartridge \<Rightarrow> bool" where
  "has_arm (BankDpcPlus b) = True"
| "has_arm (BankCdf b) = True"
| "has_arm _ = False"

fun calls_coprocessor :: "cartridge \<Rightarrow> board_event \<Rightarrow> bool" where
  "calls_coprocessor (BankDpcPlus b) (Write a v) = calls_arm a v"
| "calls_coprocessor (BankCdf b) (Write a v) = calls_cdf a v"
| "calls_coprocessor _ _ = False"

definition plain_cart_ok :: "cartridge \<Rightarrow> bool" where
  "plain_cart_ok c \<longleftrightarrow> cart_ok c \<and> \<not> has_arm c"

lemma plain_cart_ok_simps [simp]:
  "plain_cart_ok (BankDpcPlus b) = False" "plain_cart_ok (BankCdf d) = False"
  "plain_cart_ok (Rom4K r) = rom4k_ok r" "plain_cart_ok (BankF8 f) = banked_ok 2 f"
  by (simp_all add: plain_cart_ok_def)

text \<open>No call changes the constructor, and every call keeps the board's invariant.\<close>

lemma cart_event_ok:
  assumes "cart_ok c" "event_in_window e" "\<not> calls_coprocessor c e"
  shows "wpo (event cart_ops e c) (\<lambda>c'. cart_ok c' \<and> scheme_name c' = scheme_name c)"
proof (cases e)
  case (Read a)
  then show ?thesis
    using assms by (cases c) (auto simp: cart_ops_def dpp_board_def cdf_board_def
        intro: cart_read_rules [unfolded wpo_snd] dpp_read_ok [unfolded wpo_snd] cdf_read_ok [unfolded wpo_snd])
next
  case (Write a v)
  then show ?thesis
    using assms by (cases c) (auto simp: cart_ops_def dpp_board_def cdf_board_def
        intro: cart_write_rules dpp_write_ok cdf_write_ok)
next
  case (Snoop_Read a v)
  then show ?thesis
    using assms by (cases c) (auto simp: cart_ops_def dpp_board_def cdf_board_def intro: cart_snoop_read_rules)
next
  case (Snoop_Write a v)
  then show ?thesis
    using assms by (cases c) (auto simp: cart_ops_def dpp_board_def cdf_board_def intro: cart_snoop_write_rules)
next
  case Tick
  then show ?thesis
    using assms by (cases c) (auto simp: cart_ops_def dpp_board_def cdf_board_def
        intro: cart_tick_rules dpp_tick_ok cdf_tick_ok)
qed

lemma scheme_has_arm: "scheme_name c = scheme_name c' \<Longrightarrow> has_arm c = has_arm c'"
  by (cases c; cases c'; simp)

lemma scheme_calls: "scheme_name c = scheme_name c' \<Longrightarrow> calls_coprocessor c e = calls_coprocessor c' e"
  by (cases c; cases c'; cases e; simp)

lemma plain_event:
  assumes "plain_cart_ok c \<and> scheme_name c = s" "event_in_window e"
  shows "wpo (event cart_ops e c) (\<lambda>c'. plain_cart_ok c' \<and> scheme_name c' = s)"
proof -
  have "\<not> calls_coprocessor c e" using assms(1) by (cases c; cases e) (auto simp: plain_cart_ok_def)
  then have "wpo (event cart_ops e c) (\<lambda>c'. cart_ok c' \<and> scheme_name c' = scheme_name c)"
    using cart_event_ok [of c e] assms by (simp add: plain_cart_ok_def)
  then show ?thesis
    by (rule wpo_mono) (metis assms(1) plain_cart_ok_def scheme_has_arm)
qed

lemma plain_oob: "plain_cart_ok c \<and> scheme_name c = s \<Longrightarrow>
    plain_cart_ok (snd (cart_take_oob_pokes c)) \<and> scheme_name (snd (cart_take_oob_pokes c)) = s"
  by (cases c) (auto simp: plain_cart_ok_def cart_take_oob_pokes_def intro: ar.take_oob_ok)

interpretation cart: board cart_ops "\<lambda>c. plain_cart_ok c \<and> scheme_name c = s" for s
proof unfold_locales
  fix c :: cartridge and a v
  let ?ok = "\<lambda>c. plain_cart_ok c \<and> scheme_name c = s"
  assume ok: "?ok c"
  show "wpo (bd_read cart_ops a c) (\<lambda>(v, c'). ?ok c')" if "in_window a"
    using plain_event [OF ok, of "Read a"] that by (simp add: wpo_snd split_beta)
  show "wpo (bd_write cart_ops a v c) ?ok" if "in_window a"
    using plain_event [OF ok, of "Write a v"] that by simp
  show "wpo (bd_tick cart_ops c) ?ok" using plain_event [OF ok, of Tick] by simp
  show "wpo (bd_tick_coprocessor cart_ops c) ?ok"
    using ok by (cases c) (auto simp: cart_ops_def plain_cart_ok_def intro: cart_coprocessor_rules)
  show "wpo (bd_snoop_write cart_ops a v c) ?ok" using plain_event [OF ok, of "Snoop_Write a v"] by simp
  show "wpo (bd_snoop_read cart_ops a v c) ?ok" using plain_event [OF ok, of "Snoop_Read a v"] by simp
  show "?ok (snd (bd_take_oob_pokes cart_ops c))" using plain_oob [OF ok] by (simp add: cart_ops_def)
qed

lemma plain_boards: "board cart_ops (\<lambda>c. plain_cart_ok c \<and> p (scheme_name c))"
  by unfold_locales
    (auto intro: wpo_mono [OF cart.read_ok] wpo_mono [OF cart.write_ok] wpo_mono [OF cart.tick_ok]
      wpo_mono [OF cart.coprocessor_ok] wpo_mono [OF cart.snoop_write_ok] wpo_mono [OF cart.snoop_read_ok]
      simp: cart.take_oob_ok [THEN conjunct1] cart.take_oob_ok [THEN conjunct2])

lemma plain_board: "board cart_ops plain_cart_ok"
  using plain_boards [of "\<lambda>_. True"] by simp

text \<open>
  C22: No sequence of reads and writes of the cartridge window, snooped console accesses and ticks
  makes a cartridge of any of the 25 schemes panic, and none changes its scheme, as long as
  no write calls the coprocessor of one of the two boards that have one.
\<close>

theorem cartridge_run_safe:
  assumes "cart_ok c" "list_all event_in_window es" "list_all (\<lambda>e. \<not> calls_coprocessor c e) es"
  shows "wpo (board_run cart_ops es c) (\<lambda>c'. cart_ok c' \<and> scheme_name c' = scheme_name c)"
  using assms
proof (induction es arbitrary: c)
  case (Cons e es)
  have "wpo (event cart_ops e c) (\<lambda>c'. cart_ok c' \<and> scheme_name c' = scheme_name c)"
    using Cons.prems by (intro cart_event_ok) simp_all
  then have "wpo (event cart_ops e c) (\<lambda>c1. wpo (board_run cart_ops es c1)
      (\<lambda>c'. cart_ok c' \<and> scheme_name c' = scheme_name c))"
  proof (rule wpo_mono, elim conjE)
    fix c1 assume c1: "cart_ok c1" "scheme_name c1 = scheme_name c"
    have "list_all (\<lambda>e. \<not> calls_coprocessor c1 e) es"
      using Cons.prems(3) unfolding scheme_calls [OF c1(2)] by simp
    then show "wpo (board_run cart_ops es c1) (\<lambda>c'. cart_ok c' \<and> scheme_name c' = scheme_name c)"
      using Cons.IH [OF c1(1)] Cons.prems(2) c1(2) by simp
  qed
  then show ?case by simp
qed simp

lemma cartridge_run_safe_witness:
  "wpo (board_run cart_ops [Read 0x1FF9, Write 0x1234 7, Tick, Snoop_Write 0x3F 2] (BankF8 demo_f8))
     (\<lambda>c'. cart_ok c' \<and> scheme_name c' = scheme_name (BankF8 demo_f8))"
  by (rule cartridge_run_safe) (simp_all add: demo_f8_ok in_window_def)

end
