(* ===== verification/Bus.thy ===== *)
theory Bus
  imports Tia_Props Riot Cartridge
begin

text \<open>
  The system bus (\<open>crates/rusty2600-core/src/bus.rs\<close>): the two console chips, the cartridge slot,
  the last value driven on the data bus and the debugger's write log. \<open>cpu_read\<close> and \<open>cpu_write\<close>
  decode the 13 address lines of the 6507. The cartridge is any state type with a \<open>board_ops\<close>
  record, as the source goes through the trait \<open>Board\<close>; \<open>None\<close> is a panic of one of its methods or
  an index out of range.
\<close>

subsection \<open>The write log\<close>

record write_event =
  we_scanline :: u16
  we_color_clock :: u16
  we_addr :: u16
  we_value :: u8

record write_log =
  wl_enabled :: bool
  wl_events :: "write_event list"

definition MAX_EVENTS :: nat where "MAX_EVENTS = 4096"

definition write_log_default :: write_log where
  "write_log_default = \<lparr>wl_enabled = False, wl_events = []\<rparr>"

definition log_clear :: "write_log \<Rightarrow> write_log" where
  "log_clear w = w\<lparr>wl_events := []\<rparr>"

definition log_record :: "write_event \<Rightarrow> write_log \<Rightarrow> write_log" where
  "log_record ev w =
     (if \<not> wl_enabled w then w
      else (let
        es = (if length (wl_events w) \<ge> MAX_EVENTS then tl (wl_events w) else wl_events w)
      in w\<lparr>wl_events := es @ [ev]\<rparr>))"

subsection \<open>The bus\<close>

record ('f, 'c) bus =
  b_tia :: "'f tia"
  b_riot :: riot
  b_board :: "'c option"
  b_open_bus :: u8
  b_write_log :: write_log

text \<open>\<open>Bus::default()\<close>, which takes the derived default of the TIA and not \<open>Tia::new()\<close>.\<close>

definition bus_new :: "'f fops \<Rightarrow> ('f, 'c) bus" where
  "bus_new F = \<lparr>b_tia = tia_default F, b_riot = riot_new, b_board = None, b_open_bus = 0,
     b_write_log = write_log_default\<rparr>"

fun poke_ram :: "(u16 \<times> u8) list \<Rightarrow> riot \<Rightarrow> riot option" where
  "poke_ram [] r = Some r"
| "poke_ram ((addr, v) # ps) r = do {
     m \<leftarrow> upd_chk (riot_ram r) (unat (addr AND 0x7F)) v;
     poke_ram ps (r\<lparr>riot_ram := m\<rparr>) }"

definition apply_oob_pokes :: "'c board_ops \<Rightarrow> ('f, 'c) bus \<Rightarrow> ('f, 'c) bus option" where
  "apply_oob_pokes C b = (case b_board b of
     None \<Rightarrow> Some b
   | Some c \<Rightarrow> do {
       let (pokes, c) = bd_take_oob_pokes C c;
       r \<leftarrow> poke_ram pokes (b_riot b);
       Some (b\<lparr>b_board := Some c, b_riot := r\<rparr>) })"

definition read_cart :: "'c board_ops \<Rightarrow> u16 \<Rightarrow> ('f, 'c) bus \<Rightarrow> (u8 \<times> ('f, 'c) bus) option" where
  "read_cart C addr b = (case b_board b of
     Some c \<Rightarrow> do {
       (v, c) \<leftarrow> bd_read C addr c;
       b \<leftarrow> apply_oob_pokes C (b\<lparr>b_board := Some c\<rparr>);
       Some (v, b) }
   | None \<Rightarrow> Some (b_open_bus b, b))"

definition read_console :: "'f fops \<Rightarrow> u16 \<Rightarrow> ('f, 'c) bus \<Rightarrow> (u8 \<times> ('f, 'c) bus) option" where
  "read_console F addr b =
     (if addr AND 0x0080 = 0
      then (let (v, t) = tia_read F addr (b_tia b) in Some (v, b\<lparr>b_tia := t\<rparr>))
      else do { (v, r) \<leftarrow> riot_read addr (b_riot b); Some (v, b\<lparr>b_riot := r\<rparr>) })"

definition cpu_read ::
  "'f fops \<Rightarrow> 'c board_ops \<Rightarrow> u16 \<Rightarrow> ('f, 'c) bus \<Rightarrow> (u8 \<times> ('f, 'c) bus) option" where
  "cpu_read F C addr b = do {
     let addr = addr AND 0x1FFF;
     (v, b) \<leftarrow>
       (if addr AND 0x1000 \<noteq> 0 then read_cart C addr b
        else do {
          (v, b) \<leftarrow> read_console F addr b;
          (case b_board b of
             Some c \<Rightarrow> do { c \<leftarrow> bd_snoop_read C addr v c; Some (v, b\<lparr>b_board := Some c\<rparr>) }
           | None \<Rightarrow> Some (v, b)) });
     Some (v, b\<lparr>b_open_bus := v\<rparr>) }"

definition write_cart :: "'c board_ops \<Rightarrow> u16 \<Rightarrow> u8 \<Rightarrow> ('f, 'c) bus \<Rightarrow> ('f, 'c) bus option" where
  "write_cart C addr v b = (case b_board b of
     Some c \<Rightarrow> do {
       c \<leftarrow> bd_write C addr v c;
       apply_oob_pokes C (b\<lparr>b_board := Some c\<rparr>) }
   | None \<Rightarrow> Some b)"

definition write_console :: "'f fops \<Rightarrow> u16 \<Rightarrow> u8 \<Rightarrow> ('f, 'c) bus \<Rightarrow> ('f, 'c) bus option" where
  "write_console F addr v b =
     (if addr AND 0x0080 = 0 then Some (b\<lparr>b_tia := tia_write F addr v (b_tia b)\<rparr>)
      else do { r \<leftarrow> riot_write addr v (b_riot b); Some (b\<lparr>b_riot := r\<rparr>) })"

definition cpu_write ::
  "'f fops \<Rightarrow> 'c board_ops \<Rightarrow> u16 \<Rightarrow> u8 \<Rightarrow> ('f, 'c) bus \<Rightarrow> ('f, 'c) bus option" where
  "cpu_write F C addr v b = do {
     let addr = addr AND 0x1FFF;
     let b = b\<lparr>b_open_bus := v\<rparr>;
     let b = b\<lparr>b_write_log := log_record \<lparr>we_scanline = tia_scanline (b_tia b),
               we_color_clock = tia_color_clock (b_tia b), we_addr = addr, we_value = v\<rparr> (b_write_log b)\<rparr>;
     (if addr AND 0x1000 \<noteq> 0 then write_cart C addr v b
      else do {
        b \<leftarrow> (case b_board b of
           Some c \<Rightarrow> do { c \<leftarrow> bd_snoop_write C addr v c; Some (b\<lparr>b_board := Some c\<rparr>) }
         | None \<Rightarrow> Some b);
        write_console F addr v b }) }"

text \<open>The debugger's reads: they work on a clone, so the bus they return is dropped.\<close>

definition peek :: "'f fops \<Rightarrow> 'c board_ops \<Rightarrow> u16 \<Rightarrow> ('f, 'c) bus \<Rightarrow> u8 option" where
  "peek F C addr b = do { (v, clone) \<leftarrow> cpu_read F C addr b; Some v }"

fun peek_from :: "'f fops \<Rightarrow> 'c board_ops \<Rightarrow> u16 \<Rightarrow> nat \<Rightarrow> ('f, 'c) bus \<Rightarrow> u8 list option" where
  "peek_from F C addr 0 clone = Some []"
| "peek_from F C addr (Suc n) clone = do {
     (v, clone) \<leftarrow> cpu_read F C addr clone;
     vs \<leftarrow> peek_from F C (addr + 1) n clone;
     Some (v # vs) }"

definition peek_range :: "'f fops \<Rightarrow> 'c board_ops \<Rightarrow> u16 \<Rightarrow> u16 \<Rightarrow> ('f, 'c) bus \<Rightarrow> u8 list option" where
  "peek_range F C base len b = peek_from F C base (unat len) b"

definition audio_sample :: "('f, 'c) bus \<Rightarrow> u8" where
  "audio_sample b = sample (tia_audio (b_tia b))"

subsection \<open>Safety\<close>

definition bus_ok :: "('c \<Rightarrow> bool) \<Rightarrow> ('f, 'c) bus \<Rightarrow> bool" where
  "bus_ok ok b \<longleftrightarrow> tia_ok (b_tia b) \<and> riot_ok (b_riot b) \<and> pred_option ok (b_board b) \<and>
     length (wl_events (b_write_log b)) \<le> MAX_EVENTS"

lemma bus_ok_new [simp]: "bus_ok ok (bus_new F)"
  by (simp add: bus_ok_def bus_new_def write_log_default_def)

lemma log_record_bound: "length (wl_events w) \<le> MAX_EVENTS \<Longrightarrow> length (wl_events (log_record ev w)) \<le> MAX_EVENTS"
  by (auto simp: log_record_def Let_def MAX_EVENTS_def)

lemma poke_ram_ok: "riot_ok r \<Longrightarrow> wpo (poke_ram ps r) riot_ok"
  by (induction ps r rule: poke_ram.induct) (simp_all add: riot_ok_def)

text \<open>The decoded bits lie within the 13 address lines.\<close>

lemma decode_mask [simp]:
  "(a AND 0x1FFF) AND 0x1FFF = (a AND 0x1FFF :: u16)" "(a AND 0x1FFF) AND 0x1000 = (a AND 0x1000 :: u16)"
  "(a AND 0x1FFF) AND 0x0200 = (a AND 0x0200 :: u16)" "(a AND 0x1FFF) AND 0x80 = (a AND 0x80 :: u16)"
  "(a AND 0x1FFF) AND 0x7F = (a AND 0x7F :: u16)" "(a AND 0x1FFF) AND 0x3F = (a AND 0x3F :: u16)"
  "(a AND 0x1FFF) AND 0x0F = (a AND 0x0F :: u16)" "(a AND 0x1FFF) AND 0x0FFF = (a AND 0x0FFF :: u16)"
  by (simp_all add: and.assoc)

lemma window_and: "a AND 0x1000 \<noteq> 0 \<Longrightarrow> in_window (a AND 0x1FFF :: u16)"
  by (simp add: in_window_def)

locale vcs_bus = board C ok for C :: "'c board_ops" and ok +
  fixes F :: "'f fops"
begin

lemma apply_oob_pokes_ok: "bus_ok ok b \<Longrightarrow> wpo (apply_oob_pokes C b) (bus_ok ok)"
  using take_oob_ok
  by (auto simp: apply_oob_pokes_def bus_ok_def split_beta Let_def split: option.split
      intro!: wpo_mono [OF poke_ram_ok])

lemma read_cart_ok: "bus_ok ok b \<Longrightarrow> in_window a \<Longrightarrow> wpo (read_cart C a b) (\<lambda>(v, b'). bus_ok ok b')"
  by (cases "b_board b")
    (auto simp: read_cart_def bus_ok_def intro!: wpo_mono [OF read_ok] wpo_mono [OF apply_oob_pokes_ok])

lemma write_cart_ok: "bus_ok ok b \<Longrightarrow> in_window a \<Longrightarrow> wpo (write_cart C a v b) (bus_ok ok)"
  by (cases "b_board b")
    (auto simp: write_cart_def bus_ok_def intro!: wpo_mono [OF write_ok] apply_oob_pokes_ok)

lemma read_console_ok: "bus_ok ok b \<Longrightarrow> wpo (read_console F a b) (\<lambda>(v, b'). bus_ok ok b')"
  using tia_read_ok [of "b_tia b" F a]
  by (auto simp: read_console_def bus_ok_def split_beta Let_def intro!: wpo_mono [OF riot_read_ok])

lemma write_console_ok: "bus_ok ok b \<Longrightarrow> wpo (write_console F a v b) (bus_ok ok)"
  by (auto simp: write_console_def bus_ok_def tia_write_ok intro!: wpo_mono [OF riot_write_ok])

lemma cpu_read_ok: "bus_ok ok b \<Longrightarrow> wpo (cpu_read F C a b) (\<lambda>(v, b'). bus_ok ok b' \<and> b_open_bus b' = v)"
proof -
  assume ok: "bus_ok ok b"
  have open_bus: "bus_ok ok (b\<lparr>b_open_bus := v\<rparr>) = bus_ok ok b" for v and b :: "('f, 'c) bus"
    by (simp add: bus_ok_def)
  have snoop: "wpo (bd_snoop_read C a v c) (\<lambda>c. bus_ok ok (b\<lparr>b_board := Some c\<rparr>))"
    if "bus_ok ok b" "b_board b = Some c" for b :: "('f, 'c) bus" and a v c
    using that by (auto simp: bus_ok_def intro!: wpo_mono [OF snoop_read_ok])
  show ?thesis
    unfolding cpu_read_def Let_def
    by (auto simp: open_bus split: option.split intro!: window_and snoop
        wpo_mono [OF read_cart_ok [OF ok]] wpo_mono [OF read_console_ok [OF ok]])
qed

lemma cpu_write_ok: "bus_ok ok b \<Longrightarrow> wpo (cpu_write F C a v b) (bus_ok ok)"
proof -
  assume ok: "bus_ok ok b"
  let ?b = "b\<lparr>b_open_bus := v, b_write_log := log_record \<lparr>we_scanline = tia_scanline (b_tia b),
      we_color_clock = tia_color_clock (b_tia b), we_addr = a AND 0x1FFF, we_value = v\<rparr> (b_write_log b)\<rparr>"
  have ok': "bus_ok ok ?b"
    using ok by (simp add: bus_ok_def log_record_bound)
  have snoop: "wpo (bd_snoop_write C a v c) (\<lambda>c. wpo (write_console F a v (?b\<lparr>b_board := Some c\<rparr>)) (bus_ok ok))"
    if "b_board ?b = Some c" for a v c
    using ok' that by (auto simp: bus_ok_def intro!: wpo_mono [OF snoop_write_ok] write_console_ok)
  show ?thesis
    unfolding cpu_write_def Let_def
    using snoop write_cart_ok [OF ok' window_and] write_console_ok [OF ok']
    by (auto split: option.split)
qed

text \<open>RAM is the addresses with A12 and A9 clear and A7 set.\<close>

lemma ram_address:
  assumes "a AND 0x1280 = (0x0080 :: u16)"
  shows "a AND 0x1000 = 0" "a AND 0x80 \<noteq> 0" "a AND 0x0200 = 0"
proof -
  have "a AND 0x1000 = (a AND 0x1280) AND 0x1000" "a AND 0x80 = (a AND 0x1280) AND 0x80"
    "a AND 0x0200 = (a AND 0x1280) AND 0x0200"
    by (simp_all add: and.assoc)
  then show "a AND 0x1000 = 0" "a AND 0x80 \<noteq> 0" "a AND 0x0200 = 0"
    unfolding assms by simp_all
qed

lemma write_ram:
  assumes ok: "bus_ok ok b" and a: "a AND 0x1280 = 0x0080"
  shows "wpo (cpu_write F C a v b) (\<lambda>b'. riot_ram (b_riot b') = (riot_ram (b_riot b)) [unat (a AND 0x7F) := v])"
proof -
  have len: "length (riot_ram (b_riot b)) = 128"
    using ok by (simp add: bus_ok_def riot_ok_def)
  show ?thesis
    unfolding cpu_write_def write_console_def riot_write_def Let_def
    using ok len by (auto simp: ram_address [OF a] bus_ok_def split: option.split
        intro!: wpo_mono [OF snoop_write_ok])
qed

lemma read_ram:
  assumes ok: "bus_ok ok b" and a: "a AND 0x1280 = 0x0080"
  shows "wpo (cpu_read F C a b) (\<lambda>(v, b'). v = riot_ram (b_riot b) ! unat (a AND 0x7F))"
proof -
  have len: "length (riot_ram (b_riot b)) = 128"
    using ok by (simp add: bus_ok_def riot_ok_def)
  show ?thesis
    unfolding cpu_read_def read_console_def riot_read_def Let_def
    using ok len by (auto simp: ram_address [OF a] bus_ok_def split: option.split
        intro!: wpo_mono [OF snoop_read_ok])
qed

lemma write_read_ram:
  assumes "bus_ok ok b" "a AND 0x1280 = 0x0080" "a' AND 0x1280 = 0x0080" "a AND 0x7F = a' AND 0x7F"
  shows "wpo (do { b \<leftarrow> cpu_write F C a v b; cpu_read F C a' b }) (\<lambda>(v', b'). v' = v)"
proof -
  have "length (riot_ram (b_riot b)) = 128"
    using assms(1) by (simp add: bus_ok_def riot_ok_def)
  then show ?thesis
    using wpo_conj [OF cpu_write_ok [OF assms(1), of a v] write_ram [OF assms(1,2), of v]] assms(4)
    by (auto elim!: wpo_mono intro!: wpo_mono [OF read_ram [OF _ assms(3)]])
qed

lemma peek_from_total: "bus_ok ok b \<Longrightarrow> wpo (peek_from F C a n b) (\<lambda>vs. length vs = n)"
proof (induction n arbitrary: a b)
  case (Suc n)
  show ?case
    by (auto intro!: wpo_mono [OF cpu_read_ok [OF Suc.prems]] wpo_mono [OF Suc.IH])
qed simp

text \<open>With no cartridge, an access of the window only sees the data bus.\<close>

lemma read_window_empty:
  "b_board b = None \<Longrightarrow> a AND 0x1000 \<noteq> 0 \<Longrightarrow> cpu_read F C a b = Some (b_open_bus b, b)"
  by (simp add: cpu_read_def read_cart_def)

lemma write_empty:
  "bus_ok ok b \<Longrightarrow> b_board b = None \<Longrightarrow> wpo (cpu_write F C a v b) (\<lambda>b'. b_board b' = None \<and> b_open_bus b' = v)"
  unfolding cpu_write_def write_console_def write_cart_def Let_def
  by (auto simp: bus_ok_def intro!: wpo_mono [OF riot_write_ok])

lemma read_empty:
  "bus_ok ok b \<Longrightarrow> b_board b = None \<Longrightarrow>
   wpo (cpu_read F C a b) (\<lambda>(v, b'). b_board b' = None \<and> b_open_bus b' = v)"
  unfolding cpu_read_def read_console_def read_cart_def Let_def
  by (auto simp: bus_ok_def split_beta intro!: wpo_mono [OF riot_read_ok])

end

interpretation vcs: vcs_bus cart_ops plain_cart_ok F for F
  unfolding vcs_bus_def by (rule plain_board)

subsection \<open>Address decoding\<close>

text \<open>
  The console has 128 bytes of RAM and the bus shows them at every address with A12 and A9
  clear and A7 set: what is written through one mirror (the stack page, say) is read back through
  any other (the zero page), whatever the cartridge makes of snooping the two accesses.
\<close>

theorem ram_mirrored:
  assumes "bus_ok plain_cart_ok b" "a AND 0x1280 = 0x0080" "a' AND 0x1280 = 0x0080" "a AND 0x7F = a' AND 0x7F"
  shows "wpo (do { b \<leftarrow> cpu_write F cart_ops a v b; cpu_read F cart_ops a' b }) (\<lambda>(v', b'). v' = v)"
  using assms by (rule vcs.write_read_ram)

lemma ram_mirrored_witness:
  "\<forall>(F :: 'f fops).
   wpo (do { b \<leftarrow> cpu_write F cart_ops 0x01FF 7 (bus_new F); cpu_read F cart_ops 0x00FF b })
     (\<lambda>(v', b'). v' = 7)"
proof (intro allI)
  fix F :: "'f fops"
  show "wpo (do { b \<leftarrow> cpu_write F cart_ops 0x01FF 7 (bus_new F); cpu_read F cart_ops 0x00FF b })
     (\<lambda>(v', b'). v' = 7)"
    using ram_mirrored [of "bus_new F" "0x01FF" "0x00FF" F 7] by simp
qed

text \<open>
  With no cartridge plugged in, reading its window returns the byte last driven on the bus.
\<close>

theorem open_bus_without_cartridge:
  assumes "bus_ok plain_cart_ok b" "b_board b = None" "a AND 0x1000 \<noteq> 0"
  shows "wpo (do { b \<leftarrow> cpu_write F cart_ops a' v b; cpu_read F cart_ops a b }) (\<lambda>(v', b'). v' = v) \<and>
    wpo (do { (r, b) \<leftarrow> cpu_read F cart_ops a' b; (r', b) \<leftarrow> cpu_read F cart_ops a b; Some (r, r') })
      (\<lambda>(r, r'). r' = r)"
  using vcs.write_empty [OF assms(1,2), of F a' v] vcs.read_empty [OF assms(1,2), of F a'] assms(3)
  by (auto elim!: wpo_mono simp: vcs.read_window_empty)

lemma open_bus_without_cartridge_witness:
  "\<forall>(F :: 'f fops).
   wpo (do { b \<leftarrow> cpu_write F cart_ops 0x0009 0x2A (bus_new F); cpu_read F cart_ops 0xF000 b })
     (\<lambda>(v', b'). v' = 0x2A)"
proof (intro allI)
  fix F :: "'f fops"
  show "wpo (do { b \<leftarrow> cpu_write F cart_ops 0x0009 0x2A (bus_new F); cpu_read F cart_ops 0xF000 b })
     (\<lambda>(v', b'). v' = 0x2A)"
    using open_bus_without_cartridge [of "bus_new F" "0xF000" F 9 "0x2A"]
    by (simp add: bus_new_def [of F] bus_ok_new [unfolded bus_new_def])
qed

lemma drop_newest:
  "drop (length (drop (length xs - n) xs @ ys) - n) (drop (length xs - n) xs @ ys) = drop (length (xs @ ys) - n) (xs @ ys)"
proof -
  have "length xs - n + (length xs - (length xs - n) + length ys - n) = length xs + length ys - n \<or>
    length xs + length ys \<le> n"
    by linarith
  then show ?thesis
    by (cases "length xs \<le> n") (auto simp: drop_append add.commute [of _ "length xs - n"])
qed

lemma log_record_newest:
  assumes "wl_enabled w" "length (wl_events w) \<le> MAX_EVENTS"
  shows "wl_enabled (log_record ev w)"
    and "wl_events (log_record ev w) = (let es = wl_events w @ [ev] in drop (length es - MAX_EVENTS) es)"
  using assms by (cases "wl_events w"; auto simp: log_record_def Let_def MAX_EVENTS_def)+

text \<open>
  An enabled write log holds the newest 4096 of the writes recorded, oldest first.
\<close>

lemma log_keeps_newest:
  assumes "wl_enabled w" "length (wl_events w) \<le> MAX_EVENTS"
  shows "wl_events (fold log_record evs w) =
    (let es = wl_events w @ evs in drop (length es - MAX_EVENTS) es)"
  using assms
proof (induction evs arbitrary: w)
  case (Cons ev evs)
  then show ?case
    using log_record_newest [OF Cons.prems, of ev] drop_newest [of "wl_events w @ [ev]" MAX_EVENTS evs]
    by (simp add: Let_def log_record_bound)
qed (simp add: Let_def)

lemma log_keeps_newest_witness:
  "\<forall>(ev :: write_event) (ev' :: write_event).
   wl_events (fold log_record (replicate 2 ev @ replicate 4095 ev') \<lparr>wl_enabled = True, wl_events = []\<rparr>) =
   ev # replicate 4095 ev'"
proof (intro allI)
  fix ev :: "write_event" and ev' :: "write_event"
  show "wl_events (fold log_record (replicate 2 ev @ replicate 4095 ev') \<lparr>wl_enabled = True, wl_events = []\<rparr>) =
   ev # replicate 4095 ev'"
    using log_keeps_newest [of "\<lparr>wl_enabled = True, wl_events = []\<rparr>" "replicate 2 ev @ replicate 4095 ev'"]
    by (simp add: MAX_EVENTS_def Let_def numeral_2_eq_2 del: fold_append)
qed

text \<open>
  The debugger's memory view never panics and shows as many bytes as asked for.
\<close>

lemma peek_range_total:
  "bus_ok plain_cart_ok b \<Longrightarrow> wpo (peek_range F cart_ops base len b) (\<lambda>vs. length vs = unat len)"
  unfolding peek_range_def by (rule vcs.peek_from_total)

lemma peek_range_total_witness:
  "\<forall>(F :: 'f fops).
   wpo (peek_range F cart_ops 0xFFF8 16 ((bus_new F)\<lparr>b_board := Some (BankF8 demo_f8)\<rparr>)) (\<lambda>vs. length vs = 16)"
proof (intro allI)
  fix F :: "'f fops"
  show "wpo (peek_range F cart_ops 0xFFF8 16 ((bus_new F)\<lparr>b_board := Some (BankF8 demo_f8)\<rparr>)) (\<lambda>vs. length vs = 16)"
    using peek_range_total [of "(bus_new F)\<lparr>b_board := Some (BankF8 demo_f8)\<rparr>" F "0xFFF8" 16] demo_f8_ok bus_ok_new [of _ F]
    by (simp add: bus_ok_def bus_new_def)
qed

end
