(* ===== verification/Cpu.thy ===== *)
theory Cpu
  imports Status
begin

text \<open>
  The MOS 6507 (\<open>crates/rusty2600-cpu/src/cpu.rs\<close>, \<open>bus.rs\<close>): the register file, the bus
  interface the CPU borrows, the cycle choke-point \<open>idle_tick\<close> through which every bus access
  goes, the addressing modes and the arithmetic and read-modify-write micro-operations. Every
  operation takes the bus operations, the CPU and the bus state and returns the new pair;
  \<open>None\<close> is an access that panics or a \<open>RDY\<close> stall that never ends.
\<close>

subsection \<open>The bus view and the register file\<close>

record 'b bus_ops =
  bus_read :: "u16 \<Rightarrow> 'b \<Rightarrow> (u8 \<times> 'b) option"
  bus_write :: "u16 \<Rightarrow> u8 \<Rightarrow> 'b \<Rightarrow> 'b option"
  bus_tick_cycle :: "'b \<Rightarrow> 'b option"
  bus_rdy_stall :: "'b \<Rightarrow> bool"

record cpu =
  cpu_a :: u8
  cpu_x :: u8
  cpu_y :: u8
  cpu_pc :: u16
  cpu_s :: u8
  cpu_p :: status
  cpu_cycles :: u64
  cpu_jammed :: bool
  cpu_emitted :: u8

record operand =
  op_addr :: u16
  op_page_crossed :: bool

definition STACK_BASE :: u16 where "STACK_BASE = 0x0100"
definition RESET_VECTOR :: u16 where "RESET_VECTOR = 0xFFFC"

definition cpu_new :: cpu where
  "cpu_new = \<lparr>cpu_a = 0, cpu_x = 0, cpu_y = 0, cpu_pc = 0, cpu_s = 0xFD, cpu_p = status_power_on,
     cpu_cycles = 0, cpu_jammed = False, cpu_emitted = 0\<rparr>"

definition cpu_power_on :: cpu where
  "cpu_power_on = cpu_new\<lparr>cpu_s := 0\<rparr>"

subsection \<open>Cycles and bus accesses\<close>

definition sat_add8 :: "u8 \<Rightarrow> u8 \<Rightarrow> u8" where
  "sat_add8 x y = (if unat x + unat y > 255 then 255 else x + y)"

text \<open>The loop \<open>while bus.rdy_stall() { bus.tick_cycle() }\<close>; \<open>None\<close> when it never ends.\<close>

partial_function (option) stall_spin :: "'b bus_ops \<Rightarrow> 'b \<Rightarrow> 'b option" where
  "stall_spin B b =
     (if bus_rdy_stall B b then do { b \<leftarrow> bus_tick_cycle B b; stall_spin B b } else Some b)"

declare stall_spin.simps [code]

definition ticked :: "cpu \<Rightarrow> cpu" where
  "ticked c = c\<lparr>cpu_emitted := sat_add8 (cpu_emitted c) 1, cpu_cycles := cpu_cycles c + 1\<rparr>"

definition idle_tick :: "'b bus_ops \<Rightarrow> cpu \<Rightarrow> 'b \<Rightarrow> (cpu \<times> 'b) option" where
  "idle_tick B c b = do {
     b \<leftarrow> stall_spin B b;
     b \<leftarrow> bus_tick_cycle B b;
     Some (ticked c, b) }"

definition read1 :: "'b bus_ops \<Rightarrow> u16 \<Rightarrow> cpu \<Rightarrow> 'b \<Rightarrow> (u8 \<times> cpu \<times> 'b) option" where
  "read1 B addr c b = do {
     (c, b) \<leftarrow> idle_tick B c b;
     (v, b) \<leftarrow> bus_read B addr b;
     Some (v, c, b) }"

definition write1 :: "'b bus_ops \<Rightarrow> u16 \<Rightarrow> u8 \<Rightarrow> cpu \<Rightarrow> 'b \<Rightarrow> (cpu \<times> 'b) option" where
  "write1 B addr v c b = do {
     (c, b) \<leftarrow> idle_tick B c b;
     b \<leftarrow> bus_write B addr v b;
     Some (c, b) }"

definition implied_dummy_read :: "'b bus_ops \<Rightarrow> cpu \<Rightarrow> 'b \<Rightarrow> (cpu \<times> 'b) option" where
  "implied_dummy_read B c b = do { (_, c, b) \<leftarrow> read1 B (cpu_pc c) c b; Some (c, b) }"

definition fetch_pc :: "'b bus_ops \<Rightarrow> cpu \<Rightarrow> 'b \<Rightarrow> (u8 \<times> cpu \<times> 'b) option" where
  "fetch_pc B c b = do {
     (v, c, b) \<leftarrow> read1 B (cpu_pc c) c b;
     Some (v, c\<lparr>cpu_pc := cpu_pc c + 1\<rparr>, b) }"

definition fetch_pc_u16 :: "'b bus_ops \<Rightarrow> cpu \<Rightarrow> 'b \<Rightarrow> (u16 \<times> cpu \<times> 'b) option" where
  "fetch_pc_u16 B c b = do {
     (lo, c, b) \<leftarrow> fetch_pc B c b;
     (hi, c, b) \<leftarrow> fetch_pc B c b;
     Some (le16 lo hi, c, b) }"

definition read_u16_with_wrap :: "'b bus_ops \<Rightarrow> u16 \<Rightarrow> cpu \<Rightarrow> 'b \<Rightarrow> (u16 \<times> cpu \<times> 'b) option" where
  "read_u16_with_wrap B addr c b = do {
     (lo, c, b) \<leftarrow> read1 B addr c b;
     let hi_addr = (addr AND 0xFF00) OR ucast ((ucast addr :: u8) + 1);
     (hi, c, b) \<leftarrow> read1 B hi_addr c b;
     Some (le16 lo hi, c, b) }"

definition push :: "'b bus_ops \<Rightarrow> u8 \<Rightarrow> cpu \<Rightarrow> 'b \<Rightarrow> (cpu \<times> 'b) option" where
  "push B v c b = do {
     (c, b) \<leftarrow> write1 B (STACK_BASE OR ucast (cpu_s c)) v c b;
     Some (c\<lparr>cpu_s := cpu_s c - 1\<rparr>, b) }"

definition pull :: "'b bus_ops \<Rightarrow> cpu \<Rightarrow> 'b \<Rightarrow> (u8 \<times> cpu \<times> 'b) option" where
  "pull B c b = do {
     let c = c\<lparr>cpu_s := cpu_s c + 1\<rparr>;
     read1 B (STACK_BASE OR ucast (cpu_s c)) c b }"

definition push_u16 :: "'b bus_ops \<Rightarrow> u16 \<Rightarrow> cpu \<Rightarrow> 'b \<Rightarrow> (cpu \<times> 'b) option" where
  "push_u16 B v c b = do {
     (c, b) \<leftarrow> push B (ucast (drop_bit 8 v)) c b;
     push B (ucast (v AND 0xFF)) c b }"

definition pull_u16 :: "'b bus_ops \<Rightarrow> cpu \<Rightarrow> 'b \<Rightarrow> (u16 \<times> cpu \<times> 'b) option" where
  "pull_u16 B c b = do {
     (lo, c, b) \<leftarrow> pull B c b;
     (hi, c, b) \<leftarrow> pull B c b;
     Some (le16 lo hi, c, b) }"

subsection \<open>Addressing modes\<close>

definition page_differs :: "u16 \<Rightarrow> u16 \<Rightarrow> bool" where
  "page_differs p q \<longleftrightarrow> p AND 0xFF00 \<noteq> q AND 0xFF00"

definition plain_operand :: "u16 \<Rightarrow> operand" where
  "plain_operand a = \<lparr>op_addr = a, op_page_crossed = False\<rparr>"

definition addr_zp :: "'b bus_ops \<Rightarrow> cpu \<Rightarrow> 'b \<Rightarrow> (operand \<times> cpu \<times> 'b) option" where
  "addr_zp B c b = do {
     (v, c, b) \<leftarrow> fetch_pc B c b;
     Some (plain_operand (ucast v), c, b) }"

definition addr_zp_x :: "'b bus_ops \<Rightarrow> cpu \<Rightarrow> 'b \<Rightarrow> (operand \<times> cpu \<times> 'b) option" where
  "addr_zp_x B c b = do {
     (base, c, b) \<leftarrow> fetch_pc B c b;
     (_, c, b) \<leftarrow> read1 B (ucast base) c b;
     Some (plain_operand (ucast (base + cpu_x c)), c, b) }"

definition addr_zp_y :: "'b bus_ops \<Rightarrow> cpu \<Rightarrow> 'b \<Rightarrow> (operand \<times> cpu \<times> 'b) option" where
  "addr_zp_y B c b = do {
     (base, c, b) \<leftarrow> fetch_pc B c b;
     (_, c, b) \<leftarrow> read1 B (ucast base) c b;
     Some (plain_operand (ucast (base + cpu_y c)), c, b) }"

definition addr_abs :: "'b bus_ops \<Rightarrow> cpu \<Rightarrow> 'b \<Rightarrow> (operand \<times> cpu \<times> 'b) option" where
  "addr_abs B c b = do {
     (a, c, b) \<leftarrow> fetch_pc_u16 B c b;
     Some (plain_operand a, c, b) }"

text \<open>
  The shared tail of the indexed modes: the dummy read at the unfixed address, made only on a
  page cross by the reading modes and always by the \<open>_rmw\<close> ones.
\<close>

definition indexed_tail :: "'b bus_ops \<Rightarrow> u16 \<Rightarrow> u8 \<Rightarrow> cpu \<Rightarrow> 'b \<Rightarrow> (operand \<times> cpu \<times> 'b) option" where
  "indexed_tail B base idx c b = do {
     let addr = base + ucast idx;
     let page_crossed = page_differs base addr;
     (c, b) \<leftarrow> (if page_crossed
        then do { (_, c, b) \<leftarrow> read1 B ((base AND 0xFF00) OR (addr AND 0x00FF)) c b; Some (c, b) }
        else Some (c, b));
     Some (\<lparr>op_addr = addr, op_page_crossed = page_crossed\<rparr>, c, b) }"

definition indexed_tail_rmw :: "'b bus_ops \<Rightarrow> u16 \<Rightarrow> u8 \<Rightarrow> cpu \<Rightarrow> 'b \<Rightarrow> (u16 \<times> cpu \<times> 'b) option" where
  "indexed_tail_rmw B base idx c b = do {
     let addr = base + ucast idx;
     (_, c, b) \<leftarrow> read1 B ((base AND 0xFF00) OR (addr AND 0x00FF)) c b;
     Some (addr, c, b) }"

definition addr_abs_x :: "'b bus_ops \<Rightarrow> cpu \<Rightarrow> 'b \<Rightarrow> (operand \<times> cpu \<times> 'b) option" where
  "addr_abs_x B c b = do {
     (base, c, b) \<leftarrow> fetch_pc_u16 B c b;
     indexed_tail B base (cpu_x c) c b }"

definition addr_abs_y :: "'b bus_ops \<Rightarrow> cpu \<Rightarrow> 'b \<Rightarrow> (operand \<times> cpu \<times> 'b) option" where
  "addr_abs_y B c b = do {
     (base, c, b) \<leftarrow> fetch_pc_u16 B c b;
     indexed_tail B base (cpu_y c) c b }"

definition addr_abs_x_rmw :: "'b bus_ops \<Rightarrow> cpu \<Rightarrow> 'b \<Rightarrow> (u16 \<times> cpu \<times> 'b) option" where
  "addr_abs_x_rmw B c b = do {
     (base, c, b) \<leftarrow> fetch_pc_u16 B c b;
     indexed_tail_rmw B base (cpu_x c) c b }"

definition addr_abs_y_rmw :: "'b bus_ops \<Rightarrow> cpu \<Rightarrow> 'b \<Rightarrow> (u16 \<times> cpu \<times> 'b) option" where
  "addr_abs_y_rmw B c b = do {
     (base, c, b) \<leftarrow> fetch_pc_u16 B c b;
     indexed_tail_rmw B base (cpu_y c) c b }"

definition addr_ind_x :: "'b bus_ops \<Rightarrow> cpu \<Rightarrow> 'b \<Rightarrow> (operand \<times> cpu \<times> 'b) option" where
  "addr_ind_x B c b = do {
     (base, c, b) \<leftarrow> fetch_pc B c b;
     (_, c, b) \<leftarrow> read1 B (ucast base) c b;
     let ptr = base + cpu_x c;
     (lo, c, b) \<leftarrow> read1 B (ucast ptr) c b;
     (hi, c, b) \<leftarrow> read1 B (ucast (ptr + 1)) c b;
     Some (plain_operand (le16 lo hi), c, b) }"

definition zp_pointer :: "'b bus_ops \<Rightarrow> cpu \<Rightarrow> 'b \<Rightarrow> (u16 \<times> cpu \<times> 'b) option" where
  "zp_pointer B c b = do {
     (ptr, c, b) \<leftarrow> fetch_pc B c b;
     (lo, c, b) \<leftarrow> read1 B (ucast ptr) c b;
     (hi, c, b) \<leftarrow> read1 B (ucast (ptr + 1)) c b;
     Some (le16 lo hi, c, b) }"

definition addr_ind_y :: "'b bus_ops \<Rightarrow> cpu \<Rightarrow> 'b \<Rightarrow> (operand \<times> cpu \<times> 'b) option" where
  "addr_ind_y B c b = do {
     (base, c, b) \<leftarrow> zp_pointer B c b;
     indexed_tail B base (cpu_y c) c b }"

definition addr_ind_y_rmw :: "'b bus_ops \<Rightarrow> cpu \<Rightarrow> 'b \<Rightarrow> (u16 \<times> cpu \<times> 'b) option" where
  "addr_ind_y_rmw B c b = do {
     (base, c, b) \<leftarrow> zp_pointer B c b;
     indexed_tail_rmw B base (cpu_y c) c b }"

definition sh_store :: "'b bus_ops \<Rightarrow> u16 \<Rightarrow> u8 \<Rightarrow> u8 \<Rightarrow> cpu \<Rightarrow> 'b \<Rightarrow> (cpu \<times> 'b) option" where
  "sh_store B base index_reg value_reg c b = do {
     let unfixed = base + ucast index_reg;
     let page_crossed = page_differs base unfixed;
     let dummy_addr = (if page_crossed then unfixed - 0x0100 else unfixed);
     (_, c, b) \<leftarrow> read1 B dummy_addr c b;
     let stored_value = value_reg AND (ucast (drop_bit 8 dummy_addr) + 1);
     let target_addr = (if page_crossed
        then push_bit 8 (ucast stored_value) OR (unfixed AND 0x00FF) else unfixed);
     write1 B target_addr stored_value c b }"

end
