(* ===== verification/Alu.thy ===== *)
theory Alu
  imports Cpu
begin

text \<open>
  The register-only micro-operations of \<open>crates/rusty2600-cpu/src/cpu.rs\<close> (loads, logic,
  arithmetic in binary and in decimal mode, compares, shifts, the undocumented combinations) and
  the read-modify-write ones built from them. The register-only ones touch no bus, so they are
  functions of the CPU alone.
\<close>

subsection \<open>Loads and logic\<close>

definition lda :: "u8 \<Rightarrow> cpu \<Rightarrow> cpu" where
  "lda v c = c\<lparr>cpu_a := v, cpu_p := set_nz v (cpu_p c)\<rparr>"

definition ldx :: "u8 \<Rightarrow> cpu \<Rightarrow> cpu" where
  "ldx v c = c\<lparr>cpu_x := v, cpu_p := set_nz v (cpu_p c)\<rparr>"

definition ldy :: "u8 \<Rightarrow> cpu \<Rightarrow> cpu" where
  "ldy v c = c\<lparr>cpu_y := v, cpu_p := set_nz v (cpu_p c)\<rparr>"

definition and_a :: "u8 \<Rightarrow> cpu \<Rightarrow> cpu" where
  "and_a v c = lda (cpu_a c AND v) c"

definition ora :: "u8 \<Rightarrow> cpu \<Rightarrow> cpu" where
  "ora v c = lda (cpu_a c OR v) c"

definition eor :: "u8 \<Rightarrow> cpu \<Rightarrow> cpu" where
  "eor v c = lda (cpu_a c XOR v) c"

definition bit_test :: "u8 \<Rightarrow> cpu \<Rightarrow> cpu" where
  "bit_test v c = (let
     p = p_set (cpu_p c) ZERO (cpu_a c AND v = 0);
     p = p_set p NEGATIVE (v AND 0x80 \<noteq> 0);
     p = p_set p OVERFLOW (v AND 0x40 \<noteq> 0)
   in c\<lparr>cpu_p := p\<rparr>)"

definition lax :: "u8 \<Rightarrow> cpu \<Rightarrow> cpu" where
  "lax v c = c\<lparr>cpu_a := v, cpu_x := v, cpu_p := set_nz v (cpu_p c)\<rparr>"

subsection \<open>Arithmetic\<close>

definition carry16 :: "cpu \<Rightarrow> u16" where
  "carry16 c = of_bool (p_contains (cpu_p c) CARRY)"

definition carry8 :: "cpu \<Rightarrow> u8" where
  "carry8 c = of_bool (p_contains (cpu_p c) CARRY)"

definition adc_decimal :: "u8 \<Rightarrow> cpu \<Rightarrow> cpu" where
  "adc_decimal v c = (let
     carry_in = carry16 c;
     bin_sum = ucast (cpu_a c) + ucast v + carry_in;
     p = p_set (cpu_p c) ZERO ((ucast bin_sum :: u8) = 0);
     al = ucast (cpu_a c AND 0x0F) + ucast (v AND 0x0F) + carry_in;
     al = (if al > 0x09 then ((al + 0x06) AND 0x0F) + 0x10 else al);
     intermediate = (ucast (ucast (cpu_a c AND 0xF0) + ucast (v AND 0xF0) + al :: u16) :: u8);
     p = p_set p NEGATIVE (intermediate AND 0x80 \<noteq> 0);
     p = p_set p OVERFLOW ((cpu_a c XOR intermediate) AND (v XOR intermediate) AND 0x80 \<noteq> 0);
     result = ucast (cpu_a c AND 0xF0) + ucast (v AND 0xF0) + al;
     result = (if result \<ge> 0xA0 then result + 0x60 else result);
     p = p_set p CARRY (result \<ge> 0x100)
   in c\<lparr>cpu_a := ucast result, cpu_p := p\<rparr>)"

definition adc_binary :: "u8 \<Rightarrow> cpu \<Rightarrow> cpu" where
  "adc_binary v c = (let
     sum = ucast (cpu_a c) + ucast v + carry16 c;
     result = (ucast sum :: u8);
     p = p_set (cpu_p c) CARRY (sum > 0xFF);
     p = p_set p OVERFLOW ((cpu_a c XOR result) AND (v XOR result) AND 0x80 \<noteq> 0)
   in c\<lparr>cpu_a := result, cpu_p := set_nz result p\<rparr>)"

definition adc :: "u8 \<Rightarrow> cpu \<Rightarrow> cpu" where
  "adc v c = (if p_contains (cpu_p c) DECIMAL then adc_decimal v c else adc_binary v c)"

definition sbc_decimal :: "u8 \<Rightarrow> cpu \<Rightarrow> cpu" where
  "sbc_decimal v c = (let
     carry = carry8 c;
     bin_sum = (ucast (cpu_a c) + ucast (v XOR 0xFF) + ucast carry :: u16);
     bin_result = (ucast bin_sum :: u8);
     p = p_set (cpu_p c) ZERO (bin_result = 0);
     p = p_set p NEGATIVE (bin_result AND 0x80 \<noteq> 0);
     p = p_set p OVERFLOW
           ((cpu_a c XOR bin_result) AND ((v XOR 0xFF) XOR bin_result) AND 0x80 \<noteq> 0);
     al = (cpu_a c AND 0x0F) - (v AND 0x0F) - (1 - carry);
     ah = drop_bit 4 (cpu_a c) - drop_bit 4 v;
     (al, ah) = (if sint al < 0 then (al - 0x06, ah - 1) else (al, ah));
     (ah, borrow) = (if sint ah < 0 then (ah - 0x06, True) else (ah, False))
   in c\<lparr>cpu_a := push_bit 4 ah OR (al AND 0x0F), cpu_p := p_set p CARRY (\<not> borrow)\<rparr>)"

definition sbc :: "u8 \<Rightarrow> cpu \<Rightarrow> cpu" where
  "sbc v c = (if p_contains (cpu_p c) DECIMAL then sbc_decimal v c else adc (v XOR 0xFF) c)"

text \<open>\<open>lhs.overflowing_sub(rhs)\<close>: the wrapped difference and whether a borrow occurred.\<close>

definition overflowing_sub :: "u8 \<Rightarrow> u8 \<Rightarrow> u8 \<times> bool" where
  "overflowing_sub l r = (l - r, l < r)"

definition cmp_with :: "u8 \<Rightarrow> u8 \<Rightarrow> cpu \<Rightarrow> cpu" where
  "cmp_with lhs rhs c = (let
     (r, borrow) = overflowing_sub lhs rhs
   in c\<lparr>cpu_p := set_nz r (p_set (cpu_p c) CARRY (\<not> borrow))\<rparr>)"

subsection \<open>Shifts and rotates\<close>

definition asl_value :: "u8 \<Rightarrow> cpu \<Rightarrow> u8 \<times> cpu" where
  "asl_value v c = (let r = push_bit 1 v in
     (r, c\<lparr>cpu_p := set_nz r (p_set (cpu_p c) CARRY (v AND 0x80 \<noteq> 0))\<rparr>))"

definition lsr_value :: "u8 \<Rightarrow> cpu \<Rightarrow> u8 \<times> cpu" where
  "lsr_value v c = (let r = drop_bit 1 v in
     (r, c\<lparr>cpu_p := set_nz r (p_set (cpu_p c) CARRY (v AND 0x01 \<noteq> 0))\<rparr>))"

definition rol_value :: "u8 \<Rightarrow> cpu \<Rightarrow> u8 \<times> cpu" where
  "rol_value v c = (let r = push_bit 1 v OR carry8 c in
     (r, c\<lparr>cpu_p := set_nz r (p_set (cpu_p c) CARRY (v AND 0x80 \<noteq> 0))\<rparr>))"

definition ror_value :: "u8 \<Rightarrow> cpu \<Rightarrow> u8 \<times> cpu" where
  "ror_value v c = (let r = drop_bit 1 v OR push_bit 7 (carry8 c) in
     (r, c\<lparr>cpu_p := set_nz r (p_set (cpu_p c) CARRY (v AND 0x01 \<noteq> 0))\<rparr>))"

text \<open>The accumulator forms \<open>self.a = self.asl_value(self.a)\<close> and their kin.\<close>

definition on_accumulator :: "(u8 \<Rightarrow> cpu \<Rightarrow> u8 \<times> cpu) \<Rightarrow> cpu \<Rightarrow> cpu" where
  "on_accumulator f c = (let (r, c) = f (cpu_a c) c in c\<lparr>cpu_a := r\<rparr>)"

subsection \<open>Undocumented immediate operations\<close>

definition anc :: "u8 \<Rightarrow> cpu \<Rightarrow> cpu" where
  "anc v c = (let a = cpu_a c AND v in
     c\<lparr>cpu_a := a, cpu_p := p_set (set_nz a (cpu_p c)) CARRY (a AND 0x80 \<noteq> 0)\<rparr>)"

definition alr :: "u8 \<Rightarrow> cpu \<Rightarrow> cpu" where
  "alr v c = (let t = cpu_a c AND v; a = drop_bit 1 t in
     c\<lparr>cpu_a := a, cpu_p := p_set (set_nz a (cpu_p c)) CARRY (t AND 0x01 \<noteq> 0)\<rparr>)"

text \<open>
  \<open>ARR\<close>. The two decimal tests are \<open>u8\<close> sums, as the code writes them: a release build
  wraps them (the model does the same), a build with overflow checks panics instead.
\<close>

definition arr :: "u8 \<Rightarrow> cpu \<Rightarrow> cpu" where
  "arr v c = (let
     t = cpu_a c AND v;
     ror = drop_bit 1 t OR push_bit 7 (carry8 c);
     p = set_nz ror (cpu_p c);
     bit6 = (ror AND 0x40 \<noteq> 0);
     bit5 = (ror AND 0x20 \<noteq> 0);
     p = p_set p OVERFLOW (bit6 \<noteq> bit5)
   in if p_contains p DECIMAL then (let
        result = ror;
        result = (if (t AND 0x0F) + (t AND 0x01) > 0x05
                  then (result AND 0xF0) OR ((result + 6) AND 0x0F) else result);
        carry = ((t AND 0xF0) + (t AND 0x10) > 0x50);
        result = (if carry then result + 0x60 else result)
      in c\<lparr>cpu_a := result, cpu_p := p_set p CARRY carry\<rparr>)
      else c\<lparr>cpu_a := ror, cpu_p := p_set p CARRY bit6\<rparr>)"

definition axs :: "u8 \<Rightarrow> cpu \<Rightarrow> cpu" where
  "axs v c = (let (res, overflow) = overflowing_sub (cpu_a c AND cpu_x c) v in
     c\<lparr>cpu_x := res, cpu_p := set_nz res (p_set (cpu_p c) CARRY (\<not> overflow))\<rparr>)"

definition lxa :: "u8 \<Rightarrow> cpu \<Rightarrow> cpu" where
  "lxa v c = lax ((cpu_a c OR 0xEE) AND v) c"

definition xaa :: "u8 \<Rightarrow> cpu \<Rightarrow> cpu" where
  "xaa v c = lda ((cpu_a c OR 0xEE) AND cpu_x c AND v) c"

definition las :: "u8 \<Rightarrow> cpu \<Rightarrow> cpu" where
  "las v c = (let res = cpu_s c AND v in
     c\<lparr>cpu_a := res, cpu_x := res, cpu_s := res, cpu_p := set_nz res (cpu_p c)\<rparr>)"

subsection \<open>Read-modify-write\<close>

text \<open>
  Every read-modify-write operation reads, writes the original byte back (the 6502 dummy write),
  writes the new byte, then updates the registers. \<open>modify\<close> gives the new byte and the CPU.
\<close>

definition rmw :: "(u8 \<Rightarrow> cpu \<Rightarrow> u8 \<times> cpu) \<Rightarrow> (u8 \<Rightarrow> cpu \<Rightarrow> cpu) \<Rightarrow>
    'b bus_ops \<Rightarrow> u16 \<Rightarrow> cpu \<Rightarrow> 'b \<Rightarrow> (cpu \<times> 'b) option" where
  "rmw modify after B addr c b = do {
     (v, c, b) \<leftarrow> read1 B addr c b;
     (c, b) \<leftarrow> write1 B addr v c b;
     let (r, c) = modify v c;
     (c, b) \<leftarrow> write1 B addr r c b;
     Some (after r c, b) }"

definition nz_after :: "u8 \<Rightarrow> cpu \<Rightarrow> cpu" where
  "nz_after r c = c\<lparr>cpu_p := set_nz r (cpu_p c)\<rparr>"

definition inc_addr :: "'b bus_ops \<Rightarrow> u16 \<Rightarrow> cpu \<Rightarrow> 'b \<Rightarrow> (cpu \<times> 'b) option" where
  "inc_addr = rmw (\<lambda>v c. (v + 1, c)) nz_after"

definition dec_addr :: "'b bus_ops \<Rightarrow> u16 \<Rightarrow> cpu \<Rightarrow> 'b \<Rightarrow> (cpu \<times> 'b) option" where
  "dec_addr = rmw (\<lambda>v c. (v - 1, c)) nz_after"

definition asl_addr :: "'b bus_ops \<Rightarrow> u16 \<Rightarrow> cpu \<Rightarrow> 'b \<Rightarrow> (cpu \<times> 'b) option" where
  "asl_addr = rmw asl_value (\<lambda>r c. c)"

definition lsr_addr :: "'b bus_ops \<Rightarrow> u16 \<Rightarrow> cpu \<Rightarrow> 'b \<Rightarrow> (cpu \<times> 'b) option" where
  "lsr_addr = rmw lsr_value (\<lambda>r c. c)"

definition rol_addr :: "'b bus_ops \<Rightarrow> u16 \<Rightarrow> cpu \<Rightarrow> 'b \<Rightarrow> (cpu \<times> 'b) option" where
  "rol_addr = rmw rol_value (\<lambda>r c. c)"

definition ror_addr :: "'b bus_ops \<Rightarrow> u16 \<Rightarrow> cpu \<Rightarrow> 'b \<Rightarrow> (cpu \<times> 'b) option" where
  "ror_addr = rmw ror_value (\<lambda>r c. c)"

definition dcp_addr :: "'b bus_ops \<Rightarrow> u16 \<Rightarrow> cpu \<Rightarrow> 'b \<Rightarrow> (cpu \<times> 'b) option" where
  "dcp_addr = rmw (\<lambda>v c. (v - 1, c)) (\<lambda>r c. cmp_with (cpu_a c) r c)"

definition isc_addr :: "'b bus_ops \<Rightarrow> u16 \<Rightarrow> cpu \<Rightarrow> 'b \<Rightarrow> (cpu \<times> 'b) option" where
  "isc_addr = rmw (\<lambda>v c. (v + 1, c)) sbc"

definition slo_addr :: "'b bus_ops \<Rightarrow> u16 \<Rightarrow> cpu \<Rightarrow> 'b \<Rightarrow> (cpu \<times> 'b) option" where
  "slo_addr = rmw asl_value ora"

definition rla_addr :: "'b bus_ops \<Rightarrow> u16 \<Rightarrow> cpu \<Rightarrow> 'b \<Rightarrow> (cpu \<times> 'b) option" where
  "rla_addr = rmw rol_value and_a"

definition sre_addr :: "'b bus_ops \<Rightarrow> u16 \<Rightarrow> cpu \<Rightarrow> 'b \<Rightarrow> (cpu \<times> 'b) option" where
  "sre_addr = rmw lsr_value eor"

definition rra_addr :: "'b bus_ops \<Rightarrow> u16 \<Rightarrow> cpu \<Rightarrow> 'b \<Rightarrow> (cpu \<times> 'b) option" where
  "rra_addr = rmw ror_value adc"

lemmas rmw_defs = inc_addr_def dec_addr_def asl_addr_def lsr_addr_def rol_addr_def ror_addr_def
  dcp_addr_def isc_addr_def slo_addr_def rla_addr_def sre_addr_def rra_addr_def

end
