(* ===== verification/Dispatch.thy ===== *)
theory Dispatch
  imports Alu
begin

text \<open>
  Instruction dispatch of \<open>crates/rusty2600-cpu/src/cpu.rs\<close>. The source's 256-way \<open>match\<close> is
  a table from opcodes to instruction bodies, one table per section of the \<open>match\<close>, in its
  order. A body takes the bus operations, the CPU and the bus state and returns the instruction's
  declared cycle count (\<open>*cycles = ..\<close>) with the new state. The bodies that occur many times
  with only the addressing mode or the operation changed are the \<open>arm_\<close> functions.
  \<open>step\<close> fetches, dispatches and pads with idle cycles; \<open>reset\<close> loads the reset vector.
\<close>

type_synonym 'b action = "'b bus_ops \<Rightarrow> cpu \<Rightarrow> 'b \<Rightarrow> (u8 \<times> cpu \<times> 'b) option"
type_synonym 'b mode = "'b bus_ops \<Rightarrow> cpu \<Rightarrow> 'b \<Rightarrow> (operand \<times> cpu \<times> 'b) option"
type_synonym 'b rmw_mode = "'b bus_ops \<Rightarrow> cpu \<Rightarrow> 'b \<Rightarrow> (u16 \<times> cpu \<times> 'b) option"
type_synonym 'b rmw_op = "'b bus_ops \<Rightarrow> u16 \<Rightarrow> cpu \<Rightarrow> 'b \<Rightarrow> (cpu \<times> 'b) option"

subsection \<open>Shapes of instruction bodies\<close>

definition arm_imm :: "(u8 \<Rightarrow> cpu \<Rightarrow> cpu) \<Rightarrow> u8 \<Rightarrow> 'b action" where
  "arm_imm f n B c b = do {
     (v, c, b) \<leftarrow> fetch_pc B c b;
     Some (n, f v c, b) }"

definition arm_read :: "'b mode \<Rightarrow> (u8 \<Rightarrow> cpu \<Rightarrow> cpu) \<Rightarrow> u8 \<Rightarrow> 'b action" where
  "arm_read md f n B c b = do {
     (o', c, b) \<leftarrow> md B c b;
     (v, c, b) \<leftarrow> read1 B (op_addr o') c b;
     Some (n, f v c, b) }"

text \<open>Reading bodies whose count is \<open>n + u8::from(o.page_crossed)\<close>.\<close>

definition arm_read_px :: "'b mode \<Rightarrow> (u8 \<Rightarrow> cpu \<Rightarrow> cpu) \<Rightarrow> u8 \<Rightarrow> 'b action" where
  "arm_read_px md f n B c b = do {
     (o', c, b) \<leftarrow> md B c b;
     (v, c, b) \<leftarrow> read1 B (op_addr o') c b;
     Some (n + of_bool (op_page_crossed o'), f v c, b) }"

definition arm_store :: "'b mode \<Rightarrow> (cpu \<Rightarrow> u8) \<Rightarrow> u8 \<Rightarrow> 'b action" where
  "arm_store md reg n B c b = do {
     (o', c, b) \<leftarrow> md B c b;
     (c, b) \<leftarrow> write1 B (op_addr o') (reg c) c b;
     Some (n, c, b) }"

text \<open>The indexed stores, which make their dummy read even when no page is crossed.\<close>

definition arm_store_dummy :: "'b mode \<Rightarrow> (cpu \<Rightarrow> u8) \<Rightarrow> u8 \<Rightarrow> 'b action" where
  "arm_store_dummy md reg n B c b = do {
     (o', c, b) \<leftarrow> md B c b;
     (c, b) \<leftarrow> (if \<not> op_page_crossed o'
        then do { (_, c, b) \<leftarrow> read1 B (op_addr o') c b; Some (c, b) } else Some (c, b));
     (c, b) \<leftarrow> write1 B (op_addr o') (reg c) c b;
     Some (n, c, b) }"

definition arm_implied :: "(cpu \<Rightarrow> cpu) \<Rightarrow> 'b action" where
  "arm_implied f B c b = do {
     (c, b) \<leftarrow> implied_dummy_read B c b;
     Some (2, f c, b) }"

definition arm_rmw :: "'b mode \<Rightarrow> 'b rmw_op \<Rightarrow> u8 \<Rightarrow> 'b action" where
  "arm_rmw md f n B c b = do {
     (o', c, b) \<leftarrow> md B c b;
     (c, b) \<leftarrow> f B (op_addr o') c b;
     Some (n, c, b) }"

definition arm_rmw_idx :: "'b rmw_mode \<Rightarrow> 'b rmw_op \<Rightarrow> u8 \<Rightarrow> 'b action" where
  "arm_rmw_idx md f n B c b = do {
     (addr, c, b) \<leftarrow> md B c b;
     (c, b) \<leftarrow> f B addr c b;
     Some (n, c, b) }"

definition branch :: "'b bus_ops \<Rightarrow> u8 \<Rightarrow> bool \<Rightarrow> cpu \<Rightarrow> 'b \<Rightarrow> (u8 \<times> cpu \<times> 'b) option" where
  "branch B offset condition c b =
     (if \<not> condition then Some (2, c, b)
      else do {
        (_, c, b) \<leftarrow> read1 B (cpu_pc c) c b;
        let old_pc = cpu_pc c;
        let new_pc = (word_of_int (uint old_pc + sint offset) :: u16);
        let crossed = page_differs old_pc new_pc;
        (c, b) \<leftarrow> (if crossed
           then do { (_, c, b) \<leftarrow> read1 B ((old_pc AND 0xFF00) OR (new_pc AND 0x00FF)) c b; Some (c, b) }
           else Some (c, b));
        Some (if crossed then 4 else 3, c\<lparr>cpu_pc := new_pc\<rparr>, b) })"

definition arm_branch :: "status \<Rightarrow> bool \<Rightarrow> 'b action" where
  "arm_branch flag want B c b = do {
     (off, c, b) \<leftarrow> fetch_pc B c b;
     branch B off (p_contains (cpu_p c) flag = want) c b }"

subsection \<open>Stack, jumps and interrupts\<close>

definition op_pha :: "'b action" where
  "op_pha B c b = do {
     (_, c, b) \<leftarrow> read1 B (cpu_pc c) c b;
     (c, b) \<leftarrow> push B (cpu_a c) c b;
     Some (3, c, b) }"

definition op_php :: "'b action" where
  "op_php B c b = do {
     (_, c, b) \<leftarrow> read1 B (cpu_pc c) c b;
     (c, b) \<leftarrow> push B (cpu_p c OR BREAK OR UNUSED) c b;
     Some (3, c, b) }"

definition op_pla :: "'b action" where
  "op_pla B c b = do {
     (_, c, b) \<leftarrow> read1 B (cpu_pc c) c b;
     (_, c, b) \<leftarrow> read1 B (STACK_BASE OR ucast (cpu_s c)) c b;
     (v, c, b) \<leftarrow> pull B c b;
     Some (4, lda v c, b) }"

text \<open>The status restored by \<open>PLP\<close> and \<open>RTI\<close>: \<open>BREAK\<close> is dropped, \<open>UNUSED\<close> is set.\<close>

definition restored_p :: "u8 \<Rightarrow> status" where
  "restored_p v = p_insert (p_remove (from_bits_truncate v) BREAK) UNUSED"

definition op_plp :: "'b action" where
  "op_plp B c b = do {
     (_, c, b) \<leftarrow> read1 B (cpu_pc c) c b;
     (_, c, b) \<leftarrow> read1 B (STACK_BASE OR ucast (cpu_s c)) c b;
     (v, c, b) \<leftarrow> pull B c b;
     Some (4, c\<lparr>cpu_p := restored_p v\<rparr>, b) }"

definition op_jmp_abs :: "'b action" where
  "op_jmp_abs B c b = do {
     (a, c, b) \<leftarrow> fetch_pc_u16 B c b;
     Some (3, c\<lparr>cpu_pc := a\<rparr>, b) }"

definition op_jmp_ind :: "'b action" where
  "op_jmp_ind B c b = do {
     (ptr, c, b) \<leftarrow> fetch_pc_u16 B c b;
     (a, c, b) \<leftarrow> read_u16_with_wrap B ptr c b;
     Some (5, c\<lparr>cpu_pc := a\<rparr>, b) }"

definition op_jsr :: "'b action" where
  "op_jsr B c b = do {
     (lo, c, b) \<leftarrow> fetch_pc B c b;
     (_, c, b) \<leftarrow> read1 B (STACK_BASE OR ucast (cpu_s c)) c b;
     let return_minus_one = cpu_pc c;
     (c, b) \<leftarrow> push B (ucast (drop_bit 8 return_minus_one)) c b;
     (c, b) \<leftarrow> push B (ucast (return_minus_one AND 0xFF)) c b;
     (hi, c, b) \<leftarrow> fetch_pc B c b;
     Some (6, c\<lparr>cpu_pc := le16 lo hi\<rparr>, b) }"

definition op_rts :: "'b action" where
  "op_rts B c b = do {
     (_, c, b) \<leftarrow> read1 B (cpu_pc c) c b;
     (_, c, b) \<leftarrow> read1 B (STACK_BASE OR ucast (cpu_s c)) c b;
     (v, c, b) \<leftarrow> pull_u16 B c b;
     (_, c, b) \<leftarrow> read1 B v c b;
     Some (6, c\<lparr>cpu_pc := v + 1\<rparr>, b) }"

definition op_rti :: "'b action" where
  "op_rti B c b = do {
     (_, c, b) \<leftarrow> read1 B (cpu_pc c) c b;
     (_, c, b) \<leftarrow> read1 B (STACK_BASE OR ucast (cpu_s c)) c b;
     (p, c, b) \<leftarrow> pull B c b;
     let c = c\<lparr>cpu_p := restored_p p\<rparr>;
     (a, c, b) \<leftarrow> pull_u16 B c b;
     Some (6, c\<lparr>cpu_pc := a\<rparr>, b) }"

definition op_brk :: "'b action" where
  "op_brk B c b = do {
     (_, c, b) \<leftarrow> read1 B (cpu_pc c) c b;
     let c = c\<lparr>cpu_pc := cpu_pc c + 1\<rparr>;
     (c, b) \<leftarrow> push_u16 B (cpu_pc c) c b;
     (c, b) \<leftarrow> push B (p_insert (cpu_p c) BREAK) c b;
     let c = c\<lparr>cpu_p := p_insert (cpu_p c) INTERRUPT_DISABLE\<rparr>;
     (lo, c, b) \<leftarrow> read1 B 0xFFFE c b;
     (hi, c, b) \<leftarrow> read1 B 0xFFFF c b;
     Some (7, c\<lparr>cpu_pc := le16 lo hi\<rparr>, b) }"

subsection \<open>The unstable stores and the jam\<close>

definition op_tas :: "'b action" where
  "op_tas B c b = do {
     (base, c, b) \<leftarrow> fetch_pc_u16 B c b;
     let c = c\<lparr>cpu_s := cpu_a c AND cpu_x c\<rparr>;
     (c, b) \<leftarrow> sh_store B base (cpu_y c) (cpu_s c) c b;
     Some (5, c, b) }"

definition op_sha_abs :: "'b action" where
  "op_sha_abs B c b = do {
     (base, c, b) \<leftarrow> fetch_pc_u16 B c b;
     (c, b) \<leftarrow> sh_store B base (cpu_y c) (cpu_a c AND cpu_x c) c b;
     Some (5, c, b) }"

definition op_sha_ind :: "'b action" where
  "op_sha_ind B c b = do {
     (base, c, b) \<leftarrow> zp_pointer B c b;
     (c, b) \<leftarrow> sh_store B base (cpu_y c) (cpu_a c AND cpu_x c) c b;
     Some (6, c, b) }"

definition op_shx :: "'b action" where
  "op_shx B c b = do {
     (base, c, b) \<leftarrow> fetch_pc_u16 B c b;
     (c, b) \<leftarrow> sh_store B base (cpu_y c) (cpu_x c) c b;
     Some (5, c, b) }"

definition op_shy :: "'b action" where
  "op_shy B c b = do {
     (base, c, b) \<leftarrow> fetch_pc_u16 B c b;
     (c, b) \<leftarrow> sh_store B base (cpu_x c) (cpu_y c) c b;
     Some (5, c, b) }"

text \<open>A run of reads whose values are discarded.\<close>

fun dummy_reads :: "'b bus_ops \<Rightarrow> u16 list \<Rightarrow> cpu \<Rightarrow> 'b \<Rightarrow> (cpu \<times> 'b) option" where
  "dummy_reads B [] c b = Some (c, b)"
| "dummy_reads B (a # as) c b = do { (_, c, b) \<leftarrow> read1 B a c b; dummy_reads B as c b }"

definition op_jam :: "'b action" where
  "op_jam B c b = do {
     (_, c, b) \<leftarrow> read1 B (cpu_pc c) c b;
     (c, b) \<leftarrow> dummy_reads B ([0xFFFF, 0xFFFE, 0xFFFE] @ replicate 6 0xFFFF) c b;
     Some (11, c\<lparr>cpu_jammed := True\<rparr>, b) }"

subsection \<open>The opcode tables\<close>

definition loads_table :: "(u8 \<times> 'b action) list" where
  "loads_table = [
     (0xA9, arm_imm lda 2),
     (0xA5, arm_read addr_zp lda 3),
     (0xB5, arm_read addr_zp_x lda 4),
     (0xAD, arm_read addr_abs lda 4),
     (0xBD, arm_read_px addr_abs_x lda 4),
     (0xB9, arm_read_px addr_abs_y lda 4),
     (0xA1, arm_read addr_ind_x lda 6),
     (0xB1, arm_read_px addr_ind_y lda 5),
     (0xA2, arm_imm ldx 2),
     (0xA6, arm_read addr_zp ldx 3),
     (0xB6, arm_read addr_zp_y ldx 4),
     (0xAE, arm_read addr_abs ldx 4),
     (0xBE, arm_read_px addr_abs_y ldx 4),
     (0xA0, arm_imm ldy 2),
     (0xA4, arm_read addr_zp ldy 3),
     (0xB4, arm_read addr_zp_x ldy 4),
     (0xAC, arm_read addr_abs ldy 4),
     (0xBC, arm_read_px addr_abs_x ldy 4)]"

definition stores_table :: "(u8 \<times> 'b action) list" where
  "stores_table = [
     (0x85, arm_store addr_zp cpu_a 3),
     (0x95, arm_store addr_zp_x cpu_a 4),
     (0x8D, arm_store addr_abs cpu_a 4),
     (0x9D, arm_store_dummy addr_abs_x cpu_a 5),
     (0x99, arm_store_dummy addr_abs_y cpu_a 5),
     (0x81, arm_store addr_ind_x cpu_a 6),
     (0x91, arm_store_dummy addr_ind_y cpu_a 6),
     (0x86, arm_store addr_zp cpu_x 3),
     (0x96, arm_store addr_zp_y cpu_x 4),
     (0x8E, arm_store addr_abs cpu_x 4),
     (0x84, arm_store addr_zp cpu_y 3),
     (0x94, arm_store addr_zp_x cpu_y 4),
     (0x8C, arm_store addr_abs cpu_y 4)]"

definition transfers_table :: "(u8 \<times> 'b action) list" where
  "transfers_table = [
     (0xAA, arm_implied (\<lambda>c. ldx (cpu_a c) c)),
     (0xA8, arm_implied (\<lambda>c. ldy (cpu_a c) c)),
     (0xBA, arm_implied (\<lambda>c. ldx (cpu_s c) c)),
     (0x8A, arm_implied (\<lambda>c. lda (cpu_x c) c)),
     (0x9A, arm_implied (\<lambda>c. c\<lparr>cpu_s := cpu_x c\<rparr>)),
     (0x98, arm_implied (\<lambda>c. lda (cpu_y c) c))]"

definition stack_table :: "(u8 \<times> 'b action) list" where
  "stack_table = [
     (0x48, op_pha),
     (0x08, op_php),
     (0x68, op_pla),
     (0x28, op_plp)]"

definition logical_table :: "(u8 \<times> 'b action) list" where
  "logical_table = [
     (0x29, arm_imm and_a 2),
     (0x25, arm_read addr_zp and_a 3),
     (0x35, arm_read addr_zp_x and_a 4),
     (0x2D, arm_read addr_abs and_a 4),
     (0x3D, arm_read_px addr_abs_x and_a 4),
     (0x39, arm_read_px addr_abs_y and_a 4),
     (0x21, arm_read addr_ind_x and_a 6),
     (0x31, arm_read_px addr_ind_y and_a 5),
     (0x09, arm_imm ora 2),
     (0x05, arm_read addr_zp ora 3),
     (0x15, arm_read addr_zp_x ora 4),
     (0x0D, arm_read addr_abs ora 4),
     (0x1D, arm_read_px addr_abs_x ora 4),
     (0x19, arm_read_px addr_abs_y ora 4),
     (0x01, arm_read addr_ind_x ora 6),
     (0x11, arm_read_px addr_ind_y ora 5),
     (0x49, arm_imm eor 2),
     (0x45, arm_read addr_zp eor 3),
     (0x55, arm_read addr_zp_x eor 4),
     (0x4D, arm_read addr_abs eor 4),
     (0x5D, arm_read_px addr_abs_x eor 4),
     (0x59, arm_read_px addr_abs_y eor 4),
     (0x41, arm_read addr_ind_x eor 6),
     (0x51, arm_read_px addr_ind_y eor 5),
     (0x24, arm_read addr_zp bit_test 3),
     (0x2C, arm_read addr_abs bit_test 4)]"

definition arithmetic_table :: "(u8 \<times> 'b action) list" where
  "arithmetic_table = [
     (0x69, arm_imm adc 2),
     (0x65, arm_read addr_zp adc 3),
     (0x75, arm_read addr_zp_x adc 4),
     (0x6D, arm_read addr_abs adc 4),
     (0x7D, arm_read_px addr_abs_x adc 4),
     (0x79, arm_read_px addr_abs_y adc 4),
     (0x61, arm_read addr_ind_x adc 6),
     (0x71, arm_read_px addr_ind_y adc 5),
     (0xE9, arm_imm sbc 2),
     (0xEB, arm_imm sbc 2),
     (0xE5, arm_read addr_zp sbc 3),
     (0xF5, arm_read addr_zp_x sbc 4),
     (0xED, arm_read addr_abs sbc 4),
     (0xFD, arm_read_px addr_abs_x sbc 4),
     (0xF9, arm_read_px addr_abs_y sbc 4),
     (0xE1, arm_read addr_ind_x sbc 6),
     (0xF1, arm_read_px addr_ind_y sbc 5)]"

definition compare_table :: "(u8 \<times> 'b action) list" where
  "compare_table = [
     (0xC9, arm_imm (\<lambda>v c. cmp_with (cpu_a c) v c) 2),
     (0xC5, arm_read addr_zp (\<lambda>v c. cmp_with (cpu_a c) v c) 3),
     (0xD5, arm_read addr_zp_x (\<lambda>v c. cmp_with (cpu_a c) v c) 4),
     (0xCD, arm_read addr_abs (\<lambda>v c. cmp_with (cpu_a c) v c) 4),
     (0xDD, arm_read_px addr_abs_x (\<lambda>v c. cmp_with (cpu_a c) v c) 4),
     (0xD9, arm_read_px addr_abs_y (\<lambda>v c. cmp_with (cpu_a c) v c) 4),
     (0xC1, arm_read addr_ind_x (\<lambda>v c. cmp_with (cpu_a c) v c) 6),
     (0xD1, arm_read_px addr_ind_y (\<lambda>v c. cmp_with (cpu_a c) v c) 5),
     (0xE0, arm_imm (\<lambda>v c. cmp_with (cpu_x c) v c) 2),
     (0xE4, arm_read addr_zp (\<lambda>v c. cmp_with (cpu_x c) v c) 3),
     (0xEC, arm_read addr_abs (\<lambda>v c. cmp_with (cpu_x c) v c) 4),
     (0xC0, arm_imm (\<lambda>v c. cmp_with (cpu_y c) v c) 2),
     (0xC4, arm_read addr_zp (\<lambda>v c. cmp_with (cpu_y c) v c) 3),
     (0xCC, arm_read addr_abs (\<lambda>v c. cmp_with (cpu_y c) v c) 4)]"

definition incdec_table :: "(u8 \<times> 'b action) list" where
  "incdec_table = [
     (0xE6, arm_rmw addr_zp inc_addr 5),
     (0xF6, arm_rmw addr_zp_x inc_addr 6),
     (0xEE, arm_rmw addr_abs inc_addr 6),
     (0xFE, arm_rmw_idx addr_abs_x_rmw inc_addr 7),
     (0xC6, arm_rmw addr_zp dec_addr 5),
     (0xD6, arm_rmw addr_zp_x dec_addr 6),
     (0xCE, arm_rmw addr_abs dec_addr 6),
     (0xDE, arm_rmw_idx addr_abs_x_rmw dec_addr 7),
     (0xE8, arm_implied (\<lambda>c. ldx (cpu_x c + 1) c)),
     (0xCA, arm_implied (\<lambda>c. ldx (cpu_x c - 1) c)),
     (0xC8, arm_implied (\<lambda>c. ldy (cpu_y c + 1) c)),
     (0x88, arm_implied (\<lambda>c. ldy (cpu_y c - 1) c))]"

definition shifts_table :: "(u8 \<times> 'b action) list" where
  "shifts_table = [
     (0x0A, arm_implied (on_accumulator asl_value)),
     (0x06, arm_rmw addr_zp asl_addr 5),
     (0x16, arm_rmw addr_zp_x asl_addr 6),
     (0x0E, arm_rmw addr_abs asl_addr 6),
     (0x1E, arm_rmw_idx addr_abs_x_rmw asl_addr 7),
     (0x4A, arm_implied (on_accumulator lsr_value)),
     (0x46, arm_rmw addr_zp lsr_addr 5),
     (0x56, arm_rmw addr_zp_x lsr_addr 6),
     (0x4E, arm_rmw addr_abs lsr_addr 6),
     (0x5E, arm_rmw_idx addr_abs_x_rmw lsr_addr 7),
     (0x2A, arm_implied (on_accumulator rol_value)),
     (0x26, arm_rmw addr_zp rol_addr 5),
     (0x36, arm_rmw addr_zp_x rol_addr 6),
     (0x2E, arm_rmw addr_abs rol_addr 6),
     (0x3E, arm_rmw_idx addr_abs_x_rmw rol_addr 7),
     (0x6A, arm_implied (on_accumulator ror_value)),
     (0x66, arm_rmw addr_zp ror_addr 5),
     (0x76, arm_rmw addr_zp_x ror_addr 6),
     (0x6E, arm_rmw addr_abs ror_addr 6),
     (0x7E, arm_rmw_idx addr_abs_x_rmw ror_addr 7)]"

definition branches_table :: "(u8 \<times> 'b action) list" where
  "branches_table = [
     (0x10, arm_branch NEGATIVE False),
     (0x30, arm_branch NEGATIVE True),
     (0x50, arm_branch OVERFLOW False),
     (0x70, arm_branch OVERFLOW True),
     (0x90, arm_branch CARRY False),
     (0xB0, arm_branch CARRY True),
     (0xD0, arm_branch ZERO False),
     (0xF0, arm_branch ZERO True)]"

definition jumps_table :: "(u8 \<times> 'b action) list" where
  "jumps_table = [
     (0x4C, op_jmp_abs),
     (0x6C, op_jmp_ind),
     (0x20, op_jsr),
     (0x60, op_rts),
     (0x40, op_rti),
     (0x00, op_brk),
     (0xEA, arm_implied (\<lambda>c. c))]"

definition flags_table :: "(u8 \<times> 'b action) list" where
  "flags_table = [
     (0x18, arm_implied (\<lambda>c. c\<lparr>cpu_p := p_remove (cpu_p c) CARRY\<rparr>)),
     (0x38, arm_implied (\<lambda>c. c\<lparr>cpu_p := p_insert (cpu_p c) CARRY\<rparr>)),
     (0x58, arm_implied (\<lambda>c. c\<lparr>cpu_p := p_remove (cpu_p c) INTERRUPT_DISABLE\<rparr>)),
     (0x78, arm_implied (\<lambda>c. c\<lparr>cpu_p := p_insert (cpu_p c) INTERRUPT_DISABLE\<rparr>)),
     (0xB8, arm_implied (\<lambda>c. c\<lparr>cpu_p := p_remove (cpu_p c) OVERFLOW\<rparr>)),
     (0xD8, arm_implied (\<lambda>c. c\<lparr>cpu_p := p_remove (cpu_p c) DECIMAL\<rparr>)),
     (0xF8, arm_implied (\<lambda>c. c\<lparr>cpu_p := p_insert (cpu_p c) DECIMAL\<rparr>))]"

definition nops_table :: "(u8 \<times> 'b action) list" where
  "nops_table = [
     (0x1A, arm_implied (\<lambda>c. c)),
     (0x3A, arm_implied (\<lambda>c. c)),
     (0x5A, arm_implied (\<lambda>c. c)),
     (0x7A, arm_implied (\<lambda>c. c)),
     (0xDA, arm_implied (\<lambda>c. c)),
     (0xFA, arm_implied (\<lambda>c. c)),
     (0x80, arm_imm (\<lambda>v c. c) 2),
     (0x82, arm_imm (\<lambda>v c. c) 2),
     (0x89, arm_imm (\<lambda>v c. c) 2),
     (0xC2, arm_imm (\<lambda>v c. c) 2),
     (0xE2, arm_imm (\<lambda>v c. c) 2),
     (0x04, arm_read addr_zp (\<lambda>v c. c) 3),
     (0x44, arm_read addr_zp (\<lambda>v c. c) 3),
     (0x64, arm_read addr_zp (\<lambda>v c. c) 3),
     (0x14, arm_read addr_zp_x (\<lambda>v c. c) 4),
     (0x34, arm_read addr_zp_x (\<lambda>v c. c) 4),
     (0x54, arm_read addr_zp_x (\<lambda>v c. c) 4),
     (0x74, arm_read addr_zp_x (\<lambda>v c. c) 4),
     (0xD4, arm_read addr_zp_x (\<lambda>v c. c) 4),
     (0xF4, arm_read addr_zp_x (\<lambda>v c. c) 4),
     (0x0C, arm_read addr_abs (\<lambda>v c. c) 4),
     (0x1C, arm_read_px addr_abs_x (\<lambda>v c. c) 4),
     (0x3C, arm_read_px addr_abs_x (\<lambda>v c. c) 4),
     (0x5C, arm_read_px addr_abs_x (\<lambda>v c. c) 4),
     (0x7C, arm_read_px addr_abs_x (\<lambda>v c. c) 4),
     (0xDC, arm_read_px addr_abs_x (\<lambda>v c. c) 4),
     (0xFC, arm_read_px addr_abs_x (\<lambda>v c. c) 4)]"

definition lax_sax_table :: "(u8 \<times> 'b action) list" where
  "lax_sax_table = [
     (0xA7, arm_read addr_zp lax 3),
     (0xB7, arm_read addr_zp_y lax 4),
     (0xAF, arm_read addr_abs lax 4),
     (0xBF, arm_read_px addr_abs_y lax 4),
     (0xA3, arm_read addr_ind_x lax 6),
     (0xB3, arm_read_px addr_ind_y lax 5),
     (0xAB, arm_imm lxa 2),
     (0x87, arm_store addr_zp (\<lambda>c. cpu_a c AND cpu_x c) 3),
     (0x97, arm_store addr_zp_y (\<lambda>c. cpu_a c AND cpu_x c) 4),
     (0x8F, arm_store addr_abs (\<lambda>c. cpu_a c AND cpu_x c) 4),
     (0x83, arm_store addr_ind_x (\<lambda>c. cpu_a c AND cpu_x c) 6)]"

definition dcp_isc_slo_table :: "(u8 \<times> 'b action) list" where
  "dcp_isc_slo_table = [
     (0xC7, arm_rmw addr_zp dcp_addr 5),
     (0xD7, arm_rmw addr_zp_x dcp_addr 6),
     (0xCF, arm_rmw addr_abs dcp_addr 6),
     (0xDF, arm_rmw_idx addr_abs_x_rmw dcp_addr 7),
     (0xDB, arm_rmw_idx addr_abs_y_rmw dcp_addr 7),
     (0xC3, arm_rmw addr_ind_x dcp_addr 8),
     (0xD3, arm_rmw_idx addr_ind_y_rmw dcp_addr 8),
     (0xE7, arm_rmw addr_zp isc_addr 5),
     (0xF7, arm_rmw addr_zp_x isc_addr 6),
     (0xEF, arm_rmw addr_abs isc_addr 6),
     (0xFF, arm_rmw_idx addr_abs_x_rmw isc_addr 7),
     (0xFB, arm_rmw_idx addr_abs_y_rmw isc_addr 7),
     (0xE3, arm_rmw addr_ind_x isc_addr 8),
     (0xF3, arm_rmw_idx addr_ind_y_rmw isc_addr 8),
     (0x07, arm_rmw addr_zp slo_addr 5),
     (0x17, arm_rmw addr_zp_x slo_addr 6),
     (0x0F, arm_rmw addr_abs slo_addr 6),
     (0x1F, arm_rmw_idx addr_abs_x_rmw slo_addr 7),
     (0x1B, arm_rmw_idx addr_abs_y_rmw slo_addr 7),
     (0x03, arm_rmw addr_ind_x slo_addr 8),
     (0x13, arm_rmw_idx addr_ind_y_rmw slo_addr 8)]"

definition rla_sre_rra_table :: "(u8 \<times> 'b action) list" where
  "rla_sre_rra_table = [
     (0x27, arm_rmw addr_zp rla_addr 5),
     (0x37, arm_rmw addr_zp_x rla_addr 6),
     (0x2F, arm_rmw addr_abs rla_addr 6),
     (0x3F, arm_rmw_idx addr_abs_x_rmw rla_addr 7),
     (0x3B, arm_rmw_idx addr_abs_y_rmw rla_addr 7),
     (0x23, arm_rmw addr_ind_x rla_addr 8),
     (0x33, arm_rmw_idx addr_ind_y_rmw rla_addr 8),
     (0x47, arm_rmw addr_zp sre_addr 5),
     (0x57, arm_rmw addr_zp_x sre_addr 6),
     (0x4F, arm_rmw addr_abs sre_addr 6),
     (0x5F, arm_rmw_idx addr_abs_x_rmw sre_addr 7),
     (0x5B, arm_rmw_idx addr_abs_y_rmw sre_addr 7),
     (0x43, arm_rmw addr_ind_x sre_addr 8),
     (0x53, arm_rmw_idx addr_ind_y_rmw sre_addr 8),
     (0x67, arm_rmw addr_zp rra_addr 5),
     (0x77, arm_rmw addr_zp_x rra_addr 6),
     (0x6F, arm_rmw addr_abs rra_addr 6),
     (0x7F, arm_rmw_idx addr_abs_x_rmw rra_addr 7),
     (0x7B, arm_rmw_idx addr_abs_y_rmw rra_addr 7),
     (0x63, arm_rmw addr_ind_x rra_addr 8),
     (0x73, arm_rmw_idx addr_ind_y_rmw rra_addr 8)]"

definition immediate_table :: "(u8 \<times> 'b action) list" where
  "immediate_table = [
     (0x0B, arm_imm anc 2),
     (0x2B, arm_imm anc 2),
     (0x4B, arm_imm alr 2),
     (0x6B, arm_imm arr 2),
     (0xCB, arm_imm axs 2)]"

definition unstable_table :: "(u8 \<times> 'b action) list" where
  "unstable_table = [
     (0x8B, arm_imm xaa 2),
     (0xBB, arm_read_px addr_abs_y las 4),
     (0x9B, op_tas),
     (0x9F, op_sha_abs),
     (0x93, op_sha_ind),
     (0x9E, op_shx),
     (0x9C, op_shy)]"

definition jam_table :: "(u8 \<times> 'b action) list" where
  "jam_table = [
     (0x02, op_jam),
     (0x12, op_jam),
     (0x22, op_jam),
     (0x32, op_jam),
     (0x42, op_jam),
     (0x52, op_jam),
     (0x62, op_jam),
     (0x72, op_jam),
     (0x92, op_jam),
     (0xB2, op_jam),
     (0xD2, op_jam),
     (0xF2, op_jam)]"

definition opcode_table :: "(u8 \<times> 'b action) list" where
  "opcode_table = loads_table @
     stores_table @
     transfers_table @
     stack_table @
     logical_table @
     arithmetic_table @
     compare_table @
     incdec_table @
     shifts_table @
     branches_table @
     jumps_table @
     flags_table @
     nops_table @
     lax_sax_table @
     dcp_isc_slo_table @
     rla_sre_rra_table @
     immediate_table @
     unstable_table @
     jam_table"

lemmas table_defs = loads_table_def
  stores_table_def
  transfers_table_def
  stack_table_def
  logical_table_def
  arithmetic_table_def
  compare_table_def
  incdec_table_def
  shifts_table_def
  branches_table_def
  jumps_table_def
  flags_table_def
  nops_table_def
  lax_sax_table_def
  dcp_isc_slo_table_def
  rla_sre_rra_table_def
  immediate_table_def
  unstable_table_def
  jam_table_def

subsection \<open>Dispatch, step and reset\<close>

text \<open>
  \<open>dispatch\<close> looks the opcode up. The \<open>None\<close> case would be a \<open>match\<close> without an arm,
  which the compiler excludes for the source and \<open>opcode_table_total\<close> for the model.
\<close>

definition dispatch :: "u8 \<Rightarrow> 'b action" where
  "dispatch op B c b = (case map_of opcode_table op of
     Some act \<Rightarrow> act B c b
   | None \<Rightarrow> None)"

text \<open>The padding loop \<open>while self.cycles_emitted < cycles { self.idle_tick(bus) }\<close>.\<close>

partial_function (option) pad_cycles :: "'b bus_ops \<Rightarrow> u8 \<Rightarrow> cpu \<Rightarrow> 'b \<Rightarrow> (cpu \<times> 'b) option" where
  "pad_cycles B n c b =
     (if cpu_emitted c < n then do { (c, b) \<leftarrow> idle_tick B c b; pad_cycles B n c b }
      else Some (c, b))"

declare pad_cycles.simps [code]

definition step :: "'b action" where
  "step B c b =
     (if cpu_jammed c then Some (0, c, b)
      else do {
        let c = c\<lparr>cpu_emitted := 0\<rparr>;
        (opcode, c, b) \<leftarrow> fetch_pc B c b;
        (cycles, c, b) \<leftarrow> dispatch opcode B c b;
        (c, b) \<leftarrow> pad_cycles B cycles c b;
        Some (cycles, c, b) })"

fun idle_ticks :: "nat \<Rightarrow> 'b bus_ops \<Rightarrow> cpu \<Rightarrow> 'b \<Rightarrow> (cpu \<times> 'b) option" where
  "idle_ticks 0 B c b = Some (c, b)"
| "idle_ticks (Suc k) B c b = do { (c, b) \<leftarrow> idle_tick B c b; idle_ticks k B c b }"

definition reset :: "'b bus_ops \<Rightarrow> cpu \<Rightarrow> 'b \<Rightarrow> (cpu \<times> 'b) option" where
  "reset B c b = do {
     let c = c\<lparr>cpu_s := cpu_s c - 3, cpu_p := p_insert (cpu_p c) INTERRUPT_DISABLE,
               cpu_jammed := False, cpu_emitted := 0\<rparr>;
     (c, b) \<leftarrow> idle_ticks 6 B c b;
     (lo, c, b) \<leftarrow> read1 B RESET_VECTOR c b;
     (hi, c, b) \<leftarrow> read1 B (RESET_VECTOR + 1) c b;
     Some (c\<lparr>cpu_pc := le16 lo hi\<rparr>, b) }"

end
