(* ===== verification/Cpu_Exec.thy ===== *)
theory Cpu_Exec
  imports Dispatch
begin

text \<open>
  Execution of an instruction on any bus that keeps the contract \<open>cpu_bus\<close>: its accesses do
  not panic, keep an invariant, and a \<open>RDY\<close> stall ends. Under that contract every instruction
  returns, and the cycles it spends on the bus are exactly the cycles it declares. The lemmas go
  from the primitive accesses through the addressing modes and the shapes of instruction bodies
  to the opcode table, one rule each, so that the table itself is one application of them.
\<close>

subsection \<open>Counting cycles\<close>

text \<open>
  \<open>advanced c c' k\<close>: the CPU spent \<open>k\<close> cycles between \<open>c\<close> and \<open>c'\<close>, and the status register
  stayed well-formed. The per-instruction count saturates at 255, as \<open>idle_tick\<close> makes it.
\<close>

definition advanced :: "cpu \<Rightarrow> cpu \<Rightarrow> nat \<Rightarrow> bool" where
  "advanced c c' k \<longleftrightarrow>
     unat (cpu_emitted c') = min 255 (unat (cpu_emitted c) + k) \<and>
     cpu_cycles c' = cpu_cycles c + of_nat k \<and>
     (p_ok (cpu_p c) \<longrightarrow> p_ok (cpu_p c'))"

lemma unat_sat_add8: "unat (sat_add8 x y) = min 255 (unat x + unat y)"
  by (auto simp: sat_add8_def unat_word_ariths)

lemma ticked_simps [simp]:
  "cpu_a (ticked c) = cpu_a c" "cpu_x (ticked c) = cpu_x c" "cpu_y (ticked c) = cpu_y c"
  "cpu_pc (ticked c) = cpu_pc c" "cpu_s (ticked c) = cpu_s c" "cpu_p (ticked c) = cpu_p c"
  "cpu_jammed (ticked c) = cpu_jammed c" "cpu_cycles (ticked c) = cpu_cycles c + 1"
  "cpu_emitted (ticked c) = sat_add8 (cpu_emitted c) 1"
  by (simp_all add: ticked_def)

lemma ticked_upd [simp]:
  "ticked (c\<lparr>cpu_pc := pc\<rparr>) = (ticked c)\<lparr>cpu_pc := pc\<rparr>"
  "ticked (c\<lparr>cpu_s := s\<rparr>) = (ticked c)\<lparr>cpu_s := s\<rparr>"
  "ticked (c\<lparr>cpu_p := p\<rparr>) = (ticked c)\<lparr>cpu_p := p\<rparr>"
  by (simp_all add: ticked_def)

lemma advanced_refl [simp]: "advanced c c 0"
  using word8_bound [of "cpu_emitted c"] by (simp add: advanced_def)

lemma advanced_ticked [simp]: "advanced c (ticked c) 1"
  by (simp add: advanced_def unat_sat_add8)

lemma adv_tick: "0 < m \<Longrightarrow> advanced c c' (m - 1) \<Longrightarrow> advanced c (ticked c') m"
  by (cases m) (auto simp: advanced_def unat_sat_add8)

lemma advanced_trans: "advanced c c' k \<Longrightarrow> advanced c' c'' m \<Longrightarrow> advanced c c'' (k + m)"
  by (auto simp: advanced_def)

lemma advanced_regs:
  "cpu_emitted c' = cpu_emitted c \<Longrightarrow> cpu_cycles c' = cpu_cycles c \<Longrightarrow>
   (p_ok (cpu_p c) \<Longrightarrow> p_ok (cpu_p c')) \<Longrightarrow> advanced c c' 0"
  using word8_bound [of "cpu_emitted c"] by (simp add: advanced_def)

text \<open>Operations on registers alone spend no cycle: the fields they write are not counters.\<close>

lemma advanced_upd_iff [simp]:
  "advanced c (c'\<lparr>cpu_a := a\<rparr>) k = advanced c c' k"
  "advanced c (c'\<lparr>cpu_x := x\<rparr>) k = advanced c c' k"
  "advanced c (c'\<lparr>cpu_y := y\<rparr>) k = advanced c c' k"
  "advanced c (c'\<lparr>cpu_pc := pc\<rparr>) k = advanced c c' k"
  "advanced c (c'\<lparr>cpu_s := s\<rparr>) k = advanced c c' k"
  "advanced c (c'\<lparr>cpu_jammed := j\<rparr>) k = advanced c c' k"
  "advanced (c\<lparr>cpu_s := s\<rparr>) c' k = advanced c c' k"
  "advanced (c\<lparr>cpu_pc := pc\<rparr>) c' k = advanced c c' k"
  by (simp_all add: advanced_def)

definition quiet :: "(cpu \<Rightarrow> cpu) \<Rightarrow> bool" where
  "quiet f \<longleftrightarrow> (\<forall>c. advanced c (f c) 0)"

lemma quiet_after: "quiet f \<Longrightarrow> advanced c c' k \<Longrightarrow> advanced c (f c') k"
  using advanced_trans [of c c' k "f c'" 0] by (simp add: quiet_def)

lemma quiet_lda [intro]: "quiet (lda v)"
  by (auto simp: quiet_def lda_def intro!: advanced_regs)

lemma quiet_ldx [intro]: "quiet (ldx v)"
  by (auto simp: quiet_def ldx_def intro!: advanced_regs)

lemma quiet_ldy [intro]: "quiet (ldy v)"
  by (auto simp: quiet_def ldy_def intro!: advanced_regs)

lemma quiet_lda_of [intro]: "quiet (\<lambda>c. lda (g c) c)"
  using quiet_lda by (auto simp: quiet_def)

lemma quiet_ldx_of [intro]: "quiet (\<lambda>c. ldx (g c) c)"
  using quiet_ldx by (auto simp: quiet_def)

lemma quiet_ldy_of [intro]: "quiet (\<lambda>c. ldy (g c) c)"
  using quiet_ldy by (auto simp: quiet_def)

lemma quiet_logic [intro]: "quiet (and_a v)" "quiet (ora v)" "quiet (eor v)"
  using quiet_lda by (auto simp: quiet_def and_a_def ora_def eor_def)

lemma quiet_bit_test [intro]: "quiet (bit_test v)"
  by (auto simp: quiet_def bit_test_def Let_def intro!: advanced_regs)

lemma quiet_lax [intro]: "quiet (lax v)"
  by (auto simp: quiet_def lax_def intro!: advanced_regs)

lemma quiet_adc [intro]: "quiet (adc v)"
  unfolding quiet_def adc_def adc_decimal_def adc_binary_def Let_def
  by (intro allI advanced_regs) simp_all

lemma quiet_sbc [intro]: "quiet (sbc v)"
proof -
  have "advanced c (sbc_decimal v c) 0" for c
    unfolding sbc_decimal_def Let_def
    by (intro advanced_regs) (simp_all split: prod.splits if_splits)
  then show ?thesis using quiet_adc [of "v XOR 0xFF"] by (simp add: quiet_def sbc_def)
qed

lemma quiet_cmp_with [intro]: "quiet (\<lambda>c. cmp_with (g c) v c)" "quiet (cmp_with l v)"
  by (auto simp: quiet_def cmp_with_def overflowing_sub_def intro!: advanced_regs)

lemma quiet_imm [intro]: "quiet (anc v)" "quiet (alr v)" "quiet (axs v)" "quiet (las v)"
  by (auto simp: quiet_def anc_def alr_def axs_def las_def overflowing_sub_def Let_def
           intro!: advanced_regs)

lemma quiet_arr [intro]: "quiet (arr v)"
  unfolding quiet_def arr_def Let_def by (intro allI advanced_regs) simp_all

lemma quiet_xaa_lxa [intro]: "quiet (xaa v)" "quiet (lxa v)"
  using quiet_lda quiet_lax by (auto simp: quiet_def xaa_def lxa_def)

lemma quiet_id [intro]: "quiet (\<lambda>c. c)"
  by (simp add: quiet_def)

lemma quiet_upd_s [intro]: "quiet (\<lambda>c. c\<lparr>cpu_s := g c\<rparr>)"
  by (simp add: quiet_def)

lemma quiet_flags [intro]:
  "quiet (\<lambda>c. c\<lparr>cpu_p := p_insert (cpu_p c) CARRY\<rparr>)"
  "quiet (\<lambda>c. c\<lparr>cpu_p := p_insert (cpu_p c) DECIMAL\<rparr>)"
  "quiet (\<lambda>c. c\<lparr>cpu_p := p_insert (cpu_p c) INTERRUPT_DISABLE\<rparr>)"
  "quiet (\<lambda>c. c\<lparr>cpu_p := p_remove (cpu_p c) CARRY\<rparr>)"
  "quiet (\<lambda>c. c\<lparr>cpu_p := p_remove (cpu_p c) DECIMAL\<rparr>)"
  "quiet (\<lambda>c. c\<lparr>cpu_p := p_remove (cpu_p c) INTERRUPT_DISABLE\<rparr>)"
  "quiet (\<lambda>c. c\<lparr>cpu_p := p_remove (cpu_p c) OVERFLOW\<rparr>)"
  by (auto simp: quiet_def intro!: advanced_regs)

lemma adv_p: "advanced c c' k \<Longrightarrow> (p_ok (cpu_p c) \<Longrightarrow> p_ok p) \<Longrightarrow> advanced c (c'\<lparr>cpu_p := p\<rparr>) k"
  by (simp add: advanced_def)

lemma p_ok_restored [simp]: "p_ok (restored_p v)"
  by (simp add: restored_p_def)

definition quiet_modify :: "(u8 \<Rightarrow> cpu \<Rightarrow> u8 \<times> cpu) \<Rightarrow> bool" where
  "quiet_modify f \<longleftrightarrow> (\<forall>v c. advanced c (snd (f v c)) 0)"

lemma quiet_modify_shifts [intro]:
  "quiet_modify asl_value" "quiet_modify lsr_value" "quiet_modify rol_value" "quiet_modify ror_value"
  by (auto simp: quiet_modify_def asl_value_def lsr_value_def rol_value_def ror_value_def Let_def
           intro!: advanced_regs)

lemma quiet_modify_pure [intro]: "quiet_modify (\<lambda>v c. (g v, c))"
  by (simp add: quiet_modify_def)

lemma quiet_on_accumulator [intro]: "quiet_modify f \<Longrightarrow> quiet (on_accumulator f)"
  by (simp add: quiet_modify_def quiet_def on_accumulator_def split_beta)

lemma quiet_nz_after [intro]: "quiet (nz_after v)"
  by (auto simp: quiet_def nz_after_def intro!: advanced_regs)

subsection \<open>What an instruction body owes\<close>

text \<open>
  \<open>spends\<close> is the contract of a computation that costs \<open>k\<close> cycles; \<open>action_ok\<close> that of an
  instruction body entered after its opcode fetch: what it declares is one more than what it
  spends, and lies between 2 and 11.
\<close>

lemmas quiet_rules = quiet_lda quiet_ldx quiet_ldy quiet_lda_of quiet_ldx_of quiet_ldy_of
  quiet_logic quiet_bit_test quiet_lax quiet_adc quiet_sbc quiet_cmp_with quiet_imm quiet_arr
  quiet_xaa_lxa quiet_id quiet_upd_s quiet_flags quiet_on_accumulator quiet_nz_after

definition spends :: "('b \<Rightarrow> bool) \<Rightarrow> nat \<Rightarrow> cpu \<Rightarrow> cpu \<times> 'b \<Rightarrow> bool" where
  "spends ok k c r \<longleftrightarrow> advanced c (fst r) k \<and> ok (snd r)"

lemma spends_pair [simp]: "spends ok k c (c', b) \<longleftrightarrow> advanced c c' k \<and> ok b"
  by (simp add: spends_def)

definition mode_ok :: "'b bus_ops \<Rightarrow> ('b \<Rightarrow> bool) \<Rightarrow> nat \<Rightarrow> bool \<Rightarrow> 'b mode \<Rightarrow> bool" where
  "mode_ok B ok k px md \<longleftrightarrow> (\<forall>c b. ok b \<longrightarrow> wpo (md B c b) (\<lambda>(o', r).
     spends ok (k + of_bool (op_page_crossed o')) c r \<and> (\<not> px \<longrightarrow> \<not> op_page_crossed o')))"

definition rmw_mode_ok :: "'b bus_ops \<Rightarrow> ('b \<Rightarrow> bool) \<Rightarrow> nat \<Rightarrow> 'b rmw_mode \<Rightarrow> bool" where
  "rmw_mode_ok B ok k md \<longleftrightarrow> (\<forall>c b. ok b \<longrightarrow> wpo (md B c b) (\<lambda>(a, r). spends ok k c r))"

definition rmw_op_ok :: "'b bus_ops \<Rightarrow> ('b \<Rightarrow> bool) \<Rightarrow> 'b rmw_op \<Rightarrow> bool" where
  "rmw_op_ok B ok f \<longleftrightarrow> (\<forall>a c b. ok b \<longrightarrow> wpo (f B a c b) (spends ok 3 c))"

definition action_ok :: "'b bus_ops \<Rightarrow> ('b \<Rightarrow> bool) \<Rightarrow> 'b action \<Rightarrow> bool" where
  "action_ok B ok act \<longleftrightarrow> (\<forall>c b. ok b \<longrightarrow> wpo (act B c b) (\<lambda>(n, r).
     2 \<le> unat n \<and> unat n \<le> 11 \<and> spends ok (unat n - 1) c r))"

lemma mode_wp:
  "mode_ok B ok k px md \<Longrightarrow> ok b \<Longrightarrow>
   (\<And>o' c' b'. advanced c c' (k + of_bool (op_page_crossed o')) \<Longrightarrow> ok b' \<Longrightarrow>
      (\<not> px \<longrightarrow> \<not> op_page_crossed o') \<Longrightarrow> Q (o', c', b')) \<Longrightarrow>
   wpo (md B c b) Q"
  by (fastforce simp: mode_ok_def spends_def elim!: wpo_mono)

lemma rmw_mode_wp:
  "rmw_mode_ok B ok k md \<Longrightarrow> ok b \<Longrightarrow>
   (\<And>a c' b'. advanced c c' k \<Longrightarrow> ok b' \<Longrightarrow> Q (a, c', b')) \<Longrightarrow> wpo (md B c b) Q"
  by (fastforce simp: rmw_mode_ok_def spends_def elim!: wpo_mono)

lemma rmw_op_wp:
  "rmw_op_ok B ok f \<Longrightarrow> ok b \<Longrightarrow> advanced c0 c k \<Longrightarrow>
   (\<And>c' b'. advanced c0 c' (k + 3) \<Longrightarrow> ok b' \<Longrightarrow> Q (c', b')) \<Longrightarrow> wpo (f B a c b) Q"
  by (fastforce simp: rmw_op_ok_def spends_def elim!: wpo_mono dest: advanced_trans)

lemma action_okD: "action_ok B ok act \<Longrightarrow> ok b \<Longrightarrow> wpo (act B c b) (\<lambda>(n, c', b').
    2 \<le> unat n \<and> unat n \<le> 11 \<and> advanced c c' (unat n - 1) \<and> ok b')"
  by (auto simp: action_ok_def split_beta elim!: wpo_mono allE simp: spends_def)

lemma wpo_case_prod_mono: "wpo m P \<Longrightarrow> (\<And>x y. P (x, y) \<Longrightarrow> Q (x, y)) \<Longrightarrow> wpo m Q"
  by (auto elim: wpo_mono)

subsection \<open>Every opcode has a body\<close>

text \<open>The opcodes in the order of the table.\<close>

definition opcode_order :: "u8 list" where
  "opcode_order = [
     0xA9, 0xA5, 0xB5, 0xAD, 0xBD, 0xB9, 0xA1, 0xB1, 0xA2, 0xA6, 0xB6, 0xAE, 0xBE, 0xA0, 0xA4, 0xB4,
     0xAC, 0xBC, 0x85, 0x95, 0x8D, 0x9D, 0x99, 0x81, 0x91, 0x86, 0x96, 0x8E, 0x84, 0x94, 0x8C, 0xAA,
     0xA8, 0xBA, 0x8A, 0x9A, 0x98, 0x48, 0x08, 0x68, 0x28, 0x29, 0x25, 0x35, 0x2D, 0x3D, 0x39, 0x21,
     0x31, 0x09, 0x05, 0x15, 0x0D, 0x1D, 0x19, 0x01, 0x11, 0x49, 0x45, 0x55, 0x4D, 0x5D, 0x59, 0x41,
     0x51, 0x24, 0x2C, 0x69, 0x65, 0x75, 0x6D, 0x7D, 0x79, 0x61, 0x71, 0xE9, 0xEB, 0xE5, 0xF5, 0xED,
     0xFD, 0xF9, 0xE1, 0xF1, 0xC9, 0xC5, 0xD5, 0xCD, 0xDD, 0xD9, 0xC1, 0xD1, 0xE0, 0xE4, 0xEC, 0xC0,
     0xC4, 0xCC, 0xE6, 0xF6, 0xEE, 0xFE, 0xC6, 0xD6, 0xCE, 0xDE, 0xE8, 0xCA, 0xC8, 0x88, 0x0A, 0x06,
     0x16, 0x0E, 0x1E, 0x4A, 0x46, 0x56, 0x4E, 0x5E, 0x2A, 0x26, 0x36, 0x2E, 0x3E, 0x6A, 0x66, 0x76,
     0x6E, 0x7E, 0x10, 0x30, 0x50, 0x70, 0x90, 0xB0, 0xD0, 0xF0, 0x4C, 0x6C, 0x20, 0x60, 0x40, 0x00,
     0xEA, 0x18, 0x38, 0x58, 0x78, 0xB8, 0xD8, 0xF8, 0x1A, 0x3A, 0x5A, 0x7A, 0xDA, 0xFA, 0x80, 0x82,
     0x89, 0xC2, 0xE2, 0x04, 0x44, 0x64, 0x14, 0x34, 0x54, 0x74, 0xD4, 0xF4, 0x0C, 0x1C, 0x3C, 0x5C,
     0x7C, 0xDC, 0xFC, 0xA7, 0xB7, 0xAF, 0xBF, 0xA3, 0xB3, 0xAB, 0x87, 0x97, 0x8F, 0x83, 0xC7, 0xD7,
     0xCF, 0xDF, 0xDB, 0xC3, 0xD3, 0xE7, 0xF7, 0xEF, 0xFF, 0xFB, 0xE3, 0xF3, 0x07, 0x17, 0x0F, 0x1F,
     0x1B, 0x03, 0x13, 0x27, 0x37, 0x2F, 0x3F, 0x3B, 0x23, 0x33, 0x47, 0x57, 0x4F, 0x5F, 0x5B, 0x43,
     0x53, 0x67, 0x77, 0x6F, 0x7F, 0x7B, 0x63, 0x73, 0x0B, 0x2B, 0x4B, 0x6B, 0xCB, 0x8B, 0xBB, 0x9B,
     0x9F, 0x93, 0x9E, 0x9C, 0x02, 0x12, 0x22, 0x32, 0x42, 0x52, 0x62, 0x72, 0x92, 0xB2, 0xD2, 0xF2]"

definition opcode_ints :: "int list" where
  "opcode_ints = [
     0xA9, 0xA5, 0xB5, 0xAD, 0xBD, 0xB9, 0xA1, 0xB1, 0xA2, 0xA6, 0xB6, 0xAE, 0xBE, 0xA0, 0xA4, 0xB4,
     0xAC, 0xBC, 0x85, 0x95, 0x8D, 0x9D, 0x99, 0x81, 0x91, 0x86, 0x96, 0x8E, 0x84, 0x94, 0x8C, 0xAA,
     0xA8, 0xBA, 0x8A, 0x9A, 0x98, 0x48, 0x08, 0x68, 0x28, 0x29, 0x25, 0x35, 0x2D, 0x3D, 0x39, 0x21,
     0x31, 0x09, 0x05, 0x15, 0x0D, 0x1D, 0x19, 0x01, 0x11, 0x49, 0x45, 0x55, 0x4D, 0x5D, 0x59, 0x41,
     0x51, 0x24, 0x2C, 0x69, 0x65, 0x75, 0x6D, 0x7D, 0x79, 0x61, 0x71, 0xE9, 0xEB, 0xE5, 0xF5, 0xED,
     0xFD, 0xF9, 0xE1, 0xF1, 0xC9, 0xC5, 0xD5, 0xCD, 0xDD, 0xD9, 0xC1, 0xD1, 0xE0, 0xE4, 0xEC, 0xC0,
     0xC4, 0xCC, 0xE6, 0xF6, 0xEE, 0xFE, 0xC6, 0xD6, 0xCE, 0xDE, 0xE8, 0xCA, 0xC8, 0x88, 0x0A, 0x06,
     0x16, 0x0E, 0x1E, 0x4A, 0x46, 0x56, 0x4E, 0x5E, 0x2A, 0x26, 0x36, 0x2E, 0x3E, 0x6A, 0x66, 0x76,
     0x6E, 0x7E, 0x10, 0x30, 0x50, 0x70, 0x90, 0xB0, 0xD0, 0xF0, 0x4C, 0x6C, 0x20, 0x60, 0x40, 0x00,
     0xEA, 0x18, 0x38, 0x58, 0x78, 0xB8, 0xD8, 0xF8, 0x1A, 0x3A, 0x5A, 0x7A, 0xDA, 0xFA, 0x80, 0x82,
     0x89, 0xC2, 0xE2, 0x04, 0x44, 0x64, 0x14, 0x34, 0x54, 0x74, 0xD4, 0xF4, 0x0C, 0x1C, 0x3C, 0x5C,
     0x7C, 0xDC, 0xFC, 0xA7, 0xB7, 0xAF, 0xBF, 0xA3, 0xB3, 0xAB, 0x87, 0x97, 0x8F, 0x83, 0xC7, 0xD7,
     0xCF, 0xDF, 0xDB, 0xC3, 0xD3, 0xE7, 0xF7, 0xEF, 0xFF, 0xFB, 0xE3, 0xF3, 0x07, 0x17, 0x0F, 0x1F,
     0x1B, 0x03, 0x13, 0x27, 0x37, 0x2F, 0x3F, 0x3B, 0x23, 0x33, 0x47, 0x57, 0x4F, 0x5F, 0x5B, 0x43,
     0x53, 0x67, 0x77, 0x6F, 0x7F, 0x7B, 0x63, 0x73, 0x0B, 0x2B, 0x4B, 0x6B, 0xCB, 0x8B, 0xBB, 0x9B,
     0x9F, 0x93, 0x9E, 0x9C, 0x02, 0x12, 0x22, 0x32, 0x42, 0x52, 0x62, 0x72, 0x92, 0xB2, 0xD2, 0xF2]"

lemma opcode_keys: "map fst (opcode_table :: (u8 \<times> 'b action) list) = opcode_order"
  by (simp add: opcode_table_def table_defs opcode_order_def)

text \<open>One pass of a radix sort per bit shows that the keys are a permutation of all bytes.\<close>

definition radix_pass :: "nat \<Rightarrow> int list \<Rightarrow> int list" where
  "radix_pass n xs = filter (\<lambda>i. \<not> bit i n) xs @ filter (\<lambda>i. bit i n) xs"

lemma set_radix_pass [simp]: "set (radix_pass n xs) = set xs"
  by (auto simp: radix_pass_def)

lemma set_radix_passes: "set (fold radix_pass ns xs) = set xs"
  by (induction ns arbitrary: xs) simp_all

definition byte_ints :: "int list" where
  "byte_ints = [
     0, 1, 2, 3, 4, 5, 6, 7, 8, 9, 10, 11, 12, 13, 14, 15, 16, 17, 18, 19, 20, 21, 22, 23, 24,
     25, 26, 27, 28, 29, 30, 31, 32, 33, 34, 35, 36, 37, 38, 39, 40, 41, 42, 43, 44, 45, 46, 47,
     48, 49, 50, 51, 52, 53, 54, 55, 56, 57, 58, 59, 60, 61, 62, 63, 64, 65, 66, 67, 68, 69, 70,
     71, 72, 73, 74, 75, 76, 77, 78, 79, 80, 81, 82, 83, 84, 85, 86, 87, 88, 89, 90, 91, 92, 93,
     94, 95, 96, 97, 98, 99, 100, 101, 102, 103, 104, 105, 106, 107, 108, 109, 110, 111, 112,
     113, 114, 115, 116, 117, 118, 119, 120, 121, 122, 123, 124, 125, 126, 127, 128, 129, 130,
     131, 132, 133, 134, 135, 136, 137, 138, 139, 140, 141, 142, 143, 144, 145, 146, 147, 148,
     149, 150, 151, 152, 153, 154, 155, 156, 157, 158, 159, 160, 161, 162, 163, 164, 165, 166,
     167, 168, 169, 170, 171, 172, 173, 174, 175, 176, 177, 178, 179, 180, 181, 182, 183, 184,
     185, 186, 187, 188, 189, 190, 191, 192, 193, 194, 195, 196, 197, 198, 199, 200, 201, 202,
     203, 204, 205, 206, 207, 208, 209, 210, 211, 212, 213, 214, 215, 216, 217, 218, 219, 220,
     221, 222, 223, 224, 225, 226, 227, 228, 229, 230, 231, 232, 233, 234, 235, 236, 237, 238,
     239, 240, 241, 242, 243, 244, 245, 246, 247, 248, 249, 250, 251, 252, 253, 254, 255]"

lemma byte_ints_all: "byte_ints = [0..255]"
  by (simp add: byte_ints_def upto_rec1 [of 0] upto_rec1 [of 1])

lemma opcode_ints_sorted: "fold radix_pass [0, 1, 2, 3, 4, 5, 6, 7] opcode_ints = byte_ints"
  by code_simp

lemma opcode_order_all: "op \<in> set opcode_order"
proof -
  have bytes: "map uint opcode_order = opcode_ints"
    unfolding opcode_order_def opcode_ints_def by simp
  have "uint op \<in> set [0..255]"
    using uint_lt2p [of op] by simp
  then have "uint op \<in> uint ` set opcode_order"
    unfolding byte_ints_all [symmetric] opcode_ints_sorted [symmetric] set_radix_passes image_set bytes .
  then show ?thesis by (metis imageE word_uint_eqI)
qed

lemma opcode_table_total: "\<exists>act. map_of opcode_table op = Some (act :: 'b action)"
  using opcode_order_all [of op] opcode_keys
  by (metis dom_map_of_conv_image_fst domD image_set)

subsection \<open>The bus contract\<close>

locale cpu_bus =
  fixes B :: "'b bus_ops"
    and ok :: "'b \<Rightarrow> bool"
    and mu :: "'b \<Rightarrow> nat"
  assumes read_ok: "ok b \<Longrightarrow> wpo (bus_read B a b) (\<lambda>(v, b'). ok b')"
    and write_ok: "ok b \<Longrightarrow> wpo (bus_write B a v b) ok"
    and tick_ok: "ok b \<Longrightarrow> wpo (bus_tick_cycle B b) ok"
    and stall_progress: "ok b \<Longrightarrow> bus_rdy_stall B b \<Longrightarrow> bus_tick_cycle B b = Some b' \<Longrightarrow>
      bus_rdy_stall B b' \<Longrightarrow> mu b' < mu b"
begin

text \<open>What every cycle keeps, a stall keeps.\<close>

lemma stall_spin_inv:
  assumes tick: "\<And>b b'. ok b \<Longrightarrow> I b \<Longrightarrow> bus_tick_cycle B b = Some b' \<Longrightarrow> I b'"
  shows "ok b \<Longrightarrow> I b \<Longrightarrow> wpo (stall_spin B b) (\<lambda>b'. ok b' \<and> I b' \<and> \<not> bus_rdy_stall B b')"
proof (induction "mu b" arbitrary: b rule: less_induct)
  case less
  show ?case
  proof (cases "bus_rdy_stall B b")
    case False
    with less.prems show ?thesis by (simp add: stall_spin.simps [of B b])
  next
    case True
    from tick_ok [OF less.prems(1)] obtain b' where b': "bus_tick_cycle B b = Some b'" "ok b'"
      by (auto simp: wpo_def)
    then have I: "I b'" using tick less.prems by blast
    have "wpo (stall_spin B b') (\<lambda>b'. ok b' \<and> I b' \<and> \<not> bus_rdy_stall B b')"
    proof (cases "bus_rdy_stall B b'")
      case True
      with less.hyps [of b'] stall_progress [OF less.prems(1) \<open>bus_rdy_stall B b\<close> b'(1)] b'(2) I
      show ?thesis by simp
    next
      case False
      with b'(2) I show ?thesis by (simp add: stall_spin.simps [of B b'])
    qed
    with True b'(1) show ?thesis by (simp add: stall_spin.simps [of B b])
  qed
qed

lemma stall_spin_ok: "ok b \<Longrightarrow> wpo (stall_spin B b) (\<lambda>b'. ok b' \<and> \<not> bus_rdy_stall B b')"
  using stall_spin_inv [of "\<lambda>_. True"] by simp

lemma idle_tick_wp [wp_intro]:
  "ok b \<Longrightarrow> (\<And>b'. ok b' \<Longrightarrow> Q (ticked c, b')) \<Longrightarrow> wpo (idle_tick B c b) Q"
  unfolding idle_tick_def
  by (auto intro!: wpo_mono [OF stall_spin_ok] wpo_mono [OF tick_ok])

lemma read1_wp [wp_intro]:
  "ok b \<Longrightarrow> (\<And>v b'. ok b' \<Longrightarrow> Q (v, ticked c, b')) \<Longrightarrow> wpo (read1 B a c b) Q"
  unfolding read1_def by (auto intro!: idle_tick_wp wpo_mono [OF read_ok])

lemma write1_wp [wp_intro]:
  "ok b \<Longrightarrow> (\<And>b'. ok b' \<Longrightarrow> Q (ticked c, b')) \<Longrightarrow> wpo (write1 B a v c b) Q"
  unfolding write1_def by (auto intro!: idle_tick_wp wpo_mono [OF write_ok])

lemma implied_dummy_read_wp [wp_intro]:
  "ok b \<Longrightarrow> (\<And>b'. ok b' \<Longrightarrow> Q (ticked c, b')) \<Longrightarrow> wpo (implied_dummy_read B c b) Q"
  unfolding implied_dummy_read_def by (auto intro!: read1_wp)

lemma fetch_pc_wp [wp_intro]:
  "ok b \<Longrightarrow> (\<And>v b'. ok b' \<Longrightarrow> Q (v, (ticked c)\<lparr>cpu_pc := cpu_pc c + 1\<rparr>, b')) \<Longrightarrow>
   wpo (fetch_pc B c b) Q"
  unfolding fetch_pc_def by (auto intro!: read1_wp)

lemma push_wp [wp_intro]:
  "ok b \<Longrightarrow> (\<And>b'. ok b' \<Longrightarrow> Q ((ticked c)\<lparr>cpu_s := cpu_s c - 1\<rparr>, b')) \<Longrightarrow>
   wpo (push B v c b) Q"
  unfolding push_def by (auto intro!: write1_wp)

lemma pull_wp [wp_intro]:
  "ok b \<Longrightarrow> (\<And>v b'. ok b' \<Longrightarrow> Q (v, ticked (c\<lparr>cpu_s := cpu_s c + 1\<rparr>), b')) \<Longrightarrow>
   wpo (pull B c b) Q"
  unfolding pull_def by (auto intro!: read1_wp)

lemma fetch_pc_u16_spends:
  "ok b \<Longrightarrow> wpo (fetch_pc_u16 B c b) (\<lambda>(w, r). spends ok 2 c r)"
  unfolding fetch_pc_u16_def by (auto intro!: fetch_pc_wp adv_tick)

lemma fetch_pc_u16_wp [wp_intro]:
  "ok b \<Longrightarrow> (\<And>w c' b'. advanced c c' 2 \<Longrightarrow> ok b' \<Longrightarrow> Q (w, c', b')) \<Longrightarrow>
   wpo (fetch_pc_u16 B c b) Q"
  by (rule wpo_mono [OF fetch_pc_u16_spends]) auto

lemma zp_pointer_spends:
  "ok b \<Longrightarrow> wpo (zp_pointer B c b) (\<lambda>(w, r). spends ok 3 c r)"
  unfolding zp_pointer_def by (auto intro!: fetch_pc_wp read1_wp adv_tick)

lemma zp_pointer_wp [wp_intro]:
  "ok b \<Longrightarrow> (\<And>w c' b'. advanced c c' 3 \<Longrightarrow> ok b' \<Longrightarrow> Q (w, c', b')) \<Longrightarrow>
   wpo (zp_pointer B c b) Q"
  by (rule wpo_mono [OF zp_pointer_spends]) auto

lemma indexed_tail_wp:
  "ok b \<Longrightarrow> advanced c0 c k \<Longrightarrow> wpo (indexed_tail B base idx c b) (\<lambda>(o', r).
     spends ok (k + of_bool (op_page_crossed o')) c0 r)"
  unfolding indexed_tail_def Let_def by (auto intro!: read1_wp adv_tick)

lemma indexed_tail_rmw_wp:
  "ok b \<Longrightarrow> advanced c0 c k \<Longrightarrow>
   wpo (indexed_tail_rmw B base idx c b) (\<lambda>(a, r). spends ok (Suc k) c0 r)"
  unfolding indexed_tail_rmw_def Let_def by (auto intro!: read1_wp adv_tick)

subsubsection \<open>Addressing modes\<close>

lemma plain_modes:
  "mode_ok B ok 1 False addr_zp" "mode_ok B ok 2 False addr_zp_x"
  "mode_ok B ok 2 False addr_zp_y" "mode_ok B ok 2 False addr_abs"
  "mode_ok B ok 4 False addr_ind_x"
  unfolding mode_ok_def addr_zp_def addr_zp_x_def addr_zp_y_def addr_abs_def addr_ind_x_def
    plain_operand_def Let_def
  by (auto intro!: fetch_pc_wp fetch_pc_u16_wp read1_wp adv_tick simp: numeral_2_eq_2)

lemma indexed_modes:
  "mode_ok B ok 2 True addr_abs_x" "mode_ok B ok 2 True addr_abs_y"
  "mode_ok B ok 3 True addr_ind_y"
  unfolding mode_ok_def addr_abs_x_def addr_abs_y_def addr_ind_y_def
  by (auto simp del: add_2_eq_Suc intro!: fetch_pc_u16_wp zp_pointer_wp indexed_tail_wp)

lemma rmw_modes:
  "rmw_mode_ok B ok 3 addr_abs_x_rmw" "rmw_mode_ok B ok 3 addr_abs_y_rmw"
  "rmw_mode_ok B ok 4 addr_ind_y_rmw"
  unfolding rmw_mode_ok_def addr_abs_x_rmw_def addr_abs_y_rmw_def addr_ind_y_rmw_def
  using indexed_tail_rmw_wp [where k = 2] indexed_tail_rmw_wp [where k = 3]
  by (auto intro!: fetch_pc_u16_wp zp_pointer_wp)

lemma rmw_ok:
  assumes f: "quiet_modify f" and g: "\<And>v. quiet (g v)"
  shows "rmw_op_ok B ok (rmw f g)"
proof -
  have f': "advanced c (snd (f v c')) k" if "advanced c c' k" for c c' v k
    using quiet_after [of "\<lambda>c. snd (f v c)"] f that
    by (simp add: quiet_modify_def quiet_def)
  show ?thesis
    unfolding rmw_op_ok_def rmw_def Let_def split_beta
    by (auto intro!: read1_wp write1_wp quiet_after [OF g] adv_tick f')
qed

lemma rmw_ops:
  "rmw_op_ok B ok inc_addr" "rmw_op_ok B ok dec_addr" "rmw_op_ok B ok asl_addr"
  "rmw_op_ok B ok lsr_addr" "rmw_op_ok B ok rol_addr" "rmw_op_ok B ok ror_addr"
  "rmw_op_ok B ok dcp_addr" "rmw_op_ok B ok isc_addr" "rmw_op_ok B ok slo_addr"
  "rmw_op_ok B ok rla_addr" "rmw_op_ok B ok sre_addr" "rmw_op_ok B ok rra_addr"
  unfolding rmw_defs by (auto intro!: rmw_ok)

subsubsection \<open>Instruction bodies\<close>

lemma arm_imm_ok: "(\<And>v. quiet (f v)) \<Longrightarrow> action_ok B ok (arm_imm f 2)"
  unfolding action_ok_def arm_imm_def
  by (auto intro!: fetch_pc_wp quiet_after [of "f _"] adv_tick)

lemma arm_read_ok:
  assumes md: "mode_ok B ok k False md" and f: "\<And>v. quiet (f v)" and n: "unat n = k + 2" "k \<le> 6"
  shows "action_ok B ok (arm_read md f n)"
  using n(2) unfolding action_ok_def arm_read_def
  by (auto intro!: mode_wp [OF md] read1_wp quiet_after [OF f] adv_tick simp: n(1))

lemma arm_read_px_ok:
  assumes md: "mode_ok B ok k True md" and f: "\<And>v. quiet (f v)" and n: "unat n = k + 2" "k \<le> 6"
  shows "action_ok B ok (arm_read_px md f n)"
proof -
  have "unat (n + 1) = k + 3" using n by (simp add: unat_word_ariths)
  then show ?thesis
    using n(2) unfolding action_ok_def arm_read_px_def
    by (auto intro!: mode_wp [OF md] read1_wp quiet_after [OF f] adv_tick simp: n(1) of_bool_def)
qed

lemma arm_store_ok:
  assumes md: "mode_ok B ok k False md" and n: "unat n = k + 2" "k \<le> 6"
  shows "action_ok B ok (arm_store md reg n)"
  using n(2) unfolding action_ok_def arm_store_def
  by (auto intro!: mode_wp [OF md] write1_wp adv_tick simp: n(1))

lemma arm_store_dummy_ok:
  assumes md: "mode_ok B ok k True md" and n: "unat n = k + 3" "k \<le> 6"
  shows "action_ok B ok (arm_store_dummy md reg n)"
  unfolding action_ok_def arm_store_dummy_def
proof (intro allI impI, unfold wpo_bind, rule mode_wp [OF md])
  fix c b o' c' b'
  assume "ok b'" and adv: "advanced c c' (k + of_bool (op_page_crossed o'))"
  then show "wpo (case (o', c', b') of (o', c, b) \<Rightarrow>
       (if \<not> op_page_crossed o' then read1 B (op_addr o') c b \<bind> (\<lambda>(_, c, b). Some (c, b))
        else Some (c, b)) \<bind>
       (\<lambda>(c, b). write1 B (op_addr o') (reg c) c b \<bind> (\<lambda>(c, b). Some (n, c, b))))
     (\<lambda>(m, r). 2 \<le> unat m \<and> unat m \<le> 11 \<and> spends ok (unat m - 1) c r)"
    using n(2) by (cases "op_page_crossed o'") (auto intro!: read1_wp write1_wp adv_tick simp: n(1))
qed

lemma arm_implied_ok: "quiet f \<Longrightarrow> action_ok B ok (arm_implied f)"
  unfolding action_ok_def arm_implied_def
  by (auto intro!: implied_dummy_read_wp quiet_after [of f] adv_tick)

lemma arm_rmw_ok:
  assumes md: "mode_ok B ok k False md" and f: "rmw_op_ok B ok f" and n: "unat n = k + 4" "k \<le> 6"
  shows "action_ok B ok (arm_rmw md f n)"
proof -
  have "unat n - 1 = k + 3" "2 \<le> unat n" "unat n \<le> 11" using n by auto
  then show ?thesis
    unfolding action_ok_def arm_rmw_def
    by (auto intro!: mode_wp [OF md] rmw_op_wp [OF f])
qed

lemma arm_rmw_idx_ok:
  assumes md: "rmw_mode_ok B ok k md" and f: "rmw_op_ok B ok f" and n: "unat n = k + 4" "k \<le> 6"
  shows "action_ok B ok (arm_rmw_idx md f n)"
proof -
  have "unat n - 1 = k + 3" "2 \<le> unat n" "unat n \<le> 11" using n by auto
  then show ?thesis
    unfolding action_ok_def arm_rmw_idx_def
    by (auto intro!: rmw_mode_wp [OF md] rmw_op_wp [OF f])
qed

lemma arm_branch_ok: "action_ok B ok (arm_branch flag want)"
  unfolding action_ok_def arm_branch_def branch_def Let_def
  by (auto intro!: fetch_pc_wp read1_wp adv_tick)

lemma op_stack_ok:
  "action_ok B ok op_pha" "action_ok B ok op_php" "action_ok B ok op_pla" "action_ok B ok op_plp"
  unfolding action_ok_def op_pha_def op_php_def op_pla_def op_plp_def
  by (auto intro!: read1_wp push_wp pull_wp adv_tick quiet_after [OF quiet_lda] adv_p)

lemma op_jump_ok:
  "action_ok B ok op_jmp_abs" "action_ok B ok op_jmp_ind" "action_ok B ok op_jsr"
  "action_ok B ok op_rts" "action_ok B ok op_rti" "action_ok B ok op_brk"
  unfolding action_ok_def op_jmp_abs_def op_jmp_ind_def op_jsr_def op_rts_def op_rti_def op_brk_def
    read_u16_with_wrap_def pull_u16_def push_u16_def Let_def
  by (auto intro!: read1_wp fetch_pc_wp fetch_pc_u16_wp push_wp pull_wp adv_tick adv_p)

lemma sh_store_spends: "ok b \<Longrightarrow> wpo (sh_store B base i v c b) (spends ok 2 c)"
  unfolding sh_store_def Let_def by (auto intro!: read1_wp write1_wp adv_tick)

lemma sh_store_wp:
  "ok b \<Longrightarrow> advanced c0 c k \<Longrightarrow>
   (\<And>c' b'. advanced c0 c' (k + 2) \<Longrightarrow> ok b' \<Longrightarrow> Q (c', b')) \<Longrightarrow>
   wpo (sh_store B base i v c b) Q"
  by (rule wpo_mono [OF sh_store_spends]) (auto simp: spends_def dest: advanced_trans)

lemma op_unstable_ok:
  "action_ok B ok op_tas" "action_ok B ok op_sha_abs" "action_ok B ok op_sha_ind"
  "action_ok B ok op_shx" "action_ok B ok op_shy"
  unfolding action_ok_def op_tas_def op_sha_abs_def op_sha_ind_def op_shx_def op_shy_def Let_def
  by (auto intro!: fetch_pc_u16_wp zp_pointer_wp sh_store_wp)

lemma replicate_6: "replicate 6 x = [x, x, x, x, x, x]"
  by (simp add: eval_nat_numeral)

lemma op_jam_ok: "action_ok B ok op_jam"
  unfolding action_ok_def op_jam_def
  by (auto intro!: read1_wp adv_tick simp: replicate_6)

lemmas arm_rules = arm_imm_ok arm_read_ok arm_read_px_ok arm_store_ok arm_store_dummy_ok
  arm_implied_ok arm_rmw_ok arm_rmw_idx_ok arm_branch_ok op_stack_ok op_jump_ok op_unstable_ok
  op_jam_ok


subsubsection \<open>The whole table\<close>

lemma opcode_table_ok: "list_all (\<lambda>(op, act). action_ok B ok act) opcode_table"
  unfolding opcode_table_def table_defs list_all_append list.pred_inject split_conv append.simps
  by (intro conjI TrueI; (simp; fail)?; rule arm_rules;
      (rule plain_modes indexed_modes rmw_modes rmw_ops)?; (rule quiet_rules)?;
      (rule quiet_modify_shifts)?; (simp; fail)?)

lemma dispatch_wp:
  "ok b \<Longrightarrow> wpo (dispatch op B c b) (\<lambda>(n, c', b').
     2 \<le> unat n \<and> unat n \<le> 11 \<and> advanced c c' (unat n - 1) \<and> ok b')"
proof -
  assume b: "ok b"
  obtain act where act: "map_of opcode_table op = Some (act :: 'b action)"
    using opcode_table_total by blast
  then have "(op, act) \<in> set opcode_table"
    by (rule map_of_SomeD)
  with opcode_table_ok have "action_ok B ok act"
    by (auto simp: list_all_iff)
  then show ?thesis
    using action_okD [of B ok act b c] b act by (simp add: dispatch_def)
qed

text \<open>Padding never spends a cycle once an instruction has spent what it declares.\<close>

lemma pad_done: "cpu_emitted c = n \<Longrightarrow> pad_cycles B n c b = Some (c, b)"
  by (subst pad_cycles.simps) simp

lemma step_wp:
  assumes "ok b" "\<not> cpu_jammed c"
  shows "wpo (step B c b) (\<lambda>(n, c', b'). ok b' \<and> 2 \<le> unat n \<and> unat n \<le> 11 \<and>
    cpu_emitted c' = n \<and> cpu_cycles c' = cpu_cycles c + ucast n \<and>
    (p_ok (cpu_p c) \<longrightarrow> p_ok (cpu_p c')))"
proof -
  have fin: "ok b' \<and> 2 \<le> unat n \<and> unat n \<le> 11 \<and> cpu_emitted c' = n \<and>
      cpu_cycles c' = cpu_cycles c + ucast n \<and> (p_ok (cpu_p c) \<longrightarrow> p_ok (cpu_p c'))"
    if "2 \<le> unat n" "unat n \<le> 11" "ok b'" and
      adv: "advanced ((ticked (c\<lparr>cpu_emitted := 0\<rparr>))\<lparr>cpu_pc := pc\<rparr>) c' (unat n - 1)"
    for n :: u8 and c' b' pc
  proof -
    have e: "unat (cpu_emitted c') = unat n"
      using adv that(1,2) by (simp add: advanced_def unat_sat_add8 min_def split: if_splits)
    have "cpu_cycles c' = cpu_cycles c + (1 + of_nat (unat n - 1))"
      using adv by (simp add: advanced_def)
    also have "1 + of_nat (unat n - 1) = (of_nat (unat n) :: u64)"
      using that(1) by (metis Suc_diff_le diff_Suc_1 of_nat_Suc order_trans one_le_numeral)
    finally show ?thesis
      using that e adv by (simp add: word_unat_eq_iff advanced_def)
  qed
  have body: "wpo (dispatch op B c1 b1) (\<lambda>(n, c', b'). 2 \<le> unat n \<and> unat n \<le> 11 \<and>
      advanced c1 c' (unat n - 1) \<and> ok b')" if "ok b1" for op c1 b1
    by (rule dispatch_wp [OF that])
  show ?thesis
    unfolding step_def Let_def using assms
    apply simp
    apply (rule fetch_pc_wp, simp_all)
    apply (rule wpo_mono [OF body], simp)
    apply (clarsimp simp del: advanced_upd_iff)
    subgoal for b1 n c' b'
      using fin [of n b' "cpu_pc c + 1" c'] by (simp add: pad_done)
    done
qed

lemma idle_ticks_wp: "ok b \<Longrightarrow> wpo (idle_ticks k B c b) (\<lambda>r. ok (snd r) \<and> advanced c (fst r) k \<and>
    cpu_p (fst r) = cpu_p c \<and> cpu_s (fst r) = cpu_s c \<and> cpu_jammed (fst r) = cpu_jammed c)"
proof (induction k arbitrary: c b)
  case (Suc k)
  have adv: "advanced c c' (Suc k)" if "advanced (ticked c) c' k" for c'
    using advanced_trans [OF advanced_ticked that] by simp
  have "wpo (idle_ticks k B (ticked c) b') (\<lambda>r. ok (snd r) \<and> advanced c (fst r) (Suc k) \<and>
      cpu_p (fst r) = cpu_p c \<and> cpu_s (fst r) = cpu_s c \<and> cpu_jammed (fst r) = cpu_jammed c)"
    if "ok b'" for b'
    by (rule wpo_mono [OF Suc.IH [OF that]]) (auto intro: adv)
  then show ?case
    using Suc.prems by (auto intro!: idle_tick_wp)
qed simp

lemma read1_val:
  assumes "ok b"
    and "\<And>v b1 b'. ok b1 \<Longrightarrow> bus_read B a b1 = Some (v, b') \<Longrightarrow> ok b' \<Longrightarrow> Q (v, ticked c, b')"
  shows "wpo (read1 B a c b) Q"
proof -
  have r: "wpo (bus_read B a b1) (\<lambda>(v, b'). Q (v, ticked c, b'))" if "ok b1" for b1
    using read_ok [OF that, of a] assms(2) [OF that] by (auto simp: wpo_def)
  then show ?thesis
    unfolding read1_def using assms(1) by (auto intro!: idle_tick_wp wpo_mono [OF r])
qed

text \<open>The reset sequence loads the program counter from the vector, as the bus shows it.\<close>

lemma reset_wp:
  assumes "ok b"
  shows "wpo (reset B c b) (\<lambda>(c', b'). ok b' \<and> \<not> cpu_jammed c' \<and> cpu_s c' = cpu_s c - 3 \<and>
    cpu_p c' = p_insert (cpu_p c) INTERRUPT_DISABLE \<and> cpu_cycles c' = cpu_cycles c + 8 \<and>
    (\<exists>b1 b1' b2 b2' lo hi. ok b1 \<and> bus_read B 0xFFFC b1 = Some (lo, b1') \<and>
       ok b2 \<and> bus_read B 0xFFFD b2 = Some (hi, b2') \<and> cpu_pc c' = le16 lo hi))"
  unfolding reset_def Let_def
  apply simp
  apply (rule wpo_mono [OF idle_ticks_wp [OF assms]])
  apply (clarsimp simp: RESET_VECTOR_def)
  apply (rule read1_val, assumption)
  apply clarsimp
  apply (rule read1_val, assumption)
  apply (clarsimp simp: advanced_def)
  apply blast
  done

end

end
