(* ===== verification/Scheduler.thy ===== *)
theory Scheduler
  imports Bus Cpu_Exec
begin

text \<open>
  The lockstep scheduler (\<open>crates/rusty2600-core/src/scheduler.rs\<close>): the CPU's view of the bus,
  whose \<open>tick_cycle\<close> advances the TIA three color clocks, the RIOT and the cartridge one cycle;
  the seeded power-on state; reset and single instructions. The invariant \<open>sys_ok\<close> is the parts'
  invariants together with the equality of the scheduler's and the TIA's clock counters, and the
  theorems say that no program makes the machine panic or stall for ever.
\<close>

subsection \<open>The CPU's view\<close>

definition CPU_DIVISOR :: u8 where "CPU_DIVISOR = 3"

record ('f, 'c) cpu_view =
  vw_bus :: "('f, 'c) bus"
  vw_color_clocks :: u64

definition view_read ::
  "'f fops \<Rightarrow> 'c board_ops \<Rightarrow> u16 \<Rightarrow> ('f, 'c) cpu_view \<Rightarrow> (u8 \<times> ('f, 'c) cpu_view) option" where
  "view_read F C a v = do { (x, b) \<leftarrow> cpu_read F C a (vw_bus v); Some (x, v\<lparr>vw_bus := b\<rparr>) }"

definition view_write ::
  "'f fops \<Rightarrow> 'c board_ops \<Rightarrow> u16 \<Rightarrow> u8 \<Rightarrow> ('f, 'c) cpu_view \<Rightarrow> ('f, 'c) cpu_view option" where
  "view_write F C a x v = do { b \<leftarrow> cpu_write F C a x (vw_bus v); Some (v\<lparr>vw_bus := b\<rparr>) }"

definition view_tick_cycle :: "'c board_ops \<Rightarrow> ('f, 'c) cpu_view \<Rightarrow> ('f, 'c) cpu_view option" where
  "view_tick_cycle C v = do {
     let b = vw_bus v;
     t \<leftarrow> tick_color_clock (b_tia b);
     t \<leftarrow> tick_color_clock t;
     t \<leftarrow> tick_color_clock t;
     let b = b\<lparr>b_tia := t\<rparr>;
     let b = b\<lparr>b_riot := riot_tick (b_riot b)\<rparr>;
     b \<leftarrow> (case b_board b of
        Some c \<Rightarrow> do { c \<leftarrow> bd_tick C c; Some (b\<lparr>b_board := Some c\<rparr>) }
      | None \<Rightarrow> Some b);
     Some (v\<lparr>vw_bus := b, vw_color_clocks := vw_color_clocks v + ucast CPU_DIVISOR\<rparr>) }"

definition view_rdy_stall :: "('f, 'c) cpu_view \<Rightarrow> bool" where
  "view_rdy_stall v = tia_rdy_stall (b_tia (vw_bus v))"

definition view_ops :: "'f fops \<Rightarrow> 'c board_ops \<Rightarrow> ('f, 'c) cpu_view bus_ops" where
  "view_ops F C = \<lparr>bus_read = view_read F C, bus_write = view_write F C,
     bus_tick_cycle = view_tick_cycle C, bus_rdy_stall = view_rdy_stall\<rparr>"

subsection \<open>The machine\<close>

record ('f, 'c) system =
  sys_cpu :: cpu
  sys_bus :: "('f, 'c) bus"
  sys_phase :: u8
  sys_color_clocks :: u64

text \<open>\<open>SplitMix64::next_u64\<close>: the output and the next state.\<close>

definition next_u64 :: "u64 \<Rightarrow> u64 \<times> u64" where
  "next_u64 s = (let
     s = s + 0x9E3779B97F4A7C15;
     z = s;
     z = (z XOR drop_bit 30 z) * 0xBF58476D1CE4E5B9;
     z = (z XOR drop_bit 27 z) * 0x94D049BB133111EB
   in (z XOR drop_bit 31 z, s))"

definition to_le_bytes :: "u64 \<Rightarrow> u8 list" where
  "to_le_bytes w = map (\<lambda>i. ucast (drop_bit (8 * i) w)) [0..<8]"

text \<open>Filling \<open>n\<close> bytes in chunks of eight, the last one possibly shorter.\<close>

fun fill_chunks :: "nat \<Rightarrow> u64 \<Rightarrow> u8 list \<times> u64" where
  "fill_chunks n rng =
     (if n = 0 then ([], rng)
      else let
        (z, rng) = next_u64 rng;
        chunk = take (min 8 n) (to_le_bytes z);
        (rest, rng) = fill_chunks (n - 8) rng
      in (chunk @ rest, rng))"

declare fill_chunks.simps [simp del]

definition system_new :: "'f fops \<Rightarrow> u64 \<Rightarrow> ('f, 'c) system" where
  "system_new F seed = (let
     cpu = cpu_new;
     bus = bus_new F;
     (ram, rng) = fill_chunks (length (riot_ram (b_riot bus))) seed;
     bus = bus\<lparr>b_riot := (b_riot bus)\<lparr>riot_ram := ram\<rparr>\<rparr>;
     (z, rng) = next_u64 rng;
     axy = to_le_bytes z;
     cpu = cpu\<lparr>cpu_a := axy ! 0, cpu_x := axy ! 1, cpu_y := axy ! 2\<rparr>;
     p = seed mod ucast CPU_DIVISOR
   in \<lparr>sys_cpu = cpu, sys_bus = bus, sys_phase = (if p \<le> 0xFF then ucast p else 0),
       sys_color_clocks = 0\<rparr>)"

definition tick_one_color_clock :: "('f, 'c) system \<Rightarrow> ('f, 'c) system option" where
  "tick_one_color_clock s = do {
     t \<leftarrow> tick_color_clock (b_tia (sys_bus s));
     Some (s\<lparr>sys_bus := (sys_bus s)\<lparr>b_tia := t\<rparr>, sys_color_clocks := sys_color_clocks s + 1\<rparr>) }"

fun phase_ticks :: "nat \<Rightarrow> ('f, 'c) system \<Rightarrow> ('f, 'c) system option" where
  "phase_ticks 0 s = Some s"
| "phase_ticks (Suc n) s = do {
     t \<leftarrow> tick_color_clock (b_tia (sys_bus s));
     phase_ticks n (s\<lparr>sys_bus := (sys_bus s)\<lparr>b_tia := t\<rparr>, sys_color_clocks := sys_color_clocks s + 1\<rparr>) }"

definition the_view :: "('f, 'c) system \<Rightarrow> ('f, 'c) cpu_view" where
  "the_view s = \<lparr>vw_bus = sys_bus s, vw_color_clocks = sys_color_clocks s\<rparr>"

definition put_view :: "cpu \<Rightarrow> ('f, 'c) cpu_view \<Rightarrow> ('f, 'c) system \<Rightarrow> ('f, 'c) system" where
  "put_view c v s = s\<lparr>sys_cpu := c, sys_bus := vw_bus v, sys_color_clocks := vw_color_clocks v\<rparr>"

definition system_reset ::
  "'f fops \<Rightarrow> 'c board_ops \<Rightarrow> ('f, 'c) system \<Rightarrow> ('f, 'c) system option" where
  "system_reset F C s = do {
     s \<leftarrow> phase_ticks (unat (sys_phase s)) s;
     (c, v) \<leftarrow> reset (view_ops F C) (sys_cpu s) (the_view s);
     Some (put_view c v s) }"

definition step_instruction ::
  "'f fops \<Rightarrow> 'c board_ops \<Rightarrow> ('f, 'c) system \<Rightarrow> (u8 \<times> ('f, 'c) system) option" where
  "step_instruction F C s = do {
     (n, c, v) \<leftarrow> step (view_ops F C) (sys_cpu s) (the_view s);
     Some (n, put_view c v s) }"

text \<open>A driver's loop over \<open>step_instruction\<close>.\<close>

fun run_instructions ::
  "'f fops \<Rightarrow> 'c board_ops \<Rightarrow> nat \<Rightarrow> ('f, 'c) system \<Rightarrow> ('f, 'c) system option" where
  "run_instructions F C 0 s = Some s"
| "run_instructions F C (Suc k) s = do {
     (n, s) \<leftarrow> step_instruction F C s;
     run_instructions F C k s }"

subsection \<open>Safety of the view\<close>

text \<open>What an access leaves alone: the TIA's clock counter and whether a cartridge is plugged in.\<close>

definition bus_kept :: "('f, 'c) bus \<Rightarrow> ('f, 'c) bus \<Rightarrow> bool" where
  "bus_kept b b' \<longleftrightarrow> tia_paddle_clock (b_tia b') = tia_paddle_clock (b_tia b) \<and>
     (b_board b' = None \<longleftrightarrow> b_board b = None)"

lemma apply_oob_kept: "apply_oob_pokes C b = Some b' \<Longrightarrow> b_tia b' = b_tia b \<and> (b_board b' = None \<longleftrightarrow> b_board b = None)"
  by (auto simp: apply_oob_pokes_def split_beta Let_def bind_eq_Some_conv split: option.splits)

lemma cpu_read_kept: "cpu_read F C a b = Some (v, b') \<Longrightarrow> bus_kept b b'"
  by (auto simp: cpu_read_def read_cart_def read_console_def bus_kept_def split_beta Let_def
      bind_eq_Some_conv dest!: apply_oob_kept split: option.splits if_splits)

lemma cpu_write_kept: "cpu_write F C a v b = Some b' \<Longrightarrow> bus_kept b b'"
  by (auto simp: cpu_write_def write_cart_def write_console_def bus_kept_def split_beta Let_def
      bind_eq_Some_conv dest!: apply_oob_kept split: option.splits if_splits)

definition view_ok :: "('c \<Rightarrow> bool) \<Rightarrow> bool \<Rightarrow> ('f, 'c) cpu_view \<Rightarrow> bool" where
  "view_ok ok plugged v \<longleftrightarrow> bus_ok ok (vw_bus v) \<and>
     tia_paddle_clock (b_tia (vw_bus v)) = vw_color_clocks v \<and>
     (b_board (vw_bus v) \<noteq> None \<longleftrightarrow> plugged)"

definition view_mu :: "('f, 'c) cpu_view \<Rightarrow> nat" where
  "view_mu v = 228 - unat (tia_color_clock (b_tia (vw_bus v)))"

lemma three_ticks:
  assumes "tia_ok t"
  shows "wpo (do { t \<leftarrow> tick_color_clock t; t \<leftarrow> tick_color_clock t; tick_color_clock t })
    (\<lambda>t'. tia_ok t' \<and> tia_paddle_clock t' = tia_paddle_clock t + 3 \<and>
       (tia_rdy_stall t' \<longrightarrow> unat (tia_color_clock t') = unat (tia_color_clock t) + 3))"
proof -
  have one: "wpo (tick_color_clock t) (\<lambda>t'. tia_ok t' \<and> tia_paddle_clock t' = tia_paddle_clock t + 1 \<and>
       (tia_rdy_stall t' \<longrightarrow> tia_rdy_stall t \<and> unat (tia_color_clock t') = unat (tia_color_clock t) + 1))"
    if "tia_ok t" for t :: "'a tia"
  proof -
    have m: "(n + 1) mod 228 = n + 1" if "n < 228" "n \<noteq> 227" for n :: nat
      using that by simp
    have "unat (tia_color_clock t) < 228" using that by (simp add: tia_ok_def)
    then have "unat (tia_color_clock t') = unat (tia_color_clock t) + 1 \<and> tia_rdy_stall t"
      if "tia_rdy_stall t'" "ticked_to t t'" for t'
      using ticked_beam(1,3) [OF \<open>tia_ok t\<close> that(2)] that(1) m by simp
    then show ?thesis
      by (intro wpo_mono [OF tick_color_clock_ok [OF that]]) (auto simp: ticked_to_def Let_def)
  qed
  show ?thesis
    by (simp, rule wpo_mono [OF one [OF assms]], rule wpo_mono [OF one], simp, rule wpo_mono [OF one], simp)
      auto
qed

lemma three_ticks_wp:
  assumes "tia_ok t"
    and "\<And>t'. tia_ok t' \<Longrightarrow> tia_paddle_clock t' = tia_paddle_clock t + 3 \<Longrightarrow>
      (tia_rdy_stall t' \<longrightarrow> unat (tia_color_clock t') = unat (tia_color_clock t) + 3) \<Longrightarrow> Q t'"
  shows "wpo (tick_color_clock t) (\<lambda>t. wpo (tick_color_clock t) (\<lambda>t. wpo (tick_color_clock t) Q))"
  using wpo_mono [OF three_ticks [OF assms(1)], of Q] assms(2) by auto

context vcs_bus
begin

lemma view_tick_ok:
  assumes ok: "view_ok ok p v"
  shows "wpo (view_tick_cycle C v) (\<lambda>v'. view_ok ok p v' \<and>
    (view_rdy_stall v' \<longrightarrow> unat (tia_color_clock (b_tia (vw_bus v'))) = unat (tia_color_clock (b_tia (vw_bus v))) + 3))"
proof -
  have t: "tia_ok (b_tia (vw_bus v))" using ok by (simp add: view_ok_def bus_ok_def)
  show ?thesis
    using ok
    unfolding view_tick_cycle_def view_ok_def bus_ok_def Let_def view_rdy_stall_def CPU_DIVISOR_def
    by (auto split: option.split intro!: three_ticks_wp wpo_mono [OF tick_ok])
qed

lemma view_cpu_bus: "cpu_bus (view_ops F C) (view_ok ok p) view_mu"
proof unfold_locales
  fix v :: "('f, 'c) cpu_view" and v' a x
  assume ok: "view_ok ok p v"
  then have b: "bus_ok ok (vw_bus v)" by (simp add: view_ok_def)
  have "wpo (cpu_read F C a (vw_bus v)) (\<lambda>(y, b'). bus_ok ok b' \<and> bus_kept (vw_bus v) b')"
    using cpu_read_ok [OF b, of a] cpu_read_kept [of F C a "vw_bus v"] by (auto simp: wpo_def)
  then show "wpo (bus_read (view_ops F C) a v) (\<lambda>(y, v'). view_ok ok p v')"
    using ok by (auto simp: view_ops_def view_read_def view_ok_def bus_kept_def elim!: wpo_mono)
  have "wpo (cpu_write F C a x (vw_bus v)) (\<lambda>b'. bus_ok ok b' \<and> bus_kept (vw_bus v) b')"
    using cpu_write_ok [OF b, of a x] cpu_write_kept [of F C a x "vw_bus v"] by (auto simp: wpo_def)
  then show "wpo (bus_write (view_ops F C) a x v) (view_ok ok p)"
    using ok by (auto simp: view_ops_def view_write_def view_ok_def bus_kept_def elim!: wpo_mono)
  show "wpo (bus_tick_cycle (view_ops F C) v) (view_ok ok p)"
    using view_tick_ok [OF ok] by (auto simp: view_ops_def elim: wpo_mono)
  show "view_mu v' < view_mu v"
    if "bus_tick_cycle (view_ops F C) v = Some v'" "bus_rdy_stall (view_ops F C) v'"
  proof -
    have "unat (tia_color_clock (b_tia (vw_bus v'))) = unat (tia_color_clock (b_tia (vw_bus v))) + 3"
      using view_tick_ok [OF ok] that by (simp add: view_ops_def wpo_def)
    moreover have "unat (tia_color_clock (b_tia (vw_bus v))) < 228"
      using b by (simp add: bus_ok_def tia_ok_def)
    ultimately show ?thesis by (simp add: view_mu_def)
  qed
qed

end

sublocale vcs_bus \<subseteq> view: cpu_bus "view_ops F C" "view_ok ok p" view_mu for p
  by (rule view_cpu_bus)

subsection \<open>Safety of the machine\<close>

definition sys_ok :: "('c \<Rightarrow> bool) \<Rightarrow> ('f, 'c) system \<Rightarrow> bool" where
  "sys_ok ok s \<longleftrightarrow> bus_ok ok (sys_bus s) \<and> p_ok (cpu_p (sys_cpu s)) \<and> sys_phase s < 3 \<and>
     tia_paddle_clock (b_tia (sys_bus s)) = sys_color_clocks s"

text \<open>The value \<open>x\<close> is what a read of \<open>a\<close> can return while the cartridge stays within \<open>ok\<close>.\<close>

definition bus_shows ::
  "'f fops \<Rightarrow> 'c board_ops \<Rightarrow> ('c \<Rightarrow> bool) \<Rightarrow> bool \<Rightarrow> u16 \<Rightarrow> u8 \<Rightarrow> bool" where
  "bus_shows F C ok plugged a x \<longleftrightarrow>
     (\<exists>b b'. bus_ok ok b \<and> (b_board b \<noteq> None \<longleftrightarrow> plugged) \<and> cpu_read F C a b = Some (x, b'))"

context vcs_bus
begin

lemma step_instruction_ok:
  assumes "sys_ok ok s"
  shows "wpo (step_instruction F C s) (\<lambda>(n, s'). sys_ok ok s' \<and> sys_phase s' = sys_phase s \<and>
    (if cpu_jammed (sys_cpu s) then n = 0 \<and> s' = s
     else 2 \<le> unat n \<and> unat n \<le> 11 \<and> cpu_cycles (sys_cpu s') = cpu_cycles (sys_cpu s) + ucast n))"
proof (cases "cpu_jammed (sys_cpu s)")
  case True
  then show ?thesis
    using assms by (simp add: step_instruction_def step_def put_view_def the_view_def)
next
  case False
  have v: "view_ok ok (b_board (sys_bus s) \<noteq> None) (the_view s)"
    using assms by (simp add: view_ok_def sys_ok_def the_view_def)
  show ?thesis
    unfolding step_instruction_def
    using False assms
    by (auto simp: sys_ok_def view_ok_def put_view_def intro!: wpo_mono [OF view.step_wp [OF v False]])
qed

lemma run_instructions_ok: "sys_ok ok s \<Longrightarrow> wpo (run_instructions F C k s) (sys_ok ok)"
proof (induction k arbitrary: s)
  case (Suc k)
  then show ?case
    by (auto intro!: wpo_mono [OF step_instruction_ok])
qed simp

lemma tick_one_color_clock_ok: "sys_ok ok s \<Longrightarrow> wpo (tick_one_color_clock s) (sys_ok ok)"
  unfolding tick_one_color_clock_def
  by (auto simp: sys_ok_def bus_ok_def ticked_to_def Let_def intro!: wpo_mono [OF tick_color_clock_ok])

lemma phase_ticks_ok:
  "sys_ok ok s \<Longrightarrow> wpo (phase_ticks n s) (\<lambda>s'. sys_ok ok s' \<and> sys_cpu s' = sys_cpu s \<and> sys_phase s' = sys_phase s \<and>
     b_board (sys_bus s') = b_board (sys_bus s))"
proof (induction n arbitrary: s)
  case (Suc n)
  have t: "tia_ok (b_tia (sys_bus s))" using Suc.prems by (simp add: sys_ok_def bus_ok_def)
  have ok: "sys_ok ok (s\<lparr>sys_bus := (sys_bus s)\<lparr>b_tia := t'\<rparr>, sys_color_clocks := sys_color_clocks s + 1\<rparr>)"
    if "tia_ok t'" "ticked_to (b_tia (sys_bus s)) t'" for t'
    using Suc.prems that by (simp add: sys_ok_def bus_ok_def ticked_to_def Let_def)
  show ?case
    by (auto intro!: wpo_mono [OF tick_color_clock_ok [OF t]] wpo_mono [OF Suc.IH [OF ok]])
qed simp

lemma bus_shows_read:
  "view_ok ok p v \<Longrightarrow> bus_read (view_ops F C) a v = Some (x, v') \<Longrightarrow> bus_shows F C ok p a x"
  unfolding bus_shows_def
  by (auto simp: view_ops_def view_read_def view_ok_def bind_eq_Some_conv)

lemma view_reset:
  assumes "view_ok ok p v"
  shows "wpo (reset (view_ops F C) c v) (\<lambda>(c', v'). view_ok ok p v' \<and> \<not> cpu_jammed c' \<and>
    cpu_s c' = cpu_s c - 3 \<and> cpu_p c' = p_insert (cpu_p c) INTERRUPT_DISABLE \<and>
    (\<exists>lo hi. bus_shows F C ok p 0xFFFC lo \<and> bus_shows F C ok p 0xFFFD hi \<and> cpu_pc c' = le16 lo hi))"
  by (rule wpo_mono [OF view.reset_wp [OF assms]]) (simp add: split_beta, use bus_shows_read in blast)

lemma system_reset_ok:
  assumes "sys_ok ok s"
  shows "wpo (system_reset F C s) (\<lambda>s'. sys_ok ok s' \<and> \<not> cpu_jammed (sys_cpu s') \<and>
    cpu_s (sys_cpu s') = cpu_s (sys_cpu s) - 3 \<and>
    (\<exists>lo hi. bus_shows F C ok (b_board (sys_bus s) \<noteq> None) 0xFFFC lo \<and>
       bus_shows F C ok (b_board (sys_bus s) \<noteq> None) 0xFFFD hi \<and> cpu_pc (sys_cpu s') = le16 lo hi))"
proof -
  let ?p = "b_board (sys_bus s) \<noteq> None"
  have p: "p_ok (cpu_p (sys_cpu s))" using assms by (simp add: sys_ok_def)
  have v: "view_ok ok ?p (the_view s1)"
    if "sys_ok ok s1" "b_board (sys_bus s1) = b_board (sys_bus s)" for s1
    using that by (simp add: view_ok_def sys_ok_def the_view_def)
  show ?thesis
    unfolding system_reset_def
    by (auto simp: put_view_def intro!: wpo_mono [OF phase_ticks_ok [OF assms]] wpo_mono [OF view_reset [OF v]])
      (use p in \<open>auto simp: sys_ok_def view_ok_def\<close>)
qed

end

subsection \<open>Power-on\<close>

lemma length_to_le_bytes [simp]: "length (to_le_bytes w) = 8"
  by (simp add: to_le_bytes_def)

lemma length_fill_chunks [simp]: "length (fst (fill_chunks n rng)) = n"
proof (induction n rng rule: fill_chunks.induct)
  case (1 n rng)
  have "length (fst (fill_chunks (n - 8) (snd (next_u64 rng)))) = n - 8" if "n \<noteq> 0"
    using 1 [OF that, of "next_u64 rng" "fst (next_u64 rng)" "snd (next_u64 rng)"] by simp
  then show ?case
    by (subst fill_chunks.simps) (auto simp: Let_def split_beta)
qed

lemma fill_first_chunk:
  "8 \<le> n \<Longrightarrow> take 8 (fst (fill_chunks n rng)) = to_le_bytes (fst (next_u64 rng))"
  by (subst fill_chunks.simps) (simp add: Let_def split_beta)

lemma seed_mod: "seed mod ucast CPU_DIVISOR < (3 :: u64)" "seed mod ucast CPU_DIVISOR \<le> (0xFF :: u64)"
    "unat (seed mod ucast CPU_DIVISOR) = unat seed mod 3"
proof -
  show u: "unat (seed mod ucast CPU_DIVISOR) = unat seed mod 3"
    by (simp add: CPU_DIVISOR_def unat_mod)
  then have "unat (seed mod ucast CPU_DIVISOR) < 3" by simp
  then show "seed mod ucast CPU_DIVISOR < (3 :: u64)" "seed mod ucast CPU_DIVISOR \<le> (0xFF :: u64)"
    by (simp_all add: word_less_nat_alt word_le_nat_alt)
qed

lemma system_new_parts:
  "sys_phase (system_new F seed) = ucast (seed mod ucast CPU_DIVISOR)"
  "riot_ram (b_riot (sys_bus (system_new F seed))) = fst (fill_chunks 128 seed)"
  by (simp_all add: system_new_def Let_def split_beta seed_mod bus_new_def riot_new_def)

text \<open>
  Every seed gives a well-formed machine, with the power-on phase below three and equal to the
  seed modulo three.
\<close>

theorem system_new_ok:
  fixes F :: "'f fops" and ok :: "'c \<Rightarrow> bool"
  shows "sys_ok ok (system_new F seed) \<and> unat (sys_phase (system_new F seed :: ('f, 'c) system)) = unat seed mod 3"
proof -
  have ph: "unat (sys_phase (system_new F seed :: ('f, 'c) system)) = unat seed mod 3"
    using seed_mod [of seed]
    by (simp add: system_new_parts unsigned_ucast_eq take_bit_eq_mod word_le_nat_alt)
  then have "sys_phase (system_new F seed :: ('f, 'c) system) < 3"
    by (simp add: word_less_nat_alt)
  moreover have "bus_ok ok (sys_bus (system_new F seed :: ('f, 'c) system))"
    by (simp add: system_new_def Let_def split_beta bus_new_def riot_new_def bus_ok_def riot_ok_def
        write_log_default_def)
  moreover have "p_ok (cpu_p (sys_cpu (system_new F seed :: ('f, 'c) system)))"
    "tia_paddle_clock (b_tia (sys_bus (system_new F seed))) = sys_color_clocks (system_new F seed :: ('f, 'c) system)"
    by (simp_all add: system_new_def Let_def split_beta cpu_new_def p_ok_power_on bus_new_def tia_default_def)
  ultimately show ?thesis using ph by (simp add: sys_ok_def)
qed

text \<open>\<open>SplitMix64\<close> is a bijection of the seed: each xor-shift and each odd multiplier can be undone.\<close>

lemma xorshift_inj:
  assumes "x XOR drop_bit k x = y XOR drop_bit k (y :: u64)" "22 \<le> k"
  shows "x = y"
proof -
  let ?d = "x XOR y"
  have "bit (x XOR drop_bit k x) n = bit (y XOR drop_bit k y) n" for n
    using assms(1) by simp
  then have d: "?d = drop_bit k ?d"
    by (intro bit_word_eqI) (auto simp: bit_xor_iff bit_drop_bit_eq)
  then have "?d = drop_bit k (drop_bit k (drop_bit k ?d))"
    by (simp only: d [symmetric])
  also have "\<dots> = drop_bit (k + k + k) ?d"
    by (simp add: add.assoc)
  also have "\<dots> = 0"
    using assms(2) by (intro bit_word_eqI) (auto simp: bit_drop_bit_eq dest: bit_imp_le_length)
  finally have z: "?d = 0" .
  show ?thesis
  proof (rule bit_word_eqI)
    fix n show "bit x n = bit y n" using arg_cong [OF z, of "\<lambda>w. bit w n"] by (simp add: bit_xor_iff)
  qed
qed

lemma mult_inj:
  assumes "i * c = (1 :: u64)" "x * c = y * c"
  shows "x = y"
proof -
  have "x = i * (x * c)" by (metis assms(1) mult.left_commute mult.right_neutral)
  also have "\<dots> = i * (y * c)" by (simp only: assms(2))
  also have "\<dots> = y" by (metis assms(1) mult.left_commute mult.right_neutral)
  finally show ?thesis .
qed

lemma mult_inverses:
  "0x319642B2D24D8EC3 * 0x94D049BB133111EB = (1 :: u64)"
  "0x96DE1B173F119089 * 0xBF58476D1CE4E5B9 = (1 :: u64)"
  by simp_all

lemma next_u64_inj: "fst (next_u64 s) = fst (next_u64 s') \<Longrightarrow> s = s'"
  unfolding next_u64_def Let_def fst_conv
  by (auto dest!: xorshift_inj mult_inj [of "0x319642B2D24D8EC3" "0x94D049BB133111EB", OF mult_inverses(1)]
      mult_inj [of "0x96DE1B173F119089" "0xBF58476D1CE4E5B9", OF mult_inverses(2)])

lemma to_le_bytes_inj: "to_le_bytes v = to_le_bytes w \<Longrightarrow> v = w"
proof (rule bit_word_eqI)
  fix n assume eq: "to_le_bytes v = to_le_bytes w" and n: "n < LENGTH(64)"
  have "to_le_bytes v ! (n div 8) = to_le_bytes w ! (n div 8)" using eq by simp
  then have "bit (ucast (drop_bit (8 * (n div 8)) v) :: u8) (n mod 8) = bit (ucast (drop_bit (8 * (n div 8)) w) :: u8) (n mod 8)"
    using n by (simp add: to_le_bytes_def nth_upt [of 0 "n div 8" 8] less_mult_imp_div_less del: upt_Suc)
  then show "bit v n = bit w n"
    using n by (simp add: bit_ucast_iff bit_drop_bit_eq)
qed

text \<open>
  Different seeds power the machine up with different RAM: the first eight bytes already
  determine the seed.
\<close>

theorem seed_determines_ram:
  assumes "take 8 (riot_ram (b_riot (sys_bus (system_new F seed)))) = take 8 (riot_ram (b_riot (sys_bus (system_new F seed'))))"
  shows "seed = seed'"
proof -
  have f: "take 8 (fst (fill_chunks 128 r)) = to_le_bytes (fst (next_u64 r))" for r
    by (rule fill_first_chunk) simp
  have "to_le_bytes (fst (next_u64 seed)) = to_le_bytes (fst (next_u64 seed'))"
    using assms unfolding system_new_parts f .
  then show ?thesis by (rule next_u64_inj [OF to_le_bytes_inj])
qed

lemma seed_determines_ram_witness:
  "\<forall>(F :: 'f fops).
   take 8 (riot_ram (b_riot (sys_bus (system_new F 1)))) \<noteq> take 8 (riot_ram (b_riot (sys_bus (system_new F 2))))"
proof (intro allI)
  fix F :: "'f fops"
  show "take 8 (riot_ram (b_riot (sys_bus (system_new F 1)))) \<noteq> take 8 (riot_ram (b_riot (sys_bus (system_new F 2))))"
    using seed_determines_ram [of F 1 2] by auto
qed

lemma sys_ok_clocks: "sys_ok ok s \<Longrightarrow> tia_paddle_clock (b_tia (sys_bus s)) = sys_color_clocks s"
  by (simp add: sys_ok_def)

text \<open>Plugging a cartridge into the console, as the drivers do before a reset.\<close>

definition plug :: "'c \<Rightarrow> ('f, 'c) system \<Rightarrow> ('f, 'c) system" where
  "plug c s = s\<lparr>sys_bus := (sys_bus s)\<lparr>b_board := Some c\<rparr>\<rparr>"

lemma sys_ok_plug: "sys_ok (\<lambda>_. False) s \<Longrightarrow> ok c \<Longrightarrow> sys_ok ok (plug c s)"
  by (simp add: sys_ok_def plug_def bus_ok_def)

text \<open>
  From power-on with any seed, any of the 23 modelled kinds of cartridge and any ROM contents,
  reset returns, and so does every number of instructions after it: no program makes the machine
  panic or stall for ever, and the machine's invariant holds throughout.
\<close>

theorem machine_never_stuck:
  assumes "plain_cart_ok c"
  shows "wpo (do { s \<leftarrow> system_reset F cart_ops (plug c (system_new F seed));
                   run_instructions F cart_ops k s })
    (\<lambda>s. sys_ok plain_cart_ok s)"
proof -
  have "sys_ok plain_cart_ok (plug c (system_new F seed))"
    using assms system_new_ok [of "\<lambda>_. False" F seed] by (intro sys_ok_plug) auto
  then show ?thesis
    by (auto intro!: wpo_mono [OF vcs.system_reset_ok] vcs.run_instructions_ok)
qed

lemma machine_never_stuck_witness:
  "\<forall>(F :: 'f fops).
   wpo (do { s \<leftarrow> system_reset F cart_ops (plug (BankF8 demo_f8) (system_new F 42));
             run_instructions F cart_ops 1000 s }) (\<lambda>s. sys_ok plain_cart_ok s)"
proof (intro allI)
  fix F :: "'f fops"
  show "wpo (do { s \<leftarrow> system_reset F cart_ops (plug (BankF8 demo_f8) (system_new F 42));
             run_instructions F cart_ops 1000 s }) (\<lambda>s. sys_ok plain_cart_ok s)"
    using machine_never_stuck [of "BankF8 demo_f8" F 42 1000] demo_f8_ok by simp
qed

text \<open>
  C2: on a machine without a cartridge or with any cartridge but the two with an ARM coprocessor (DPC+ and CDF, where a
  write can panic), one instruction returns. On a running CPU it takes between two and eleven cycles by its own count, and
  the count is what the cycle counter advances by; a jammed CPU reports zero and leaves the whole
  machine as it is.
\<close>

theorem instruction_cycles:
  assumes "sys_ok plain_cart_ok s"
  shows "wpo (step_instruction F cart_ops s) (\<lambda>(n, s').
    if cpu_jammed (sys_cpu s) then n = 0 \<and> s' = s
    else 2 \<le> unat n \<and> unat n \<le> 11 \<and> cpu_cycles (sys_cpu s') = cpu_cycles (sys_cpu s) + ucast n)"
  using vcs.step_instruction_ok [OF assms] by (rule wpo_mono) auto

lemma instruction_cycles_witness:
  "\<forall>(F :: 'f fops).
   wpo (step_instruction F cart_ops (plug (BankF8 demo_f8) (system_new F 42))) (\<lambda>(n, s').
     2 \<le> unat n \<and> unat n \<le> 11)"
proof (intro allI)
  fix F :: "'f fops"
  show "wpo (step_instruction F cart_ops (plug (BankF8 demo_f8) (system_new F 42))) (\<lambda>(n, s').
     2 \<le> unat n \<and> unat n \<le> 11)"
  proof -
    let ?s = "plug (BankF8 demo_f8) (system_new F 42) :: ('f, cartridge) system"
    have "sys_ok plain_cart_ok ?s"
      using demo_f8_ok system_new_ok [of "\<lambda>_. False" F 42] by (intro sys_ok_plug) auto
    moreover have "\<not> cpu_jammed (sys_cpu ?s)"
      by (simp add: plug_def system_new_def Let_def split_beta cpu_new_def)
    ultimately show ?thesis
      using wpo_mono [OF instruction_cycles [of ?s F]] by auto
  qed
qed

text \<open>
  C35: on a machine without a cartridge or with any cartridge but the two with an ARM coprocessor, the scheduler's
  color-clock count and the TIA's own counter, which the paddle circuit measures time with, start equal (the machine's invariant
  asks for it) and stay equal over a color clock, a reset and a run of any length, all of which return, wrap-around included.
\<close>

theorem clocks_in_lockstep:
  assumes "sys_ok plain_cart_ok s"
  shows "wpo (do { s \<leftarrow> tick_one_color_clock s; s \<leftarrow> system_reset F cart_ops s;
                   run_instructions F cart_ops k s })
    (\<lambda>s. tia_paddle_clock (b_tia (sys_bus s)) = sys_color_clocks s)"
  using assms
  by (auto intro!: wpo_mono [OF vcs.tick_one_color_clock_ok] wpo_mono [OF vcs.system_reset_ok]
      wpo_mono [OF vcs.run_instructions_ok] intro: sys_ok_clocks)

lemma clocks_in_lockstep_witness:
  "\<forall>(F :: 'f fops).
   wpo (do { s \<leftarrow> tick_one_color_clock (system_new F 5); s \<leftarrow> system_reset F cart_ops s;
             run_instructions F cart_ops 3 s })
    (\<lambda>s. tia_paddle_clock (b_tia (sys_bus s)) = sys_color_clocks s)"
proof (intro allI)
  fix F :: "'f fops"
  show "wpo (do { s \<leftarrow> tick_one_color_clock (system_new F 5); s \<leftarrow> system_reset F cart_ops s;
             run_instructions F cart_ops 3 s })
    (\<lambda>s. tia_paddle_clock (b_tia (sys_bus s)) = sys_color_clocks s)"
  proof -
    let ?s = "system_new F 5 :: ('f, cartridge) system"
    have "sys_ok plain_cart_ok ?s" using system_new_ok by blast
    then show ?thesis by (rule clocks_in_lockstep)
  qed
qed

text \<open>
  Resetting a console with a 4K cartridge starts the program at the address in the last bytes
  of the ROM, \<open>0xFFC\<close> and \<open>0xFFD\<close>.
\<close>

theorem reset_vector_4k:
  assumes "sys_ok (\<lambda>c. c = Rom4K rom) s" "b_board (sys_bus s) \<noteq> None" "length rom = 0x1000"
  shows "wpo (system_reset F cart_ops s) (\<lambda>s'.
    cpu_pc (sys_cpu s') = le16 (rom ! 0xFFC) (rom ! 0xFFD) \<and> \<not> cpu_jammed (sys_cpu s'))"
proof -
  let ?ok = "\<lambda>c. c = Rom4K rom"
  have b: "vcs_bus cart_ops ?ok"
    unfolding vcs_bus_def
    by unfold_locales (use assms(3) in \<open>auto simp: cart_ops_def rom4k_def rom4k_read_def rom_write_def cart_take_oob_pokes_def\<close>)
  have shows_rom: "x = rom ! i"
    if "bus_shows F cart_ops ?ok True a x" "unat (a AND 0x0FFF) = i" "a AND 0x1000 \<noteq> 0" for a x i
    using that assms(3)
    by (auto simp: bus_shows_def bus_ok_def cpu_read_def read_cart_def cart_ops_def rom4k_def
        rom4k_read_def bind_eq_Some_conv nth_chk_eq_Some split: option.splits)
  show ?thesis
    using vcs_bus.system_reset_ok [OF b assms(1), of F] assms(2) shows_rom [of "0xFFFC"] shows_rom [of "0xFFFD"]
    by (auto elim!: wpo_mono)
qed

lemma reset_vector_4k_witness:
  "\<forall>(F :: 'f fops).
   wpo (system_reset F cart_ops (plug (Rom4K (replicate 0xFFC 0xEA @ [0x34, 0xF2, 0, 0])) (system_new F 0)))
    (\<lambda>s'. cpu_pc (sys_cpu s') = le16 0x34 0xF2)"
proof (intro allI)
  fix F :: "'f fops"
  show "wpo (system_reset F cart_ops (plug (Rom4K (replicate 0xFFC 0xEA @ [0x34, 0xF2, 0, 0])) (system_new F 0)))
    (\<lambda>s'. cpu_pc (sys_cpu s') = le16 0x34 0xF2)"
  proof -
    let ?rom = "replicate 0xFFC 0xEA @ [0x34, 0xF2, 0, 0] :: u8 list"
    let ?s = "plug (Rom4K ?rom) (system_new F 0) :: ('f, cartridge) system"
    have "sys_ok (\<lambda>c. c = Rom4K ?rom) ?s"
      using system_new_ok [of "\<lambda>_. False" F 0] by (intro sys_ok_plug) auto
    moreover have "b_board (sys_bus ?s) \<noteq> None" by (simp add: plug_def)
    ultimately show ?thesis
      using wpo_mono [OF reset_vector_4k [of ?rom ?s F]] by (auto simp: nth_append)
  qed
qed

end
