(* ===== verification/Cycles.thy ===== *)
theory Cycles
  imports Scheduler
begin

text \<open>
  The cycle counts of the 6502 family as a table, stated independently of the code (sixteen rows of
  sixteen opcodes, as the data sheets print it), and the proof that \<open>dispatch\<close> agrees with it on
  all 256 opcodes: an instruction takes its nominal count, plus one when an indexed read crosses a
  page, plus one or two when a branch is taken. The twelve opcodes that lock the processor up have
  no count on the chip; the code reports eleven.
\<close>

definition nominal_cycles :: "u8 \<Rightarrow> nat" where
  "nominal_cycles op = ([
     [ 7, 6, 11, 8, 3, 3, 5, 5, 3, 2, 2, 2, 4, 4, 6, 6],
     [ 2, 5, 11, 8, 4, 4, 6, 6, 2, 4, 2, 7, 4, 4, 7, 7],
     [ 6, 6, 11, 8, 3, 3, 5, 5, 4, 2, 2, 2, 4, 4, 6, 6],
     [ 2, 5, 11, 8, 4, 4, 6, 6, 2, 4, 2, 7, 4, 4, 7, 7],
     [ 6, 6, 11, 8, 3, 3, 5, 5, 3, 2, 2, 2, 3, 4, 6, 6],
     [ 2, 5, 11, 8, 4, 4, 6, 6, 2, 4, 2, 7, 4, 4, 7, 7],
     [ 6, 6, 11, 8, 3, 3, 5, 5, 4, 2, 2, 2, 5, 4, 6, 6],
     [ 2, 5, 11, 8, 4, 4, 6, 6, 2, 4, 2, 7, 4, 4, 7, 7],
     [ 2, 6,  2, 6, 3, 3, 3, 3, 2, 2, 2, 2, 4, 4, 4, 4],
     [ 2, 6, 11, 6, 4, 4, 4, 4, 2, 5, 2, 5, 5, 5, 5, 5],
     [ 2, 6,  2, 6, 3, 3, 3, 3, 2, 2, 2, 2, 4, 4, 4, 4],
     [ 2, 5, 11, 5, 4, 4, 4, 4, 2, 4, 2, 4, 4, 4, 4, 4],
     [ 2, 6,  2, 8, 3, 3, 5, 5, 2, 2, 2, 2, 4, 4, 6, 6],
     [ 2, 5, 11, 8, 4, 4, 6, 6, 2, 4, 2, 7, 4, 4, 7, 7],
     [ 2, 6,  2, 8, 3, 3, 5, 5, 2, 2, 2, 2, 4, 4, 6, 6],
     [ 2, 5, 11, 8, 4, 4, 6, 6, 2, 4, 2, 7, 4, 4, 7, 7]]
     ! unat (drop_bit 4 op)) ! unat (op AND 0x0F)"

definition page_penalty :: "u8 \<Rightarrow> bool" where
  "page_penalty op \<longleftrightarrow> op \<in> {0x11, 0x19, 0x1C, 0x1D, 0x31, 0x39, 0x3C, 0x3D, 0x51, 0x59, 0x5C, 0x5D,
     0x71, 0x79, 0x7C, 0x7D, 0xB1, 0xB3, 0xB9, 0xBB, 0xBC, 0xBD, 0xBE, 0xBF, 0xD1, 0xD9, 0xDC, 0xDD,
     0xF1, 0xF9, 0xFC, 0xFD}"

text \<open>
  The base address of an indexed operand as its mode reads it, and the register that is added, told from the bits of the opcode.
\<close>

definition indirect_y :: "u8 \<Rightarrow> bool" where
  "indirect_y op \<longleftrightarrow> op AND 0x1C = 0x10"

definition absolute_y :: "u8 \<Rightarrow> bool" where
  "absolute_y op \<longleftrightarrow> op AND 0x1C = 0x18 \<or> op = 0xBE \<or> op = 0xBF"

definition operand_base :: "u8 \<Rightarrow> 'b bus_ops \<Rightarrow> cpu \<Rightarrow> 'b \<Rightarrow> (u16 \<times> cpu \<times> 'b) option" where
  "operand_base op = (if indirect_y op then zp_pointer else fetch_pc_u16)"

definition operand_index :: "u8 \<Rightarrow> cpu \<Rightarrow> u8" where
  "operand_index op c = (if indirect_y op \<or> absolute_y op then cpu_y c else cpu_x c)"

text \<open>A branch tests the flag its two upper bits select against bit 5.\<close>

definition is_branch :: "u8 \<Rightarrow> bool" where
  "is_branch op \<longleftrightarrow> op AND 0x1F = 0x10"

definition branch_taken :: "u8 \<Rightarrow> status \<Rightarrow> bool" where
  "branch_taken op p \<longleftrightarrow>
     p_contains p ([NEGATIVE, OVERFLOW, CARRY, ZERO] ! unat (drop_bit 6 op)) = (op AND 0x20 \<noteq> 0)"

text \<open>
  The exact count of an instruction that starts with its operand still to be read: for a branch, two, three where it is taken,
  and four where it is taken to another page; for an indexed read, one more than the table where
  adding the index leaves the page of the base; and for everything else the table's.
\<close>

definition exact_count :: "u8 \<Rightarrow> 'b bus_ops \<Rightarrow> cpu \<Rightarrow> 'b \<Rightarrow> nat \<Rightarrow> bool" where
  "exact_count op B c b n \<longleftrightarrow>
     (if is_branch op then (case fetch_pc B c b of
        None \<Rightarrow> False
      | Some (off, c1, b1) \<Rightarrow> n = (if \<not> branch_taken op (cpu_p c) then 2
          else if page_differs (cpu_pc c1) (cpu_pc c1 + scast off) then 4 else 3))
      else if page_penalty op then (case operand_base op B c b of
        None \<Rightarrow> False
      | Some (base, c1, b1) \<Rightarrow>
          n = nominal_cycles op + of_bool (page_differs base (base + ucast (operand_index op c))))
      else n = nominal_cycles op)"

subsection \<open>Instruction bodies\<close>

definition takes :: "'b action \<Rightarrow> nat \<Rightarrow> bool" where
  "takes act n \<longleftrightarrow> (\<forall>B c b m c' b'. act B c b = Some (m, c', b') \<longrightarrow> unat m = n)"

lemma arm_takes:
  "unat m = n \<Longrightarrow> takes (arm_imm f m) n"
  "unat m = n \<Longrightarrow> takes (arm_read md f m) n"
  "unat m = n \<Longrightarrow> takes (arm_store md r m) n"
  "unat m = n \<Longrightarrow> takes (arm_store_dummy md r m) n"
  "n = 2 \<Longrightarrow> takes (arm_implied g) n"
  "unat m = n \<Longrightarrow> takes (arm_rmw md h m) n"
  "unat m = n \<Longrightarrow> takes (arm_rmw_idx md' h m) n"
  by (auto simp: takes_def arm_imm_def arm_read_def arm_store_def arm_store_dummy_def arm_implied_def
      arm_rmw_def arm_rmw_idx_def bind_eq_Some_conv)

lemma op_takes:
  "n = 3 \<Longrightarrow> takes op_pha n" "n = 3 \<Longrightarrow> takes op_php n" "n = 4 \<Longrightarrow> takes op_pla n"
  "n = 4 \<Longrightarrow> takes op_plp n" "n = 3 \<Longrightarrow> takes op_jmp_abs n" "n = 5 \<Longrightarrow> takes op_jmp_ind n"
  "n = 6 \<Longrightarrow> takes op_jsr n" "n = 6 \<Longrightarrow> takes op_rts n" "n = 6 \<Longrightarrow> takes op_rti n"
  "n = 7 \<Longrightarrow> takes op_brk n" "n = 5 \<Longrightarrow> takes op_tas n" "n = 5 \<Longrightarrow> takes op_sha_abs n"
  "n = 6 \<Longrightarrow> takes op_sha_ind n" "n = 5 \<Longrightarrow> takes op_shx n" "n = 5 \<Longrightarrow> takes op_shy n"
  "n = 11 \<Longrightarrow> takes op_jam n"
  by (auto simp: takes_def op_pha_def op_php_def op_pla_def op_plp_def op_jmp_abs_def op_jmp_ind_def
      op_jsr_def op_rts_def op_rti_def op_brk_def op_tas_def op_sha_abs_def op_sha_ind_def op_shx_def
      op_shy_def op_jam_def bind_eq_Some_conv Let_def)

definition counts :: "u8 \<Rightarrow> 'b action \<Rightarrow> bool" where
  "counts op act \<longleftrightarrow> (\<forall>B c b m c' b'. act B c b = Some (m, c', b') \<longrightarrow> exact_count op B c b (unat m))"

lemma counts_plain: "\<not> is_branch op \<Longrightarrow> \<not> page_penalty op \<Longrightarrow> takes act (nominal_cycles op) \<Longrightarrow> counts op act"
  by (simp add: counts_def takes_def exact_count_def)

text \<open>Reading an operand changes neither the index registers nor the flags.\<close>

lemma read1_regs: "read1 B a c b = Some (v, c', b') \<Longrightarrow>
    cpu_x c' = cpu_x c \<and> cpu_y c' = cpu_y c \<and> cpu_p c' = cpu_p c \<and> cpu_pc c' = cpu_pc c"
  by (auto simp: read1_def idle_tick_def ticked_def bind_eq_Some_conv)

lemma fetch_pc_regs: "fetch_pc B c b = Some (v, c', b') \<Longrightarrow>
    cpu_x c' = cpu_x c \<and> cpu_y c' = cpu_y c \<and> cpu_p c' = cpu_p c"
  by (auto simp: fetch_pc_def bind_eq_Some_conv dest!: read1_regs)

lemma base_regs:
  "fetch_pc_u16 B c b = Some (w, c', b') \<Longrightarrow> cpu_x c' = cpu_x c \<and> cpu_y c' = cpu_y c"
  "zp_pointer B c b = Some (w, c', b') \<Longrightarrow> cpu_x c' = cpu_x c \<and> cpu_y c' = cpu_y c"
  by (auto simp: fetch_pc_u16_def zp_pointer_def bind_eq_Some_conv dest!: read1_regs fetch_pc_regs)

lemma indexed_tail_crossed:
  "indexed_tail B base i c b = Some (o', c', b') \<Longrightarrow> op_page_crossed o' = page_differs base (base + ucast i)"
  by (auto simp: indexed_tail_def bind_eq_Some_conv Let_def)

lemma counts_px_mode:
  assumes md: "\<And>B :: 'b bus_ops. \<And>c b o' c' b'. md B c b = Some (o', c', b') \<Longrightarrow> \<exists>base c1 b1. operand_base op B c b = Some (base, c1, b1) \<and>
      op_page_crossed o' = page_differs base (base + ucast (operand_index op c))"
    and "\<not> is_branch op" "page_penalty op" "unat m = nominal_cycles op" "nominal_cycles op < 255"
  shows "counts op (arm_read_px md f m)"
  unfolding counts_def
proof (intro allI impI)
  fix B :: "'b bus_ops" and c b k c' b'
  assume "arm_read_px md f m B c b = Some (k, c', b')"
  then obtain o' c1 b1 where run: "md B c b = Some (o', c1, b1)" "k = m + of_bool (op_page_crossed o')"
    by (auto simp: arm_read_px_def bind_eq_Some_conv)
  from md [OF run(1)] obtain base c2 b2 where base: "operand_base op B c b = Some (base, c2, b2)"
    "op_page_crossed o' = page_differs base (base + ucast (operand_index op c))" by blast
  have "unat k = nominal_cycles op + of_bool (op_page_crossed o')"
    using assms(4,5) by (simp add: run(2) unat_word_ariths of_bool_def)
  then show "exact_count op B c b (unat k)"
    using assms(2,3) by (simp add: exact_count_def base)
qed

lemma counts_px:
  "\<not> is_branch op \<Longrightarrow> page_penalty op \<Longrightarrow> \<not> indirect_y op \<and> \<not> absolute_y op \<Longrightarrow> unat m = nominal_cycles op \<Longrightarrow>
     nominal_cycles op < 255 \<Longrightarrow> counts op (arm_read_px addr_abs_x f m)"
  "\<not> is_branch op \<Longrightarrow> page_penalty op \<Longrightarrow> \<not> indirect_y op \<and> absolute_y op \<Longrightarrow> unat m = nominal_cycles op \<Longrightarrow>
     nominal_cycles op < 255 \<Longrightarrow> counts op (arm_read_px addr_abs_y f m)"
  "\<not> is_branch op \<Longrightarrow> page_penalty op \<Longrightarrow> indirect_y op \<Longrightarrow> unat m = nominal_cycles op \<Longrightarrow>
     nominal_cycles op < 255 \<Longrightarrow> counts op (arm_read_px addr_ind_y f m)"
  by (rule counts_px_mode; force simp: operand_base_def operand_index_def addr_abs_x_def addr_abs_y_def addr_ind_y_def
      bind_eq_Some_conv dest: indexed_tail_crossed base_regs)+

lemma word_of_sum: "(word_of_int (uint v + sint w) :: 'a::len word) = v + scast w"
  by (simp only: wi_hom_add [symmetric] scast_eq word_of_int_uint)

lemma counts_branch:
  assumes "is_branch op" "[NEGATIVE, OVERFLOW, CARRY, ZERO] ! unat (drop_bit 6 op) = fl" "(op AND 0x20 \<noteq> 0) = want"
  shows "counts op (arm_branch fl want :: 'b action)"
  unfolding counts_def
proof (intro allI impI)
  fix B :: "'b bus_ops" and c b k c' b'
  assume "arm_branch fl want B c b = Some (k, c', b')"
  then obtain off c1 b1 where run: "fetch_pc B c b = Some (off, c1, b1)"
    "branch B off (p_contains (cpu_p c1) fl = want) c1 b1 = Some (k, c', b')"
    by (auto simp: arm_branch_def bind_eq_Some_conv)
  have taken: "(p_contains (cpu_p c1) fl = want) = branch_taken op (cpu_p c)"
    unfolding branch_taken_def assms(2,3) using fetch_pc_regs [OF run(1)] by simp
  have "unat k = (if \<not> branch_taken op (cpu_p c) then 2 else if page_differs (cpu_pc c1) (cpu_pc c1 + scast off) then 4 else 3)"
  proof (cases "branch_taken op (cpu_p c)")
    case False
    then show ?thesis using run(2) unfolding taken by (simp add: branch_def)
  next
    case True
    then obtain v c2 b2 where "read1 B (cpu_pc c1) c1 b1 = Some (v, c2, b2)"
      "k = (if page_differs (cpu_pc c2) (cpu_pc c2 + scast off) then 4 else 3)"
      using run(2) unfolding taken by (auto simp: branch_def bind_eq_Some_conv Let_def word_of_sum)
    then show ?thesis using True read1_regs [of B "cpu_pc c1" c1 b1 v c2 b2] by simp
  qed
  then show "exact_count op B c b (unat k)" by (simp add: exact_count_def assms(1) run(1))
qed

lemmas count_defs = nominal_cycles_def page_penalty_def is_branch_def indirect_y_def absolute_y_def

lemma opcode_table_counts: "list_all (\<lambda>(op, act). counts op act) opcode_table"
  unfolding opcode_table_def table_defs list_all_append list.pred_inject split_conv append.simps
  by (intro conjI TrueI;
      ((rule counts_plain, simp add: count_defs, simp add: count_defs, rule arm_takes op_takes, simp add: count_defs; fail)
       | (rule counts_px; simp add: count_defs; fail)
       | (rule counts_branch; simp add: count_defs; fail)
       | simp))

lemma dispatch_counts: "dispatch op B c b = Some (m, c', b') \<Longrightarrow> exact_count op B c b (unat m)"
  using opcode_table_counts
  by (fastforce simp: dispatch_def list_all_iff counts_def dest!: map_of_SomeD split: option.splits)

text \<open>
  C28: every opcode, documented or not, takes the count of the 6502 cycle table, on any bus and with any cartridge: exactly the
  nominal one, one more on an indexed read exactly when adding the index leaves the page of the base address, and on a
  branch one more when it is taken and another when it is taken to another page. The count is stated of an instruction that
  returns; on the machine's bus every one does, unless the cartridge is one of the two with an ARM coprocessor, whose program can
  panic.
\<close>

theorem opcode_cycles:
  "(\<forall>B b n c' b'. dispatch op B c b = Some (n, c', b') \<longrightarrow> exact_count op B c (b :: 'b) (unat n)) \<and>
   (\<forall>F p v. view_ok plain_cart_ok p (v :: ('f, cartridge) cpu_view) \<longrightarrow> dispatch op (view_ops F cart_ops) c v \<noteq> None)"
proof (intro conjI allI impI)
  fix F p and v :: "('f, cartridge) cpu_view"
  assume "view_ok plain_cart_ok p v"
  then show "dispatch op (view_ops F cart_ops) c v \<noteq> None"
    using vcs.view.dispatch_wp [of p v op F c] by (auto simp: wpo_def)
qed (rule dispatch_counts)

lemma opcode_cycles_witness:
  "\<forall>(F :: 'f fops). \<exists>n c' v'.
     dispatch 0xBD (view_ops F cart_ops) cpu_new (the_view (system_new F 3)) = Some (n, c', v') \<and>
     exact_count 0xBD (view_ops F cart_ops) cpu_new (the_view (system_new F 3)) (unat n)"
proof (intro allI)
  fix F :: "'f fops"
  have "sys_ok plain_cart_ok (system_new F 3 :: ('f, cartridge) system)"
    using system_new_ok by blast
  then have "view_ok plain_cart_ok (b_board (sys_bus (system_new F 3 :: ('f, cartridge) system)) \<noteq> None)
      (the_view (system_new F 3 :: ('f, cartridge) system))"
    by (simp add: view_ok_def sys_ok_def the_view_def)
  then have "dispatch 0xBD (view_ops F cart_ops) cpu_new (the_view (system_new F 3)) \<noteq> None"
    using opcode_cycles [of "0xBD" cpu_new] by blast
  then show "\<exists>n c' v'.
     dispatch 0xBD (view_ops F cart_ops) cpu_new (the_view (system_new F 3)) = Some (n, c', v') \<and>
     exact_count 0xBD (view_ops F cart_ops) cpu_new (the_view (system_new F 3)) (unat n)"
    using opcode_cycles [of "0xBD" cpu_new] by fastforce
qed

end
