(* ===== verification/Alu_Props.thy ===== *)
theory Alu_Props
  imports Alu
begin

text \<open>
  What the arithmetic of the CPU computes: addition and subtraction as arithmetic on numbers with a
  carry, in binary on bytes and in decimal mode on packed decimal digits, and the rotates as inverse
  operations.
\<close>

subsection \<open>Binary addition and subtraction\<close>

definition carry_of :: "cpu \<Rightarrow> nat" where
  "carry_of c = of_bool (p_contains (cpu_p c) CARRY)"

lemma carry_values: "unat (carry16 c) = carry_of c" "unat (carry8 c) = carry_of c" "carry_of c \<le> 1"
  by (simp_all add: carry16_def carry8_def carry_of_def)

lemma byte_sum: "unat (ucast a + ucast v + carry16 c :: u16) = unat (a :: u8) + unat (v :: u8) + carry_of c"
proof -
  have "unat a + unat v + carry_of c < 65536"
    using word8_bound [of a] word8_bound [of v] carry_values(3) [of c] by linarith
  then show ?thesis by (simp add: unat_word_ariths carry_values)
qed

lemma bit7: "bit (w :: u8) 7 \<longleftrightarrow> 128 \<le> unat w"
proof -
  have "bit w 7 \<longleftrightarrow> odd (unat w div 128)"
    using bit_iff_odd [of "unat w" 7] by (simp add: bit_unsigned_iff)
  moreover have "unat w div 128 < 2" using word8_bound [of w] by simp
  moreover have "odd n \<longleftrightarrow> n = 1" if "n < 2" for n :: nat using that by (cases n) auto
  ultimately show ?thesis by auto
qed

lemma sint_byte: "sint (w :: u8) = int (unat w) - (if 128 \<le> unat w then 256 else 0)"
proof -
  have "take_bit 8 (uint w) = uint w"
    using uint_lt2p [of w] by (simp add: take_bit_int_eq_self)
  then show ?thesis
    by (simp add: sint_uint signed_take_bit_eq_take_bit_minus bit_unsigned_iff bit7)
qed

lemma overflow_test:
  "(a XOR r) AND (v XOR r) AND 0x80 \<noteq> (0 :: u8) \<longleftrightarrow> bit a 7 \<noteq> bit r 7 \<and> bit v 7 \<noteq> bit r 7"
  using and_0x80_bit [of "(a XOR r) AND (v XOR r)"]
  by (auto simp: and.assoc bit_and_iff bit_xor_iff)

text \<open>The signed sum leaves the byte exactly when the operands' signs agree and the result's differs.\<close>

lemma signed_overflow:
  assumes "unat (r :: u8) + 256 * k = unat a + unat v + n" "n \<le> 1" "k \<le> 1"
  shows "bit a 7 \<noteq> bit r 7 \<and> bit v 7 \<noteq> bit r 7 \<longleftrightarrow> sint (a :: u8) + sint (v :: u8) + int n \<notin> {-128..127}"
proof -
  have "k = 0 \<or> k = 1" using assms(3) by linarith
  then show ?thesis
    using assms(1,2) word8_bound [of a] word8_bound [of v] word8_bound [of r]
    by (auto simp: bit7 sint_byte simp del: of_nat_unat split: if_splits)
qed

text \<open>What a binary addition of \<open>v\<close> leaves in the CPU.\<close>

definition added :: "nat \<Rightarrow> int \<Rightarrow> cpu \<Rightarrow> bool" where
  "added usum ssum c' \<longleftrightarrow> unat (cpu_a c') + 256 * carry_of c' = usum \<and>
     (p_contains (cpu_p c') OVERFLOW \<longleftrightarrow> ssum \<notin> {-128..127}) \<and>
     (p_contains (cpu_p c') ZERO \<longleftrightarrow> cpu_a c' = 0) \<and>
     (p_contains (cpu_p c') NEGATIVE \<longleftrightarrow> sint (cpu_a c') < 0)"

lemma mod_256: "n < 512 \<Longrightarrow> n mod 256 + 256 * of_bool (255 < n) = (n :: nat)"
  by (auto simp: le_mod_geq)

lemma adc_binary_added:
  "added (unat (cpu_a c) + unat v + carry_of c) (sint (cpu_a c) + sint v + int (carry_of c)) (adc_binary v c)"
proof -
  let ?s = "ucast (cpu_a c) + ucast v + carry16 c :: u16" and ?n = "unat (cpu_a c) + unat v + carry_of c"
  let ?r = "ucast ?s :: u8" and ?k = "of_bool (?s > 0xFF) :: nat"
  have s: "unat ?s = ?n" by (rule byte_sum)
  have "?n < 512"
    using word8_bound [of "cpu_a c"] word8_bound [of v] carry_values(3) [of c] by linarith
  then have r: "unat ?r + 256 * ?k = ?n"
    using s by (simp add: unat_ucast_16_8 word_less_nat_alt mod_256)
  have v: "bit (cpu_a c) 7 \<noteq> bit ?r 7 \<and> bit v 7 \<noteq> bit ?r 7 \<longleftrightarrow>
      sint (cpu_a c) + sint v + int (carry_of c) \<notin> {-128..127}"
    by (rule signed_overflow [OF r carry_values(3)]) (simp add: of_bool_def)
  have n: "bit ?r 7 \<longleftrightarrow> sint ?r < 0"
    using word8_bound [of ?r] by (simp add: bit7 sint_byte del: of_nat_unat)
  show ?thesis
    using r v n
    by (simp add: adc_binary_def added_def Let_def carry_of_def overflow_test)
qed

text \<open>
  C32: in binary mode \<open>ADC\<close> adds the operand and the carry to the accumulator: result and carry out
  are the nine-bit sum, \<open>V\<close> is set exactly when the signed sum does not fit a byte, and
  \<open>Z\<close> and \<open>N\<close> describe the result.
\<close>

theorem adc_adds:
  assumes "\<not> p_contains (cpu_p c) DECIMAL"
  shows "added (unat (cpu_a c) + unat v + carry_of c) (sint (cpu_a c) + sint v + int (carry_of c)) (adc v c)"
  using assms adc_binary_added by (simp add: adc_def)

lemma adc_adds_witness:
  "added 256 (128 - 256 + 128 - 256) (adc 0x80 (cpu_new\<lparr>cpu_a := 0x80\<rparr>))"
  using adc_adds [of "cpu_new\<lparr>cpu_a := 0x80\<rparr>" "0x80"]
  by (simp add: cpu_new_def carry_of_def status_power_on_def bit_or_iff sint_byte)

lemma all_ones: "(0xFF :: u8) = - 1"
  by code_simp

lemma xor_0xFF: "v XOR 0xFF = NOT (v :: u8)"
  by (simp only: all_ones) simp

lemma unat_not: "unat v + unat (NOT v) = 255" for v :: u8
proof -
  have "unat v + unat (NOT v) = unat (- 1 :: u8)"
    using unat_add_disjoint [of v "NOT v"] by simp
  then show ?thesis by (simp only: all_ones [symmetric]) simp
qed

text \<open>
  in binary mode \<open>SBC\<close> subtracts the operand and the borrow (the complement of the carry): the
  carry out is set exactly when no borrow is left, and \<open>V\<close> when the signed difference does not fit.
\<close>

theorem sbc_subtracts:
  assumes "\<not> p_contains (cpu_p c) DECIMAL"
  shows "let c' = sbc v c; d = int (unat (cpu_a c)) - int (unat v) - 1 + int (carry_of c) in
    int (unat (cpu_a c')) = d mod 256 \<and> (carry_of c' = 1 \<longleftrightarrow> 0 \<le> d) \<and>
    (p_contains (cpu_p c') OVERFLOW \<longleftrightarrow>
      sint (cpu_a c) - sint v - 1 + int (carry_of c) \<notin> {-128..127})"
proof -
  have a: "added (unat (cpu_a c) + unat (NOT v) + carry_of c)
      (sint (cpu_a c) + sint (NOT v) + int (carry_of c)) (sbc v c)"
    using assms adc_binary_added [of c "NOT v"] by (simp add: sbc_def adc_def xor_0xFF)
  have v: "int (unat (NOT v)) = 255 - int (unat v)" "sint (NOT v) = - sint v - 1"
    using unat_not [of v] by (auto simp: sint_byte simp del: of_nat_unat)
  have b: "carry_of (sbc v c) \<le> 1" "unat (cpu_a (sbc v c)) < 256"
    by (rule carry_values word8_bound)+
  let ?d = "int (unat (cpu_a c)) - int (unat v) - 1 + int (carry_of c)"
  have d: "int (unat (cpu_a (sbc v c))) + 256 * int (carry_of (sbc v c)) = ?d + 256"
    using a v(1) unfolding added_def by linarith
  have "?d = int (unat (cpu_a (sbc v c))) + 256 * (int (carry_of (sbc v c)) - 1)"
    using d by (simp add: right_diff_distrib del: of_nat_unat)
  then have "?d mod 256 = int (unat (cpu_a (sbc v c))) mod 256" by (simp only: mod_mult_self2)
  then have "int (unat (cpu_a (sbc v c))) = ?d mod 256" using b(2) by (simp del: of_nat_unat)
  then show ?thesis
    using a b d v(2) unfolding added_def Let_def by auto
qed

lemma sbc_subtracts_witness:
  "carry_of (sbc 1 cpu_new) = 0 \<and> cpu_a (sbc 1 cpu_new) = 0xFE"
proof -
  have f: "\<not> p_contains (cpu_p cpu_new) DECIMAL" "carry_of cpu_new = 0" "cpu_a cpu_new = 0"
    by (simp_all add: cpu_new_def carry_of_def status_power_on_def bit_or_iff)
  then have "uint (cpu_a (sbc 1 cpu_new)) = 254"
    using sbc_subtracts [OF f(1), of 1] by (simp add: Let_def)
  moreover have "carry_of (sbc 1 cpu_new) \<noteq> 1"
    using sbc_subtracts [OF f(1), of 1] f by (simp add: Let_def)
  ultimately show ?thesis
    using carry_values(3) [of "sbc 1 cpu_new"] by (simp add: word_uint_eq_iff)
qed

subsection \<open>Rotates\<close>

lemma bit_carry8: "bit (carry8 c) n \<longleftrightarrow> n = 0 \<and> p_contains (cpu_p c) CARRY"
  by (auto simp: carry8_def bit_1_iff of_bool_def)

lemma and_1_bit: "v AND 1 = 0 \<longleftrightarrow> \<not> bit v 0" for v :: u8
  by (simp add: word8_all bit_and_iff bit_1_iff)

lemma bit_double:
  assumes "n < 8"
  shows "bit (v * 2 :: u8) n \<longleftrightarrow> 0 < n \<and> bit v (n - 1)"
proof -
  have "v * 2 = push_bit 1 v" by (simp add: push_bit_eq_mult)
  then have "bit (v * 2) n = bit (push_bit 1 v) n" by (simp only:)
  also have "\<dots> \<longleftrightarrow> 0 < n \<and> bit v (n - 1)"
    using assms by (subst bit_push_bit_iff) auto
  finally show ?thesis .
qed

lemma rotate_bits:
  "n < 8 \<Longrightarrow> bit (fst (rol_value v c)) n \<longleftrightarrow> (if n = 0 then p_contains (cpu_p c) CARRY else bit v (n - 1))"
  "n < 8 \<Longrightarrow> bit (fst (ror_value v c)) n \<longleftrightarrow> (if n = 7 then p_contains (cpu_p c) CARRY else bit v (n + 1))"
  "bit (cpu_p (snd (rol_value v c))) 0 = bit v 7"
  "bit (cpu_p (snd (ror_value v c))) 0 = bit v 0"
  by (auto simp: rol_value_def ror_value_def Let_def bit_or_iff bit_drop_bit_eq bit_push_bit_iff bit_double bit_carry8 and_1_bit)

text \<open>
  \<open>ROR\<close> undoes \<open>ROL\<close> and \<open>ROL\<close> undoes \<open>ROR\<close>: nine bits turn, the carry being one of them.
\<close>

theorem rotates_inverse:
  "(case rol_value v c of (r, c') \<Rightarrow> let (v', c'') = ror_value r c' in
      v' = v \<and> p_contains (cpu_p c'') CARRY = p_contains (cpu_p c) CARRY) \<and>
   (case ror_value v c of (r, c') \<Rightarrow> let (v', c'') = rol_value r c' in
      v' = v \<and> p_contains (cpu_p c'') CARRY = p_contains (cpu_p c) CARRY)"
proof -
  have "fst (ror_value (fst (rol_value v c)) (snd (rol_value v c))) = v"
    "fst (rol_value (fst (ror_value v c)) (snd (ror_value v c))) = v"
    by (simp_all only: word8_all) (simp_all add: rotate_bits, simp add: numeral_2_eq_2)
  then show ?thesis
    by (simp add: split_beta Let_def rotate_bits)
qed

subsection \<open>Decimal mode\<close>

text \<open>A byte as two decimal digits.\<close>

definition hi_digit :: "u8 \<Rightarrow> nat" where "hi_digit w = unat w div 16"
definition lo_digit :: "u8 \<Rightarrow> nat" where "lo_digit w = unat w mod 16"

definition bcd_ok :: "u8 \<Rightarrow> bool" where
  "bcd_ok w \<longleftrightarrow> hi_digit w < 10 \<and> lo_digit w < 10"

definition bcd :: "u8 \<Rightarrow> nat" where
  "bcd w = 10 * hi_digit w + lo_digit w"

lemma digits: "unat w = 16 * hi_digit w + lo_digit w" "hi_digit w < 16" "lo_digit w < 16"
  using word8_bound [of w] by (simp_all add: hi_digit_def lo_digit_def)

lemma and_digits: "unat (w AND 0x0F :: u8) = lo_digit w" "unat (w AND 0xF0 :: u8) = 16 * hi_digit w"
proof -
  have m: "(0x0F :: u8) = mask 4" "(0xF0 :: u8) = NOT (mask 4)" by code_simp+
  have lo: "unat (w AND mask 4) = unat w mod 16"
    by (simp add: unat_and_mask)
  have disj: "(w AND mask 4) AND (w AND NOT (mask 4)) = 0" "(w AND mask 4) OR (w AND NOT (mask 4)) = w"
    by (rule bit_word_eqI; auto simp: bit_simps)+
  have "unat (w AND mask 4) + unat (w AND NOT (mask 4)) = unat w"
    using unat_add_disjoint [OF disj(1)] by (simp only: disj(2))
  then have "unat (w AND NOT (mask 4)) = 16 * hi_digit w"
    using lo by (simp add: hi_digit_def) (metis add_left_cancel mult_div_mod_eq add.commute)
  then show "unat (w AND 0x0F :: u8) = lo_digit w" "unat (w AND 0xF0 :: u8) = 16 * hi_digit w"
    unfolding m using lo by (simp_all add: lo_digit_def)
qed

lemma digit_bounds: "bcd_ok w \<Longrightarrow> hi_digit w \<le> 9 \<and> lo_digit w \<le> 9"
  by (simp add: bcd_ok_def)

lemma bcdI: "unat w = 16 * h + l \<Longrightarrow> h < 10 \<Longrightarrow> l < 10 \<Longrightarrow> bcd_ok w \<and> bcd w = 10 * h + l"
  by (simp add: bcd_ok_def bcd_def hi_digit_def lo_digit_def)

text \<open>The low digit's correction, and the high digit's.\<close>

lemma low_correction:
  fixes al :: u16
  assumes "unat al \<le> 19"
  shows "unat (if al > 0x09 then ((al + 0x06) AND 0x0F) + 0x10 else al) =
    (if unat al > 9 then unat al + 6 else unat al)"
proof -
  have m: "unat (x AND 0x0F) = unat x mod 16" for x :: u16
  proof -
    have "(0x0F :: u16) = mask 4" by code_simp
    then show ?thesis by (simp only: unat_and_mask) simp
  qed
  have s: "unat (al + 6) = unat al + 6" using assms by (simp add: unat_word_ariths)
  have "(unat al + 6) mod 16 = unat al - 10" if "unat al > 9"
    using assms that mod_add_self1 [of 16 "unat al - 10"] by (simp add: add.commute)
  moreover have "unat (((al + 0x06) AND 0x0F) + 0x10) = (unat al + 6) mod 16 + 16"
    using mod_less_divisor [of 16 "unat al + 6"] assms by (simp add: unat_word_ariths m)
  ultimately show ?thesis by (auto simp: word_less_nat_alt)
qed

lemma adc_decimal_digits:
  fixes c v
  assumes a: "bcd_ok (cpu_a c)" and v: "bcd_ok v"
  shows "bcd_ok (cpu_a (adc_decimal v c)) \<and>
    bcd (cpu_a (adc_decimal v c)) + 100 * carry_of (adc_decimal v c) = bcd (cpu_a c) + bcd v + carry_of c"
proof -
  let ?A = "hi_digit (cpu_a c)" and ?a = "lo_digit (cpu_a c)" and ?V = "hi_digit v" and ?v = "lo_digit v"
  define al0 where "al0 = ucast (cpu_a c AND 0x0F) + ucast (v AND 0x0F) + carry16 c"
  define al where "al = (if al0 > 0x09 then ((al0 + 0x06) AND 0x0F) + 0x10 else al0)"
  define r0 where "r0 = ucast (cpu_a c AND 0xF0) + ucast (v AND 0xF0) + al"
  define r where "r = (if r0 \<ge> 0xA0 then r0 + 0x60 else r0)"
  have b: "?A \<le> 9" "?a \<le> 9" "?V \<le> 9" "?v \<le> 9" "carry_of c \<le> 1"
    using digit_bounds [OF a] digit_bounds [OF v] carry_values(3) by auto
  have al0: "unat al0 = ?a + ?v + carry_of c"
    using b by (simp add: al0_def unat_word_ariths and_digits carry_values)
  have al: "unat al = (if ?a + ?v + carry_of c > 9 then ?a + ?v + carry_of c + 6 else ?a + ?v + carry_of c)"
    using low_correction [of al0] al0 b by (simp add: al_def)
  have r0: "unat r0 = 16 * ?A + 16 * ?V + unat al"
    using b al by (simp add: r0_def unat_word_ariths and_digits)
  have r: "unat r = (if unat r0 \<ge> 160 then unat r0 + 96 else unat r0)"
    using r0 b al by (simp add: r_def unat_word_ariths word_le_nat_alt)
  have res: "cpu_a (adc_decimal v c) = ucast r" "carry_of (adc_decimal v c) = of_bool (256 \<le> unat r)"
    by (simp_all add: adc_decimal_def Let_def r_def r0_def al_def al0_def carry_of_def word_le_nat_alt)
  define k where "k = (if ?a + ?v + carry_of c > 9 then 1 else 0 :: nat)"
  define m where "m = (if ?A + ?V + k > 9 then 1 else 0 :: nat)"
  have "unat (ucast r :: u8) = 16 * (?A + ?V + k - 10 * m) + (?a + ?v + carry_of c - 10 * k)"
    "256 \<le> unat r \<longleftrightarrow> m = 1"
    using b al r r0 by (auto simp: unat_ucast_16_8 k_def m_def le_mod_geq)
  then show ?thesis
    using bcdI [of "ucast r" "?A + ?V + k - 10 * m" "?a + ?v + carry_of c - 10 * k"] b
    unfolding res by (auto simp: bcd_def k_def m_def split: if_splits)
qed

text \<open>
  C33: in decimal mode \<open>ADC\<close> on two valid packed-decimal bytes is decimal addition: the result is valid
  and its value, with the carry out for the hundreds, is the sum of the operands and the carry in.
\<close>

theorem adc_decimal_adds:
  assumes "p_contains (cpu_p c) DECIMAL" "bcd_ok (cpu_a c)" "bcd_ok v"
  shows "bcd_ok (cpu_a (adc v c)) \<and> bcd (cpu_a (adc v c)) + 100 * carry_of (adc v c) = bcd (cpu_a c) + bcd v + carry_of c"
  using assms adc_decimal_digits by (simp add: adc_def)

lemma adc_decimal_adds_witness:
  "bcd (cpu_a (adc 0x47 (cpu_new\<lparr>cpu_a := 0x58, cpu_p := DECIMAL\<rparr>))) +
   100 * carry_of (adc 0x47 (cpu_new\<lparr>cpu_a := 0x58, cpu_p := DECIMAL\<rparr>)) = 105"
  using adc_decimal_adds [of "cpu_new\<lparr>cpu_a := 0x58, cpu_p := DECIMAL\<rparr>" "0x47"]
  by (simp add: bcd_ok_def bcd_def hi_digit_def lo_digit_def carry_of_def)

text \<open>Subtraction: the nibble differences are small signed numbers.\<close>

lemma small_signed:
  assumes "-128 \<le> x" "x < 128"
  shows "sint (word_of_int x :: u8) = x" "int (lo_digit (word_of_int x)) = x mod 16"
proof -
  show "sint (word_of_int x :: u8) = x"
    using assms by (simp add: signed_of_int signed_take_bit_int_eq_self)
  have "int (unat (word_of_int x :: u8)) = x mod 256"
    by (simp add: uint_word_of_int take_bit_eq_mod)
  then have "int (lo_digit (word_of_int x)) = x mod 256 mod 16"
    unfolding lo_digit_def zmod_int by simp
  also have "\<dots> = x mod 16" by (simp add: mod_mod_cancel)
  finally show "int (lo_digit (word_of_int x)) = x mod 16" .
qed

lemma unat_of_nat_id: "of_nat (unat w) = w"
  by simp

lemma digit_words:
  "w AND 0x0F = word_of_int (int (lo_digit w))" "drop_bit 4 w = word_of_int (int (hi_digit w))" for w :: u8
proof -
  have "unat (drop_bit 4 w) = hi_digit w"
    by (simp add: hi_digit_def unat_drop_bit_eq drop_bit_eq_div unat_div)
  then show "w AND 0x0F = word_of_int (int (lo_digit w))" "drop_bit 4 w = word_of_int (int (hi_digit w))"
    using and_digits(1) [of w] unat_of_nat_id [of "w AND 0x0F"] unat_of_nat_id [of "drop_bit 4 w"] by simp_all
qed

lemma digits_joined: "unat (push_bit 4 h OR (l AND 0x0F) :: u8) = 16 * lo_digit h + lo_digit l"
proof -
  have "unat (push_bit 4 h) = unat h * 16 mod 256"
    by (simp add: push_bit_eq_mult unat_word_ariths)
  also have "\<dots> = 16 * lo_digit h"
    using mult_mod_left [of "unat h" 16 16] by (simp add: lo_digit_def)
  finally have h: "unat (push_bit 4 h) = 16 * lo_digit h" .
  have "push_bit 4 h AND (l AND 0x0F) = 0"
    by (simp add: word8_all bit_and_iff bit_push_bit_iff)
  then show ?thesis
    using unat_add_disjoint [of "push_bit 4 h" "l AND 0x0F"] by (simp add: h and_digits)
qed

lemma sbc_decimal_digits:
  assumes a: "bcd_ok (cpu_a c)" and v: "bcd_ok v"
  shows "bcd_ok (cpu_a (sbc_decimal v c)) \<and>
    int (bcd (cpu_a (sbc_decimal v c))) + 100 * int (carry_of (sbc_decimal v c)) =
      int (bcd (cpu_a c)) - int (bcd v) - 1 + int (carry_of c) + 100"
proof -
  let ?A = "int (hi_digit (cpu_a c))" and ?a = "int (lo_digit (cpu_a c))"
    and ?V = "int (hi_digit v)" and ?v = "int (lo_digit v)"
  have b: "?A \<le> 9" "?a \<le> 9" "?V \<le> 9" "?v \<le> 9" "carry_of c \<le> 1"
    using digit_bounds [OF a] digit_bounds [OF v] carry_values(3) by auto
  define D where "D = ?a - ?v - 1 + int (carry_of c)"
  define k where "k = (if D < 0 then 1 else 0 :: int)"
  define H where "H = ?A - ?V - k"
  define m where "m = (if H < 0 then 1 else 0 :: int)"
  have bd: "-10 \<le> D" "D \<le> 9" "-10 \<le> H" "H \<le> 9" using b by (auto simp: D_def H_def k_def)
  have al: "(cpu_a c AND 0x0F) - (v AND 0x0F) - (1 - carry8 c) = word_of_int D"
    unfolding digit_words D_def by (simp add: carry8_def carry_of_def)
  have ah: "drop_bit 4 (cpu_a c) - drop_bit 4 v = word_of_int (?A - ?V)"
    unfolding digit_words by simp
  have sD: "sint (word_of_int D :: u8) = D" "sint (word_of_int H :: u8) = H"
    using bd by (simp_all add: small_signed)
  have res: "cpu_a (sbc_decimal v c) =
      push_bit 4 (word_of_int (H - 6 * m)) OR (word_of_int (D - 6 * k) AND 0x0F)"
    "carry_of (sbc_decimal v c) = nat (1 - m)"
    using sD unfolding sbc_decimal_def al ah Let_def
    by (auto simp: k_def m_def H_def carry_of_def split: if_splits)
  have dig: "int (lo_digit (word_of_int (D - 6 * k))) = D + 10 * k"
    "int (lo_digit (word_of_int (H - 6 * m))) = H + 10 * m"
  proof -
    have *: "(x - 6) mod 16 = x + 10" if "-10 \<le> x" "x < 0" for x :: int
      using that mod_add_self2 [of "x - 6" 16] by simp
    show "int (lo_digit (word_of_int (D - 6 * k))) = D + 10 * k"
      "int (lo_digit (word_of_int (H - 6 * m))) = H + 10 * m"
      using bd by (subst small_signed; auto simp: k_def m_def *)+
  qed
  have "unat (cpu_a (sbc_decimal v c)) = 16 * nat (H + 10 * m) + nat (D + 10 * k)"
    unfolding res digits_joined using dig by (metis nat_int)
  then have "bcd_ok (cpu_a (sbc_decimal v c)) \<and> bcd (cpu_a (sbc_decimal v c)) = 10 * nat (H + 10 * m) + nat (D + 10 * k)"
    using bd by (intro bcdI) (auto simp: k_def m_def)
  then show ?thesis
    using bd b unfolding res(2) by (auto simp: k_def m_def H_def D_def bcd_def split: if_splits)
qed

text \<open>
  in decimal mode \<open>SBC\<close> on two valid packed-decimal bytes is decimal subtraction with borrow: the
  result is valid, and equals the difference, plus a hundred when the borrow out is taken.
\<close>

theorem sbc_decimal_subtracts:
  assumes "p_contains (cpu_p c) DECIMAL" "bcd_ok (cpu_a c)" "bcd_ok v"
  shows "bcd_ok (cpu_a (sbc v c)) \<and> int (bcd (cpu_a (sbc v c))) + 100 * int (carry_of (sbc v c)) =
    int (bcd (cpu_a c)) - int (bcd v) - 1 + int (carry_of c) + 100"
  using assms sbc_decimal_digits by (simp add: sbc_def)

lemma sbc_decimal_subtracts_witness:
  "int (bcd (cpu_a (sbc 0x47 (cpu_new\<lparr>cpu_a := 0x32, cpu_p := DECIMAL OR CARRY\<rparr>)))) +
   100 * int (carry_of (sbc 0x47 (cpu_new\<lparr>cpu_a := 0x32, cpu_p := DECIMAL OR CARRY\<rparr>))) = 85"
  using sbc_decimal_subtracts [of "cpu_new\<lparr>cpu_a := 0x32, cpu_p := DECIMAL OR CARRY\<rparr>" "0x47"]
  by (simp add: bcd_ok_def bcd_def hi_digit_def lo_digit_def carry_of_def bit_or_iff)

end
