(* ===== verification/Stack_Props.thy ===== *)
theory Stack_Props
  imports Scheduler
begin

text \<open>
  The stack. On this machine the stack page shows the console's RAM where bit 7 of the stack pointer is set.
  \<open>stack_bus\<close> states what the stack instructions need of a bus: bytes under such pointers are
  kept by reads and cycles and hold what was last written. The machine's bus provides it for
  every cartridge but the Supercharger, whose loader patches the RAM.
\<close>

definition stack_addr :: "u8 \<Rightarrow> u16" where
  "stack_addr s = STACK_BASE OR ucast s"

locale stack_bus = cpu_bus B ok mu for B :: "'b bus_ops" and ok mu +
  fixes slot :: "'b \<Rightarrow> u8 \<Rightarrow> u8"
  assumes tick_slot: "ok b \<Longrightarrow> bus_tick_cycle B b = Some b' \<Longrightarrow> slot b' = slot b"
    and read_slot: "ok b \<Longrightarrow> bus_read B a b = Some (v, b') \<Longrightarrow> slot b' = slot b"
    and read_stack: "ok b \<Longrightarrow> 0x80 \<le> s \<Longrightarrow> bus_read B (stack_addr s) b = Some (v, b') \<Longrightarrow> v = slot b s"
    and write_stack: "ok b \<Longrightarrow> 0x80 \<le> s \<Longrightarrow> bus_write B (stack_addr s) v b = Some b' \<Longrightarrow> slot b' = (slot b)(s := v)"
begin

lemma stall_spin_slot: "ok b \<Longrightarrow> wpo (stall_spin B b) (\<lambda>b'. ok b' \<and> slot b' = slot b)"
  by (rule wpo_mono [OF stall_spin_inv [where I = "\<lambda>b'. slot b' = slot b"]]) (auto dest: tick_slot)

lemma idle_tick_slot: "ok b \<Longrightarrow> (\<And>b'. ok b' \<Longrightarrow> slot b' = slot b \<Longrightarrow> Q (ticked c, b')) \<Longrightarrow> wpo (idle_tick B c b) Q"
proof -
  assume ok: "ok b" and Q: "\<And>b'. ok b' \<Longrightarrow> slot b' = slot b \<Longrightarrow> Q (ticked c, b')"
  have t: "wpo (bus_tick_cycle B b1) (\<lambda>b'. ok b' \<and> slot b' = slot b1)" if "ok b1" for b1
    using tick_ok [OF that] tick_slot [OF that] by (auto simp: wpo_def)
  show ?thesis
    unfolding idle_tick_def by (auto intro!: wpo_mono [OF stall_spin_slot [OF ok]] wpo_mono [OF t] Q)
qed

lemma read1_slot: "ok b \<Longrightarrow> (\<And>v b'. ok b' \<Longrightarrow> slot b' = slot b \<Longrightarrow> Q (v, ticked c, b')) \<Longrightarrow> wpo (read1 B a c b) Q"
proof -
  assume ok: "ok b" and Q: "\<And>v b'. ok b' \<Longrightarrow> slot b' = slot b \<Longrightarrow> Q (v, ticked c, b')"
  have r: "wpo (bus_read B a b1) (\<lambda>(v, b'). ok b' \<and> slot b' = slot b1)" if "ok b1" for b1
    using read_ok [OF that, of a] read_slot [OF that] by (auto simp: wpo_def)
  show ?thesis
    unfolding read1_def by (auto intro!: idle_tick_slot [OF ok] wpo_mono [OF r] Q)
qed

lemma pull_slot:
  assumes ok: "ok b" and s: "0x80 \<le> cpu_s c + 1"
    and Q: "\<And>b'. ok b' \<Longrightarrow> slot b' = slot b \<Longrightarrow> Q (slot b (cpu_s c + 1), ticked (c\<lparr>cpu_s := cpu_s c + 1\<rparr>), b')"
  shows "wpo (pull B c b) Q"
proof -
  have r: "wpo (bus_read B (stack_addr (cpu_s c + 1)) b1) (\<lambda>(v, b'). ok b' \<and> slot b' = slot b1 \<and> v = slot b1 (cpu_s c + 1))"
    if "ok b1" for b1
    using read_ok [OF that, of "stack_addr (cpu_s c + 1)"] read_slot [OF that] read_stack [OF that s]
    by (auto simp: wpo_def)
  show ?thesis
    unfolding pull_def read1_def Let_def
    using wpo_mono [OF r] Q by (auto simp: stack_addr_def intro!: idle_tick_slot [OF ok])
qed

lemma push_slot:
  assumes ok: "ok b" and s: "0x80 \<le> cpu_s c"
    and Q: "\<And>b'. ok b' \<Longrightarrow> slot b' = (slot b)(cpu_s c := v) \<Longrightarrow> Q ((ticked c)\<lparr>cpu_s := cpu_s c - 1\<rparr>, b')"
  shows "wpo (push B v c b) Q"
proof -
  have w: "wpo (bus_write B (stack_addr (cpu_s c)) v b1) (\<lambda>b'. ok b' \<and> slot b' = (slot b1)(cpu_s c := v))"
    if "ok b1" for b1
    using write_ok [OF that, of "stack_addr (cpu_s c)" v] write_stack [OF that s] by (auto simp: wpo_def)
  show ?thesis
    unfolding push_def write1_def Let_def
    using wpo_mono [OF w] Q by (auto simp: stack_addr_def ticked_def intro!: idle_tick_slot [OF ok])
qed

lemma fetch_pc_slot:
  "ok b \<Longrightarrow> (\<And>v b'. ok b' \<Longrightarrow> slot b' = slot b \<Longrightarrow> Q (v, (ticked c)\<lparr>cpu_pc := cpu_pc c + 1\<rparr>, b')) \<Longrightarrow>
   wpo (fetch_pc B c b) Q"
  unfolding fetch_pc_def by (auto intro!: read1_slot)

text \<open>A subroutine that returns at once comes back behind the call, with the registers as they were.\<close>

lemma jsr_rts:
  assumes ok: "ok b" and s: "0x81 \<le> cpu_s c"
  shows "wpo (do { (n, c', b') \<leftarrow> op_jsr B c b; op_rts B c' b' }) (\<lambda>(n, c'', b'').
    cpu_pc c'' = cpu_pc c + 2 \<and> cpu_s c'' = cpu_s c \<and> cpu_a c'' = cpu_a c \<and> cpu_x c'' = cpu_x c \<and>
    cpu_y c'' = cpu_y c \<and> cpu_p c'' = cpu_p c)"
proof -
  have s': "0x80 \<le> cpu_s c" "0x80 \<le> cpu_s c - 1" "cpu_s c \<noteq> cpu_s c - 1"
    using s by (auto simp: word_le_nat_alt unat_decrement)
  have pc: "le16 (ucast (w AND 0xFF)) (ucast (drop_bit 8 w)) = w" for w :: u16
  proof -
    have m: "(0xFF :: u16) = mask 8" by code_simp
    have "(ucast (w AND mask 8) :: u8) = ucast w"
      by (rule bit_word_eqI) (simp only: bit_ucast_iff bit_and_iff bit_mask_iff, auto)
    then have "(ucast (w AND 0xFF) :: u8) = ucast w" unfolding m .
    then show ?thesis by simp
  qed
  show ?thesis
    unfolding op_jsr_def op_rts_def pull_u16_def Let_def
    apply simp
    apply (rule fetch_pc_slot [OF ok], simp)
    apply (rule read1_slot, assumption, simp)
    apply (rule push_slot, assumption, simp add: ticked_def s', simp)
    apply (rule push_slot, assumption, simp add: ticked_def s', simp)
    apply (rule fetch_pc_slot, assumption, simp)
    apply (rule read1_slot, assumption, simp)
    apply (rule read1_slot, assumption, simp)
    apply (rule pull_slot, assumption, simp add: ticked_def s', simp)
    apply (rule pull_slot, assumption, simp add: ticked_def s', simp)
    apply (rule read1_slot, assumption, simp)
    using s' pc by (simp add: ticked_def)
qed

lemma pha_pla:
  assumes ok: "ok b" and s: "0x80 \<le> cpu_s c"
  shows "wpo (do { (n, c', b') \<leftarrow> op_pha B c b; op_pla B (c'\<lparr>cpu_a := x\<rparr>) b' }) (\<lambda>(n, c'', b'').
    cpu_a c'' = cpu_a c \<and> cpu_s c'' = cpu_s c)"
  unfolding op_pha_def op_pla_def
  apply simp
  apply (rule read1_slot [OF ok], simp)
  apply (rule push_slot, assumption, simp add: ticked_def s, simp)
  apply (rule read1_slot, assumption, simp)
  apply (rule read1_slot, assumption, simp)
  apply (rule pull_slot, assumption, simp add: ticked_def s, simp)
  by (simp add: ticked_def lda_def)

end

subsection \<open>The machine's stack\<close>

text \<open>Every cartridge without out-of-band pokes: all but the Supercharger and the two with an ARM coprocessor.\<close>

definition pokeless :: "cartridge \<Rightarrow> bool" where
  "pokeless c \<longleftrightarrow> plain_cart_ok c \<and> scheme_name c \<noteq> ''AR''"

lemma pokeless_board: "board cart_ops pokeless"
  using plain_boards [of "\<lambda>s. s \<noteq> ''AR''"] by (simp add: pokeless_def [abs_def])

interpretation pokeless: vcs_bus cart_ops pokeless F for F
  unfolding vcs_bus_def by (rule pokeless_board)

lemma pokeless_pokes: "pokeless c \<Longrightarrow> bd_take_oob_pokes cart_ops c = ([], c)"
  by (cases c) (auto simp: pokeless_def cart_ops_def cart_take_oob_pokes_def)

lemma pokeless_apply: "bus_ok pokeless b \<Longrightarrow> apply_oob_pokes cart_ops b = Some b"
  by (cases "b_board b") (simp_all add: apply_oob_pokes_def bus_ok_def pokeless_pokes)

definition view_slot :: "('f, 'c) cpu_view \<Rightarrow> u8 \<Rightarrow> u8" where
  "view_slot v s = (if 0x80 \<le> s then riot_ram (b_riot (vw_bus v)) ! (unat s - 128) else 0)"

lemma stack_addr_ram:
  assumes "0x80 \<le> s"
  shows "stack_addr s AND 0x1280 = 0x0080" "unat (stack_addr s AND 0x7F) = unat s - 128"
proof -
  have "\<forall>n \<in> set [128..<256]. stack_addr (word_of_nat n) AND 0x1280 = 0x0080 \<and>
      unat (stack_addr (word_of_nat n) AND 0x7F) = n - 128"
    by code_simp
  moreover have "unat s \<in> set [128..<256]"
    unfolding set_upt using assms word8_bound [of s] by (simp add: word_le_nat_alt)
  moreover have "word_of_nat (unat s) = s" by simp
  ultimately show "stack_addr s AND 0x1280 = 0x0080" "unat (stack_addr s AND 0x7F) = unat s - 128"
    by metis+
qed

lemma slot_inj: "0x80 \<le> t \<Longrightarrow> 0x80 \<le> s \<Longrightarrow> unat s - 128 = unat t - 128 \<longleftrightarrow> t = (s :: u8)"
  by (auto simp: word_le_nat_alt word_unat_eq_iff)

lemma slot_bound: "unat s - 128 < 128" for s :: u8
  using word8_bound [of s] by simp

lemma pokeless_read_ram:
  assumes "bus_ok pokeless b" "cpu_read F cart_ops a b = Some (v, b')"
  shows "riot_ram (b_riot b') = riot_ram (b_riot b)"
proof (cases "a AND 0x1000 = 0")
  case True
  then show ?thesis
    using assms(2) by (auto simp: cpu_read_def read_console_def riot_read_def bind_eq_Some_conv
        split_beta Let_def split: option.splits if_splits)
next
  case False
  show ?thesis
  proof (cases "b_board b")
    case None
    with False show ?thesis using assms(2) by (simp add: cpu_read_def read_cart_def)
  next
    case (Some c)
    then obtain v1 c' where r: "bd_read cart_ops (a AND 0x1FFF) c = Some (v1, c')" "pokeless c'"
      using assms(1) pokeless.read_ok [OF _ window_and [OF False], of c] by (auto simp: wpo_def bus_ok_def)
    then have "bus_ok pokeless (b\<lparr>b_board := Some c'\<rparr>)" using assms(1) by (simp add: bus_ok_def)
    then show ?thesis
      using assms(2) False Some r by (auto simp: cpu_read_def read_cart_def pokeless_apply)
  qed
qed

lemma view_stack_bus:
  fixes F :: "'f fops"
  shows "stack_bus (view_ops F cart_ops) (view_ok pokeless p) view_mu view_slot"
proof (rule stack_bus.intro [OF pokeless.view_cpu_bus], unfold_locales)
  fix v :: "('f, cartridge) cpu_view" and v' and a :: u16 and x s :: u8
  assume ok: "view_ok pokeless p v"
  then have b: "bus_ok pokeless (vw_bus v)" by (simp add: view_ok_def)
  show "view_slot v' = view_slot v" if "bus_tick_cycle (view_ops F cart_ops) v = Some v'"
    using that by (auto simp: view_ops_def view_tick_cycle_def view_slot_def bind_eq_Some_conv Let_def
        riot_tick_def fun_eq_iff split: option.splits)
  show "view_slot v' = view_slot v" if "bus_read (view_ops F cart_ops) a v = Some (x, v')"
    using that pokeless_read_ram [OF b]
    by (auto simp: view_ops_def view_read_def view_slot_def bind_eq_Some_conv fun_eq_iff)
  assume s: "0x80 \<le> s"
  note addr = stack_addr_ram [OF s]
  show "x = view_slot v s" if "bus_read (view_ops F cart_ops) (stack_addr s) v = Some (x, v')"
    using that wpo_SomeD [OF pokeless.read_ram [OF b addr(1), of F]] s
    by (auto simp: view_ops_def view_read_def view_slot_def bind_eq_Some_conv addr(2))
  show "view_slot v' = (view_slot v)(s := x)" if "bus_write (view_ops F cart_ops) (stack_addr s) x v = Some v'"
  proof -
    have len: "length (riot_ram (b_riot (vw_bus v))) = 128"
      using b by (simp add: bus_ok_def riot_ok_def)
    from that obtain b' where w: "cpu_write F cart_ops (stack_addr s) x (vw_bus v) = Some b'"
        and v': "v' = v\<lparr>vw_bus := b'\<rparr>"
      by (auto simp: view_ops_def view_write_def bind_eq_Some_conv)
    have r: "riot_ram (b_riot b') = (riot_ram (b_riot (vw_bus v)))[unat s - 128 := x]"
      using wpo_SomeD [OF pokeless.write_ram [OF b addr(1)] w] by (simp only: addr(2))
    show ?thesis
    proof
      fix t :: u8
      have "(riot_ram (b_riot (vw_bus v)))[unat s - 128 := x] ! (unat t - 128) =
          (if t = s then x else riot_ram (b_riot (vw_bus v)) ! (unat t - 128))" if "0x80 \<le> t"
        using slot_inj [OF that s] len by (simp add: nth_list_update slot_bound)
      then show "view_slot v' t = ((view_slot v)(s := x)) t"
        using s by (cases "t = s") (simp_all add: view_slot_def v' r)
    qed
  qed
qed

interpretation vcs_stack: stack_bus "view_ops F cart_ops" "view_ok pokeless p" view_mu view_slot
  for F p
  by (rule view_stack_bus)

text \<open>
  C34: a subroutine call on the machine's bus comes back: with the stack pointer at \<open>0x81\<close> or above (so that the
  return address lies in RAM), \<open>JSR\<close> followed by \<open>RTS\<close> continues behind the call with the
  stack pointer, the registers and the flags as they were, for every cartridge but the Supercharger (whose loader
  patches the RAM) and the two with an ARM coprocessor (DPC+ and CDF).
\<close>

theorem subroutine_returns:
  assumes "view_ok pokeless p v" "0x81 \<le> cpu_s c"
  shows "wpo (do { (n, c', v') \<leftarrow> op_jsr (view_ops F cart_ops) c v; op_rts (view_ops F cart_ops) c' v' })
    (\<lambda>(n, c'', v''). cpu_pc c'' = cpu_pc c + 2 \<and> cpu_s c'' = cpu_s c \<and> cpu_a c'' = cpu_a c \<and>
       cpu_x c'' = cpu_x c \<and> cpu_y c'' = cpu_y c \<and> cpu_p c'' = cpu_p c)"
  using assms by (rule vcs_stack.jsr_rts)

lemma subroutine_returns_witness:
  "\<forall>(F :: 'f fops).
   wpo (do { (n, c', v') \<leftarrow> op_jsr (view_ops F cart_ops) (cpu_new\<lparr>cpu_pc := 0xF001\<rparr>) (the_view (system_new F 7));
             op_rts (view_ops F cart_ops) c' v' })
     (\<lambda>(n, c'', v''). cpu_pc c'' = 0xF003 \<and> cpu_s c'' = 0xFD)"
proof (intro allI)
  fix F :: "'f fops"
  let ?s = "system_new F 7 :: ('f, cartridge) system"
  have "sys_ok pokeless ?s" using system_new_ok by blast
  then have v: "view_ok pokeless (b_board (sys_bus ?s) \<noteq> None) (the_view ?s)"
    by (simp add: view_ok_def sys_ok_def the_view_def)
  show "wpo (do { (n, c', v') \<leftarrow> op_jsr (view_ops F cart_ops) (cpu_new\<lparr>cpu_pc := 0xF001\<rparr>) (the_view ?s);
             op_rts (view_ops F cart_ops) c' v' })
     (\<lambda>(n, c'', v''). cpu_pc c'' = 0xF003 \<and> cpu_s c'' = 0xFD)"
    by (rule wpo_mono [OF subroutine_returns [OF v]]) (auto simp: cpu_new_def)
qed

end
