(* ===== verification/Cpu_Symmetry.thy ===== *)
theory Cpu_Symmetry
  imports Cpu_Exec
begin

text \<open>
  The CPU sees the machine only through the bus operations: a map of the bus state that takes the
  reads, writes, cycles and stall line of one bus to those of another takes every instruction on
  the one to the same instruction on the other. The contract is the locale \<open>bus_symmetry\<close>; its user
  is the map that forgets what the machine only writes out, the picture, the samples and the
  debugger's log, which a save-state does not keep.
\<close>

abbreviation lift2 :: "('b \<Rightarrow> 'b) \<Rightarrow> 'a \<times> 'b \<Rightarrow> 'a \<times> 'b" where
  "lift2 h \<equiv> \<lambda>p. (fst p, h (snd p))"

abbreviation lift3 :: "('b \<Rightarrow> 'b) \<Rightarrow> 'a \<times> cpu \<times> 'b \<Rightarrow> 'a \<times> cpu \<times> 'b" where
  "lift3 h \<equiv> \<lambda>p. (fst p, fst (snd p), h (snd (snd p)))"

lemma bind_if: "Option.bind (if p then m else m') f = (if p then Option.bind m f else Option.bind m' f)"
  by simp

locale bus_symmetry =
  fixes B :: "'b bus_ops" and B' :: "'b bus_ops" and h :: "'b \<Rightarrow> 'b"
  assumes read_sym: "bus_read B' a (h b) = map_option (lift2 h) (bus_read B a b)"
    and write_sym: "bus_write B' a v (h b) = map_option h (bus_write B a v b)"
    and tick_sym: "bus_tick_cycle B' (h b) = map_option h (bus_tick_cycle B b)"
    and rdy_sym: "bus_rdy_stall B' (h b) = bus_rdy_stall B b"
begin

lemmas sym_simps = Option.bind_map_option map_option_bind o_def split_beta Let_def

lemma stall_spin_forth: "stall_spin B b = Some y \<Longrightarrow> stall_spin B' (h b) = Some (h y)"
proof -
  assume run: "stall_spin B b = Some y"
  have "B = B \<longrightarrow> stall_spin B' (h b) = Some (h y)"
  proof (rule stall_spin.raw_induct [where P = "\<lambda>A b y. A = B \<longrightarrow> stall_spin B' (h b) = Some (h y)", OF _ run], intro impI)
    fix f A b y
    assume IH: "\<And>A b y. f A b = Some y \<Longrightarrow> A = B \<longrightarrow> stall_spin B' (h b) = Some (h y)"
      and one: "(if bus_rdy_stall A b then bus_tick_cycle A b \<bind> f A else Some b) = Some y" and "A = B"
    then show "stall_spin B' (h b) = Some (h y)"
      by (subst stall_spin.simps) (auto simp: rdy_sym tick_sym bind_eq_Some_conv split: if_splits)
  qed
  then show ?thesis by simp
qed

lemma stall_spin_back: "stall_spin B' b' = Some y \<Longrightarrow> b' = h b \<Longrightarrow> \<exists>z. stall_spin B b = Some z"
proof -
  assume run: "stall_spin B' b' = Some y" and "b' = h b"
  have "B' = B' \<longrightarrow> (\<forall>b. b' = h b \<longrightarrow> (\<exists>z. stall_spin B b = Some z))"
  proof (rule stall_spin.raw_induct [where P = "\<lambda>A b' y. A = B' \<longrightarrow> (\<forall>b. b' = h b \<longrightarrow> (\<exists>z. stall_spin B b = Some z))",
        OF _ run], intro impI allI)
    fix f A b' y b
    assume IH: "\<And>A b' y. f A b' = Some y \<Longrightarrow> A = B' \<longrightarrow> (\<forall>b. b' = h b \<longrightarrow> (\<exists>z. stall_spin B b = Some z))"
      and one: "(if bus_rdy_stall A b' then bus_tick_cycle A b' \<bind> f A else Some b') = Some y"
      and eq: "A = B'" "b' = h b"
    show "\<exists>z. stall_spin B b = Some z"
    proof (cases "bus_rdy_stall B b")
      case False
      then show ?thesis by (subst stall_spin.simps) simp
    next
      case True
      then obtain b1 where b1: "bus_tick_cycle B b = Some b1" "f B' (h b1) = Some y"
        using one by (auto simp: eq rdy_sym tick_sym Option.bind_map_option bind_eq_Some_conv)
      then show ?thesis using IH [OF b1(2)] True by (subst stall_spin.simps) simp
    qed
  qed
  then show ?thesis using \<open>b' = h b\<close> by blast
qed

lemma stall_spin_sym: "stall_spin B' (h b) = map_option h (stall_spin B b)"
  using stall_spin_forth [of b] stall_spin_back [of "h b" _ b] by (cases "stall_spin B b"; cases "stall_spin B' (h b)") auto

lemma idle_tick_sym: "idle_tick B' c (h b) = map_option (lift2 h) (idle_tick B c b)"
  by (simp add: idle_tick_def stall_spin_sym tick_sym sym_simps)

lemma read1_sym: "read1 B' a c (h b) = map_option (lift3 h) (read1 B a c b)"
  by (simp add: read1_def idle_tick_sym read_sym sym_simps)

lemma write1_sym: "write1 B' a v c (h b) = map_option (lift2 h) (write1 B a v c b)"
  by (simp add: write1_def idle_tick_sym write_sym sym_simps)

lemma fetch_pc_sym: "fetch_pc B' c (h b) = map_option (lift3 h) (fetch_pc B c b)"
  by (simp add: fetch_pc_def read1_sym sym_simps)

lemmas access_sym = read1_sym write1_sym fetch_pc_sym idle_tick_sym

lemma implied_dummy_read_sym: "implied_dummy_read B' c (h b) = map_option (lift2 h) (implied_dummy_read B c b)"
  by (simp add: implied_dummy_read_def access_sym sym_simps)

lemma fetch_pc_u16_sym: "fetch_pc_u16 B' c (h b) = map_option (lift3 h) (fetch_pc_u16 B c b)"
  by (simp add: fetch_pc_u16_def access_sym sym_simps)

lemma zp_pointer_sym: "zp_pointer B' c (h b) = map_option (lift3 h) (zp_pointer B c b)"
  by (simp add: zp_pointer_def access_sym sym_simps)

lemma stack_sym:
  "push B' v c (h b) = map_option (lift2 h) (push B v c b)"
  "pull B' c (h b) = map_option (lift3 h) (pull B c b)"
  by (simp_all add: push_def pull_def access_sym sym_simps)

lemma indexed_sym:
  "indexed_tail B' base i c (h b) = map_option (lift3 h) (indexed_tail B base i c b)"
  "indexed_tail_rmw B' base i c (h b) = map_option (lift3 h) (indexed_tail_rmw B base i c b)"
  by (simp_all add: indexed_tail_def indexed_tail_rmw_def access_sym sym_simps)

lemma sh_store_sym: "sh_store B' base i v c (h b) = map_option (lift2 h) (sh_store B base i v c b)"
  by (simp add: sh_store_def access_sym sym_simps)

lemmas part_sym = access_sym implied_dummy_read_sym fetch_pc_u16_sym zp_pointer_sym stack_sym indexed_sym sh_store_sym

end

subsection \<open>Every instruction\<close>

definition mode_sym :: "'b bus_ops \<Rightarrow> 'b bus_ops \<Rightarrow> ('b \<Rightarrow> 'b) \<Rightarrow> 'b mode \<Rightarrow> bool" where
  "mode_sym B B' h md \<longleftrightarrow> (\<forall>c b. md B' c (h b) = map_option (lift3 h) (md B c b))"

definition rmw_mode_sym :: "'b bus_ops \<Rightarrow> 'b bus_ops \<Rightarrow> ('b \<Rightarrow> 'b) \<Rightarrow> 'b rmw_mode \<Rightarrow> bool" where
  "rmw_mode_sym B B' h md \<longleftrightarrow> (\<forall>c b. md B' c (h b) = map_option (lift3 h) (md B c b))"

definition rmw_op_sym :: "'b bus_ops \<Rightarrow> 'b bus_ops \<Rightarrow> ('b \<Rightarrow> 'b) \<Rightarrow> 'b rmw_op \<Rightarrow> bool" where
  "rmw_op_sym B B' h f \<longleftrightarrow> (\<forall>a c b. f B' a c (h b) = map_option (lift2 h) (f B a c b))"

definition action_sym :: "'b bus_ops \<Rightarrow> 'b bus_ops \<Rightarrow> ('b \<Rightarrow> 'b) \<Rightarrow> 'b action \<Rightarrow> bool" where
  "action_sym B B' h act \<longleftrightarrow> (\<forall>c b. act B' c (h b) = map_option (lift3 h) (act B c b))"

context bus_symmetry
begin

lemma modes_sym:
  "mode_sym B B' h addr_zp" "mode_sym B B' h addr_zp_x" "mode_sym B B' h addr_zp_y" "mode_sym B B' h addr_abs"
  "mode_sym B B' h addr_abs_x" "mode_sym B B' h addr_abs_y" "mode_sym B B' h addr_ind_x" "mode_sym B B' h addr_ind_y"
  by (simp_all add: mode_sym_def addr_zp_def addr_zp_x_def addr_zp_y_def addr_abs_def addr_abs_x_def
      addr_abs_y_def addr_ind_x_def addr_ind_y_def part_sym sym_simps)

lemma rmw_modes_sym:
  "rmw_mode_sym B B' h addr_abs_x_rmw" "rmw_mode_sym B B' h addr_abs_y_rmw" "rmw_mode_sym B B' h addr_ind_y_rmw"
  by (simp_all add: rmw_mode_sym_def addr_abs_x_rmw_def addr_abs_y_rmw_def addr_ind_y_rmw_def part_sym sym_simps)

lemma rmw_sym: "rmw_op_sym B B' h (rmw f g)"
  by (simp add: rmw_op_sym_def rmw_def part_sym sym_simps)

lemma rmw_ops_sym:
  "rmw_op_sym B B' h inc_addr" "rmw_op_sym B B' h dec_addr" "rmw_op_sym B B' h asl_addr"
  "rmw_op_sym B B' h lsr_addr" "rmw_op_sym B B' h rol_addr" "rmw_op_sym B B' h ror_addr"
  "rmw_op_sym B B' h dcp_addr" "rmw_op_sym B B' h isc_addr" "rmw_op_sym B B' h slo_addr"
  "rmw_op_sym B B' h rla_addr" "rmw_op_sym B B' h sre_addr" "rmw_op_sym B B' h rra_addr"
  unfolding rmw_defs by (rule rmw_sym)+

lemma arms_sym:
  "action_sym B B' h (arm_imm f n)"
  "mode_sym B B' h md \<Longrightarrow> action_sym B B' h (arm_read md f n)"
  "mode_sym B B' h md \<Longrightarrow> action_sym B B' h (arm_read_px md f n)"
  "mode_sym B B' h md \<Longrightarrow> action_sym B B' h (arm_store md reg n)"
  "action_sym B B' h (arm_implied g)"
  "mode_sym B B' h md \<Longrightarrow> rmw_op_sym B B' h op \<Longrightarrow> action_sym B B' h (arm_rmw md op n)"
  "rmw_mode_sym B B' h rmd \<Longrightarrow> rmw_op_sym B B' h op \<Longrightarrow> action_sym B B' h (arm_rmw_idx rmd op n)"
  by (simp_all add: action_sym_def mode_sym_def rmw_mode_sym_def rmw_op_sym_def arm_imm_def arm_read_def arm_read_px_def
      arm_store_def arm_implied_def arm_rmw_def arm_rmw_idx_def part_sym sym_simps)

lemma arm_store_dummy_sym: "mode_sym B B' h md \<Longrightarrow> action_sym B B' h (arm_store_dummy md reg n)"
  by (simp add: action_sym_def mode_sym_def arm_store_dummy_def part_sym sym_simps bind_if
      if_distrib [of "map_option _"] cong: if_cong)

lemma arm_branch_sym: "action_sym B B' h (arm_branch flag want)"
  by (simp add: action_sym_def arm_branch_def branch_def part_sym sym_simps bind_if
      if_distrib [of "map_option _"] cong: if_cong)

lemma op_stack_sym:
  "action_sym B B' h op_pha" "action_sym B B' h op_php" "action_sym B B' h op_pla" "action_sym B B' h op_plp"
  by (simp_all add: action_sym_def op_pha_def op_php_def op_pla_def op_plp_def part_sym sym_simps)

lemma op_jump_sym:
  "action_sym B B' h op_jmp_abs" "action_sym B B' h op_jmp_ind" "action_sym B B' h op_jsr"
  "action_sym B B' h op_rts" "action_sym B B' h op_rti" "action_sym B B' h op_brk"
  by (simp_all add: action_sym_def op_jmp_abs_def op_jmp_ind_def op_jsr_def op_rts_def op_rti_def op_brk_def
      read_u16_with_wrap_def pull_u16_def push_u16_def part_sym sym_simps)

lemma op_unstable_sym:
  "action_sym B B' h op_tas" "action_sym B B' h op_sha_abs" "action_sym B B' h op_sha_ind"
  "action_sym B B' h op_shx" "action_sym B B' h op_shy"
  by (simp_all add: action_sym_def op_tas_def op_sha_abs_def op_sha_ind_def op_shx_def op_shy_def part_sym sym_simps)

lemma dummy_reads_sym: "dummy_reads B' as c (h b) = map_option (lift2 h) (dummy_reads B as c b)"
  by (induction as arbitrary: c b) (simp_all add: part_sym sym_simps)

lemma op_jam_sym: "action_sym B B' h op_jam"
  by (simp add: action_sym_def op_jam_def dummy_reads_sym part_sym sym_simps del: dummy_reads.simps)

lemmas arm_sym_rules = arms_sym arm_store_dummy_sym arm_branch_sym op_stack_sym op_jump_sym op_unstable_sym op_jam_sym

lemma opcode_table_sym: "list_all (\<lambda>(op, act). action_sym B B' h act) opcode_table"
  unfolding opcode_table_def table_defs list_all_append list.pred_inject split_conv append.simps
  by (intro conjI TrueI; (rule arm_sym_rules | simp); (rule modes_sym rmw_modes_sym)?; (rule rmw_ops_sym)?)

lemma dispatch_sym: "dispatch op B' c (h b) = map_option (lift3 h) (dispatch op B c b)"
proof -
  obtain act where act: "map_of opcode_table op = Some (act :: 'b action)"
    using opcode_table_total by blast
  then have "(op, act) \<in> set opcode_table" by (rule map_of_SomeD)
  with opcode_table_sym have "action_sym B B' h act" by (auto simp: list_all_iff)
  then show ?thesis by (simp add: dispatch_def act action_sym_def)
qed

lemma pad_cycles_sym: "pad_cycles B' n c (h b) = map_option (lift2 h) (pad_cycles B n c b)"
proof (induction "unat n - unat (cpu_emitted c)" arbitrary: c b rule: less_induct)
  case less
  show ?case
  proof (cases "cpu_emitted c < n")
    case False
    then show ?thesis by (simp add: pad_cycles.simps [of B n c] pad_cycles.simps [of B' n c])
  next
    case True
    have "unat n \<le> 255" using word8_bound [of n] by simp
    then have "unat n - unat (cpu_emitted (ticked c)) < unat n - unat (cpu_emitted c)"
      using True by (simp add: ticked_def unat_sat_add8 word_less_nat_alt)
    then have "pad_cycles B' n (ticked c) (h b) = map_option (lift2 h) (pad_cycles B n (ticked c) b)" for b
      by (rule less)
    then show ?thesis
      using True by (simp add: pad_cycles.simps [of B n c] pad_cycles.simps [of B' n c] idle_tick_def stall_spin_sym tick_sym sym_simps)
  qed
qed

lemma step_sym: "action_sym B B' h step"
  by (simp add: action_sym_def step_def part_sym dispatch_sym pad_cycles_sym sym_simps)

lemma idle_ticks_sym: "idle_ticks k B' c (h b) = map_option (lift2 h) (idle_ticks k B c b)"
  by (induction k arbitrary: c b) (simp_all add: part_sym sym_simps)

lemma reset_sym: "reset B' c (h b) = map_option (lift2 h) (reset B c b)"
  by (simp add: reset_def part_sym idle_ticks_sym sym_simps del: idle_ticks.simps)

end

end
