(* ===== verification/Save_State.thy ===== *)
theory Save_State
  imports Scheduler Cpu_Symmetry
begin

text \<open>
  Save-states and movies (\<open>crates/rusty2600-core/src/save_state.rs\<close>, \<open>movie.rs\<close>). The binary encoding
  is the \<open>postcard\<close> crate's, so a codec is a parameter; what the repository decides is which fields
  the encoding keeps. \<open>kept_system\<close> is the machine without the fields marked \<open>#[serde(skip)]\<close>: the
  picture, the samples and the debugger's log. Nothing the machine computes reads them, so a
  restored machine runs as the one that was saved.
\<close>

subsection \<open>What an encoding keeps\<close>

definition kept_tia :: "'f tia \<Rightarrow> 'f tia" where
  "kept_tia t = t\<lparr>tia_video_buffer := [], tia_audio_buffer := []\<rparr>"

definition kept_bus :: "('f, 'c) bus \<Rightarrow> ('f, 'c) bus" where
  "kept_bus b = b\<lparr>b_tia := kept_tia (b_tia b), b_write_log := write_log_default\<rparr>"

definition kept_view :: "('f, 'c) cpu_view \<Rightarrow> ('f, 'c) cpu_view" where
  "kept_view v = v\<lparr>vw_bus := kept_bus (vw_bus v)\<rparr>"

definition kept_system :: "('f, 'c) system \<Rightarrow> ('f, 'c) system" where
  "kept_system s = s\<lparr>sys_bus := kept_bus (sys_bus s)\<rparr>"

lemma kept_idem [simp]:
  "kept_tia (kept_tia t) = kept_tia t" "kept_bus (kept_bus b) = kept_bus b"
  "kept_system (kept_system s) = kept_system s"
  by (simp_all add: kept_tia_def kept_bus_def kept_system_def)

lemma kept_tia_simps [simp]:
  "tia_objects (kept_tia t) = tia_objects t" "tia_collisions (kept_tia t) = tia_collisions t"
  "tia_audio (kept_tia t) = tia_audio t" "tia_color_clock (kept_tia t) = tia_color_clock t"
  "tia_scanline (kept_tia t) = tia_scanline t" "tia_inpt (kept_tia t) = tia_inpt t"
  "tia_rdy_stall (kept_tia t) = tia_rdy_stall t" "tia_paddles (kept_tia t) = tia_paddles t"
  "tia_paddle_clock (kept_tia t) = tia_paddle_clock t" "tia_current_color (kept_tia t) = tia_current_color t"
  by (simp_all add: kept_tia_def)

lemma kept_bus_simps [simp]:
  "b_tia (kept_bus b) = kept_tia (b_tia b)" "b_riot (kept_bus b) = b_riot b" "b_board (kept_bus b) = b_board b"
  "b_open_bus (kept_bus b) = b_open_bus b"
  by (simp_all add: kept_bus_def)

lemma kept_bus_upd [simp]:
  "kept_bus (b\<lparr>b_tia := t\<rparr>) = (kept_bus b)\<lparr>b_tia := kept_tia t\<rparr>"
  "kept_bus (b\<lparr>b_riot := r\<rparr>) = (kept_bus b)\<lparr>b_riot := r\<rparr>"
  "kept_bus (b\<lparr>b_board := c\<rparr>) = (kept_bus b)\<lparr>b_board := c\<rparr>"
  "kept_bus (b\<lparr>b_open_bus := v\<rparr>) = (kept_bus b)\<lparr>b_open_bus := v\<rparr>"
  "kept_bus (b\<lparr>b_write_log := w\<rparr>) = kept_bus b"
  by (simp_all add: kept_bus_def)

subsection \<open>The TIA\<close>

lemma on_objects_kept: "on_objects f (kept_tia t) = kept_tia (on_objects f t)"
  by (simp add: on_objects_def kept_tia_def)

lemma on_channel_kept: "on_channel i f (kept_tia t) = kept_tia (on_channel i f t)"
  by (simp add: on_channel_def kept_tia_def)

lemma set_pos_kept: "set_pos i d (kept_tia t) = kept_tia (set_pos i d t)"
  by (simp add: set_pos_def resolve_position_def on_objects_kept)

lemma kept_tia_upd:
  "kept_tia (t\<lparr>tia_scanline := x1\<rparr>) = (kept_tia t)\<lparr>tia_scanline := x1\<rparr>"
  "kept_tia (t\<lparr>tia_color_clock := x2\<rparr>) = (kept_tia t)\<lparr>tia_color_clock := x2\<rparr>"
  "kept_tia (t\<lparr>tia_rdy_stall := x3\<rparr>) = (kept_tia t)\<lparr>tia_rdy_stall := x3\<rparr>"
  "kept_tia (t\<lparr>tia_paddles := x4\<rparr>) = (kept_tia t)\<lparr>tia_paddles := x4\<rparr>"
  "kept_tia (t\<lparr>tia_collisions := x5\<rparr>) = (kept_tia t)\<lparr>tia_collisions := x5\<rparr>"
  "kept_tia (t\<lparr>tia_current_color := x6\<rparr>) = (kept_tia t)\<lparr>tia_current_color := x6\<rparr>"
  "kept_tia (t\<lparr>tia_paddle_clock := x7\<rparr>) = (kept_tia t)\<lparr>tia_paddle_clock := x7\<rparr>"
  "kept_tia (t\<lparr>tia_audio := x8\<rparr>) = (kept_tia t)\<lparr>tia_audio := x8\<rparr>"
  "kept_tia (t\<lparr>tia_video_buffer := x9\<rparr>) = kept_tia t"
  "kept_tia (t\<lparr>tia_audio_buffer := x10\<rparr>) = kept_tia t"
  "kept_tia (t\<lparr>tia_inpt := x11\<rparr>) = (kept_tia t)\<lparr>tia_inpt := x11\<rparr>"
  by (simp_all add: kept_tia_def)

lemma tia_write_kept: "tia_write F a v (kept_tia t) = kept_tia (tia_write F a v t)"
  unfolding tia_write_def write_register_def Let_def
  by (simp add: if_distrib [of kept_tia] on_objects_kept on_channel_kept set_pos_kept kept_tia_upd cong: if_cong)

lemma tia_read_kept: "tia_read F a (kept_tia t) = (fst (tia_read F a t), kept_tia (snd (tia_read F a t)))"
  unfolding tia_read_def read_paddle_def Let_def split_beta
  by (simp add: if_distrib [of fst] if_distrib [of snd] if_distrib [of kept_tia] kept_tia_upd cong: if_cong)

lemma beam_kept: "advance_beam (kept_tia t) = kept_tia (advance_beam t)"
  by (simp add: advance_beam_def Let_def kept_tia_upd)

lemma render_kept: "render_pixel (kept_tia t) = kept_tia (render_pixel t)"
  by (simp add: render_pixel_def kept_tia_upd Let_def)

lemma advanced_clock: "unat (tia_color_clock (advance_beam t)) < 228"
  by (simp add: advance_beam_def Let_def word_less_nat_alt [symmetric] not_le word_le_nat_alt)

lemma store_dot_some:
  assumes "unat (tia_color_clock t) < 228"
  shows "\<exists>buf. store_dot t = Some (t\<lparr>tia_video_buffer := buf\<rparr>)"
proof (cases "tia_color_clock t \<ge> 68 \<and> unat (tia_scanline t) < 312")
  case False
  then show ?thesis by (intro exI [of _ "tia_video_buffer t"]) (auto simp: store_dot_def)
next
  case True
  then have "unat (tia_color_clock t - 68) < 160"
    using assms by (simp add: unat_sub)
  then have "unat (tia_scanline t) * 160 + unat (tia_color_clock t - 68) < 312 * 160"
    using True by linarith
  then show ?thesis
    using True by (auto simp: store_dot_def Let_def upd_chk_def resize_to_def)
qed

lemma tick_kept: "map_option kept_tia (tick_color_clock (kept_tia t)) = map_option kept_tia (tick_color_clock t)"
proof -
  define f where "f t = (let t = render_pixel (advance_beam t) in t\<lparr>tia_audio := audio_tick (tia_audio t)\<rparr>)" for t :: "'a tia"
  have f: "f (kept_tia t) = kept_tia (f t)"
    by (simp add: f_def Let_def beam_kept render_kept kept_tia_upd)
  have clock: "tia_color_clock (render_pixel x) = tia_color_clock x" for x :: "'a tia"
    by (simp add: render_pixel_def Let_def)
  have tick: "tick_color_clock x = Option.bind (store_dot (f x)) (\<lambda>t. Some (push_sample t))" for x :: "'a tia"
    by (simp only: tick_color_clock_def Let_def f_def)
  have "unat (tia_color_clock (f t)) < 228" by (simp add: f_def Let_def clock advanced_clock)
  then obtain b1 b2 where "store_dot (f t) = Some ((f t)\<lparr>tia_video_buffer := b1\<rparr>)"
      "store_dot (kept_tia (f t)) = Some ((kept_tia (f t))\<lparr>tia_video_buffer := b2\<rparr>)"
    using store_dot_some [of "f t"] store_dot_some [of "kept_tia (f t)"] by auto
  then show ?thesis
    unfolding tick f by (simp add: push_sample_def kept_tia_upd)
qed

subsection \<open>The bus and the machine\<close>

lemmas hom_simps = Option.bind_map_option map_option_bind o_def case_prod_unfold Let_def

lemma oob_kept: "apply_oob_pokes C (kept_bus b) = map_option kept_bus (apply_oob_pokes C b)"
  by (simp add: apply_oob_pokes_def hom_simps split: option.split)

lemma oob_board_kept:
  "apply_oob_pokes C (kept_bus b\<lparr>b_board := x\<rparr>) = map_option kept_bus (apply_oob_pokes C (b\<lparr>b_board := x\<rparr>))"
  by (simp add: oob_kept [symmetric])

lemma read_cart_kept: "read_cart C a (kept_bus b) = map_option (lift2 kept_bus) (read_cart C a b)"
  by (simp add: read_cart_def oob_board_kept hom_simps split: option.split)

lemma write_cart_kept: "write_cart C a v (kept_bus b) = map_option kept_bus (write_cart C a v b)"
  by (simp add: write_cart_def oob_board_kept hom_simps split: option.split)

lemma read_console_kept: "read_console F a (kept_bus b) = map_option (lift2 kept_bus) (read_console F a b)"
  by (simp add: read_console_def tia_read_kept hom_simps)

lemma write_console_kept: "write_console F a v (kept_bus b) = map_option kept_bus (write_console F a v b)"
  by (simp add: write_console_def tia_write_kept hom_simps)

lemma cpu_read_kept_sym: "cpu_read F C a (kept_bus b) = map_option (lift2 kept_bus) (cpu_read F C a b)"
proof -
  have snoop: "(case b_board (kept_bus b) of
        Some c \<Rightarrow> bd_snoop_read C (a AND 0x1FFF) v c \<bind> (\<lambda>c. Some (v, (kept_bus b)\<lparr>b_board := Some c\<rparr>))
      | None \<Rightarrow> Some (v, kept_bus b)) =
      map_option (lift2 kept_bus) (case b_board b of
        Some c \<Rightarrow> bd_snoop_read C (a AND 0x1FFF) v c \<bind> (\<lambda>c. Some (v, b\<lparr>b_board := Some c\<rparr>)) | None \<Rightarrow> Some (v, b))"
    for v and b :: "('a, 'b) bus"
    by (simp add: hom_simps split: option.split)
  have open_bus: "(kept_bus b)\<lparr>b_open_bus := v\<rparr> = kept_bus (b\<lparr>b_open_bus := v\<rparr>)" for v and b :: "('a, 'b) bus"
    by simp
  show ?thesis
    unfolding cpu_read_def Let_def
    by (simp only: read_cart_kept read_console_kept snoop open_bus case_prod_unfold fst_conv snd_conv
        Option.bind_map_option map_option_bind o_def if_distrib [of "map_option _"] option.map bind_if Option.bind_assoc)
qed

lemma log_off: "log_record ev write_log_default = write_log_default"
  by (simp add: log_record_def write_log_default_def)

lemma cpu_write_kept_sym: "cpu_write F C a v (kept_bus b) = map_option kept_bus (cpu_write F C a v b)"
proof -
  let ?log = "\<lambda>b. log_record \<lparr>we_scanline = tia_scanline (b_tia b), we_color_clock = tia_color_clock (b_tia b),
      we_addr = a AND 0x1FFF, we_value = v\<rparr> (b_write_log b)"
  let ?b = "b\<lparr>b_open_bus := v, b_write_log := ?log (b\<lparr>b_open_bus := v\<rparr>)\<rparr>"
  have start: "(kept_bus b)\<lparr>b_open_bus := v, b_write_log := ?log ((kept_bus b)\<lparr>b_open_bus := v\<rparr>)\<rparr> = kept_bus ?b"
    by (simp add: kept_bus_def log_off)
  have snoop: "(case b_board (kept_bus ?b) of
        Some c \<Rightarrow> bd_snoop_write C (a AND 0x1FFF) v c \<bind> (\<lambda>c. Some ((kept_bus ?b)\<lparr>b_board := Some c\<rparr>)) | None \<Rightarrow> Some (kept_bus ?b)) =
      map_option kept_bus (case b_board ?b of
        Some c \<Rightarrow> bd_snoop_write C (a AND 0x1FFF) v c \<bind> (\<lambda>c. Some (?b\<lparr>b_board := Some c\<rparr>)) | None \<Rightarrow> Some ?b)"
    by (simp add: hom_simps split: option.split)
  show ?thesis
    unfolding cpu_write_def Let_def start
    by (simp only: snoop write_cart_kept write_console_kept Option.bind_map_option map_option_bind o_def if_distrib [of "map_option _"])
qed

lemma tick_cong:
  "kept_tia t = kept_tia t' \<Longrightarrow> map_option kept_tia (tick_color_clock t) = map_option kept_tia (tick_color_clock t')"
  by (metis tick_kept)

lemma bind_cong_via:
  assumes "map_option h m = map_option h m'" "\<And>x x'. h x = h x' \<Longrightarrow> map_option k (f x) = map_option k (f' x')"
  shows "map_option k (Option.bind m f) = map_option k (Option.bind m' f')"
proof (cases m)
  case None
  then show ?thesis using assms(1) by simp
next
  case (Some x)
  then obtain x' where "m' = Some x'" "h x = h x'" using assms(1) by (cases m') auto
  then show ?thesis using Some assms(2) [of x x'] by simp
qed

definition kept_ops :: "'f fops \<Rightarrow> 'c board_ops \<Rightarrow> ('f, 'c) cpu_view bus_ops" where
  "kept_ops F C = \<lparr>bus_read = (\<lambda>a v. map_option (lift2 kept_view) (view_read F C a v)),
     bus_write = (\<lambda>a x v. map_option kept_view (view_write F C a x v)),
     bus_tick_cycle = (\<lambda>v. map_option kept_view (view_tick_cycle C v)), bus_rdy_stall = view_rdy_stall\<rparr>"

lemma kept_view_idem [simp]: "kept_view (kept_view v) = kept_view v"
  by (simp add: kept_view_def)

lemma view_tick_kept: "map_option kept_view (view_tick_cycle C (kept_view v)) = map_option kept_view (view_tick_cycle C v)"
proof -
  define rest where "rest t v = do {
     let b = vw_bus v;
     let b = b\<lparr>b_tia := t\<rparr>;
     let b = b\<lparr>b_riot := riot_tick (b_riot b)\<rparr>;
     b \<leftarrow> (case b_board b of
        Some c \<Rightarrow> do { c \<leftarrow> bd_tick C c; Some (b\<lparr>b_board := Some c\<rparr>) }
      | None \<Rightarrow> Some b);
     Some (v\<lparr>vw_bus := b, vw_color_clocks := vw_color_clocks v + ucast CPU_DIVISOR\<rparr>) }"
    for t and v :: "('a, 'b) cpu_view"
  have tick: "view_tick_cycle C v = Option.bind (tick_color_clock (b_tia (vw_bus v))) (\<lambda>t.
      Option.bind (tick_color_clock t) (\<lambda>t. Option.bind (tick_color_clock t) (\<lambda>t. rest t v)))"
    for v :: "('a, 'b) cpu_view"
    by (simp only: view_tick_cycle_def rest_def Let_def)
  have rest: "kept_tia t = kept_tia t' \<Longrightarrow> map_option kept_view (rest t (kept_view v)) = map_option kept_view (rest t' v)"
    for t t' and v :: "('a, 'b) cpu_view"
    by (simp add: rest_def hom_simps kept_view_def split: option.split)
  show ?thesis
    unfolding tick
    by (rule bind_cong_via [where h = kept_tia], simp add: kept_view_def tick_kept,
        rule bind_cong_via [where h = kept_tia], rule tick_cong, assumption,
        rule bind_cong_via [where h = kept_tia], rule tick_cong, assumption, rule rest)
qed

interpretation kept: bus_symmetry "view_ops F C" "kept_ops F C" kept_view for F C
proof unfold_locales
  fix a x v
  show "bus_read (kept_ops F C) a (kept_view v) = map_option (lift2 kept_view) (bus_read (view_ops F C) a v)"
    by (simp add: kept_ops_def view_ops_def view_read_def kept_view_def cpu_read_kept_sym hom_simps)
  show "bus_write (kept_ops F C) a x (kept_view v) = map_option kept_view (bus_write (view_ops F C) a x v)"
    by (simp add: kept_ops_def view_ops_def view_write_def kept_view_def cpu_write_kept_sym hom_simps)
  show "bus_tick_cycle (kept_ops F C) (kept_view v) = map_option kept_view (bus_tick_cycle (view_ops F C) v)"
    by (simp add: kept_ops_def view_ops_def view_tick_kept)
  show "bus_rdy_stall (kept_ops F C) (kept_view v) = bus_rdy_stall (view_ops F C) v"
    by (simp add: kept_ops_def view_ops_def view_rdy_stall_def kept_view_def)
qed

text \<open>Machines that agree on what is kept agree on it after every instruction.\<close>

lemma the_view_kept: "kept_view (the_view s) = the_view (kept_system s)"
  by (simp add: kept_view_def the_view_def kept_system_def)

lemma put_view_kept: "kept_system (put_view c v s) = put_view c (kept_view v) (kept_system s)"
  by (simp add: put_view_def kept_system_def kept_view_def)

lemma step_instruction_cong:
  assumes "kept_system s = kept_system s'"
  shows "map_option (lift2 kept_system) (step_instruction F C s) = map_option (lift2 kept_system) (step_instruction F C s')"
proof -
  have one: "map_option (lift2 kept_system) (step_instruction F C s) =
      map_option (\<lambda>(n, c, v). (n, put_view c v (kept_system s))) (step (kept_ops F C) (sys_cpu (kept_system s)) (the_view (kept_system s)))"
    for s
    using kept.step_sym [where F = F and C = C]
    by (simp add: step_instruction_def action_sym_def the_view_kept [symmetric] hom_simps put_view_kept option.map_comp
        map_conv_bind_option) (simp add: kept_system_def)
  show ?thesis by (simp only: one assms)
qed

lemma run_instructions_cong:
  "kept_system s = kept_system s' \<Longrightarrow>
   map_option kept_system (run_instructions F C k s) = map_option kept_system (run_instructions F C k s')"
proof (induction k arbitrary: s s')
  case (Suc k)
  show ?case
    unfolding run_instructions.simps
    by (rule bind_cong_via [OF step_instruction_cong [OF Suc.prems]]) (auto intro!: Suc.IH)
qed simp

subsection \<open>Save-states\<close>

text \<open>\<open>b"R26S"\<close> and the version constants.\<close>

definition SAVE_MAGIC :: "u8 list" where "SAVE_MAGIC = [0x52, 0x32, 0x36, 0x53]"
definition SAVE_FORMAT_VERSION :: u16 where "SAVE_FORMAT_VERSION = 1"
definition MIN_SAVE_FORMAT_VERSION :: u16 where "MIN_SAVE_FORMAT_VERSION = 1"

record save_header =
  sh_magic :: "u8 list"
  sh_format_version :: u16
  sh_rom_tag :: u64

record ('f, 'c) save_state =
  ss_header :: save_header
  ss_system :: "('f, 'c) system"

datatype save_state_error = Malformed | BadMagic | RomMismatch | UnsupportedFormat u16 u16

text \<open>
  The \<open>postcard\<close> functions: \<open>to_allocvec\<close> and \<open>from_bytes\<close>, and \<open>Vec::default()\<close>. The type of the bytes
  is left open.
\<close>

record ('a, 'w) codec =
  to_allocvec :: "'a \<Rightarrow> 'w option"
  from_bytes :: "'w \<Rightarrow> 'a option"
  no_bytes :: 'w

definition capture :: "('f, 'c) system \<Rightarrow> u64 \<Rightarrow> ('f, 'c) save_state" where
  "capture s rom_tag = \<lparr>ss_header = \<lparr>sh_magic = SAVE_MAGIC, sh_format_version = SAVE_FORMAT_VERSION,
     sh_rom_tag = rom_tag\<rparr>, ss_system = s\<rparr>"

definition encode :: "('a, 'w) codec \<Rightarrow> 'a \<Rightarrow> 'w" where
  "encode K st = (case to_allocvec K st of Some bytes \<Rightarrow> bytes | None \<Rightarrow> no_bytes K)"

definition decode :: "(('f, 'c) save_state, 'w) codec \<Rightarrow> 'w \<Rightarrow> save_state_error + ('f, 'c) save_state" where
  "decode K bytes = (case from_bytes K bytes of
     None \<Rightarrow> Inl Malformed
   | Some st \<Rightarrow>
       (if sh_magic (ss_header st) \<noteq> SAVE_MAGIC then Inl BadMagic
        else if sh_format_version (ss_header st) < MIN_SAVE_FORMAT_VERSION
        then Inl (UnsupportedFormat (sh_format_version (ss_header st)) MIN_SAVE_FORMAT_VERSION)
        else Inr st))"

definition restore ::
  "(('f, 'c) save_state, 'w) codec \<Rightarrow> 'w \<Rightarrow> u64 \<Rightarrow> save_state_error + ('f, 'c) system" where
  "restore K bytes rom_tag = (case decode K bytes of
     Inl e \<Rightarrow> Inl e
   | Inr st \<Rightarrow> if sh_rom_tag (ss_header st) \<noteq> rom_tag then Inl RomMismatch else Inr (ss_system st))"

text \<open>
  What the code relies on: encoding a state succeeds, and decoding its bytes gives the state back
  without the fields marked \<open>#[serde(skip)]\<close>.
\<close>

definition codec_keeps :: "(('f, 'c) save_state, 'w) codec \<Rightarrow> bool" where
  "codec_keeps K \<longleftrightarrow> (\<forall>st. \<exists>bytes. to_allocvec K st = Some bytes \<and>
     from_bytes K bytes = Some (st\<lparr>ss_system := kept_system (ss_system st)\<rparr>))"

lemma decode_encode:
  "codec_keeps K \<Longrightarrow> decode K (encode K (capture s tag)) = Inr (capture (kept_system s) tag)"
proof -
  assume "codec_keeps K"
  then obtain bytes where "to_allocvec K (capture s tag) = Some bytes"
    "from_bytes K bytes = Some ((capture s tag)\<lparr>ss_system := kept_system (ss_system (capture s tag))\<rparr>)"
    unfolding codec_keeps_def by blast
  then show ?thesis
    by (simp add: encode_def decode_def capture_def SAVE_FORMAT_VERSION_def MIN_SAVE_FORMAT_VERSION_def)
qed

lemma restore_capture:
  "codec_keeps K \<Longrightarrow> restore K (encode K (capture s tag)) tag' =
     (if tag' = tag then Inr (kept_system s) else Inl RomMismatch)"
  by (simp add: restore_def decode_encode) (auto simp: capture_def)

text \<open>
  C6: restoring a save-state succeeds exactly under the ROM tag it was captured with, and the
  restored machine is the saved one as far as any program can tell: from then on every number of
  instructions gives the same machine, panics included, up to the picture, samples and debugger's
  log written so far.
\<close>

theorem restored_run_equal:
  assumes "codec_keeps K"
  shows "case restore K (encode K (capture s tag)) tag' of
      Inl e \<Rightarrow> tag' \<noteq> tag \<and> e = RomMismatch
    | Inr s' \<Rightarrow> tag' = tag \<and> map_option kept_system (run_instructions F C k s') =
        map_option kept_system (run_instructions F C k s)"
  using run_instructions_cong [of "kept_system s" s F C k] by (simp add: restore_capture [OF assms])

lemma restored_run_equal_witness:
  "\<forall>(F :: 'f fops) (s :: ('f, cartridge) system).
     let K = \<lparr>to_allocvec = (\<lambda>st. Some (st\<lparr>ss_system := kept_system (ss_system st)\<rparr>)), from_bytes = Some, no_bytes = capture s 0\<rparr>
     in case restore K (encode K (capture s 7)) 7 of
         Inl e \<Rightarrow> False
       | Inr s' \<Rightarrow> map_option kept_system (run_instructions F cart_ops 1000 s') =
           map_option kept_system (run_instructions F cart_ops 1000 s)"
proof (intro allI)
  fix F :: "'f fops" and s :: "('f, cartridge) system"
  let ?K = "\<lparr>to_allocvec = (\<lambda>st. Some (st\<lparr>ss_system := kept_system (ss_system st)\<rparr>)), from_bytes = Some, no_bytes = capture s 0\<rparr>"
  have "codec_keeps ?K" by (simp add: codec_keeps_def)
  from restored_run_equal [OF this, where s = s and tag = 7 and tag' = 7 and F = F and C = cart_ops and k = 1000]
  show "let K = ?K in case restore K (encode K (capture s 7)) 7 of
         Inl e \<Rightarrow> False
       | Inr s' \<Rightarrow> map_option kept_system (run_instructions F cart_ops 1000 s') =
           map_option kept_system (run_instructions F cart_ops 1000 s)"
    unfolding Let_def by (auto split: sum.splits)
qed

subsection \<open>Movies\<close>

definition MOVIE_MAGIC :: "u8 list" where "MOVIE_MAGIC = [0x52, 0x32, 0x36, 0x4D]"
definition MOVIE_FORMAT_VERSION :: u16 where "MOVIE_FORMAT_VERSION = 1"
definition MIN_MOVIE_FORMAT_VERSION :: u16 where "MIN_MOVIE_FORMAT_VERSION = 1"

datatype movie_region = Ntsc | Pal | Secam

record movie_frame =
  mf_swcha :: u8
  mf_joy_fire :: u8
  mf_swchb :: u8
  mf_paddle_pos :: "u8 list"
  mf_paddle_fire :: u8

definition movie_frame_default :: movie_frame where
  "movie_frame_default = \<lparr>mf_swcha = 0xFF, mf_joy_fire = 0, mf_swchb = 0xFF, mf_paddle_pos = [0, 0, 0, 0],
     mf_paddle_fire = 0\<rparr>"

datatype 'w movie_start = PowerOn u64 | FromSaveState 'w

record movie_header =
  mh_magic :: "u8 list"
  mh_format_version :: u16
  mh_region :: movie_region
  mh_rom_tag :: u64

datatype movie_error = MovieMalformed | MovieBadMagic | MovieRomMismatch | MovieUnsupportedFormat u16 u16
  | BadEmbeddedSaveState save_state_error

record 'w movie =
  mv_header :: movie_header
  mv_start :: "'w movie_start"
  mv_frames :: "movie_frame list"

definition new_movie_header :: "u64 \<Rightarrow> movie_region \<Rightarrow> movie_header" where
  "new_movie_header rom_tag region = \<lparr>mh_magic = MOVIE_MAGIC, mh_format_version = MOVIE_FORMAT_VERSION,
     mh_region = region, mh_rom_tag = rom_tag\<rparr>"

definition new_power_on :: "u64 \<Rightarrow> movie_region \<Rightarrow> u64 \<Rightarrow> 'w movie" where
  "new_power_on rom_tag region seed =
     \<lparr>mv_header = new_movie_header rom_tag region, mv_start = PowerOn seed, mv_frames = []\<rparr>"

definition new_branch ::
  "(('f, 'c) save_state, 'w) codec \<Rightarrow> u64 \<Rightarrow> movie_region \<Rightarrow> ('f, 'c) system \<Rightarrow> 'w movie" where
  "new_branch K rom_tag region s = \<lparr>mv_header = new_movie_header rom_tag region,
     mv_start = FromSaveState (encode K (capture s rom_tag)), mv_frames = []\<rparr>"

definition record_frame :: "movie_frame \<Rightarrow> 'w movie \<Rightarrow> 'w movie" where
  "record_frame frame m = m\<lparr>mv_frames := mv_frames m @ [frame]\<rparr>"

definition set_frame :: "nat \<Rightarrow> movie_frame \<Rightarrow> 'w movie \<Rightarrow> 'w movie" where
  "set_frame index frame m =
     (if index < length (mv_frames m) then m\<lparr>mv_frames := (mv_frames m)[index := frame]\<rparr> else m)"

definition frame_at :: "nat \<Rightarrow> 'w movie \<Rightarrow> movie_frame option" where
  "frame_at index m = (if index < length (mv_frames m) then Some (mv_frames m ! index) else None)"

definition start_system ::
  "'f fops \<Rightarrow> (('f, 'c) save_state, 'w) codec \<Rightarrow> u64 \<Rightarrow> 'w movie \<Rightarrow> movie_error + ('f, 'c) system" where
  "start_system F K rom_tag m = (case mv_start m of
     PowerOn seed \<Rightarrow> Inr (system_new F seed)
   | FromSaveState blob \<Rightarrow> (case restore K blob rom_tag of
       Inl e \<Rightarrow> Inl (BadEmbeddedSaveState e) | Inr s \<Rightarrow> Inr s))"

definition movie_decode :: "('w movie, 'v) codec \<Rightarrow> 'v \<Rightarrow> movie_error + 'w movie" where
  "movie_decode K bytes = (case from_bytes K bytes of
     None \<Rightarrow> Inl MovieMalformed
   | Some m \<Rightarrow>
       (if mh_magic (mv_header m) \<noteq> MOVIE_MAGIC then Inl MovieBadMagic
        else if mh_format_version (mv_header m) < MIN_MOVIE_FORMAT_VERSION
        then Inl (MovieUnsupportedFormat (mh_format_version (mv_header m)) MIN_MOVIE_FORMAT_VERSION)
        else Inr m))"

definition movie_restore :: "('w movie, 'v) codec \<Rightarrow> 'v \<Rightarrow> u64 \<Rightarrow> movie_error + 'w movie" where
  "movie_restore K bytes rom_tag = (case movie_decode K bytes of
     Inl e \<Rightarrow> Inl e
   | Inr m \<Rightarrow> if mh_rom_tag (mv_header m) \<noteq> rom_tag then Inl MovieRomMismatch else Inr m)"

end
