(* ===== verification/Input.thy ===== *)
theory Input
  imports Prelude
begin

text \<open>
  Host input (\<open>crates/rusty2600-frontend/src/input.rs\<close>): the joysticks, paddles and console switches,
  the actions keys and touch buttons drive, their packing into the port bytes the machine reads, and
  the pair of atomic words (\<open>SharedInput\<close> of \<open>emu_thread.rs\<close>) through which the window thread hands
  them to the emulation thread.
\<close>

subsection \<open>The controls\<close>

record joystick =
  j_up :: bool
  j_down :: bool
  j_left :: bool
  j_right :: bool
  j_fire :: bool

definition joystick_default :: joystick where
  "joystick_default = \<lparr>j_up = False, j_down = False, j_left = False, j_right = False, j_fire = False\<rparr>"

definition clear_bits :: "bool \<Rightarrow> u8 \<Rightarrow> u8 \<Rightarrow> u8" where
  "clear_bits p m n = (if p then n AND NOT m else n)"

definition swcha_nibble :: "joystick \<Rightarrow> u8" where
  "swcha_nibble j = (let
     n = 0xF;
     n = clear_bits (j_up j) 0x1 n;
     n = clear_bits (j_down j) 0x2 n;
     n = clear_bits (j_left j) 0x4 n
   in clear_bits (j_right j) 0x8 n)"

record pot =
  pot_position :: u8
  pot_fire :: bool

definition pot_default :: pot where "pot_default = \<lparr>pot_position = 0, pot_fire = False\<rparr>"

datatype difficulty = Difficulty_A | Difficulty_B

fun toggled :: "difficulty \<Rightarrow> difficulty" where
  "toggled Difficulty_A = Difficulty_B"
| "toggled Difficulty_B = Difficulty_A"

record switches =
  sw_select :: bool
  sw_reset :: bool
  sw_color :: bool
  sw_left_difficulty :: difficulty
  sw_right_difficulty :: difficulty

definition switches_default :: switches where
  "switches_default = \<lparr>sw_select = False, sw_reset = False, sw_color = True,
     sw_left_difficulty = Difficulty_B, sw_right_difficulty = Difficulty_B\<rparr>"

definition swchb_byte :: "switches \<Rightarrow> u8" where
  "swchb_byte s = (let
     b = 0xFF;
     b = clear_bits (sw_reset s) 0x01 b;
     b = clear_bits (sw_select s) 0x02 b;
     b = clear_bits (\<not> sw_color s) 0x08 b;
     b = clear_bits (sw_left_difficulty s = Difficulty_B) 0x40 b
   in clear_bits (sw_right_difficulty s = Difficulty_B) 0x80 b)"

record input_state =
  is_joysticks :: "joystick list"
  is_paddles :: "pot list"
  is_switches :: switches

definition input_default :: input_state where
  "input_default = \<lparr>is_joysticks = replicate 2 joystick_default, is_paddles = replicate 4 pot_default,
     is_switches = switches_default\<rparr>"

definition input_riot_ports :: "input_state \<Rightarrow> u8 \<times> u8" where
  "input_riot_ports st = (push_bit 4 (swcha_nibble (is_joysticks st ! 0)) OR swcha_nibble (is_joysticks st ! 1),
     swchb_byte (is_switches st))"

definition fire_level :: "bool \<Rightarrow> u8" where
  "fire_level pressed = (if pressed then 0x00 else 0x80)"

definition fire_inputs :: "input_state \<Rightarrow> u8 \<times> u8" where
  "fire_inputs st = (fire_level (j_fire (is_joysticks st ! 0)), fire_level (j_fire (is_joysticks st ! 1)))"

subsection \<open>Actions\<close>

datatype input_action = JoyUp u8 | JoyDown u8 | JoyLeft u8 | JoyRight u8 | JoyFire u8
  | SwitchSelect | SwitchReset | SwitchColor | SwitchLeftDifficulty | SwitchRightDifficulty

type_synonym key_bindings = "(string \<times> input_action) list"

definition key_bindings_default :: key_bindings where
  "key_bindings_default =
    [(''ArrowUp'', JoyUp 0), (''ArrowDown'', JoyDown 0), (''ArrowLeft'', JoyLeft 0),
     (''ArrowRight'', JoyRight 0), (''KeyZ'', JoyFire 0), (''KeyW'', JoyUp 1), (''KeyS'', JoyDown 1),
     (''KeyA'', JoyLeft 1), (''KeyD'', JoyRight 1), (''KeyQ'', JoyFire 1), (''F1'', SwitchSelect),
     (''F2'', SwitchReset), (''F3'', SwitchColor), (''F4'', SwitchLeftDifficulty), (''F5'', SwitchRightDifficulty)]"

definition action_for :: "key_bindings \<Rightarrow> string \<Rightarrow> input_action option" where
  "action_for binds key_name = map_of binds key_name"

text \<open>\<open>self.joysticks.get_mut(p)\<close>: a player out of range is ignored.\<close>

definition set_joy :: "u8 \<Rightarrow> (joystick \<Rightarrow> joystick) \<Rightarrow> input_state \<Rightarrow> input_state" where
  "set_joy p f st = (if unat p < length (is_joysticks st)
     then st\<lparr>is_joysticks := (is_joysticks st)[unat p := f (is_joysticks st ! unat p)]\<rparr> else st)"

definition on_switches :: "(switches \<Rightarrow> switches) \<Rightarrow> input_state \<Rightarrow> input_state" where
  "on_switches f st = st\<lparr>is_switches := f (is_switches st)\<rparr>"

fun apply_action :: "input_action \<Rightarrow> bool \<Rightarrow> input_state \<Rightarrow> input_state" where
  "apply_action (JoyUp p) pressed st = set_joy p (\<lambda>j. j\<lparr>j_up := pressed\<rparr>) st"
| "apply_action (JoyDown p) pressed st = set_joy p (\<lambda>j. j\<lparr>j_down := pressed\<rparr>) st"
| "apply_action (JoyLeft p) pressed st = set_joy p (\<lambda>j. j\<lparr>j_left := pressed\<rparr>) st"
| "apply_action (JoyRight p) pressed st = set_joy p (\<lambda>j. j\<lparr>j_right := pressed\<rparr>) st"
| "apply_action (JoyFire p) pressed st = set_joy p (\<lambda>j. j\<lparr>j_fire := pressed\<rparr>) st"
| "apply_action SwitchSelect pressed st = on_switches (\<lambda>s. s\<lparr>sw_select := pressed\<rparr>) st"
| "apply_action SwitchReset pressed st = on_switches (\<lambda>s. s\<lparr>sw_reset := pressed\<rparr>) st"
| "apply_action SwitchColor pressed st =
     (if pressed then on_switches (\<lambda>s. s\<lparr>sw_color := \<not> sw_color s\<rparr>) st else st)"
| "apply_action SwitchLeftDifficulty pressed st =
     (if pressed then on_switches (\<lambda>s. s\<lparr>sw_left_difficulty := toggled (sw_left_difficulty s)\<rparr>) st else st)"
| "apply_action SwitchRightDifficulty pressed st =
     (if pressed then on_switches (\<lambda>s. s\<lparr>sw_right_difficulty := toggled (sw_right_difficulty s)\<rparr>) st else st)"

subsection \<open>The touch overlay\<close>

datatype touch_button = TouchUp | TouchDown | TouchLeft | TouchRight | TouchFire | TouchSelect
  | TouchReset | TouchColor | TouchLeftDifficulty | TouchRightDifficulty

definition all_buttons :: "touch_button list" where
  "all_buttons = [TouchUp, TouchDown, TouchLeft, TouchRight, TouchFire, TouchSelect, TouchReset, TouchColor,
     TouchLeftDifficulty, TouchRightDifficulty]"

fun button_action :: "touch_button \<Rightarrow> input_action" where
  "button_action TouchUp = JoyUp 0"
| "button_action TouchDown = JoyDown 0"
| "button_action TouchLeft = JoyLeft 0"
| "button_action TouchRight = JoyRight 0"
| "button_action TouchFire = JoyFire 0"
| "button_action TouchSelect = SwitchSelect"
| "button_action TouchReset = SwitchReset"
| "button_action TouchColor = SwitchColor"
| "button_action TouchLeftDifficulty = SwitchLeftDifficulty"
| "button_action TouchRightDifficulty = SwitchRightDifficulty"

definition is_latching :: "touch_button \<Rightarrow> bool" where
  "is_latching b \<longleftrightarrow> b \<in> {TouchColor, TouchLeftDifficulty, TouchRightDifficulty}"

definition button_edges :: "touch_button list \<Rightarrow> touch_button list \<Rightarrow> touch_button \<Rightarrow> (input_action \<times> bool) list" where
  "button_edges held now_held b = (let was_held = b \<in> set held; is_held = b \<in> set now_held in
     if is_latching b then (if is_held \<and> \<not> was_held then [(button_action b, True)] else [])
     else if was_held \<noteq> is_held then [(button_action b, is_held)] else [])"

text \<open>The edges to apply and the new held buttons.\<close>

definition overlay_update ::
  "touch_button list \<Rightarrow> touch_button list \<Rightarrow> (input_action \<times> bool) list \<times> touch_button list" where
  "overlay_update now_held held = (concat (map (button_edges held now_held) all_buttons), now_held)"

definition apply_edges :: "(input_action \<times> bool) list \<Rightarrow> input_state \<Rightarrow> input_state" where
  "apply_edges = fold (\<lambda>(a, pressed). apply_action a pressed)"

text \<open>The momentary controls show exactly the held buttons.\<close>

definition shows_held :: "touch_button list \<Rightarrow> input_state \<Rightarrow> bool" where
  "shows_held held st \<longleftrightarrow> length (is_joysticks st) = 2 \<and> (let j = is_joysticks st ! 0; s = is_switches st in
     j_up j = (TouchUp \<in> set held) \<and> j_down j = (TouchDown \<in> set held) \<and> j_left j = (TouchLeft \<in> set held) \<and>
     j_right j = (TouchRight \<in> set held) \<and> j_fire j = (TouchFire \<in> set held) \<and>
     sw_select s = (TouchSelect \<in> set held) \<and> sw_reset s = (TouchReset \<in> set held))"

lemma apply_edges_append: "apply_edges (es @ es') st = apply_edges es' (apply_edges es st)"
  by (simp add: apply_edges_def)

lemma same_joysticks: "is_joysticks st = js \<Longrightarrow> st\<lparr>is_joysticks := js\<rparr> = st"
  by (cases st) simp

lemma same_switches: "is_switches st = s \<Longrightarrow> st\<lparr>is_switches := s\<rparr> = st"
  by (cases st) simp

lemma joystick_edges:
  assumes "is_joysticks st = j # js"
  shows "j_up j = (TouchUp \<in> set held) \<Longrightarrow> apply_edges (button_edges held now TouchUp) st =
      st\<lparr>is_joysticks := j\<lparr>j_up := TouchUp \<in> set now\<rparr> # js\<rparr>"
    and "j_down j = (TouchDown \<in> set held) \<Longrightarrow> apply_edges (button_edges held now TouchDown) st =
      st\<lparr>is_joysticks := j\<lparr>j_down := TouchDown \<in> set now\<rparr> # js\<rparr>"
    and "j_left j = (TouchLeft \<in> set held) \<Longrightarrow> apply_edges (button_edges held now TouchLeft) st =
      st\<lparr>is_joysticks := j\<lparr>j_left := TouchLeft \<in> set now\<rparr> # js\<rparr>"
    and "j_right j = (TouchRight \<in> set held) \<Longrightarrow> apply_edges (button_edges held now TouchRight) st =
      st\<lparr>is_joysticks := j\<lparr>j_right := TouchRight \<in> set now\<rparr> # js\<rparr>"
    and "j_fire j = (TouchFire \<in> set held) \<Longrightarrow> apply_edges (button_edges held now TouchFire) st =
      st\<lparr>is_joysticks := j\<lparr>j_fire := TouchFire \<in> set now\<rparr> # js\<rparr>"
  using assms by (cases j; auto simp: button_edges_def Let_def is_latching_def apply_edges_def set_joy_def same_joysticks)+

lemma switch_edges:
  shows "sw_select (is_switches st) = (TouchSelect \<in> set held) \<Longrightarrow> apply_edges (button_edges held now TouchSelect) st =
      st\<lparr>is_switches := (is_switches st)\<lparr>sw_select := TouchSelect \<in> set now\<rparr>\<rparr>"
    and "sw_reset (is_switches st) = (TouchReset \<in> set held) \<Longrightarrow> apply_edges (button_edges held now TouchReset) st =
      st\<lparr>is_switches := (is_switches st)\<lparr>sw_reset := TouchReset \<in> set now\<rparr>\<rparr>"
  by (cases st; cases "is_switches st"; auto simp: button_edges_def Let_def is_latching_def apply_edges_def on_switches_def)+

lemma latch_edges:
  "apply_edges (button_edges held now TouchColor) st = st\<lparr>is_switches := (is_switches st)\<lparr>sw_color :=
     (sw_color (is_switches st) \<noteq> (TouchColor \<in> set now \<and> TouchColor \<notin> set held))\<rparr>\<rparr>"
  "apply_edges (button_edges held now TouchLeftDifficulty) st = st\<lparr>is_switches := (is_switches st)\<lparr>sw_left_difficulty :=
     (if TouchLeftDifficulty \<in> set now \<and> TouchLeftDifficulty \<notin> set held then toggled else id) (sw_left_difficulty (is_switches st))\<rparr>\<rparr>"
  "apply_edges (button_edges held now TouchRightDifficulty) st = st\<lparr>is_switches := (is_switches st)\<lparr>sw_right_difficulty :=
     (if TouchRightDifficulty \<in> set now \<and> TouchRightDifficulty \<notin> set held then toggled else id) (sw_right_difficulty (is_switches st))\<rparr>\<rparr>"
  by (cases st; cases "is_switches st"; auto simp: button_edges_def Let_def is_latching_def apply_edges_def on_switches_def)+

text \<open>
  C37: however the touched buttons change from one pass to the next, applying the overlay's edges makes
  the first joystick and the momentary switches show exactly the buttons held now; each latching
  switch flips once when its button becomes held and not again while it stays held; the second
  joystick and the paddles are left alone.
\<close>

theorem overlay_tracks:
  assumes "shows_held held st" "overlay_update now_held held = (edges, held')"
  defines "st' \<equiv> apply_edges edges st"
  defines "fresh \<equiv> (\<lambda>b. b \<in> set now_held \<and> b \<notin> set held)"
  shows "held' = now_held \<and> shows_held now_held st' \<and>
    sw_color (is_switches st') = (sw_color (is_switches st) \<noteq> fresh TouchColor) \<and>
    sw_left_difficulty (is_switches st') =
      (if fresh TouchLeftDifficulty then toggled else id) (sw_left_difficulty (is_switches st)) \<and>
    sw_right_difficulty (is_switches st') =
      (if fresh TouchRightDifficulty then toggled else id) (sw_right_difficulty (is_switches st)) \<and>
    is_joysticks st' ! 1 = is_joysticks st ! 1 \<and> is_paddles st' = is_paddles st"
proof -
  obtain j0 j1 where js: "is_joysticks st = [j0, j1]"
    using assms(1) by (auto simp: shows_held_def numeral_2_eq_2 length_Suc_conv)
  have edges: "edges = concat (map (button_edges held now_held) all_buttons)" "held' = now_held"
    using assms(2) by (auto simp: overlay_update_def)
  have "apply_edges edges st = st\<lparr>is_joysticks := [\<lparr>j_up = TouchUp \<in> set now_held, j_down = TouchDown \<in> set now_held,
        j_left = TouchLeft \<in> set now_held, j_right = TouchRight \<in> set now_held, j_fire = TouchFire \<in> set now_held\<rparr>, j1],
      is_switches := \<lparr>sw_select = TouchSelect \<in> set now_held, sw_reset = TouchReset \<in> set now_held,
        sw_color = (sw_color (is_switches st) \<noteq> fresh TouchColor),
        sw_left_difficulty = (if fresh TouchLeftDifficulty then toggled else id) (sw_left_difficulty (is_switches st)),
        sw_right_difficulty = (if fresh TouchRightDifficulty then toggled else id) (sw_right_difficulty (is_switches st))\<rparr>\<rparr>"
    using assms(1) js
    by (simp add: edges all_buttons_def apply_edges_append joystick_edges switch_edges latch_edges shows_held_def Let_def
        fresh_def)
  then show ?thesis using js edges(2) by (simp add: st'_def shows_held_def)
qed

lemma overlay_tracks_witness:
  "let (edges, held) = overlay_update [TouchUp, TouchColor] []; st = apply_edges edges input_default in
   shows_held held st \<and> sw_color (is_switches st) = False"
proof -
  have "shows_held [] input_default"
    by (simp add: shows_held_def input_default_def joystick_default_def switches_default_def numeral_2_eq_2)
  moreover have "overlay_update [TouchUp, TouchColor] [] =
      (fst (overlay_update [TouchUp, TouchColor] []), snd (overlay_update [TouchUp, TouchColor] []))" by simp
  ultimately have "snd (overlay_update [TouchUp, TouchColor] []) = [TouchUp, TouchColor] \<and>
      shows_held [TouchUp, TouchColor] (apply_edges (fst (overlay_update [TouchUp, TouchColor] [])) input_default) \<and>
      sw_color (is_switches (apply_edges (fst (overlay_update [TouchUp, TouchColor] [])) input_default)) =
        (sw_color (is_switches input_default) \<noteq> True)"
    using overlay_tracks by fastforce
  then show ?thesis by (simp add: split_beta Let_def) (simp add: input_default_def switches_default_def)
qed

subsection \<open>The packed bytes\<close>

text \<open>
  Bit \<open>4\<close> to \<open>7\<close> of the first port byte are the first joystick's directions, bits \<open>0\<close> to \<open>3\<close> the
  second's, each low when pressed; the console byte has reset, select, colour and the difficulties.
\<close>

lemma nibble_bits:
  "bit (swcha_nibble j) 0 \<longleftrightarrow> \<not> j_up j" "bit (swcha_nibble j) (Suc 0) \<longleftrightarrow> \<not> j_down j"
  "bit (swcha_nibble j) 2 \<longleftrightarrow> \<not> j_left j" "bit (swcha_nibble j) 3 \<longleftrightarrow> \<not> j_right j"
  "\<not> bit (swcha_nibble j) 4" "\<not> bit (swcha_nibble j) 5" "\<not> bit (swcha_nibble j) 6" "\<not> bit (swcha_nibble j) 7"
  by (simp_all add: swcha_nibble_def clear_bits_def bit_simps)

lemma port_bits:
  "bit (fst (input_riot_ports st)) 4 \<longleftrightarrow> \<not> j_up (is_joysticks st ! 0)" "bit (fst (input_riot_ports st)) 5 \<longleftrightarrow> \<not> j_down (is_joysticks st ! 0)"
  "bit (fst (input_riot_ports st)) 6 \<longleftrightarrow> \<not> j_left (is_joysticks st ! 0)" "bit (fst (input_riot_ports st)) 7 \<longleftrightarrow> \<not> j_right (is_joysticks st ! 0)"
  "bit (fst (input_riot_ports st)) 0 \<longleftrightarrow> \<not> j_up (is_joysticks st ! 1)" "bit (fst (input_riot_ports st)) (Suc 0) \<longleftrightarrow> \<not> j_down (is_joysticks st ! 1)"
  "bit (fst (input_riot_ports st)) 2 \<longleftrightarrow> \<not> j_left (is_joysticks st ! 1)" "bit (fst (input_riot_ports st)) 3 \<longleftrightarrow> \<not> j_right (is_joysticks st ! 1)"
  by (simp_all add: input_riot_ports_def bit_simps nibble_bits)

lemma console_bits:
  "bit (snd (input_riot_ports st)) 0 \<longleftrightarrow> \<not> sw_reset (is_switches st)" "bit (snd (input_riot_ports st)) (Suc 0) \<longleftrightarrow> \<not> sw_select (is_switches st)"
  "bit (snd (input_riot_ports st)) 3 \<longleftrightarrow> sw_color (is_switches st)"
  "bit (snd (input_riot_ports st)) 6 \<longleftrightarrow> sw_left_difficulty (is_switches st) = Difficulty_A"
  "bit (snd (input_riot_ports st)) 7 \<longleftrightarrow> sw_right_difficulty (is_switches st) = Difficulty_A"
  using difficulty.exhaust [of "sw_left_difficulty (is_switches st)"] difficulty.exhaust [of "sw_right_difficulty (is_switches st)"]
  by (auto simp: input_riot_ports_def swchb_byte_def Let_def clear_bits_def bit_simps)

subsection \<open>The shared snapshot\<close>

record shared_input =
  si_packed :: u32
  si_paddles :: u32

definition pack_bytes :: "u8 \<Rightarrow> u8 \<Rightarrow> u8 \<Rightarrow> u8 \<Rightarrow> u32" where
  "pack_bytes a b c d = push_bit 24 (ucast a) OR push_bit 16 (ucast b) OR push_bit 8 (ucast c) OR ucast d"

definition shared_store :: "input_state \<Rightarrow> shared_input \<Rightarrow> shared_input" where
  "shared_store st si = (let
     (swcha, swchb) = input_riot_ports st;
     (inpt4, inpt5) = fire_inputs st;
     p = is_paddles st
   in si\<lparr>si_packed := pack_bytes swcha swchb inpt4 inpt5,
         si_paddles := pack_bytes (pot_position (p ! 0)) (pot_position (p ! 1)) (pot_position (p ! 2)) (pot_position (p ! 3))\<rparr>)"

definition shared_new :: shared_input where
  "shared_new = shared_store input_default \<lparr>si_packed = 0, si_paddles = 0\<rparr>"

type_synonym frame_input = "u8 \<times> u8 \<times> u8 \<times> u8 \<times> u8 list"

definition shared_load :: "shared_input \<Rightarrow> frame_input" where
  "shared_load si = (let packed = si_packed si; pp = si_paddles si in
     (ucast (drop_bit 24 packed), ucast (drop_bit 16 packed), ucast (drop_bit 8 packed), ucast packed,
      [ucast (drop_bit 24 pp), ucast (drop_bit 16 pp), ucast (drop_bit 8 pp), ucast pp]))"

definition load_ports :: "shared_input \<Rightarrow> u8 \<times> u8 \<times> u8 \<times> u8" where
  "load_ports si = (let p = si_packed si; byte = (\<lambda>shift. ucast (drop_bit shift p AND 0xFF))
     in (byte 24, byte 16, byte 8, byte 0))"

lemma pack_unpack:
  "ucast (drop_bit 24 (pack_bytes a b c d)) = a" "ucast (drop_bit 16 (pack_bytes a b c d)) = b"
  "ucast (drop_bit 8 (pack_bytes a b c d)) = c" "ucast (pack_bytes a b c d) = d"
  by (rule bit_word_eqI; simp add: pack_bytes_def bit_simps; (auto dest: bit_imp_le_length)?)+

lemma byte_and_ones: "x AND 255 = (x :: u8)"
proof -
  have "(255 :: u8) = - 1" by simp
  then show ?thesis by (metis and.right_neutral)
qed

lemma shared_load_store:
  "is_paddles st = [p0, p1, p2, p3] \<Longrightarrow> shared_load (shared_store st si) = (fst (input_riot_ports st), snd (input_riot_ports st),
     fst (fire_inputs st), snd (fire_inputs st), map pot_position [p0, p1, p2, p3])"
  by (simp add: shared_load_def shared_store_def split_beta Let_def pack_unpack)

text \<open>
  C36: the emulation thread reads back exactly what the window thread stored: the port bytes with one
  low bit per pressed direction and switch, the two fire levels and the four paddle positions.
\<close>

theorem shared_input_roundtrip:
  assumes "is_paddles st = [p0, p1, p2, p3]"
  shows "\<exists>swcha swchb inpt4 inpt5.
    shared_load (shared_store st si) = (swcha, swchb, inpt4, inpt5, map pot_position [p0, p1, p2, p3]) \<and>
    load_ports (shared_store st si) = (swcha, swchb, inpt4, inpt5) \<and>
    (\<forall>i < 2. let j = is_joysticks st ! i; low = (\<lambda>n. \<not> bit swcha (4 - 4 * i + n)) in
       low 0 = j_up j \<and> low 1 = j_down j \<and> low 2 = j_left j \<and> low 3 = j_right j) \<and>
    (let s = is_switches st in \<not> bit swchb 0 = sw_reset s \<and> \<not> bit swchb 1 = sw_select s \<and> bit swchb 3 = sw_color s \<and>
       bit swchb 6 = (sw_left_difficulty s = Difficulty_A) \<and> bit swchb 7 = (sw_right_difficulty s = Difficulty_A)) \<and>
    (inpt4 = 0) = j_fire (is_joysticks st ! 0) \<and> (inpt5 = 0) = j_fire (is_joysticks st ! 1)"
proof (intro exI conjI)
  show "shared_load (shared_store st si) = (fst (input_riot_ports st), snd (input_riot_ports st), fst (fire_inputs st), snd (fire_inputs st),
      map pot_position [p0, p1, p2, p3])"
    by (rule shared_load_store [OF assms])
  show "load_ports (shared_store st si) = (fst (input_riot_ports st), snd (input_riot_ports st), fst (fire_inputs st), snd (fire_inputs st))"
    by (simp add: load_ports_def shared_store_def split_beta Let_def unsigned_and_eq pack_unpack byte_and_ones)
qed (auto simp: less_2_cases_iff Let_def port_bits port_bits(7) [unfolded numeral_2_eq_2] console_bits fire_inputs_def fire_level_def)

lemma shared_input_roundtrip_witness:
  "\<exists>swcha swchb inpt4 inpt5. shared_load shared_new = (swcha, swchb, inpt4, inpt5, [0, 0, 0, 0]) \<and>
     bit swcha 4 \<and> bit swchb 3"
proof -
  have "is_paddles input_default = [pot_default, pot_default, pot_default, pot_default]"
    by (simp add: input_default_def eval_nat_numeral)
  from shared_input_roundtrip [OF this, of "\<lparr>si_packed = 0, si_paddles = 0\<rparr>"]
  obtain swcha swchb inpt4 inpt5 where load: "shared_load shared_new = (swcha, swchb, inpt4, inpt5, [0, 0, 0, 0])"
    and ports: "\<forall>i < 2. let j = is_joysticks input_default ! i; low = (\<lambda>n. \<not> bit swcha (4 - 4 * i + n)) in
       low 0 = j_up j \<and> low 1 = j_down j \<and> low 2 = j_left j \<and> low 3 = j_right j"
    and color: "bit swchb 3 = sw_color (is_switches input_default)"
    unfolding shared_new_def Let_def by (auto simp: pot_default_def)
  from ports have "bit swcha 4" by (drule_tac spec [of _ 0]) (simp add: Let_def input_default_def joystick_default_def)
  then show ?thesis using load color by (auto simp: input_default_def switches_default_def)
qed

end
