(* ===== verification/Frames.thy ===== *)
theory Frames
  imports Save_State Input
begin

text \<open>
  Whole frames: the loop from one falling edge of VSYNC to the next, which the frontend and netplay
  share, and the rollback session of \<open>crates/rusty2600-netplay/src/session.rs\<close> and
  \<open>frame_advance.rs\<close>. The rollback engine (the \<open>ggrs\<close> crate) is the environment: it hands out lists of
  requests and keeps the saved blobs in cells. A session that saves, rolls back and replays is shown
  to compute the straight-line run of the inputs it ends up with.
\<close>

subsection \<open>The frame loop\<close>

abbreviation sys_vsync :: "('f, 'c) system \<Rightarrow> u8" where
  "sys_vsync s \<equiv> ob_vsync (tia_objects (b_tia (sys_bus s)))"

text \<open>At most \<open>n\<close> instructions, up to the end of VSYNC.\<close>

fun frame_loop :: "'f fops \<Rightarrow> 'c board_ops \<Rightarrow> nat \<Rightarrow> u8 \<Rightarrow> ('f, 'c) system \<Rightarrow> ('f, 'c) system option" where
  "frame_loop F C 0 old_vsync s = Some s"
| "frame_loop F C (Suc n) old_vsync s = do {
     (k, s) \<leftarrow> step_instruction F C s;
     let vsync = sys_vsync s;
     if old_vsync AND 0x02 \<noteq> 0 \<and> vsync AND 0x02 = 0 then Some s else frame_loop F C n vsync s }"

lemma sys_vsync_kept: "kept_system s = kept_system s' \<Longrightarrow> sys_vsync s = sys_vsync s'"
proof -
  have "sys_vsync (kept_system s) = sys_vsync s" for s :: "('a, 'b) system" by (simp add: kept_system_def)
  then show "kept_system s = kept_system s' \<Longrightarrow> sys_vsync s = sys_vsync s'" by metis
qed

lemma frame_loop_cong:
  "kept_system s = kept_system s' \<Longrightarrow>
   map_option kept_system (frame_loop F C n old s) = map_option kept_system (frame_loop F C n old s')"
proof (induction n arbitrary: old s s')
  case (Suc n)
  show ?case
    unfolding frame_loop.simps
    by (rule bind_cong_via [OF step_instruction_cong [OF Suc.prems]])
      (clarsimp simp: Let_def, frule sys_vsync_kept, auto intro: Suc.IH)
qed simp

lemma sys_ok_kept: "sys_ok ok s \<Longrightarrow> sys_ok ok (kept_system s)"
  by (simp add: sys_ok_def bus_ok_def kept_system_def tia_ok_def) (simp add: kept_bus_def write_log_default_def)

context vcs_bus
begin

lemma frame_loop_ok: "sys_ok ok s \<Longrightarrow> wpo (frame_loop F C n old s) (sys_ok ok)"
proof (induction n arbitrary: old s)
  case (Suc n)
  show ?case
    by (auto simp: Let_def intro!: wpo_mono [OF step_instruction_ok [OF Suc.prems]] Suc.IH)
qed simp

end

subsection \<open>One frame of netplay\<close>

record port_input =
  pi_up :: bool
  pi_down :: bool
  pi_left :: bool
  pi_right :: bool
  pi_fire :: bool

definition net_swcha_nibble :: "port_input \<Rightarrow> u8" where
  "net_swcha_nibble i = (let
     n = 0xF;
     n = clear_bits (pi_up i) 0x1 n;
     n = clear_bits (pi_down i) 0x2 n;
     n = clear_bits (pi_left i) 0x4 n
   in clear_bits (pi_right i) 0x8 n)"

definition combine :: "port_input \<Rightarrow> port_input \<Rightarrow> movie_frame" where
  "combine port0 port1 = (let
     swcha = push_bit 4 (net_swcha_nibble port0) OR net_swcha_nibble port1;
     joy_fire = 0;
     joy_fire = (if pi_fire port0 then joy_fire OR 0x01 else joy_fire);
     joy_fire = (if pi_fire port1 then joy_fire OR 0x02 else joy_fire)
   in movie_frame_default\<lparr>mf_swcha := swcha, mf_joy_fire := joy_fire\<rparr>)"

definition feed_frame :: "movie_frame \<Rightarrow> ('f, 'c) system \<Rightarrow> ('f, 'c) system" where
  "feed_frame input s = (let
     b = sys_bus s;
     r = (b_riot b)\<lparr>riot_pins := (riot_pins (b_riot b))[0 := mf_swcha input, 1 := mf_swchb input]\<rparr>;
     t = (b_tia b)\<lparr>tia_inpt := (tia_inpt (b_tia b))
       [4 := if mf_joy_fire input AND 0x01 \<noteq> 0 then 0x00 else 0x80,
        5 := if mf_joy_fire input AND 0x02 \<noteq> 0 then 0x00 else 0x80,
        0 := mf_paddle_pos input ! 0, 1 := mf_paddle_pos input ! 1, 2 := mf_paddle_pos input ! 2,
        3 := mf_paddle_pos input ! 3]\<rparr>
   in s\<lparr>sys_bus := b\<lparr>b_riot := r, b_tia := t\<rparr>\<rparr>)"

definition advance_one_frame ::
  "'f fops \<Rightarrow> 'c board_ops \<Rightarrow> movie_frame \<Rightarrow> ('f, 'c) system \<Rightarrow> ('f, 'c) system option" where
  "advance_one_frame F C input s = (let s = feed_frame input s in frame_loop F C 200000 (sys_vsync s) s)"

fun advance_all ::
  "'f fops \<Rightarrow> 'c board_ops \<Rightarrow> (port_input \<times> port_input) list \<Rightarrow> ('f, 'c) system \<Rightarrow> ('f, 'c) system option" where
  "advance_all F C [] s = Some s"
| "advance_all F C ((p0, p1) # is) s = do { s \<leftarrow> advance_one_frame F C (combine p0 p1) s; advance_all F C is s }"

lemma feed_frame_kept: "feed_frame i (kept_system s) = kept_system (feed_frame i s)"
  by (simp add: feed_frame_def Let_def kept_system_def kept_tia_upd)

lemma advance_one_frame_cong:
  "kept_system s = kept_system s' \<Longrightarrow>
   map_option kept_system (advance_one_frame F C i s) = map_option kept_system (advance_one_frame F C i s')"
proof -
  assume "kept_system s = kept_system s'"
  then have fed: "kept_system (feed_frame i s) = kept_system (feed_frame i s')" by (metis feed_frame_kept)
  show ?thesis
    unfolding advance_one_frame_def Let_def sys_vsync_kept [OF fed] by (rule frame_loop_cong [OF fed])
qed

lemma advance_all_snoc:
  "advance_all F C (is @ [(p0, p1)]) = (\<lambda>s. Option.bind (advance_all F C is s) (advance_one_frame F C (combine p0 p1)))"
proof (induction "is")
  case Nil
  have "advance_all F C [] = Some" by (rule ext) simp
  then show ?case by (auto intro: ext)
next
  case (Cons p "is")
  then show ?case by (cases p) (auto intro!: ext)
qed

lemma feed_frame_ok: "sys_ok ok s \<Longrightarrow> sys_ok ok (feed_frame i s)"
  by (simp add: sys_ok_def bus_ok_def feed_frame_def Let_def tia_ok_def riot_ok_def)

context vcs_bus
begin

lemma advance_one_frame_ok: "sys_ok ok s \<Longrightarrow> wpo (advance_one_frame F C i s) (sys_ok ok)"
  by (simp add: advance_one_frame_def Let_def frame_loop_ok feed_frame_ok)

end

subsection \<open>The rollback session\<close>

datatype request = SaveGameState int | LoadGameState int | AdvanceFrame port_input port_input

text \<open>The engine's cells, one per frame, and the standard library's hasher.\<close>

record ('k, 'w) cells =
  cell_save :: "int \<Rightarrow> 'w \<Rightarrow> 128 word \<Rightarrow> 'k \<Rightarrow> 'k"
  cell_load :: "int \<Rightarrow> 'k \<Rightarrow> 'w option"
  checksum128 :: "'w \<Rightarrow> 128 word"

text \<open>
  What the code relies on: a cell returns the blob last saved for its frame, until a frame \<open>w\<close> or more away is
  saved, which may reuse it.
\<close>

definition cells_ok :: "int \<Rightarrow> ('k, 'w) cells \<Rightarrow> bool" where
  "cells_ok w G \<longleftrightarrow> (\<forall>f b h f' k.
     (f' = f \<longrightarrow> cell_load G f' (cell_save G f b h k) = Some b) \<and>
     (f' \<noteq> f \<and> \<bar>f' - f\<bar> < w \<longrightarrow> cell_load G f' (cell_save G f b h k) = cell_load G f' k))"

text \<open>The machine, the cells and whether a frame was simulated; \<open>None\<close> is an \<open>expect\<close> that fails.\<close>

fun handle_requests ::
  "'f fops \<Rightarrow> 'c board_ops \<Rightarrow> (('f, 'c) save_state, 'w) codec \<Rightarrow> ('k, 'w) cells \<Rightarrow> u64 \<Rightarrow> request list \<Rightarrow>
   ('f, 'c) system \<Rightarrow> 'k \<Rightarrow> bool \<Rightarrow> (('f, 'c) system \<times> 'k \<times> bool) option" where
  "handle_requests F C K G rom_tag [] s k adv = Some (s, k, adv)"
| "handle_requests F C K G rom_tag (SaveGameState frame # rs) s k adv = (let
     blob = encode K (capture s rom_tag);
     checksum = checksum128 G blob
   in handle_requests F C K G rom_tag rs s (cell_save G frame blob checksum k) adv)"
| "handle_requests F C K G rom_tag (LoadGameState frame # rs) s k adv = (case cell_load G frame k of
     None \<Rightarrow> None
   | Some blob \<Rightarrow> (case restore K blob rom_tag of
       Inl e \<Rightarrow> None
     | Inr s \<Rightarrow> handle_requests F C K G rom_tag rs s k adv))"
| "handle_requests F C K G rom_tag (AdvanceFrame port0 port1 # rs) s k adv = do {
     s \<leftarrow> advance_one_frame F C (combine port0 port1) s;
     handle_requests F C K G rom_tag rs s k True }"

text \<open>What the engine answered to the local input and to its own \<open>advance_frame\<close>.\<close>

datatype 'e engine_reply = InputRejected 'e | PredictionThreshold | EngineError 'e | Requests "request list"

definition session_advance ::
  "'f fops \<Rightarrow> 'c board_ops \<Rightarrow> (('f, 'c) save_state, 'w) codec \<Rightarrow> ('k, 'w) cells \<Rightarrow> u64 \<Rightarrow> 'e engine_reply \<Rightarrow>
   ('f, 'c) system \<Rightarrow> 'k \<Rightarrow> (('e + bool) \<times> ('f, 'c) system \<times> 'k) option" where
  "session_advance F C K G rom_tag reply s k = (case reply of
     InputRejected e \<Rightarrow> Some (Inl e, s, k)
   | PredictionThreshold \<Rightarrow> Some (Inr False, s, k)
   | EngineError e \<Rightarrow> Some (Inl e, s, k)
   | Requests rs \<Rightarrow> do {
       (s, k, adv) \<leftarrow> handle_requests F C K G rom_tag rs s k False;
       Some (Inr adv, s, k) })"

text \<open>A session over many host frames: each hands it one answer of the engine, and its machine and cells stay.\<close>

fun session_run ::
  "'f fops \<Rightarrow> 'c board_ops \<Rightarrow> (('f, 'c) save_state, 'w) codec \<Rightarrow> ('k, 'w) cells \<Rightarrow> u64 \<Rightarrow> 'e engine_reply list \<Rightarrow>
   ('f, 'c) system \<Rightarrow> 'k \<Rightarrow> (('e + bool) list \<times> ('f, 'c) system \<times> 'k) option" where
  "session_run F C K G rom_tag [] s k = Some ([], s, k)"
| "session_run F C K G rom_tag (reply # replies) s k = do {
     (result, s, k) \<leftarrow> session_advance F C K G rom_tag reply s k;
     (results, s, k) \<leftarrow> session_run F C K G rom_tag replies s k;
     Some (result # results, s, k) }"

text \<open>
  The inputs a request list stands for: advancing appends, saving remembers them under a frame,
  loading goes back to what was remembered; loading a frame never saved, or whose cell a frame \<open>w\<close> or more away
  may have taken since, is \<open>None\<close>.
\<close>

type_synonym history = "(port_input \<times> port_input) list"

definition remember :: "int \<Rightarrow> int \<Rightarrow> history \<Rightarrow> (int \<Rightarrow> history option) \<Rightarrow> int \<Rightarrow> history option" where
  "remember w f h saved f' = (if f' = f then Some h else if \<bar>f' - f\<bar> < w then saved f' else None)"

fun settled_inputs :: "int \<Rightarrow> request list \<Rightarrow> history \<Rightarrow> (int \<Rightarrow> history option) \<Rightarrow> (history \<times> (int \<Rightarrow> history option)) option" where
  "settled_inputs w [] h saved = Some (h, saved)"
| "settled_inputs w (SaveGameState f # rs) h saved = settled_inputs w rs h (remember w f h saved)"
| "settled_inputs w (LoadGameState f # rs) h saved = (case saved f of None \<Rightarrow> None | Some h \<Rightarrow> settled_inputs w rs h saved)"
| "settled_inputs w (AdvanceFrame p0 p1 # rs) h saved = settled_inputs w rs (h @ [(p0, p1)]) saved"

text \<open>The same over the answers of many host frames; an answer without requests leaves the game where it is.\<close>

fun settled_replies :: "int \<Rightarrow> 'e engine_reply list \<Rightarrow> history \<Rightarrow> (int \<Rightarrow> history option) \<Rightarrow> (history \<times> (int \<Rightarrow> history option)) option" where
  "settled_replies w [] h saved = Some (h, saved)"
| "settled_replies w (Requests rs # replies) h saved = do {
     (h, saved) \<leftarrow> settled_inputs w rs h saved;
     settled_replies w replies h saved }"
| "settled_replies w (_ # replies) h saved = settled_replies w replies h saved"

text \<open>The machine and the saved blobs are those of straight-line runs.\<close>

definition straight :: "'f fops \<Rightarrow> ('f, cartridge) system \<Rightarrow> history \<Rightarrow> ('f, cartridge) system \<Rightarrow> bool" where
  "straight F s0 h s \<longleftrightarrow> sys_ok plain_cart_ok s \<and>
     map_option kept_system (advance_all F cart_ops h s0) = Some (kept_system s)"

lemma straight_advance:
  assumes "straight F s0 h s"
  shows "\<exists>s'. advance_one_frame F cart_ops (combine p0 p1) s = Some s' \<and> straight F s0 (h @ [(p0, p1)]) s'"
proof -
  obtain t where t: "advance_all F cart_ops h s0 = Some t" "kept_system t = kept_system s"
    using assms by (auto simp: straight_def)
  obtain s' where s': "advance_one_frame F cart_ops (combine p0 p1) s = Some s'" "sys_ok plain_cart_ok s'"
    using vcs.advance_one_frame_ok [of s F "combine p0 p1"] assms by (auto simp: straight_def wpo_def)
  have "map_option kept_system (advance_one_frame F cart_ops (combine p0 p1) t) = Some (kept_system s')"
    using advance_one_frame_cong [OF t(2), of F cart_ops "combine p0 p1"] s'(1) by simp
  then show ?thesis using s' t(1) by (simp add: straight_def advance_all_snoc)
qed

lemma straight_kept: "straight F s0 h s \<Longrightarrow> straight F s0 h (kept_system s)"
  by (simp add: straight_def sys_ok_kept)

definition cells_hold ::
  "'f fops \<Rightarrow> (('f, cartridge) save_state, 'w) codec \<Rightarrow> ('k, 'w) cells \<Rightarrow> u64 \<Rightarrow> ('f, cartridge) system \<Rightarrow>
   (int \<Rightarrow> history option) \<Rightarrow> 'k \<Rightarrow> bool" where
  "cells_hold F K G tag s0 saved k \<longleftrightarrow> (\<forall>f h. saved f = Some h \<longrightarrow>
     (\<exists>t. straight F s0 h t \<and> cell_load G f k = Some (encode K (capture t tag))))"

lemma cells_hold_save:
  assumes "cells_ok w G" "cells_hold F K G tag s0 saved k" "straight F s0 h s"
  shows "cells_hold F K G tag s0 (remember w f h saved) (cell_save G f (encode K (capture s tag)) c k)"
  using assms by (auto simp: cells_ok_def cells_hold_def remember_def)

lemma rollback_step:
  assumes "codec_keeps K" "cells_ok w G" "settled_inputs w rs h saved = Some (h', saved')" "straight F s0 h s"
    and "cells_hold F K G tag s0 saved k"
  shows "\<exists>s' k' adv'. handle_requests F cart_ops K G tag rs s k adv = Some (s', k', adv') \<and> straight F s0 h' s' \<and>
    cells_hold F K G tag s0 saved' k'"
  using assms(3-5)
proof (induction rs arbitrary: h saved s k adv)
  case (Cons r rs)
  show ?case
  proof (cases r)
    case (SaveGameState f)
    then have "settled_inputs w rs h (remember w f h saved) = Some (h', saved')" using Cons.prems(1) by simp
    from Cons.IH [OF this Cons.prems(2) cells_hold_save [OF assms(2) Cons.prems(3,2)]] show ?thesis
      by (simp add: SaveGameState Let_def)
  next
    case (LoadGameState f)
    then obtain g where g: "saved f = Some g" "settled_inputs w rs g saved = Some (h', saved')"
      using Cons.prems(1) by (auto split: option.splits)
    then obtain t where t: "straight F s0 g t" "cell_load G f k = Some (encode K (capture t tag))"
      using Cons.prems(3) by (auto simp: cells_hold_def)
    from Cons.IH [OF g(2) straight_kept [OF t(1)] Cons.prems(3), where adv = adv] t(2) show ?thesis
      by (simp add: LoadGameState restore_capture [OF assms(1)])
  next
    case (AdvanceFrame p0 p1)
    obtain s' where s': "advance_one_frame F cart_ops (combine p0 p1) s = Some s'" "straight F s0 (h @ [(p0, p1)]) s'"
      using straight_advance [OF Cons.prems(2)] by blast
    have "settled_inputs w rs (h @ [(p0, p1)]) saved = Some (h', saved')" using Cons.prems(1) by (simp add: AdvanceFrame)
    from Cons.IH [OF this s'(2) Cons.prems(3), where adv = True] s'(1) show ?thesis by (simp add: AdvanceFrame)
  qed
qed simp

lemma session_run_step:
  "session_advance F C K G tag reply s k = Some (r, s1, k1) \<Longrightarrow>
   \<exists>results s' k'. session_run F C K G tag replies s1 k1 = Some (results, s', k') \<and> P s' \<Longrightarrow>
   \<exists>results s' k'. session_run F C K G tag (reply # replies) s k = Some (results, s', k') \<and> P s'"
  by fastforce

lemma rollback_run:
  assumes "codec_keeps K" "cells_ok w G" "settled_replies w replies h saved = Some (h', saved')" "straight F s0 h s"
    and "cells_hold F K G tag s0 saved k"
  shows "\<exists>results s' k'. session_run F cart_ops K G tag replies s k = Some (results, s', k') \<and> straight F s0 h' s'"
  using assms(3-5)
proof (induction replies arbitrary: h saved s k)
  case (Cons reply replies)
  show ?case
  proof (cases reply)
    case (Requests rs)
    then obtain h1 saved1 where settled: "settled_inputs w rs h saved = Some (h1, saved1)"
        "settled_replies w replies h1 saved1 = Some (h', saved')"
      using Cons.prems(1) by (auto simp: bind_eq_Some_conv)
    from rollback_step [OF assms(1,2) settled(1) Cons.prems(2,3), of False] obtain s1 k1 adv where
      s1: "handle_requests F cart_ops K G tag rs s k False = Some (s1, k1, adv)" "straight F s0 h1 s1"
        "cells_hold F K G tag s0 saved1 k1" by auto
    have "session_advance F cart_ops K G tag reply s k = Some (Inr adv, s1, k1)"
      by (simp add: session_advance_def Requests s1(1))
    then show ?thesis by (rule session_run_step [OF _ Cons.IH [OF settled(2) s1(2,3)]])
  next
    case (InputRejected e)
    have "session_advance F cart_ops K G tag reply s k = Some (Inl e, s, k)" by (simp add: session_advance_def InputRejected)
    then show ?thesis using InputRejected Cons.prems by (intro session_run_step [OF _ Cons.IH]) simp_all
  next
    case PredictionThreshold
    have "session_advance F cart_ops K G tag reply s k = Some (Inr False, s, k)"
      by (simp add: session_advance_def PredictionThreshold)
    then show ?thesis using PredictionThreshold Cons.prems by (intro session_run_step [OF _ Cons.IH]) simp_all
  next
    case (EngineError e)
    have "session_advance F cart_ops K G tag reply s k = Some (Inl e, s, k)" by (simp add: session_advance_def EngineError)
    then show ?thesis using EngineError Cons.prems by (intro session_run_step [OF _ Cons.IH]) simp_all
  qed
qed simp

text \<open>
  C3: a netplay session on a cartridge without an ARM coprocessor. Whatever the rollback engine asks over any number
  of host frames, in whatever order of saves, loads and frames, loads of frames saved during earlier host frames
  included, as long as it loads only frames it saved and whose cells no frame \<open>w\<close> or more away has taken since: no
  \<open>expect\<close> fails, and the machine ends up, as far as any program can tell, as a machine that played the settled inputs
  once from start to end.
\<close>

theorem rollback_is_straight_line:
  assumes "codec_keeps K" "cells_ok w G" "sys_ok plain_cart_ok s"
    and "settled_replies w replies [] Map.empty = Some (h, saved)"
  shows "\<exists>results s' k' t. session_run F cart_ops K G tag replies s k = Some (results, s', k') \<and>
    advance_all F cart_ops h s = Some t \<and> kept_system s' = kept_system t"
proof -
  have "straight F s [] s" using assms(3) by (simp add: straight_def)
  from rollback_run [OF assms(1,2,4) this, of tag k]
  obtain results s' k' where "session_run F cart_ops K G tag replies s k = Some (results, s', k')" "straight F s h s'"
    by (auto simp: cells_hold_def)
  then show ?thesis by (auto simp: straight_def)
qed

definition idle_input :: port_input where
  "idle_input = \<lparr>pi_up = False, pi_down = False, pi_left = False, pi_right = False, pi_fire = False\<rparr>"

text \<open>A frame saved and guessed in one host frame, rolled back to and replayed with the right input in a later one.\<close>

lemma rollback_is_straight_line_witness:
  "\<forall>(F :: 'f fops). \<exists>(s :: ('f, cartridge) system) (K :: (('f, cartridge) save_state, ('f, cartridge) save_state) codec)
     (G :: (int \<Rightarrow> ('f, cartridge) save_state option, ('f, cartridge) save_state) cells) up results s' k' t.
     session_run F cart_ops K G 7 ([Requests [SaveGameState 0, AdvanceFrame up idle_input], PredictionThreshold,
       Requests [LoadGameState 0, AdvanceFrame up up]] :: unit engine_reply list) s Map.empty = Some (results, s', k') \<and>
     advance_all F cart_ops [(up, up)] s = Some t \<and> kept_system s' = kept_system t"
proof (intro allI)
  fix F :: "'f fops"
  let ?s = "plug (BankF8 demo_f8) (system_new F 42) :: ('f, cartridge) system"
  let ?K = "\<lparr>to_allocvec = (\<lambda>st. Some (st\<lparr>ss_system := kept_system (ss_system st)\<rparr>)), from_bytes = Some, no_bytes = capture ?s 0\<rparr>"
  let ?G = "\<lparr>cell_save = (\<lambda>f b h k. k(f mod 8 \<mapsto> b)), cell_load = (\<lambda>f k. k (f mod 8)), checksum128 = (\<lambda>b. 0)\<rparr>
    :: (int \<Rightarrow> ('f, cartridge) save_state option, ('f, cartridge) save_state) cells"
  let ?up = "idle_input\<lparr>pi_up := True\<rparr>"
  let ?rs = "[Requests [SaveGameState 0, AdvanceFrame ?up idle_input], PredictionThreshold,
    Requests [LoadGameState 0, AdvanceFrame ?up ?up]] :: unit engine_reply list"
  have K: "codec_keeps ?K" by (simp add: codec_keeps_def)
  have "f mod 8 \<noteq> f' mod 8" if "f \<noteq> f'" "\<bar>f' - f\<bar> < 8" for f f' :: int
  proof
    assume "f mod 8 = f' mod 8"
    then have "8 dvd f' - f" by (metis mod_eq_dvd_iff)
    then have "8 \<le> \<bar>f' - f\<bar>" using that(1) zdvd_imp_le [of 8 "\<bar>f' - f\<bar>"] by simp
    then show False using that(2) by simp
  qed
  then have G: "cells_ok 8 ?G" by (auto simp: cells_ok_def)
  have s: "sys_ok plain_cart_ok ?s"
    using demo_f8_ok system_new_ok [of "\<lambda>_. False" F 42] by (intro sys_ok_plug) auto
  have "\<exists>saved. settled_replies 8 ?rs [] Map.empty = Some ([(?up, ?up)], saved)" by (simp add: remember_def)
  then obtain saved where "settled_replies 8 ?rs [] Map.empty = Some ([(?up, ?up)], saved)" by blast
  from rollback_is_straight_line [OF K G s this, where tag = 7 and k = Map.empty and F = F]
  show "\<exists>(s :: ('f, cartridge) system) (K :: (('f, cartridge) save_state, ('f, cartridge) save_state) codec)
     (G :: (int \<Rightarrow> ('f, cartridge) save_state option, ('f, cartridge) save_state) cells) up results s' k' t.
     session_run F cart_ops K G 7 ([Requests [SaveGameState 0, AdvanceFrame up idle_input], PredictionThreshold,
       Requests [LoadGameState 0, AdvanceFrame up up]] :: unit engine_reply list) s Map.empty = Some (results, s', k') \<and>
     advance_all F cart_ops [(up, up)] s = Some t \<and> kept_system s' = kept_system t"
    by - (rule exI [of _ ?s], rule exI [of _ ?K], rule exI [of _ ?G], rule exI [of _ ?up], assumption)
qed

text \<open>
  swapping the two inputs of a frame gives the same frame only when they are equal. Each peer of a
  session registers its own input as player 0 and the other's as player 1, so two peers that know
  both inputs feed their machines different frames whenever the players do different things.
\<close>

theorem peers_disagree: "combine mine theirs = combine theirs mine \<longleftrightarrow> mine = theirs"
proof
  assume eq: "combine mine theirs = combine theirs mine"
  have nibble: "net_swcha_nibble (i :: port_input) = swcha_nibble \<lparr>j_up = pi_up i, j_down = pi_down i, j_left = pi_left i, j_right = pi_right i, j_fire = False\<rparr>"
    for i by (simp add: net_swcha_nibble_def swcha_nibble_def)
  have bits: "bit (push_bit 4 (net_swcha_nibble i) OR net_swcha_nibble j) n = bit (net_swcha_nibble j) n" if "n < 4" for i j n
    using that by (simp add: bit_simps)
  have "bit (net_swcha_nibble mine) n = bit (net_swcha_nibble theirs) n" if "n < 4" for n
    using arg_cong [OF eq, of mf_swcha] bits [OF that, of mine theirs] bits [OF that, of theirs mine]
    by (simp add: combine_def Let_def)
  from this [of 0] this [of "Suc 0"] this [of 2] this [of 3]
  have "pi_up mine = pi_up theirs" "pi_down mine = pi_down theirs" "pi_left mine = pi_left theirs" "pi_right mine = pi_right theirs"
    by (simp_all add: nibble nibble_bits)
  moreover have "pi_fire mine = pi_fire theirs"
    using arg_cong [OF eq, of mf_joy_fire] by (cases "pi_fire mine"; cases "pi_fire theirs") (simp_all add: combine_def Let_def)
  ultimately show "mine = theirs" by simp
qed simp

subsection \<open>The movie editor\<close>

text \<open>\<open>crates/rusty2600-frontend/src/debugger/tastudio_panel.rs\<close>, without the drawing.\<close>

definition SWCHA_P0_UP :: nat where "SWCHA_P0_UP = 7"
definition SWCHA_P0_DOWN :: nat where "SWCHA_P0_DOWN = 6"
definition SWCHA_P0_LEFT :: nat where "SWCHA_P0_LEFT = 5"
definition SWCHA_P0_RIGHT :: nat where "SWCHA_P0_RIGHT = 4"
definition SWCHA_P1_UP :: nat where "SWCHA_P1_UP = 3"
definition SWCHA_P1_DOWN :: nat where "SWCHA_P1_DOWN = 2"
definition SWCHA_P1_LEFT :: nat where "SWCHA_P1_LEFT = 1"
definition SWCHA_P1_RIGHT :: nat where "SWCHA_P1_RIGHT = 0"

definition swcha_pressed :: "movie_frame \<Rightarrow> nat \<Rightarrow> bool" where
  "swcha_pressed frame b \<longleftrightarrow> drop_bit b (mf_swcha frame) AND 1 = 0"

definition set_mask :: "bool \<Rightarrow> u8 \<Rightarrow> u8 \<Rightarrow> u8" where
  "set_mask p m n = (if p then n OR m else n AND NOT m)"

definition set_swcha_pressed :: "nat \<Rightarrow> bool \<Rightarrow> movie_frame \<Rightarrow> movie_frame" where
  "set_swcha_pressed b pressed frame = frame\<lparr>mf_swcha := set_mask (\<not> pressed) (push_bit b 1) (mf_swcha frame)\<rparr>"

definition fire_pressed :: "movie_frame \<Rightarrow> nat \<Rightarrow> bool" where
  "fire_pressed frame port \<longleftrightarrow> drop_bit port (mf_joy_fire frame) AND 1 \<noteq> 0"

definition set_fire_pressed :: "nat \<Rightarrow> bool \<Rightarrow> movie_frame \<Rightarrow> movie_frame" where
  "set_fire_pressed port pressed frame = frame\<lparr>mf_joy_fire := set_mask pressed (push_bit port 1) (mf_joy_fire frame)\<rparr>"

definition select_pressed :: "movie_frame \<Rightarrow> bool" where
  "select_pressed frame \<longleftrightarrow> drop_bit 1 (mf_swchb frame) AND 1 = 0"

definition set_select_pressed :: "bool \<Rightarrow> movie_frame \<Rightarrow> movie_frame" where
  "set_select_pressed pressed frame = frame\<lparr>mf_swchb := set_mask (\<not> pressed) 0x02 (mf_swchb frame)\<rparr>"

definition reset_pressed :: "movie_frame \<Rightarrow> bool" where
  "reset_pressed frame \<longleftrightarrow> mf_swchb frame AND 1 = 0"

definition set_reset_pressed :: "bool \<Rightarrow> movie_frame \<Rightarrow> movie_frame" where
  "set_reset_pressed pressed frame = frame\<lparr>mf_swchb := set_mask (\<not> pressed) 0x01 (mf_swchb frame)\<rparr>"

definition color_engaged :: "movie_frame \<Rightarrow> bool" where
  "color_engaged frame \<longleftrightarrow> drop_bit 3 (mf_swchb frame) AND 1 \<noteq> 0"

definition set_color_engaged :: "bool \<Rightarrow> movie_frame \<Rightarrow> movie_frame" where
  "set_color_engaged color frame = frame\<lparr>mf_swchb := set_mask color 0x08 (mf_swchb frame)\<rparr>"

datatype tastudio_mode = Idle | Recording | Playback

record 'w tastudio =
  ts_movie :: "'w movie option"
  ts_mode :: tastudio_mode
  ts_cursor :: nat
  ts_branch_name_input :: string

definition start_recording :: "u64 \<Rightarrow> movie_region \<Rightarrow> u64 \<Rightarrow> 'w tastudio \<Rightarrow> 'w tastudio" where
  "start_recording rom_tag region seed ts =
     ts\<lparr>ts_movie := Some (new_power_on rom_tag region seed), ts_mode := Recording, ts_cursor := 0\<rparr>"

definition ts_record_frame :: "movie_frame \<Rightarrow> 'w tastudio \<Rightarrow> 'w tastudio" where
  "ts_record_frame frame ts =
     (if ts_mode ts \<noteq> Recording then ts
      else (case ts_movie ts of
        Some m \<Rightarrow> (let m = record_frame frame m in ts\<lparr>ts_movie := Some m, ts_cursor := length (mv_frames m)\<rparr>)
      | None \<Rightarrow> ts))"

definition stop_recording :: "'w tastudio \<Rightarrow> 'w tastudio" where
  "stop_recording ts = (if ts_mode ts = Recording then ts\<lparr>ts_mode := Playback\<rparr> else ts)"

definition edit_frame :: "nat \<Rightarrow> movie_frame \<Rightarrow> 'w tastudio \<Rightarrow> 'w tastudio" where
  "edit_frame index frame ts = (case ts_movie ts of
     Some m \<Rightarrow> ts\<lparr>ts_movie := Some (set_frame index frame m)\<rparr> | None \<Rightarrow> ts)"

datatype tastudio_action = JumpToFrame nat | SaveBranch

definition jump_to :: "nat \<Rightarrow> 'w tastudio \<Rightarrow> tastudio_action \<times> 'w tastudio" where
  "jump_to index ts = (JumpToFrame index, ts\<lparr>ts_cursor := index\<rparr>)"

definition save_branch ::
  "(('f, 'c) save_state, 'w) codec \<Rightarrow> ('w movie, 'v) codec \<Rightarrow> u64 \<Rightarrow> movie_region \<Rightarrow> ('f, 'c) system \<Rightarrow> 'v" where
  "save_branch K M rom_tag region s = encode M (new_branch K rom_tag region s)"

lemma pressed_bit: "swcha_pressed frame b \<longleftrightarrow> \<not> bit (mf_swcha frame) b"
  by (simp add: swcha_pressed_def bit_iff_odd_drop_bit and_one_eq even_iff_mod_2_eq_zero)

text \<open>
  the editor's direction bits are the frontend's in reverse: in a frame that carries the port byte
  the frontend packs, the column for up shows right, down shows left, left shows down and right
  shows up, for both players. Setting a column changes exactly its own bit.
\<close>

theorem tastudio_directions_reversed:
  assumes "mf_swcha frame = fst (input_riot_ports st)"
  defines "j0 \<equiv> is_joysticks st ! 0" and "j1 \<equiv> is_joysticks st ! 1"
  shows "(swcha_pressed frame SWCHA_P0_UP = j_right j0 \<and> swcha_pressed frame SWCHA_P0_DOWN = j_left j0 \<and>
     swcha_pressed frame SWCHA_P0_LEFT = j_down j0 \<and> swcha_pressed frame SWCHA_P0_RIGHT = j_up j0) \<and>
    (swcha_pressed frame SWCHA_P1_UP = j_right j1 \<and> swcha_pressed frame SWCHA_P1_DOWN = j_left j1 \<and>
     swcha_pressed frame SWCHA_P1_LEFT = j_down j1 \<and> swcha_pressed frame SWCHA_P1_RIGHT = j_up j1) \<and>
    (\<forall>b < 8. \<forall>b' < 8. \<forall>p. swcha_pressed (set_swcha_pressed b p frame) b' = (if b' = b then p else swcha_pressed frame b'))"
proof -
  have "swcha_pressed (set_swcha_pressed b p frame) b' = (if b' = b then p else swcha_pressed frame b')"
    if "b < 8" "b' < 8" for b b' p
    using that by (auto simp: pressed_bit set_swcha_pressed_def set_mask_def bit_simps)
  then show ?thesis
    by (simp add: assms pressed_bit port_bits SWCHA_P0_UP_def SWCHA_P0_DOWN_def SWCHA_P0_LEFT_def SWCHA_P0_RIGHT_def
        SWCHA_P1_UP_def SWCHA_P1_DOWN_def SWCHA_P1_LEFT_def SWCHA_P1_RIGHT_def)
qed

lemma tastudio_directions_reversed_witness:
  "let st = set_joy 0 (\<lambda>j. j\<lparr>j_right := True\<rparr>) input_default;
       frame = movie_frame_default\<lparr>mf_swcha := fst (input_riot_ports st)\<rparr> in
   swcha_pressed frame SWCHA_P0_UP \<and> \<not> swcha_pressed frame SWCHA_P0_RIGHT"
proof -
  let ?st = "set_joy 0 (\<lambda>j. j\<lparr>j_right := True\<rparr>) input_default"
  let ?frame = "movie_frame_default\<lparr>mf_swcha := fst (input_riot_ports ?st)\<rparr>"
  have "mf_swcha ?frame = fst (input_riot_ports ?st)" by simp
  from tastudio_directions_reversed [OF this]
  show ?thesis
    by (simp add: Let_def) (simp add: set_joy_def input_default_def joystick_default_def numeral_2_eq_2)
qed

lemma fold_record_frame: "fold record_frame frames m = m\<lparr>mv_frames := mv_frames m @ frames\<rparr>"
  by (induction frames arbitrary: m) (simp_all add: record_frame_def)

text \<open>
  a movie branched off a running machine, recorded, encoded and read back under the same ROM tag is
  the movie that was recorded, frame for frame, and starts from that machine as far as any program
  can tell; under any other tag it is refused as belonging to another ROM.
\<close>

theorem movie_branch_restarts:
  assumes "codec_keeps K" "\<And>m. \<exists>bytes. to_allocvec M m = Some bytes \<and> from_bytes M bytes = Some m"
    and "m = fold record_frame frames (new_branch K tag region s)"
  shows "movie_restore M (encode M m) tag' = (if tag' = tag then Inr m else Inl MovieRomMismatch) \<and>
    start_system F K tag m = Inr (kept_system s) \<and>
    (tag' \<noteq> tag \<longrightarrow> start_system F K tag' m = Inl (BadEmbeddedSaveState RomMismatch)) \<and>
    (\<forall>i. frame_at i m = (if i < length frames then Some (frames ! i) else None))"
proof -
  have m: "m = (new_branch K tag region s)\<lparr>mv_frames := frames\<rparr>"
    by (simp add: assms(3) new_branch_def fold_record_frame)
  obtain bytes where "to_allocvec M m = Some bytes" "from_bytes M bytes = Some m" using assms(2) by blast
  then have "movie_restore M (encode M m) tag' = (if tag' = tag then Inr m else Inl MovieRomMismatch)"
    by (simp add: movie_restore_def movie_decode_def encode_def)
      (auto simp: m new_branch_def new_movie_header_def MOVIE_FORMAT_VERSION_def MIN_MOVIE_FORMAT_VERSION_def)
  then show ?thesis
    by (simp add: m start_system_def new_branch_def restore_capture [OF assms(1)] frame_at_def)
qed

lemma movie_branch_restarts_witness:
  "\<forall>(F :: 'f fops).
     let s = system_new F 42 :: ('f, cartridge) system;
         K = \<lparr>to_allocvec = (\<lambda>st. Some (st\<lparr>ss_system := kept_system (ss_system st)\<rparr>)), from_bytes = Some, no_bytes = capture s 0\<rparr>;
         m = fold record_frame [movie_frame_default] (new_branch K 7 Pal s)
     in start_system F K 7 m = Inr (kept_system s) \<and> frame_at 0 m = Some movie_frame_default"
proof (unfold Let_def, intro allI)
  fix F :: "'f fops"
  let ?s = "system_new F 42 :: ('f, cartridge) system"
  let ?K = "\<lparr>to_allocvec = (\<lambda>st. Some (st\<lparr>ss_system := kept_system (ss_system st)\<rparr>)), from_bytes = Some, no_bytes = capture ?s 0\<rparr>"
  let ?M = "\<lparr>to_allocvec = Some, from_bytes = Some, no_bytes = new_power_on 0 Pal 0\<rparr>"
  have ok: "codec_keeps ?K" by (simp add: codec_keeps_def)
  have ok': "\<exists>bytes. to_allocvec ?M m = Some bytes \<and> from_bytes ?M bytes = Some m" for m by simp
  from movie_branch_restarts [OF ok ok' refl, of "[movie_frame_default]" 7 Pal ?s 7 F]
  show "start_system F ?K 7 (fold record_frame [movie_frame_default] (new_branch ?K 7 Pal ?s)) = Inr (kept_system ?s) \<and>
      frame_at 0 (fold record_frame [movie_frame_default] (new_branch ?K 7 Pal ?s)) = Some movie_frame_default"
    by simp
qed

end
