(* ===== verification/Palette.thy ===== *)
theory Palette
  imports Prelude
begin

text \<open>
  The display side of \<open>crates/rusty2600-frontend\<close>: the three colour palettes of \<open>palette.rs\<close> and the
  frame the emulation thread publishes (\<open>present_buffer.rs\<close>). The slot shared by the two threads
  holds the last frame published and not yet taken.
\<close>

subsection \<open>Regions and palettes\<close>

type_synonym rgb = u32

definition PALETTE_LEN :: nat where "PALETTE_LEN = 128"
definition VISIBLE_HEIGHT_NTSC :: nat where "VISIBLE_HEIGHT_NTSC = 192"
definition VISIBLE_HEIGHT_PAL :: nat where "VISIBLE_HEIGHT_PAL = 228"
definition VCS_W :: nat where "VCS_W = 160"

datatype region = Region_Ntsc | Region_Pal | Region_Secam

primrec region_label :: "region \<Rightarrow> string" where
  "region_label Region_Ntsc = ''NTSC''"
| "region_label Region_Pal = ''PAL''"
| "region_label Region_Secam = ''SECAM''"

primrec lines_per_frame :: "region \<Rightarrow> nat" where
  "lines_per_frame Region_Ntsc = 262"
| "lines_per_frame Region_Pal = 312"
| "lines_per_frame Region_Secam = 312"

primrec active_height :: "region \<Rightarrow> nat" where
  "active_height Region_Ntsc = VISIBLE_HEIGHT_NTSC"
| "active_height Region_Pal = VISIBLE_HEIGHT_PAL"
| "active_height Region_Secam = VISIBLE_HEIGHT_PAL"

definition NTSC_TABLE :: "rgb list" where
  "NTSC_TABLE = [
    0x000000, 0x4A4A4A, 0x6F6F6F, 0x8E8E8E, 0xAAAAAA, 0xC0C0C0, 0xD6D6D6, 0xECECEC,
    0x484800, 0x69690F, 0x86861D, 0xA2A22A, 0xBBBB35, 0xD2D240, 0xE8E84A, 0xFCFC54,
    0x7C2C00, 0x904811, 0xA26221, 0xB47A30, 0xC3903D, 0xD2A44A, 0xDFB755, 0xECC860,
    0x901C00, 0xA33915, 0xB55328, 0xC66C3A, 0xD5824A, 0xE39759, 0xF0AA67, 0xFCBC74,
    0x940000, 0xA71A1A, 0xB83232, 0xC84848, 0xD65C5C, 0xE46F6F, 0xF08080, 0xFC9090,
    0x840064, 0x97197A, 0xA8308F, 0xB846A2, 0xC659B3, 0xD46CC3, 0xE07CD2, 0xEC8CE0,
    0x500084, 0x68199A, 0x7D30AD, 0x9246C0, 0xA459D0, 0xB56CE0, 0xC57CEE, 0xD48CFC,
    0x140090, 0x331AA3, 0x4E32B5, 0x6848C6, 0x7F5CD5, 0x956FE3, 0xA980F0, 0xBC90FC,
    0x000094, 0x181AA7, 0x2D32B8, 0x4248C8, 0x545CD6, 0x656FE4, 0x7580F0, 0x8490FC,
    0x001C88, 0x183B9D, 0x2D57B0, 0x4272C2, 0x548AD2, 0x65A0E1, 0x75B5EF, 0x84C8FC,
    0x003064, 0x185080, 0x2D6D98, 0x4288B0, 0x54A0C5, 0x65B7D9, 0x75CCEB, 0x84E0FC,
    0x004030, 0x18624E, 0x2D8169, 0x429E82, 0x54B899, 0x65D1AE, 0x75E7C2, 0x84FCD4,
    0x004400, 0x1A661A, 0x328432, 0x48A048, 0x5CBA5C, 0x6FD26F, 0x80E880, 0x90FC90,
    0x143C00, 0x355F18, 0x527E2D, 0x6E9C42, 0x87B754, 0x9ED065, 0xB4E775, 0xC8FC84,
    0x303800, 0x505916, 0x6D762B, 0x88923E, 0xA0AB4F, 0xB7C25F, 0xCCD86E, 0xE0EC7C,
    0x482C00, 0x694D14, 0x866A26, 0xA28638, 0xBB9F47, 0xD2B656, 0xE8CC63, 0xFCE070]"

definition PAL_TABLE :: "rgb list" where
  "PAL_TABLE = [
    0x0B0B0B, 0x333333, 0x595959, 0x7B7B7B, 0x999999, 0xB6B6B6, 0xCFCFCF, 0xE6E6E6,
    0x0B0B0B, 0x333333, 0x595959, 0x7B7B7B, 0x999999, 0xB6B6B6, 0xCFCFCF, 0xE6E6E6,
    0x3B2400, 0x664700, 0x8B7000, 0xAC9200, 0xC5AE36, 0xDEC85E, 0xF7E27F, 0xFFF19E,
    0x004500, 0x006F00, 0x3B9200, 0x65B009, 0x85CA3D, 0xA3E364, 0xBFFC84, 0xD5FFA5,
    0x590000, 0x802700, 0xA15700, 0xBC7937, 0xD6985F, 0xEEB381, 0xFFCE9E, 0xFFDCBD,
    0x004900, 0x007200, 0x169216, 0x45AF45, 0x6BC96B, 0x8BE38B, 0xA9FBA9, 0xC5FFC5,
    0x640012, 0x890821, 0xA73D4D, 0xC26472, 0xDC8491, 0xF4A3AE, 0xFFBECA, 0xFFDAE0,
    0x003D29, 0x006A48, 0x048E63, 0x3CAA84, 0x62C5A2, 0x83DFBE, 0xA1F8D9, 0xBEFFE9,
    0x550046, 0x88006E, 0xA5318D, 0xC159AA, 0xDA7CC5, 0xF39ADF, 0xFFB9F3, 0xFFD4F6,
    0x003651, 0x005A7D, 0x117E9C, 0x429CB8, 0x68B7D2, 0x88D2EB, 0xA6EBFF, 0xC3FFFF,
    0x4C007C, 0x75009D, 0x932EB8, 0xAF57D2, 0xCA7AEB, 0xE499FF, 0xECB7FF, 0xF3D4FF,
    0x002D83, 0x003EA4, 0x2D65BF, 0x5685DA, 0x79A2F2, 0x99BFFF, 0xB7DBFF, 0xD3F5FF,
    0x220096, 0x5200B6, 0x7538CF, 0x945FE8, 0xB181FF, 0xC5A0FF, 0xD6BDFF, 0xE8DAFF,
    0x00009A, 0x241DB6, 0x504AD0, 0x746FE9, 0x928EFF, 0xB1ADFF, 0xCECAFF, 0xE9E5FF,
    0x0B0B0B, 0x333333, 0x595959, 0x7B7B7B, 0x999999, 0xB6B6B6, 0xCFCFCF, 0xE6E6E6,
    0x0B0B0B, 0x333333, 0x595959, 0x7B7B7B, 0x999999, 0xB6B6B6, 0xCFCFCF, 0xE6E6E6]"

definition SECAM_ROW :: "rgb list" where
  "SECAM_ROW = [0x000000, 0x2121FF, 0xF03C79, 0xFF50FF, 0x7FFF00, 0x7FFFFF, 0xFFFF3F, 0xFFFFFF]"

text \<open>The two nested loops that broadcast the row over the sixteen hues.\<close>

definition SECAM_TABLE :: "rgb list" where
  "SECAM_TABLE = fold (\<lambda>hue t. fold (\<lambda>luma t. t[hue * 8 + luma := SECAM_ROW ! luma]) [0..<8] t) [0..<16]
     (replicate PALETTE_LEN 0)"

primrec table :: "region \<Rightarrow> rgb list" where
  "table Region_Ntsc = NTSC_TABLE"
| "table Region_Pal = PAL_TABLE"
| "table Region_Secam = SECAM_TABLE"

definition lookup_color :: "region \<Rightarrow> u8 \<Rightarrow> rgb" where
  "lookup_color r colour7 = table r ! (unat colour7 mod PALETTE_LEN)"

lemma table_length: "length (table r) = PALETTE_LEN"
  by (cases r) (simp_all add: NTSC_TABLE_def PAL_TABLE_def SECAM_TABLE_def PALETTE_LEN_def upt_rec)

subsection \<open>Frames\<close>

record frame =
  fr_width :: nat
  fr_height :: nat
  fr_pixels :: "u8 list"
  fr_index :: "u8 list"

definition black :: "nat \<Rightarrow> nat \<Rightarrow> frame" where
  "black width height = \<lparr>fr_width = width, fr_height = height, fr_pixels = replicate (width * height * 4) 0,
     fr_index = replicate (width * height) 0\<rparr>"

definition put_dot :: "nat \<Rightarrow> nat \<Rightarrow> rgb \<Rightarrow> frame \<Rightarrow> frame" where
  "put_dot x y c f =
     (if x \<ge> fr_width f \<or> y \<ge> fr_height f then f
      else (let i = (y * fr_width f + x) * 4 in f\<lparr>fr_pixels := (fr_pixels f)
        [i := ucast (drop_bit 16 c AND 0xFF), i + 1 := ucast (drop_bit 8 c AND 0xFF), i + 2 := ucast (c AND 0xFF),
         i + 3 := 0xFF]\<rparr>))"

definition put_index :: "nat \<Rightarrow> nat \<Rightarrow> u8 \<Rightarrow> frame \<Rightarrow> frame" where
  "put_index x y colour7 f =
     (if x \<ge> fr_width f \<or> y \<ge> fr_height f then f
      else f\<lparr>fr_index := (fr_index f)[y * fr_width f + x := colour7]\<rparr>)"

text \<open>The shared slot: publishing replaces it, taking empties it.\<close>

type_synonym frame_slot = "frame option"

definition publish :: "frame \<Rightarrow> frame_slot \<Rightarrow> frame_slot" where
  "publish f slot = Some f"

definition take_frame :: "frame_slot \<Rightarrow> frame option \<times> frame_slot" where
  "take_frame slot = (slot, None)"

text \<open>What a frame shows at a dot: its four bytes and its colour number.\<close>

definition dot_of :: "frame \<Rightarrow> nat \<Rightarrow> nat \<Rightarrow> (u8 \<times> u8 \<times> u8 \<times> u8) \<times> u8" where
  "dot_of f x y = (let i = y * fr_width f + x in
     ((fr_pixels f ! (i * 4), fr_pixels f ! (i * 4 + 1), fr_pixels f ! (i * 4 + 2), fr_pixels f ! (i * 4 + 3)), fr_index f ! i))"

definition rgba :: "rgb \<Rightarrow> u8 \<times> u8 \<times> u8 \<times> u8" where
  "rgba c = (ucast (drop_bit 16 c AND 0xFF), ucast (drop_bit 8 c AND 0xFF), ucast (c AND 0xFF), 0xFF)"

definition frame_ok :: "nat \<Rightarrow> nat \<Rightarrow> frame \<Rightarrow> bool" where
  "frame_ok w h f \<longleftrightarrow> fr_width f = w \<and> fr_height f = h \<and> length (fr_pixels f) = w * h * 4 \<and> length (fr_index f) = w * h"

lemma black_ok [simp]: "frame_ok w h (black w h)"
  by (simp add: frame_ok_def black_def)

lemma put_ok [simp]: "frame_ok w h f \<Longrightarrow> frame_ok w h (put_dot x y c f)" "frame_ok w h f \<Longrightarrow> frame_ok w h (put_index x y n f)"
  by (simp_all add: frame_ok_def put_dot_def put_index_def Let_def)

lemma dot_position: "x < w \<Longrightarrow> x' < w \<Longrightarrow> y * w + x = y' * w + x' \<longleftrightarrow> x = x' \<and> y = (y' :: nat)"
  by (metis add.commute div_mult_self3 div_less mod_less mod_mult_self3 add_cancel_right_left less_nat_zero_code)

lemma dot_in_range: "x < w \<Longrightarrow> y < h \<Longrightarrow> y * w + x < w * (h :: nat)"
proof -
  assume "x < w" "y < h"
  then have "y * w + x < (y + 1) * w" by simp
  also have "\<dots> \<le> h * w" using \<open>y < h\<close> by (intro mult_le_mono1) simp
  finally show ?thesis by (simp add: mult.commute)
qed

lemma put_dot_of:
  assumes "frame_ok w h f" "x < w" "y < h" "x' < w" "y' < h"
  shows "dot_of (put_index x y n (put_dot x y c f)) x' y' = (if x' = x \<and> y' = y then (rgba c, n) else dot_of f x' y')"
proof -
  define i where "i = y * w + x"
  define j where "j = y' * w + x'"
  have lt: "i < w * h" "j < w * h" using dot_in_range assms(2-5) by (auto simp: i_def j_def)
  have "i = j \<longleftrightarrow> x' = x \<and> y' = y" using dot_position [OF assms(2,4), of y y'] by (auto simp: i_def j_def)
  moreover have "i * 4 \<noteq> j * 4 + 1" "i * 4 \<noteq> j * 4 + 2" "i * 4 \<noteq> j * 4 + 3" "i * 4 + 1 \<noteq> j * 4"
    "i * 4 + 1 \<noteq> j * 4 + 2" "i * 4 + 1 \<noteq> j * 4 + 3" "i * 4 + 2 \<noteq> j * 4" "i * 4 + 2 \<noteq> j * 4 + 1" "i * 4 + 2 \<noteq> j * 4 + 3"
    "i * 4 + 3 \<noteq> j * 4" "i * 4 + 3 \<noteq> j * 4 + 1" "i * 4 + 3 \<noteq> j * 4 + 2" by presburger+
  ultimately show ?thesis
    using assms(1-3) lt
    by (auto simp: dot_of_def put_index_def put_dot_def Let_def frame_ok_def rgba_def nth_list_update i_def [symmetric] j_def [symmetric])
qed

text \<open>A frame filled by two nested loops over a window shows every dot of the window.\<close>

lemma fill_frame:
  assumes "frame_ok w h f" "set xs \<subseteq> {..<w}" "set ys \<subseteq> {..<h}" "x < w" "y < h"
  shows "dot_of (fold (\<lambda>y. fold (\<lambda>x f. put_index x y (n x y) (put_dot x y (c x y) f)) xs) ys f) x y =
    (if x \<in> set xs \<and> y \<in> set ys then (rgba (c x y), n x y) else dot_of f x y) \<and>
    frame_ok w h (fold (\<lambda>y. fold (\<lambda>x f. put_index x y (n x y) (put_dot x y (c x y) f)) xs) ys f)"
proof -
  have row: "dot_of (fold (\<lambda>x f. put_index x y0 (n x y0) (put_dot x y0 (c x y0) f)) xs f) x y =
      (if x \<in> set xs \<and> y = y0 then (rgba (c x y), n x y) else dot_of f x y) \<and>
      frame_ok w h (fold (\<lambda>x f. put_index x y0 (n x y0) (put_dot x y0 (c x y0) f)) xs f)"
    if "frame_ok w h f" "y0 < h" for f y0
    using that assms(2)
    by (induction xs arbitrary: f) (auto simp: put_dot_of assms(4,5))
  show ?thesis
    using assms(1,3)
    by (induction ys arbitrary: f) (auto simp: row)
qed

end
