(* ===== verification/Detect.thy ===== *)
theory Detect
  imports Cartridge "HOL-Library.Sublist"
begin

text \<open>
  The detection of a bankswitch scheme from a ROM image (\<open>detect\<close> and its helpers in
  \<open>crates/rusty2600-cart/src/lib.rs\<close>): byte signatures, and the dispatch on the size of the image. The
  properties are that every image it accepts yields a board that satisfies its invariant, and which
  images it accepts.
\<close>

subsection \<open>Byte signatures\<close>

definition contains_bytes :: "u8 list \<Rightarrow> u8 list \<Rightarrow> bool" where
  "contains_bytes haystack needle \<longleftrightarrow> needle \<noteq> [] \<and> window_position needle haystack 0 \<noteq> None"

text \<open>\<open>rom.chunks_exact(n)\<close>, whose last partial chunk is dropped.\<close>

function chunks_exact :: "nat \<Rightarrow> 'a list \<Rightarrow> 'a list list" where
  "chunks_exact n xs = (if n = 0 \<or> length xs < n then [] else take n xs # chunks_exact n (drop n xs))"
  by pat_completeness auto
termination by (relation "measure (\<lambda>(n, xs). length xs)") auto

declare chunks_exact.simps [simp del]

definition is_probably_superchip :: "u8 list \<Rightarrow> bool" where
  "is_probably_superchip rom \<longleftrightarrow>
     list_all (\<lambda>bank. take 0x80 bank = take 0x80 (drop 0x80 bank)) (chunks_exact 0x1000 rom)"

definition is_probably_cv :: "u8 list \<Rightarrow> bool" where
  "is_probably_cv rom \<longleftrightarrow> contains_bytes rom [0x9D, 0xFF, 0xF3] \<or> contains_bytes rom [0x99, 0x00, 0xF4]"

definition is_probably_e7 :: "u8 list \<Rightarrow> bool" where
  "is_probably_e7 rom \<longleftrightarrow> list_ex (contains_bytes rom)
     [[0xAD, 0xE2, 0xFF], [0xAD, 0xE5, 0xFF], [0xAD, 0xE5, 0x1F], [0xAD, 0xE7, 0x1F],
      [0x0C, 0xE7, 0x1F], [0x8D, 0xE7, 0xFF], [0x8D, 0xE7, 0x1F]]"

text \<open>The loop of \<open>count_bytes_at_least\<close>, on what is left of the haystack.\<close>

function count_loop :: "u8 list \<Rightarrow> nat \<Rightarrow> nat \<Rightarrow> u8 list \<Rightarrow> bool" where
  "count_loop needle min_hits count hay =
     (if needle = [] \<or> length hay < length needle then False
      else if take (length needle) hay = needle then
        (if count + 1 \<ge> min_hits then True
         else count_loop needle min_hits (count + 1) (drop (length needle) hay))
      else count_loop needle min_hits count (drop 1 hay))"
  by pat_completeness auto
termination
  by (relation "measure (\<lambda>(needle, m, c, hay). length hay)") (auto simp flip: length_greater_0_conv)

declare count_loop.simps [simp del]

definition count_bytes_at_least :: "u8 list \<Rightarrow> u8 list \<Rightarrow> nat \<Rightarrow> bool" where
  "count_bytes_at_least haystack needle min_hits \<longleftrightarrow>
     \<not> (needle = [] \<or> length haystack < length needle) \<and> count_loop needle min_hits 0 haystack"

definition is_probably_e0 :: "u8 list \<Rightarrow> bool" where
  "is_probably_e0 rom \<longleftrightarrow> list_ex (contains_bytes rom)
     [[0x8D, 0xE0, 0x1F], [0x8D, 0xE0, 0x5F], [0x8D, 0xE9, 0xFF], [0x0C, 0xE0, 0x1F],
      [0xAD, 0xE0, 0x1F], [0xAD, 0xE9, 0xFF], [0xAD, 0xED, 0xFF], [0xAD, 0xF3, 0xBF]]"

definition is_probably_3f :: "u8 list \<Rightarrow> bool" where
  "is_probably_3f rom \<longleftrightarrow> count_bytes_at_least rom [0x85, 0x3F] 2"

definition is_probably_3e :: "u8 list \<Rightarrow> bool" where
  "is_probably_3e rom \<longleftrightarrow> count_bytes_at_least rom [0x85, 0x3E] 1 \<and> count_bytes_at_least rom [0x85, 0x3F] 2"

definition ef_family_tail_signature :: "u8 list \<Rightarrow> u8 \<Rightarrow> bool option" where
  "ef_family_tail_signature rom letter = (let tail = drop (length rom - 8) rom in
     if count_bytes_at_least tail [letter, 0x46, letter, 0x46] 1 then Some False
     else if count_bytes_at_least tail [letter, 0x46, 0x53, 0x43] 1 then Some True
     else None)"

definition is_probably_ef_by_opcode :: "u8 list \<Rightarrow> bool" where
  "is_probably_ef_by_opcode rom \<longleftrightarrow> list_ex (contains_bytes rom)
     [[0x0C, 0xE0, 0xFF], [0xAD, 0xE0, 0xFF], [0x0C, 0xE0, 0x1F], [0xAD, 0xE0, 0x1F]]"

definition is_probably_ua :: "u8 list \<Rightarrow> bool" where
  "is_probably_ua rom \<longleftrightarrow> list_ex (contains_bytes rom)
     [[0x8D, 0x40, 0x02], [0xAD, 0x40, 0x02], [0xBD, 0x1F, 0x02], [0x2C, 0xC0, 0x02],
      [0x8D, 0xC0, 0x02], [0xAD, 0xC0, 0x02]] \<or> count_bytes_at_least rom [0x2C, 0xB0, 0x0F] 1"

definition is_probably_0840 :: "u8 list \<Rightarrow> bool" where
  "is_probably_0840 rom \<longleftrightarrow>
     list_ex (\<lambda>sig. count_bytes_at_least rom sig 2)
       [[0xAD, 0x00, 0x08], [0xAD, 0x40, 0x08], [0x2C, 0x00, 0x08]] \<or>
     list_ex (\<lambda>sig. count_bytes_at_least rom sig 2)
       [[0x0C, 0x00, 0x08, 0x4C], [0x0C, 0xFF, 0x0F, 0x4C]]"

definition is_probably_f8_signature :: "u8 list \<Rightarrow> bool" where
  "is_probably_f8_signature rom \<longleftrightarrow>
     list_ex (\<lambda>sig. count_bytes_at_least rom sig 2) [[0x8D, 0xF9, 0x1F], [0x8D, 0xF9, 0xFF]]"

definition is_probably_fe :: "u8 list \<Rightarrow> bool" where
  "is_probably_fe rom \<longleftrightarrow> list_ex (contains_bytes rom)
     [[0x20, 0x00, 0xD0, 0xC6, 0xC5], [0x20, 0xC3, 0xF8, 0xA5, 0x82], [0xD0, 0xFB, 0x20, 0x73, 0xFE],
      [0xD0, 0xFB, 0x20, 0x68, 0xFE], [0x20, 0x00, 0xF0, 0x84, 0xD6]]"

definition is_probably_x07 :: "u8 list \<Rightarrow> bool" where
  "is_probably_x07 rom \<longleftrightarrow> list_ex (contains_bytes rom)
     [[0xAD, 0x0D, 0x08], [0xAD, 0x1D, 0x08], [0xAD, 0x2D, 0x08], [0x0C, 0x0D, 0x08],
      [0x0C, 0x1D, 0x08], [0x0C, 0x2D, 0x08]]"

definition is_probably_4a50 :: "u8 list \<Rightarrow> bool" where
  "is_probably_4a50 rom = (let len = length rom in
     if len < 6 then False
     else if rom ! (len - 6) = 0x50 \<and> rom ! (len - 5) = 0x4A then True
     else if len \<le> 0xFFFE then False
     else (let reset_hi = rom ! 0xFFFD; reset_lo = rom ! 0xFFFC in
       if reset_hi AND 0x1F \<noteq> 0x1F then False
       else (let target = unat reset_hi * 256 + unat reset_lo in
         target + 2 < len \<and> rom ! target = 0x0C \<and> rom ! (target + 2) AND 0xFE = 0x6E)))"

text \<open>The number of windows equal to a needle, overlapping ones included.\<close>

fun windows_equal :: "u8 list \<Rightarrow> u8 list \<Rightarrow> nat" where
  "windows_equal needle [] = 0"
| "windows_equal needle (h # hs) =
     (if take (length needle) (h # hs) = needle then 1 else 0) + windows_equal needle hs"

definition is_probably_dpc_plus :: "u8 list \<Rightarrow> bool" where
  "is_probably_dpc_plus rom \<longleftrightarrow> dpp_bank_count_of rom \<noteq> None \<and>
     windows_equal [0x44, 0x50, 0x43, 0x2B] rom \<ge> 2"

text \<open>The loop of \<open>fingerprint_cdf\<close> over the windows of four bytes.\<close>

fun cdf_versions :: "u8 option \<Rightarrow> u8 list \<Rightarrow> cdf_kind option" where
  "cdf_versions seen (c # d # f # v # rest) =
     (if [c, d, f] \<noteq> [0x43, 0x44, 0x46] then cdf_versions seen (d # f # v # rest)
      else if v \<noteq> 0 \<and> v \<noteq> 1 then cdf_versions seen (d # f # v # rest)
      else case seen of
        None \<Rightarrow> cdf_versions (Some v) (d # f # v # rest)
      | Some w \<Rightarrow> if w = v then Some (if v = 0 then Cdf0 else Cdf1)
          else cdf_versions seen (d # f # v # rest))"
| "cdf_versions seen _ = None"

definition fingerprint_cdf :: "u8 list \<Rightarrow> cdf_kind option" where
  "fingerprint_cdf rom = (let scan = take 2048 rom in
     if contains_subslice scan [0x50, 0x4C, 0x55, 0x53, 0x43, 0x44, 0x46, 0x4A] then Some CdfjPlus
     else if contains_subslice scan [0x43, 0x44, 0x46, 0x4A] then Some Cdfj
     else (let limit = min (length scan) 0x0800 in
       if limit < 4 then None else cdf_versions None (take limit scan)))"

subsection \<open>Dispatch on the size\<close>

definition tried :: "('b \<Rightarrow> cartridge) \<Rightarrow> 'b option \<Rightarrow> cartridge option" where
  "tried C b = map_option C b"

definition detect_8k :: "u8 list \<Rightarrow> cartridge option" where
  "detect_8k rom =
     (if is_probably_superchip rom then tried BankF8 (map_option with_superchip (f8_new rom))
      else if is_probably_e0 rom then tried BankE0 (e0_new rom)
      else if is_probably_3e rom then tried Bank3E (b3e_new rom 32)
      else if is_probably_3f rom then tried Bank3F (b3f_new rom)
      else if is_probably_ua rom then tried BankUA (ua_new rom)
      else if is_probably_fe rom \<and> \<not> is_probably_f8_signature rom then tried BankFe (fe_new rom)
      else if is_probably_0840 rom then tried Bank0840 (b0840_new rom)
      else tried BankF8 (f8_new rom))"

definition detect_16k :: "u8 list \<Rightarrow> cartridge option" where
  "detect_16k rom =
     (if is_probably_e7 rom then tried BankE7 (e7_new rom)
      else if is_probably_superchip rom then tried BankF6 (map_option with_superchip (f6_new rom))
      else tried BankF6 (f6_new rom))"

definition detect_32k :: "u8 list \<Rightarrow> cartridge option" where
  "detect_32k rom =
     (if is_probably_superchip rom then tried BankF4 (map_option with_superchip (f4_new rom))
      else if is_probably_3e rom then tried Bank3E (b3e_new rom 32)
      else if is_probably_3f rom then tried Bank3F (b3f_new rom)
      else tried BankF4 (f4_new rom))"

definition if_superchip :: "bool \<Rightarrow> banked \<Rightarrow> banked" where
  "if_superchip sc b = (if sc then with_superchip b else b)"

definition detect_64k :: "u8 list \<Rightarrow> cartridge option" where
  "detect_64k rom =
     (if is_probably_3e rom then tried Bank3E (b3e_new rom 32)
      else if is_probably_3f rom then tried Bank3F (b3f_new rom)
      else if is_probably_4a50 rom then tried Bank4A50 (x_new rom)
      else case ef_family_tail_signature rom 0x45 of
        Some sc \<Rightarrow> tried BankEF (map_option (if_superchip sc) (ef_new rom))
      | None \<Rightarrow>
          if is_probably_ef_by_opcode rom then tried BankEF (ef_new rom)
          else if is_probably_x07 rom then tried BankX07 (x07_new rom)
          else tried BankF0 (f0_new rom))"

definition detect_128k :: "u8 list \<Rightarrow> cartridge option" where
  "detect_128k rom =
     (if is_probably_3e rom then tried Bank3E (b3e_new rom 32)
      else case ef_family_tail_signature rom 0x44 of
        Some sc \<Rightarrow> tried BankDF (map_option (if_superchip sc) (df_new rom))
      | None \<Rightarrow>
          if is_probably_3f rom then tried Bank3F (b3f_new rom)
          else if is_probably_4a50 rom then tried Bank4A50 (x_new rom)
          else tried BankSb (sb_new rom))"

definition detect_256k :: "u8 list \<Rightarrow> cartridge option" where
  "detect_256k rom =
     (if is_probably_3e rom then tried Bank3E (b3e_new rom 32)
      else case ef_family_tail_signature rom 0x42 of
        Some sc \<Rightarrow> tried BankBF (map_option (if_superchip sc) (bf_new rom))
      | None \<Rightarrow>
          if is_probably_3f rom then tried Bank3F (b3f_new rom)
          else tried BankSb (sb_new rom))"

definition detect_by_size :: "u8 list \<Rightarrow> cartridge option" where
  "detect_by_size rom = (let n = length rom in
     if n = 0x0800 then (if is_probably_cv rom then tried BankCV (cv_new rom) else tried Rom2K (rom2k_new rom))
     else if n = 0x1000 then (if is_probably_cv rom then tried BankCV (cv_new rom) else tried Rom4K (rom4k_new rom))
     else if n = 0x2000 then detect_8k rom
     else if 0x2800 \<le> n \<and> n \<le> 0x2900 then tried BankDpc (dpc_new rom)
     else if n = 0x3000 then tried BankFA (fa_new rom)
     else if n = 0x4000 then detect_16k rom
     else if n = 0x8000 then detect_32k rom
     else if n = 0x10000 then detect_64k rom
     else if n = 0x20000 then detect_128k rom
     else if n = 0x40000 then detect_256k rom
     else None)"

text \<open>The signatures that are tried before the size: the two ARM boards fall through when the
  constructor rejects the image.\<close>

definition detect_signed :: "u8 list \<Rightarrow> cartridge option" where
  "detect_signed rom =
     (case (if is_probably_dpc_plus rom then tried BankDpcPlus (dpp_new rom) else None) of
        Some c \<Rightarrow> Some c
      | None \<Rightarrow> (case fingerprint_cdf rom of Some kind \<Rightarrow> tried BankCdf (cdf_new rom kind) | None \<Rightarrow> None))"

definition detect :: "u8 list \<Rightarrow> cartridge option" where
  "detect rom = (let num_loads = length rom div LOAD_SIZE in
     if rom \<noteq> [] \<and> length rom mod LOAD_SIZE = 0 \<and> num_loads \<ge> 1 \<and> num_loads \<le> 32
     then tried BankAr (ar_new rom)
     else case detect_signed rom of Some c \<Rightarrow> Some c | None \<Rightarrow> detect_by_size rom)"

subsection \<open>What the searches find\<close>

lemma window_position_sublist:
  "needle \<noteq> [] \<Longrightarrow> window_position needle hay i \<noteq> None \<longleftrightarrow> sublist needle hay"
proof (induction needle hay i rule: window_position.induct)
  case (2 needle h hs i)
  have "take (length needle) (h # hs) = needle \<longleftrightarrow> prefix needle (h # hs)"
    by (metis append_eq_conv_conj append_take_drop_id prefixE prefixI)
  then show ?case using 2 by (simp add: sublist_Cons_right)
qed simp

text \<open>
  \<open>contains_bytes\<close> holds exactly when the needle is not empty and occurs in the haystack.
\<close>

theorem contains_bytes_iff: "contains_bytes hay needle \<longleftrightarrow> needle \<noteq> [] \<and> sublist needle hay"
  using window_position_sublist [of needle hay 0] by (auto simp: contains_bytes_def)

text \<open>A number of occurrences, each after the end of the one before.\<close>

primrec disjoint_hits :: "u8 list \<Rightarrow> nat \<Rightarrow> u8 list \<Rightarrow> bool" where
  "disjoint_hits needle 0 hay = True"
| "disjoint_hits needle (Suc k) hay = (\<exists>g rest. hay = g @ needle @ rest \<and> disjoint_hits needle k rest)"

lemma disjoint_hits_append: "disjoint_hits needle k hay \<Longrightarrow> disjoint_hits needle k (g @ hay)"
  by (cases k) (simp, metis append.assoc disjoint_hits.simps(2))

lemma disjoint_hits_here:
  "disjoint_hits needle (Suc k) (needle @ hay) \<longleftrightarrow> disjoint_hits needle k hay"
proof
  assume "disjoint_hits needle (Suc k) (needle @ hay)"
  then obtain g rest where g: "needle @ hay = g @ needle @ rest" "disjoint_hits needle k rest" by auto
  have "drop (length needle) (needle @ hay) = drop (length needle) ((g @ needle) @ rest)" using g(1) by simp
  then have "hay = drop (length needle) (g @ needle) @ rest" by simp
  then show "disjoint_hits needle k hay" using g(2) disjoint_hits_append by metis
qed (force intro: exI [of _ "[]"])

lemma disjoint_hits_later:
  assumes "\<not> prefix needle (h # hay)"
  shows "disjoint_hits needle (Suc k) (h # hay) \<longleftrightarrow> disjoint_hits needle (Suc k) hay"
proof
  assume "disjoint_hits needle (Suc k) (h # hay)"
  then obtain g rest where g: "h # hay = g @ needle @ rest" "disjoint_hits needle k rest" by auto
  then have "g \<noteq> []" using assms by auto
  then have "hay = tl g @ needle @ rest" using g(1) by (cases g) auto
  then show "disjoint_hits needle (Suc k) hay" using g(2) by auto
next
  assume "disjoint_hits needle (Suc k) hay"
  then show "disjoint_hits needle (Suc k) (h # hay)" using disjoint_hits_append [of needle "Suc k" hay "[h]"] by simp
qed

lemma disjoint_hits_long: "disjoint_hits needle (Suc k) hay \<Longrightarrow> length needle \<le> length hay"
  by auto

lemma count_loop_iff:
  assumes "needle \<noteq> []" "count < m"
  shows "count_loop needle m count hay \<longleftrightarrow> disjoint_hits needle (m - count) hay"
  using assms
proof (induction needle m count hay rule: count_loop.induct)
  case (1 needle m count hay)
  obtain k where k: "m - count = Suc k" using 1(4) by (cases "m - count") auto
  show ?case
  proof (cases "length hay < length needle")
    case True
    then show ?thesis using k disjoint_hits_long [of needle k hay] by (auto simp: count_loop.simps)
  next
    case len: False
    then obtain h hs where hay: "hay = h # hs" using 1(3) by (cases hay) auto
    show ?thesis
    proof (cases "take (length needle) hay = needle")
      case True
      then have split: "hay = needle @ drop (length needle) hay" by (metis append_take_drop_id)
      have rest: "m - Suc count = k" "m \<le> Suc count \<longleftrightarrow> k = 0" using k by auto
      have "count_loop needle m count hay \<longleftrightarrow> (k = 0 \<or> disjoint_hits needle k (drop (length needle) hay))"
        using 1 len True k rest by (auto simp: count_loop.simps [of needle m count hay] Suc_le_eq)
      also have "\<dots> \<longleftrightarrow> disjoint_hits needle (Suc k) hay"
        using disjoint_hits_here [of needle k "drop (length needle) hay"] split by (cases k) auto
      finally show ?thesis using k by simp
    next
      case False
      then have "\<not> prefix needle (h # hs)" unfolding hay by (auto simp: prefix_def)
      then have later: "disjoint_hits needle (m - count) hay = disjoint_hits needle (m - count) hs"
        unfolding k hay by (rule disjoint_hits_later)
      have "count_loop needle m count hay = count_loop needle m count hs"
        using 1(3) len False by (subst count_loop.simps) (simp add: hay)
      also have "\<dots> = disjoint_hits needle (m - count) hs"
        using 1(2) [OF _ False 1(3,4)] 1(3) len hay by simp
      finally show ?thesis using later by simp
    qed
  qed
qed

text \<open>
  scanning from the left and skipping each occurrence found, \<open>count_bytes_at_least\<close> misses none: it
  holds exactly when that many occurrences that do not overlap exist.
\<close>

theorem count_bytes_at_least_iff:
  assumes "needle \<noteq> []" "0 < m"
  shows "count_bytes_at_least hay needle m \<longleftrightarrow> disjoint_hits needle m hay"
  using assms count_loop_iff [of needle 0 m hay] disjoint_hits_long [of needle "m - 1" hay]
  by (auto simp: count_bytes_at_least_def)

lemma count_bytes_at_least_iff_witness:
  "count_bytes_at_least [0x85, 0x3F, 0x85, 0x85, 0x3F] [0x85, 0x3F] 2 \<longleftrightarrow>
     disjoint_hits [0x85, 0x3F] 2 [0x85, 0x3F, 0x85, 0x85, 0x3F]"
  by (rule count_bytes_at_least_iff) simp_all

subsection \<open>The board detected\<close>

lemma tried_eq_Some: "tried C b = Some c \<longleftrightarrow> (\<exists>x. b = Some x \<and> c = C x)"
  by (auto simp: tried_def)

lemma if_superchip_ok [simp]: "banked_ok n (if_superchip sc b) = banked_ok n b"
  by (simp add: if_superchip_def)

lemma rom_only_new_ok: "rom2k_new rom = Some a \<Longrightarrow> rom2k_ok a" "rom4k_new rom = Some b \<Longrightarrow> rom4k_ok b"
  by (auto simp: rom2k_new_def rom4k_new_def rom2k_ok_def rom4k_ok_def split: if_splits)

lemma tigervision_ok:
  assumes "length rom \<le> 0x40000"
  shows "b3f_new rom = Some b \<Longrightarrow> b3f_ok b" "b3e_new rom 32 = Some d \<Longrightarrow> b3e_ok d"
  using assms by (auto intro: b3f_new_ok b3e_new_ok)

lemmas detect_new_ok = banked_new_ok ram_boards_new_ok snoop_boards_new_ok x_new_ok dpc_new_ok ar_new_ok
  dpp_new_ok cdf_new_ok rom_only_new_ok

lemma detect_sizes_ok:
  assumes "length rom \<le> 0x40000"
  shows "detect_8k rom = Some c \<Longrightarrow> cart_ok c" "detect_16k rom = Some c \<Longrightarrow> cart_ok c"
    "detect_32k rom = Some c \<Longrightarrow> cart_ok c" "detect_64k rom = Some c \<Longrightarrow> cart_ok c"
    "detect_128k rom = Some c \<Longrightarrow> cart_ok c" "detect_256k rom = Some c \<Longrightarrow> cart_ok c"
  unfolding detect_8k_def detect_16k_def detect_32k_def detect_64k_def detect_128k_def detect_256k_def
  by (auto simp: tried_eq_Some split: if_splits option.splits
      dest: detect_new_ok tigervision_ok [OF assms])

text \<open>Every image \<open>detect\<close> accepts gives a board that satisfies its invariant.\<close>

lemma detected_board_ok:
  assumes "detect rom = Some c"
  shows "cart_ok c"
proof -
  consider b where "ar_new rom = Some b" "c = BankAr b" | "detect_signed rom = Some c" | "detect_by_size rom = Some c"
    using assms by (auto simp: detect_def Let_def tried_eq_Some split: if_splits option.splits)
  then show ?thesis
  proof cases
    case 1
    then show ?thesis by (simp add: ar_new_ok)
  next
    case 2
    then show ?thesis
      by (auto simp: detect_signed_def tried_eq_Some split: if_splits option.splits dest: detect_new_ok)
  next
    case 3
    then show ?thesis
      by (auto simp: detect_by_size_def Let_def tried_eq_Some split: if_splits
          dest: detect_new_ok detect_sizes_ok [rotated])
  qed
qed

subsection \<open>Which images are accepted\<close>

lemma tried_eq_None [simp]: "tried C b = None \<longleftrightarrow> b = None"
  by (simp add: tried_def)

lemma new_at_size:
  "rom2k_new rom = None \<longleftrightarrow> length rom \<noteq> 0x0800" "rom4k_new rom = None \<longleftrightarrow> length rom \<noteq> 0x1000"
  "f8_new rom = None \<longleftrightarrow> length rom \<noteq> 0x2000" "f6_new rom = None \<longleftrightarrow> length rom \<noteq> 0x4000"
  "f4_new rom = None \<longleftrightarrow> length rom \<noteq> 0x8000" "ef_new rom = None \<longleftrightarrow> length rom \<noteq> 0x10000"
  "df_new rom = None \<longleftrightarrow> length rom \<noteq> 0x20000" "bf_new rom = None \<longleftrightarrow> length rom \<noteq> 0x40000"
  "cv_new rom = None \<longleftrightarrow> length rom \<noteq> 0x0800 \<and> length rom \<noteq> 0x1000"
  "fa_new rom = None \<longleftrightarrow> length rom \<noteq> 0x3000" "e7_new rom = None \<longleftrightarrow> length rom \<noteq> 0x4000"
  "f0_new rom = None \<longleftrightarrow> length rom \<noteq> 0x10000" "e0_new rom = None \<longleftrightarrow> length rom \<noteq> 0x2000"
  "ua_new rom = None \<longleftrightarrow> length rom \<noteq> 0x2000" "b0840_new rom = None \<longleftrightarrow> length rom \<noteq> 0x2000"
  "x07_new rom = None \<longleftrightarrow> length rom \<noteq> 0x10000" "fe_new rom = None \<longleftrightarrow> length rom \<noteq> 0x2000"
  "sb_new rom = None \<longleftrightarrow> length rom \<noteq> 0x20000 \<and> length rom \<noteq> 0x40000"
  "x_new rom = None \<longleftrightarrow> length rom \<noteq> 0x8000 \<and> length rom \<noteq> 0x10000 \<and> length rom \<noteq> 0x20000"
  "dpc_new rom = None \<longleftrightarrow> length rom < 0x2800"
  "b3f_new rom = None \<longleftrightarrow> rom = [] \<or> length rom mod 0x0800 \<noteq> 0"
  "b3e_new rom 32 = None \<longleftrightarrow> rom = [] \<or> length rom mod 0x0800 \<noteq> 0"
  by (auto simp: rom2k_new_def rom4k_new_def f8_new_def f6_new_def f4_new_def ef_new_def df_new_def
      bf_new_def cv_new_def fa_new_def e7_new_def f0_new_def e0_new_def ua_new_def b0840_new_def
      x07_new_def fe_new_def sb_new_def x_new_def dpc_new_def b3f_new_def b3e_new_def slice_chk_def Let_def)

lemma dpp_new_None: "dpp_new rom = None \<longleftrightarrow> dpp_bank_count_of rom = None"
proof -
  have "dpp_bank_count_of rom = None \<Longrightarrow> dpp_new rom = None" by (simp add: dpp_new_def)
  moreover have "dpp_new rom \<noteq> None" if "dpp_bank_count_of rom \<noteq> None"
  proof -
    define n where "n = (length rom - 8192) div 4096"
    have "length rom > 8192" "(length rom - 8192) mod 4096 = 0" "n \<noteq> 0" "n \<le> 8"
      using that by (auto simp: dpp_bank_count_of_def Let_def DRIVER_SIZE_def DATA_SIZE_def FREQ_SIZE_def
          DPP_BANK_SIZE_def n_def split: if_splits)
    then have "n \<in> {1..8} \<and> length rom = 3072 + n * 4096 + 4096 + 1024" by (auto simp: n_def)
    then show ?thesis unfolding dpp_new_iff by blast
  qed
  ultimately show ?thesis by blast
qed

lemma ar_new_at: "rom \<noteq> [] \<Longrightarrow> length rom mod LOAD_SIZE = 0 \<Longrightarrow> length rom div LOAD_SIZE \<le> 32 \<Longrightarrow> ar_new rom \<noteq> None"
  using ar_new_reset [of rom] by (auto simp: wpo_def)

lemma detect_at_size:
  "length rom = 0x2000 \<Longrightarrow> detect_8k rom \<noteq> None" "length rom = 0x4000 \<Longrightarrow> detect_16k rom \<noteq> None"
  "length rom = 0x8000 \<Longrightarrow> detect_32k rom \<noteq> None" "length rom = 0x10000 \<Longrightarrow> detect_64k rom \<noteq> None"
  "length rom = 0x20000 \<Longrightarrow> detect_128k rom \<noteq> None" "length rom = 0x40000 \<Longrightarrow> detect_256k rom \<noteq> None"
  unfolding detect_8k_def detect_16k_def detect_32k_def detect_64k_def detect_128k_def detect_256k_def
  by (simp_all add: new_at_size del: not_None_eq flip: length_0_conv split: option.split)

lemma detect_by_size_None:
  "detect_by_size rom = None \<longleftrightarrow> length rom \<notin> {0x0800, 0x1000, 0x2000, 0x3000, 0x4000, 0x8000, 0x10000,
     0x20000, 0x40000} \<and> \<not> (0x2800 \<le> length rom \<and> length rom \<le> 0x2900)"
proof -
  have "length rom = n \<Longrightarrow> detect_by_size rom \<noteq> None"
    if "n \<in> {0x0800, 0x1000, 0x2000, 0x3000, 0x4000, 0x8000, 0x10000, 0x20000, 0x40000}" for n
    using that detect_at_size [of rom] unfolding insert_iff empty_iff
    by (elim disjE) (simp_all add: detect_by_size_def new_at_size del: not_None_eq)
  moreover have "detect_by_size rom \<noteq> None" if "0x2800 \<le> length rom" "length rom \<le> 0x2900"
    using that by (simp add: detect_by_size_def Let_def new_at_size del: not_None_eq)
  moreover have "detect_by_size rom = None" if "length rom \<notin> {0x0800, 0x1000, 0x2000, 0x3000, 0x4000, 0x8000,
      0x10000, 0x20000, 0x40000}" "\<not> (0x2800 \<le> length rom \<and> length rom \<le> 0x2900)"
    using that by (auto simp: detect_by_size_def Let_def)
  ultimately show ?thesis by blast
qed

lemma detect_signed_None:
  "detect_signed rom = None \<longleftrightarrow> \<not> is_probably_dpc_plus rom \<and>
     (\<forall>kind. fingerprint_cdf rom = Some kind \<longrightarrow> cdf_new rom kind = None)"
  by (auto simp: detect_signed_def dpp_new_None is_probably_dpc_plus_def split: option.split)

lemma loads_iff: "rom \<noteq> [] \<and> length rom mod LOAD_SIZE = 0 \<and> length rom div LOAD_SIZE \<ge> 1 \<and> length rom div LOAD_SIZE \<le> 32
    \<longleftrightarrow> (\<exists>k \<in> {1..32}. length rom = k * LOAD_SIZE)"
  by (auto simp: LOAD_SIZE_def intro!: bexI [of _ "length rom div 8448"])

text \<open>
  C23: \<open>detect\<close> accepts exactly the images of a size in its table, those of 1 to 32 Supercharger loads,
  and those with the signature of an ARM board that are large enough for it.
\<close>

theorem detect_accepts:
  "detect rom \<noteq> None \<longleftrightarrow>
     (\<exists>k \<in> {1..32}. length rom = k * LOAD_SIZE) \<or> is_probably_dpc_plus rom \<or>
     (\<exists>kind. fingerprint_cdf rom = Some kind \<and> length rom \<ge> (if kind = CdfjPlus then 30720 else 32768)) \<or>
     length rom \<in> {0x0800, 0x1000, 0x2000, 0x3000, 0x4000, 0x8000, 0x10000, 0x20000, 0x40000} \<or>
     (0x2800 \<le> length rom \<and> length rom \<le> 0x2900)"
proof (cases "\<exists>k \<in> {1..32}. length rom = k * LOAD_SIZE")
  case True
  then have "rom \<noteq> [] \<and> length rom mod LOAD_SIZE = 0 \<and> length rom div LOAD_SIZE \<ge> 1 \<and> length rom div LOAD_SIZE \<le> 32"
    by (simp only: loads_iff)
  then have "detect rom \<noteq> None" using ar_new_at by (simp add: detect_def Let_def)
  then show ?thesis using True by simp
next
  case False
  then have d: "detect rom = (case detect_signed rom of Some c \<Rightarrow> Some c | None \<Rightarrow> detect_by_size rom)"
    unfolding detect_def Let_def loads_iff by simp
  have s: "detect_signed rom \<noteq> None \<longleftrightarrow> is_probably_dpc_plus rom \<or>
      (\<exists>kind. fingerprint_cdf rom = Some kind \<and> length rom \<ge> (if kind = CdfjPlus then 30720 else 32768))"
    unfolding detect_signed_None using cdf_new_iff [of rom] by auto
  have "detect rom \<noteq> None \<longleftrightarrow> detect_signed rom \<noteq> None \<or> detect_by_size rom \<noteq> None"
    unfolding d by (cases "detect_signed rom") auto
  then show ?thesis unfolding s detect_by_size_None using False by blast
qed

text \<open>For one: an image of 4 KiB is a cartridge without a coprocessor, whatever its contents.\<close>

lemma detect_4k: "length rom = 0x1000 \<Longrightarrow> \<exists>c. detect rom = Some c \<and> \<not> has_arm c"
proof -
  assume n: "length rom = 0x1000"
  have "dpp_bank_count_of rom = None"
    by (simp add: dpp_bank_count_of_def n DRIVER_SIZE_def DATA_SIZE_def FREQ_SIZE_def DPP_BANK_SIZE_def)
  moreover have "cdf_new rom kind = None" for kind using cdf_new_iff [of rom kind] n by (auto split: if_splits)
  ultimately have "detect_signed rom = None" unfolding detect_signed_None is_probably_dpc_plus_def by blast
  moreover have "\<exists>c. detect_by_size rom = Some c \<and> \<not> has_arm c"
    using new_at_size(2,9) [of rom] n by (auto simp: detect_by_size_def tried_def)
  ultimately show ?thesis using n by (simp add: detect_def LOAD_SIZE_def)
qed

end
