(* ===== verification/Emu_Core.thy ===== *)
theory Emu_Core
  imports Frames Palette Detect
begin

text \<open>
  The emulation thread's core (\<open>crates/rusty2600-frontend/src/emu_thread.rs\<close>) and run-ahead
  (\<open>runahead.rs\<close>): loading and closing a ROM, one frame in each of the two styles of the source
  (\<open>run_frame\<close> into the core's own buffer, \<open>step_frame\<close> into a published frame), the rewind ring, and
  the speculative frames whose effects are thrown away. Samples are \<open>f32\<close> values, whose arithmetic is a
  parameter; \<open>audio_tx\<close> is the list of samples handed to the audio producer. The optional features
  (hd-pack, A/V recording) are not modelled.
\<close>

subsection \<open>State\<close>

text \<open>The \<open>f32\<close> operations and constants of the sample path.\<close>

record 'g f32_ops =
  f32_of_u8 :: "u8 \<Rightarrow> 'g"
  f32_add :: "'g \<Rightarrow> 'g \<Rightarrow> 'g"
  f32_sub :: "'g \<Rightarrow> 'g \<Rightarrow> 'g"
  f32_mul :: "'g \<Rightarrow> 'g \<Rightarrow> 'g"
  f32_div :: "'g \<Rightarrow> 'g \<Rightarrow> 'g"
  f32_0 :: 'g
  f32_1 :: 'g
  f32_15 :: 'g
  f32_0995 :: 'g

definition MAX_W :: nat where "MAX_W = VCS_W"
definition MAX_H :: nat where "MAX_H = VISIBLE_HEIGHT_PAL"
definition MAX_SNAPSHOTS :: nat where "MAX_SNAPSHOTS = 600"

record ('f, 'g, 'w) emu_core =
  ec_system :: "('f, cartridge) system"
  ec_region :: region
  ec_paused :: bool
  ec_rom_loaded :: bool
  ec_framebuffer :: "u8 list"
  ec_index_buffer :: "u8 list"
  ec_board_tier :: "string option"
  ec_board_scheme :: "string option"
  ec_rom_size :: "nat option"
  ec_audio_tx :: "'g list option"
  ec_snapshots :: "'w list"
  ec_rewind_capture_suppressed :: bool
  ec_audio_output_suppressed :: bool
  ec_frame_count :: u64
  ec_dc_blocker_x :: 'g
  ec_dc_blocker_y :: 'g
  ec_rom_tag :: "u64 option"

type_synonym ('f, 'w) state_codec = "(('f, cartridge) save_state, 'w) codec"

definition fnv1a64 :: "u8 list \<Rightarrow> u64" where
  "fnv1a64 bytes = fold (\<lambda>b hash. (hash XOR ucast b) * 0x100000001b3) bytes 0xcbf29ce484222325"

definition emu_core_new :: "'f fops \<Rightarrow> 'g f32_ops \<Rightarrow> u64 \<Rightarrow> ('f, 'g, 'w) emu_core" where
  "emu_core_new F G seed = \<lparr>ec_system = system_new F seed, ec_region = Region_Ntsc, ec_paused = False,
     ec_rom_loaded = False, ec_framebuffer = replicate (MAX_W * MAX_H * 4) 0, ec_index_buffer = replicate (MAX_W * MAX_H) 0,
     ec_board_tier = None, ec_board_scheme = None, ec_rom_size = None, ec_audio_tx = None, ec_snapshots = [],
     ec_rewind_capture_suppressed = False, ec_audio_output_suppressed = False, ec_frame_count = 0,
     ec_dc_blocker_x = f32_0 G, ec_dc_blocker_y = f32_0 G, ec_rom_tag = None\<rparr>"

datatype emu_error = EmptyRom | UnsupportedRom

text \<open>\<open>None\<close> is a panic, \<open>Inl\<close> an error that leaves the core as it was.\<close>

definition load_rom ::
  "'f fops \<Rightarrow> u8 list \<Rightarrow> ('f, 'g, 'w) emu_core \<Rightarrow> (emu_error + ('f, 'g, 'w) emu_core) option" where
  "load_rom F rom core =
     (if rom = [] then Some (Inl EmptyRom)
      else (case detect rom of
        None \<Rightarrow> Some (Inl UnsupportedRom)
      | Some cart \<Rightarrow> do {
          let core = core\<lparr>ec_board_tier := Some (tier_name (cart_tier cart)),
            ec_board_scheme := Some (scheme_name cart), ec_rom_size := Some (length rom)\<rparr>;
          let s = system_new F 0;
          let s = s\<lparr>sys_bus := (sys_bus s)\<lparr>b_board := Some cart\<rparr>\<rparr>;
          s \<leftarrow> system_reset F cart_ops s;
          Some (Inr (core\<lparr>ec_system := s, ec_snapshots := [], ec_frame_count := 0, ec_rom_loaded := True,
            ec_rom_tag := Some (fnv1a64 rom)\<rparr>)) }))"

definition close_rom :: "'f fops \<Rightarrow> ('f, 'g, 'w) emu_core \<Rightarrow> ('f, 'g, 'w) emu_core" where
  "close_rom F core = core\<lparr>ec_system := system_new F 0, ec_snapshots := [], ec_frame_count := 0, ec_rom_loaded := False,
     ec_board_tier := None, ec_board_scheme := None, ec_rom_size := None, ec_rom_tag := None,
     ec_framebuffer := map (\<lambda>_. 0) (ec_framebuffer core), ec_index_buffer := map (\<lambda>_. 0) (ec_index_buffer core)\<rparr>"

text \<open>A snapshot that does not decode is dropped and changes nothing.\<close>

definition rewind :: "('f, 'w) state_codec \<Rightarrow> ('f, 'g, 'w) emu_core \<Rightarrow> ('f, 'g, 'w) emu_core" where
  "rewind K core = (case rev (ec_snapshots core) of
     [] \<Rightarrow> core
   | bytes # older \<Rightarrow> (let core = core\<lparr>ec_snapshots := rev older\<rparr> in
       case decode K bytes of Inl e \<Rightarrow> core | Inr st \<Rightarrow> core\<lparr>ec_system := ss_system st\<rparr>))"

definition fb_dims :: "('f, 'g, 'w) emu_core \<Rightarrow> nat \<times> nat" where
  "fb_dims core = (VCS_W, active_height (ec_region core))"

definition framebuffer :: "('f, 'g, 'w) emu_core \<Rightarrow> u8 list" where
  "framebuffer core = (let (w, h) = fb_dims core in take (min (w * h * 4) (length (ec_framebuffer core))) (ec_framebuffer core))"

definition index_buffer :: "('f, 'g, 'w) emu_core \<Rightarrow> u8 list" where
  "index_buffer core = (let (w, h) = fb_dims core in take (min (w * h) (length (ec_index_buffer core))) (ec_index_buffer core))"

subsection \<open>Input, snapshots and samples\<close>

text \<open>\<open>for (i, position) in paddles.into_iter().enumerate()\<close>.\<close>

definition set_paddles :: "'f fops \<Rightarrow> u8 list \<Rightarrow> 'f tia \<Rightarrow> 'f tia" where
  "set_paddles F positions t = fold (\<lambda>(i, p) t. set_paddle_position F i p t) (enumerate 0 positions) t"

definition latch_input :: "'f fops \<Rightarrow> frame_input \<Rightarrow> ('f, cartridge) system \<Rightarrow> ('f, cartridge) system" where
  "latch_input F inp s = (let
     (swcha, swchb, inpt4, inpt5, paddles) = inp;
     b = sys_bus s;
     r = (b_riot b)\<lparr>riot_pins := (riot_pins (b_riot b))[0 := swcha, 1 := swchb]\<rparr>;
     t = (b_tia b)\<lparr>tia_inpt := (tia_inpt (b_tia b))[4 := inpt4, 5 := inpt5]\<rparr>;
     t = set_paddles F paddles t
   in s\<lparr>sys_bus := b\<lparr>b_riot := r, b_tia := t\<rparr>\<rparr>)"

definition push_snapshot :: "('f, 'w) state_codec \<Rightarrow> ('f, 'g, 'w) emu_core \<Rightarrow> ('f, 'g, 'w) emu_core" where
  "push_snapshot K core = (let snaps = ec_snapshots core @ [encode K (capture (ec_system core) 0)] in
     core\<lparr>ec_snapshots := (if length snaps > MAX_SNAPSHOTS then tl snaps else snaps)\<rparr>)"

definition normalize_sample :: "'g f32_ops \<Rightarrow> u8 \<Rightarrow> 'g" where
  "normalize_sample G s = f32_sub G (f32_div G (f32_of_u8 G s) (f32_15 G)) (f32_1 G)"

text \<open>One sample through the one-pole high-pass filter; the filtered sample and the filter's state.\<close>

definition dc_block :: "'g f32_ops \<Rightarrow> u8 \<Rightarrow> 'g \<times> 'g \<Rightarrow> 'g \<times> 'g \<times> 'g" where
  "dc_block G s xy = (let (x, y) = xy;
     normalized = normalize_sample G s;
     out = f32_add G (f32_sub G normalized x) (f32_mul G (f32_0995 G) y)
   in (out, normalized, out))"

fun dc_block_all :: "'g f32_ops \<Rightarrow> u8 list \<Rightarrow> 'g \<times> 'g \<Rightarrow> 'g list \<times> 'g \<times> 'g" where
  "dc_block_all G [] xy = ([], xy)"
| "dc_block_all G (s # ss) xy = (let (out, xy) = dc_block G s xy; (outs, xy) = dc_block_all G ss xy in (out # outs, xy))"

definition clear_samples :: "('f, 'c) system \<Rightarrow> ('f, 'c) system" where
  "clear_samples s = s\<lparr>sys_bus := (sys_bus s)\<lparr>b_tia := (b_tia (sys_bus s))\<lparr>tia_audio_buffer := []\<rparr>\<rparr>\<rparr>"

definition emit_samples :: "'g f32_ops \<Rightarrow> u8 list \<Rightarrow> ('f, 'g, 'w) emu_core \<Rightarrow> ('f, 'g, 'w) emu_core" where
  "emit_samples G samples core = (let
     (outs, x, y) = dc_block_all G samples (ec_dc_blocker_x core, ec_dc_blocker_y core)
   in core\<lparr>ec_dc_blocker_x := x, ec_dc_blocker_y := y, ec_audio_tx := map_option (\<lambda>tx. tx @ outs) (ec_audio_tx core)\<rparr>)"

definition vblank_lines :: "region \<Rightarrow> nat" where
  "vblank_lines r = (if r = Region_Ntsc then 37 else 42)"

text \<open>\<open>video.get(src).copied().unwrap_or(0)\<close>.\<close>

definition video_at :: "u8 list \<Rightarrow> nat \<Rightarrow> u8" where
  "video_at video src = (if src < length video then video ! src else 0)"

definition picture_dot :: "region \<Rightarrow> u8 list \<Rightarrow> nat \<Rightarrow> nat \<Rightarrow> u8" where
  "picture_dot r video x y = video_at video ((y + vblank_lines r) * 160 + x)"

subsection \<open>A frame\<close>

definition draw_onto :: "region \<Rightarrow> u8 list \<Rightarrow> frame \<Rightarrow> frame" where
  "draw_onto r video f = fold (\<lambda>y. fold (\<lambda>x f. let c = picture_dot r video x y in
       put_index x y (drop_bit 1 c) (put_dot x y (lookup_color r (drop_bit 1 c)) f)) [0..<160])
     [0..<active_height r] f"

definition draw_frame :: "region \<Rightarrow> u8 list \<Rightarrow> frame" where
  "draw_frame r video = draw_onto r video (black VCS_W (active_height r))"

text \<open>At most 200001 instructions: the count is tested after it is incremented.\<close>

definition step_frame ::
  "'f fops \<Rightarrow> 'g f32_ops \<Rightarrow> ('f, 'w) state_codec \<Rightarrow> frame_input option \<Rightarrow> ('f, 'g, 'w) emu_core \<Rightarrow> frame_slot \<Rightarrow>
   (('f, 'g, 'w) emu_core \<times> frame_slot) option" where
  "step_frame F G K inp core frames = do {
     let core = (case inp of Some i \<Rightarrow> core\<lparr>ec_system := latch_input F i (ec_system core)\<rparr> | None \<Rightarrow> core);
     if \<not> ec_rom_loaded core \<or> ec_paused core then Some (core, frames)
     else do {
       let core = (if \<not> ec_rewind_capture_suppressed core then push_snapshot K core else core);
       s \<leftarrow> frame_loop F cart_ops 200001 (sys_vsync (ec_system core)) (ec_system core);
       let samples = tia_audio_buffer (b_tia (sys_bus s));
       let core = core\<lparr>ec_system := clear_samples s\<rparr>;
       let core = (if \<not> ec_audio_output_suppressed core then emit_samples G samples core else core);
       let frame = draw_frame (ec_region core) (tia_video_buffer (b_tia (sys_bus s)));
       let core = core\<lparr>ec_frame_count := ec_frame_count core + 1\<rparr>;
       Some (core, publish frame frames) } }"

text \<open>The tail \<open>run_frame\<close> and \<open>extract_frame\<close> share: drain the samples, fill the core's own buffers.\<close>

definition put_framebuffer :: "nat \<Rightarrow> nat \<Rightarrow> rgb \<Rightarrow> u8 list \<Rightarrow> u8 list" where
  "put_framebuffer x y c fb = (let off = (y * 160 + x) * 4 in
     if off + 3 < length fb
     then fb[off := ucast (drop_bit 16 c), off + 1 := ucast (drop_bit 8 c), off + 2 := ucast c, off + 3 := 255] else fb)"

definition put_index_buffer :: "nat \<Rightarrow> nat \<Rightarrow> u8 \<Rightarrow> u8 list \<Rightarrow> u8 list" where
  "put_index_buffer x y c ib = (let off = y * 160 + x in if off < length ib then ib[off := c] else ib)"

definition crop_picture :: "region \<Rightarrow> u8 list \<Rightarrow> u8 list \<times> u8 list \<Rightarrow> u8 list \<times> u8 list" where
  "crop_picture r video bufs = fold (\<lambda>y. fold (\<lambda>x (fb, ib). let c = picture_dot r video x y in
     (put_framebuffer x y (lookup_color r (drop_bit 1 c)) fb, put_index_buffer x y (drop_bit 1 c) ib)) [0..<160])
     [0..<active_height r] bufs"

definition extract_frame :: "'g f32_ops \<Rightarrow> ('f, 'g, 'w) emu_core \<Rightarrow> ('f, 'g, 'w) emu_core" where
  "extract_frame G core = (let
     s = ec_system core;
     samples = tia_audio_buffer (b_tia (sys_bus s));
     core = core\<lparr>ec_system := clear_samples s\<rparr>;
     core = (if samples \<noteq> [] then emit_samples G samples core else core);
     (fb, ib) = crop_picture (ec_region core) (tia_video_buffer (b_tia (sys_bus s))) (ec_framebuffer core, ec_index_buffer core)
   in core\<lparr>ec_framebuffer := fb, ec_index_buffer := ib, ec_frame_count := ec_frame_count core + 1\<rparr>)"

definition state_input :: "input_state \<Rightarrow> frame_input" where
  "state_input st = (let (swcha, swchb) = input_riot_ports st; (inpt4, inpt5) = fire_inputs st
     in (swcha, swchb, inpt4, inpt5, map pot_position (is_paddles st)))"

definition run_frame ::
  "'f fops \<Rightarrow> 'g f32_ops \<Rightarrow> ('f, 'w) state_codec \<Rightarrow> input_state option \<Rightarrow> ('f, 'g, 'w) emu_core \<Rightarrow> ('f, 'g, 'w) emu_core option" where
  "run_frame F G K inp core = do {
     let core = (case inp of Some st \<Rightarrow> core\<lparr>ec_system := latch_input F (state_input st) (ec_system core)\<rparr> | None \<Rightarrow> core);
     if \<not> ec_rom_loaded core \<or> ec_paused core then Some core
     else do {
       let core = push_snapshot K core;
       s \<leftarrow> frame_loop F cart_ops 200001 (sys_vsync (ec_system core)) (ec_system core);
       Some (extract_frame G (core\<lparr>ec_system := s\<rparr>)) } }"

subsection \<open>Run-ahead\<close>

fun hidden_frames ::
  "'f fops \<Rightarrow> 'g f32_ops \<Rightarrow> ('f, 'w) state_codec \<Rightarrow> frame_input option \<Rightarrow> nat \<Rightarrow> ('f, 'g, 'w) emu_core \<Rightarrow> frame_slot \<Rightarrow>
   (('f, 'g, 'w) emu_core \<times> frame_slot) option" where
  "hidden_frames F G K inp 0 core scratch = Some (core, scratch)"
| "hidden_frames F G K inp (Suc n) core scratch = do {
     (core, scratch) \<leftarrow> step_frame F G K inp core scratch;
     hidden_frames F G K inp n core scratch }"

definition runahead_step_frame ::
  "'f fops \<Rightarrow> 'g f32_ops \<Rightarrow> ('f, 'w) state_codec \<Rightarrow> frame_input option \<Rightarrow> nat \<Rightarrow> ('f, 'g, 'w) emu_core \<Rightarrow> frame_slot \<Rightarrow>
   (('f, 'g, 'w) emu_core \<times> frame_slot) option" where
  "runahead_step_frame F G K inp runahead_frames core frames =
     (if runahead_frames = 0 then step_frame F G K inp core frames
      else do {
        let core = core\<lparr>ec_audio_output_suppressed := True\<rparr>;
        (core, scratch) \<leftarrow> step_frame F G K inp core None;
        let core = core\<lparr>ec_audio_output_suppressed := False\<rparr>;
        let checkpoint = encode K (capture (ec_system core) 0);
        let core = core\<lparr>ec_rewind_capture_suppressed := True, ec_audio_output_suppressed := True\<rparr>;
        (core, scratch) \<leftarrow> hidden_frames F G K inp (runahead_frames - 1) core scratch;
        let core = core\<lparr>ec_audio_output_suppressed := False\<rparr>;
        (core, frames) \<leftarrow> step_frame F G K inp core frames;
        let core = core\<lparr>ec_rewind_capture_suppressed := False\<rparr>;
        let core = (case decode K checkpoint of Inr st \<Rightarrow> core\<lparr>ec_system := ss_system st\<rparr> | Inl e \<Rightarrow> core);
        Some (core, frames) })"

subsection \<open>What a frame does to the machine\<close>

lemma set_paddle_position_kept: "set_paddle_position F i p (kept_tia t) = kept_tia (set_paddle_position F i p t)"
  by (simp add: set_paddle_position_def kept_tia_upd)

lemma set_paddles_kept: "set_paddles F ps (kept_tia t) = kept_tia (set_paddles F ps t)"
proof -
  have "fold (\<lambda>(i, p) t. set_paddle_position F i p t) xs (kept_tia t) =
      kept_tia (fold (\<lambda>(i, p) t. set_paddle_position F i p t) xs t)" for xs
    by (induction xs arbitrary: t) (auto simp: set_paddle_position_kept)
  then show ?thesis by (simp add: set_paddles_def)
qed

lemma set_paddles_ok: "tia_ok t \<Longrightarrow> tia_ok (set_paddles F ps t)"
proof -
  have "tia_ok t \<Longrightarrow> tia_ok (fold (\<lambda>(i, p) t. set_paddle_position F i p t) xs t)" for xs
    by (induction xs arbitrary: t) (auto simp: set_paddle_position_ok)
  then show "tia_ok t \<Longrightarrow> tia_ok (set_paddles F ps t)" by (simp add: set_paddles_def)
qed

lemma set_paddles_clock: "tia_paddle_clock (set_paddles F ps t) = tia_paddle_clock t"
proof -
  have "tia_paddle_clock (fold (\<lambda>(i, p) t. set_paddle_position F i p t) xs t) = tia_paddle_clock t" for xs
    by (induction xs arbitrary: t) (auto simp: set_paddle_position_def)
  then show ?thesis by (simp add: set_paddles_def)
qed

lemma latch_kept: "latch_input F i (kept_system s) = kept_system (latch_input F i s)"
proof -
  obtain a b c d ps where i: "i = (a, b, c, d, ps)" by (cases i)
  show ?thesis
    by (simp add: i latch_input_def Let_def kept_system_def set_paddles_kept [symmetric]) (simp add: kept_tia_upd)
qed

lemma latch_ok: "sys_ok ok s \<Longrightarrow> sys_ok ok (latch_input F i s)"
proof -
  assume ok: "sys_ok ok s"
  obtain a b c d ps where i: "i = (a, b, c, d, ps)" by (cases i)
  have "tia_ok (set_paddles F ps ((b_tia (sys_bus s))\<lparr>tia_inpt := (tia_inpt (b_tia (sys_bus s)))[4 := c, 5 := d]\<rparr>))"
    using ok by (intro set_paddles_ok) (simp add: sys_ok_def bus_ok_def tia_ok_def)
  then show ?thesis
    using ok by (simp add: i latch_input_def Let_def sys_ok_def bus_ok_def riot_ok_def set_paddles_clock)
qed

lemma clear_samples_kept [simp]: "kept_system (clear_samples s) = kept_system s"
  by (simp add: clear_samples_def kept_system_def kept_tia_upd)

lemma clear_samples_ok [simp]: "sys_ok ok s \<Longrightarrow> sys_ok ok (clear_samples s)"
  by (simp add: clear_samples_def sys_ok_def bus_ok_def tia_ok_def)

text \<open>What a frame of play does to the machine, and a sequence of them.\<close>

definition latch_opt :: "'f fops \<Rightarrow> frame_input option \<Rightarrow> ('f, cartridge) system \<Rightarrow> ('f, cartridge) system" where
  "latch_opt F inp s = (case inp of Some i \<Rightarrow> latch_input F i s | None \<Rightarrow> s)"

definition next_system :: "'f fops \<Rightarrow> frame_input option \<Rightarrow> ('f, cartridge) system \<Rightarrow> ('f, cartridge) system option" where
  "next_system F inp s = (let s = latch_opt F inp s in map_option clear_samples (frame_loop F cart_ops 200001 (sys_vsync s) s))"

lemma latch_opt_kept: "latch_opt F i (kept_system s) = kept_system (latch_opt F i s)"
  by (simp add: latch_opt_def latch_kept split: option.split)

lemma next_system_cong:
  "kept_system s = kept_system s' \<Longrightarrow> map_option kept_system (next_system F i s) = map_option kept_system (next_system F i s')"
proof -
  assume "kept_system s = kept_system s'"
  then have "kept_system (latch_opt F i s) = kept_system (latch_opt F i s')" by (metis latch_opt_kept)
  from frame_loop_cong [OF this, of F cart_ops 200001] sys_vsync_kept [OF this] show ?thesis
    by (simp add: next_system_def Let_def option.map_comp o_def)
qed

lemma latch_opt_ok: "sys_ok ok s \<Longrightarrow> sys_ok ok (latch_opt F i s)"
  by (simp add: latch_opt_def latch_ok split: option.split)

lemma frame_returns:
  assumes "sys_ok plain_cart_ok s"
  shows "\<exists>t. frame_loop F cart_ops 200001 (sys_vsync (latch_opt F i s)) (latch_opt F i s) = Some t \<and>
    next_system F i s = Some (clear_samples t) \<and> sys_ok plain_cart_ok (clear_samples t)"
  using vcs.frame_loop_ok [OF latch_opt_ok [OF assms, of F i], of F 200001 "sys_vsync (latch_opt F i s)"]
  by (auto simp: next_system_def Let_def wpo_def)

definition shown_frame :: "('f, 'g, 'w) emu_core \<Rightarrow> frame" where
  "shown_frame core = draw_frame (ec_region core) (tia_video_buffer (b_tia (sys_bus (ec_system core))))"

definition playing :: "('f, 'g, 'w) emu_core \<Rightarrow> bool" where
  "playing core \<longleftrightarrow> sys_ok plain_cart_ok (ec_system core) \<and> ec_rom_loaded core \<and> \<not> ec_paused core"

text \<open>The history of snapshots after a frame that starts from machine \<open>s\<close>.\<close>

definition pushed :: "('f, 'w) state_codec \<Rightarrow> ('f, cartridge) system \<Rightarrow> 'w list \<Rightarrow> 'w list" where
  "pushed K s snaps = (let snaps = snaps @ [encode K (capture s 0)] in if length snaps > MAX_SNAPSHOTS then tl snaps else snaps)"

lemma push_snapshot_eq: "push_snapshot K core = core\<lparr>ec_snapshots := pushed K (ec_system core) (ec_snapshots core)\<rparr>"
  by (simp add: push_snapshot_def pushed_def Let_def)

lemma pushed_length: "length snaps \<le> MAX_SNAPSHOTS \<Longrightarrow> length (pushed K s snaps) = min MAX_SNAPSHOTS (Suc (length snaps))"
  by (simp add: pushed_def Let_def)

lemma pushed_rev: "snaps = [] \<or> True \<Longrightarrow> \<exists>older. rev (pushed K s snaps) = encode K (capture s 0) # rev older \<and>
    (length snaps < MAX_SNAPSHOTS \<longrightarrow> older = snaps)"
  by (cases snaps) (auto simp: pushed_def Let_def MAX_SNAPSHOTS_def)

text \<open>Everything a frame of play changes in the core but the samples.\<close>

lemma step_frame_does:
  assumes "playing core"
  shows "\<exists>core'. step_frame F G K inp core frames = Some (core', Some (shown_frame core')) \<and>
    next_system F inp (ec_system core) = Some (ec_system core') \<and> playing core' \<and>
    ec_rewind_capture_suppressed core' = ec_rewind_capture_suppressed core \<and>
    ec_audio_output_suppressed core' = ec_audio_output_suppressed core \<and> ec_region core' = ec_region core \<and>
    ec_frame_count core' = ec_frame_count core + 1 \<and>
    ec_snapshots core' = (if ec_rewind_capture_suppressed core then ec_snapshots core
      else pushed K (latch_opt F inp (ec_system core)) (ec_snapshots core)) \<and>
    (ec_audio_output_suppressed core \<longrightarrow> ec_audio_tx core' = ec_audio_tx core)"
proof -
  obtain t where t: "frame_loop F cart_ops 200001 (sys_vsync (latch_opt F inp (ec_system core))) (latch_opt F inp (ec_system core)) = Some t"
    "next_system F inp (ec_system core) = Some (clear_samples t)" "sys_ok plain_cart_ok (clear_samples t)"
    using frame_returns assms unfolding playing_def by blast
  have video: "tia_video_buffer (b_tia (sys_bus (clear_samples t))) = tia_video_buffer (b_tia (sys_bus t))"
    by (simp add: clear_samples_def)
  have latch: "(case inp of Some i \<Rightarrow> core\<lparr>ec_system := latch_input F i (ec_system core)\<rparr> | None \<Rightarrow> core) =
      core\<lparr>ec_system := latch_opt F inp (ec_system core)\<rparr>"
    by (cases inp) (simp_all add: latch_opt_def)
  show ?thesis
    using assms t unfolding step_frame_def latch
    by (auto simp: playing_def push_snapshot_eq Let_def emit_samples_def shown_frame_def video publish_def split_beta)
qed

subsection \<open>Run-ahead leaves no trace\<close>

lemma hidden_frames_do:
  assumes "playing core" "ec_rewind_capture_suppressed core" "ec_audio_output_suppressed core"
  shows "\<exists>core' scratch'. hidden_frames F G K inp n core scratch = Some (core', scratch') \<and> playing core' \<and>
    ec_rewind_capture_suppressed core' \<and> ec_audio_output_suppressed core' \<and>
    ec_frame_count core' = ec_frame_count core + of_nat n \<and> ec_snapshots core' = ec_snapshots core \<and>
    ec_audio_tx core' = ec_audio_tx core"
  using assms
proof (induction n arbitrary: core scratch)
  case (Suc n)
  obtain c where c: "step_frame F G K inp core scratch = Some (c, Some (shown_frame c))" "playing c"
    "ec_rewind_capture_suppressed c" "ec_audio_output_suppressed c" "ec_frame_count c = ec_frame_count core + 1"
    "ec_snapshots c = ec_snapshots core" "ec_audio_tx c = ec_audio_tx core"
    using step_frame_does [OF Suc.prems(1), of F G K inp scratch] Suc.prems(2,3) by auto
  from Suc.IH [OF c(2-4), of "Some (shown_frame c)"] show ?case by (auto simp: c algebra_simps)
qed simp

definition calm :: "('f, 'g, 'w) emu_core \<Rightarrow> bool" where
  "calm core \<longleftrightarrow> playing core \<and> \<not> ec_rewind_capture_suppressed core \<and> \<not> ec_audio_output_suppressed core"

lemma playing_flags [simp]:
  "playing (core\<lparr>ec_audio_output_suppressed := a\<rparr>) = playing core"
  "playing (core\<lparr>ec_rewind_capture_suppressed := a\<rparr>) = playing core"
  by (simp_all add: playing_def)

text \<open>One tick of the emulation thread with a look-ahead of \<open>n\<close> frames.\<close>

lemma runahead_does:
  assumes "codec_keeps K" "calm core"
  shows "\<exists>core' f t. runahead_step_frame F G K inp n core frames = Some (core', Some f) \<and> calm core' \<and>
    next_system F inp (ec_system core) = Some t \<and> kept_system (ec_system core') = kept_system t \<and>
    ec_frame_count core' = ec_frame_count core + of_nat (n + 1) \<and>
    ec_snapshots core' = pushed K (latch_opt F inp (ec_system core)) (ec_snapshots core)"
proof (cases n)
  case 0
  have core: "playing core" "\<not> ec_rewind_capture_suppressed core" "\<not> ec_audio_output_suppressed core"
    using assms(2) by (auto simp: calm_def)
  from step_frame_does [OF core(1), of F G K inp frames] core show ?thesis
    by (auto simp: 0 runahead_step_frame_def calm_def)
next
  case (Suc m)
  have core: "playing core" "\<not> ec_rewind_capture_suppressed core" "\<not> ec_audio_output_suppressed core"
    using assms(2) by (auto simp: calm_def)
  let ?core = "core\<lparr>ec_audio_output_suppressed := True\<rparr>"
  have "playing ?core" using core by simp
  from step_frame_does [OF this, of F G K inp None] core
  obtain c where c: "step_frame F G K inp ?core None = Some (c, Some (shown_frame c))"
    "next_system F inp (ec_system core) = Some (ec_system c)" "playing c" "\<not> ec_rewind_capture_suppressed c"
    "ec_frame_count c = ec_frame_count core + 1" "ec_snapshots c = pushed K (latch_opt F inp (ec_system core)) (ec_snapshots core)"
    by auto
  let ?c = "c\<lparr>ec_audio_output_suppressed := False, ec_rewind_capture_suppressed := True, ec_audio_output_suppressed := True\<rparr>"
  have "playing ?c" using c(3) by (simp add: playing_def)
  from hidden_frames_do [OF this, of F G K inp m "Some (shown_frame c)"]
  obtain d scratch where d: "hidden_frames F G K inp m ?c (Some (shown_frame c)) = Some (d, scratch)" "playing d"
    "ec_rewind_capture_suppressed d" "ec_frame_count d = ec_frame_count c + of_nat m" "ec_snapshots d = ec_snapshots c"
    by auto
  let ?d = "d\<lparr>ec_audio_output_suppressed := False\<rparr>"
  have "playing ?d" using d(2) by simp
  from step_frame_does [OF this, of F G K inp frames] d
  obtain e where e: "step_frame F G K inp ?d frames = Some (e, Some (shown_frame e))" "playing e"
    "\<not> ec_audio_output_suppressed e" "ec_frame_count e = ec_frame_count d + 1" "ec_snapshots e = ec_snapshots d"
    by auto
  have "sys_ok plain_cart_ok (kept_system (ec_system c))" using c(3) by (simp add: playing_def sys_ok_kept)
  moreover have "ec_rom_loaded e" "\<not> ec_paused e" using e(2) by (simp_all add: playing_def)
  ultimately show ?thesis
    using c d(1,4,5) e
    by (simp add: Suc runahead_step_frame_def decode_encode [OF assms(1)] calm_def playing_def)
      (simp add: capture_def algebra_simps)
qed

text \<open>A machine with a cartridge, and a codec whose bytes are the kept state itself.\<close>

definition demo_core :: "'f fops \<Rightarrow> 'g f32_ops \<Rightarrow> ('f, 'g, ('f, cartridge) save_state) emu_core" where
  "demo_core F G = (emu_core_new F G 42)\<lparr>ec_system := plug (BankF8 demo_f8) (system_new F 42), ec_rom_loaded := True\<rparr>"

definition demo_codec :: "'f fops \<Rightarrow> ('f, ('f, cartridge) save_state) state_codec" where
  "demo_codec F = \<lparr>to_allocvec = (\<lambda>st. Some (st\<lparr>ss_system := kept_system (ss_system st)\<rparr>)), from_bytes = Some,
     no_bytes = capture (system_new F 0) 0\<rparr>"

lemma demo_codec_keeps: "codec_keeps (demo_codec F)"
  by (simp add: codec_keeps_def demo_codec_def)

lemma demo_core_calm: "calm (demo_core F G)" "ec_snapshots (demo_core F G) = []"
proof -
  have "sys_ok plain_cart_ok (plug (BankF8 demo_f8) (system_new F 42))"
    using demo_f8_ok system_new_ok [of "\<lambda>_. False" F 42] by (intro sys_ok_plug) auto
  then show "calm (demo_core F G)" "ec_snapshots (demo_core F G) = []"
    by (simp_all add: calm_def playing_def demo_core_def emu_core_new_def)
qed

lemma demo_core_playing: "playing (demo_core F G)"
  using demo_core_calm(1) [of F G] by (simp add: calm_def)

fun play_ahead ::
  "'f fops \<Rightarrow> 'g f32_ops \<Rightarrow> ('f, 'w) state_codec \<Rightarrow> (frame_input option \<times> nat) list \<Rightarrow> ('f, 'g, 'w) emu_core \<Rightarrow> frame_slot \<Rightarrow>
   (('f, 'g, 'w) emu_core \<times> frame_slot) option" where
  "play_ahead F G K [] core frames = Some (core, frames)"
| "play_ahead F G K ((inp, n) # ticks) core frames = do {
     (core, frames) \<leftarrow> runahead_step_frame F G K inp n core frames;
     play_ahead F G K ticks core frames }"

fun next_systems :: "'f fops \<Rightarrow> frame_input option list \<Rightarrow> ('f, cartridge) system \<Rightarrow> ('f, cartridge) system option" where
  "next_systems F [] s = Some s"
| "next_systems F (i # is) s = do { s \<leftarrow> next_system F i s; next_systems F is s }"

lemma next_systems_cong:
  "kept_system s = kept_system s' \<Longrightarrow> map_option kept_system (next_systems F is s) = map_option kept_system (next_systems F is s')"
proof (induction "is" arbitrary: s s')
  case (Cons i "is")
  show ?case unfolding next_systems.simps
    by (rule bind_cong_via [OF next_system_cong [OF Cons.prems]]) (rule Cons.IH)
qed simp

lemma play_ahead_does:
  assumes "codec_keeps K" "calm core" "length (ec_snapshots core) \<le> MAX_SNAPSHOTS"
  shows "\<exists>core' frames' t. play_ahead F G K ticks core frames = Some (core', frames') \<and> calm core' \<and>
    next_systems F (map fst ticks) (ec_system core) = Some t \<and> kept_system (ec_system core') = kept_system t \<and>
    ec_frame_count core' = ec_frame_count core + of_nat (\<Sum>(i, n) \<leftarrow> ticks. n + 1) \<and>
    length (ec_snapshots core') = min MAX_SNAPSHOTS (length (ec_snapshots core) + length ticks)"
  using assms(2,3)
proof (induction ticks arbitrary: core frames)
  case Nil
  then show ?case by simp
next
  case (Cons tick ticks)
  obtain inp n where tick: "tick = (inp, n)" by (cases tick)
  obtain c f t where c: "runahead_step_frame F G K inp n core frames = Some (c, Some f)" "calm c"
    "next_system F inp (ec_system core) = Some t" "kept_system (ec_system c) = kept_system t"
    "ec_frame_count c = ec_frame_count core + of_nat (n + 1)"
    "length (ec_snapshots c) = min MAX_SNAPSHOTS (Suc (length (ec_snapshots core)))"
    using runahead_does [OF assms(1) Cons.prems(1), of F G inp n frames] Cons.prems(2)
    by (auto simp: pushed_length split: if_splits)
  have "length (ec_snapshots c) \<le> MAX_SNAPSHOTS" using c(6) by simp
  from Cons.IH [OF c(2) this, of "Some f"] obtain core' frames' t' where
    step: "play_ahead F G K ticks c (Some f) = Some (core', frames')" "calm core'"
      "next_systems F (map fst ticks) (ec_system c) = Some t'" "kept_system (ec_system core') = kept_system t'"
      "ec_frame_count core' = ec_frame_count c + of_nat (\<Sum>(i, n) \<leftarrow> ticks. n + 1)"
      "length (ec_snapshots core') = min MAX_SNAPSHOTS (length (ec_snapshots c) + length ticks)" by blast
  obtain u where u: "next_systems F (map fst ticks) t = Some u" "kept_system u = kept_system t'"
    using next_systems_cong [OF c(4), of F "map fst ticks"] step(3) by (cases "next_systems F (map fst ticks) t") auto
  show ?case
    using step(1,2,4,5) u c by (auto simp: tick step(6))
qed

text \<open>
  C4: run-ahead leaves no trace on the machine, on a cartridge without an ARM coprocessor. Whatever the inputs and
  however many frames the thread looks ahead on each tick, every tick returns and the machine ends up, as far as any
  program can tell, as one that played one frame per tick with the same inputs and never looked ahead; both
  suppression flags are clear again, and each tick adds one rewind snapshot at most. The frame counter
  also counts the frames that were thrown away: a tick that looks \<open>n\<close> frames ahead adds \<open>n + 1\<close>.
\<close>

theorem runahead_invisible:
  assumes "codec_keeps K" "calm core" "length (ec_snapshots core) \<le> MAX_SNAPSHOTS"
  shows "\<exists>core' frames' t. play_ahead F G K ticks core frames = Some (core', frames') \<and> calm core' \<and>
    next_systems F (map fst ticks) (ec_system core) = Some t \<and> kept_system (ec_system core') = kept_system t \<and>
    ec_frame_count core' = ec_frame_count core + of_nat (\<Sum>(i, n) \<leftarrow> ticks. n + 1) \<and>
    length (ec_snapshots core') = min MAX_SNAPSHOTS (length (ec_snapshots core) + length ticks)"
  by (rule play_ahead_does [OF assms])

lemma runahead_invisible_witness:
  "\<forall>(F :: 'f fops) (G :: 'g f32_ops). \<exists>core' frames' t.
     play_ahead F G (demo_codec F) [(None, 2), (None, 0)] (demo_core F G) None = Some (core', frames') \<and>
     next_systems F [None, None] (ec_system (demo_core F G)) = Some t \<and> kept_system (ec_system core') = kept_system t"
proof (intro allI)
  fix F :: "'f fops" and G :: "'g f32_ops"
  have "length (ec_snapshots (demo_core F G)) \<le> MAX_SNAPSHOTS" by (simp add: demo_core_calm)
  from runahead_invisible [OF demo_codec_keeps [of F] demo_core_calm(1) this, where F = F and G = G and ticks = "[(None, 2), (None, 0)]" and frames = None]
  show "\<exists>core' frames' t.
     play_ahead F G (demo_codec F) [(None, 2), (None, 0)] (demo_core F G) None = Some (core', frames') \<and>
     next_systems F [None, None] (ec_system (demo_core F G)) = Some t \<and> kept_system (ec_system core') = kept_system t"
    by (simp del: play_ahead.simps next_systems.simps) blast
qed

subsection \<open>Rewind\<close>

lemma rewind_snapshots: "ec_snapshots (rewind K core) = butlast (ec_snapshots core)"
  by (cases "ec_snapshots core" rule: rev_cases) (simp_all add: rewind_def Let_def split: sum.split)

lemma rewind_newest:
  "ec_snapshots core \<noteq> [] \<Longrightarrow> decode K (last (ec_snapshots core)) = Inr st \<Longrightarrow> ec_system (rewind K core) = ss_system st"
  by (cases "ec_snapshots core" rule: rev_cases) (simp_all add: rewind_def Let_def)

lemma rewind_pow:
  "j < length (ec_snapshots core) \<Longrightarrow> decode K (rev (ec_snapshots core) ! j) = Inr st \<Longrightarrow>
   ec_system ((rewind K ^^ Suc j) core) = ss_system st"
proof (induction j arbitrary: core)
  case 0
  then show ?case by (auto simp: hd_rev [symmetric] hd_conv_nth intro!: rewind_newest)
next
  case (Suc j)
  have snaps: "ec_snapshots core = butlast (ec_snapshots core) @ [last (ec_snapshots core)]"
    using Suc.prems(1) by (intro append_butlast_last_id [symmetric]) auto
  have "rev (ec_snapshots core) ! Suc j = rev (butlast (ec_snapshots core)) ! j"
    by (subst snaps) simp
  then show ?case
    using Suc.IH [of "rewind K core"] Suc.prems by (simp only: funpow_Suc_right o_def rewind_snapshots) simp
qed

lemma rev_pushed:
  "j < MAX_SNAPSHOTS \<Longrightarrow> j \<le> length snaps \<Longrightarrow>
   rev (pushed K s snaps) ! j = (case j of 0 \<Rightarrow> encode K (capture s 0) | Suc i \<Rightarrow> rev snaps ! i)"
  by (cases snaps; cases j) (auto simp: pushed_def Let_def MAX_SNAPSHOTS_def nth_append)

lemma play_ahead_append:
  "play_ahead F G K (xs @ ys) core frames = Option.bind (play_ahead F G K xs core frames) (\<lambda>(c, f). play_ahead F G K ys c f)"
proof (induction xs arbitrary: core frames)
  case (Cons x xs)
  obtain i n where "x = (i, n)" by (cases x)
  then show ?case by (cases "runahead_step_frame F G K i n core frames") (auto simp: Cons.IH)
qed simp

text \<open>The newest snapshot is the machine about to play the last frame, and so on backwards.\<close>

lemma snapshots_recall:
  assumes "codec_keeps K" "calm core" "length (ec_snapshots core) \<le> MAX_SNAPSHOTS"
    and "play_ahead F G K ticks core frames = Some (core', frames')" "j < length ticks" "j < MAX_SNAPSHOTS"
  shows "\<exists>s. next_systems F (map fst (take (length ticks - Suc j) ticks)) (ec_system core) = Some s \<and>
    decode K (rev (ec_snapshots core') ! j) = Inr (capture (kept_system (latch_opt F (fst (ticks ! (length ticks - Suc j))) s)) 0)"
  using assms(4-6)
proof (induction ticks arbitrary: core' frames' j rule: rev_induct)
  case (snoc tick ticks)
  obtain i n where tick: "tick = (i, n)" by (cases tick)
  obtain c f where c: "play_ahead F G K ticks core frames = Some (c, f)" "runahead_step_frame F G K i n c f = Some (core', frames')"
    using snoc.prems(1) by (auto simp: play_ahead_append tick split: bind_splits)
  obtain t where t: "calm c" "next_systems F (map fst ticks) (ec_system core) = Some t" "kept_system (ec_system c) = kept_system t"
    "length (ec_snapshots c) = min MAX_SNAPSHOTS (length (ec_snapshots core) + length ticks)"
    using play_ahead_does [OF assms(1-3), of F G ticks frames] c(1) by auto
  have snaps: "ec_snapshots core' = pushed K (latch_opt F i (ec_system c)) (ec_snapshots c)"
    using runahead_does [OF assms(1) t(1), of F G i n f] c(2) by auto
  have j: "j < MAX_SNAPSHOTS" "j \<le> length (ec_snapshots c)" using snoc.prems(2,3) t(4) by auto
  show ?case
  proof (cases j)
    case 0
    have "kept_system (latch_opt F i (ec_system c)) = kept_system (latch_opt F i t)"
      using t(3) by (metis latch_opt_kept)
    then show ?thesis using t(2) j by (simp add: 0 snaps rev_pushed decode_encode [OF assms(1)] tick)
  next
    case (Suc k)
    have "k < length ticks" "k < MAX_SNAPSHOTS" "length ticks - Suc k < length ticks" using snoc.prems(2,3) Suc by auto
    then show ?thesis
      using snoc.IH [OF c(1), of k] j by (simp add: Suc snaps rev_pushed nth_append)
  qed
qed simp

text \<open>
  C5: each press of rewind goes back one tick. On a cartridge without an ARM coprocessor, in a running core that is not
  paused, after any ticks, with any look-ahead, \<open>j\<close> presses (up to
  the 600 the history holds) put back, as far as any program can tell, the machine that was about to
  play the \<open>j\<close>-th last tick, that tick's input already latched; running the frame from there with no
  new input is the frame that was played.
\<close>

theorem rewind_goes_back:
  assumes "codec_keeps K" "calm core" "length (ec_snapshots core) \<le> MAX_SNAPSHOTS"
    and "0 < j" "j \<le> length ticks" "j \<le> MAX_SNAPSHOTS"
  shows "\<exists>core' frames' s. play_ahead F G K ticks core frames = Some (core', frames') \<and>
    (let past = length ticks - j; back = ec_system ((rewind K ^^ j) core'); input = fst (ticks ! past) in
     next_systems F (map fst (take past ticks)) (ec_system core) = Some s \<and> back = kept_system (latch_opt F input s) \<and>
     map_option kept_system (next_system F None back) = map_option kept_system (next_system F input s))"
proof -
  obtain i where i: "j = Suc i" using assms(4) by (cases j) auto
  obtain core' frames' where play: "play_ahead F G K ticks core frames = Some (core', frames')"
      "length (ec_snapshots core') = min MAX_SNAPSHOTS (length (ec_snapshots core) + length ticks)"
    using play_ahead_does [OF assms(1-3)] by blast
  obtain s where s: "next_systems F (map fst (take (length ticks - j) ticks)) (ec_system core) = Some s"
    "decode K (rev (ec_snapshots core') ! i) = Inr (capture (kept_system (latch_opt F (fst (ticks ! (length ticks - j))) s)) 0)"
    using snapshots_recall [OF assms(1-3) play(1), of i] assms(5,6) i by auto
  have "i < length (ec_snapshots core')" using play(2) assms(5,6) i by auto
  from rewind_pow [OF this s(2)]
  have undone: "ec_system ((rewind K ^^ j) core') = kept_system (latch_opt F (fst (ticks ! (length ticks - j))) s)"
    by (simp only: i) (simp add: capture_def)
  have again: "map_option kept_system (next_system F None (kept_system (latch_opt F input s))) =
      map_option kept_system (next_system F input s)" for input
    using next_system_cong [of "kept_system (latch_opt F input s)" "latch_opt F input s" F None]
    by (simp add: next_system_def latch_opt_def [of F None])
  show ?thesis using play(1) s(1) undone again by (auto simp: Let_def)
qed

lemma rewind_goes_back_witness:
  "\<forall>(F :: 'f fops) (G :: 'g f32_ops). \<exists>core' frames'.
     play_ahead F G (demo_codec F) [(None, 0)] (demo_core F G) None = Some (core', frames') \<and>
     ec_system (rewind (demo_codec F) core') = kept_system (ec_system (demo_core F G))"
proof (intro allI)
  fix F :: "'f fops" and G :: "'g f32_ops"
  have "length (ec_snapshots (demo_core F G)) \<le> MAX_SNAPSHOTS" "0 < (1 :: nat)" "1 \<le> length [(None :: frame_input option, 0 :: nat)]"
      "1 \<le> MAX_SNAPSHOTS"
    by (simp_all add: demo_core_calm MAX_SNAPSHOTS_def)
  from rewind_goes_back [OF demo_codec_keeps [of F] demo_core_calm(1) this, where F = F and G = G and frames = None]
  show "\<exists>core' frames'.
     play_ahead F G (demo_codec F) [(None, 0)] (demo_core F G) None = Some (core', frames') \<and>
     ec_system (rewind (demo_codec F) core') = kept_system (ec_system (demo_core F G))"
    by (auto simp: Let_def latch_opt_def simp del: play_ahead.simps)
qed

subsection \<open>The picture\<close>

lemma draw_onto_shows:
  assumes "frame_ok 160 (active_height r) f" "x < 160" "y < active_height r"
  shows "dot_of (draw_onto r video f) x y =
      (rgba (lookup_color r (drop_bit 1 (picture_dot r video x y))), drop_bit 1 (picture_dot r video x y))"
    and "frame_ok 160 (active_height r) (draw_onto r video f)"
proof -
  have "set [0..<160] \<subseteq> {..<160::nat}" "set [0..<active_height r] \<subseteq> {..<active_height r}" by auto
  from fill_frame [OF assms(1) this assms(2,3), of "\<lambda>x y. drop_bit 1 (picture_dot r video x y)"
      "\<lambda>x y. lookup_color r (drop_bit 1 (picture_dot r video x y))"]
  show "dot_of (draw_onto r video f) x y =
      (rgba (lookup_color r (drop_bit 1 (picture_dot r video x y))), drop_bit 1 (picture_dot r video x y))"
    "frame_ok 160 (active_height r) (draw_onto r video f)"
    using assms(2,3) by (simp_all add: draw_onto_def Let_def del: drop_bit_Suc)
qed

text \<open>Frames of one size are equal when they show the same dots.\<close>

lemma frame_eqI:
  assumes ok: "frame_ok w h f" "frame_ok w h g" and dots: "\<And>x y. x < w \<Longrightarrow> y < h \<Longrightarrow> dot_of f x y = dot_of g x y"
  shows "fr_pixels f = fr_pixels g" "fr_index f = fr_index g"
proof -
  have pos: "n mod w < w" "n div w < h" "n div w * w + n mod w = n" if "n < w * h" for n
    using that by (auto simp: less_mult_imp_div_less mult.commute) (cases w, auto)
  have dot: "dot_of f (n mod w) (n div w) = dot_of g (n mod w) (n div w)" if "n < w * h" for n
    using dots pos [OF that] by blast
  have width: "fr_width f = w" "fr_width g = w" using ok by (simp_all add: frame_ok_def)
  have "fr_pixels f ! k = fr_pixels g ! k" if "k < w * h * 4" for k
  proof -
    have k: "k div 4 < w * h" using that by auto
    define n where "n = k div 4"
    have "k = n * 4 + k mod 4" by (simp add: n_def)
    moreover have "k mod 4 = 0 \<or> k mod 4 = 1 \<or> k mod 4 = 2 \<or> k mod 4 = 3" by presburger
    ultimately have "k = n * 4 \<or> k = n * 4 + 1 \<or> k = n * 4 + 2 \<or> k = n * 4 + 3" by (metis add_0_right)
    then show ?thesis
      using dot [OF k] pos(3) [OF k] by (auto simp: dot_of_def width n_def [symmetric])
  qed
  then show "fr_pixels f = fr_pixels g" using ok by (intro nth_equalityI) (auto simp: frame_ok_def)
  show "fr_index f = fr_index g"
    using ok dot pos(3) by (intro nth_equalityI) (auto simp: frame_ok_def dot_of_def)
qed

text \<open>Cropping into the core's buffers is drawing into the frame their used parts hold.\<close>

definition cropped :: "nat \<Rightarrow> u8 list \<times> u8 list \<Rightarrow> frame" where
  "cropped h bufs = \<lparr>fr_width = 160, fr_height = h, fr_pixels = take (160 * h * 4) (fst bufs), fr_index = take (160 * h) (snd bufs)\<rparr>"

definition big_enough :: "nat \<Rightarrow> u8 list \<times> u8 list \<Rightarrow> bool" where
  "big_enough h bufs \<longleftrightarrow> 160 * h * 4 \<le> length (fst bufs) \<and> 160 * h \<le> length (snd bufs)"

lemma byte_cast: "ucast (x AND 0xFF :: u32) = (ucast x :: u8)"
  by (simp add: unsigned_and_eq byte_and_ones)

lemma put_cropped:
  assumes "big_enough h (fb, ib)" "x < 160" "y < h"
  shows "cropped h (put_framebuffer x y c fb, put_index_buffer x y n ib) = put_index x y n (put_dot x y c (cropped h (fb, ib))) \<and>
    big_enough h (put_framebuffer x y c fb, put_index_buffer x y n ib)"
proof -
  have "y * 160 + x < 160 * h" using dot_in_range [OF assms(2,3)] by simp
  then show ?thesis
    using assms
    by (simp add: big_enough_def cropped_def put_framebuffer_def put_index_buffer_def put_dot_def put_index_def Let_def
        byte_cast take_update_swap)
qed

lemma crop_is_draw:
  assumes "big_enough (active_height r) bufs"
  shows "cropped (active_height r) (crop_picture r video bufs) = draw_onto r video (cropped (active_height r) bufs) \<and>
    big_enough (active_height r) (crop_picture r video bufs)"
proof -
  let ?put = "\<lambda>x y (fb, ib). let c = picture_dot r video x y in
     (put_framebuffer x y (lookup_color r (drop_bit 1 c)) fb, put_index_buffer x y (drop_bit 1 c) ib)"
  let ?draw = "\<lambda>x y f. let c = picture_dot r video x y in
     put_index x y (drop_bit 1 c) (put_dot x y (lookup_color r (drop_bit 1 c)) f)"
  let ?h = "active_height r"
  have one: "cropped ?h (?put x y b) = ?draw x y (cropped ?h b) \<and> big_enough ?h (?put x y b)"
    if "big_enough ?h b" "x < 160" "y < ?h" for x y b
    using that put_cropped by (cases b) (simp add: Let_def)
  have row: "cropped ?h (fold (\<lambda>x. ?put x y) xs b) = fold (\<lambda>x. ?draw x y) xs (cropped ?h b) \<and>
      big_enough ?h (fold (\<lambda>x. ?put x y) xs b)"
    if "big_enough ?h b" "set xs \<subseteq> {..<160}" "y < ?h" for xs y b
    using that
  proof (induction xs arbitrary: b)
    case (Cons x xs)
    have x: "x < 160" using Cons.prems(2) by simp
    show ?case using Cons.IH [of "?put x y b"] one [OF Cons.prems(1) x Cons.prems(3)] Cons.prems(2,3) by simp
  qed simp
  have rows: "cropped ?h (fold (\<lambda>y. fold (\<lambda>x. ?put x y) [0..<160]) ys b) =
      fold (\<lambda>y. fold (\<lambda>x. ?draw x y) [0..<160]) ys (cropped ?h b) \<and>
      big_enough ?h (fold (\<lambda>y. fold (\<lambda>x. ?put x y) [0..<160]) ys b)"
    if "big_enough ?h b" "set ys \<subseteq> {..<?h}" for ys b
    using that
  proof (induction ys arbitrary: b)
    case (Cons y ys)
    have y: "y < ?h" using Cons.prems(2) by simp
    have "set [0..<160] \<subseteq> {..<160::nat}" by auto
    from row [OF Cons.prems(1) this y] Cons.IH [of "fold (\<lambda>x. ?put x y) [0..<160] b"] Cons.prems(2)
    show ?case by simp
  qed simp
  have "set [0..<?h] \<subseteq> {..<?h}" by auto
  from rows [OF assms this] show ?thesis
    unfolding crop_picture_def draw_onto_def by (simp add: split_def)
qed

text \<open>
  C10: on a cartridge without an ARM coprocessor, a played frame returns and publishes the visible part of the
  picture the machine produced: it is 160 dots
  wide and as high as the region's picture, and every dot shows the palette colour and the colour
  number of the video buffer's dot below the vertical blank.
\<close>

theorem frame_shows_picture:
  assumes "playing core"
  shows "\<exists>core' f. step_frame F G K inp core frames = Some (core', Some f) \<and>
    next_system F inp (ec_system core) = Some (ec_system core') \<and>
    fr_width f = 160 \<and> fr_height f = active_height (ec_region core) \<and>
    (\<forall>x < 160. \<forall>y < active_height (ec_region core).
      let n = drop_bit 1 (video_at (tia_video_buffer (b_tia (sys_bus (ec_system core'))))
                ((y + vblank_lines (ec_region core)) * 160 + x))
      in dot_of f x y = (rgba (lookup_color (ec_region core) n), n))"
proof -
  obtain core' where core': "step_frame F G K inp core frames = Some (core', Some (shown_frame core'))"
    "next_system F inp (ec_system core) = Some (ec_system core')" "ec_region core' = ec_region core"
    using step_frame_does [OF assms] by blast
  have ok: "frame_ok 160 (active_height (ec_region core)) (black VCS_W (active_height (ec_region core)))"
    by (simp add: VCS_W_def)
  have h: "0 < active_height (ec_region core)"
    by (cases "ec_region core") (simp_all add: VISIBLE_HEIGHT_NTSC_def VISIBLE_HEIGHT_PAL_def)
  have "frame_ok 160 (active_height (ec_region core)) (shown_frame core')"
    unfolding shown_frame_def draw_frame_def core'(3) by (rule draw_onto_shows(2) [OF ok _ h, of 0]) simp
  moreover have "dot_of (shown_frame core') x y = (rgba (lookup_color (ec_region core) n), n)"
    if "x < 160" "y < active_height (ec_region core)"
      "n = drop_bit 1 (picture_dot (ec_region core) (tia_video_buffer (b_tia (sys_bus (ec_system core')))) x y)" for x y n
    unfolding shown_frame_def draw_frame_def core'(3) that(3) by (rule draw_onto_shows(1) [OF ok that(1,2)])
  ultimately show ?thesis
    using core'(1,2) by (intro exI [of _ core'] exI [of _ "shown_frame core'"]) (simp add: frame_ok_def Let_def picture_dot_def)
qed

lemma frame_shows_picture_witness:
  "\<forall>(F :: 'f fops) (G :: 'g f32_ops). \<exists>core' f.
     step_frame F G (demo_codec F) None (demo_core F G) None = Some (core', Some f) \<and>
     snd (dot_of f 159 191) = drop_bit 1 (video_at (tia_video_buffer (b_tia (sys_bus (ec_system core')))) (228 * 160 + 159))"
proof (intro allI)
  fix F :: "'f fops" and G :: "'g f32_ops"
  have r: "ec_region (demo_core F G) = Region_Ntsc" by (simp add: demo_core_def emu_core_new_def)
  from frame_shows_picture [OF demo_core_playing [of F G], where F = F and G = G and K = "demo_codec F" and inp = None and frames = None] obtain core' f where
    f: "step_frame F G (demo_codec F) None (demo_core F G) None = Some (core', Some f)"
      "\<forall>x < 160. \<forall>y < active_height (ec_region (demo_core F G)).
        let n = drop_bit 1 (video_at (tia_video_buffer (b_tia (sys_bus (ec_system core'))))
                  ((y + vblank_lines (ec_region (demo_core F G))) * 160 + x))
        in dot_of f x y = (rgba (lookup_color (ec_region (demo_core F G)) n), n)" by blast
  from f(2) have "snd (dot_of f 159 191) = drop_bit 1 (video_at (tia_video_buffer (b_tia (sys_bus (ec_system core')))) ((191 + 37) * 160 + 159))"
    by (auto simp: r Let_def VISIBLE_HEIGHT_NTSC_def vblank_lines_def)
  then show "\<exists>core' f. step_frame F G (demo_codec F) None (demo_core F G) None = Some (core', Some f) \<and>
     snd (dot_of f 159 191) = drop_bit 1 (video_at (tia_video_buffer (b_tia (sys_bus (ec_system core')))) (228 * 160 + 159))"
    using f(1) by auto
qed

lemma emit_no_samples: "emit_samples G [] core = core"
proof -
  have "map_option (\<lambda>tx. tx @ []) (ec_audio_tx core) = ec_audio_tx core" by (cases "ec_audio_tx core") simp_all
  then show ?thesis by (simp add: emit_samples_def)
qed

lemma emit_fields [simp]:
  "ec_region (emit_samples G ss core) = ec_region core" "ec_framebuffer (emit_samples G ss core) = ec_framebuffer core"
  "ec_index_buffer (emit_samples G ss core) = ec_index_buffer core" "ec_frame_count (emit_samples G ss core) = ec_frame_count core"
  by (simp_all add: emit_samples_def split_beta Let_def)

lemma extract_frame_eq:
  "extract_frame G core = (let s = ec_system core;
     crop = crop_picture (ec_region core) (tia_video_buffer (b_tia (sys_bus s))) (ec_framebuffer core, ec_index_buffer core)
   in (emit_samples G (tia_audio_buffer (b_tia (sys_bus s))) (core\<lparr>ec_system := clear_samples s\<rparr>))
     \<lparr>ec_framebuffer := fst crop, ec_index_buffer := snd crop, ec_frame_count := ec_frame_count core + 1\<rparr>)"
  by (cases "tia_audio_buffer (b_tia (sys_bus (ec_system core))) = []")
    (simp_all add: extract_frame_def Let_def split_beta emit_no_samples)

text \<open>
  C8: the two ways of playing a frame agree, in a running core that is not paused and suppresses nothing, on a
  cartridge without an ARM coprocessor. The emulation thread, reading its input through the shared
  atomic words and publishing a frame, and the core called directly, writing into its own buffers,
  end in the same state, samples, snapshots and counters included, and show the same picture.
\<close>

theorem run_frame_is_step_frame:
  assumes "calm core" "big_enough (active_height (ec_region core)) (ec_framebuffer core, ec_index_buffer core)"
    and "is_paddles st = [p0, p1, p2, p3]"
  shows "\<exists>c f. run_frame F G K (Some st) core = Some c \<and>
    step_frame F G K (Some (shared_load (shared_store st si))) core frames =
      Some (c\<lparr>ec_framebuffer := ec_framebuffer core, ec_index_buffer := ec_index_buffer core\<rparr>, Some f) \<and>
    framebuffer c = fr_pixels f \<and> index_buffer c = fr_index f"
proof -
  have input: "shared_load (shared_store st si) = state_input st"
    by (simp add: shared_load_store [OF assms(3)] state_input_def split_beta Let_def assms(3))
  let ?r = "ec_region core" and ?latched = "latch_opt F (Some (state_input st)) (ec_system core)"
  have core: "sys_ok plain_cart_ok (ec_system core)" "ec_rom_loaded core" "\<not> ec_paused core"
    "\<not> ec_rewind_capture_suppressed core" "\<not> ec_audio_output_suppressed core"
    using assms(1) by (auto simp: calm_def playing_def)
  obtain t where t: "frame_loop F cart_ops 200001 (sys_vsync ?latched) ?latched = Some t"
    using frame_returns [OF core(1)] by blast
  let ?video = "tia_video_buffer (b_tia (sys_bus t))" and ?bufs = "(ec_framebuffer core, ec_index_buffer core)"
  let ?crop = "crop_picture ?r ?video ?bufs"
  let ?samples = "tia_audio_buffer (b_tia (sys_bus t))"
  let ?core = "emit_samples G ?samples (core\<lparr>ec_snapshots := pushed K ?latched (ec_snapshots core), ec_system := clear_samples t\<rparr>)"
  let ?c = "?core\<lparr>ec_framebuffer := fst ?crop, ec_index_buffer := snd ?crop, ec_frame_count := ec_frame_count core + 1\<rparr>"
  have run: "run_frame F G K (Some st) core = Some ?c"
    using core t by (simp add: run_frame_def latch_opt_def push_snapshot_eq) (simp add: extract_frame_eq Let_def)
  have same: "?c\<lparr>ec_framebuffer := ec_framebuffer core, ec_index_buffer := ec_index_buffer core\<rparr> =
      ?core\<lparr>ec_frame_count := ec_frame_count core + 1\<rparr>"
    by (simp add: emit_samples_def split_beta Let_def)
  have step: "step_frame F G K (Some (state_input st)) core frames =
      Some (?core\<lparr>ec_frame_count := ec_frame_count core + 1\<rparr>, Some (draw_frame ?r ?video))"
    using core t
    by (simp add: step_frame_def latch_opt_def push_snapshot_eq Let_def publish_def)
  have h: "0 < active_height ?r"
    by (cases ?r) (simp_all add: VISIBLE_HEIGHT_NTSC_def VISIBLE_HEIGHT_PAL_def)
  have ok: "frame_ok 160 (active_height ?r) (cropped (active_height ?r) ?bufs)"
      "frame_ok 160 (active_height ?r) (black VCS_W (active_height ?r))"
    using assms(2) by (simp_all add: frame_ok_def cropped_def big_enough_def VCS_W_def black_def)
  have crop: "cropped (active_height ?r) ?crop = draw_onto ?r ?video (cropped (active_height ?r) ?bufs)"
    "big_enough (active_height ?r) ?crop"
    using crop_is_draw [OF assms(2)] by auto
  have dots: "dot_of (cropped (active_height ?r) ?crop) x y = dot_of (draw_frame ?r ?video) x y"
    if "x < 160" "y < active_height ?r" for x y
    unfolding crop draw_frame_def draw_onto_shows(1) [OF ok(1) that] draw_onto_shows(1) [OF ok(2) that] ..
  have oks: "frame_ok 160 (active_height ?r) (cropped (active_height ?r) ?crop)"
      "frame_ok 160 (active_height ?r) (draw_frame ?r ?video)"
    unfolding crop draw_frame_def
    by (rule draw_onto_shows(2) [OF ok(1) _ h, of 0], simp) (rule draw_onto_shows(2) [OF ok(2) _ h, of 0], simp)
  have "framebuffer ?c = fr_pixels (cropped (active_height ?r) ?crop)" "index_buffer ?c = fr_index (cropped (active_height ?r) ?crop)"
    using crop(2)
    by (simp_all add: framebuffer_def index_buffer_def fb_dims_def cropped_def big_enough_def VCS_W_def min_absorb1)
  then show ?thesis
    using run step frame_eqI [OF oks dots] unfolding input by (intro exI [of _ ?c] exI) (simp add: same)
qed

lemma run_frame_is_step_frame_witness:
  "\<forall>(F :: 'f fops) (G :: 'g f32_ops). \<exists>c c' f.
     run_frame F G (demo_codec F) (Some input_default) (demo_core F G) = Some c \<and>
     step_frame F G (demo_codec F) (Some (shared_load shared_new)) (demo_core F G) None = Some (c', Some f) \<and>
     framebuffer c = fr_pixels f \<and> ec_system c' = ec_system c"
proof (intro allI)
  fix F :: "'f fops" and G :: "'g f32_ops"
  have big: "big_enough (active_height (ec_region (demo_core F G))) (ec_framebuffer (demo_core F G), ec_index_buffer (demo_core F G))"
    by (simp add: big_enough_def demo_core_def emu_core_new_def MAX_W_def MAX_H_def VCS_W_def VISIBLE_HEIGHT_NTSC_def VISIBLE_HEIGHT_PAL_def)
  have "is_paddles input_default = [pot_default, pot_default, pot_default, pot_default]"
    by (simp add: input_default_def eval_nat_numeral)
  from run_frame_is_step_frame [OF demo_core_calm(1) big this, where F = F and G = G and K = "demo_codec F" and
      si = "\<lparr>si_packed = 0, si_paddles = 0\<rparr>" and frames = None]
  show "\<exists>c c' f. run_frame F G (demo_codec F) (Some input_default) (demo_core F G) = Some c \<and>
     step_frame F G (demo_codec F) (Some (shared_load shared_new)) (demo_core F G) None = Some (c', Some f) \<and>
     framebuffer c = fr_pixels f \<and> ec_system c' = ec_system c"
    unfolding shared_new_def by fastforce
qed

subsection \<open>Loading a ROM\<close>

lemma detect_nothing: "detect [] = None"
proof -
  have "dpp_bank_count_of [] = None" by (simp add: dpp_bank_count_of_def DRIVER_SIZE_def DATA_SIZE_def FREQ_SIZE_def)
  moreover have "cdf_new [] kind = None" for kind using cdf_new_iff [of "[]" kind] by (auto split: if_splits)
  ultimately have "detect_signed [] = None" unfolding detect_signed_None is_probably_dpc_plus_def by blast
  moreover have "detect_by_size [] = None" unfolding detect_by_size_None by simp
  ultimately show ?thesis by (simp add: detect_def)
qed

lemma loaded_playing:
  assumes "detect rom = Some c" "\<not> has_arm c"
  shows "\<exists>core'. load_rom F rom core = Some (Inr core') \<and> (playing core' \<longleftrightarrow> \<not> ec_paused core)"
proof -
  have "plain_cart_ok c" using detected_board_ok [OF assms(1)] assms(2) by (simp add: plain_cart_ok_def)
  then have "sys_ok plain_cart_ok ((system_new F 0)\<lparr>sys_bus := (sys_bus (system_new F 0))\<lparr>b_board := Some c\<rparr>\<rparr> :: ('a, cartridge) system)"
    using sys_ok_plug [OF conjunct1 [OF system_new_ok], of plain_cart_ok c F 0] by (simp add: plug_def)
  from vcs.system_reset_ok [OF this, of F] obtain s
    where "system_reset F cart_ops ((system_new F 0)\<lparr>sys_bus := (sys_bus (system_new F 0))\<lparr>b_board := Some c\<rparr>\<rparr>) = Some s"
      "sys_ok plain_cart_ok s"
    by (auto simp: wpo_def)
  moreover have "rom \<noteq> []" using assms(1) detect_nothing by auto
  ultimately show ?thesis using assms(1) by (simp add: load_rom_def Let_def playing_def)
qed

text \<open>
  C9: loading an image ends in one of four ways. An empty image and one no cartridge scheme accepts are
  refused, each with its own error. Otherwise the core names the detected board and starts a new
  session: no rewind history, frame zero, the image's tag; unless the board has a coprocessor the
  machine is ready to play. Only an image with a coprocessor may fail to come up at all.
\<close>

theorem load_rom_outcome:
  "case load_rom F rom core of
     None \<Rightarrow> \<exists>c. detect rom = Some c \<and> has_arm c
   | Some (Inl e) \<Rightarrow> detect rom = None \<and> e = (if rom = [] then EmptyRom else UnsupportedRom)
   | Some (Inr core') \<Rightarrow> \<exists>c. detect rom = Some c \<and>
       ec_board_scheme core' = Some (scheme_name c) \<and> ec_board_tier core' = Some (tier_name (cart_tier c)) \<and>
       ec_rom_size core' = Some (length rom) \<and> ec_rom_tag core' = Some (fnv1a64 rom) \<and> ec_snapshots core' = [] \<and>
       ec_frame_count core' = 0 \<and> ec_paused core' = ec_paused core \<and>
       (has_arm c \<or> playing core' = (ec_paused core = False))"
proof (cases "detect rom")
  case None
  then show ?thesis using detect_nothing by (simp add: load_rom_def)
next
  case (Some c)
  then have rom: "rom \<noteq> []" using detect_nothing by auto
  show ?thesis
  proof (cases "load_rom F rom core")
    case None
    then show ?thesis using Some loaded_playing [of rom c F core] by auto
  next
    case (Some r)
    then obtain core' where r: "r = Inr core'"
      using rom \<open>detect rom = Some c\<close> by (auto simp: load_rom_def Let_def split: bind_splits)
    have fields: "ec_board_scheme core' = Some (scheme_name c)" "ec_board_tier core' = Some (tier_name (cart_tier c))"
      "ec_rom_size core' = Some (length rom)" "ec_rom_tag core' = Some (fnv1a64 rom)" "ec_snapshots core' = []"
      "ec_frame_count core' = 0" "ec_paused core' = ec_paused core"
      using Some rom \<open>detect rom = Some c\<close> by (auto simp: r load_rom_def Let_def split: bind_splits)
    have "has_arm c \<or> playing core' = (\<not> ec_paused core)"
      using loaded_playing [OF \<open>detect rom = Some c\<close>, of F core] Some by (auto simp: r)
    then show ?thesis using fields \<open>detect rom = Some c\<close> by (simp add: Some r)
  qed
qed

text \<open>
  C7: an image that is accepted as a cartridge without a coprocessor plays for ever: it loads, and from
  then on every tick, with any input and any look-ahead, returns and shows a frame.
\<close>

theorem loaded_rom_plays:
  assumes "detect rom = Some c" "\<not> has_arm c" "codec_keeps K" "ticks \<noteq> []"
    and "\<not> ec_paused core" "\<not> ec_rewind_capture_suppressed core" "\<not> ec_audio_output_suppressed core"
  shows "\<exists>loaded core' f. load_rom F rom core = Some (Inr loaded) \<and> play_ahead F G K ticks loaded None = Some (core', Some f)"
proof -
  obtain loaded where loaded: "load_rom F rom core = Some (Inr loaded)" "playing loaded"
    using loaded_playing [OF assms(1,2), of F core] assms(5) by auto
  have "rom \<noteq> []" using assms(1) detect_nothing by auto
  then have "calm loaded" "ec_snapshots loaded = []"
    using loaded assms(1,6,7) by (auto simp: calm_def load_rom_def Let_def split: bind_splits)
  obtain past i n where ticks: "ticks = past @ [(i, n)]" using assms(4) by (cases ticks rule: rev_cases) auto
  obtain core' frames' where past: "play_ahead F G K past loaded None = Some (core', frames')" "calm core'"
    using play_ahead_does [OF assms(3) \<open>calm loaded\<close>] \<open>ec_snapshots loaded = []\<close> by (metis le0 list.size(3))
  obtain c f where "runahead_step_frame F G K i n core' frames' = Some (c, Some f)"
    using runahead_does [OF assms(3) past(2)] by blast
  then show ?thesis using loaded(1) past(1) by (simp add: ticks play_ahead_append)
qed

lemma loaded_rom_plays_witness:
  "\<forall>(F :: 'f fops) (G :: 'g f32_ops). \<exists>loaded core' f.
     load_rom F (replicate 0x1000 0xEA) (demo_core F G) = Some (Inr loaded) \<and>
     play_ahead F G (demo_codec F) (replicate 100 (None, 1)) loaded None = Some (core', Some f)"
proof (intro allI)
  fix F :: "'f fops" and G :: "'g f32_ops"
  obtain c where c: "detect (replicate 0x1000 0xEA) = Some c" "\<not> has_arm c" using detect_4k [of "replicate 0x1000 0xEA"] by auto
  have "\<not> ec_paused (demo_core F G)" "\<not> ec_rewind_capture_suppressed (demo_core F G)" "\<not> ec_audio_output_suppressed (demo_core F G)"
      "replicate 100 (None, 1) \<noteq> ([] :: (frame_input option \<times> nat) list)"
    by (simp_all add: demo_core_def emu_core_new_def)
  then show "\<exists>loaded core' f.
     load_rom F (replicate 0x1000 0xEA) (demo_core F G) = Some (Inr loaded) \<and>
     play_ahead F G (demo_codec F) (replicate 100 (None, 1)) loaded None = Some (core', Some f)"
    using loaded_rom_plays [OF c demo_codec_keeps [of F]] by blast
qed

end
