(* ===== verification/Audio_Ring.thy ===== *)
theory Audio_Ring
  imports Prelude "HOL-Library.Log_Nat" "HOL-Library.Sublist"
begin

text \<open>
  The audio queue of \<open>crates/rusty2600-frontend/src/audio_ring.rs\<close>: a single-producer single-consumer ring
  of samples (bit patterns of \<open>f32\<close>) with 64-bit indices that wrap. It refines a queue of samples kept as
  a list, first for whole calls and then for every interleaving of the loads and stores of the two
  threads, each load and store an atomic step, taken in the order of the code.
\<close>

type_synonym usize = "64 word"

record sample_queue =
  q_slots :: "u32 list"
  q_mask :: usize
  q_head :: usize
  q_tail :: usize
  q_started :: bool
  q_playing :: bool
  q_start_threshold :: usize
  q_paused :: bool

definition next_power_of_two :: "nat \<Rightarrow> nat" where
  "next_power_of_two n = (if n \<le> 1 then 1 else 2 ^ floorlog 2 (n - 1))"

definition ring_capacity :: "sample_queue \<Rightarrow> usize" where
  "ring_capacity q = q_mask q + 1"

definition with_capacity :: "nat \<Rightarrow> sample_queue" where
  "with_capacity capacity = (let cap = max (next_power_of_two capacity) 2 in
     \<lparr>q_slots = replicate cap 0, q_mask = word_of_nat (cap - 1), q_head = 0, q_tail = 0, q_started = False,
      q_playing = False, q_start_threshold = 0, q_paused = False\<rparr>)"

definition DEFAULT_CAPACITY :: nat where "DEFAULT_CAPACITY = 16384"

definition queue_new :: sample_queue where "queue_new = with_capacity DEFAULT_CAPACITY"

definition set_start_threshold :: "usize \<Rightarrow> sample_queue \<Rightarrow> sample_queue" where
  "set_start_threshold samples q = q\<lparr>q_start_threshold := min samples (ring_capacity q div 2)\<rparr>"

text \<open>The slot an index names.\<close>

definition slot_index :: "sample_queue \<Rightarrow> usize \<Rightarrow> nat" where
  "slot_index q i = unat (i AND q_mask q)"

definition queue_len :: "sample_queue \<Rightarrow> usize" where
  "queue_len q = q_tail q - q_head q"

text \<open>How many samples a push stores and how many a pop takes, from the indices it loaded.\<close>

definition push_room :: "sample_queue \<Rightarrow> nat \<Rightarrow> usize \<Rightarrow> usize \<Rightarrow> nat" where
  "push_room q len tail head = (let free = ring_capacity q - (tail - head) in min len (unat free))"

definition pop_count :: "nat \<Rightarrow> usize \<Rightarrow> nat" where
  "pop_count len avail = min len (unat avail)"

definition gate_opens :: "usize \<Rightarrow> usize \<Rightarrow> bool" where
  "gate_opens threshold avail \<longleftrightarrow> avail \<ge> threshold \<and> (avail > 0 \<or> threshold = 0)"

definition queue_push :: "u32 list \<Rightarrow> sample_queue \<Rightarrow> sample_queue" where
  "queue_push samples q = (let
     q = q\<lparr>q_started := True\<rparr>;
     n = push_room q (length samples) (q_tail q) (q_head q);
     slots = fold (\<lambda>i ss. ss[slot_index q (q_tail q + word_of_nat i) := samples ! i]) [0..<n] (q_slots q)
   in q\<lparr>q_slots := slots, q_tail := q_tail q + word_of_nat n\<rparr>)"

text \<open>The output buffer, the number of samples that are not padding, and the queue after.\<close>

definition pop_samples :: "nat \<Rightarrow> sample_queue \<Rightarrow> (u32 list \<times> nat) \<times> sample_queue" where
  "pop_samples len q = (let
     n = pop_count len (q_tail q - q_head q);
     taken = map (\<lambda>i. q_slots q ! slot_index q (q_head q + word_of_nat i)) [0..<n];
     q = q\<lparr>q_head := q_head q + word_of_nat n\<rparr>;
     q = (if n < len \<and> len \<noteq> 0 then q\<lparr>q_playing := False\<rparr> else q)
   in ((taken @ replicate (len - n) 0, n), q))"

definition pop_or_silence :: "nat \<Rightarrow> sample_queue \<Rightarrow> (u32 list \<times> nat) \<times> sample_queue" where
  "pop_or_silence len q = (let avail = q_tail q - q_head q in
     if q_paused q then ((replicate len 0, 0), q)
     else if \<not> q_playing q then
       (if gate_opens (q_start_threshold q) avail then pop_samples len (q\<lparr>q_playing := True\<rparr>)
        else ((replicate len 0, 0), q))
     else pop_samples len q)"

subsection \<open>Indices\<close>

text \<open>A power-of-two capacity whose samples are the slots from head to tail.\<close>

definition ring_ok :: "nat \<Rightarrow> sample_queue \<Rightarrow> bool" where
  "ring_ok k q \<longleftrightarrow> 0 < k \<and> k < 64 \<and> length (q_slots q) = 2 ^ k \<and> q_mask q = mask k \<and> unat (queue_len q) \<le> 2 ^ k"

lemma slot_index_mod:
  assumes "q_mask q = mask k" "k < 64"
  shows "slot_index q (i + word_of_nat n) = (unat i + n) mod 2 ^ k"
proof -
  have "(2 :: nat) ^ k dvd 2 ^ 64" by (rule le_imp_power_dvd) (use assms(2) in simp)
  then have "(unat i + n) mod 2 ^ 64 mod 2 ^ k = (unat i + n) mod 2 ^ k" by (rule mod_mod_cancel)
  moreover have "unat (i + word_of_nat n) = (unat i + n) mod 2 ^ 64"
    by (simp add: unat_word_ariths unat_of_nat mod_add_right_eq)
  ultimately show ?thesis by (simp add: slot_index_def assms(1) unat_and_mask)
qed

lemma mod_inj_window:
  fixes a i j m :: nat
  assumes "(a + i) mod m = (a + j) mod m" "i < m" "j < m"
  shows "i = j"
proof -
  have "int m dvd int (a + i) - int (a + j)"
    using assms(1) by (metis mod_eq_dvd_iff zmod_int)
  then have "int m dvd int i - int j" by simp
  moreover have "\<bar>int i - int j\<bar> < int m" using assms(2,3) by linarith
  ultimately show ?thesis
    by (metis dvd_imp_le_int linorder_not_le abs_of_nat eq_iff_diff_eq_0 of_nat_eq_iff)
qed

text \<open>Writing \<open>n\<close> samples behind the first \<open>l\<close> of a window of the ring changes nothing else in the window.\<close>

lemma window_writes:
  assumes "length ss = m" "l + n \<le> m" "j < m"
  shows "fold (\<lambda>i ss. ss[(a + (l + i)) mod m := f i]) [0..<n] ss ! ((a + j) mod m) =
    (if l \<le> j \<and> j < l + n then f (j - l) else ss ! ((a + j) mod m))"
  using assms(2)
proof (induction n)
  case (Suc n)
  let ?w = "\<lambda>n. fold (\<lambda>i ss. ss[(a + (l + i)) mod m := f i]) [0..<n] ss"
  have len: "length (?w n) = m" for n by (induction n) (simp_all add: assms(1))
  have "(a + (l + n)) mod m = (a + j) mod m \<longleftrightarrow> j = l + n"
    using mod_inj_window [of a "l + n" m j] Suc.prems assms(3) by auto
  then show ?case using Suc len [of n] assms(3) by (auto simp: nth_list_update)
qed auto

lemma length_writes [simp]: "length (fold (\<lambda>i ss. ss[g i := f i]) xs ss) = length ss"
  by (induction xs arbitrary: ss) simp_all

subsection \<open>The queue as a list\<close>

text \<open>The samples the queue holds, oldest first.\<close>

definition queued :: "sample_queue \<Rightarrow> u32 list" where
  "queued q = map (\<lambda>i. q_slots q ! slot_index q (q_head q + word_of_nat i)) [0..<unat (queue_len q)]"

lemma length_queued [simp]: "length (queued q) = unat (queue_len q)"
  by (simp add: queued_def)

lemma ring_capacity_ok: "ring_ok k q \<Longrightarrow> unat (ring_capacity q) = 2 ^ k"
proof -
  assume "ring_ok k q"
  then have *: "q_mask q = mask k" "k < 64" by (simp_all add: ring_ok_def)
  have "(2 :: nat) ^ k < 2 ^ 64" using *(2) by (rule power_strict_increasing) simp
  then have "2 ^ k mod (2 ^ 64 :: nat) = 2 ^ k" by (rule mod_less)
  moreover have "ring_capacity q = word_of_nat (2 ^ k)"
    by (simp add: ring_capacity_def *(1) mask_eq_exp_minus_1)
  ultimately show ?thesis by (simp add: unat_of_nat del: of_nat_power)
qed

text \<open>The slots from the head, whatever the head counts to.\<close>

definition slot_from :: "nat \<Rightarrow> sample_queue \<Rightarrow> nat \<Rightarrow> nat" where
  "slot_from k q i = (unat (q_head q) + i) mod 2 ^ k"

lemma slot_from_head: "ring_ok k q \<Longrightarrow> slot_index q (q_head q + word_of_nat i) = slot_from k q i"
  by (simp add: slot_from_def ring_ok_def slot_index_mod)

lemma tail_is: "q_tail q = q_head q + word_of_nat (unat (queue_len q))"
  by (simp add: queue_len_def)

lemma slot_from_tail:
  "ring_ok k q \<Longrightarrow> slot_index q (q_tail q + word_of_nat i) = slot_from k q (unat (queue_len q) + i)"
proof -
  assume "ring_ok k q"
  then have "slot_index q (q_head q + word_of_nat (unat (queue_len q) + i)) = slot_from k q (unat (queue_len q) + i)"
    by (rule slot_from_head)
  moreover have "q_tail q + word_of_nat i = q_head q + word_of_nat (unat (queue_len q) + i)"
    by (subst tail_is) (simp only: of_nat_add add.assoc)
  ultimately show ?thesis by (simp only:)
qed

lemma queued_nth:
  "ring_ok k q \<Longrightarrow> i < unat (queue_len q) \<Longrightarrow> queued q ! i = q_slots q ! slot_from k q i"
  by (simp add: queued_def slot_from_head)

lemma unat_free:
  assumes "ring_ok k q"
  shows "unat (ring_capacity q - (q_tail q - q_head q)) = 2 ^ k - unat (queue_len q)"
proof -
  have "q_tail q - q_head q \<le> ring_capacity q"
    using assms ring_capacity_ok [OF assms] by (simp add: word_le_nat_alt ring_ok_def queue_len_def)
  then show ?thesis by (simp add: unat_sub queue_len_def ring_capacity_ok [OF assms])
qed

lemma pow_lt_64: "k < 64 \<Longrightarrow> (2 :: nat) ^ k \<le> 2 ^ 63"
  by (rule power_increasing) simp_all

lemma unat_sum_64: "unat (x :: usize) + n \<le> 2 ^ 63 \<Longrightarrow> unat (x + word_of_nat n) = unat x + n"
  by (simp add: unat_word_ariths unat_of_nat mod_add_right_eq)

lemma unat_diff_64: "n \<le> unat (x :: usize) \<Longrightarrow> unat (x - word_of_nat n) = unat x - n"
proof -
  assume n: "n \<le> unat x"
  have "unat x < 2 ^ 64" by (rule order_less_le_trans [OF unsigned_less]) simp
  then have "unat (word_of_nat n :: usize) = n" using n by (simp add: unat_of_nat)
  then show ?thesis using n by (simp add: unat_sub word_le_nat_alt)
qed

subsection \<open>Whole calls refine the list\<close>

lemma push_contents:
  assumes "ring_ok k q"
  shows "queued (queue_push samples q) = queued q @ take (2 ^ k - unat (queue_len q)) samples" (is ?A)
    and "ring_ok k (queue_push samples q)" (is ?B)
proof -
  define l where "l = unat (queue_len q)"
  define n where "n = min (length samples) (2 ^ k - l)"
  define ss where "ss = fold (\<lambda>i ss. ss[(unat (q_head q) + (l + i)) mod 2 ^ k := samples ! i]) [0..<n] (q_slots q)"
  have k: "k < 64" "length (q_slots q) = 2 ^ k" "l \<le> 2 ^ k" using assms by (simp_all add: ring_ok_def l_def)
  have ln: "l + n \<le> 2 ^ k" using k(3) by (simp add: n_def)
  have push: "queue_push samples q = q\<lparr>q_started := True, q_slots := ss, q_tail := q_tail q + word_of_nat n\<rparr>"
    using slot_from_tail [OF assms] unat_free [OF assms]
    by (simp add: queue_push_def push_room_def Let_def ss_def n_def l_def slot_from_def ring_capacity_def slot_index_def)
  have "queue_len (queue_push samples q) = queue_len q + word_of_nat n"
    by (simp add: push queue_len_def)
  then have len: "unat (queue_len (queue_push samples q)) = l + n"
    using ln pow_lt_64 [OF k(1)] unat_sum_64 [of "queue_len q" n] by (simp add: l_def)
  show B: ?B using assms ln unfolding ring_ok_def len by (simp add: push ss_def)
  show ?A
  proof (rule nth_equalityI)
    show "length (queued (queue_push samples q)) = length (queued q @ take (2 ^ k - unat (queue_len q)) samples)"
      by (simp add: len l_def [symmetric] n_def min.commute)
    fix i assume "i < length (queued (queue_push samples q))"
    then have i: "i < l + n" by (simp add: len)
    then have "i < 2 ^ k" using ln by simp
    have "queued (queue_push samples q) ! i = ss ! ((unat (q_head q) + i) mod 2 ^ k)"
      unfolding queued_nth [OF B, of i, unfolded len, OF i] by (simp add: push slot_from_def)
    also have "\<dots> = (if l \<le> i \<and> i < l + n then samples ! (i - l) else q_slots q ! ((unat (q_head q) + i) mod 2 ^ k))"
      unfolding ss_def by (rule window_writes [OF k(2) ln \<open>i < 2 ^ k\<close>])
    also have "\<dots> = (queued q @ take (2 ^ k - unat (queue_len q)) samples) ! i"
      using i queued_nth [OF assms, of i] by (auto simp: nth_append l_def n_def slot_from_def)
    finally show "queued (queue_push samples q) ! i = (queued q @ take (2 ^ k - unat (queue_len q)) samples) ! i" .
  qed
qed

lemma pop_contents:
  assumes "ring_ok k q"
  shows "queued (snd (pop_samples len q)) = drop len (queued q)"
    and "ring_ok k (snd (pop_samples len q))"
    and "fst (pop_samples len q) = (take len (queued q) @ replicate (len - length (queued q)) 0, min len (length (queued q)))"
proof -
  define l where "l = unat (queue_len q)"
  define n where "n = min len l"
  define q' where "q' = snd (pop_samples len q)"
  have k: "k < 64" "l \<le> 2 ^ k" "n \<le> l" using assms by (simp_all add: ring_ok_def l_def n_def)
  have fields: "q_head q' = q_head q + word_of_nat n" "q_slots q' = q_slots q" "q_tail q' = q_tail q" "q_mask q' = q_mask q"
    by (simp_all add: q'_def pop_samples_def pop_count_def Let_def n_def l_def queue_len_def)
  have "queue_len q' = queue_len q - word_of_nat n" by (simp add: fields queue_len_def)
  then have len: "unat (queue_len q') = l - n" using unat_diff_64 [of n "queue_len q"] k(3) by (simp add: l_def)
  have B: "ring_ok k q'" using assms k(2) unfolding ring_ok_def len by (simp add: fields)
  then show "ring_ok k (snd (pop_samples len q))" by (simp add: q'_def)
  have "queued q' = drop n (queued q)"
  proof (rule nth_equalityI)
    show "length (queued q') = length (drop n (queued q))" by (simp add: len l_def)
    fix i assume "i < length (queued q')"
    then have i: "i < l - n" by (simp add: len)
    then have "n + i < l" by simp
    have "slot_index q' (q_head q' + word_of_nat i) = slot_index q (q_head q + word_of_nat (n + i))"
      by (simp add: slot_index_def fields add.assoc)
    then show "queued q' ! i = drop n (queued q) ! i"
      using i \<open>n + i < l\<close> by (simp add: queued_def len fields l_def [symmetric])
  qed
  then show "queued (snd (pop_samples len q)) = drop len (queued q)" by (simp add: q'_def n_def l_def min_def)
  have "map (\<lambda>i. q_slots q ! slot_index q (q_head q + word_of_nat i)) [0..<n] = take len (queued q)"
    by (simp add: queued_def take_map n_def l_def min_def)
  then show "fst (pop_samples len q) = (take len (queued q) @ replicate (len - length (queued q)) 0, min len (length (queued q)))"
    by (simp add: pop_samples_def pop_count_def Let_def n_def l_def queue_len_def min_def)
qed

text \<open>The queue as its callers see it: a bounded list with the play-out gate.\<close>

record sample_fifo =
  f_samples :: "u32 list"
  f_limit :: nat
  f_playing :: bool
  f_threshold :: nat
  f_paused :: bool

definition fifo_of :: "sample_queue \<Rightarrow> sample_fifo" where
  "fifo_of q = \<lparr>f_samples = queued q, f_limit = unat (ring_capacity q), f_playing = q_playing q,
     f_threshold = unat (q_start_threshold q), f_paused = q_paused q\<rparr>"

definition fifo_push :: "u32 list \<Rightarrow> sample_fifo \<Rightarrow> sample_fifo" where
  "fifo_push samples f = f\<lparr>f_samples := f_samples f @ take (f_limit f - length (f_samples f)) samples\<rparr>"

text \<open>A gate that is shut opens once the threshold is reached, and an underrun shuts it again.\<close>

definition fifo_gate :: "sample_fifo \<Rightarrow> bool" where
  "fifo_gate f \<longleftrightarrow> \<not> f_paused f \<and>
     (f_playing f \<or> f_threshold f \<le> length (f_samples f) \<and> (f_samples f \<noteq> [] \<or> f_threshold f = 0))"

definition fifo_pop :: "nat \<Rightarrow> sample_fifo \<Rightarrow> (u32 list \<times> nat) \<times> sample_fifo" where
  "fifo_pop len f = (let xs = f_samples f in
     if fifo_gate f
     then ((take len xs @ replicate (len - length xs) 0, min len (length xs)),
           f\<lparr>f_samples := drop len xs, f_playing := len \<le> length xs\<rparr>)
     else ((replicate len 0, 0), f))"

text \<open>
  for every queue with a power-of-two ring, of any index values up to the wrap-around of the
  64-bit counters, \<open>push\<close> and \<open>pop_or_silence\<close> are the operations of a bounded list: push appends what
  fits and drops the rest, pop takes from the front and pads with silence, and the play-out gate
  opens at the threshold and shuts on an underrun. Both keep the ring well-formed.
\<close>

theorem queue_refines_fifo:
  assumes "ring_ok k q"
  shows "fifo_of (queue_push samples q) = fifo_push samples (fifo_of q) \<and> ring_ok k (queue_push samples q) \<and>
    map_prod id fifo_of (pop_or_silence len q) = fifo_pop len (fifo_of q) \<and> ring_ok k (snd (pop_or_silence len q))"
proof -
  have push: "ring_capacity (queue_push samples q) = ring_capacity q" "q_playing (queue_push samples q) = q_playing q"
    "q_start_threshold (queue_push samples q) = q_start_threshold q" "q_paused (queue_push samples q) = q_paused q"
    by (simp_all add: queue_push_def Let_def ring_capacity_def)
  have A: "fifo_of (queue_push samples q) = fifo_push samples (fifo_of q)"
    using push_contents(1) [OF assms, of samples]
    by (simp add: fifo_of_def fifo_push_def push ring_capacity_ok [OF assms])
  have pop: "map_prod id fifo_of (pop_samples len (q\<lparr>q_playing := True\<rparr>)) =
      ((take len (queued q) @ replicate (len - length (queued q)) 0, min len (length (queued q))),
       (fifo_of q)\<lparr>f_samples := drop len (queued q), f_playing := len \<le> length (queued q)\<rparr>)"
    and okp: "ring_ok k (snd (pop_samples len (q\<lparr>q_playing := True\<rparr>)))"
  proof -
    let ?q = "q\<lparr>q_playing := True\<rparr>"
    have ok: "ring_ok k ?q" using assms by (simp add: ring_ok_def queue_len_def)
    have same: "queued ?q = queued q" by (simp add: queued_def queue_len_def slot_index_def)
    have flags: "ring_capacity (snd (pop_samples len ?q)) = ring_capacity q"
      "q_playing (snd (pop_samples len ?q)) = (len \<le> length (queued q))"
      "q_start_threshold (snd (pop_samples len ?q)) = q_start_threshold q"
      "q_paused (snd (pop_samples len ?q)) = q_paused q"
      by (auto simp: pop_samples_def pop_count_def Let_def ring_capacity_def queue_len_def)
    show "map_prod id fifo_of (pop_samples len ?q) =
      ((take len (queued q) @ replicate (len - length (queued q)) 0, min len (length (queued q))),
       (fifo_of q)\<lparr>f_samples := drop len (queued q), f_playing := len \<le> length (queued q)\<rparr>)"
      using pop_contents(1,3) [OF ok, of len] same flags
      by (simp add: map_prod_def fifo_of_def split_beta prod_eq_iff)
    show "ring_ok k (snd (pop_samples len ?q))" by (rule pop_contents(2) [OF ok])
  qed
  have gate: "pop_or_silence len q = (if fifo_gate (fifo_of q) then pop_samples len (q\<lparr>q_playing := True\<rparr>)
      else ((replicate len 0, 0), q))"
  proof -
    have "q_playing q \<Longrightarrow> q\<lparr>q_playing := True\<rparr> = q" by (cases q) simp
    then have "q_playing q \<Longrightarrow> pop_samples len (q\<lparr>q_playing := True\<rparr>) = pop_samples len q" by (rule arg_cong)
    then show ?thesis
      by (auto simp: pop_or_silence_def gate_opens_def Let_def fifo_gate_def fifo_of_def queue_len_def word_le_nat_alt
          word_less_nat_alt unat_eq_0 length_greater_0_conv [symmetric] simp del: length_greater_0_conv)
  qed
  have C: "map_prod id fifo_of (pop_or_silence len q) = fifo_pop len (fifo_of q)"
    by (simp add: gate fifo_pop_def pop Let_def) (simp add: fifo_of_def)
  show ?thesis using A C okp assms push_contents(2) [OF assms] by (simp add: gate)
qed

lemma capacity_4: "ring_ok 2 (with_capacity 4)"
  by (simp add: ring_ok_def with_capacity_def next_power_of_two_def compute_floorlog queue_len_def Let_def
      mask_eq_exp_minus_1)

lemma queue_refines_fifo_witness:
  "map_prod id fifo_of (pop_or_silence 3 (queue_push [1, 2] (with_capacity 4))) =
     (([1, 2, 0], 2), \<lparr>f_samples = [], f_limit = 4, f_playing = False, f_threshold = 0, f_paused = False\<rparr>)"
proof -
  have q: "fifo_of (with_capacity 4) =
      \<lparr>f_samples = [], f_limit = 4, f_playing = False, f_threshold = 0, f_paused = False\<rparr>"
    using ring_capacity_ok [OF capacity_4]
    by (simp add: fifo_of_def queued_def queue_len_def with_capacity_def Let_def)
  have "fifo_of (queue_push [1, 2] (with_capacity 4)) = fifo_push [1, 2] (fifo_of (with_capacity 4))"
    "ring_ok 2 (queue_push [1, 2] (with_capacity 4))"
    using queue_refines_fifo [OF capacity_4, of "[1, 2]" 3] by simp_all
  then show ?thesis
    using queue_refines_fifo [of 2 "queue_push [1, 2] (with_capacity 4)" "[]" 3]
    by (simp add: q fifo_push_def fifo_pop_def fifo_gate_def)
qed

lemma next_power_of_two_less:
  assumes "capacity \<le> 2 ^ 62"
  obtains k where "0 < k" "k < 64" "max (next_power_of_two capacity) 2 = 2 ^ k"
proof (cases "capacity \<le> 2")
  case True
  have "next_power_of_two capacity \<le> 2"
    using True by (cases "capacity = 2") (auto simp: next_power_of_two_def floorlog_def)
  then show ?thesis using that [of 1] by (simp add: max_def)
next
  case False
  define l where "l = floorlog 2 (capacity - 1)"
  have "l \<noteq> 0" using False by (simp add: l_def floorlog_eq_zero_iff)
  have "(2 :: nat) ^ (l - 1) \<le> capacity - 1" using floorlog_bounds [of "capacity - 1" 2] False by (auto simp: l_def)
  then have "(2 :: nat) ^ (l - 1) < 2 ^ 62" using assms False by linarith
  then have "l - 1 < 62" by (rule power_less_imp_less_exp [rotated]) simp
  moreover have "(2 :: nat) \<le> 2 ^ l" using \<open>l \<noteq> 0\<close> by (cases l) simp_all
  ultimately show ?thesis using that [of l] \<open>l \<noteq> 0\<close> False by (simp add: next_power_of_two_def l_def max_def)
qed

lemma with_capacity_ok:
  assumes "capacity \<le> 2 ^ 62"
  obtains k where "ring_ok k (with_capacity capacity)" "queued (with_capacity capacity) = []"
    "q_head (with_capacity capacity) = 0" "q_tail (with_capacity capacity) = 0"
proof -
  obtain k where k: "0 < k" "k < 64" "max (next_power_of_two capacity) 2 = 2 ^ k"
    using next_power_of_two_less [OF assms] .
  have "word_of_nat (2 ^ k - 1) = (mask k :: usize)" by (simp add: mask_eq_exp_minus_1 of_nat_diff)
  then have "ring_ok k (with_capacity capacity)"
    using k by (simp add: ring_ok_def with_capacity_def queue_len_def)
  moreover have "queued (with_capacity capacity) = []" by (simp add: queued_def queue_len_def with_capacity_def Let_def)
  ultimately show ?thesis using that by (simp add: with_capacity_def Let_def)
qed

subsection \<open>The two threads\<close>

text \<open>
  The producer and the consumer each run their loads and stores in order: a program point for every load
  of a shared cell, with the values loaded so far, and a step for every load or store. Returned from
  \<open>pop_or_silence\<close>, the consumer holds the buffer and the count.
\<close>

datatype producer_pc =
    Push_idle
  | Push_call "u32 list"
  | Push_begun "u32 list"
  | Push_tail "u32 list" usize
  | Push_writing "u32 list" usize nat nat

fun push_step :: "sample_queue \<Rightarrow> producer_pc \<Rightarrow> sample_queue \<times> producer_pc" where
  "push_step q Push_idle = (q, Push_idle)"
| "push_step q (Push_call samples) = (q\<lparr>q_started := True\<rparr>, Push_begun samples)"
| "push_step q (Push_begun samples) = (q, Push_tail samples (q_tail q))"
| "push_step q (Push_tail samples tail) =
     (q, Push_writing samples tail (push_room q (length samples) tail (q_head q)) 0)"
| "push_step q (Push_writing samples tail n i) =
     (if i < n then (q\<lparr>q_slots := (q_slots q)[slot_index q (tail + word_of_nat i) := samples ! i]\<rparr>,
        Push_writing samples tail n (i + 1))
      else (q\<lparr>q_tail := tail + word_of_nat n\<rparr>, Push_idle))"

datatype consumer_pc =
    Pop_returned "u32 list" nat
  | Pop_call nat
  | Pop_head nat usize
  | Pop_avail nat usize usize
  | Pop_unpaused nat usize usize
  | Pop_shut nat usize usize
  | Pop_opening nat usize usize
  | Pop_reading nat usize nat "u32 list"
  | Pop_underrun nat "u32 list"

definition pop_return :: "nat \<Rightarrow> u32 list \<Rightarrow> consumer_pc" where
  "pop_return len got = Pop_returned (got @ replicate (len - length got) 0) (length got)"

fun pop_step :: "sample_queue \<Rightarrow> consumer_pc \<Rightarrow> sample_queue \<times> consumer_pc" where
  "pop_step q (Pop_returned out n) = (q, Pop_returned out n)"
| "pop_step q (Pop_call len) = (q, Pop_head len (q_head q))"
| "pop_step q (Pop_head len head) = (q, Pop_avail len head (q_tail q - head))"
| "pop_step q (Pop_avail len head avail) =
     (q, if q_paused q then pop_return len [] else Pop_unpaused len head avail)"
| "pop_step q (Pop_unpaused len head avail) =
     (q, if q_playing q then Pop_reading len head (pop_count len avail) [] else Pop_shut len head avail)"
| "pop_step q (Pop_shut len head avail) =
     (q, if gate_opens (q_start_threshold q) avail then Pop_opening len head avail else pop_return len [])"
| "pop_step q (Pop_opening len head avail) =
     (q\<lparr>q_playing := True\<rparr>, Pop_reading len head (pop_count len avail) [])"
| "pop_step q (Pop_reading len head n got) =
     (if length got < n
      then (q, Pop_reading len head n (got @ [q_slots q ! slot_index q (head + word_of_nat (length got))]))
      else (q\<lparr>q_head := head + word_of_nat n\<rparr>,
        if n < len \<and> len \<noteq> 0 then Pop_underrun len got else pop_return len got))"
| "pop_step q (Pop_underrun len got) = (q\<lparr>q_playing := False\<rparr>, pop_return len got)"

text \<open>
  Both threads over one queue. The cells \<open>pushed\<close> and \<open>popped\<close> record, for the statements only, what the
  two sides have released. Any thread may set the threshold and the pause flag.
\<close>

record ring_threads =
  r_queue :: sample_queue
  r_producer :: producer_pc
  r_consumer :: consumer_pc
  r_pushed :: "u32 list"
  r_popped :: "u32 list"

fun released :: "producer_pc \<Rightarrow> u32 list" where
  "released (Push_writing samples tail n i) = (if i < n then [] else take n samples)"
| "released _ = []"

fun consumed :: "consumer_pc \<Rightarrow> u32 list" where
  "consumed (Pop_reading len head n got) = (if length got < n then [] else got)"
| "consumed _ = []"

inductive ring_step :: "ring_threads \<Rightarrow> ring_threads \<Rightarrow> bool" where
  push_call: "r_producer s = Push_idle \<Longrightarrow> ring_step s (s\<lparr>r_producer := Push_call samples\<rparr>)"
| push_next: "push_step (r_queue s) (r_producer s) = (q, p) \<Longrightarrow>
    ring_step s (s\<lparr>r_queue := q, r_producer := p, r_pushed := r_pushed s @ released (r_producer s)\<rparr>)"
| pop_call: "r_consumer s = Pop_returned out n \<Longrightarrow> ring_step s (s\<lparr>r_consumer := Pop_call len\<rparr>)"
| pop_next: "pop_step (r_queue s) (r_consumer s) = (q, c) \<Longrightarrow>
    ring_step s (s\<lparr>r_queue := q, r_consumer := c, r_popped := r_popped s @ consumed (r_consumer s)\<rparr>)"
| control: "q = r_queue s \<Longrightarrow>
    ring_step s (s\<lparr>r_queue := q\<lparr>q_start_threshold := threshold, q_paused := paused\<rparr>\<rparr>)"

definition ring_start :: "sample_queue \<Rightarrow> ring_threads" where
  "ring_start q = \<lparr>r_queue = q, r_producer = Push_idle, r_consumer = Pop_returned [] 0, r_pushed = [], r_popped = []\<rparr>"

inductive ring_reach :: "sample_queue \<Rightarrow> ring_threads \<Rightarrow> bool" for q where
  reach_start: "ring_reach q (ring_start q)"
| reach_step: "ring_reach q s \<Longrightarrow> ring_step s s' \<Longrightarrow> ring_reach q s'"

subsection \<open>A call that is not interrupted\<close>

lemma funpow_chain: "(f ^^ j) a = b \<Longrightarrow> (f ^^ i) b = c \<Longrightarrow> (f ^^ (i + j)) a = c"
  by (simp add: funpow_add)

lemma push_writes_run:
  "i \<le> n \<Longrightarrow> ((\<lambda>(q, p). push_step q p) ^^ (n - i)) (q, Push_writing samples tail n i) =
     (q\<lparr>q_slots := fold (\<lambda>i ss. ss[slot_index q (tail + word_of_nat i) := samples ! i]) [i..<n] (q_slots q)\<rparr>,
      Push_writing samples tail n n)"
proof (induction "n - i" arbitrary: i q)
  case (Suc m)
  then have "i < n" "m = n - (i + 1)" by auto
  moreover have "n - i = Suc (n - (i + 1))" using \<open>i < n\<close> by simp
  ultimately show ?case using Suc.hyps(1) [of "i + 1"]
    by (simp only: funpow_Suc_right comp_apply case_prod_conv push_step.simps if_True)
      (simp add: slot_index_def upt_conv_Cons)
qed simp

lemma push_alone:
  "\<exists>m. ((\<lambda>(q, p). push_step q p) ^^ m) (q, Push_call samples) = (queue_push samples q, Push_idle)"
proof -
  let ?next = "\<lambda>(q, p). push_step q p" and ?q = "q\<lparr>q_started := True\<rparr>"
  let ?n = "push_room ?q (length samples) (q_tail q) (q_head q)"
  have "(?next ^^ 3) (q, Push_call samples) = (?q, Push_writing samples (q_tail q) ?n 0)"
    by (simp add: numeral_3_eq_3)
  from funpow_chain [OF this push_writes_run [of 0 ?n ?q samples "q_tail q", simplified]]
  have "(?next ^^ (?n + 3)) (q, Push_call samples) =
      (?q\<lparr>q_slots := fold (\<lambda>i ss. ss[slot_index ?q (q_tail q + word_of_nat i) := samples ! i]) [0..<?n] (q_slots q)\<rparr>,
        Push_writing samples (q_tail q) ?n ?n)" by simp
  then have "(?next ^^ Suc (?n + 3)) (q, Push_call samples) =
      ?next (?q\<lparr>q_slots := fold (\<lambda>i ss. ss[slot_index ?q (q_tail q + word_of_nat i) := samples ! i]) [0..<?n] (q_slots q)\<rparr>,
        Push_writing samples (q_tail q) ?n ?n)" by (simp only: funpow.simps(2) comp_apply)
  also have "\<dots> = (queue_push samples q, Push_idle)" by (simp add: queue_push_def Let_def)
  finally show ?thesis by blast
qed

lemma pop_reads_run:
  "length got \<le> n \<Longrightarrow> ((\<lambda>(q, c). pop_step q c) ^^ (n - length got)) (q, Pop_reading len head n got) =
     (q, Pop_reading len head n (got @ map (\<lambda>i. q_slots q ! slot_index q (head + word_of_nat i)) [length got..<n]))"
proof (induction "n - length got" arbitrary: got)
  case (Suc m)
  let ?x = "q_slots q ! slot_index q (head + word_of_nat (length got))"
  have lt: "length got < n" using Suc.hyps(2) by simp
  then have m: "n - length got = Suc (n - length (got @ [?x]))" "m = n - length (got @ [?x])"
    using Suc.hyps(2) by simp_all
  then show ?case using Suc.hyps(1) [of "got @ [?x]"] lt
    by (simp only: m(1) funpow_Suc_right comp_apply case_prod_conv pop_step.simps if_True)
      (simp add: upt_conv_Cons)
qed simp

lemma pop_copy_alone:
  "\<exists>m. ((\<lambda>(q, c). pop_step q c) ^^ m) (q, Pop_reading len (q_head q) (pop_count len (q_tail q - q_head q)) []) =
    (case pop_samples len q of ((out, n), q') \<Rightarrow> (q', Pop_returned out n))"
proof -
  let ?next = "\<lambda>(q, c). pop_step q c" and ?n = "pop_count len (q_tail q - q_head q)"
  let ?got = "map (\<lambda>i. q_slots q ! slot_index q (q_head q + word_of_nat i)) [0..<?n]"
  have run: "(?next ^^ ?n) (q, Pop_reading len (q_head q) ?n []) = (q, Pop_reading len (q_head q) ?n ?got)"
    using pop_reads_run [of "[]" ?n q len "q_head q"] by simp
  show ?thesis
  proof (cases "?n < len \<and> len \<noteq> 0")
    case True
    then have "(?next ^^ Suc (Suc ?n)) (q, Pop_reading len (q_head q) ?n []) =
        (case pop_samples len q of ((out, n), q') \<Rightarrow> (q', Pop_returned out n))"
      by (simp add: run pop_samples_def pop_return_def Let_def)
    then show ?thesis by blast
  next
    case False
    then have "(?next ^^ Suc ?n) (q, Pop_reading len (q_head q) ?n []) =
        (case pop_samples len q of ((out, n), q') \<Rightarrow> (q', Pop_returned out n))"
      by (auto simp: run pop_samples_def pop_return_def Let_def)
    then show ?thesis by blast
  qed
qed

lemma pop_alone:
  "\<exists>m. ((\<lambda>(q, c). pop_step q c) ^^ m) (q, Pop_call len) =
    (case pop_or_silence len q of ((out, n), q') \<Rightarrow> (q', Pop_returned out n))"
proof -
  let ?next = "\<lambda>(q, c). pop_step q c" and ?avail = "q_tail q - q_head q"
  have chain: "\<exists>m. (?next ^^ m) a = c" if "(?next ^^ j) a = b" "\<exists>m. (?next ^^ m) b = c" for a b c j
    using that by (metis comp_apply funpow_add)
  have *: "(?next ^^ 3) (q, Pop_call len) =
      (q, if q_paused q then pop_return len [] else Pop_unpaused len (q_head q) ?avail)"
    by (simp add: numeral_3_eq_3)
  consider "q_paused q" | "\<not> q_paused q" "q_playing q"
    | "\<not> q_paused q" "\<not> q_playing q" "gate_opens (q_start_threshold q) ?avail"
    | "\<not> q_paused q" "\<not> q_playing q" "\<not> gate_opens (q_start_threshold q) ?avail" by blast
  then show ?thesis
  proof cases
    case 1
    then show ?thesis using * by (intro exI [of _ 3]) (simp add: pop_or_silence_def pop_return_def Let_def)
  next
    case 2
    then have "(?next ^^ 4) (q, Pop_call len) = (q, Pop_reading len (q_head q) (pop_count len ?avail) [])"
      using * by (simp add: eval_nat_numeral)
    from chain [OF this pop_copy_alone] 2 show ?thesis by (simp add: pop_or_silence_def Let_def)
  next
    case 3
    let ?q = "q\<lparr>q_playing := True\<rparr>"
    have "(?next ^^ 6) (q, Pop_call len) =
        (?q, Pop_reading len (q_head ?q) (pop_count len (q_tail ?q - q_head ?q)) [])"
      using * 3 by (simp add: eval_nat_numeral)
    from chain [OF this pop_copy_alone] 3 show ?thesis by (simp add: pop_or_silence_def Let_def)
  next
    case 4
    then show ?thesis using *
      by (intro exI [of _ 5]) (simp add: pop_or_silence_def pop_return_def Let_def eval_nat_numeral)
  qed
qed

subsection \<open>Every interleaving\<close>

text \<open>Everything written so far, released or not, and how far a call in progress may still write.\<close>

fun in_flight :: "producer_pc \<Rightarrow> u32 list" where
  "in_flight (Push_writing samples tail n i) = take i samples"
| "in_flight _ = []"

fun claimed :: "producer_pc \<Rightarrow> nat" where
  "claimed (Push_writing samples tail n i) = n"
| "claimed _ = 0"

fun producer_ok :: "usize \<Rightarrow> producer_pc \<Rightarrow> bool" where
  "producer_ok t (Push_tail samples tail) \<longleftrightarrow> tail = t"
| "producer_ok t (Push_writing samples tail n i) \<longleftrightarrow> tail = t \<and> i \<le> n \<and> n \<le> length samples"
| "producer_ok t _ \<longleftrightarrow> True"

text \<open>What the call in progress has read, and what the call that ended last gave its caller.\<close>

fun delivered :: "consumer_pc \<Rightarrow> u32 list" where
  "delivered (Pop_reading len head n got) = got"
| "delivered _ = []"

fun heard :: "consumer_pc \<Rightarrow> u32 list" where
  "heard (Pop_returned out n) = take n out"
| "heard (Pop_underrun len got) = got"
| "heard _ = []"

fun padded :: "consumer_pc \<Rightarrow> bool" where
  "padded (Pop_returned out n) \<longleftrightarrow> n \<le> length out \<and> drop n out = replicate (length out - n) 0"
| "padded _ \<longleftrightarrow> True"

fun consumer_ok :: "usize \<Rightarrow> nat \<Rightarrow> consumer_pc \<Rightarrow> bool" where
  "consumer_ok h avail (Pop_head len head) \<longleftrightarrow> head = h"
| "consumer_ok h avail (Pop_avail len head av) \<longleftrightarrow> head = h \<and> unat av \<le> avail"
| "consumer_ok h avail (Pop_unpaused len head av) \<longleftrightarrow> head = h \<and> unat av \<le> avail"
| "consumer_ok h avail (Pop_shut len head av) \<longleftrightarrow> head = h \<and> unat av \<le> avail"
| "consumer_ok h avail (Pop_opening len head av) \<longleftrightarrow> head = h \<and> unat av \<le> avail"
| "consumer_ok h avail (Pop_reading len head n got) \<longleftrightarrow> head = h \<and> length got \<le> n \<and> n \<le> avail"
| "consumer_ok h avail _ \<longleftrightarrow> True"

definition threads_ok :: "nat \<Rightarrow> ring_threads \<Rightarrow> bool" where
  "threads_ok k s \<longleftrightarrow> (let q = r_queue s; written = r_pushed s @ in_flight (r_producer s);
       t = length (r_pushed s); h = length (r_popped s) in
     0 < k \<and> k < 64 \<and> length (q_slots q) = 2 ^ k \<and> q_mask q = mask k \<and>
     q_head q = word_of_nat h \<and> q_tail q = word_of_nat t \<and> h \<le> t \<and> t + claimed (r_producer s) \<le> h + 2 ^ k \<and>
     producer_ok (q_tail q) (r_producer s) \<and> consumer_ok (q_head q) (t - h) (r_consumer s) \<and>
     prefix (r_popped s @ delivered (r_consumer s)) (r_pushed s) \<and>
     suffix (heard (r_consumer s)) (r_popped s) \<and> padded (r_consumer s) \<and>
     (\<forall>j. h \<le> j \<and> j < length written \<longrightarrow> q_slots q ! (j mod 2 ^ k) = written ! j))"

lemma slot_index_count:
  assumes "q_mask q = mask k" "k < 64"
  shows "slot_index q (word_of_nat t + word_of_nat i) = (t + i) mod 2 ^ k"
proof -
  have "slot_index q (0 + word_of_nat (t + i)) = (t + i) mod 2 ^ k"
    by (subst slot_index_mod [OF assms]) simp
  then show ?thesis by simp
qed

lemma count_diff:
  assumes "h \<le> t" "t \<le> h + 2 ^ k" "k < 64"
  shows "unat (word_of_nat t - word_of_nat h :: usize) = t - h"
proof -
  have "t - h < 2 ^ 64" using assms(1,2) pow_lt_64 [OF assms(3)] by simp
  moreover have "word_of_nat t - word_of_nat h = (word_of_nat (t - h) :: usize)" by (simp add: of_nat_diff assms(1))
  ultimately show ?thesis by (simp add: unat_of_nat del: of_nat_diff)
qed

lemma count_free:
  assumes "h \<le> t" "t \<le> h + 2 ^ k" "k < 64" "q_mask q = mask k" "q_head q = word_of_nat h" "q_tail q = word_of_nat t"
  shows "push_room q len (q_tail q) (q_head q) = min len (h + 2 ^ k - t)"
proof -
  have "(2 :: nat) ^ k < 2 ^ 64" using pow_lt_64 [OF assms(3)] by simp
  moreover have "ring_capacity q = word_of_nat (2 ^ k)"
    by (simp add: ring_capacity_def assms(4) mask_eq_exp_minus_1)
  moreover have "word_of_nat (2 ^ k) - (word_of_nat t - word_of_nat h) = (word_of_nat (2 ^ k - (t - h)) :: usize)"
    using assms(1,2) by (simp add: of_nat_diff)
  ultimately show ?thesis using assms by (simp add: push_room_def unat_of_nat del: of_nat_diff of_nat_power)
qed

lemma next_read:
  assumes "threads_ok k s" "r_consumer s = Pop_reading len head n got" "length got < n"
  shows "prefix (r_popped s @ got @ [q_slots (r_queue s) ! slot_index (r_queue s) (head + word_of_nat (length got))]) (r_pushed s)"
proof -
  let ?h = "length (r_popped s)" and ?g = "length got"
  have ok: "prefix (r_popped s @ got) (r_pushed s)" "?h + ?g < length (r_pushed s)" "head = word_of_nat ?h"
    using assms by (auto simp: threads_ok_def Let_def)
  have "slot_index (r_queue s) (head + word_of_nat ?g) = (?h + ?g) mod 2 ^ k"
    using assms(1) slot_index_count [of "r_queue s" k] by (simp add: ok(3) threads_ok_def Let_def)
  then have "q_slots (r_queue s) ! slot_index (r_queue s) (head + word_of_nat ?g) = r_pushed s ! (?h + ?g)"
    using assms(1) ok(2) by (simp add: threads_ok_def Let_def nth_append)
  moreover obtain zs where "r_pushed s = r_popped s @ got @ zs" using ok(1) by (auto simp: prefix_def)
  moreover have "zs \<noteq> []" using calculation ok(2) by auto
  ultimately show ?thesis by (cases zs) (auto simp: nth_append prefix_def)
qed

lemma next_write:
  assumes "threads_ok k s" "r_producer s = Push_writing samples tail n i" "i < n"
    and "length (r_popped s) \<le> j" "j \<le> length (r_pushed s) + i"
  shows "(q_slots (r_queue s))[slot_index (r_queue s) (tail + word_of_nat i) := x] ! (j mod 2 ^ k) =
    (if j = length (r_pushed s) + i then x else (r_pushed s @ take i samples) ! j)"
proof -
  let ?h = "length (r_popped s)" and ?w = "length (r_pushed s) + i"
  have ok: "?w < ?h + 2 ^ k" "tail = word_of_nat (length (r_pushed s))" "length (q_slots (r_queue s)) = 2 ^ k"
      "i \<le> length samples" "?h \<le> length (r_pushed s)"
    using assms(1-3) by (auto simp: threads_ok_def Let_def)
  have slot: "slot_index (r_queue s) (tail + word_of_nat i) = ?w mod 2 ^ k"
    using assms(1) slot_index_count [of "r_queue s" k] by (simp add: ok(2) threads_ok_def Let_def)
  obtain a where a: "j = ?h + a" using assms(4) le_Suc_ex by blast
  obtain b where b: "?w = ?h + b" using ok(5) le_Suc_ex [of ?h ?w] by (metis trans_le_add1)
  have "a < 2 ^ k" "b < 2 ^ k" using a b assms(5) ok(1) by linarith+
  with a b have "?w mod 2 ^ k = j mod 2 ^ k \<longleftrightarrow> j = ?w"
    using mod_inj_window [of ?h b "2 ^ k" a] by auto
  moreover have "j < ?w \<Longrightarrow> q_slots (r_queue s) ! (j mod 2 ^ k) = (r_pushed s @ take i samples) ! j"
    using assms(1,2,4) ok(4) by (simp add: threads_ok_def Let_def)
  ultimately show ?thesis using assms(5) ok(3) by (simp add: slot nth_list_update)
qed

lemma consumer_ok_mono: "consumer_ok h a c \<Longrightarrow> a \<le> b \<Longrightarrow> consumer_ok h b c"
  by (cases c) auto

lemma threads_ok_push:
  assumes "threads_ok k s"
  defines "q \<equiv> fst (push_step (r_queue s) (r_producer s))" and "p \<equiv> snd (push_step (r_queue s) (r_producer s))"
  shows "threads_ok k (s\<lparr>r_queue := q, r_producer := p, r_pushed := r_pushed s @ released (r_producer s)\<rparr>)"
proof (cases "r_producer s")
  case (Push_tail samples tail)
  have "push_room (r_queue s) (length samples) (q_tail (r_queue s)) (q_head (r_queue s)) =
      min (length samples) (length (r_popped s) + 2 ^ k - length (r_pushed s))"
    by (rule count_free) (use assms(1) in \<open>simp_all add: threads_ok_def Let_def\<close>)
  then show ?thesis using assms(1) Push_tail by (auto simp: q_def p_def threads_ok_def Let_def min_def)
next
  case (Push_writing samples tail n i)
  show ?thesis
  proof (cases "i < n")
    case True
    then show ?thesis using assms(1) next_write [OF assms(1) Push_writing True, of _ "samples ! i"] Push_writing
      by (auto simp: q_def p_def threads_ok_def Let_def nth_append take_Suc_conv_app_nth less_Suc_eq_le)
  next
    case False
    moreover have "consumer_ok (q_head (r_queue s)) (length (r_pushed s) + n - length (r_popped s)) (r_consumer s)"
      by (rule consumer_ok_mono) (use assms(1) in \<open>auto simp: threads_ok_def Let_def\<close>)
    ultimately show ?thesis using assms(1) Push_writing
      by (auto simp: q_def p_def threads_ok_def Let_def prefix_prefix min_absorb2)
  qed
qed (use assms(1) in \<open>auto simp: q_def p_def threads_ok_def Let_def slot_index_def\<close>)

lemma threads_ok_pop:
  assumes "threads_ok k s"
  defines "q \<equiv> fst (pop_step (r_queue s) (r_consumer s))" and "c \<equiv> snd (pop_step (r_queue s) (r_consumer s))"
  shows "threads_ok k (s\<lparr>r_queue := q, r_consumer := c, r_popped := r_popped s @ consumed (r_consumer s)\<rparr>)"
proof (cases "r_consumer s")
  case (Pop_head len head)
  have "unat (q_tail (r_queue s) - q_head (r_queue s)) = length (r_pushed s) - length (r_popped s)"
    using assms(1) count_diff [of "length (r_popped s)" "length (r_pushed s)" k]
    by (simp add: threads_ok_def Let_def)
  then show ?thesis using assms(1) Pop_head by (auto simp: q_def c_def threads_ok_def Let_def)
next
  case (Pop_reading len head n got)
  show ?thesis
  proof (cases "length got < n")
    case True
    then show ?thesis using assms(1) next_read [OF assms(1) Pop_reading True] Pop_reading
      by (auto simp: q_def c_def threads_ok_def Let_def)
  next
    case False
    have "length (r_popped s @ got) \<le> length (r_pushed s)"
      using assms(1) Pop_reading by (intro prefix_length_le) (simp add: threads_ok_def Let_def)
    then show ?thesis using assms(1) Pop_reading False
      by (auto simp: q_def c_def threads_ok_def Let_def pop_return_def suffix_def split: if_splits)
  qed
qed (use assms(1) in \<open>auto simp: q_def c_def threads_ok_def Let_def slot_index_def pop_return_def pop_count_def split: if_splits\<close>)

lemma threads_ok_step:
  assumes "ring_step s s'" "threads_ok k s"
  shows "threads_ok k s'"
  using assms
proof cases
  case (push_next q p)
  then show ?thesis using threads_ok_push [OF assms(2)] by simp
next
  case (pop_next q c)
  then show ?thesis using threads_ok_pop [OF assms(2)] by simp
qed (use assms(2) in \<open>auto simp: threads_ok_def Let_def slot_index_def\<close>)

text \<open>
  C24: in every interleaving of the producer's and the consumer's loads and stores, starting from a new
  queue, the samples the consumer has read are, in order, the first samples the producer has pushed:
  none is lost, repeated, torn or read before it is released, no more than the ring's capacity
  is ever outstanding, and the buffer a pop returned holds the newest samples taken, followed by silence. A call
  whose steps nobody interrupts does to the queue what \<open>push\<close> and \<open>pop_or_silence\<close> do as a whole.
\<close>

theorem ring_is_fifo:
  assumes "ring_reach (with_capacity capacity) s" "capacity \<le> 2 ^ 62"
  shows "prefix (r_popped s @ delivered (r_consumer s)) (r_pushed s) \<and>
    length (r_pushed s) \<le> length (r_popped s) + length (q_slots (r_queue s)) \<and>
    (\<forall>out n. r_consumer s = Pop_returned out n \<longrightarrow>
       (\<exists>xs. out = xs @ replicate (length out - n) 0 \<and> length xs = n \<and> suffix xs (r_popped s))) \<and>
    (\<exists>m. ((\<lambda>(q, p). push_step q p) ^^ m) (r_queue s, Push_call samples) = (queue_push samples (r_queue s), Push_idle)) \<and>
    (\<exists>m. ((\<lambda>(q, c). pop_step q c) ^^ m) (r_queue s, Pop_call len) =
       (case pop_or_silence len (r_queue s) of ((out, n), q') \<Rightarrow> (q', Pop_returned out n)))"
proof -
  obtain k where k: "ring_ok k (with_capacity capacity)" "q_head (with_capacity capacity) = 0"
      "q_tail (with_capacity capacity) = 0"
    using with_capacity_ok [OF assms(2)] by metis
  have ok: "threads_ok k s"
    using assms(1)
  proof induction
    case reach_start
    then show ?case using k by (simp add: threads_ok_def ring_ok_def ring_start_def)
  qed (rule threads_ok_step)
  have "\<exists>xs. out = xs @ replicate (length out - n) 0 \<and> length xs = n \<and> suffix xs (r_popped s)"
    if "r_consumer s = Pop_returned out n" for out n
    using ok that append_take_drop_id [of n out]
    by (intro exI [of _ "take n out"]) (auto simp: threads_ok_def Let_def min_absorb2)
  then show ?thesis using ok push_alone pop_alone by (simp add: threads_ok_def Let_def)
qed

text \<open>A reachable state in the middle of a push, its head not yet loaded.\<close>

lemma ring_is_fifo_witness:
  "\<exists>s. ring_reach (with_capacity 4) s \<and> r_producer s = Push_tail [7] 0 \<and>
     prefix (r_popped s @ delivered (r_consumer s)) (r_pushed s)"
proof -
  define q where "q = with_capacity 4"
  define s1 where "s1 = (ring_start q)\<lparr>r_producer := Push_call [7]\<rparr>"
  define s2 where "s2 = s1\<lparr>r_queue := q\<lparr>q_started := True\<rparr>, r_producer := Push_begun [7]\<rparr>"
  define s3 where "s3 = s2\<lparr>r_producer := Push_tail [7] (q_tail q)\<rparr>"
  have "ring_step (ring_start q) s1" unfolding s1_def by (rule push_call) (simp add: ring_start_def)
  note r1 = reach_step [OF reach_start this]
  have "ring_step s1 s2" using push_next [of s1] by (simp add: s1_def s2_def ring_start_def)
  note r2 = reach_step [OF r1 this]
  have "ring_step s2 s3" using push_next [of s2] by (simp add: s1_def s2_def s3_def ring_start_def)
  note r3 = reach_step [OF r2 this]
  have "q_tail q = 0" by (simp only: q_def with_capacity_def Let_def sample_queue.simps)
  then have "r_producer s3 = Push_tail [7] 0" by (simp add: s3_def)
  moreover have "prefix (r_popped s3 @ delivered (r_consumer s3)) (r_pushed s3)"
    using ring_is_fifo [OF r3 [unfolded q_def]] by simp
  ultimately show ?thesis using r3 unfolding q_def by blast
qed

end
