(* ===== verification/Rust_Str.thy ===== *)
theory Rust_Str
  imports Prelude
begin

text \<open>
  The string operations of Rust's standard library that the debugger and the link codec use. A string is a
  list of characters with code points below 256; on such characters white space is what \<open>char::is_whitespace\<close>
  accepts.
\<close>

definition is_whitespace :: "char \<Rightarrow> bool" where
  "is_whitespace c \<longleftrightarrow> (let n = of_char c :: nat in (9 \<le> n \<and> n \<le> 13) \<or> n = 32 \<or> n = 0x85 \<or> n = 0xA0)"

definition trim_start :: "string \<Rightarrow> string" where
  "trim_start s = dropWhile is_whitespace s"

definition trim :: "string \<Rightarrow> string" where
  "trim s = rev (dropWhile is_whitespace (rev (trim_start s)))"

definition strip_prefix :: "'a list \<Rightarrow> 'a list \<Rightarrow> 'a list option" where
  "strip_prefix p s = (if take (length p) s = p then Some (drop (length p) s) else None)"

definition strip_suffix :: "'a list \<Rightarrow> 'a list \<Rightarrow> 'a list option" where
  "strip_suffix p s = map_option rev (strip_prefix (rev p) (rev s))"

text \<open>\<open>a.or_else(|| b)\<close>.\<close>

definition or_else :: "'a option \<Rightarrow> 'a option \<Rightarrow> 'a option" where
  "or_else a b = (case a of Some x \<Rightarrow> Some x | None \<Rightarrow> b)"

lemma or_else_simps [simp]: "or_else (Some x) b = Some x" "or_else None b = b"
  by (simp_all add: or_else_def)

text \<open>\<open>s.find(needle)\<close>, \<open>s.split(needle)\<close> for a string and \<open>s.split(c)\<close> for a character.\<close>

fun find_str :: "'a list \<Rightarrow> 'a list \<Rightarrow> nat option" where
  "find_str needle [] = (if needle = [] then Some 0 else None)"
| "find_str needle (c # s) = (if take (length needle) (c # s) = needle then Some 0 else map_option Suc (find_str needle s))"

lemma find_str_bound: "find_str needle s = Some i \<Longrightarrow> i + length needle \<le> length s \<and> take (length needle) (drop i s) = needle"
proof (induction s arbitrary: i)
  case (Cons c s)
  show ?case
  proof (cases "take (length needle) (c # s) = needle")
    case True
    then have "length needle \<le> length (c # s)" by (metis length_take min.cobounded1 min_def)
    then show ?thesis using True Cons.prems by auto
  next
    case False
    then show ?thesis using Cons by auto
  qed
qed (auto split: if_splits)

function split_str :: "'a list \<Rightarrow> 'a list \<Rightarrow> 'a list list" where
  "split_str needle s = (case (if needle = [] then None else find_str needle s) of
     None \<Rightarrow> [s]
   | Some i \<Rightarrow> take i s # split_str needle (drop (i + length needle) s))"
  by auto
termination
proof (relation "measure (\<lambda>(needle, s). length s)", simp)
  fix needle s :: "'a list" and i
  assume "(if needle = [] then None else find_str needle s) = Some i"
  then have "needle \<noteq> []" "find_str needle s = Some i" by (auto split: if_splits)
  then show "((needle, drop (i + length needle) s), needle, s) \<in> measure (\<lambda>(needle, s). length s)"
    using find_str_bound [of needle s i] by (cases needle) auto
qed

declare split_str.simps [simp del]

fun split_char :: "'a \<Rightarrow> 'a list \<Rightarrow> 'a list list" where
  "split_char d [] = [[]]"
| "split_char d (c # s) = (if c = d then [] # split_char d s
     else (case split_char d s of p # ps \<Rightarrow> (c # p) # ps | [] \<Rightarrow> [[c]]))"

text \<open>\<open>s.lines()\<close>: a final empty line is not one, and a carriage return before the line feed is dropped.\<close>

definition chomp :: "string \<Rightarrow> string" where
  "chomp l = (case rev l of c # cs \<Rightarrow> if c = CHR 0x0D then rev cs else l | [] \<Rightarrow> l)"

definition str_lines :: "string \<Rightarrow> string list" where
  "str_lines s = (let ls = split_char (CHR 0x0A) s; last_line = last ls; full = map chomp (butlast ls)
     in if last_line = [] then full else full @ [last_line])"

text \<open>\<open>s.split_once(c)\<close>, \<open>s.contains(needle)\<close> and \<open>s.trim_matches(c)\<close>.\<close>

fun split_once :: "'a \<Rightarrow> 'a list \<Rightarrow> ('a list \<times> 'a list) option" where
  "split_once d [] = None"
| "split_once d (c # s) = (if c = d then Some ([], s) else map_option (\<lambda>(k, v). (c # k, v)) (split_once d s))"

definition contains_str :: "'a list \<Rightarrow> 'a list \<Rightarrow> bool" where
  "contains_str needle s \<longleftrightarrow> find_str needle s \<noteq> None"

definition trim_matches :: "'a \<Rightarrow> 'a list \<Rightarrow> 'a list" where
  "trim_matches c s = rev (dropWhile (\<lambda>x. x = c) (rev (dropWhile (\<lambda>x. x = c) s)))"

subsection \<open>Letters and numbers\<close>

definition to_ascii_uppercase :: "char \<Rightarrow> char" where
  "to_ascii_uppercase c = (let n = of_char c :: nat in if 97 \<le> n \<and> n \<le> 122 then char_of (n - 32) else c)"

definition to_ascii_lowercase :: "char \<Rightarrow> char" where
  "to_ascii_lowercase c = (let n = of_char c :: nat in if 65 \<le> n \<and> n \<le> 90 then char_of (n + 32) else c)"

text \<open>\<open>char::to_digit\<close> for a radix of at most 36.\<close>

definition to_digit :: "nat \<Rightarrow> char \<Rightarrow> nat option" where
  "to_digit radix c = (let n = of_char c :: nat;
     d = (if 48 \<le> n \<and> n \<le> 57 then n - 48 else if 65 \<le> n \<and> n \<le> 90 then n - 55
          else if 97 \<le> n \<and> n \<le> 122 then n - 87 else radix)
   in if d < radix then Some d else None)"

definition is_ascii_hexdigit :: "char \<Rightarrow> bool" where
  "is_ascii_hexdigit c \<longleftrightarrow> to_digit 16 c \<noteq> None"

fun digits_value :: "nat \<Rightarrow> nat \<Rightarrow> string \<Rightarrow> nat option" where
  "digits_value radix acc [] = Some acc"
| "digits_value radix acc (c # s) = do { d \<leftarrow> to_digit radix c; digits_value radix (acc * radix + d) s }"

definition parse_nat :: "nat \<Rightarrow> string \<Rightarrow> nat option" where
  "parse_nat radix s = (if s = [] then None else digits_value radix 0 s)"

text \<open>\<open>u16::from_str_radix\<close> and \<open>i64::from_str_radix\<close>, with an optional sign; every error is \<open>None\<close>.\<close>

definition u16_from_str_radix :: "nat \<Rightarrow> string \<Rightarrow> u16 option" where
  "u16_from_str_radix radix s = do {
     n \<leftarrow> parse_nat radix (case strip_prefix ''+'' s of Some t \<Rightarrow> t | None \<Rightarrow> s);
     if n < 2 ^ 16 then Some (of_nat n) else None }"

definition parse_usize :: "string \<Rightarrow> nat option" where
  "parse_usize s = do {
     n \<leftarrow> parse_nat 10 (case strip_prefix ''+'' s of Some t \<Rightarrow> t | None \<Rightarrow> s);
     if n < 2 ^ 64 then Some n else None }"

definition i64_from_str_radix :: "nat \<Rightarrow> string \<Rightarrow> int option" where
  "i64_from_str_radix radix s = do {
     i \<leftarrow> (case strip_prefix ''-'' s of
            Some t \<Rightarrow> map_option (\<lambda>n. - int n) (parse_nat radix t)
          | None \<Rightarrow> map_option int (parse_nat radix (case strip_prefix ''+'' s of Some t \<Rightarrow> t | None \<Rightarrow> s)));
     if - (2 ^ 63) \<le> i \<and> i < 2 ^ 63 then Some i else None }"

definition hex_digit :: "nat \<Rightarrow> char" where
  "hex_digit n = ''0123456789ABCDEF'' ! n"

text \<open>The formats \<open>{:02X}\<close> of a byte and \<open>{:04X}\<close> of a word.\<close>

definition hex2 :: "u8 \<Rightarrow> string" where
  "hex2 b = [hex_digit (unat b div 16), hex_digit (unat b mod 16)]"

definition hex4 :: "u16 \<Rightarrow> string" where
  "hex4 w = [hex_digit (unat w div 4096), hex_digit (unat w div 256 mod 16), hex_digit (unat w div 16 mod 16), hex_digit (unat w mod 16)]"

subsection \<open>Facts\<close>

lemma trim_id: "s \<noteq> [] \<Longrightarrow> \<not> is_whitespace (hd s) \<Longrightarrow> \<not> is_whitespace (last s) \<Longrightarrow> trim s = s"
proof -
  assume "s \<noteq> []" "\<not> is_whitespace (hd s)" "\<not> is_whitespace (last s)"
  then have "dropWhile is_whitespace s = s" "dropWhile is_whitespace (rev s) = rev s"
    unfolding dropWhile_eq_self_iff by (simp_all add: hd_rev)
  then show "trim s = s" by (simp add: trim_def trim_start_def)
qed

lemma trim_Nil [simp]: "trim [] = []"
  by (simp add: trim_def trim_start_def)

lemma strip_prefix_append [simp]: "strip_prefix p (p @ s) = Some s"
  by (simp add: strip_prefix_def)

lemma strip_suffix_append [simp]: "strip_suffix p (s @ p) = Some s"
  by (simp add: strip_suffix_def)

definition HEX :: "char set" where
  "HEX = set ''0123456789ABCDEF''"

lemma hex_digit_HEX [simp]: "n < 16 \<Longrightarrow> hex_digit n \<in> HEX"
  unfolding HEX_def hex_digit_def by (rule nth_mem) simp

lemma hex_digit_value: "n < 16 \<Longrightarrow> to_digit 16 (hex_digit n) = Some n"
proof -
  have "\<forall>n \<in> set [0..<16]. to_digit 16 (hex_digit n) = Some n" by code_simp
  then show "n < 16 \<Longrightarrow> to_digit 16 (hex_digit n) = Some n" by simp
qed

lemma HEX_plain: "c \<in> HEX \<Longrightarrow> \<not> is_whitespace c \<and> is_ascii_hexdigit c \<and> c \<notin> set ''+-$#()[],;XYxy'' \<and> c \<noteq> CHR 0x0A \<and> c \<noteq> CHR 0x0D"
proof -
  have "\<forall>c \<in> set ''0123456789ABCDEF''. \<not> is_whitespace c \<and> is_ascii_hexdigit c \<and> c \<notin> set ''+-$#()[],;XYxy'' \<and> c \<noteq> CHR 0x0A \<and> c \<noteq> CHR 0x0D"
    by code_simp
  then show "c \<in> HEX \<Longrightarrow> \<not> is_whitespace c \<and> is_ascii_hexdigit c \<and> c \<notin> set ''+-$#()[],;XYxy'' \<and> c \<noteq> CHR 0x0A \<and> c \<noteq> CHR 0x0D"
    unfolding HEX_def by blast
qed

lemma length_hex [simp]: "length (hex2 b) = 2" "length (hex4 w) = 4"
  by (simp_all add: hex2_def hex4_def)

lemma unat_digits: "unat (b :: u8) < 256" "unat (w :: u16) < 65536" "unat b div 16 < 16" "unat w div 4096 < 16"
  using word8_bound [of b] word16_bound [of w] by auto

lemma hex_HEX [simp]: "set (hex2 b) \<subseteq> HEX" "set (hex4 w) \<subseteq> HEX"
  unfolding hex2_def hex4_def using unat_digits(3) [of b] unat_digits(4) [of w] by simp_all

lemma no_sign: "set s \<subseteq> HEX \<Longrightarrow> strip_prefix ''+'' s = None"
  using HEX_plain [of "CHR ''+''"] by (cases s) (auto simp: strip_prefix_def)

lemma hex2_value: "u16_from_str_radix 16 (hex2 b) = Some (ucast b)"
proof -
  have "unat b div 16 * 16 + unat b mod 16 = unat b" by presburger
  then have "parse_nat 16 (hex2 b) = Some (unat b)"
    using unat_digits(3) [of b] by (simp add: parse_nat_def hex2_def hex_digit_value)
  then show ?thesis
    using unat_digits(1) [of b] by (simp add: u16_from_str_radix_def no_sign)
qed

lemma hex4_value: "u16_from_str_radix 16 (hex4 w) = Some w"
proof -
  have "unat w div 4096 = unat w div 16 div 16 div 16" "unat w div 256 = unat w div 16 div 16"
    by (simp_all add: div_mult2_eq [symmetric])
  then have "((unat w div 4096 * 16 + unat w div 256 mod 16) * 16 + unat w div 16 mod 16) * 16 + unat w mod 16 = unat w"
    by (simp only: div_mult_mod_eq)
  then have "parse_nat 16 (hex4 w) = Some (unat w)"
    using unat_digits(4) [of w] by (simp add: parse_nat_def hex4_def hex_digit_value)
  then show ?thesis
    using unat_digits(2) [of w] by (simp add: u16_from_str_radix_def no_sign)
qed

end
