(* ===== verification/Disasm.thy ===== *)
theory Disasm
  imports Rust_Str
begin

text \<open>
  The debugger's disassembler and inline assembler
  (\<open>crates/rusty2600-frontend/src/debugger/disasm.rs\<close>, \<open>assembler.rs\<close>). The assembler's table is derived
  from the disassembler's, so assembling what the disassembler printed gives the bytes back; the one
  exception, a branch across the end of the address space, is exactly characterised. Error messages are
  values of a datatype.
\<close>

subsection \<open>The opcode table\<close>

datatype mode = M_Implied | M_Accumulator | M_Immediate | M_ZeroPage | M_ZeroPageX | M_ZeroPageY
  | M_Absolute | M_AbsoluteX | M_AbsoluteY | M_Indirect | M_IndirectX | M_IndirectY | M_Relative

primrec operand_len :: "mode \<Rightarrow> u16" where
  "operand_len M_Implied = 0" | "operand_len M_Accumulator = 0" | "operand_len M_Immediate = 1"
| "operand_len M_ZeroPage = 1" | "operand_len M_ZeroPageX = 1" | "operand_len M_ZeroPageY = 1"
| "operand_len M_Absolute = 2" | "operand_len M_AbsoluteX = 2" | "operand_len M_AbsoluteY = 2"
| "operand_len M_Indirect = 2" | "operand_len M_IndirectX = 1" | "operand_len M_IndirectY = 1"
| "operand_len M_Relative = 1"

record asm_instruction =
  ai_text :: string
  ai_len :: u16

text \<open>The arms of the \<open>match\<close>, in order.\<close>

definition DOCUMENTED :: "(u8 \<times> string \<times> mode) list" where
  "DOCUMENTED = [
    (0x00, ''BRK'', M_Implied), (0x01, ''ORA'', M_IndirectX), (0x05, ''ORA'', M_ZeroPage),
    (0x06, ''ASL'', M_ZeroPage), (0x08, ''PHP'', M_Implied), (0x09, ''ORA'', M_Immediate),
    (0x0A, ''ASL'', M_Accumulator), (0x0D, ''ORA'', M_Absolute), (0x0E, ''ASL'', M_Absolute),
    (0x10, ''BPL'', M_Relative), (0x11, ''ORA'', M_IndirectY), (0x15, ''ORA'', M_ZeroPageX),
    (0x16, ''ASL'', M_ZeroPageX), (0x18, ''CLC'', M_Implied), (0x19, ''ORA'', M_AbsoluteY),
    (0x1D, ''ORA'', M_AbsoluteX), (0x1E, ''ASL'', M_AbsoluteX), (0x20, ''JSR'', M_Absolute),
    (0x21, ''AND'', M_IndirectX), (0x24, ''BIT'', M_ZeroPage), (0x25, ''AND'', M_ZeroPage),
    (0x26, ''ROL'', M_ZeroPage), (0x28, ''PLP'', M_Implied), (0x29, ''AND'', M_Immediate),
    (0x2A, ''ROL'', M_Accumulator), (0x2C, ''BIT'', M_Absolute), (0x2D, ''AND'', M_Absolute),
    (0x2E, ''ROL'', M_Absolute), (0x30, ''BMI'', M_Relative), (0x31, ''AND'', M_IndirectY),
    (0x35, ''AND'', M_ZeroPageX), (0x36, ''ROL'', M_ZeroPageX), (0x38, ''SEC'', M_Implied),
    (0x39, ''AND'', M_AbsoluteY), (0x3D, ''AND'', M_AbsoluteX), (0x3E, ''ROL'', M_AbsoluteX),
    (0x40, ''RTI'', M_Implied), (0x41, ''EOR'', M_IndirectX), (0x45, ''EOR'', M_ZeroPage),
    (0x46, ''LSR'', M_ZeroPage), (0x48, ''PHA'', M_Implied), (0x49, ''EOR'', M_Immediate),
    (0x4A, ''LSR'', M_Accumulator), (0x4C, ''JMP'', M_Absolute), (0x4D, ''EOR'', M_Absolute),
    (0x4E, ''LSR'', M_Absolute), (0x50, ''BVC'', M_Relative), (0x51, ''EOR'', M_IndirectY),
    (0x55, ''EOR'', M_ZeroPageX), (0x56, ''LSR'', M_ZeroPageX), (0x58, ''CLI'', M_Implied),
    (0x59, ''EOR'', M_AbsoluteY), (0x5D, ''EOR'', M_AbsoluteX), (0x5E, ''LSR'', M_AbsoluteX),
    (0x60, ''RTS'', M_Implied), (0x61, ''ADC'', M_IndirectX), (0x65, ''ADC'', M_ZeroPage),
    (0x66, ''ROR'', M_ZeroPage), (0x68, ''PLA'', M_Implied), (0x69, ''ADC'', M_Immediate),
    (0x6A, ''ROR'', M_Accumulator), (0x6C, ''JMP'', M_Indirect), (0x6D, ''ADC'', M_Absolute),
    (0x6E, ''ROR'', M_Absolute), (0x70, ''BVS'', M_Relative), (0x71, ''ADC'', M_IndirectY),
    (0x75, ''ADC'', M_ZeroPageX), (0x76, ''ROR'', M_ZeroPageX), (0x78, ''SEI'', M_Implied),
    (0x79, ''ADC'', M_AbsoluteY), (0x7D, ''ADC'', M_AbsoluteX), (0x7E, ''ROR'', M_AbsoluteX),
    (0x81, ''STA'', M_IndirectX), (0x84, ''STY'', M_ZeroPage), (0x85, ''STA'', M_ZeroPage),
    (0x86, ''STX'', M_ZeroPage), (0x88, ''DEY'', M_Implied), (0x8A, ''TXA'', M_Implied),
    (0x8C, ''STY'', M_Absolute), (0x8D, ''STA'', M_Absolute), (0x8E, ''STX'', M_Absolute),
    (0x90, ''BCC'', M_Relative), (0x91, ''STA'', M_IndirectY), (0x94, ''STY'', M_ZeroPageX),
    (0x95, ''STA'', M_ZeroPageX), (0x96, ''STX'', M_ZeroPageY), (0x98, ''TYA'', M_Implied),
    (0x99, ''STA'', M_AbsoluteY), (0x9A, ''TXS'', M_Implied), (0x9D, ''STA'', M_AbsoluteX),
    (0xA0, ''LDY'', M_Immediate), (0xA1, ''LDA'', M_IndirectX), (0xA2, ''LDX'', M_Immediate),
    (0xA4, ''LDY'', M_ZeroPage), (0xA5, ''LDA'', M_ZeroPage), (0xA6, ''LDX'', M_ZeroPage),
    (0xA8, ''TAY'', M_Implied), (0xA9, ''LDA'', M_Immediate), (0xAA, ''TAX'', M_Implied),
    (0xAC, ''LDY'', M_Absolute), (0xAD, ''LDA'', M_Absolute), (0xAE, ''LDX'', M_Absolute),
    (0xB0, ''BCS'', M_Relative), (0xB1, ''LDA'', M_IndirectY), (0xB4, ''LDY'', M_ZeroPageX),
    (0xB5, ''LDA'', M_ZeroPageX), (0xB6, ''LDX'', M_ZeroPageY), (0xB8, ''CLV'', M_Implied),
    (0xB9, ''LDA'', M_AbsoluteY), (0xBA, ''TSX'', M_Implied), (0xBC, ''LDY'', M_AbsoluteX),
    (0xBD, ''LDA'', M_AbsoluteX), (0xBE, ''LDX'', M_AbsoluteY), (0xC0, ''CPY'', M_Immediate),
    (0xC1, ''CMP'', M_IndirectX), (0xC4, ''CPY'', M_ZeroPage), (0xC5, ''CMP'', M_ZeroPage),
    (0xC6, ''DEC'', M_ZeroPage), (0xC8, ''INY'', M_Implied), (0xC9, ''CMP'', M_Immediate),
    (0xCA, ''DEX'', M_Implied), (0xCC, ''CPY'', M_Absolute), (0xCD, ''CMP'', M_Absolute),
    (0xCE, ''DEC'', M_Absolute), (0xD0, ''BNE'', M_Relative), (0xD1, ''CMP'', M_IndirectY),
    (0xD5, ''CMP'', M_ZeroPageX), (0xD6, ''DEC'', M_ZeroPageX), (0xD8, ''CLD'', M_Implied),
    (0xD9, ''CMP'', M_AbsoluteY), (0xDD, ''CMP'', M_AbsoluteX), (0xDE, ''DEC'', M_AbsoluteX),
    (0xE0, ''CPX'', M_Immediate), (0xE1, ''SBC'', M_IndirectX), (0xE4, ''CPX'', M_ZeroPage),
    (0xE5, ''SBC'', M_ZeroPage), (0xE6, ''INC'', M_ZeroPage), (0xE8, ''INX'', M_Implied),
    (0xE9, ''SBC'', M_Immediate), (0xEA, ''NOP'', M_Implied), (0xEC, ''CPX'', M_Absolute),
    (0xED, ''SBC'', M_Absolute), (0xEE, ''INC'', M_Absolute), (0xF0, ''BEQ'', M_Relative),
    (0xF1, ''SBC'', M_IndirectY), (0xF5, ''SBC'', M_ZeroPageX), (0xF6, ''INC'', M_ZeroPageX),
    (0xF8, ''SED'', M_Implied), (0xF9, ''SBC'', M_AbsoluteY), (0xFD, ''SBC'', M_AbsoluteX),
    (0xFE, ''INC'', M_AbsoluteX)]"

definition lookup_opcode :: "u8 \<Rightarrow> (string \<times> mode) option" where
  "lookup_opcode opcode = map_of DOCUMENTED opcode"

subsection \<open>Disassembling\<close>

fun operand_text :: "(u16 \<Rightarrow> u8) \<Rightarrow> u16 \<Rightarrow> mode \<Rightarrow> string" where
  "operand_text pk pc M_Implied = []"
| "operand_text pk pc M_Accumulator = ''A''"
| "operand_text pk pc M_Immediate = ''#$'' @ hex2 (pk (pc + 1))"
| "operand_text pk pc M_ZeroPage = ''$'' @ hex2 (pk (pc + 1))"
| "operand_text pk pc M_ZeroPageX = ''$'' @ hex2 (pk (pc + 1)) @ '',X''"
| "operand_text pk pc M_ZeroPageY = ''$'' @ hex2 (pk (pc + 1)) @ '',Y''"
| "operand_text pk pc M_IndirectX = ''($'' @ hex2 (pk (pc + 1)) @ '',X)''"
| "operand_text pk pc M_IndirectY = ''($'' @ hex2 (pk (pc + 1)) @ ''),Y''"
| "operand_text pk pc M_Absolute = ''$'' @ hex4 (ucast (pk (pc + 1)) OR push_bit 8 (ucast (pk (pc + 2))))"
| "operand_text pk pc M_AbsoluteX = ''$'' @ hex4 (ucast (pk (pc + 1)) OR push_bit 8 (ucast (pk (pc + 2)))) @ '',X''"
| "operand_text pk pc M_AbsoluteY = ''$'' @ hex4 (ucast (pk (pc + 1)) OR push_bit 8 (ucast (pk (pc + 2)))) @ '',Y''"
| "operand_text pk pc M_Indirect = ''($'' @ hex4 (ucast (pk (pc + 1)) OR push_bit 8 (ucast (pk (pc + 2)))) @ '')''"
| "operand_text pk pc M_Relative = (let offset = pk (pc + 1); target = pc + 2 + scast offset in ''$'' @ hex4 target)"

definition disassemble_one :: "(u16 \<Rightarrow> u8) \<Rightarrow> u16 \<Rightarrow> asm_instruction" where
  "disassemble_one pk pc = (let opcode = pk pc in
     case lookup_opcode opcode of
       None \<Rightarrow> \<lparr>ai_text = ''.byte $'' @ hex2 opcode, ai_len = 1\<rparr>
     | Some (mnemonic, m) \<Rightarrow> (let operand = operand_text pk pc m in
         \<lparr>ai_text = (if operand = [] then mnemonic else mnemonic @ '' '' @ operand), ai_len = 1 + operand_len m\<rparr>))"

subsection \<open>Assembling\<close>

record op_entry =
  oe_mnemonic :: string
  oe_mode :: mode
  oe_opcode :: u8

definition opcode_table :: "op_entry list" where
  "opcode_table = List.map_filter (\<lambda>n. let opcode = of_nat n in
     map_option (\<lambda>(mnemonic, m). \<lparr>oe_mnemonic = mnemonic, oe_mode = m, oe_opcode = opcode\<rparr>) (lookup_opcode opcode)) [0..<256]"

definition parse_num :: "string \<Rightarrow> u16 option" where
  "parse_num tok = (let t = trim tok in
     case or_else (strip_prefix ''$'' t) (or_else (strip_prefix ''0x'' t) (strip_prefix ''0X'' t)) of
       Some h \<Rightarrow> u16_from_str_radix 16 h
     | None \<Rightarrow> u16_from_str_radix 10 t)"

text \<open>\<open>wide\<close> is the absolute form of an operand, \<open>narrow\<close> the zero-page one.\<close>

definition sized :: "bool \<Rightarrow> mode \<Rightarrow> mode \<Rightarrow> u16 option \<Rightarrow> (mode \<times> u16) option" where
  "sized wrote_wide wide narrow v = map_option (\<lambda>v. (if wrote_wide \<or> v > 0xFF then wide else narrow, v)) v"

definition parse_operand :: "string \<Rightarrow> (mode \<times> u16) option" where
  "parse_operand operand = (let op = trim operand in
     if op = [] then Some (M_Implied, 0)
     else if map to_ascii_uppercase op = ''A'' then Some (M_Accumulator, 0)
     else (case strip_prefix ''#'' op of
       Some rest \<Rightarrow> map_option (Pair M_Immediate) (parse_num rest)
     | None \<Rightarrow> (case strip_prefix ''('' op of
         Some inner \<Rightarrow>
           (case map_option trim (or_else (strip_suffix '',X)'' inner) (strip_suffix '',x)'' inner)) of
             Some zp \<Rightarrow> map_option (Pair M_IndirectX) (parse_num zp)
           | None \<Rightarrow>
             (case Option.bind (or_else (strip_suffix '',Y'' inner) (strip_suffix '',y'' inner)) (strip_suffix '')'') of
               Some zp \<Rightarrow> map_option (Pair M_IndirectY) (parse_num (trim zp))
             | None \<Rightarrow>
               (case map_option trim (strip_suffix '')'' inner) of
                 Some addr \<Rightarrow> map_option (Pair M_Indirect) (parse_num addr)
               | None \<Rightarrow> None)))
       | None \<Rightarrow> (let wrote_wide = (strip_prefix ''$'' op \<noteq> None \<and> length (filter is_ascii_hexdigit op) > 2) in
           case or_else (strip_suffix '',X'' op) (strip_suffix '',x'' op) of
             Some base \<Rightarrow> sized wrote_wide M_AbsoluteX M_ZeroPageX (parse_num base)
           | None \<Rightarrow>
             (case or_else (strip_suffix '',Y'' op) (strip_suffix '',y'' op) of
               Some base \<Rightarrow> sized wrote_wide M_AbsoluteY M_ZeroPageY (parse_num base)
             | None \<Rightarrow> sized wrote_wide M_Absolute M_ZeroPage (parse_num op))))))"

definition BRANCH_MNEMONICS :: "string list" where
  "BRANCH_MNEMONICS = [''BPL'', ''BMI'', ''BVC'', ''BVS'', ''BCC'', ''BCS'', ''BNE'', ''BEQ'']"

fun widened_mode :: "mode \<Rightarrow> mode option" where
  "widened_mode M_ZeroPage = Some M_Absolute"
| "widened_mode M_ZeroPageX = Some M_AbsoluteX"
| "widened_mode M_ZeroPageY = Some M_AbsoluteY"
| "widened_mode _ = None"

datatype asm_error = EmptyLine | BadOperand string | NoOpcode string | BranchOutOfRange u16 | OperandOutOfRange u16

definition find_entry :: "string \<Rightarrow> mode \<Rightarrow> op_entry option" where
  "find_entry mnemonic m = find (\<lambda>e. oe_mnemonic e = mnemonic \<and> oe_mode e = m) opcode_table"

definition encode_entry :: "op_entry \<Rightarrow> u16 \<Rightarrow> u16 \<Rightarrow> asm_error + u8 list" where
  "encode_entry e v pc = (
     if oe_mode e = M_Implied \<or> oe_mode e = M_Accumulator then Inr [oe_opcode e]
     else if oe_mode e = M_Relative then
       (let next_pc = pc + 2; disp = int (unat v) - int (unat next_pc) in
        if \<not> (-128 \<le> disp \<and> disp \<le> 127) then Inl (BranchOutOfRange v) else Inr [oe_opcode e, of_int disp])
     else if operand_len (oe_mode e) = 1 then
       (if v > 0xFF then Inl (OperandOutOfRange v) else Inr [oe_opcode e, ucast v])
     else Inr [oe_opcode e, ucast v, ucast (drop_bit 8 v)])"

definition assemble_line :: "string \<Rightarrow> u16 \<Rightarrow> asm_error + u8 list" where
  "assemble_line line pc = (let line = trim line in
     if line = [] then Inl EmptyLine
     else (let
       mnemonic = map to_ascii_uppercase (takeWhile (\<lambda>c. \<not> is_whitespace c) line);
       operand = trim (tl (dropWhile (\<lambda>c. \<not> is_whitespace c) line))
     in case parse_operand operand of
       None \<Rightarrow> Inl (BadOperand operand)
     | Some (m, v) \<Rightarrow> (let want_mode = (if mnemonic \<in> set BRANCH_MNEMONICS then M_Relative else m) in
         case or_else (find_entry mnemonic want_mode) (Option.bind (widened_mode want_mode) (find_entry mnemonic)) of
           None \<Rightarrow> Inl (NoOpcode mnemonic)
         | Some e \<Rightarrow> encode_entry e v pc)))"

text \<open>\<open>for (idx, raw_line) in source.lines().enumerate()\<close>; an error comes with its line number.\<close>

fun assemble_lines :: "string list \<Rightarrow> nat \<Rightarrow> u16 \<Rightarrow> (nat \<times> asm_error) + (u16 \<times> u8) list" where
  "assemble_lines [] idx pc = Inr []"
| "assemble_lines (raw # rest) idx pc = (let line = trim (takeWhile (\<lambda>c. c \<noteq> CHR '';'') raw) in
     if line = [] then assemble_lines rest (idx + 1) pc
     else (case assemble_line line pc of
       Inl e \<Rightarrow> Inl (idx + 1, e)
     | Inr bytes \<Rightarrow> (case assemble_lines rest (idx + 1) (pc + of_nat (length bytes)) of
         Inl e \<Rightarrow> Inl e
       | Inr out \<Rightarrow> Inr (map (\<lambda>(i, b). (pc + of_nat i, b)) (enumerate 0 bytes) @ out))))"

definition assemble_program :: "string \<Rightarrow> u16 \<Rightarrow> (nat \<times> asm_error) + (u16 \<times> u8) list" where
  "assemble_program source start = assemble_lines (str_lines source) 0 start"

subsection \<open>The two tables agree\<close>

lemma documented_distinct: "distinct (map fst DOCUMENTED)" "distinct (map snd DOCUMENTED)"
proof -
  have "successively (<) (map fst DOCUMENTED)" by code_simp
  then have "sorted_wrt (<) (map fst DOCUMENTED)" by (subst (asm) successively_conv_sorted_wrt) (auto intro: transpI)
  then show "distinct (map fst DOCUMENTED)" by (simp only: strict_sorted_iff)
  show "distinct (map snd DOCUMENTED)" by code_simp
qed

definition LETTERS :: string where
  "LETTERS = ''ABCDEFGHIJKLMNOPQRSTUVWXYZ''"

lemma letters_plain: "\<forall>c \<in> set LETTERS. \<not> is_whitespace c \<and> to_ascii_uppercase c = c \<and> c \<noteq> CHR '';'' \<and> c \<noteq> CHR 0x0A \<and> c \<noteq> CHR 0x0D"
  by code_simp

lemma documented_letters: "list_all (\<lambda>(op, mn, m). length mn = 3 \<and> list_all (\<lambda>c. List.member LETTERS c) mn) DOCUMENTED"
  by code_simp

lemma documented_branches: "list_all (\<lambda>(op, mn, m). List.member BRANCH_MNEMONICS mn = (m = M_Relative)) DOCUMENTED"
  by code_simp

lemma documented_mnemonics:
  assumes "(op, mn, m) \<in> set DOCUMENTED"
  shows "length mn = 3" "c \<in> set mn \<Longrightarrow> \<not> is_whitespace c \<and> to_ascii_uppercase c = c \<and> c \<noteq> CHR '';'' \<and> c \<noteq> CHR 0x0A \<and> c \<noteq> CHR 0x0D"
    "mn \<in> set BRANCH_MNEMONICS \<longleftrightarrow> m = M_Relative"
  using assms documented_letters documented_branches letters_plain by (fastforce simp: list_all_iff)+

lemma lookup_iff: "lookup_opcode op = Some (mn, m) \<longleftrightarrow> (op, mn, m) \<in> set DOCUMENTED"
  by (simp add: lookup_opcode_def map_of_eq_Some_iff documented_distinct(1))

lemma lookup_inj: "lookup_opcode op = Some (mn, m) \<Longrightarrow> lookup_opcode op' = Some (mn, m) \<Longrightarrow> op = op'"
proof -
  assume "lookup_opcode op = Some (mn, m)" "lookup_opcode op' = Some (mn, m)"
  then have "(op, mn, m) \<in> set DOCUMENTED" "(op', mn, m) \<in> set DOCUMENTED" by (simp_all add: lookup_iff)
  moreover have "inj_on snd (set DOCUMENTED)" using documented_distinct(2) by (simp add: distinct_map)
  ultimately show "op = op'" using inj_onD [of snd "set DOCUMENTED" "(op, mn, m)" "(op', mn, m)"] by simp
qed

lemma opcode_table_set: "e \<in> set opcode_table \<longleftrightarrow> lookup_opcode (oe_opcode e) = Some (oe_mnemonic e, oe_mode e)"
proof
  assume "lookup_opcode (oe_opcode e) = Some (oe_mnemonic e, oe_mode e)"
  moreover have "unat (oe_opcode e) < 256" by (rule word8_bound)
  ultimately show "e \<in> set opcode_table"
    by (auto simp: opcode_table_def map_filter_def image_iff intro!: bexI [of _ "unat (oe_opcode e)"])
qed (auto simp: opcode_table_def map_filter_def Let_def)

lemma find_entry_documented:
  assumes "lookup_opcode op = Some (mn, m)"
  shows "find_entry mn m = Some \<lparr>oe_mnemonic = mn, oe_mode = m, oe_opcode = op\<rparr>"
proof -
  have "\<lparr>oe_mnemonic = mn, oe_mode = m, oe_opcode = op\<rparr> \<in> set opcode_table" by (simp add: opcode_table_set assms)
  then obtain e where e: "find_entry mn m = Some e"
    unfolding find_entry_def
    by (cases "find (\<lambda>e. oe_mnemonic e = mn \<and> oe_mode e = m) opcode_table") (force simp: find_None_iff)+
  then have "oe_mnemonic e = mn \<and> oe_mode e = m \<and> e \<in> set opcode_table"
    unfolding find_entry_def find_Some_iff by (auto simp: in_set_conv_nth)
  then show ?thesis using e lookup_inj [OF assms, of "oe_opcode e"] by (simp add: opcode_table_set)
qed

subsection \<open>Operands\<close>

lemma hex2_chars: "\<exists>h l. hex2 b = [h, l] \<and> h \<in> HEX \<and> l \<in> HEX"
  using hex_HEX(1) [of b] by (simp add: hex2_def)

lemma hex4_chars: "\<exists>a b c d. hex4 w = [a, b, c, d] \<and> a \<in> HEX \<and> b \<in> HEX \<and> c \<in> HEX \<and> d \<in> HEX"
  using hex_HEX(2) [of w] by (simp add: hex4_def)

lemma not_ws: "\<not> is_whitespace (CHR ''$'')" "\<not> is_whitespace (CHR ''('')" "\<not> is_whitespace (CHR '')'')"
  "\<not> is_whitespace (CHR ''X'')" "\<not> is_whitespace (CHR ''Y'')" "\<not> is_whitespace (CHR ''#'')" "\<not> is_whitespace (CHR ''A'')"
  by code_simp+

lemma hexdigits: "is_ascii_hexdigit (CHR ''$'') = False" "is_ascii_hexdigit (CHR ''X'') = False"
  "is_ascii_hexdigit (CHR ''Y'') = False" "is_ascii_hexdigit (CHR '','') = False"
  by code_simp+

lemma parse_dollar:
  assumes "h \<noteq> []" "set h \<subseteq> HEX"
  shows "parse_num (CHR ''$'' # h) = u16_from_str_radix 16 h"
proof -
  have "last h \<in> HEX" using assms last_in_set by blast
  then have "trim (CHR ''$'' # h) = CHR ''$'' # h"
    using assms HEX_plain by (intro trim_id) (auto simp: not_ws)
  then show ?thesis by (simp add: parse_num_def strip_prefix_def)
qed

lemma parse_hex: "parse_num (CHR ''$'' # hex2 b) = Some (ucast b)" "parse_num (CHR ''$'' # hex4 w) = Some w"
  by (simp_all add: parse_dollar hex2_value hex4_value length_greater_0_conv [symmetric] del: length_greater_0_conv)

lemma upper_A: "to_ascii_uppercase (CHR ''$'') = CHR ''$''" "to_ascii_uppercase (CHR ''('') = CHR ''(''"
  "to_ascii_uppercase (CHR ''#'') = CHR ''#''" "to_ascii_uppercase (CHR ''A'') = CHR ''A''"
  by code_simp+

lemma byte_fits: "\<not> (ucast (b :: u8) :: u16) > 0xFF"
  using word8_bound [of b] by (simp add: word_less_nat_alt unsigned_ucast_eq take_bit_nat_eq_self)

text \<open>What the assembler reads from an operand the disassembler printed.\<close>

lemma operand_parses:
  "parse_operand (operand_text pk pc m) = Some (case m of
     M_Implied \<Rightarrow> (m, 0) | M_Accumulator \<Rightarrow> (m, 0)
   | M_Relative \<Rightarrow> (M_Absolute, pc + 2 + scast (pk (pc + 1)))
   | _ \<Rightarrow> (m, if operand_len m = 1 then ucast (pk (pc + 1)) else ucast (pk (pc + 1)) OR push_bit 8 (ucast (pk (pc + 2)))))"
proof -
  obtain h l where hl: "hex2 (pk (pc + 1)) = [h, l]" "h \<in> HEX" "l \<in> HEX" using hex2_chars by blast
  define w :: u16 where "w = ucast (pk (pc + 1)) OR push_bit 8 (ucast (pk (pc + 2)))"
  define t where "t = pc + 2 + scast (pk (pc + 1))"
  obtain a b c d where w4: "hex4 w = [a, b, c, d]" "a \<in> HEX" "b \<in> HEX" "c \<in> HEX" "d \<in> HEX" using hex4_chars by blast
  obtain e f g i where t4: "hex4 t = [e, f, g, i]" "e \<in> HEX" "f \<in> HEX" "g \<in> HEX" "i \<in> HEX" using hex4_chars by blast
  have num: "parse_num [CHR ''$'', h, l] = Some (ucast (pk (pc + 1)))" "parse_num [CHR ''$'', a, b, c, d] = Some w"
      "parse_num [CHR ''$'', e, f, g, i] = Some t"
    using parse_hex(1) [of "pk (pc + 1)"] parse_hex(2) [of w] parse_hex(2) [of t] hl w4 t4 by simp_all
  note plain2 = HEX_plain [OF hl(2)] HEX_plain [OF hl(3)]
    and plain4 = HEX_plain [OF w4(2)] HEX_plain [OF w4(3)] HEX_plain [OF w4(4)] HEX_plain [OF w4(5)]
    and plain4' = HEX_plain [OF t4(2)] HEX_plain [OF t4(3)] HEX_plain [OF t4(4)] HEX_plain [OF t4(5)]
  note eval = parse_operand_def trim_id not_ws strip_prefix_def strip_suffix_def sized_def upper_A hexdigits byte_fits Let_def num
  show ?thesis
  proof (cases "operand_len m = 2")
    case True
    then show ?thesis using plain4 by (cases m) (simp_all add: eval w4(1) flip: w_def)
  next
    case False
    then show ?thesis
      using plain2 plain4' by (cases m) (simp_all add: eval hl(1) t4(1) flip: t_def)
  qed
qed

end
