(* ===== verification/Asm_Roundtrip.thy ===== *)
theory Asm_Roundtrip
  imports Disasm
begin

text \<open>
  The round trip of the inline assembler (\<open>crates/rusty2600-frontend/src/debugger/assembler.rs\<close>) with the
  disassembler: a line the disassembler printed assembles to the bytes it was printed from, except for a
  branch across the end of the address space, which the assembler refuses.
\<close>

subsection \<open>Assembling what was disassembled\<close>

lemma HEX_ok: "c \<in> HEX \<Longrightarrow> \<not> is_whitespace c \<and> c \<noteq> CHR '';'' \<and> c \<noteq> CHR 0x0A \<and> c \<noteq> CHR 0x0D"
  using HEX_plain [of c] by simp

lemma operand_plain:
  assumes "ch \<in> set (operand_text pk pc m)"
  shows "\<not> is_whitespace ch \<and> ch \<noteq> CHR '';'' \<and> ch \<noteq> CHR 0x0A \<and> ch \<noteq> CHR 0x0D"
proof -
  let ?ok = "\<lambda>ch. \<not> is_whitespace ch \<and> ch \<noteq> CHR '';'' \<and> ch \<noteq> CHR 0x0A \<and> ch \<noteq> CHR 0x0D"
  have signs: "\<forall>ch \<in> set ''$#(),XYA''. ?ok ch" by code_simp
  have hex2: "\<forall>ch \<in> set (hex2 b). ?ok ch" for b by (intro ballI HEX_ok subsetD [OF hex_HEX(1)])
  have hex4: "\<forall>ch \<in> set (hex4 w). ?ok ch" for w by (intro ballI HEX_ok subsetD [OF hex_HEX(2)])
  have "\<forall>ch \<in> set (operand_text pk pc m). ?ok ch"
    using signs hex2 hex4 by (cases m) (simp_all add: Let_def ball_Un)
  then show ?thesis using assms by blast
qed

lemma trim_plain: "(\<And>c. c \<in> set s \<Longrightarrow> \<not> is_whitespace c) \<Longrightarrow> trim s = s"
  by (cases "s = []") (simp_all add: trim_id)

lemma space_ws: "is_whitespace (CHR '' '')"
  by code_simp

lemma drop_mnemonic:
  "(\<And>c. c \<in> set mn \<Longrightarrow> \<not> is_whitespace c) \<Longrightarrow>
   takeWhile (\<lambda>c. \<not> is_whitespace c) (mn @ CHR '' '' # op) = mn \<and> dropWhile (\<lambda>c. \<not> is_whitespace c) (mn @ CHR '' '' # op) = CHR '' '' # op"
  by (simp add: takeWhile_append2 dropWhile_append2 space_ws)

text \<open>A mnemonic and an operand, each without white space, on one line.\<close>

lemma assemble_parts:
  assumes mn: "\<And>c. c \<in> set mn \<Longrightarrow> \<not> is_whitespace c \<and> to_ascii_uppercase c = c" "mn \<noteq> []"
    and op: "\<And>c. c \<in> set op \<Longrightarrow> \<not> is_whitespace c"
  shows "assemble_line (if op = [] then mn else mn @ '' '' @ op) pc = (case parse_operand op of
      None \<Rightarrow> Inl (BadOperand op)
    | Some (m, v) \<Rightarrow> (let want_mode = (if mn \<in> set BRANCH_MNEMONICS then M_Relative else m) in
        case or_else (find_entry mn want_mode) (Option.bind (widened_mode want_mode) (find_entry mn)) of
          None \<Rightarrow> Inl (NoOpcode mn)
        | Some e \<Rightarrow> encode_entry e v pc))"
proof -
  have ws: "\<not> is_whitespace c" if "c \<in> set mn" for c using mn(1) that by blast
  have upper: "map to_ascii_uppercase mn = mn" using mn(1) by (intro map_idI) blast
  show ?thesis
  proof (cases "op = []")
    case True
    have parts: "trim mn = mn" "takeWhile (\<lambda>c. \<not> is_whitespace c) mn = mn" "dropWhile (\<lambda>c. \<not> is_whitespace c) mn = []"
      using ws by (auto simp: takeWhile_eq_all_conv dropWhile_eq_Nil_conv intro: trim_plain)
    have "assemble_line mn pc = (case parse_operand [] of
        None \<Rightarrow> Inl (BadOperand [])
      | Some (m, v) \<Rightarrow> (let want_mode = (if mn \<in> set BRANCH_MNEMONICS then M_Relative else m) in
          case or_else (find_entry mn want_mode) (Option.bind (widened_mode want_mode) (find_entry mn)) of
            None \<Rightarrow> Inl (NoOpcode mn)
          | Some e \<Rightarrow> encode_entry e v pc))"
      unfolding assemble_line_def Let_def parts upper list.sel(2) trim_Nil using mn(2) by simp
    then show ?thesis unfolding True by simp
  next
    case False
    have "trim (mn @ '' '' @ op) = mn @ '' '' @ op"
      using False mn(2) op ws by (intro trim_id) (auto simp: last_in_set)
    moreover have "trim op = op" using op by (rule trim_plain)
    moreover have "takeWhile (\<lambda>c. \<not> is_whitespace c) (mn @ CHR '' '' # op) = mn"
        "dropWhile (\<lambda>c. \<not> is_whitespace c) (mn @ CHR '' '' # op) = CHR '' '' # op"
      using drop_mnemonic ws by blast+
    ultimately show ?thesis
      unfolding assemble_line_def Let_def using False mn(2) by (simp add: upper cong: option.case_cong)
  qed
qed

lemma mnemonic_parts:
  assumes "lookup_opcode op = Some (mn, m)"
  shows "length mn = 3" "c \<in> set mn \<Longrightarrow> \<not> is_whitespace c \<and> to_ascii_uppercase c = c \<and> c \<noteq> CHR '';'' \<and> c \<noteq> CHR 0x0A \<and> c \<noteq> CHR 0x0D"
    "mn \<in> set BRANCH_MNEMONICS \<longleftrightarrow> m = M_Relative"
  using documented_mnemonics assms unfolding lookup_iff by blast+

lemma word_bytes: "ucast (ucast (b :: u8) :: u16) = b"
  "ucast (ucast (lo :: u8) OR push_bit 8 (ucast (hi :: u8)) :: u16) = lo"
  "ucast (drop_bit 8 (ucast (lo :: u8)) OR drop_bit 8 (push_bit 8 (ucast (hi :: u8))) :: u16) = hi"
  by (rule bit_word_eqI; simp add: bit_simps; (auto dest: bit_imp_le_length)?)+

text \<open>Whether a branch from \<open>pc\<close> leaves the 64 KiB address space.\<close>

definition branch_wraps :: "u16 \<Rightarrow> u8 \<Rightarrow> bool" where
  "branch_wraps pc offset \<longleftrightarrow> (let target = int (unat (pc + 2)) + sint offset in target < 0 \<or> target > 0xFFFF)"

lemma mod_wrap:
  fixes x :: int
  assumes "-65536 \<le> x" "x < 131072"
  shows "x mod 65536 = (if x < 0 then x + 65536 else if x > 65535 then x - 65536 else x)"
proof -
  consider "x < 0" | "0 \<le> x" "x \<le> 65535" | "x > 65535" by linarith
  then show ?thesis
  proof cases
    case 1
    have "x mod 65536 = (x + 65536) mod 65536" by simp
    also have "\<dots> = x + 65536" using 1 assms by (intro mod_pos_pos_trivial) simp_all
    finally show ?thesis using 1 by simp
  next
    case 2
    then show ?thesis by (simp add: mod_pos_pos_trivial)
  next
    case 3
    have "x mod 65536 = (x - 65536) mod 65536" by simp
    also have "\<dots> = x - 65536" using 3 assms by (intro mod_pos_pos_trivial) simp_all
    finally show ?thesis using 3 by simp
  qed
qed

lemma encode_branch:
  "encode_entry \<lparr>oe_mnemonic = mn, oe_mode = M_Relative, oe_opcode = op\<rparr> (pc + 2 + scast offset) pc =
     (if branch_wraps pc offset then Inl (BranchOutOfRange (pc + 2 + scast offset)) else Inr [op, offset])"
proof -
  define n where "n = int (unat (pc + 2))"
  have n: "0 \<le> n" "n < 65536" using word16_bound [of "pc + 2"] by (simp_all only: n_def)
  have off: "-128 \<le> sint offset" "sint offset \<le> 127"
    using sint_greater_eq [of offset] sint_less [of offset] by simp_all
  have "int (unat (pc + 2 + scast offset)) = (n + sint offset) mod 65536"
  proof -
    have sum: "pc + 2 + scast offset = of_int (n + sint offset)"
      by (simp add: n_def)
    show ?thesis unfolding sum by (simp add: uint_word_of_int del: of_int_add)
  qed
  then have disp: "int (unat (pc + 2 + scast offset)) - n = (if n + sint offset < 0 then sint offset + 65536
      else if n + sint offset > 65535 then sint offset - 65536 else sint offset)"
    using mod_wrap [of "n + sint offset"] n off by auto
  show ?thesis
    unfolding encode_entry_def branch_wraps_def Let_def n_def [symmetric] disp
    using off by (auto simp: of_int_sint)
qed

text \<open>
  C21: A line printed by the disassembler for a documented opcode assembles, at the same address, to
exactly the bytes it was printed from; only a branch whose target lies across the end of the 64 KiB
address space is refused, with the target in the error.\<close>

theorem assemble_disassembled:
  assumes "lookup_opcode (pk pc) = Some (mn, m)"
  shows "assemble_line (ai_text (disassemble_one pk pc)) pc =
    (if m = M_Relative \<and> branch_wraps pc (pk (pc + 1)) then Inl (BranchOutOfRange (pc + 2 + scast (pk (pc + 1))))
     else Inr (map (\<lambda>i. pk (pc + of_nat i)) [0..<unat (ai_len (disassemble_one pk pc))]))"
proof -
  note mn = mnemonic_parts [OF assms]
  have printed: "ai_text (disassemble_one pk pc) = (let operand = operand_text pk pc m in
      if operand = [] then mn else mn @ '' '' @ operand)" and len: "ai_len (disassemble_one pk pc) = 1 + operand_len m"
    using assms by (simp_all add: disassemble_one_def Let_def)
  have "mn \<noteq> []" using mn(1) by auto
  note parts = assemble_parts [of mn "operand_text pk pc m" pc, OF _ this]
  have line: "assemble_line (ai_text (disassemble_one pk pc)) pc = (case parse_operand (operand_text pk pc m) of
      None \<Rightarrow> Inl (BadOperand (operand_text pk pc m))
    | Some (m', v) \<Rightarrow> (let want_mode = (if m = M_Relative then M_Relative else m') in
        case or_else (find_entry mn want_mode) (Option.bind (widened_mode want_mode) (find_entry mn)) of
          None \<Rightarrow> Inl (NoOpcode mn)
        | Some e \<Rightarrow> encode_entry e v pc))"
    unfolding printed Let_def mn(3) [symmetric]
    by (rule parts [unfolded Let_def]) (use mn(2) operand_plain in blast)+
  have entry: "find_entry mn m = Some \<lparr>oe_mnemonic = mn, oe_mode = m, oe_opcode = pk pc\<rparr>"
    using assms by (rule find_entry_documented)
  show ?thesis
  proof (cases "m = M_Relative")
    case True
    then show ?thesis
      unfolding line operand_parses len using entry by (simp add: or_else_def encode_branch upt_rec)
  next
    case False
    then show ?thesis
      unfolding line operand_parses len using entry byte_fits [of "pk (pc + 1)"]
      by (cases m) (simp_all add: or_else_def encode_entry_def word_bytes upt_rec)
  qed
qed

theorem assemble_disassembled_witness:
  "lookup_opcode 0xB1 = Some (''LDA'', M_IndirectY) \<and>
   assemble_line (ai_text (disassemble_one (\<lambda>a. if a = 0xF000 then 0xB1 else 0x80) 0xF000)) 0xF000 = Inr [0xB1, 0x80]"
proof -
  have look: "lookup_opcode 0xB1 = Some (''LDA'', M_IndirectY)" by code_simp
  then have "ai_len (disassemble_one (\<lambda>a. if a = 0xF000 then 0xB1 else 0x80) 0xF000) = 2"
    by (simp add: disassemble_one_def Let_def)
  then show ?thesis
    using assemble_disassembled [of "\<lambda>a. if a = 0xF000 then 0xB1 else 0x80" "0xF000" "''LDA''" M_IndirectY] look
    by (simp add: upt_rec)
qed

end
