(* ===== verification/Expr.thy ===== *)
theory Expr
  imports Rust_Str
begin

text \<open>
  The expressions of the debugger's watches and conditional breakpoints
  (\<open>crates/rusty2600-frontend/src/debugger/expr.rs\<close>). A \<open>Result\<close> is a sum with the error on the left;
  \<open>i64\<close> values are integers within its range.
\<close>

subsection \<open>Operands\<close>

record eval_context =
  ctx_a :: u8
  ctx_x :: u8
  ctx_y :: u8
  ctx_s :: u8
  ctx_pc :: u16
  ctx_scanline :: u16
  ctx_color_clock :: u16
  ctx_frame :: u64
  ctx_mem :: "u8 list"
  ctx_mem_base :: u16

definition ctx_peek :: "eval_context \<Rightarrow> u16 \<Rightarrow> u8" where
  "ctx_peek ctx addr = (if addr < ctx_mem_base ctx then 0
     else (let i = unat (addr - ctx_mem_base ctx) in if i < length (ctx_mem ctx) then ctx_mem ctx ! i else 0))"

datatype expr_error = Empty | NoOperator | BadExprOperand

definition parse_number :: "string \<Rightarrow> expr_error + int" where
  "parse_number s = (let s = trim s in
     case (case strip_prefix ''$'' s of Some h \<Rightarrow> i64_from_str_radix 16 h | None \<Rightarrow> i64_from_str_radix 10 s) of
       Some i \<Rightarrow> Inr i | None \<Rightarrow> Inl BadExprOperand)"

definition eval_register :: "string \<Rightarrow> eval_context \<Rightarrow> int option" where
  "eval_register tok ctx = (
     if tok = ''a'' then Some (uint (ctx_a ctx)) else if tok = ''x'' then Some (uint (ctx_x ctx))
     else if tok = ''y'' then Some (uint (ctx_y ctx)) else if tok = ''s'' then Some (uint (ctx_s ctx))
     else if tok = ''pc'' then Some (uint (ctx_pc ctx)) else if tok = ''scanline'' then Some (uint (ctx_scanline ctx))
     else if tok = ''color_clock'' then Some (uint (ctx_color_clock ctx)) else None)"

definition eval_operand :: "string \<Rightarrow> eval_context \<Rightarrow> expr_error + int" where
  "eval_operand tok ctx = (let tok = trim tok in
     case Option.bind (strip_prefix ''['' tok) (strip_suffix '']'') of
       Some inner \<Rightarrow> (case parse_number inner of
         Inl e \<Rightarrow> Inl e
       | Inr n \<Rightarrow> if 0 \<le> n \<and> n < 2 ^ 16 then Inr (uint (ctx_peek ctx (of_int n))) else Inl BadExprOperand)
     | None \<Rightarrow> (case eval_register tok ctx of
         Some v \<Rightarrow> Inr v
       | None \<Rightarrow> (if tok = ''frame'' then (if uint (ctx_frame ctx) < 2 ^ 63 then Inr (uint (ctx_frame ctx)) else Inl BadExprOperand)
                  else parse_number tok)))"

subsection \<open>Comparisons\<close>

text \<open>In the order they are looked for.\<close>

definition OPERATORS :: "string list" where
  "OPERATORS = [''=='', ''!='', ''<='', ''>='', ''<'', ''>'']"

definition apply_operator :: "string \<Rightarrow> int \<Rightarrow> int \<Rightarrow> bool" where
  "apply_operator op lhs rhs = (if op = ''=='' then lhs = rhs else if op = ''!='' then lhs \<noteq> rhs
     else if op = ''<='' then lhs \<le> rhs else if op = ''>='' then lhs \<ge> rhs else if op = ''<'' then lhs < rhs else lhs > rhs)"

fun find_operator :: "string list \<Rightarrow> string \<Rightarrow> (string \<times> nat) option" where
  "find_operator [] cmp = None"
| "find_operator (op # ops) cmp = (case find_str op cmp of Some idx \<Rightarrow> Some (op, idx) | None \<Rightarrow> find_operator ops cmp)"

definition eval_comparison :: "string \<Rightarrow> eval_context \<Rightarrow> expr_error + bool" where
  "eval_comparison cmp ctx = (let cmp = trim cmp in
     if cmp = [] then Inl Empty
     else (case find_operator OPERATORS cmp of
       None \<Rightarrow> Inl NoOperator
     | Some (op, idx) \<Rightarrow> (case eval_operand (take idx cmp) ctx of
         Inl e \<Rightarrow> Inl e
       | Inr lhs \<Rightarrow> (case eval_operand (drop (idx + length op) cmp) ctx of
           Inl e \<Rightarrow> Inl e
         | Inr rhs \<Rightarrow> Inr (apply_operator op lhs rhs)))))"

subsection \<open>Expressions\<close>

text \<open>The inner loop leaves on the first comparison that is false, the outer one on the first group that is true.\<close>

fun eval_all :: "string list \<Rightarrow> eval_context \<Rightarrow> expr_error + bool" where
  "eval_all [] ctx = Inr True"
| "eval_all (p # ps) ctx = (case eval_comparison p ctx of
     Inl e \<Rightarrow> Inl e | Inr False \<Rightarrow> Inr False | Inr True \<Rightarrow> eval_all ps ctx)"

fun eval_any :: "string list \<Rightarrow> eval_context \<Rightarrow> expr_error + bool" where
  "eval_any [] ctx = Inr False"
| "eval_any (p # ps) ctx = (case eval_all (split_str ''&&'' p) ctx of
     Inl e \<Rightarrow> Inl e | Inr True \<Rightarrow> Inr True | Inr False \<Rightarrow> eval_any ps ctx)"

definition evaluate :: "string \<Rightarrow> eval_context \<Rightarrow> expr_error + bool" where
  "evaluate expr ctx = (if trim expr = [] then Inl Empty else eval_any (split_str ''||'' expr) ctx)"

subsection \<open>Meaning\<close>

definition holds :: "eval_context \<Rightarrow> string \<Rightarrow> bool" where
  "holds ctx cmp \<longleftrightarrow> eval_comparison cmp ctx = Inr True"

definition fails :: "eval_context \<Rightarrow> string \<Rightarrow> bool" where
  "fails ctx cmp \<longleftrightarrow> (\<exists>e. eval_comparison cmp ctx = Inl e)"

lemma eval_all_true: "eval_all ps ctx = Inr True \<longleftrightarrow> list_all (holds ctx) ps"
  by (induction ps) (auto simp: holds_def split: sum.split bool.split)

text \<open>A group fails with the error of its first comparison that is not simply true, if that one fails.\<close>

lemma eval_all_error:
  "eval_all ps ctx = Inl e \<longleftrightarrow> (case dropWhile (holds ctx) ps of [] \<Rightarrow> False | p # _ \<Rightarrow> eval_comparison p ctx = Inl e)"
  by (induction ps) (auto simp: holds_def split: sum.split bool.split)

lemma eval_any_clean:
  "list_all (\<lambda>p. list_all (\<lambda>c. \<not> fails ctx c) (split_str ''&&'' p)) ps \<Longrightarrow>
   eval_any ps ctx = Inr (list_ex (\<lambda>p. list_all (holds ctx) (split_str ''&&'' p)) ps)"
proof (induction ps)
  case (Cons p ps)
  have clean: "list_all (\<lambda>c. \<not> fails ctx c) qs \<Longrightarrow> eval_all qs ctx = Inr (list_all (holds ctx) qs)" for qs
    by (induction qs) (auto simp: holds_def fails_def split: sum.split bool.split)
  show ?case using Cons clean [of "split_str ''&&'' p"]
    by (cases "list_all (holds ctx) (split_str ''&&'' p)") simp_all
qed simp

text \<open>
  C25: an expression none of whose comparisons is malformed always has a value, that of the grammar:
  true exactly when some \<open>||\<close>-separated group has all of its \<open>&&\<close>-separated comparisons true. The
  early exits of the two loops are not visible.
\<close>

theorem evaluate_meaning:
  assumes "trim expr \<noteq> []"
    and "list_all (\<lambda>p. list_all (\<lambda>c. \<not> fails ctx c) (split_str ''&&'' p)) (split_str ''||'' expr)"
  shows "evaluate expr ctx = Inr (list_ex (\<lambda>p. list_all (holds ctx) (split_str ''&&'' p)) (split_str ''||'' expr))"
  unfolding evaluate_def using assms by (simp add: eval_any_clean)

definition demo_context :: eval_context where
  "demo_context = \<lparr>ctx_a = 0x42, ctx_x = 0, ctx_y = 0, ctx_s = 0xFF, ctx_pc = 0xF000, ctx_scanline = 40, ctx_color_clock = 0,
     ctx_frame = 3, ctx_mem = replicate 127 0 @ [9], ctx_mem_base = 0x80\<rparr>"

lemma evaluate_meaning_witness:
  "evaluate ''a == 1 || a == $42 && [$FF] > 8'' demo_context = Inr True"
proof -
  have parts: "split_str ''||'' ''a == 1 || a == $42 && [$FF] > 8'' = [''a == 1 '', '' a == $42 && [$FF] > 8'']"
    "split_str ''&&'' ''a == 1 '' = [''a == 1 '']" "split_str ''&&'' '' a == $42 && [$FF] > 8'' = ['' a == $42 '', '' [$FF] > 8'']"
    by code_simp+
  have vals: "eval_comparison ''a == 1 '' demo_context = Inr False" "eval_comparison '' a == $42 '' demo_context = Inr True"
    "eval_comparison '' [$FF] > 8'' demo_context = Inr True"
    by code_simp+
  have "trim ''a == 1 || a == $42 && [$FF] > 8'' \<noteq> []" by code_simp
  from evaluate_meaning [OF this, of demo_context] show ?thesis
    by (simp add: parts vals fails_def holds_def)
qed

text \<open>
  a true group ends the evaluation: what follows it is not read, not even to find it malformed.\<close>

theorem evaluate_shortcut:
  assumes "trim expr \<noteq> []" "split_str ''||'' expr = p # rest" "list_all (holds ctx) (split_str ''&&'' p)"
  shows "evaluate expr ctx = Inr True"
proof -
  have "eval_all (split_str ''&&'' p) ctx = Inr True" using assms(3) by (simp add: eval_all_true)
  then show ?thesis using assms(1,2) by (simp add: evaluate_def)
qed

lemma evaluate_shortcut_witness: "evaluate ''a == $42 || nonsense'' demo_context = Inr True"
proof (rule evaluate_shortcut)
  show "trim ''a == $42 || nonsense'' \<noteq> []" by code_simp
  show "split_str ''||'' ''a == $42 || nonsense'' = [''a == $42 '', '' nonsense'']" by code_simp
  show "list_all (holds demo_context) (split_str ''&&'' ''a == $42 '')" by code_simp
qed

end
