(* ===== verification/Debugger.thy ===== *)
theory Debugger
  imports Emu_Core Disasm Expr
begin

text \<open>
  The debugger: its state and the actions of its panels
  (\<open>crates/rusty2600-frontend/src/debugger/mod.rs\<close> and the panels beside it) and the handlers of
  \<open>app.rs\<close> that act on the emulation core: the snapshot of the chips, single steps, Continue with
  breakpoints and watches, pokes, and the movie editor's jump to a frame. The status register's text,
  formatted by a library, is left as the register.
\<close>

subsection \<open>The call stack\<close>

definition JSR_OPCODE :: u8 where "JSR_OPCODE = 0x20"
definition RTS_OPCODE :: u8 where "RTS_OPCODE = 0x60"

definition track_call :: "u16 list \<Rightarrow> u8 \<Rightarrow> u16 \<Rightarrow> u16 list" where
  "track_call call_stack opcode pc_before = (if opcode = JSR_OPCODE then call_stack @ [pc_before + 3]
     else if opcode = RTS_OPCODE then butlast call_stack else call_stack)"

subsection \<open>The trace\<close>

definition RING_CAPACITY :: nat where "RING_CAPACITY = 4096"
definition TAIL_ROWS :: nat where "TAIL_ROWS = 256"

record trace_entry =
  te_pc :: u16
  te_a :: u8
  te_x :: u8
  te_y :: u8
  te_s :: u8
  te_text :: string

record trace_state =
  tr_enabled :: bool
  tr_ring :: "trace_entry list"

definition track_trace :: "trace_state \<Rightarrow> trace_entry \<Rightarrow> trace_state" where
  "track_trace st e = (if \<not> tr_enabled st then st
     else (let ring = (if length (tr_ring st) \<ge> RING_CAPACITY then tl (tr_ring st) else tr_ring st)
       in st\<lparr>tr_ring := ring @ [e]\<rparr>))"

definition fmt_rec :: "trace_entry \<Rightarrow> string" where
  "fmt_rec r = ''$'' @ hex4 (te_pc r) @ ''  A:'' @ hex2 (te_a r) @ '' X:'' @ hex2 (te_x r) @ '' Y:'' @ hex2 (te_y r) @
     '' S:'' @ hex2 (te_s r) @ ''  '' @ te_text r"

definition trace_rows :: "trace_state \<Rightarrow> string list" where
  "trace_rows st = map fmt_rec (drop (length (tr_ring st) - TAIL_ROWS) (tr_ring st))"

definition export_text :: "trace_entry list \<Rightarrow> string" where
  "export_text ring = concat (map (\<lambda>r. fmt_rec r @ [CHR 0x0A]) ring)"

subsection \<open>The write log's panels\<close>

text \<open>\<open>BTreeMap\<close>: the addresses in ascending order with their counts (a count is below \<open>MAX_EVENTS\<close>).\<close>

definition tally_writes :: "write_event list \<Rightarrow> u16 \<Rightarrow> u32 option" where
  "tally_writes events = fold (\<lambda>ev counts. counts(we_addr ev \<mapsto> (case counts (we_addr ev) of None \<Rightarrow> 0 | Some n \<Rightarrow> n) + 1)) events Map.empty"

definition TRACKED :: "(u16 \<times> string) list" where
  "TRACKED = [(0x06, ''COLUP0''), (0x07, ''COLUP1''), (0x08, ''COLUPF''), (0x09, ''COLUBK''), (0x1B, ''GRP0''), (0x1C, ''GRP1''),
     (0x2A, ''HMOVE''), (0x10, ''RESP0'')]"

text \<open>A row: scanline, colour clock and the register's label and value.\<close>

definition event_rows :: "write_event list \<Rightarrow> (u16 \<times> u16 \<times> string) list" where
  "event_rows events = List.map_filter (\<lambda>ev. map_option (\<lambda>label. (we_scanline ev, we_color_clock ev, label @ '' = $'' @ hex2 (we_value ev)))
     (map_of TRACKED (we_addr ev AND 0x3F))) events"

subsection \<open>Comparing memory\<close>

definition diff :: "u8 list \<Rightarrow> u8 list \<Rightarrow> (nat \<times> u8 \<times> u8) list" where
  "diff baseline current = filter (\<lambda>(i, a, b). a \<noteq> b) (enumerate 0 (zip baseline current))"

subsection \<open>The objects' ruler\<close>

definition nusiz_copies_label :: "u8 \<Rightarrow> string" where
  "nusiz_copies_label nusiz = [''one copy'', ''two copies (close)'', ''two copies (medium)'', ''three copies (close)'',
     ''two copies (wide)'', ''double-size'', ''three copies (medium)'', ''quad-size''] ! unat (nusiz AND 0x07)"

definition render_ruler :: "u8 list \<Rightarrow> string" where
  "render_ruler pos = fold (\<lambda>(i, p) line. line[min (unat p) 159 := hd ([''P0'', ''P1'', ''M0'', ''M1'', ''BL''] ! i)])
     (enumerate 0 pos) (replicate 160 (CHR ''.''))"

subsection \<open>The debugger's state\<close>

record watch_entry =
  wt_expr :: string
  wt_break_when_true :: bool

record debugger_state =
  db_breakpoints :: "u16 set"
  db_breakpoint_input :: string
  db_memory_base :: u16
  db_memory_base_input :: string
  db_watches :: "watch_entry list"
  db_watch_input :: string
  db_call_stack :: "u16 list"
  db_memory_compare_baseline :: "u8 list option"
  db_trace :: trace_state

definition debugger_state_default :: debugger_state where
  "debugger_state_default = \<lparr>db_breakpoints = {}, db_breakpoint_input = [], db_memory_base = 0, db_memory_base_input = [],
     db_watches = [], db_watch_input = [], db_call_stack = [], db_memory_compare_baseline = None,
     db_trace = \<lparr>tr_enabled = False, tr_ring = []\<rparr>\<rparr>"

definition hex_address :: "string \<Rightarrow> u16 option" where
  "hex_address s = u16_from_str_radix 16 (dropWhile (\<lambda>c. c = CHR ''$'') s)"

definition commit_breakpoint_input :: "debugger_state \<Rightarrow> debugger_state" where
  "commit_breakpoint_input d = (case hex_address (db_breakpoint_input d) of
     Some addr \<Rightarrow> d\<lparr>db_breakpoints := insert addr (db_breakpoints d), db_breakpoint_input := []\<rparr> | None \<Rightarrow> d)"

definition commit_memory_base_input :: "debugger_state \<Rightarrow> debugger_state" where
  "commit_memory_base_input d = (case hex_address (db_memory_base_input d) of
     Some addr \<Rightarrow> d\<lparr>db_memory_base := addr\<rparr> | None \<Rightarrow> d)"

definition commit_watch_input :: "debugger_state \<Rightarrow> debugger_state" where
  "commit_watch_input d = (let text = trim (db_watch_input d) in
     if text = [] then d
     else d\<lparr>db_watches := db_watches d @ [\<lparr>wt_expr = text, wt_break_when_true = False\<rparr>], db_watch_input := []\<rparr>)"

definition any_breakpoint_watch_triggered :: "debugger_state \<Rightarrow> eval_context \<Rightarrow> bool" where
  "any_breakpoint_watch_triggered d ctx = list_ex (\<lambda>w. evaluate (wt_expr w) ctx = Inr True) (filter wt_break_when_true (db_watches d))"

subsection \<open>The snapshot of the chips\<close>

definition MEMORY_VIEW_LEN :: u16 where "MEMORY_VIEW_LEN = 256"

record cpu_snapshot =
  cs_a :: u8
  cs_x :: u8
  cs_y :: u8
  cs_s :: u8
  cs_pc :: u16
  cs_p :: status

record tia_snapshot =
  ts_scanline :: u16
  ts_color_clock :: u16
  ts_pos :: "u8 list"
  ts_colu :: "u8 list"
  ts_collisions :: string
  ts_nusiz :: "u8 list"
  ts_hm :: "u8 list"
  ts_refp :: "bool list"

record riot_snapshot =
  rs_timer_value :: u8
  rs_timer_prescale :: string
  rs_ports :: "u8 list"
  rs_ddr :: "u8 list"

record debug_snapshot =
  ds_cpu :: cpu_snapshot
  ds_tia :: tia_snapshot
  ds_riot :: riot_snapshot
  ds_disassembly_at_pc :: "(u16 \<times> string) list"
  ds_memory_view :: "u8 list"
  ds_riot_ram :: "u8 list"
  ds_frame :: u64
  ds_tia_writes :: "write_event list"

definition snapshot_context :: "debug_snapshot \<Rightarrow> eval_context" where
  "snapshot_context d = \<lparr>ctx_a = cs_a (ds_cpu d), ctx_x = cs_x (ds_cpu d), ctx_y = cs_y (ds_cpu d), ctx_s = cs_s (ds_cpu d),
     ctx_pc = cs_pc (ds_cpu d), ctx_scanline = ts_scanline (ds_tia d), ctx_color_clock = ts_color_clock (ds_tia d),
     ctx_frame = ds_frame d, ctx_mem = ds_riot_ram d, ctx_mem_base = 0x0080\<rparr>"

primrec prescale_debug :: "prescale \<Rightarrow> string" where
  "prescale_debug By1 = ''By1''" | "prescale_debug By8 = ''By8''" | "prescale_debug By64 = ''By64''" | "prescale_debug By1024 = ''By1024''"

definition collisions_text :: "collisions \<Rightarrow> string" where
  "collisions_text c = ''CXM0P:'' @ hex2 (cxm0p c) @ '' CXM1P:'' @ hex2 (cxm1p c) @ '' CXP0FB:'' @ hex2 (cxp0fb c) @
     '' CXP1FB:'' @ hex2 (cxp1fb c) @ '' CXM0FB:'' @ hex2 (cxm0fb c) @ '' CXM1FB:'' @ hex2 (cxm1fb c) @
     '' CXBLPF:'' @ hex2 (cxblpf c) @ '' CXPPMM:'' @ hex2 (cxppmm c)"

text \<open>At most 16 instructions of the bytes read ahead; \<open>offset\<close> is where the next one starts.\<close>

fun disassemble_ahead :: "nat \<Rightarrow> u8 list \<Rightarrow> u16 \<Rightarrow> u16 \<Rightarrow> (u16 \<times> string) list" where
  "disassemble_ahead 0 bytes base offset = []"
| "disassemble_ahead (Suc n) bytes base offset =
     (if unat offset \<ge> length bytes then []
      else (let addr = base + offset;
          inst = disassemble_one (\<lambda>a. let idx = unat (a - base) in if idx < length bytes then bytes ! idx else 0) addr
        in (addr, ai_text inst) # disassemble_ahead n bytes base (offset + ai_len inst)))"

definition build_debug_snapshot ::
  "'f fops \<Rightarrow> ('f, 'g, 'w) emu_core \<Rightarrow> u16 \<Rightarrow> (debug_snapshot \<times> ('f, 'g, 'w) emu_core) option" where
  "build_debug_snapshot F core memory_base = (let s = ec_system core; c = sys_cpu s; b = sys_bus s; t = b_tia b; r = b_riot b in do {
     disasm_bytes \<leftarrow> peek_range F cart_ops (cpu_pc c) 48 b;
     memory_view \<leftarrow> peek_range F cart_ops memory_base MEMORY_VIEW_LEN b;
     riot_ram_bytes \<leftarrow> peek_range F cart_ops 0x0080 128 b;
     let log = (b_write_log b)\<lparr>wl_enabled := True\<rparr>;
     Some (\<lparr>ds_cpu = \<lparr>cs_a = cpu_a c, cs_x = cpu_x c, cs_y = cpu_y c, cs_s = cpu_s c, cs_pc = cpu_pc c, cs_p = cpu_p c\<rparr>,
         ds_tia = \<lparr>ts_scanline = tia_scanline t, ts_color_clock = tia_color_clock t, ts_pos = ob_pos (tia_objects t),
           ts_colu = ob_colu (tia_objects t), ts_collisions = collisions_text (tia_collisions t),
           ts_nusiz = ob_nusiz (tia_objects t), ts_hm = ob_hm (tia_objects t), ts_refp = ob_refp (tia_objects t)\<rparr>,
         ds_riot = \<lparr>rs_timer_value = tm_value (riot_timer r), rs_timer_prescale = prescale_debug (tm_prescale (riot_timer r)),
           rs_ports = riot_ports r, rs_ddr = riot_ddr r\<rparr>,
         ds_disassembly_at_pc = disassemble_ahead 16 disasm_bytes (cpu_pc c) 0, ds_memory_view = memory_view,
         ds_riot_ram = riot_ram_bytes, ds_frame = ec_frame_count core, ds_tia_writes = wl_events log\<rparr>,
       core\<lparr>ec_system := s\<lparr>sys_bus := b\<lparr>b_write_log := log_clear log\<rparr>\<rparr>\<rparr>) })"

subsection \<open>Stepping\<close>

definition debug_step ::
  "'f fops \<Rightarrow> debugger_state \<Rightarrow> ('f, 'g, 'w) emu_core \<Rightarrow> (debugger_state \<times> ('f, 'g, 'w) emu_core) option" where
  "debug_step F d core = (let core = core\<lparr>ec_paused := True\<rparr>; s = ec_system core; c = sys_cpu s in do {
     opcode \<leftarrow> peek F cart_ops (cpu_pc c) (sys_bus s);
     (n, s) \<leftarrow> step_instruction F cart_ops s;
     let core = core\<lparr>ec_system := s\<rparr>;
     let d = d\<lparr>db_call_stack := track_call (db_call_stack d) opcode (cpu_pc c)\<rparr>;
     (if tr_enabled (db_trace d) then do {
        b0 \<leftarrow> peek F cart_ops (cpu_pc c) (sys_bus s);
        b1 \<leftarrow> peek F cart_ops (cpu_pc c + 1) (sys_bus s);
        b2 \<leftarrow> peek F cart_ops (cpu_pc c + 2) (sys_bus s);
        let text = ai_text (disassemble_one (\<lambda>a. if a = cpu_pc c then b0 else if a = cpu_pc c + 1 then b1 else b2) (cpu_pc c));
        Some (d\<lparr>db_trace := track_trace (db_trace d) \<lparr>te_pc = cpu_pc c, te_a = cpu_a c, te_x = cpu_x c, te_y = cpu_y c,
          te_s = cpu_s c, te_text = text\<rparr>\<rparr>, core) }
      else Some (d, core)) })"

definition MAX_STEPS :: nat where "MAX_STEPS = 1000000"

definition live_context :: "('f, cartridge) system \<Rightarrow> u64 \<Rightarrow> eval_context" where
  "live_context s frame = \<lparr>ctx_a = cpu_a (sys_cpu s), ctx_x = cpu_x (sys_cpu s), ctx_y = cpu_y (sys_cpu s), ctx_s = cpu_s (sys_cpu s),
     ctx_pc = cpu_pc (sys_cpu s), ctx_scanline = tia_scanline (b_tia (sys_bus s)), ctx_color_clock = tia_color_clock (b_tia (sys_bus s)),
     ctx_frame = frame, ctx_mem = riot_ram (b_riot (sys_bus s)), ctx_mem_base = 0x0080\<rparr>"

definition halts :: "debugger_state \<Rightarrow> u64 \<Rightarrow> ('f, cartridge) system \<Rightarrow> bool" where
  "halts d frame s \<longleftrightarrow> cpu_pc (sys_cpu s) \<in> db_breakpoints d \<or> any_breakpoint_watch_triggered d (live_context s frame)"

fun continue_loop ::
  "'f fops \<Rightarrow> debugger_state \<Rightarrow> u64 \<Rightarrow> nat \<Rightarrow> ('f, cartridge) system \<Rightarrow> ('f, cartridge) system option" where
  "continue_loop F d frame 0 s = Some s"
| "continue_loop F d frame (Suc k) s = do {
     (n, s) \<leftarrow> step_instruction F cart_ops s;
     (if halts d frame s then Some s else continue_loop F d frame k s) }"

definition debug_continue ::
  "'f fops \<Rightarrow> debugger_state \<Rightarrow> ('f, 'g, 'w) emu_core \<Rightarrow> ('f, 'g, 'w) emu_core option" where
  "debug_continue F d core = do {
     s \<leftarrow> continue_loop F d (ec_frame_count core) MAX_STEPS (ec_system core);
     Some (core\<lparr>ec_paused := True, ec_system := s\<rparr>) }"

fun poke_all :: "'f fops \<Rightarrow> (u16 \<times> u8) list \<Rightarrow> ('f, cartridge) bus \<Rightarrow> ('f, cartridge) bus option" where
  "poke_all F [] b = Some b"
| "poke_all F ((addr, v) # ws) b = do { b \<leftarrow> cpu_write F cart_ops addr v b; poke_all F ws b }"

definition debug_poke :: "'f fops \<Rightarrow> (u16 \<times> u8) list \<Rightarrow> ('f, 'g, 'w) emu_core \<Rightarrow> ('f, 'g, 'w) emu_core option" where
  "debug_poke F writes core = do {
     b \<leftarrow> poke_all F writes (sys_bus (ec_system core));
     Some (core\<lparr>ec_system := (ec_system core)\<lparr>sys_bus := b\<rparr>\<rparr>) }"

text \<open>The loop ends: each pass drops a snapshot.\<close>

function jump_to_frame :: "('f, 'w) state_codec \<Rightarrow> nat \<Rightarrow> ('f, 'g, 'w) emu_core \<Rightarrow> ('f, 'g, 'w) emu_core" where
  "jump_to_frame K target core =
     (if ec_frame_count core > of_nat target \<and> ec_snapshots core \<noteq> [] then
        (let core = rewind K core in
         jump_to_frame K target (core\<lparr>ec_frame_count := (if ec_frame_count core = 0 then 0 else ec_frame_count core - 1)\<rparr>))
      else core)"
  by pat_completeness auto
termination
  by (relation "measure (\<lambda>(K, target, core). length (ec_snapshots core))") (auto simp: rewind_snapshots)

declare jump_to_frame.simps [simp del]

end
