(* ===== verification/Debugger_Props.thy ===== *)
theory Debugger_Props
  imports Debugger
begin

text \<open>
  What the debugger promises: the snapshot it draws is of the running machine and leaves no trace on it,
  Continue stops where the user asked and nowhere before, and the movie editor's jump lands on the frame
  it was asked for as long as nothing but played frames counts.
\<close>

subsection \<open>Reading RAM through the debugger\<close>

context vcs_bus
begin

lemma read_ram_kept:
  assumes ok: "bus_ok ok b" and a: "a AND 0x1280 = 0x0080"
  shows "wpo (cpu_read F C a b) (\<lambda>(v, b'). riot_ram (b_riot b') = riot_ram (b_riot b))"
proof -
  have len: "length (riot_ram (b_riot b)) = 128"
    using ok by (simp add: bus_ok_def riot_ok_def)
  show ?thesis
    unfolding cpu_read_def read_console_def riot_read_def Let_def
    using ok len by (auto simp: ram_address [OF a] bus_ok_def split: option.split
        intro!: wpo_mono [OF snoop_read_ok])
qed

lemma peek_from_ram:
  "bus_ok ok b \<Longrightarrow> i + n \<le> 128 \<Longrightarrow>
   wpo (peek_from F C (0x80 + of_nat i) n b) (\<lambda>vs. vs = take n (drop i (riot_ram (b_riot b))))"
proof (induction n arbitrary: i b)
  case (Suc n)
  have "length (riot_ram (b_riot b)) = 128" using Suc.prems(1) by (simp add: bus_ok_def riot_ok_def)
  then have split: "take (Suc n) (drop i (riot_ram (b_riot b))) = riot_ram (b_riot b) ! i # take n (drop (Suc i) (riot_ram (b_riot b)))"
    using Suc.prems(2) by (subst Cons_nth_drop_Suc [symmetric]) simp_all
  have i: "i < 128" using Suc.prems(2) by simp
  then have "\<forall>i \<in> {..<128 :: nat}. (0x80 + of_nat i :: u16) AND 0x1280 = 0x0080 \<and> unat ((0x80 + of_nat i :: u16) AND 0x7F) = i"
    by code_simp
  then have a: "(0x80 + of_nat i :: u16) AND 0x1280 = 0x0080" "unat ((0x80 + of_nat i :: u16) AND 0x7F) = i" using i by blast+
  have next_address: "0x80 + of_nat i + 1 = (0x80 + of_nat (Suc i) :: u16)" by simp
  have "wpo (peek_from F C (0x80 + of_nat (Suc i)) n b') (\<lambda>vs. vs = take n (drop (Suc i) (riot_ram (b_riot b))))"
    if "bus_ok ok b'" "riot_ram (b_riot b') = riot_ram (b_riot b)" for b'
    using Suc.IH [OF that(1), of "Suc i"] Suc.prems(2) that(2) by simp
  then show ?case
    unfolding peek_from.simps next_address split
    using a(2) wpo_conj [OF cpu_read_ok [OF Suc.prems(1)] wpo_conj [OF read_ram [OF Suc.prems(1) a(1)] read_ram_kept [OF Suc.prems(1) a(1)]]]
    by (auto elim!: wpo_mono)
qed simp

lemma peek_range_ram:
  assumes "bus_ok ok b"
  shows "peek_range F C 0x0080 128 b = Some (riot_ram (b_riot b))"
  using peek_from_ram [of b 0 128] assms by (simp add: peek_range_def wpo_def bus_ok_def riot_ok_def)

end

subsection \<open>The snapshot\<close>

text \<open>
  C13: drawing the debugger does not disturb the machine. On a cartridge without an ARM coprocessor the snapshot is always
  taken, and after it every field of the core, its machine's included, is what it was before, but for the write log, which the
  snapshot empties and switches on and no program sees; what a watch expression sees through the snapshot is what a conditional
  breakpoint sees on the machine itself, the RAM included, although the one reads it through a clone of the bus and the
  other as it lies.
\<close>

theorem snapshot_unseen:
  assumes "sys_ok plain_cart_ok (ec_system core)"
  shows "\<exists>d. build_debug_snapshot F core base = Some (d, core\<lparr>ec_system := (ec_system core)\<lparr>sys_bus :=
      (sys_bus (ec_system core))\<lparr>b_write_log := \<lparr>wl_enabled = True, wl_events = []\<rparr>\<rparr>\<rparr>\<rparr>) \<and>
    snapshot_context d = live_context (ec_system core) (ec_frame_count core)"
proof -
  have ok: "bus_ok plain_cart_ok (sys_bus (ec_system core))" using assms by (simp add: sys_ok_def)
  obtain xs ys where "peek_range F cart_ops (cpu_pc (sys_cpu (ec_system core))) 48 (sys_bus (ec_system core)) = Some xs"
      "peek_range F cart_ops base MEMORY_VIEW_LEN (sys_bus (ec_system core)) = Some ys"
    using vcs.peek_from_total [OF ok] unfolding peek_range_def by (blast dest: wpo_returns)
  then show ?thesis
    using vcs.peek_range_ram [OF ok, of F]
    by (simp add: build_debug_snapshot_def Let_def snapshot_context_def live_context_def log_clear_def)
qed

lemma snapshot_unseen_witness:
  "\<forall>(F :: 'f fops) (G :: 'g f32_ops). \<exists>d s. build_debug_snapshot F (demo_core F G) 0xF000 = Some (d, (demo_core F G)\<lparr>ec_system := s\<rparr>) \<and>
    snapshot_context d = live_context (ec_system (demo_core F G)) (ec_frame_count (demo_core F G))"
proof (intro allI)
  fix F :: "'f fops" and G :: "'g f32_ops"
  have "sys_ok plain_cart_ok (ec_system (demo_core F G))" using demo_core_playing [of F G] by (simp add: playing_def)
  from snapshot_unseen [OF this, of F "0xF000"]
  show "\<exists>d s. build_debug_snapshot F (demo_core F G) 0xF000 = Some (d, (demo_core F G)\<lparr>ec_system := s\<rparr>) \<and>
    snapshot_context d = live_context (ec_system (demo_core F G)) (ec_frame_count (demo_core F G))" by blast
qed

subsection \<open>Continue\<close>

lemma continue_loop_stops:
  assumes "sys_ok plain_cart_ok s"
  shows "\<exists>n s'. continue_loop F d frame K s = Some s' \<and> n \<le> K \<and> (0 < K \<longrightarrow> 0 < n) \<and>
    run_instructions F cart_ops n s = Some s' \<and> sys_ok plain_cart_ok s' \<and> (n = K \<or> halts d frame s') \<and>
    (\<forall>k s''. 0 < k \<longrightarrow> k < n \<longrightarrow> run_instructions F cart_ops k s = Some s'' \<longrightarrow> \<not> halts d frame s'')"
  using assms
proof (induction K arbitrary: s)
  case 0
  then show ?case by (intro exI [of _ 0] exI [of _ s]) simp
next
  case (Suc K)
  obtain m t where t: "step_instruction F cart_ops s = Some (m, t)" "sys_ok plain_cart_ok t"
    using vcs.step_instruction_ok [OF Suc.prems, of F] by (auto simp: wpo_def)
  show ?case
  proof (cases "halts d frame t")
    case True
    then show ?thesis using t by (intro exI [of _ 1] exI [of _ t]) simp
  next
    case False
    from Suc.IH [OF t(2)] obtain n s' where n: "continue_loop F d frame K t = Some s'" "n \<le> K"
        "run_instructions F cart_ops n t = Some s'" "sys_ok plain_cart_ok s'" "n = K \<or> halts d frame s'"
        "\<And>k s''. 0 < k \<Longrightarrow> k < n \<Longrightarrow> run_instructions F cart_ops k t = Some s'' \<Longrightarrow> \<not> halts d frame s''" by blast
    have "\<not> halts d frame s''" if "0 < k" "k < Suc n" "run_instructions F cart_ops k s = Some s''" for k s''
    proof -
      obtain j where j: "k = Suc j" using \<open>0 < k\<close> by (cases k) auto
      show ?thesis using that False t(1) n(6) [of j] by (cases "j = 0") (simp_all add: j)
    qed
    then show ?thesis using False t n by (intro exI [of _ "Suc n"] exI [of _ s']) auto
  qed
qed

text \<open>
  C11: on a cartridge without an ARM coprocessor, Continue pauses the core and runs it to the first instruction
  boundary, after at least one instruction, at which the program counter is on a breakpoint or an armed watch is true;
  it returns after a million instructions if there is none.
\<close>

theorem continue_stops:
  assumes "sys_ok plain_cart_ok (ec_system core)"
  shows "\<exists>n core'. debug_continue F d core = Some core' \<and> ec_paused core' \<and> 0 < n \<and> n \<le> MAX_STEPS \<and>
    run_instructions F cart_ops n (ec_system core) = Some (ec_system core') \<and>
    (n = MAX_STEPS \<or> halts d (ec_frame_count core) (ec_system core')) \<and>
    (\<forall>k s. 0 < k \<longrightarrow> k < n \<longrightarrow> run_instructions F cart_ops k (ec_system core) = Some s \<longrightarrow> \<not> halts d (ec_frame_count core) s)"
proof -
  have "0 < MAX_STEPS" by (simp add: MAX_STEPS_def)
  moreover from continue_loop_stops [OF assms, of F d "ec_frame_count core" MAX_STEPS]
  obtain n s' where loop: "continue_loop F d (ec_frame_count core) MAX_STEPS (ec_system core) = Some s' \<and> n \<le> MAX_STEPS \<and>
      (0 < MAX_STEPS \<longrightarrow> 0 < n) \<and> run_instructions F cart_ops n (ec_system core) = Some s' \<and> sys_ok plain_cart_ok s' \<and>
      (n = MAX_STEPS \<or> halts d (ec_frame_count core) s') \<and>
      (\<forall>k s''. 0 < k \<longrightarrow> k < n \<longrightarrow> run_instructions F cart_ops k (ec_system core) = Some s'' \<longrightarrow> \<not> halts d (ec_frame_count core) s'')"
    by (elim exE) (rule that)
  ultimately show ?thesis
    by (intro exI [of _ n] exI [of _ "core\<lparr>ec_paused := True, ec_system := s'\<rparr>"]) (simp add: debug_continue_def)
qed

lemma continue_stops_witness:
  "\<forall>(F :: 'f fops) (G :: 'g f32_ops). \<exists>n core'. debug_continue F debugger_state_default (demo_core F G) = Some core' \<and> 0 < n \<and>
    run_instructions F cart_ops n (ec_system (demo_core F G)) = Some (ec_system core')"
proof (intro allI)
  fix F :: "'f fops" and G :: "'g f32_ops"
  have "sys_ok plain_cart_ok (ec_system (demo_core F G))" using demo_core_playing [of F G] by (simp add: playing_def)
  from continue_stops [OF this, of F debugger_state_default]
  show "\<exists>n core'. debug_continue F debugger_state_default (demo_core F G) = Some core' \<and> 0 < n \<and>
    run_instructions F cart_ops n (ec_system (demo_core F G)) = Some (ec_system core')" by blast
qed

subsection \<open>Jumping to a frame\<close>

lemma rewind_count: "rewind K (core\<lparr>ec_frame_count := n\<rparr>) = (rewind K core)\<lparr>ec_frame_count := n\<rparr>"
  by (simp add: rewind_def Let_def split: list.split sum.split)

lemma rewinds_count: "(rewind K ^^ j) (core\<lparr>ec_frame_count := n\<rparr>) = ((rewind K ^^ j) core)\<lparr>ec_frame_count := n\<rparr>"
  by (induction j) (simp_all add: rewind_count)

lemma jump_to_frame_count:
  "\<exists>j. jump_to_frame K target core = ((rewind K ^^ j) core)\<lparr>ec_frame_count := ec_frame_count core - of_nat j\<rparr> \<and>
    j = min (length (ec_snapshots core)) (unat (ec_frame_count core) - unat (of_nat target :: u64))"
proof (induction K target core rule: jump_to_frame.induct)
  case (1 K target core)
  show ?case
  proof (cases "ec_frame_count core > of_nat target \<and> ec_snapshots core \<noteq> []")
    case True
    let ?next = "(rewind K core)\<lparr>ec_frame_count := ec_frame_count core - 1\<rparr>"
    have count: "ec_frame_count (rewind K core) = ec_frame_count core"
      by (simp add: rewind_def Let_def split: list.split sum.split)
    have "ec_frame_count core \<noteq> 0" using True by auto
    then have less: "unat (ec_frame_count core - 1) = unat (ec_frame_count core) - 1" by (rule unat_minus_one)
    have step: "jump_to_frame K target core = jump_to_frame K target ?next"
      using True \<open>ec_frame_count core \<noteq> 0\<close> by (subst jump_to_frame.simps) (simp add: Let_def count)
    have "0 < length (ec_snapshots core)" "unat (of_nat target :: u64) < unat (ec_frame_count core)"
      using True by (simp_all add: word_less_nat_alt)
    then have fewer: "min (length (ec_snapshots core)) (unat (ec_frame_count core) - unat (of_nat target :: u64)) =
        Suc (min (length (ec_snapshots ?next)) (unat (ec_frame_count ?next) - unat (of_nat target :: u64)))"
      by (simp add: rewind_snapshots less min_def) linarith
    obtain j where j: "jump_to_frame K target ?next = ((rewind K ^^ j) ?next)\<lparr>ec_frame_count := ec_frame_count ?next - of_nat j\<rparr>"
        "j = min (length (ec_snapshots ?next)) (unat (ec_frame_count ?next) - unat (of_nat target :: u64))"
      using 1 [OF True refl] \<open>ec_frame_count core \<noteq> 0\<close> by (auto simp: count)
    have "jump_to_frame K target core = ((rewind K ^^ Suc j) core)\<lparr>ec_frame_count := ec_frame_count core - of_nat (Suc j)\<rparr>"
      unfolding step j(1) by (simp add: rewinds_count funpow_swap1 diff_diff_eq)
    then show ?thesis using fewer j(2) by metis
  next
    case False
    then have "min (length (ec_snapshots core)) (unat (ec_frame_count core) - unat (of_nat target :: u64)) = 0"
      by (auto simp: word_less_nat_alt)
    then show ?thesis using False by (subst jump_to_frame.simps) auto
  qed
qed

lemma unat_of_nat_u64: "n < 2 ^ 64 \<Longrightarrow> unat (of_nat n :: u64) = n"
  by (simp add: unsigned_of_nat take_bit_nat_eq_self)

text \<open>Where a jump lands after some ticks, each with a look-ahead of its own.\<close>

lemma jump_lands:
  fixes core :: "('f, 'g, 'w) emu_core"
  assumes "codec_keeps K" "calm core" and history: "length (ec_snapshots core) \<le> MAX_SNAPSHOTS"
    and count: "count = unat (ec_frame_count core) + (\<Sum>(i, n) \<leftarrow> ticks. n + 1)" "count < 2 ^ 64"
    and target: "target < count" and j: "j = count - target" "j \<le> length ticks" "j \<le> MAX_SNAPSHOTS"
  shows "\<exists>core' frames' s. play_ahead F G K ticks core frames = Some (core', frames') \<and> unat (ec_frame_count core') = count \<and>
    next_systems F (map fst (take (length ticks - j) ticks)) (ec_system core) = Some s \<and>
    ec_system (jump_to_frame K target core') = kept_system (latch_opt F (fst (ticks ! (length ticks - j))) s) \<and>
    unat (ec_frame_count (jump_to_frame K target core')) = count - j"
proof -
  obtain core' frames' where play: "play_ahead F G K ticks core frames = Some (core', frames')"
      "ec_frame_count core' = ec_frame_count core + of_nat (\<Sum>(i, n) \<leftarrow> ticks. n + 1)"
      "length (ec_snapshots core') = min MAX_SNAPSHOTS (length (ec_snapshots core) + length ticks)"
    using play_ahead_does [OF assms(1,2) history, of F G ticks frames] by auto
  have "ec_frame_count core' = of_nat count" using play(2) by (simp add: count(1))
  then have total: "unat (ec_frame_count core') = count" using count(2) by (simp add: unat_of_nat_u64)
  have "unat (of_nat target :: u64) = target" using target count(2) by (simp add: unat_of_nat_u64)
  moreover have "min (length (ec_snapshots core')) (count - target) = j"
    unfolding play(3) using j by (simp add: min_def)
  ultimately have jump: "jump_to_frame K target core' = ((rewind K ^^ j) core')\<lparr>ec_frame_count := ec_frame_count core' - of_nat j\<rparr>"
    using jump_to_frame_count [of K target core'] total by simp
  have "0 < j" using j(1) target by simp
  then obtain i where i: "j = Suc i" using gr0_implies_Suc by blast
  have bounds: "i < length ticks" "i < MAX_SNAPSHOTS" using j(2,3) i by auto
  obtain s where s: "next_systems F (map fst (take (length ticks - j) ticks)) (ec_system core) = Some s"
      "decode K (rev (ec_snapshots core') ! i) = Inr (capture (kept_system (latch_opt F (fst (ticks ! (length ticks - j))) s)) 0)"
    using snapshots_recall [OF assms(1,2) history play(1) bounds] i by auto
  have "i < length (ec_snapshots core')" using bounds play(3) by simp
  from rewind_pow [OF this s(2)]
  have "ec_system (jump_to_frame K target core') = kept_system (latch_opt F (fst (ticks ! (length ticks - j))) s)"
    unfolding jump i by (simp add: capture_def)
  moreover have "unat (ec_frame_count (jump_to_frame K target core')) = count - j"
  proof -
    have "j \<le> count" "j < 2 ^ 64" using j(1) count(2) by auto
    then show ?thesis using total by (simp add: jump unat_sub word_le_nat_alt unat_of_nat_u64)
  qed
  ultimately show ?thesis using play(1) total s(1) by blast
qed

lemma sum_constant: "list_all (\<lambda>(i, n). n = r) ticks \<Longrightarrow> (\<Sum>(i, n) \<leftarrow> ticks. n + 1) = length ticks * (r + 1)"
  by (induction ticks) auto

text \<open>
  C12: the movie editor's jump, on a cartridge without an ARM coprocessor. After any ticks with no look-ahead, whatever
  the history held before and however many older frames fell out of it, a jump back to any of the frames still in
  it (the last 600) puts back, as far as any program can tell, the machine that was about to play that frame with its
  input latched, and the counter shows that frame.
\<close>

theorem jump_goes_to_frame:
  fixes core :: "('f, 'g, 'w) emu_core"
  assumes "codec_keeps K" "calm core" "length (ec_snapshots core) \<le> MAX_SNAPSHOTS"
    and "list_all (\<lambda>(i, n). n = 0) ticks" "unat (ec_frame_count core) + length ticks < 2 ^ 64"
    and "m < length ticks" "length ticks - m \<le> MAX_SNAPSHOTS"
  shows "\<exists>core' frames' s. play_ahead F G K ticks core frames = Some (core', frames') \<and>
    next_systems F (map fst (take m ticks)) (ec_system core) = Some s \<and>
    (let back = jump_to_frame K (unat (ec_frame_count core) + m) core' in
     ec_system back = kept_system (latch_opt F (fst (ticks ! m)) s) \<and>
     unat (ec_frame_count back) = unat (ec_frame_count core) + m)"
proof -
  have sum: "unat (ec_frame_count core) + length ticks = unat (ec_frame_count core) + (\<Sum>(i, n) \<leftarrow> ticks. n + 1)"
    using sum_constant [OF assms(4)] by simp
  have "unat (ec_frame_count core) + m < unat (ec_frame_count core) + length ticks"
      "length ticks - m = unat (ec_frame_count core) + length ticks - (unat (ec_frame_count core) + m)"
      "length ticks - m \<le> length ticks" "length ticks - (length ticks - m) = m"
      "unat (ec_frame_count core) + length ticks - (length ticks - m) = unat (ec_frame_count core) + m"
    using assms(6) by auto
  then show ?thesis
    using jump_lands [OF assms(1-3) sum assms(5), where F = F and G = G and frames = frames
      and target = "unat (ec_frame_count core) + m" and j = "length ticks - m"] assms(7) by (fastforce simp: Let_def)
qed

text \<open>Two ticks played on a history that is full already.\<close>

lemma jump_goes_to_frame_witness:
  "\<forall>(F :: 'f fops) (G :: 'g f32_ops). \<exists>full core' frames' s. length (ec_snapshots full) = MAX_SNAPSHOTS \<and>
     play_ahead F G (demo_codec F) [(None, 0), (None, 0)] full None = Some (core', frames') \<and>
     next_systems F [None] (ec_system full) = Some s \<and> ec_system (jump_to_frame (demo_codec F) 1 core') = kept_system s"
proof (intro allI)
  fix F :: "'f fops" and G :: "'g f32_ops"
  let ?full = "(demo_core F G)\<lparr>ec_snapshots := replicate MAX_SNAPSHOTS (capture (system_new F 0) 0)\<rparr>"
  let ?ticks = "[(None :: frame_input option, 0 :: nat), (None, 0)]"
  have calm: "calm ?full" using demo_core_calm(1) [of F G] by (simp add: calm_def playing_def)
  have facts: "length (ec_snapshots ?full) \<le> MAX_SNAPSHOTS" "list_all (\<lambda>(i, n). n = 0) ?ticks"
      "unat (ec_frame_count ?full) + length ?ticks < 2 ^ 64" "1 < length ?ticks" "length ?ticks - 1 \<le> MAX_SNAPSHOTS"
    by (simp_all add: MAX_SNAPSHOTS_def demo_core_def emu_core_new_def)
  have "unat (ec_frame_count ?full) + 1 = 1" by (simp add: demo_core_def emu_core_new_def)
  then have "\<exists>core' frames' s. play_ahead F G (demo_codec F) ?ticks ?full None = Some (core', frames') \<and>
     next_systems F [None] (ec_system ?full) = Some s \<and> ec_system (jump_to_frame (demo_codec F) 1 core') = kept_system s"
    using jump_goes_to_frame [OF demo_codec_keeps [of F] calm facts, where F = F and G = G and frames = None]
    by (auto simp: Let_def latch_opt_def simp del: play_ahead.simps next_systems.simps)
  moreover have "length (ec_snapshots ?full) = MAX_SNAPSHOTS" by simp
  ultimately show "\<exists>full core' frames' s. length (ec_snapshots full) = MAX_SNAPSHOTS \<and>
     play_ahead F G (demo_codec F) [(None, 0), (None, 0)] full None = Some (core', frames') \<and>
     next_systems F [None] (ec_system full) = Some s \<and> ec_system (jump_to_frame (demo_codec F) 1 core') = kept_system s" by blast
qed

text \<open>
  with run-ahead the same jump misses. When every tick looks ahead \<open>r\<close> frames, the frame counter
  advances \<open>r + 1\<close> per snapshot; a jump back to what the counter showed before the last tick undoes
  \<open>r + 1\<close> ticks and not one, although the counter then shows the frame that was asked for.
\<close>

theorem jump_overshoots:
  fixes core :: "('f, 'g, 'w) emu_core"
  assumes "codec_keeps K" "calm core" "ec_snapshots core = []" "length ticks \<le> MAX_SNAPSHOTS"
    and "list_all (\<lambda>(i, n). n = r) ticks" "unat (ec_frame_count core) + length ticks * (r + 1) < 2 ^ 64" "r < length ticks"
  shows "\<exists>core' frames' s. play_ahead F G K ticks core frames = Some (core', frames') \<and>
    next_systems F (map fst (take (length ticks - (r + 1)) ticks)) (ec_system core) = Some s \<and>
    (let target = unat (ec_frame_count core) + (length ticks - 1) * (r + 1); back = jump_to_frame K target core' in
     ec_system back = kept_system (latch_opt F (fst (ticks ! (length ticks - (r + 1)))) s) \<and>
     unat (ec_frame_count back) = target)"
proof -
  have sum: "unat (ec_frame_count core) + length ticks * (r + 1) = unat (ec_frame_count core) + (\<Sum>(i, n) \<leftarrow> ticks. n + 1)"
    using sum_constant [OF assms(5)] by simp
  obtain l where l: "length ticks = Suc l" using assms(7) by (cases "length ticks") auto
  have last_tick: "length ticks * (r + 1) = (length ticks - 1) * (r + 1) + (r + 1)" by (simp add: l)
  have "unat (ec_frame_count core) + (length ticks - 1) * (r + 1) < unat (ec_frame_count core) + length ticks * (r + 1)"
      "r + 1 = unat (ec_frame_count core) + length ticks * (r + 1) - (unat (ec_frame_count core) + (length ticks - 1) * (r + 1))"
      "r + 1 \<le> length ticks" "r + 1 \<le> MAX_SNAPSHOTS" "length (ec_snapshots core) \<le> MAX_SNAPSHOTS"
      "unat (ec_frame_count core) + length ticks * (r + 1) - (r + 1) = unat (ec_frame_count core) + (length ticks - 1) * (r + 1)"
    unfolding last_tick using assms(3,4,7) by simp_all
  then show ?thesis
    using jump_lands [OF assms(1,2) _ sum assms(6), where F = F and G = G and frames = frames
      and target = "unat (ec_frame_count core) + (length ticks - 1) * (r + 1)" and j = "r + 1"] by (fastforce simp only: Let_def)
qed

lemma jump_overshoots_witness:
  "\<forall>(F :: 'f fops) (G :: 'g f32_ops). \<exists>core' frames'.
     play_ahead F G (demo_codec F) [(None, 1), (None, 1)] (demo_core F G) None = Some (core', frames') \<and>
     ec_system (jump_to_frame (demo_codec F) 2 core') = kept_system (ec_system (demo_core F G))"
proof (intro allI)
  fix F :: "'f fops" and G :: "'g f32_ops"
  let ?ticks = "[(None :: frame_input option, 1 :: nat), (None, 1)]"
  have facts: "length ?ticks \<le> MAX_SNAPSHOTS" "list_all (\<lambda>(i, n). n = 1) ?ticks"
      "unat (ec_frame_count (demo_core F G)) + length ?ticks * (1 + 1) < 2 ^ 64" "1 < length ?ticks"
    by (simp_all add: MAX_SNAPSHOTS_def demo_core_def emu_core_new_def)
  have "unat (ec_frame_count (demo_core F G)) = 0" by (simp add: demo_core_def emu_core_new_def)
  then show "\<exists>core' frames'. play_ahead F G (demo_codec F) ?ticks (demo_core F G) None = Some (core', frames') \<and>
     ec_system (jump_to_frame (demo_codec F) 2 core') = kept_system (ec_system (demo_core F G))"
    using jump_overshoots [OF demo_codec_keeps [of F] demo_core_calm facts, where F = F and G = G and frames = None]
    by (auto simp: Let_def latch_opt_def numeral_2_eq_2 simp del: play_ahead.simps)
qed

subsection \<open>The write log's panels\<close>

lemma tally_fold:
  "fold (\<lambda>ev counts. counts(we_addr ev \<mapsto> (case counts (we_addr ev) of None \<Rightarrow> 0 | Some n \<Rightarrow> n) + (1 :: u32))) events m a =
   (let k = length (filter (\<lambda>e. we_addr e = a) events) in
    if k = 0 then m a else Some ((case m a of None \<Rightarrow> 0 | Some n \<Rightarrow> n) + of_nat k))"
proof (induction events arbitrary: m)
  case (Cons e events)
  show ?case unfolding fold.simps o_def Cons.IH
    by (auto simp: Let_def algebra_simps split: option.split)
qed simp

text \<open>The heat map lists exactly the addresses written, with how often.\<close>

lemma tally_writes_counts:
  "tally_writes events a = (let k = length (filter (\<lambda>e. we_addr e = a) events) in if k = 0 then None else Some (of_nat k))"
  by (simp add: tally_writes_def tally_fold Let_def)

text \<open>A write to the RAM at \<open>$86\<close> is listed as a write of a player's colour.\<close>

lemma event_of_ram:
  "event_rows [\<lparr>we_scanline = l, we_color_clock = c, we_addr = 0x0086, we_value = v\<rparr>] = [(l, c, ''COLUP0 = $'' @ hex2 v)]"
  by (simp add: event_rows_def map_filter_simps TRACKED_def)

text \<open>The trace keeps the last \<open>RING_CAPACITY\<close> instructions, in order.\<close>

lemma trace_keeps_last:
  assumes "tr_enabled st" "length (tr_ring st) \<le> RING_CAPACITY"
  shows "tr_ring (fold (\<lambda>e st. track_trace st e) es st) =
    drop (length (tr_ring st) + length es - RING_CAPACITY) (tr_ring st @ es)"
  using assms
proof (induction es arbitrary: st)
  case (Cons e es)
  let ?next = "track_trace st e"
  have "tr_enabled ?next" "length (tr_ring ?next) \<le> RING_CAPACITY"
    using Cons.prems by (auto simp: track_trace_def Let_def RING_CAPACITY_def)
  note IH = Cons.IH [OF this]
  show ?case
  proof (cases "length (tr_ring st) \<ge> RING_CAPACITY")
    case True
    then have full: "length (tr_ring st) = RING_CAPACITY" using Cons.prems(2) by simp
    then obtain x xs where xs: "tr_ring st = x # xs" by (cases "tr_ring st") (auto simp: RING_CAPACITY_def)
    have "tr_ring ?next = xs @ [e]" using True Cons.prems(1) by (simp add: track_trace_def xs Let_def)
    moreover have "RING_CAPACITY = Suc (length xs)" using full by (simp add: xs)
    ultimately show ?thesis using IH by (simp add: xs)
  next
    case False
    then have "tr_ring ?next = tr_ring st @ [e]" using Cons.prems(1) by (simp add: track_trace_def Let_def)
    then show ?thesis using IH by simp
  qed
qed simp

end
