(* ===== verification/Script.thy ===== *)
theory Script
  imports Emu_Core
begin

text \<open>
  Lua scripting: the \<open>emu\<close> table of \<open>crates/rusty2600-script/src\<close> (\<open>engine.rs\<close>, \<open>bus.rs\<close>, \<open>lock.rs\<close>,
  \<open>log.rs\<close>, \<open>overlay.rs\<close>) and its host in the frontend (\<open>crates/rusty2600-frontend/src/scripting.rs\<close>).
  The Lua machine is not under \<open>src\<close>: what the registered callback does in one frame is a parameter, a
  tree of calls of the table in which each call's result decides how the script goes on. \<open>None\<close> is a
  panic, which ends the run: a script that catches one with \<open>pcall\<close> is left out.
\<close>

subsection \<open>The host interface\<close>

record script_cpu =
  sp_a :: u8
  sp_x :: u8
  sp_y :: u8
  sp_sp :: u8
  sp_pc :: u16
  sp_status :: u8

datatype joy_direction = Joy_Up | Joy_Down | Joy_Left | Joy_Right | Joy_Fire

definition parse_direction :: "string \<Rightarrow> joy_direction option" where
  "parse_direction s = (if s = ''up'' then Some Joy_Up else if s = ''down'' then Some Joy_Down
     else if s = ''left'' then Some Joy_Left else if s = ''right'' then Some Joy_Right
     else if s = ''fire'' then Some Joy_Fire else None)"

record ('b, 'w) script_bus =
  sb_peek :: "u16 \<Rightarrow> 'b \<Rightarrow> u8 option"
  sb_poke :: "u16 \<Rightarrow> u8 \<Rightarrow> 'b \<Rightarrow> 'b option"
  sb_cpu :: "'b \<Rightarrow> script_cpu"
  sb_set_joystick :: "u8 \<Rightarrow> joy_direction \<Rightarrow> bool \<Rightarrow> 'b \<Rightarrow> 'b"
  sb_set_console_switch :: "string \<Rightarrow> bool \<Rightarrow> 'b \<Rightarrow> bool \<times> 'b"
  sb_pause :: "'b \<Rightarrow> 'b"
  sb_save_state :: "'b \<Rightarrow> 'w \<times> 'b"
  sb_load_state :: "'w \<Rightarrow> 'b \<Rightarrow> save_state_error + 'b"

subsection \<open>Locks, log and overlay\<close>

record writes_locked =
  wl_ra_hardcore :: bool
  wl_netplay_active :: bool

definition unlocked :: writes_locked where
  "unlocked = \<lparr>wl_ra_hardcore = False, wl_netplay_active = False\<rparr>"

definition locked :: "writes_locked \<Rightarrow> bool" where
  "locked w \<longleftrightarrow> wl_ra_hardcore w \<or> wl_netplay_active w"

definition MAX_LINES :: nat where "MAX_LINES = 500"

datatype script_error = Locked string | BadDirection string | BadSwitch string | LoadFailed save_state_error | Raised string

datatype log_line = Log_Print string | Log_Error script_error

fun is_error :: "log_line \<Rightarrow> bool" where
  "is_error (Log_Print s) = False"
| "is_error (Log_Error e) = True"

definition push_line :: "log_line \<Rightarrow> log_line list \<Rightarrow> log_line list" where
  "push_line line ls = (if length ls \<ge> MAX_LINES then tl ls else ls) @ [line]"

record text_primitive =
  tp_x :: "32 word"
  tp_y :: "32 word"
  tp_text :: string

record rect_primitive =
  rp_x :: "32 word"
  rp_y :: "32 word"
  rp_w :: "32 word"
  rp_h :: "32 word"
  rp_color :: u32

record pixel_primitive =
  pp_x :: "32 word"
  pp_y :: "32 word"
  pp_color :: u32

record line_primitive =
  lp_x1 :: "32 word"
  lp_y1 :: "32 word"
  lp_x2 :: "32 word"
  lp_y2 :: "32 word"
  lp_color :: u32

record script_overlay =
  ov_texts :: "text_primitive list"
  ov_rects :: "rect_primitive list"
  ov_pixels :: "pixel_primitive list"
  ov_lines :: "line_primitive list"

definition overlay_clear :: "script_overlay \<Rightarrow> script_overlay" where
  "overlay_clear ov = ov\<lparr>ov_texts := [], ov_rects := [], ov_pixels := [], ov_lines := []\<rparr>"

definition overlay_is_empty :: "script_overlay \<Rightarrow> bool" where
  "overlay_is_empty ov \<longleftrightarrow> ov_texts ov = [] \<and> ov_rects ov = [] \<and> ov_pixels ov = [] \<and> ov_lines ov = []"

definition overlay_default :: script_overlay where
  "overlay_default = \<lparr>ov_texts = [], ov_rects = [], ov_pixels = [], ov_lines = []\<rparr>"

subsection \<open>The table\<close>

text \<open>
  \<open>en_borrowed\<close> is set while the callback runs: \<open>tick_frame\<close> then holds a borrow of the cell that
  \<open>emu.onFrame\<close> writes.
\<close>

record 'b script_engine =
  en_bus :: 'b
  en_locked :: writes_locked
  en_overlay :: script_overlay
  en_on_frame :: bool
  en_borrowed :: bool
  en_log :: "log_line list"

datatype 'w api_call = Api_Peek u16 | Api_Poke u16 u8 | Api_Cpu | Api_On_Frame | Api_Set_Joystick u8 string bool
  | Api_Set_Console_Switch string bool | Api_Draw_Text text_primitive | Api_Draw_Rect rect_primitive
  | Api_Draw_Pixel pixel_primitive | Api_Draw_Line line_primitive | Api_Print "string list" | Api_Pause | Api_Save_State
  | Api_Load_State 'w

datatype 'w api_result = Ret_Unit | Ret_Byte u8 | Ret_Cpu script_cpu | Ret_State 'w | Ret_Error script_error

fun join_tabs :: "string list \<Rightarrow> string" where
  "join_tabs [] = []"
| "join_tabs [s] = s"
| "join_tabs (s # ss) = s @ CHR 0x09 # join_tabs ss"

fun call_api :: "('b, 'w) script_bus \<Rightarrow> 'w api_call \<Rightarrow> 'b script_engine \<Rightarrow> ('w api_result \<times> 'b script_engine) option" where
  "call_api B (Api_Peek addr) e = do { v \<leftarrow> sb_peek B addr (en_bus e); Some (Ret_Byte v, e) }"
| "call_api B (Api_Poke addr v) e =
     (if locked (en_locked e) then Some (Ret_Error (Locked ''emu.poke''), e)
      else do { b \<leftarrow> sb_poke B addr v (en_bus e); Some (Ret_Unit, e\<lparr>en_bus := b\<rparr>) })"
| "call_api B Api_Cpu e = Some (Ret_Cpu (sb_cpu B (en_bus e)), e)"
| "call_api B Api_On_Frame e = (if en_borrowed e then None else Some (Ret_Unit, e\<lparr>en_on_frame := True\<rparr>))"
| "call_api B (Api_Set_Joystick port direction pressed) e =
     (if locked (en_locked e) then Some (Ret_Error (Locked ''emu.setJoystick''), e)
      else (case parse_direction direction of
        None \<Rightarrow> Some (Ret_Error (BadDirection direction), e)
      | Some d \<Rightarrow> Some (Ret_Unit, e\<lparr>en_bus := sb_set_joystick B port d pressed (en_bus e)\<rparr>)))"
| "call_api B (Api_Set_Console_Switch name v) e =
     (if locked (en_locked e) then Some (Ret_Error (Locked ''emu.setConsoleSwitch''), e)
      else (let (known, b) = sb_set_console_switch B name v (en_bus e); e = e\<lparr>en_bus := b\<rparr>
        in Some (if known then Ret_Unit else Ret_Error (BadSwitch name), e)))"
| "call_api B (Api_Draw_Text p) e = Some (Ret_Unit, e\<lparr>en_overlay := (en_overlay e)\<lparr>ov_texts := ov_texts (en_overlay e) @ [p]\<rparr>\<rparr>)"
| "call_api B (Api_Draw_Rect p) e = Some (Ret_Unit, e\<lparr>en_overlay := (en_overlay e)\<lparr>ov_rects := ov_rects (en_overlay e) @ [p]\<rparr>\<rparr>)"
| "call_api B (Api_Draw_Pixel p) e = Some (Ret_Unit, e\<lparr>en_overlay := (en_overlay e)\<lparr>ov_pixels := ov_pixels (en_overlay e) @ [p]\<rparr>\<rparr>)"
| "call_api B (Api_Draw_Line p) e = Some (Ret_Unit, e\<lparr>en_overlay := (en_overlay e)\<lparr>ov_lines := ov_lines (en_overlay e) @ [p]\<rparr>\<rparr>)"
| "call_api B (Api_Print parts) e = Some (Ret_Unit, e\<lparr>en_log := push_line (Log_Print (join_tabs parts)) (en_log e)\<rparr>)"
| "call_api B Api_Pause e = Some (Ret_Unit, e\<lparr>en_bus := sb_pause B (en_bus e)\<rparr>)"
| "call_api B Api_Save_State e = (let (w, b) = sb_save_state B (en_bus e) in Some (Ret_State w, e\<lparr>en_bus := b\<rparr>))"
| "call_api B (Api_Load_State w) e = (case sb_load_state B w (en_bus e) of
     Inl err \<Rightarrow> Some (Ret_Error (LoadFailed err), e) | Inr b \<Rightarrow> Some (Ret_Unit, e\<lparr>en_bus := b\<rparr>))"

text \<open>A run of the script: it ends, raises an error, or calls the table and goes on with the result.\<close>

datatype 'w script = Script_Done | Script_Raise script_error | Script_Call "'w api_call" "'w api_result \<Rightarrow> 'w script"

primrec run_script ::
  "('b, 'w) script_bus \<Rightarrow> 'w script \<Rightarrow> 'b script_engine \<Rightarrow> (script_error option \<times> 'b script_engine) option" where
  "run_script B Script_Done = (\<lambda>e. Some (None, e))"
| "run_script B (Script_Raise err) = (\<lambda>e. Some (Some err, e))"
| "run_script B (Script_Call c k) = (\<lambda>e. case call_api B c e of None \<Rightarrow> None | Some (r, e) \<Rightarrow> run_script B (k r) e)"

definition engine_new :: "'b \<Rightarrow> 'b script_engine" where
  "engine_new b = \<lparr>en_bus = b, en_locked = unlocked, en_overlay = overlay_default, en_on_frame = False, en_borrowed = False, en_log = []\<rparr>"

definition log_error :: "script_error \<Rightarrow> 'b script_engine \<Rightarrow> 'b script_engine" where
  "log_error err e = e\<lparr>en_log := push_line (Log_Error err) (en_log e)\<rparr>"

definition tick_script ::
  "('b, 'w) script_bus \<Rightarrow> 'w script \<Rightarrow> 'b script_engine \<Rightarrow> (script_error option \<times> 'b script_engine) option" where
  "tick_script B callback e =
     (if \<not> en_on_frame e then Some (None, e)
      else do {
        (err, e) \<leftarrow> run_script B callback (e\<lparr>en_borrowed := True\<rparr>);
        Some (err, (case err of None \<Rightarrow> e | Some x \<Rightarrow> log_error x e)\<lparr>en_borrowed := False\<rparr>) })"

definition take_overlay :: "'b script_engine \<Rightarrow> script_overlay \<times> 'b script_engine" where
  "take_overlay e = (en_overlay e, e\<lparr>en_overlay := overlay_clear (en_overlay e)\<rparr>)"

subsection \<open>The host in the frontend\<close>

record switch_override =
  so_select :: "bool option"
  so_reset :: "bool option"
  so_color :: "bool option"
  so_left_difficulty :: "bool option"
  so_right_difficulty :: "bool option"

definition no_switches :: switch_override where
  "no_switches = \<lparr>so_select = None, so_reset = None, so_color = None, so_left_difficulty = None, so_right_difficulty = None\<rparr>"

text \<open>\<open>JoystickOverride\<close> has the fields of a joystick.\<close>

record 'f frontend_bus =
  fs_system :: "('f, cartridge) system"
  fs_rom_tag :: u64
  fs_paused :: bool
  fs_joystick_override :: "joystick list"
  fs_switch_override :: switch_override

definition frontend_bus_new :: "'f fops \<Rightarrow> u64 \<Rightarrow> 'f frontend_bus" where
  "frontend_bus_new F rom_tag = \<lparr>fs_system = system_new F 0, fs_rom_tag = rom_tag, fs_paused = False,
     fs_joystick_override = replicate 2 joystick_default, fs_switch_override = no_switches\<rparr>"

fun override_direction :: "joy_direction \<Rightarrow> bool \<Rightarrow> joystick \<Rightarrow> joystick" where
  "override_direction Joy_Up p j = j\<lparr>j_up := p\<rparr>"
| "override_direction Joy_Down p j = j\<lparr>j_down := p\<rparr>"
| "override_direction Joy_Left p j = j\<lparr>j_left := p\<rparr>"
| "override_direction Joy_Right p j = j\<lparr>j_right := p\<rparr>"
| "override_direction Joy_Fire p j = j\<lparr>j_fire := p\<rparr>"

definition host_set_joystick :: "u8 \<Rightarrow> joy_direction \<Rightarrow> bool \<Rightarrow> 'f frontend_bus \<Rightarrow> 'f frontend_bus" where
  "host_set_joystick port d p b = (let js = fs_joystick_override b; i = unat port in
     if i < length js then b\<lparr>fs_joystick_override := js[i := override_direction d p (js ! i)]\<rparr> else b)"

definition host_set_switch :: "string \<Rightarrow> bool \<Rightarrow> 'f frontend_bus \<Rightarrow> bool \<times> 'f frontend_bus" where
  "host_set_switch name v b = (let ov = fs_switch_override b in
     if name = ''select'' then (True, b\<lparr>fs_switch_override := ov\<lparr>so_select := Some v\<rparr>\<rparr>)
     else if name = ''reset'' then (True, b\<lparr>fs_switch_override := ov\<lparr>so_reset := Some v\<rparr>\<rparr>)
     else if name = ''color'' then (True, b\<lparr>fs_switch_override := ov\<lparr>so_color := Some v\<rparr>\<rparr>)
     else if name = ''left_difficulty'' then (True, b\<lparr>fs_switch_override := ov\<lparr>so_left_difficulty := Some v\<rparr>\<rparr>)
     else if name = ''right_difficulty'' then (True, b\<lparr>fs_switch_override := ov\<lparr>so_right_difficulty := Some v\<rparr>\<rparr>)
     else (False, b))"

definition host_cpu :: "'f frontend_bus \<Rightarrow> script_cpu" where
  "host_cpu b = (let c = sys_cpu (fs_system b) in
     \<lparr>sp_a = cpu_a c, sp_x = cpu_x c, sp_y = cpu_y c, sp_sp = cpu_s c, sp_pc = cpu_pc c, sp_status = cpu_p c\<rparr>)"

definition host_bus :: "'f fops \<Rightarrow> ('f, 'w) state_codec \<Rightarrow> ('f frontend_bus, 'w) script_bus" where
  "host_bus F K = \<lparr>
     sb_peek = (\<lambda>addr b. peek F cart_ops addr (sys_bus (fs_system b))),
     sb_poke = (\<lambda>addr v b. do {
       bus \<leftarrow> cpu_write F cart_ops addr v (sys_bus (fs_system b));
       Some (b\<lparr>fs_system := (fs_system b)\<lparr>sys_bus := bus\<rparr>\<rparr>) }),
     sb_cpu = host_cpu, sb_set_joystick = host_set_joystick, sb_set_console_switch = host_set_switch,
     sb_pause = (\<lambda>b. b\<lparr>fs_paused := True\<rparr>),
     sb_save_state = (\<lambda>b. (encode K (capture (fs_system b) (fs_rom_tag b)), b)),
     sb_load_state = (\<lambda>w b. case restore K w (fs_rom_tag b) of Inl e \<Rightarrow> Inl e | Inr s \<Rightarrow> Inr (b\<lparr>fs_system := s\<rparr>))\<rparr>"

definition join_joystick :: "joystick \<Rightarrow> joystick \<Rightarrow> joystick" where
  "join_joystick j ov = j\<lparr>j_up := j_up j \<or> j_up ov, j_down := j_down j \<or> j_down ov, j_left := j_left j \<or> j_left ov,
     j_right := j_right j \<or> j_right ov, j_fire := j_fire j \<or> j_fire ov\<rparr>"

definition apply_joystick_override :: "joystick list \<Rightarrow> input_state \<Rightarrow> input_state" where
  "apply_joystick_override ovs input = (let js = is_joysticks input; n = min (length js) (length ovs) in
     input\<lparr>is_joysticks := map2 join_joystick js ovs @ drop n js\<rparr>)"

definition script_difficulty :: "bool \<Rightarrow> difficulty" where
  "script_difficulty v = (if v then Difficulty_A else Difficulty_B)"

definition apply_switch_override :: "switch_override \<Rightarrow> switches \<Rightarrow> switches" where
  "apply_switch_override ov sw = (let
     sw = (case so_select ov of Some v \<Rightarrow> sw\<lparr>sw_select := v\<rparr> | None \<Rightarrow> sw);
     sw = (case so_reset ov of Some v \<Rightarrow> sw\<lparr>sw_reset := v\<rparr> | None \<Rightarrow> sw);
     sw = (case so_color ov of Some v \<Rightarrow> sw\<lparr>sw_color := v\<rparr> | None \<Rightarrow> sw);
     sw = (case so_left_difficulty ov of Some v \<Rightarrow> sw\<lparr>sw_left_difficulty := script_difficulty v\<rparr> | None \<Rightarrow> sw)
   in case so_right_difficulty ov of Some v \<Rightarrow> sw\<lparr>sw_right_difficulty := script_difficulty v\<rparr> | None \<Rightarrow> sw)"

definition script_tick ::
  "'f fops \<Rightarrow> ('f, 'w) state_codec \<Rightarrow> 'w script \<Rightarrow> 'f frontend_bus script_engine \<Rightarrow> ('f, 'g, 'w) emu_core \<Rightarrow> writes_locked \<Rightarrow>
   input_state \<Rightarrow> ('f frontend_bus script_engine \<times> ('f, 'g, 'w) emu_core \<times> input_state) option" where
  "script_tick F K callback engine core lock next_input = (let
     engine = engine\<lparr>en_locked := lock\<rparr>;
     engine = engine\<lparr>en_bus := (en_bus engine)\<lparr>fs_system := ec_system core, fs_paused := ec_paused core,
       fs_joystick_override := replicate 2 joystick_default, fs_switch_override := no_switches\<rparr>\<rparr>
   in do {
     (err, engine) \<leftarrow> tick_script (host_bus F K) callback engine;
     let bus = en_bus engine;
     let core = core\<lparr>ec_system := fs_system bus\<rparr>;
     let core = (if fs_paused bus then core\<lparr>ec_paused := True\<rparr> else core);
     let next_input = apply_joystick_override (fs_joystick_override bus) next_input;
     let next_input = next_input\<lparr>is_switches := apply_switch_override (fs_switch_override bus) (is_switches next_input)\<rparr>;
     Some (engine, core, next_input) })"

end
