(* ===== verification/Script_Props.thy ===== *)
theory Script_Props
  imports Script "HOL-Library.Sublist"
begin

text \<open>
  What the write locks guard and what they do not. The locale states what a host promises about the calls
  that are never locked; with it, a script under the locks leaves the guarded part of the host as it was,
  unless it loads a state, which no lock forbids.
\<close>

subsection \<open>Scripts that avoid a call\<close>

primrec all_calls :: "('w api_call \<Rightarrow> bool) \<Rightarrow> 'w script \<Rightarrow> bool" where
  "all_calls P Script_Done = True"
| "all_calls P (Script_Raise e) = True"
| "all_calls P (Script_Call c k) = (P c \<and> (\<forall>r. all_calls P (k r)))"

fun guarded :: "'w api_call \<Rightarrow> bool" where
  "guarded (Api_Load_State w) = False"
| "guarded Api_On_Frame = False"
| "guarded _ = True"

text \<open>What a frame may add: primitives behind the ones already drawn, and lines of the log.\<close>

definition drew :: "script_overlay \<Rightarrow> script_overlay \<Rightarrow> bool" where
  "drew ov ov' \<longleftrightarrow> prefix (ov_texts ov) (ov_texts ov') \<and> prefix (ov_rects ov) (ov_rects ov') \<and>
     prefix (ov_pixels ov) (ov_pixels ov') \<and> prefix (ov_lines ov) (ov_lines ov')"

definition printed :: "log_line list \<Rightarrow> log_line list \<Rightarrow> bool" where
  "printed ls ls' \<longleftrightarrow> (\<exists>new. ls' = fold push_line new ls)"

lemma drew_refl [simp, intro]: "drew ov ov"
  by (simp add: drew_def)

lemma drew_trans: "drew a b \<Longrightarrow> drew b c \<Longrightarrow> drew a c"
  by (auto simp: drew_def intro: prefix_order.trans)

lemma printed_refl [simp, intro]: "printed ls ls"
  by (auto simp: printed_def intro: exI [of _ "[]"])

lemma printed_push [intro]: "printed ls (push_line l ls)"
  by (auto simp: printed_def intro: exI [of _ "[l]"])

lemma printed_trans: "printed a b \<Longrightarrow> printed b c \<Longrightarrow> printed a c"
  by (auto simp: printed_def fold_append [symmetric] simp del: fold_append) (metis comp_apply fold_append)

subsection \<open>The host's contract\<close>

text \<open>\<open>ok\<close> is the host's invariant and \<open>view\<close> the part of it that the locks are to protect.\<close>

locale script_host =
  fixes B :: "('b, 'w) script_bus" and ok :: "'b \<Rightarrow> bool" and view :: "'b \<Rightarrow> 'v"
  assumes peek_returns: "ok b \<Longrightarrow> \<exists>v. sb_peek B addr b = Some v"
    and pause_keeps: "ok b \<Longrightarrow> ok (sb_pause B b) \<and> view (sb_pause B b) = view b"
    and save_keeps: "ok b \<Longrightarrow> ok (snd (sb_save_state B b)) \<and> view (snd (sb_save_state B b)) = view b"
begin

definition unchanged :: "'b script_engine \<Rightarrow> 'b script_engine \<Rightarrow> bool" where
  "unchanged e e' \<longleftrightarrow> ok (en_bus e') \<and> view (en_bus e') = view (en_bus e) \<and>
     drew (en_overlay e) (en_overlay e') \<and> printed (en_log e) (en_log e') \<and>
     en_locked e' = en_locked e \<and> en_on_frame e' = en_on_frame e \<and> en_borrowed e' = en_borrowed e"

lemma unchanged_trans: "unchanged e e' \<Longrightarrow> unchanged e' e'' \<Longrightarrow> unchanged e e''"
  unfolding unchanged_def by (auto intro: drew_trans printed_trans)

lemma locked_call:
  assumes "ok (en_bus e)" "locked (en_locked e)" "guarded c"
  shows "wpo (call_api B c e) (\<lambda>(r, e'). unchanged e e')"
  using assms(3)
proof (cases c)
  case (Api_Peek a)
  then show ?thesis using assms(1) peek_returns [OF assms(1), of a] by (auto simp: unchanged_def)
next
  case Api_Save_State
  then show ?thesis using save_keeps [OF assms(1)] by (simp add: unchanged_def split_beta)
qed (use assms pause_keeps in \<open>auto simp: unchanged_def drew_def\<close>)

lemma locked_run:
  "ok (en_bus e) \<Longrightarrow> locked (en_locked e) \<Longrightarrow> all_calls guarded s \<Longrightarrow> wpo (run_script B s e) (\<lambda>(err, e'). unchanged e e')"
proof (induction s arbitrary: e)
  case (Script_Call c k)
  obtain r e' where call: "call_api B c e = Some (r, e')" "unchanged e e'"
    using locked_call [OF Script_Call.prems(1,2), of c] Script_Call.prems(3) by (auto simp: wpo_def)
  have "wpo (run_script B (k r) e') (\<lambda>(err, e''). unchanged e' e'')"
    using Script_Call.prems(2,3) call(2) by (intro Script_Call.IH) (auto simp: unchanged_def)
  then show ?case
    using call by (auto intro: unchanged_trans elim!: wpo_mono)
qed (simp_all add: unchanged_def)

lemma locked_tick:
  assumes "ok (en_bus e)" "locked (en_locked e)" "all_calls guarded s" "\<not> en_borrowed e"
  shows "wpo (tick_script B s e) (\<lambda>(err, e'). unchanged e e')"
proof (cases "en_on_frame e")
  case True
  have "wpo (run_script B s (e\<lparr>en_borrowed := True\<rparr>)) (\<lambda>(err, e'). unchanged (e\<lparr>en_borrowed := True\<rparr>) e')"
    using locked_run [of "e\<lparr>en_borrowed := True\<rparr>" s] assms by simp
  moreover have "unchanged e ((case err of None \<Rightarrow> e' | Some x \<Rightarrow> log_error x e')\<lparr>en_borrowed := False\<rparr>)"
    if "unchanged (e\<lparr>en_borrowed := True\<rparr>) e'" for err e'
    using that assms(4) unfolding unchanged_def log_error_def
    by (cases err) (auto intro: printed_trans [OF _ printed_push])
  ultimately show ?thesis
    using True by (auto simp: tick_script_def elim!: wpo_mono)
qed (use assms(1) in \<open>simp add: tick_script_def unchanged_def\<close>)

end

text \<open>The frontend's host: everything but the pause flag is protected.\<close>

interpretation fhost: script_host "host_bus F K" "\<lambda>b. sys_ok plain_cart_ok (fs_system b)"
  "\<lambda>b. b\<lparr>fs_paused := False\<rparr>" for F :: "'f fops" and K :: "('f, 'w) state_codec"
proof
  fix b :: "'f frontend_bus" and addr
  assume "sys_ok plain_cart_ok (fs_system b)"
  then have "wpo (cpu_read F cart_ops addr (sys_bus (fs_system b))) (\<lambda>_. True)"
    by (intro wpo_mono [OF vcs.cpu_read_ok]) (simp_all add: sys_ok_def)
  then show "\<exists>v. sb_peek (host_bus F K) addr b = Some v"
    by (auto simp: host_bus_def peek_def wpo_def)
qed (simp_all add: host_bus_def)

subsection \<open>What the locks guard\<close>

lemma no_joystick_override: "apply_joystick_override (replicate 2 joystick_default) input = input"
proof -
  have same: "join_joystick j joystick_default = j" for j by (simp add: join_joystick_def joystick_default_def)
  have "map2 join_joystick js (replicate 2 joystick_default) @ drop (min (length js) 2) js = js" for js
    by (cases js rule: list.exhaust; cases "tl js") (auto simp: same numeral_2_eq_2)
  then show ?thesis by (simp add: apply_joystick_override_def Let_def)
qed

lemma no_switch_override: "apply_switch_override no_switches sw = sw"
  by (simp add: apply_switch_override_def no_switches_def)

text \<open>
  C14: with either lock on, on a cartridge without an ARM coprocessor, a frame of any script whose callback makes finitely
  many calls, loads no state and registers no callback returns and leaves the next frame's input as it was. The core
  differs at most in being paused; of the engine, besides the lock and the refilled host, only the overlay may have grown and
  the log may have new lines: the script can draw, print and pause, and nothing else.
\<close>

theorem locked_script_harmless:
  assumes "sys_ok plain_cart_ok (ec_system core)" "locked lock" "all_calls guarded callback" "\<not> en_borrowed engine"
  shows "\<exists>core' paused overlay log. script_tick F K callback engine core lock input =
      Some (engine\<lparr>en_locked := lock, en_overlay := overlay, en_log := log, en_bus := (en_bus engine)
        \<lparr>fs_system := ec_system core, fs_paused := paused, fs_joystick_override := replicate 2 joystick_default,
         fs_switch_override := no_switches\<rparr>\<rparr>, core', input) \<and>
    (core' = core \<or> core' = core\<lparr>ec_paused := True\<rparr>) \<and> drew (en_overlay engine) overlay \<and> printed (en_log engine) log"
proof -
  let ?b = "(en_bus engine)\<lparr>fs_system := ec_system core, fs_paused := ec_paused core,
       fs_joystick_override := replicate 2 joystick_default, fs_switch_override := no_switches\<rparr>"
  let ?e = "engine\<lparr>en_locked := lock, en_bus := ?b\<rparr>"
  have "wpo (tick_script (host_bus F K) callback ?e) (\<lambda>(err, e'). fhost.unchanged ?e e')"
    using assms by (intro fhost.locked_tick) simp_all
  then obtain err e' where tick: "tick_script (host_bus F K) callback ?e = Some (err, e')" "fhost.unchanged ?e e'"
    by (auto simp: wpo_def)
  have e': "en_locked e' = lock" "en_on_frame e' = en_on_frame engine" "en_borrowed e' = en_borrowed engine"
      "drew (en_overlay engine) (en_overlay e')" "printed (en_log engine) (en_log e')"
      "(en_bus e')\<lparr>fs_paused := False\<rparr> = ?b\<lparr>fs_paused := False\<rparr>"
    using tick(2) by (simp_all add: fhost.unchanged_def)
  obtain paused where bus: "en_bus e' = ?b\<lparr>fs_paused := paused\<rparr>"
    using e'(6) by (cases "en_bus e'"; cases "en_bus engine") simp
  have core: "core\<lparr>ec_system := ec_system core\<rparr> = core" by simp
  let ?core = "if paused then core\<lparr>ec_paused := True\<rparr> else core"
  have "script_tick F K callback engine core lock input = Some (e', ?core, input)"
    using tick(1) by (simp add: script_tick_def Let_def bus core no_joystick_override no_switch_override)
  moreover have "e' = engine\<lparr>en_locked := lock, en_overlay := en_overlay e', en_log := en_log e', en_bus := (en_bus engine)
        \<lparr>fs_system := ec_system core, fs_paused := paused, fs_joystick_override := replicate 2 joystick_default,
         fs_switch_override := no_switches\<rparr>\<rparr>"
    using e'(1-3) bus by (intro script_engine.equality) simp_all
  ultimately show ?thesis using e'(4,5)
    by (intro exI [of _ ?core] exI [of _ paused] exI [of _ "en_overlay e'"] exI [of _ "en_log e'"]) simp
qed

definition demo_engine :: "'f fops \<Rightarrow> 'f frontend_bus script_engine" where
  "demo_engine F = (engine_new (frontend_bus_new F 0))\<lparr>en_on_frame := True\<rparr>"

text \<open>A script that tries to write the RAM, pauses and prints.\<close>

definition demo_script :: "'w script" where
  "demo_script = Script_Call (Api_Poke 0x80 1) (\<lambda>r. Script_Call Api_Pause (\<lambda>r. Script_Call (Api_Print [''hi'']) (\<lambda>r. Script_Done)))"

lemma locked_script_harmless_witness:
  "\<forall>(F :: 'f fops) (G :: 'g f32_ops). \<exists>engine' core'.
     script_tick F (demo_codec F) demo_script (demo_engine F) (demo_core F G)
       \<lparr>wl_ra_hardcore = True, wl_netplay_active = False\<rparr> input_default = Some (engine', core', input_default) \<and>
     (core' = demo_core F G \<or> core' = (demo_core F G)\<lparr>ec_paused := True\<rparr>)"
proof (intro allI)
  fix F :: "'f fops" and G :: "'g f32_ops"
  have "sys_ok plain_cart_ok (ec_system (demo_core F G))" using demo_core_playing [of F G] by (simp add: playing_def)
  moreover have "locked \<lparr>wl_ra_hardcore = True, wl_netplay_active = False\<rparr>" "all_calls guarded demo_script"
      "\<not> en_borrowed (demo_engine F)"
    by (simp_all add: locked_def demo_script_def demo_engine_def engine_new_def)
  ultimately show "\<exists>engine' core'.
     script_tick F (demo_codec F) demo_script (demo_engine F) (demo_core F G)
       \<lparr>wl_ra_hardcore = True, wl_netplay_active = False\<rparr> input_default = Some (engine', core', input_default) \<and>
     (core' = demo_core F G \<or> core' = (demo_core F G)\<lparr>ec_paused := True\<rparr>)"
    using locked_script_harmless [where F = F and core = "demo_core F G" and engine = "demo_engine F" and K = "demo_codec F"
      and callback = demo_script and input = input_default] by blast
qed

text \<open>
  the locks do not cover \<open>emu.loadState\<close>. Under any lock, a script that loads a state saved earlier
  under the host's tag replaces the running machine by the one that was saved.
\<close>

theorem locked_script_loads:
  assumes "codec_keeps K" "en_on_frame engine" "fs_rom_tag (en_bus engine) = tag"
  shows "\<exists>engine' core' input'.
    script_tick F K (Script_Call (Api_Load_State (encode K (capture s tag))) (\<lambda>r. Script_Done)) engine core lock input =
      Some (engine', core', input') \<and> ec_system core' = kept_system s"
proof -
  have "restore K (encode K (capture s tag)) tag = Inr (kept_system s)"
    using decode_encode [OF assms(1)] by (simp add: restore_def capture_def)
  then show ?thesis
    using assms(2,3) by (simp add: script_tick_def tick_script_def host_bus_def Let_def)
qed

lemma locked_script_loads_witness:
  "\<forall>(F :: 'f fops) (G :: 'g f32_ops). \<exists>engine' core' input'.
    script_tick F (demo_codec F) (Script_Call (Api_Load_State (encode (demo_codec F) (capture (system_new F 7) 0))) (\<lambda>r. Script_Done))
      (demo_engine F) (demo_core F G) \<lparr>wl_ra_hardcore = True, wl_netplay_active = True\<rparr> input_default =
      Some (engine', core', input') \<and> ec_system core' = kept_system (system_new F 7)"
  by (intro allI locked_script_loads demo_codec_keeps) (simp_all add: demo_engine_def engine_new_def frontend_bus_new_def)

text \<open>A callback that registers a callback borrows the cell a second time, which panics.\<close>

lemma on_frame_inside_callback:
  "en_on_frame engine \<Longrightarrow> script_tick F K (Script_Call Api_On_Frame k) engine core lock input = None"
  by (simp add: script_tick_def tick_script_def Let_def)

subsection \<open>Overrides\<close>

text \<open>The directions and the button held on a stick.\<close>

definition held :: "joystick \<Rightarrow> bool list" where
  "held j = [j_up j, j_down j, j_left j, j_right j, j_fire j]"

lemma join_holds: "list_all2 (\<longrightarrow>) (held j) (held (join_joystick j ov))"
  by (simp add: held_def join_joystick_def)

text \<open>
  a script can press a joystick but never release it. Whatever the script does in a frame,
  \<open>setJoystick\<close> with \<open>false\<close> included, what is held in the input it is given is still held in the input
  it leaves, which is the frontend's own input state and is not reset between frames.
\<close>

theorem script_never_releases:
  assumes "script_tick F K callback engine core lock input = Some (engine', core', input')"
  shows "list_all2 (\<lambda>j j'. list_all2 (\<longrightarrow>) (held j) (held j')) (is_joysticks input) (is_joysticks input')"
proof -
  obtain ovs where "is_joysticks input' = is_joysticks (apply_joystick_override ovs input)"
    using assms by (auto simp: script_tick_def Let_def split: bind_splits if_splits)
  moreover have "list_all2 (\<lambda>j j'. list_all2 (\<longrightarrow>) (held j) (held j')) js (map2 join_joystick js ovs @ drop (min (length js) (length ovs)) js)" for js
    by (auto simp: list_all2_conv_all_nth nth_append join_holds [unfolded list_all2_conv_all_nth] min_def
        simp del: list_all2_Cons)
  ultimately show ?thesis by (simp add: apply_joystick_override_def Let_def)
qed

lemma script_never_releases_witness:
  "\<forall>(F :: 'f fops) (G :: 'g f32_ops). \<exists>engine' core' input'. let input = input_default\<lparr>is_joysticks := replicate 2 (joystick_default\<lparr>j_up := True\<rparr>)\<rparr> in
     script_tick F (demo_codec F) (Script_Call (Api_Set_Joystick 0 ''up'' False) (\<lambda>r. Script_Done)) (demo_engine F) (demo_core F G)
       unlocked input = Some (engine', core', input') \<and>
     list_all2 (\<lambda>j j'. list_all2 (\<longrightarrow>) (held j) (held j')) (is_joysticks input) (is_joysticks input')"
proof (intro allI)
  fix F :: "'f fops" and G :: "'g f32_ops"
  let ?input = "input_default\<lparr>is_joysticks := replicate 2 (joystick_default\<lparr>j_up := True\<rparr>)\<rparr>"
  let ?call = "script_tick F (demo_codec F) (Script_Call (Api_Set_Joystick 0 ''up'' False) (\<lambda>r. Script_Done)) (demo_engine F) (demo_core F G)
       unlocked ?input"
  have "\<exists>r. ?call = Some r"
    by (simp add: script_tick_def tick_script_def Let_def demo_engine_def unlocked_def locked_def engine_new_def parse_direction_def)
  then obtain engine' core' input' where r: "?call = Some (engine', core', input')" by (metis prod_cases3)
  from r script_never_releases [OF r]
  show "\<exists>engine' core' input'. let input = ?input in
     script_tick F (demo_codec F) (Script_Call (Api_Set_Joystick 0 ''up'' False) (\<lambda>r. Script_Done)) (demo_engine F) (demo_core F G)
       unlocked input = Some (engine', core', input') \<and>
     list_all2 (\<lambda>j j'. list_all2 (\<longrightarrow>) (held j) (held j')) (is_joysticks input) (is_joysticks input')"
    unfolding Let_def by blast
qed

end
