(* ===== verification/Share_Link.thy ===== *)
theory Share_Link
  imports Rust_Str
begin

text \<open>
  The \<open>?settings=\<close> share links (\<open>crates/rusty2600-frontend/src/share_link.rs\<close>): the base64url codec, the
  query string and the two entry points. The configuration's text form, which the \<open>toml\<close> library makes
  and reads, is a parameter. Text is its UTF-8 bytes where it is encoded, and characters in the link.
\<close>

subsection \<open>base64url\<close>

definition MAX_SHARE_LEN :: nat where "MAX_SHARE_LEN = 8 * 1024"

definition ALPHABET :: string where
  "ALPHABET = ''ABCDEFGHIJKLMNOPQRSTUVWXYZabcdefghijklmnopqrstuvwxyz0123456789-_''"

definition sextet :: "nat \<Rightarrow> u32 \<Rightarrow> char" where
  "sextet k n = ALPHABET ! unat (drop_bit k n AND 0x3F)"

definition three_bytes :: "u8 \<Rightarrow> u8 \<Rightarrow> u8 \<Rightarrow> u32" where
  "three_bytes b0 b1 b2 = push_bit 16 (ucast b0) OR push_bit 8 (ucast b1) OR ucast b2"

fun base64url_encode :: "u8 list \<Rightarrow> string" where
  "base64url_encode [] = []"
| "base64url_encode [b0] = (let n = three_bytes b0 0 0 in [sextet 18 n, sextet 12 n])"
| "base64url_encode [b0, b1] = (let n = three_bytes b0 b1 0 in [sextet 18 n, sextet 12 n, sextet 6 n])"
| "base64url_encode (b0 # b1 # b2 # bytes) = (let n = three_bytes b0 b1 b2 in
     sextet 18 n # sextet 12 n # sextet 6 n # sextet 0 n # base64url_encode bytes)"

definition sextet_value :: "char \<Rightarrow> u8 option" where
  "sextet_value ch = (let c = (of_char ch :: nat) in
     if 65 \<le> c \<and> c \<le> 90 then Some (of_nat (c - 65)) else if 97 \<le> c \<and> c \<le> 122 then Some (of_nat (c - 97) + 26)
     else if 48 \<le> c \<and> c \<le> 57 then Some (of_nat (c - 48) + 52) else if ch = CHR ''-'' then Some 62
     else if ch = CHR ''_'' then Some 63 else None)"

definition four_values :: "u8 \<Rightarrow> u8 \<Rightarrow> u8 \<Rightarrow> u8 \<Rightarrow> u32" where
  "four_values v0 v1 v2 v3 = push_bit 18 (ucast v0) OR push_bit 12 (ucast v1) OR push_bit 6 (ucast v2) OR ucast v3"

fun decode_groups :: "string \<Rightarrow> u8 list option" where
  "decode_groups [] = Some []"
| "decode_groups [c0] = do { v0 \<leftarrow> sextet_value c0; None }"
| "decode_groups [c0, c1] = do { v0 \<leftarrow> sextet_value c0; v1 \<leftarrow> sextet_value c1;
     let n = four_values v0 v1 0 0; Some [ucast (drop_bit 16 n)] }"
| "decode_groups [c0, c1, c2] = do { v0 \<leftarrow> sextet_value c0; v1 \<leftarrow> sextet_value c1; v2 \<leftarrow> sextet_value c2;
     let n = four_values v0 v1 v2 0; Some [ucast (drop_bit 16 n), ucast (drop_bit 8 n)] }"
| "decode_groups (c0 # c1 # c2 # c3 # s) = do {
     v0 \<leftarrow> sextet_value c0; v1 \<leftarrow> sextet_value c1; v2 \<leftarrow> sextet_value c2; v3 \<leftarrow> sextet_value c3;
     let n = four_values v0 v1 v2 v3;
     out \<leftarrow> decode_groups s;
     Some (ucast (drop_bit 16 n) # ucast (drop_bit 8 n) # ucast n # out) }"

definition base64url_decode :: "string \<Rightarrow> u8 list option" where
  "base64url_decode s = (if \<not> list_all (\<lambda>c. (of_char c :: nat) < 128) s then None else decode_groups s)"

subsection \<open>The link\<close>

text \<open>\<open>core::str::from_utf8\<close>: whether the bytes are well-formed UTF-8.\<close>

fun utf8_valid :: "u8 list \<Rightarrow> bool" where
  "utf8_valid [] = True"
| "utf8_valid (a # s) = (let cont = (\<lambda>b :: u8. 0x80 \<le> b \<and> b \<le> 0xBF) in
     if a \<le> 0x7F then utf8_valid s
     else (case s of
       [] \<Rightarrow> False
     | b # s1 \<Rightarrow>
         if 0xC2 \<le> a \<and> a \<le> 0xDF then cont b \<and> utf8_valid s1
         else (case s1 of
           [] \<Rightarrow> False
         | c # s2 \<Rightarrow>
             if 0xE0 \<le> a \<and> a \<le> 0xEF then
               (if a = 0xE0 then 0xA0 \<le> b \<and> b \<le> 0xBF else if a = 0xED then 0x80 \<le> b \<and> b \<le> 0x9F else cont b) \<and> cont c \<and> utf8_valid s2
             else (case s2 of
               [] \<Rightarrow> False
             | d # s3 \<Rightarrow>
                 0xF0 \<le> a \<and> a \<le> 0xF4 \<and>
                 (if a = 0xF0 then 0x90 \<le> b \<and> b \<le> 0xBF else if a = 0xF4 then 0x80 \<le> b \<and> b \<le> 0x8F else cont b) \<and>
                 cont c \<and> cont d \<and> utf8_valid s3))))"

text \<open>\<open>Config::to_toml_string\<close>, whose failure is the empty text, and \<open>Config::from_toml_str\<close>.\<close>

record 'c toml_codec =
  to_toml_string :: "'c \<Rightarrow> u8 list option"
  from_toml_str :: "u8 list \<Rightarrow> 'c"

definition encode_config :: "'c toml_codec \<Rightarrow> 'c \<Rightarrow> string" where
  "encode_config T config = base64url_encode (case to_toml_string T config of Some t \<Rightarrow> t | None \<Rightarrow> [])"

definition decode_config :: "'c toml_codec \<Rightarrow> string \<Rightarrow> 'c option" where
  "decode_config T blob = (if blob = [] \<or> length blob > MAX_SHARE_LEN then None
     else do {
       bytes \<leftarrow> base64url_decode blob;
       (if utf8_valid bytes then Some (from_toml_str T bytes) else None) })"

fun first_param :: "string \<Rightarrow> string list \<Rightarrow> string option" where
  "first_param key [] = None"
| "first_param key (pair # pairs) = (case split_once (CHR ''='') pair of
     Some (k, v) \<Rightarrow> if k = key then Some v else first_param key pairs
   | None \<Rightarrow> first_param key pairs)"

definition query_param :: "string \<Rightarrow> string \<Rightarrow> string option" where
  "query_param search key = (let q = (case strip_prefix ''?'' search of Some t \<Rightarrow> t | None \<Rightarrow> search)
     in first_param key (split_char (CHR ''&'') q))"

text \<open>The search part of \<open>share_url\<close>, and what \<open>from_location\<close> makes of it.\<close>

definition share_search :: "'c toml_codec \<Rightarrow> 'c \<Rightarrow> string" where
  "share_search T config = ''?settings='' @ encode_config T config"

definition from_search :: "'c toml_codec \<Rightarrow> string \<Rightarrow> 'c option" where
  "from_search T search = do { raw \<leftarrow> query_param search ''settings''; decode_config T raw }"

subsection \<open>Round trip\<close>

lemma alphabet_list:
  "map (of_char :: char \<Rightarrow> nat) ALPHABET = [65..<91] @ [97..<123] @ [48..<58] @ [45, 95]"
  by code_simp

lemma alphabet_values:
  assumes "i < 64"
  shows "sextet_value (ALPHABET ! i) = Some (of_nat i)" "(of_char (ALPHABET ! i) :: nat) < 128" "ALPHABET ! i \<notin> set ''&=?''"
proof -
  have len: "length ALPHABET = 64" by code_simp
  define c where "c = ALPHABET ! i"
  have "(of_char c :: nat) = map of_char ALPHABET ! i" using assms len by (simp add: c_def)
  then have code: "(of_char c :: nat) = (if i < 26 then 65 + i else if i < 52 then 71 + i else if i < 62 then i - 4 else if i = 62 then 45 else 95)"
    using assms unfolding alphabet_list by (auto simp: nth_append nth_Cons')
  have char_code: "(c = d) = ((of_char c :: nat) = of_char d)" for d by simp
  consider k where "i = k" "k < 26" | k where "i = 26 + k" "k < 26" | k where "i = 52 + k" "k < 10" | "i = 62" | "i = 63"
  proof -
    have "\<exists>k. i = 26 + k \<and> k < 26" if "26 \<le> i" "i < 52" using that by (intro exI [of _ "i - 26"]) simp
    moreover have "\<exists>k. i = 52 + k \<and> k < 10" if "52 \<le> i" "i < 62" using that by (intro exI [of _ "i - 52"]) simp
    moreover have "i < 26 \<or> 26 \<le> i \<and> i < 52 \<or> 52 \<le> i \<and> i < 62 \<or> i = 62 \<or> i = 63" using assms by linarith
    ultimately show thesis using that by blast
  qed
  then have "sextet_value c = Some (of_nat i) \<and> (of_char c :: nat) < 128 \<and> c \<notin> set ''&=?''"
    unfolding sextet_value_def Let_def list.set insert_iff char_code
    by cases (simp_all add: code)
  then show "sextet_value (ALPHABET ! i) = Some (of_nat i)" "(of_char (ALPHABET ! i) :: nat) < 128" "ALPHABET ! i \<notin> set ''&=?''"
    by (simp_all add: c_def)
qed

lemma sextet_bound: "unat (n AND 0x3F :: u32) < 64"
proof -
  have "n AND 0x3F = take_bit 6 n" by (simp add: take_bit_eq_mask mask_numeral)
  then show ?thesis by (simp add: unsigned_take_bit_eq take_bit_nat_less_exp [of 6, simplified])
qed

lemma sextet_facts:
  "sextet_value (sextet k n) = Some (ucast (drop_bit k n AND 0x3F))" "(of_char (sextet k n) :: nat) < 128" "sextet k n \<notin> set ''&=?''"
proof -
  have "unat (drop_bit k n AND 0x3F) < 64" by (rule sextet_bound)
  from alphabet_values [OF this] show "sextet_value (sextet k n) = Some (ucast (drop_bit k n AND 0x3F))" "(of_char (sextet k n) :: nat) < 128" "sextet k n \<notin> set ''&=?''"
    unfolding sextet_def by (simp_all add: of_nat_unat)
qed

lemma mask6: "(0x3F :: 'a::len word) = mask 6"
  by (simp add: mask_numeral)

lemma four_three:
  assumes "\<And>i. bit n i \<Longrightarrow> i < 24"
  shows "four_values (ucast (drop_bit 18 n AND 0x3F)) (ucast (drop_bit 12 n AND 0x3F)) (ucast (drop_bit 6 n AND 0x3F)) (ucast (drop_bit 0 n AND 0x3F)) = n"
proof (rule bit_word_eqI)
  fix i assume "i < LENGTH(32)"
  consider "i < 6" | "6 \<le> i" "i < 12" | "12 \<le> i" "i < 18" | "18 \<le> i" "i < 24" | "24 \<le> i" by linarith
  then show "bit (four_values (ucast (drop_bit 18 n AND 0x3F)) (ucast (drop_bit 12 n AND 0x3F)) (ucast (drop_bit 6 n AND 0x3F)) (ucast (drop_bit 0 n AND 0x3F))) i = bit n i"
    unfolding four_values_def mask6 by cases (use assms [of i] in \<open>auto simp: bit_simps\<close>)
qed

lemma three_bounds: "bit (three_bytes b0 b1 b2) i \<Longrightarrow> i < 24"
  unfolding three_bytes_def by (auto simp: bit_simps dest: bit_imp_le_length)

lemma three_bytes_back:
  "ucast (drop_bit 16 (three_bytes b0 b1 b2)) = b0" "ucast (drop_bit 8 (three_bytes b0 b1 b2)) = b1" "ucast (three_bytes b0 b1 b2) = b2"
  unfolding three_bytes_def by (rule bit_word_eqI; auto simp: bit_simps dest: bit_imp_le_length)+

lemma no_low_sextet: "(\<And>i. i < k + 6 \<Longrightarrow> \<not> bit n i) \<Longrightarrow> drop_bit k n AND 0x3F = (0 :: u32)"
  unfolding mask6 by (rule bit_word_eqI) (auto simp: bit_simps)

lemma short_groups:
  "four_values (ucast (drop_bit 18 (three_bytes b0 0 0) AND 0x3F)) (ucast (drop_bit 12 (three_bytes b0 0 0) AND 0x3F)) 0 0 = three_bytes b0 0 0"
  "four_values (ucast (drop_bit 18 (three_bytes b0 b1 0) AND 0x3F)) (ucast (drop_bit 12 (three_bytes b0 b1 0) AND 0x3F))
     (ucast (drop_bit 6 (three_bytes b0 b1 0) AND 0x3F)) 0 = three_bytes b0 b1 0"
proof -
  have one: "drop_bit 6 (three_bytes b0 0 0) AND 0x3F = 0" "drop_bit 0 (three_bytes b0 0 0) AND 0x3F = 0"
    by (rule no_low_sextet, simp add: three_bytes_def bit_simps)+
  have two: "drop_bit 0 (three_bytes b0 b1 0) AND 0x3F = 0"
    by (rule no_low_sextet) (simp add: three_bytes_def bit_simps)
  show "four_values (ucast (drop_bit 18 (three_bytes b0 0 0) AND 0x3F)) (ucast (drop_bit 12 (three_bytes b0 0 0) AND 0x3F)) 0 0 = three_bytes b0 0 0"
    using four_three [of "three_bytes b0 0 0", OF three_bounds] unfolding one by simp
  show "four_values (ucast (drop_bit 18 (three_bytes b0 b1 0) AND 0x3F)) (ucast (drop_bit 12 (three_bytes b0 b1 0) AND 0x3F))
     (ucast (drop_bit 6 (three_bytes b0 b1 0) AND 0x3F)) 0 = three_bytes b0 b1 0"
    using four_three [of "three_bytes b0 b1 0", OF three_bounds] unfolding two by simp
qed

lemma decode_groups_encode: "decode_groups (base64url_encode bytes) = Some bytes"
proof (induction bytes rule: base64url_encode.induct)
  case (4 b0 b1 b2 bytes)
  then show ?case
    using four_three [of "three_bytes b0 b1 b2", OF three_bounds] by (simp add: Let_def sextet_facts(1) three_bytes_back)
qed (simp_all add: Let_def sextet_facts(1) short_groups three_bytes_back)

lemma encode_chars:
  "c \<in> set (base64url_encode bytes) \<Longrightarrow> (of_char c :: nat) < 128 \<and> c \<notin> set ''&=?''"
  by (induction bytes rule: base64url_encode.induct) (use sextet_facts(2,3) in \<open>auto simp: Let_def\<close>)

lemma decode_encode_bytes: "base64url_decode (base64url_encode bytes) = Some bytes"
  using encode_chars decode_groups_encode by (simp add: base64url_decode_def list_all_iff)

text \<open>
  the codec of the share links loses nothing: every sequence of bytes is read back from its text.
\<close>

theorem base64url_roundtrip: "base64url_decode (base64url_encode bytes) = Some bytes"
  by (rule decode_encode_bytes)

lemma encode_length: "length (base64url_encode bytes) = (4 * length bytes + 2) div 3"
  by (induction bytes rule: base64url_encode.induct) (simp_all add: Let_def)

lemma split_char_none: "d \<notin> set s \<Longrightarrow> split_char d s = [s]"
  by (induction s) auto

text \<open>
  C26: opening a link that was made from a configuration gives that configuration as its text reads back,
  unless the text has more than 6144 bytes: such a link is made all the same, and then refused.
\<close>

theorem share_link_roundtrip:
  assumes "to_toml_string T config = Some t" "utf8_valid t" "t \<noteq> []"
  shows "from_search T (share_search T config) = (if length t \<le> 6144 then Some (from_toml_str T t) else None)"
proof -
  let ?blob = "base64url_encode t"
  have "CHR ''&'' \<notin> set ?blob" using encode_chars [of "CHR ''&''" t] by auto
  then have "split_char (CHR ''&'') (''settings='' @ ?blob) = [''settings='' @ ?blob]" by (intro split_char_none) auto
  then have "query_param (''?settings='' @ ?blob) ''settings'' = Some ?blob"
    by (simp add: query_param_def strip_prefix_def)
  moreover have "?blob \<noteq> []" "length ?blob \<le> MAX_SHARE_LEN \<longleftrightarrow> length t \<le> 6144"
  proof -
    have "0 < length t" using assms(3) by simp
    then have "0 < (4 * length t + 2) div 3" by linarith
    then show "?blob \<noteq> []" using encode_length [of t] by (metis less_numeral_extra(3) list.size(3))
    have "(4 * length t + 2) div 3 \<le> 8192 \<longleftrightarrow> length t \<le> 6144" by linarith
    then show "length ?blob \<le> MAX_SHARE_LEN \<longleftrightarrow> length t \<le> 6144" by (simp add: MAX_SHARE_LEN_def encode_length)
  qed
  ultimately show ?thesis
    using assms by (simp add: from_search_def share_search_def encode_config_def decode_config_def decode_encode_bytes) linarith
qed

text \<open>A configuration that is its own text.\<close>

lemma share_link_roundtrip_witness:
  "from_search \<lparr>to_toml_string = Some, from_toml_str = id\<rparr> (share_search \<lparr>to_toml_string = Some, from_toml_str = id\<rparr> [0x70, 0x31]) = Some [0x70, 0x31]"
  using share_link_roundtrip [of "\<lparr>to_toml_string = Some, from_toml_str = id\<rparr>" "[0x70, 0x31]" "[0x70, 0x31]"] by simp

end
