(* ===== verification/Shader_Preset.thy ===== *)
theory Shader_Preset
  imports Rust_Str
begin

text \<open>
  The importer of RetroArch shader presets (\<open>crates/rusty2600-frontend/src/slang_preset.rs\<close>) and the kinds
  of passes it maps them to (\<open>crates/rusty2600-gfx-shaders/src/lib.rs\<close>, whose shader sources are left out).
\<close>

subsection \<open>Passes\<close>

datatype pass_kind = CompositeArtifact | CrtScanline | NtscComposite | HqNx | Xbrz | CrtRoyale | CrtGuest | Megatron

primrec pass_label :: "pass_kind \<Rightarrow> string" where
  "pass_label CompositeArtifact = ''Composite artifact (approximation)''"
| "pass_label CrtScanline = ''CRT scanline''"
| "pass_label NtscComposite = ''NTSC composite (YIQ decode, NTSC only)''"
| "pass_label HqNx = ''hqNx smoothing''"
| "pass_label Xbrz = ''xBRZ smoothing''"
| "pass_label CrtRoyale = ''CRT-Royale''"
| "pass_label CrtGuest = ''CRT Guest Advanced''"
| "pass_label Megatron = ''Sony Megatron''"

definition requires_first_position :: "pass_kind \<Rightarrow> bool" where
  "requires_first_position k \<longleftrightarrow> k = NtscComposite"

subsection \<open>Lines\<close>

definition parse_kv :: "string \<Rightarrow> (string \<times> string) option" where
  "parse_kv line = (let line = trim line in
     if line = [] \<or> strip_prefix ''#'' line \<noteq> None \<or> strip_prefix ''//'' line \<noteq> None then None
     else do {
       (k, v) \<leftarrow> split_once (CHR ''='') line;
       let v = trim v;
       let v = (case strip_prefix [CHR 0x22] v of
           None \<Rightarrow> (let hash = (case find_str ''#'' v of Some i \<Rightarrow> i | None \<Rightarrow> length v);
               slashes = (case find_str ''//'' v of Some i \<Rightarrow> i | None \<Rightarrow> length v)
             in take (min hash slashes) v)
         | Some rest \<Rightarrow> (case find_str [CHR 0x22] rest of None \<Rightarrow> v | Some e \<Rightarrow> take (e + 2) v));
       let v = trim (trim_matches (CHR 0x22) (trim v));
       Some (map to_ascii_lowercase (trim k), v) })"

text \<open>The part of a path behind its last separator, up to the first dot.\<close>

definition file_of :: "string \<Rightarrow> string" where
  "file_of path = rev (takeWhile (\<lambda>c. c \<noteq> CHR ''/'' \<and> c \<noteq> CHR 0x5C) (rev path))"

definition shader_stem :: "string \<Rightarrow> string" where
  "shader_stem path = map to_ascii_lowercase (takeWhile (\<lambda>c. c \<noteq> CHR ''.'') (file_of path))"

datatype stem_map = Stem_Builtin pass_kind | Stem_Skip | Stem_Unsupported

definition map_stem_to_builtin :: "string \<Rightarrow> stem_map" where
  "map_stem_to_builtin stem = (let has = (\<lambda>needle. contains_str needle stem) in
     if has ''xbrz'' \<or> has ''xbr'' then Stem_Builtin Xbrz
     else if has ''hqx'' \<or> has ''hq2x'' \<or> has ''hq4x'' then Stem_Builtin HqNx
     else if has ''ntsc'' \<or> has ''composite'' then Stem_Builtin CompositeArtifact
     else if has ''royale'' then Stem_Builtin CrtRoyale
     else if has ''guest'' \<or> has ''venom'' then Stem_Builtin CrtGuest
     else if has ''megatron'' then Stem_Builtin Megatron
     else if has ''crt'' \<or> has ''scanline'' \<or> has ''aperture'' \<or> has ''geom'' then Stem_Builtin CrtScanline
     else if has ''stock'' \<or> has ''passthrough'' \<or> has ''pixellate'' then Stem_Skip
     else Stem_Unsupported)"

subsection \<open>Presets\<close>

text \<open>\<open>ImportedPass::Unsupported\<close>; its reason is always the same text.\<close>

record import_result =
  ir_passes :: "pass_kind list"
  ir_unsupported :: "string list"

definition any_mapped :: "import_result \<Rightarrow> bool" where
  "any_mapped r \<longleftrightarrow> ir_passes r \<noteq> []"

definition unsupported_count :: "import_result \<Rightarrow> nat" where
  "unsupported_count r = length (ir_unsupported r)"

text \<open>A \<open>BTreeMap\<close> as the list of its entries in ascending order of the keys.\<close>

fun btree_insert :: "nat \<Rightarrow> 'v \<Rightarrow> (nat \<times> 'v) list \<Rightarrow> (nat \<times> 'v) list" where
  "btree_insert k v [] = [(k, v)]"
| "btree_insert k v ((k', v') # m) = (if k < k' then (k, v) # (k', v') # m
     else if k = k' then (k, v) # m else (k', v') # btree_insert k v m)"

definition shader_entry :: "string \<Rightarrow> (nat \<times> string) option" where
  "shader_entry line = do {
     (k, v) \<leftarrow> parse_kv line;
     rest \<leftarrow> strip_prefix ''shader'' k;
     idx \<leftarrow> parse_usize rest;
     Some (idx, v) }"

definition collect_paths :: "string list \<Rightarrow> (nat \<times> string) list" where
  "collect_paths ls = fold (\<lambda>line m. case shader_entry line of Some (idx, v) \<Rightarrow> btree_insert idx v m | None \<Rightarrow> m) ls []"

definition add_path :: "string \<Rightarrow> import_result \<Rightarrow> import_result" where
  "add_path path r = (case map_stem_to_builtin (shader_stem path) of
     Stem_Builtin kind \<Rightarrow> r\<lparr>ir_passes := ir_passes r @ [kind]\<rparr>
   | Stem_Skip \<Rightarrow> r
   | Stem_Unsupported \<Rightarrow> r\<lparr>ir_unsupported := ir_unsupported r @ [path]\<rparr>)"

text \<open>\<open>None\<close> is the error that there are no entries.\<close>

definition import_preset :: "string \<Rightarrow> import_result option" where
  "import_preset text = (let shader_paths = collect_paths (str_lines text) in
     if shader_paths = [] then None
     else Some (fold (\<lambda>(idx, path). add_path path) shader_paths \<lparr>ir_passes = [], ir_unsupported = []\<rparr>))"

subsection \<open>What is imported\<close>

lemma btree_keys: "set (map fst (btree_insert k v m)) = insert k (set (map fst m))"
  by (induction m rule: btree_insert.induct) auto

lemma btree_sorted: "sorted_wrt (<) (map fst m) \<Longrightarrow> sorted_wrt (<) (map fst (btree_insert k v m))"
proof (induction k v m rule: btree_insert.induct)
  case (2 k v k' v' m)
  have "sorted_wrt (<) (map fst (btree_insert k v m))" if "\<not> k < k'" "k \<noteq> k'" using 2 that by simp
  then show ?case using 2(2) btree_keys [of k v m] by auto
qed simp

lemma btree_lookup: "map_of (btree_insert k v m) = (map_of m)(k \<mapsto> v)" if "sorted_wrt (<) (map fst m)"
  using that
proof (induction k v m rule: btree_insert.induct)
  case (2 k v k' v' m)
  show ?case
  proof (cases "\<not> k < k' \<and> k \<noteq> k'")
    case True
    then show ?thesis using 2 by (auto simp: fun_eq_iff)
  next
    case False
    then show ?thesis by (auto simp: fun_eq_iff)
  qed
qed simp

text \<open>The last declaration of each index, which is what the map holds.\<close>

definition last_path :: "string list \<Rightarrow> nat \<Rightarrow> string option" where
  "last_path ls = map_of (rev (List.map_filter shader_entry ls))"

lemma collect_fold:
  "sorted_wrt (<) (map fst m) \<Longrightarrow>
   (let m' = fold (\<lambda>line m. case shader_entry line of Some (idx, v) \<Rightarrow> btree_insert idx v m | None \<Rightarrow> m) ls m in
    sorted_wrt (<) (map fst m') \<and> map_of m' = map_of m ++ map_of (rev (List.map_filter shader_entry ls)))"
proof (induction ls arbitrary: m)
  case (Cons l ls)
  show ?case
  proof (cases "shader_entry l")
    case None
    then show ?thesis using Cons by (simp add: map_filter_simps)
  next
    case (Some e)
    obtain i v where e: "e = (i, v)" by (cases e)
    then show ?thesis
      using Cons.IH [OF btree_sorted [OF Cons.prems, of i v]] Some btree_lookup [OF Cons.prems]
      by (simp add: map_filter_simps Let_def map_add_def fun_eq_iff split: option.split)
  qed
qed (simp add: map_filter_simps)

lemma collect_paths_map:
  "sorted_wrt (<) (map fst (collect_paths ls))" "map_of (collect_paths ls) = last_path ls"
  using collect_fold [of "[]" ls] by (simp_all add: collect_paths_def last_path_def Let_def)

lemma add_paths:
  "fold (\<lambda>(idx, path). add_path path) m r = r\<lparr>
     ir_passes := ir_passes r @ List.map_filter (\<lambda>(i, p). case map_stem_to_builtin (shader_stem p) of Stem_Builtin k \<Rightarrow> Some k | _ \<Rightarrow> None) m,
     ir_unsupported := ir_unsupported r @ map snd (filter (\<lambda>(i, p). map_stem_to_builtin (shader_stem p) = Stem_Unsupported) m)\<rparr>"
  by (induction m arbitrary: r) (auto simp: add_path_def map_filter_simps split: stem_map.split)

text \<open>
  C27: what an imported preset holds. The import fails exactly when no line declares a pass; otherwise the
  declared indices are taken once each, in ascending order and with the last path declared for them, and
  each path is mapped to its pass, skipped as a pass-through, or reported: none is lost. No imported pass
  is one that must come first, so every imported stack is valid wherever it is placed.
\<close>

theorem import_preset_result:
  "case import_preset text of
     None \<Rightarrow> \<forall>i. last_path (str_lines text) i = None
   | Some r \<Rightarrow> \<exists>m. m \<noteq> [] \<and> sorted_wrt (<) (map fst m) \<and> map_of m = last_path (str_lines text) \<and>
       ir_passes r = List.map_filter (\<lambda>(i, p). case map_stem_to_builtin (shader_stem p) of Stem_Builtin k \<Rightarrow> Some k | _ \<Rightarrow> None) m \<and>
       ir_unsupported r = map snd (filter (\<lambda>(i, p). map_stem_to_builtin (shader_stem p) = Stem_Unsupported) m) \<and>
       list_all (\<lambda>k. \<not> requires_first_position k) (ir_passes r)"
proof (cases "collect_paths (str_lines text) = []")
  case True
  then show ?thesis using collect_paths_map(2) [of "str_lines text"] by (auto simp: import_preset_def Let_def dest: sym)
next
  case False
  have first: "map_stem_to_builtin s = Stem_Builtin k \<Longrightarrow> \<not> requires_first_position k" for s k
    by (auto simp: map_stem_to_builtin_def requires_first_position_def Let_def split: if_splits)
  have "list_all (\<lambda>k. \<not> requires_first_position k)
      (List.map_filter (\<lambda>(i, p). case map_stem_to_builtin (shader_stem p) of Stem_Builtin k \<Rightarrow> Some k | _ \<Rightarrow> None) m)" for m
    using first by (auto simp: list_all_iff map_filter_def split: stem_map.splits)
  then show ?thesis
    using False collect_paths_map [of "str_lines text"]
    by (simp add: import_preset_def Let_def add_paths) (intro exI [of _ "collect_paths (str_lines text)"], simp)
qed

text \<open>A preset of the Royale family with an NTSC stage in its name is taken for the NTSC one.\<close>

lemma royale_ntsc: "map_stem_to_builtin (shader_stem ''shaders/crt-royale-ntsc-composite.slang'') = Stem_Builtin CompositeArtifact"
  by code_simp

end
