(* ===== verification/Mobile.thy ===== *)
theory Mobile
  imports Emu_Core
begin

text \<open>
  The emulator behind the mobile bindings (\<open>crates/rusty2600-mobile/src/lib.rs\<close>). It keeps a machine of its
  own and repeats the frontend's input, frame, picture and sample code for NTSC; the theorem at the end is
  that it plays a frame as the frontend does. The mutex is left out: every method holds it throughout.
\<close>

subsection \<open>Input\<close>

record mobile_joystick =
  mj_up :: bool
  mj_down :: bool
  mj_left :: bool
  mj_right :: bool
  mj_fire :: bool

record mobile_paddle =
  mp_position :: u8
  mp_fire :: bool

record mobile_switches =
  ms_select :: bool
  ms_reset :: bool
  ms_color :: bool
  ms_left_difficulty :: bool
  ms_right_difficulty :: bool

definition mobile_switches_default :: mobile_switches where
  "mobile_switches_default = \<lparr>ms_select = False, ms_reset = False, ms_color = True, ms_left_difficulty = False, ms_right_difficulty = False\<rparr>"

record mobile_input =
  mi_joystick0 :: mobile_joystick
  mi_joystick1 :: mobile_joystick
  mi_paddle0 :: mobile_paddle
  mi_paddle1 :: mobile_paddle
  mi_paddle2 :: mobile_paddle
  mi_paddle3 :: mobile_paddle
  mi_switches :: mobile_switches

definition mobile_swcha_nibble :: "mobile_joystick \<Rightarrow> u8" where
  "mobile_swcha_nibble j = (let
     n = 0x0F;
     n = (if mj_up j then n AND NOT 0x01 else n);
     n = (if mj_down j then n AND NOT 0x02 else n);
     n = (if mj_left j then n AND NOT 0x04 else n)
   in if mj_right j then n AND NOT 0x08 else n)"

definition mobile_swchb_byte :: "mobile_switches \<Rightarrow> u8" where
  "mobile_swchb_byte s = (let
     b = 0xFF;
     b = (if ms_reset s then b AND NOT 0x01 else b);
     b = (if ms_select s then b AND NOT 0x02 else b);
     b = (if \<not> ms_color s then b AND NOT 0x08 else b);
     b = (if \<not> ms_left_difficulty s then b AND NOT 0x40 else b)
   in if \<not> ms_right_difficulty s then b AND NOT 0x80 else b)"

definition mobile_riot_ports :: "mobile_input \<Rightarrow> u8 \<times> u8" where
  "mobile_riot_ports inp = (push_bit 4 (mobile_swcha_nibble (mi_joystick0 inp)) OR mobile_swcha_nibble (mi_joystick1 inp),
     mobile_swchb_byte (mi_switches inp))"

definition mobile_fire_inputs :: "mobile_input \<Rightarrow> u8 \<times> u8" where
  "mobile_fire_inputs inp = (let level = (\<lambda>pressed. if pressed then 0x00 else 0x80)
     in (level (mj_fire (mi_joystick0 inp)), level (mj_fire (mi_joystick1 inp))))"

definition mobile_paddle_positions :: "mobile_input \<Rightarrow> u8 list" where
  "mobile_paddle_positions inp = [mp_position (mi_paddle0 inp), mp_position (mi_paddle1 inp), mp_position (mi_paddle2 inp),
     mp_position (mi_paddle3 inp)]"

subsection \<open>The emulator\<close>

definition ATARI_W :: nat where "ATARI_W = 160"
definition ATARI_H :: nat where "ATARI_H = 192"
definition NTSC_VBLANK_LINES :: nat where "NTSC_VBLANK_LINES = 37"

definition MOBILE_NTSC_PALETTE :: "u32 list" where
  "MOBILE_NTSC_PALETTE = [
    0x000000, 0x4A4A4A, 0x6F6F6F, 0x8E8E8E, 0xAAAAAA, 0xC0C0C0, 0xD6D6D6, 0xECECEC,
    0x484800, 0x69690F, 0x86861D, 0xA2A22A, 0xBBBB35, 0xD2D240, 0xE8E84A, 0xFCFC54,
    0x7C2C00, 0x904811, 0xA26221, 0xB47A30, 0xC3903D, 0xD2A44A, 0xDFB755, 0xECC860,
    0x901C00, 0xA33915, 0xB55328, 0xC66C3A, 0xD5824A, 0xE39759, 0xF0AA67, 0xFCBC74,
    0x940000, 0xA71A1A, 0xB83232, 0xC84848, 0xD65C5C, 0xE46F6F, 0xF08080, 0xFC9090,
    0x840064, 0x97197A, 0xA8308F, 0xB846A2, 0xC659B3, 0xD46CC3, 0xE07CD2, 0xEC8CE0,
    0x500084, 0x68199A, 0x7D30AD, 0x9246C0, 0xA459D0, 0xB56CE0, 0xC57CEE, 0xD48CFC,
    0x140090, 0x331AA3, 0x4E32B5, 0x6848C6, 0x7F5CD5, 0x956FE3, 0xA980F0, 0xBC90FC,
    0x000094, 0x181AA7, 0x2D32B8, 0x4248C8, 0x545CD6, 0x656FE4, 0x7580F0, 0x8490FC,
    0x001C88, 0x183B9D, 0x2D57B0, 0x4272C2, 0x548AD2, 0x65A0E1, 0x75B5EF, 0x84C8FC,
    0x003064, 0x185080, 0x2D6D98, 0x4288B0, 0x54A0C5, 0x65B7D9, 0x75CCEB, 0x84E0FC,
    0x004030, 0x18624E, 0x2D8169, 0x429E82, 0x54B899, 0x65D1AE, 0x75E7C2, 0x84FCD4,
    0x004400, 0x1A661A, 0x328432, 0x48A048, 0x5CBA5C, 0x6FD26F, 0x80E880, 0x90FC90,
    0x143C00, 0x355F18, 0x527E2D, 0x6E9C42, 0x87B754, 0x9ED065, 0xB4E775, 0xC8FC84,
    0x303800, 0x505916, 0x6D762B, 0x88923E, 0xA0AB4F, 0xB7C25F, 0xCCD86E, 0xE0EC7C,
    0x482C00, 0x694D14, 0x866A26, 0xA28638, 0xBB9F47, 0xD2B656, 0xE8CC63, 0xFCE070]"

record 'g frame_output =
  fo_rgba :: "u8 list"
  fo_audio_samples :: "'g list"

datatype mobile_error = UnrecognizedRom | NoRomLoaded | MobileSaveState save_state_error

record ('f, 'g) emu_state =
  es_system :: "('f, cartridge) system option"
  es_rom_tag :: u64
  es_dc_x :: 'g
  es_dc_y :: 'g

definition mobile_new :: "'g f32_ops \<Rightarrow> ('f, 'g) emu_state" where
  "mobile_new G = \<lparr>es_system = None, es_rom_tag = 0, es_dc_x = f32_0 G, es_dc_y = f32_0 G\<rparr>"

text \<open>\<open>None\<close> is a panic.\<close>

definition mobile_load_rom ::
  "'f fops \<Rightarrow> 'g f32_ops \<Rightarrow> u8 list \<Rightarrow> u64 \<Rightarrow> ('f, 'g) emu_state \<Rightarrow> (mobile_error + ('f, 'g) emu_state) option" where
  "mobile_load_rom F G bytes rom_tag st = (case detect bytes of
     None \<Rightarrow> Some (Inl UnrecognizedRom)
   | Some c \<Rightarrow> do {
       let s = system_new F 0;
       let s = s\<lparr>sys_bus := (sys_bus s)\<lparr>b_board := Some c\<rparr>\<rparr>;
       s \<leftarrow> system_reset F cart_ops s;
       Some (Inr (st\<lparr>es_system := Some s, es_rom_tag := rom_tag, es_dc_x := f32_0 G, es_dc_y := f32_0 G\<rparr>)) })"

definition mobile_is_rom_loaded :: "('f, 'g) emu_state \<Rightarrow> bool" where
  "mobile_is_rom_loaded st \<longleftrightarrow> es_system st \<noteq> None"

definition mobile_latch :: "'f fops \<Rightarrow> mobile_input \<Rightarrow> ('f, cartridge) system \<Rightarrow> ('f, cartridge) system" where
  "mobile_latch F inp s = (let
     (swcha, swchb) = mobile_riot_ports inp;
     b = sys_bus s;
     r = (b_riot b)\<lparr>riot_pins := (riot_pins (b_riot b))[0 := swcha, 1 := swchb]\<rparr>;
     (inpt4, inpt5) = mobile_fire_inputs inp;
     t = (b_tia b)\<lparr>tia_inpt := (tia_inpt (b_tia b))[4 := inpt4, 5 := inpt5]\<rparr>;
     t = fold (\<lambda>(i, p). set_paddle_position F i p) (enumerate 0 (mobile_paddle_positions inp)) t
   in s\<lparr>sys_bus := b\<lparr>b_riot := r, b_tia := t\<rparr>\<rparr>)"

definition put_rgba :: "nat \<Rightarrow> nat \<Rightarrow> u32 \<Rightarrow> u8 list \<Rightarrow> u8 list" where
  "put_rgba x y rgb out = (let off = (y * ATARI_W + x) * 4
     in out[off := ucast (drop_bit 16 rgb), off + 1 := ucast (drop_bit 8 rgb), off + 2 := ucast rgb, off + 3 := 255])"

definition mobile_picture :: "u8 list \<Rightarrow> u8 list" where
  "mobile_picture video = fold (\<lambda>y. fold (\<lambda>x. let
       src = (y + NTSC_VBLANK_LINES) * 160 + x;
       color_idx = (if src < length video then video ! src else 0);
       rgb = MOBILE_NTSC_PALETTE ! unat (drop_bit 1 color_idx)
     in put_rgba x y rgb) [0..<ATARI_W]) [0..<ATARI_H] (replicate (ATARI_W * ATARI_H * 4) 0)"

fun mobile_dc_process :: "'g f32_ops \<Rightarrow> u8 list \<Rightarrow> 'g \<times> 'g \<Rightarrow> 'g list \<times> 'g \<times> 'g" where
  "mobile_dc_process G [] xy = ([], xy)"
| "mobile_dc_process G (s # ss) xy = (let
     (y, xy) = dc_block G s xy;
     (out, xy) = mobile_dc_process G ss xy
   in (y # out, xy))"

definition mobile_run_frame ::
  "'f fops \<Rightarrow> 'g f32_ops \<Rightarrow> mobile_input \<Rightarrow> ('f, 'g) emu_state \<Rightarrow> (mobile_error + 'g frame_output \<times> ('f, 'g) emu_state) option" where
  "mobile_run_frame F G inp st = (case es_system st of
     None \<Rightarrow> Some (Inl NoRomLoaded)
   | Some s \<Rightarrow> do {
       let s = mobile_latch F inp s;
       s \<leftarrow> frame_loop F cart_ops 200000 (sys_vsync s) s;
       let out = mobile_picture (tia_video_buffer (b_tia (sys_bus s)));
       let raw_samples = tia_audio_buffer (b_tia (sys_bus s));
       let s = clear_samples s;
       let (samples, x, y) = mobile_dc_process G raw_samples (es_dc_x st, es_dc_y st);
       Some (Inr (\<lparr>fo_rgba = out, fo_audio_samples = samples\<rparr>, st\<lparr>es_system := Some s, es_dc_x := x, es_dc_y := y\<rparr>)) })"

definition mobile_save_state :: "('f, 'w) state_codec \<Rightarrow> ('f, 'g) emu_state \<Rightarrow> mobile_error + 'w" where
  "mobile_save_state K st = (case es_system st of
     None \<Rightarrow> Inl NoRomLoaded | Some s \<Rightarrow> Inr (encode K (capture s (es_rom_tag st))))"

definition mobile_load_state :: "('f, 'w) state_codec \<Rightarrow> 'w \<Rightarrow> ('f, 'g) emu_state \<Rightarrow> mobile_error + ('f, 'g) emu_state" where
  "mobile_load_state K bytes st = (case restore K bytes (es_rom_tag st) of
     Inl e \<Rightarrow> Inl (MobileSaveState e) | Inr s \<Rightarrow> Inr (st\<lparr>es_system := Some s\<rparr>))"

subsection \<open>The frontend's frame\<close>

definition desktop_joystick :: "mobile_joystick \<Rightarrow> joystick" where
  "desktop_joystick j = \<lparr>j_up = mj_up j, j_down = mj_down j, j_left = mj_left j, j_right = mj_right j, j_fire = mj_fire j\<rparr>"

definition desktop_pot :: "mobile_paddle \<Rightarrow> pot" where
  "desktop_pot p = \<lparr>pot_position = mp_position p, pot_fire = mp_fire p\<rparr>"

definition desktop_difficulty :: "bool \<Rightarrow> difficulty" where
  "desktop_difficulty a = (if a then Difficulty_A else Difficulty_B)"

definition desktop_switches :: "mobile_switches \<Rightarrow> switches" where
  "desktop_switches s = \<lparr>sw_select = ms_select s, sw_reset = ms_reset s, sw_color = ms_color s,
     sw_left_difficulty = desktop_difficulty (ms_left_difficulty s), sw_right_difficulty = desktop_difficulty (ms_right_difficulty s)\<rparr>"

text \<open>The same input as the frontend holds it.\<close>

definition desktop_input :: "mobile_input \<Rightarrow> input_state" where
  "desktop_input inp = \<lparr>is_joysticks = [desktop_joystick (mi_joystick0 inp), desktop_joystick (mi_joystick1 inp)],
     is_paddles = map desktop_pot [mi_paddle0 inp, mi_paddle1 inp, mi_paddle2 inp, mi_paddle3 inp],
     is_switches = desktop_switches (mi_switches inp)\<rparr>"

lemma mobile_ports: "mobile_riot_ports inp = input_riot_ports (desktop_input inp)"
proof -
  have "mobile_swcha_nibble j = swcha_nibble (desktop_joystick j)" for j
    by (simp add: mobile_swcha_nibble_def swcha_nibble_def desktop_joystick_def clear_bits_def Let_def)
  moreover have "mobile_swchb_byte s = swchb_byte (desktop_switches s)" for s
    by (simp add: mobile_swchb_byte_def swchb_byte_def desktop_switches_def desktop_difficulty_def clear_bits_def Let_def)
  ultimately show ?thesis by (simp add: mobile_riot_ports_def input_riot_ports_def desktop_input_def)
qed

lemma mobile_latch_eq: "mobile_latch F inp s = latch_input F (state_input (desktop_input inp)) s"
proof -
  have "mobile_fire_inputs inp = fire_inputs (desktop_input inp)"
    by (simp add: mobile_fire_inputs_def fire_inputs_def fire_level_def desktop_input_def desktop_joystick_def Let_def)
  moreover have "mobile_paddle_positions inp = map pot_position (is_paddles (desktop_input inp))"
    by (simp add: mobile_paddle_positions_def desktop_input_def desktop_pot_def)
  ultimately show ?thesis
    by (simp add: mobile_latch_def latch_input_def state_input_def set_paddles_def mobile_ports split_beta Let_def)
qed

lemma mobile_dc: "mobile_dc_process G ss xy = dc_block_all G ss xy"
  by (induction ss arbitrary: xy) (simp_all add: split_beta Let_def)

lemma mobile_palette: "MOBILE_NTSC_PALETTE = NTSC_TABLE"
  by (simp add: MOBILE_NTSC_PALETTE_def NTSC_TABLE_def)

lemma fst_fold_pair: "fst (fold (\<lambda>x (a, b). (f x a, g x b)) xs ab) = fold f xs (fst ab)"
  by (induction xs arbitrary: ab) (simp_all add: split_beta)

lemma fst_fold_fold_pair:
  "fst (fold (\<lambda>y. fold (\<lambda>x (a, b). (f x y a, g x y b)) xs) ys ab) = fold (\<lambda>y. fold (\<lambda>x. f x y) xs) ys (fst ab)"
  by (induction ys arbitrary: ab) (simp_all add: fst_fold_pair)

lemma fold_keeps_eq:
  assumes "\<And>x a. x \<in> set xs \<Longrightarrow> P a \<Longrightarrow> f x a = g x a \<and> P (g x a)" "P a"
  shows "fold f xs a = fold g xs a \<and> P (fold g xs a)"
  using assms by (induction xs arbitrary: a) auto

text \<open>The picture is the frontend's picture of an empty buffer of the right size.\<close>

lemma mobile_picture_eq:
  "mobile_picture video = fst (crop_picture Region_Ntsc video (replicate (160 * 192 * 4) 0, replicate (160 * 192) 0))"
proof -
  let ?full = "\<lambda>fb :: u8 list. length fb = 160 * 192 * 4"
  let ?put = "\<lambda>y x. put_framebuffer x y (lookup_color Region_Ntsc (drop_bit 1 (picture_dot Region_Ntsc video x y)))"
  have color: "lookup_color Region_Ntsc (drop_bit 1 c) = MOBILE_NTSC_PALETTE ! unat (drop_bit 1 c)" for c :: u8
  proof -
    have "unat (drop_bit 1 c) < 128" using word8_bound [of c] unfolding unsigned_drop_bit_eq by (simp add: drop_bit_eq_div take_bit_nat_eq_self)
    then show ?thesis by (simp add: lookup_color_def mobile_palette PALETTE_LEN_def)
  qed
  have dot: "(let src = (y + NTSC_VBLANK_LINES) * 160 + x; color_idx = (if src < length video then video ! src else 0);
        rgb = MOBILE_NTSC_PALETTE ! unat (drop_bit 1 color_idx) in put_rgba x y rgb) fb = ?put y x fb \<and> ?full (?put y x fb)"
    if "x \<in> set [0..<160]" "y \<in> set [0..<192]" "?full fb" for x y fb
  proof -
    have "(y * 160 + x) * 4 + 3 < length fb" using that by auto
    then show ?thesis
      using that(3) by (simp add: put_rgba_def put_framebuffer_def Let_def color [simplified One_nat_def] picture_dot_def video_at_def vblank_lines_def
          NTSC_VBLANK_LINES_def ATARI_W_def)
  qed
  have row: "fold (\<lambda>x. let src = (y + NTSC_VBLANK_LINES) * 160 + x; color_idx = (if src < length video then video ! src else 0);
        rgb = MOBILE_NTSC_PALETTE ! unat (drop_bit 1 color_idx) in put_rgba x y rgb) [0..<160] fb = fold (?put y) [0..<160] fb \<and>
      ?full (fold (?put y) [0..<160] fb)" if "y \<in> set [0..<192]" "?full fb" for y fb
    using dot that by (intro fold_keeps_eq) auto
  have "mobile_picture video = fold (\<lambda>y. fold (?put y) [0..<160]) [0..<192] (replicate (160 * 192 * 4) 0)"
    unfolding mobile_picture_def ATARI_W_def ATARI_H_def
    by (rule conjunct1, rule fold_keeps_eq [where P = ?full], rule row) simp_all
  also have "\<dots> = fst (crop_picture Region_Ntsc video (replicate (160 * 192 * 4) 0, replicate (160 * 192) 0))"
    by (simp add: crop_picture_def fst_fold_fold_pair Let_def VISIBLE_HEIGHT_NTSC_def VCS_W_def)
  finally show ?thesis .
qed

text \<open>The dots of the used part do not depend on what the buffers held.\<close>

lemma cropped_ok: "big_enough h bufs \<Longrightarrow> frame_ok 160 h (cropped h bufs)"
  by (simp add: frame_ok_def cropped_def big_enough_def)

lemma draw_forgets:
  assumes "frame_ok 160 (active_height r) f" "frame_ok 160 (active_height r) g"
  shows "draw_onto r video f = draw_onto r video g"
proof -
  have h: "0 < active_height r" by (cases r) (simp_all add: VISIBLE_HEIGHT_NTSC_def VISIBLE_HEIGHT_PAL_def)
  have "frame_ok 160 (active_height r) (draw_onto r video f)" "frame_ok 160 (active_height r) (draw_onto r video g)"
    by (rule draw_onto_shows(2) [OF assms(1) _ h, of 0], simp) (rule draw_onto_shows(2) [OF assms(2) _ h, of 0], simp)
  moreover from frame_eqI [OF this] have
    "fr_pixels (draw_onto r video f) = fr_pixels (draw_onto r video g)" "fr_index (draw_onto r video f) = fr_index (draw_onto r video g)"
    by (simp_all add: draw_onto_shows(1) [OF assms(1)] draw_onto_shows(1) [OF assms(2)])
  ultimately show ?thesis by (simp add: frame_ok_def)
qed

lemma mobile_picture_length: "length (mobile_picture video) = 160 * 192 * 4"
proof -
  have dot: "length (let src = (y + NTSC_VBLANK_LINES) * 160 + x; color_idx = (if src < length video then video ! src else 0);
        rgb = MOBILE_NTSC_PALETTE ! unat (drop_bit 1 color_idx) in put_rgba x y rgb fb) = length fb" for x y fb
    by (simp add: put_rgba_def Let_def)
  have keep: "length (fold f xs a) = length a" if "\<And>x a. length (f x a) = length a" for f :: "nat \<Rightarrow> u8 list \<Rightarrow> u8 list" and xs a
    using that by (induction xs arbitrary: a) simp_all
  show ?thesis
    unfolding mobile_picture_def by (simp add: keep put_rgba_def Let_def ATARI_W_def ATARI_H_def)
qed

lemma cropped_picture:
  assumes "big_enough 192 bufs"
  shows "take (160 * 192 * 4) (fst (crop_picture Region_Ntsc video bufs)) = mobile_picture video"
proof -
  let ?empty = "(replicate (160 * 192 * 4) 0, replicate (160 * 192) 0) :: u8 list \<times> u8 list"
  have height: "active_height Region_Ntsc = 192" by (simp add: VISIBLE_HEIGHT_NTSC_def)
  have empty: "big_enough 192 ?empty" by (simp add: big_enough_def)
  have "cropped 192 (crop_picture Region_Ntsc video bufs) = draw_onto Region_Ntsc video (cropped 192 bufs)"
      "cropped 192 (crop_picture Region_Ntsc video ?empty) = draw_onto Region_Ntsc video (cropped 192 ?empty)"
      "big_enough 192 (crop_picture Region_Ntsc video ?empty)"
    using crop_is_draw [of Region_Ntsc bufs video] crop_is_draw [of Region_Ntsc ?empty video] assms empty unfolding height by blast+
  moreover have "draw_onto Region_Ntsc video (cropped 192 bufs) = draw_onto Region_Ntsc video (cropped 192 ?empty)"
    by (rule draw_forgets; unfold height) (rule cropped_ok [OF assms], rule cropped_ok [OF empty])
  ultimately have "take (160 * 192 * 4) (fst (crop_picture Region_Ntsc video bufs)) = take (160 * 192 * 4) (fst (crop_picture Region_Ntsc video ?empty))"
    unfolding cropped_def by (metis frame.select_convs(3))
  moreover have "length (fst (crop_picture Region_Ntsc video ?empty)) = 160 * 192 * 4"
    by (simp only: mobile_picture_eq [symmetric] mobile_picture_length)
  ultimately show ?thesis by (simp add: mobile_picture_eq)
qed

subsection \<open>The two frames agree\<close>

lemma take_min_length: "take (min n (length xs)) xs = take n xs"
  by (simp add: min_def)

text \<open>Whether VSYNC falls within the next \<open>n\<close> instructions.\<close>

fun frame_ends :: "'f fops \<Rightarrow> 'c board_ops \<Rightarrow> nat \<Rightarrow> u8 \<Rightarrow> ('f, 'c) system \<Rightarrow> bool" where
  "frame_ends F C 0 old_vsync s = False"
| "frame_ends F C (Suc n) old_vsync s = (case step_instruction F C s of
     None \<Rightarrow> False
   | Some (k, s) \<Rightarrow> old_vsync AND 0x02 \<noteq> 0 \<and> sys_vsync s AND 0x02 = 0 \<or> frame_ends F C n (sys_vsync s) s)"

lemma frame_loop_next:
  assumes "step_instruction F C s = Some (k, t)" "\<not> (old AND 0x02 \<noteq> 0 \<and> sys_vsync t AND 0x02 = 0)"
  shows "frame_loop F C (Suc n) old s = frame_loop F C n (sys_vsync t) t"
  using assms by (auto simp: Let_def)

lemma frame_ended: "frame_ends F C n old s \<Longrightarrow> frame_loop F C (Suc n) old s = frame_loop F C n old s"
proof (induction n arbitrary: old s)
  case (Suc n)
  obtain k t where t: "step_instruction F C s = Some (k, t)"
    using Suc.prems by (cases "step_instruction F C s") auto
  show ?case
  proof (cases "old AND 0x02 \<noteq> 0 \<and> sys_vsync t AND 0x02 = 0")
    case False
    then have "frame_ends F C n (sys_vsync t) t" using Suc.prems t by auto
    from Suc.IH [OF this] show ?thesis by (simp only: frame_loop_next [OF t False])
  qed (simp add: t)
qed simp

lemma frame_cut:
  "\<not> frame_ends F C n old s \<Longrightarrow> frame_loop F C n old s = Some m \<Longrightarrow>
   frame_loop F C (Suc n) old s = map_option snd (step_instruction F C m)"
proof (induction n arbitrary: old s)
  case 0
  then show ?case by (cases "step_instruction F C s") (auto simp: Let_def)
next
  case (Suc n)
  obtain k t where t: "step_instruction F C s = Some (k, t)"
    using Suc.prems(2) by (cases "step_instruction F C s") auto
  have on: "\<not> (old AND 0x02 \<noteq> 0 \<and> sys_vsync t AND 0x02 = 0)" "\<not> frame_ends F C n (sys_vsync t) t"
    using Suc.prems(1) t by simp_all
  have "frame_loop F C n (sys_vsync t) t = Some m" using Suc.prems(2) by (simp only: frame_loop_next [OF t on(1)])
  from Suc.IH [OF on(2) this] show ?case by (simp only: frame_loop_next [OF t on(1)])
qed

text \<open>What the two emulators give out for a machine at the end of its frame.\<close>

definition sounds_of :: "'g f32_ops \<Rightarrow> ('f, cartridge) system \<Rightarrow> 'g \<times> 'g \<Rightarrow> 'g list \<times> 'g \<times> 'g" where
  "sounds_of G s xy = dc_block_all G (tia_audio_buffer (b_tia (sys_bus s))) xy"

lemma frames_played:
  fixes F :: "'f fops" and G :: "'g f32_ops" and core :: "('f, 'g, 'w) emu_core" and inp :: mobile_input
  assumes "calm core" "ec_region core = Region_Ntsc" "big_enough 192 (ec_framebuffer core, ec_index_buffer core)"
    and "es_system st = Some (ec_system core)" "ec_audio_tx core = Some tx"
  defines "s \<equiv> mobile_latch F inp (ec_system core)"
  obtains m d out st' c where "frame_loop F cart_ops 200000 (sys_vsync s) s = Some m"
    "frame_loop F cart_ops 200001 (sys_vsync s) s = Some d"
    "mobile_run_frame F G inp st = Some (Inr (out, st'))" "run_frame F G K (Some (desktop_input inp)) core = Some c"
    "fo_rgba out = mobile_picture (tia_video_buffer (b_tia (sys_bus m)))" "es_system st' = Some (clear_samples m)"
    "sounds_of G m (es_dc_x st, es_dc_y st) = (fo_audio_samples out, es_dc_x st', es_dc_y st')"
    "framebuffer c = mobile_picture (tia_video_buffer (b_tia (sys_bus d)))" "ec_system c = clear_samples d"
    "\<exists>ss. ec_audio_tx c = Some (tx @ ss) \<and>
      sounds_of G d (ec_dc_blocker_x core, ec_dc_blocker_y core) = (ss, ec_dc_blocker_x c, ec_dc_blocker_y c)"
proof -
  have s: "s = latch_opt F (Some (state_input (desktop_input inp))) (ec_system core)"
    by (simp add: s_def mobile_latch_eq latch_opt_def)
  have core: "sys_ok plain_cart_ok (ec_system core)" "ec_rom_loaded core" "\<not> ec_paused core"
    "\<not> ec_rewind_capture_suppressed core" "\<not> ec_audio_output_suppressed core"
    using assms(1) by (auto simp: calm_def playing_def)
  have "sys_ok plain_cart_ok s" unfolding s by (rule latch_opt_ok [OF core(1)])
  then obtain m where m: "frame_loop F cart_ops 200000 (sys_vsync s) s = Some m"
    using vcs.frame_loop_ok [of s F 200000 "sys_vsync s"] by (auto simp: wpo_def)
  obtain d where d: "frame_loop F cart_ops 200001 (sys_vsync s) s = Some d"
    using frame_returns [OF core(1)] unfolding s by blast
  obtain ms x y where dc: "dc_block_all G (tia_audio_buffer (b_tia (sys_bus m))) (es_dc_x st, es_dc_y st) = (ms, x, y)"
    by (metis surj_pair)
  have played: "mobile_run_frame F G inp st = Some (Inr (\<lparr>fo_rgba = mobile_picture (tia_video_buffer (b_tia (sys_bus m))),
      fo_audio_samples = ms\<rparr>, st\<lparr>es_system := Some (clear_samples m), es_dc_x := x, es_dc_y := y\<rparr>))"
    using assms(4) m by (simp add: mobile_run_frame_def mobile_dc dc Let_def s_def)
  obtain out st' where mobile: "mobile_run_frame F G inp st = Some (Inr (out, st'))"
      "fo_rgba out = mobile_picture (tia_video_buffer (b_tia (sys_bus m)))" "es_system st' = Some (clear_samples m)"
      "sounds_of G m (es_dc_x st, es_dc_y st) = (fo_audio_samples out, es_dc_x st', es_dc_y st')"
    using that [OF played] by (simp add: sounds_of_def dc)
  let ?video = "tia_video_buffer (b_tia (sys_bus d))" and ?samples = "tia_audio_buffer (b_tia (sys_bus d))"
  let ?crop = "crop_picture Region_Ntsc ?video (ec_framebuffer core, ec_index_buffer core)"
  let ?core = "emit_samples G ?samples (core\<lparr>ec_snapshots := pushed K s (ec_snapshots core), ec_system := clear_samples d\<rparr>)"
  let ?c = "?core\<lparr>ec_framebuffer := fst ?crop, ec_index_buffer := snd ?crop, ec_frame_count := ec_frame_count core + 1\<rparr>"
  have run: "run_frame F G K (Some (desktop_input inp)) core = Some ?c"
    using core d assms(2) by (simp add: run_frame_def s latch_opt_def push_snapshot_eq) (simp add: extract_frame_eq Let_def)
  have picture: "framebuffer ?c = mobile_picture ?video"
    using cropped_picture [OF assms(3)] assms(2)
    by (simp add: framebuffer_def fb_dims_def VCS_W_def VISIBLE_HEIGHT_NTSC_def take_min_length)
  have "\<exists>ss. ec_audio_tx ?c = Some (tx @ ss) \<and>
      sounds_of G d (ec_dc_blocker_x core, ec_dc_blocker_y core) = (ss, ec_dc_blocker_x ?c, ec_dc_blocker_y ?c)"
    using assms(5) core by (simp add: emit_samples_def sounds_of_def split: prod.split)
  moreover have "ec_system ?c = clear_samples d" by (simp add: emit_samples_def split: prod.split)
  ultimately show ?thesis using that [OF m d mobile(1) run mobile(2-4) picture] by blast
qed

text \<open>
  C15: the mobile emulator plays an NTSC frame as the desktop frontend's core does, on a cartridge without an ARM
  coprocessor. Started on the same machine and the same state of the DC blocker, with the same input, both return. If VSYNC falls
  within 200000 instructions, the mobile emulator returns the picture the core writes into its framebuffer and the samples the
  core sends to the audio queue, and leaves the same machine and the same DC blocker. If it does not, both loops run into their
  cap, and the caps differ by one: the core's machine is the mobile one an instruction later.
\<close>

theorem mobile_frame_is_desktop:
  assumes "calm core" "ec_region core = Region_Ntsc" "big_enough 192 (ec_framebuffer core, ec_index_buffer core)"
    and "es_system st = Some (ec_system core)" "es_dc_x st = ec_dc_blocker_x core" "es_dc_y st = ec_dc_blocker_y core"
    and "ec_audio_tx core = Some tx"
  shows "\<exists>out st' c. mobile_run_frame F G inp st = Some (Inr (out, st')) \<and>
    run_frame F G K (Some (desktop_input inp)) core = Some c \<and>
    (let s = mobile_latch F inp (ec_system core) in
     if frame_ends F cart_ops 200000 (sys_vsync s) s
     then fo_rgba out = framebuffer c \<and> ec_audio_tx c = Some (tx @ fo_audio_samples out) \<and>
       es_system st' = Some (ec_system c) \<and> es_dc_x st' = ec_dc_blocker_x c \<and> es_dc_y st' = ec_dc_blocker_y c
     else \<exists>m k d. es_system st' = Some (clear_samples m) \<and> step_instruction F cart_ops m = Some (k, d) \<and>
       ec_system c = clear_samples d)"
proof -
  let ?s = "mobile_latch F inp (ec_system core)"
  obtain m d out st' c ss where played: "frame_loop F cart_ops 200000 (sys_vsync ?s) ?s = Some m"
    "frame_loop F cart_ops 200001 (sys_vsync ?s) ?s = Some d"
    "mobile_run_frame F G inp st = Some (Inr (out, st'))" "run_frame F G K (Some (desktop_input inp)) core = Some c"
    "fo_rgba out = mobile_picture (tia_video_buffer (b_tia (sys_bus m)))" "es_system st' = Some (clear_samples m)"
    "sounds_of G m (es_dc_x st, es_dc_y st) = (fo_audio_samples out, es_dc_x st', es_dc_y st')"
    "framebuffer c = mobile_picture (tia_video_buffer (b_tia (sys_bus d)))" "ec_system c = clear_samples d"
    "ec_audio_tx c = Some (tx @ ss)" "sounds_of G d (ec_dc_blocker_x core, ec_dc_blocker_y core) = (ss, ec_dc_blocker_x c, ec_dc_blocker_y c)"
    using frames_played [OF assms(1-4,7), of F inp G K] by metis
  have suc: "(200001 :: nat) = Suc 200000" by simp
  show ?thesis
  proof (cases "frame_ends F cart_ops 200000 (sys_vsync ?s) ?s")
    case True
    then have "d = m" using frame_ended [OF True] played(1,2) unfolding suc by simp
    then show ?thesis using True played assms(5,6) by (intro exI [of _ out] exI [of _ st'] exI [of _ c]) (simp add: Let_def)
  next
    case False
    then have "map_option snd (step_instruction F cart_ops m) = Some d"
      using frame_cut [OF False played(1)] played(2) unfolding suc by simp
    then obtain k where "step_instruction F cart_ops m = Some (k, d)" by auto
    then show ?thesis using False played by (intro exI [of _ out] exI [of _ st'] exI [of _ c]) (auto simp: Let_def)
  qed
qed

lemma mobile_frame_is_desktop_witness:
  "\<forall>(F :: 'f fops) (G :: 'g f32_ops). \<exists>inp core st out st' c. mobile_run_frame F G inp st = Some (Inr (out, st')) \<and>
    run_frame F G (demo_codec F) (Some (desktop_input inp)) core = Some c \<and>
    (frame_ends F cart_ops 200000 (sys_vsync (mobile_latch F inp (ec_system core))) (mobile_latch F inp (ec_system core)) \<longrightarrow>
      fo_rgba out = framebuffer c)"
proof (intro allI)
  fix F :: "'f fops" and G :: "'g f32_ops"
  let ?core = "(demo_core F G)\<lparr>ec_audio_tx := Some []\<rparr>"
  let ?pad = "\<lparr>mp_position = 127, mp_fire = False\<rparr>" and ?joy = "\<lparr>mj_up = True, mj_down = False, mj_left = False, mj_right = False, mj_fire = True\<rparr>"
  let ?inp = "\<lparr>mi_joystick0 = ?joy, mi_joystick1 = ?joy, mi_paddle0 = ?pad, mi_paddle1 = ?pad, mi_paddle2 = ?pad, mi_paddle3 = ?pad,
    mi_switches = mobile_switches_default\<rparr>"
  let ?st = "\<lparr>es_system = Some (ec_system ?core), es_rom_tag = 0, es_dc_x = ec_dc_blocker_x ?core, es_dc_y = ec_dc_blocker_y ?core\<rparr>"
  have "calm ?core"
    using demo_core_calm(1) [of F G] by (simp add: calm_def playing_def)
  moreover have "ec_region ?core = Region_Ntsc" "big_enough 192 (ec_framebuffer ?core, ec_index_buffer ?core)"
    by (simp_all add: big_enough_def demo_core_def emu_core_new_def MAX_W_def MAX_H_def VCS_W_def VISIBLE_HEIGHT_NTSC_def VISIBLE_HEIGHT_PAL_def)
  moreover have "es_system ?st = Some (ec_system ?core)" "es_dc_x ?st = ec_dc_blocker_x ?core" "es_dc_y ?st = ec_dc_blocker_y ?core"
      "ec_audio_tx ?core = Some []" by simp_all
  ultimately obtain out st' c where "mobile_run_frame F G ?inp ?st = Some (Inr (out, st'))"
      "run_frame F G (demo_codec F) (Some (desktop_input ?inp)) ?core = Some c"
      "frame_ends F cart_ops 200000 (sys_vsync (mobile_latch F ?inp (ec_system ?core))) (mobile_latch F ?inp (ec_system ?core)) \<longrightarrow>
       fo_rgba out = framebuffer c"
    using mobile_frame_is_desktop [of ?core ?st "[]" F G ?inp "demo_codec F"] unfolding Let_def by (auto simp del: frame_ends.simps)
  then show "\<exists>inp core st out st' c. mobile_run_frame F G inp st = Some (Inr (out, st')) \<and>
    run_frame F G (demo_codec F) (Some (desktop_input inp)) core = Some c \<and>
    (frame_ends F cart_ops 200000 (sys_vsync (mobile_latch F inp (ec_system core))) (mobile_latch F inp (ec_system core)) \<longrightarrow>
      fo_rgba out = framebuffer c)"
    by blast
qed

end
