(* ===== verification/Rom_Files.thy ===== *)
theory Rom_Files
  imports Rust_Str
begin

text \<open>
  Files: the ROM inside a zip archive (\<open>crates/rusty2600-frontend/src/rom_archive.rs\<close>) and the names of the
  save-state slots (\<open>crates/rusty2600-frontend/src/config.rs\<close>). The zip crate is not under \<open>src\<close>: an archive
  is the list of its entries as that crate presents them. A path is the list of its components.
\<close>

subsection \<open>Archives\<close>

definition MAX_ROM_SIZE :: nat where "MAX_ROM_SIZE = 1024 * 1024"

definition ROM_EXTENSIONS :: "string list" where
  "ROM_EXTENSIONS = [''a26'', ''bin'', ''rom'']"

datatype rom_archive_error = Malformed | NoRomEntry | EntryTooLarge string

text \<open>
  An entry of an archive. The name is \<open>None\<close> where the crate cannot decode it; \<open>ze_read\<close> gives what
  reading at most so many decompressed bytes returns, or \<open>None\<close> for an error.
\<close>

record zip_entry =
  ze_is_dir :: bool
  ze_name :: "string option"
  ze_read :: "nat \<Rightarrow> u8 list option"

definition extension_of :: "string \<Rightarrow> string" where
  "extension_of name = map to_ascii_lowercase
     (if CHR ''.'' \<in> set name then rev (takeWhile (\<lambda>c. c \<noteq> CHR ''.'') (rev name)) else [])"

definition looks_like_zip :: "string \<Rightarrow> bool" where
  "looks_like_zip filename \<longleftrightarrow> extension_of filename = ''zip''"

text \<open>The loop over the entries; an entry is \<open>None\<close> where the crate cannot open it.\<close>

fun first_rom :: "zip_entry option list \<Rightarrow> rom_archive_error + u8 list \<times> string" where
  "first_rom [] = Inl NoRomEntry"
| "first_rom (None # es) = Inl Malformed"
| "first_rom (Some e # es) =
     (if ze_is_dir e then first_rom es
      else (case ze_name e of
        None \<Rightarrow> first_rom es
      | Some name \<Rightarrow>
          if extension_of name \<notin> set ROM_EXTENSIONS then first_rom es
          else (case ze_read e (MAX_ROM_SIZE + 1) of
            None \<Rightarrow> Inl Malformed
          | Some out \<Rightarrow> if length out > MAX_ROM_SIZE then Inl (EntryTooLarge name) else Inr (out, name))))"

definition extract_first_rom :: "(u8 list \<Rightarrow> zip_entry option list option) \<Rightarrow> u8 list \<Rightarrow> rom_archive_error + u8 list \<times> string" where
  "extract_first_rom Z bytes = (case Z bytes of None \<Rightarrow> Inl Malformed | Some entries \<Rightarrow> first_rom entries)"

text \<open>The entries that can hold a ROM.\<close>

definition rom_entry :: "zip_entry \<Rightarrow> bool" where
  "rom_entry e \<longleftrightarrow> \<not> ze_is_dir e \<and> (\<exists>name. ze_name e = Some name \<and> extension_of name \<in> set ROM_EXTENSIONS)"

lemma first_rom_skips:
  "first_rom es = (case dropWhile (\<lambda>x. \<exists>e. x = Some e \<and> \<not> rom_entry e) es of
     [] \<Rightarrow> Inl NoRomEntry
   | None # _ \<Rightarrow> Inl Malformed
   | Some e # _ \<Rightarrow> (case ze_read e (MAX_ROM_SIZE + 1) of
       None \<Rightarrow> Inl Malformed
     | Some out \<Rightarrow> if length out > MAX_ROM_SIZE then Inl (EntryTooLarge (the (ze_name e))) else Inr (out, the (ze_name e))))"
  by (induction es rule: first_rom.induct) (auto simp: rom_entry_def split: option.split)

text \<open>
  extracting the ROM from an archive. The result is decided by the first entry that is no directory, has
  a name and ends in a ROM extension, or by an entry before it that cannot be opened; everything before is
  skipped and nothing after it is read. What is returned has at most 1 MiB, whatever size the archive
  declares, since no more than one byte beyond that is ever decompressed.
\<close>

theorem extract_first_rom_result:
  "extract_first_rom Z bytes = (case Z bytes of
     None \<Rightarrow> Inl Malformed
   | Some es \<Rightarrow> (case dropWhile (\<lambda>x. \<exists>e. x = Some e \<and> \<not> rom_entry e) es of
       [] \<Rightarrow> Inl NoRomEntry
     | None # _ \<Rightarrow> Inl Malformed
     | Some e # _ \<Rightarrow> (case ze_read e (MAX_ROM_SIZE + 1) of
         None \<Rightarrow> Inl Malformed
       | Some out \<Rightarrow> if length out > MAX_ROM_SIZE then Inl (EntryTooLarge (the (ze_name e))) else Inr (out, the (ze_name e)))))"
  by (simp add: extract_first_rom_def first_rom_skips split: option.split)

subsection \<open>Save slots\<close>

definition SAVE_SLOT_COUNT :: nat where "SAVE_SLOT_COUNT = 8"

definition SAVE_SLOT_EXTENSION :: string where "SAVE_SLOT_EXTENSION = ''r26s''"

type_synonym path = "string list"

text \<open>\<open>{:016x}\<close> of a 64-bit word, and the decimal form of a byte.\<close>

definition hex16 :: "u64 \<Rightarrow> string" where
  "hex16 w = map (\<lambda>k. ''0123456789abcdef'' ! (unat w div 16 ^ k mod 16)) (rev [0..<16])"

text \<open>The decimal form of a number.\<close>

fun dec_digits :: "nat \<Rightarrow> string" where
  "dec_digits n = (if n < 10 then [''0123456789'' ! n] else dec_digits (n div 10) @ [''0123456789'' ! (n mod 10)])"

declare dec_digits.simps [simp del]

definition dec3 :: "nat \<Rightarrow> string" where
  "dec3 n = (let digit = (\<lambda>d. ''0123456789'' ! (d mod 10)) in
     if n < 10 then [digit n] else if n < 100 then [digit (n div 10), digit n] else [digit (n div 100), digit (n div 10), digit n])"

definition save_slot_dir_under :: "path \<Rightarrow> u64 \<Rightarrow> path" where
  "save_slot_dir_under base rom_tag = base @ [hex16 rom_tag]"

definition save_slot_path_under :: "path \<Rightarrow> u64 \<Rightarrow> u8 \<Rightarrow> path" where
  "save_slot_path_under base rom_tag slot =
     save_slot_dir_under base rom_tag @ [''slot_'' @ dec3 (unat slot) @ ''.'' @ SAVE_SLOT_EXTENSION]"

text \<open>The base directory is the platform's, where it has one.\<close>

definition save_slot_dir :: "path option \<Rightarrow> u64 \<Rightarrow> path option" where
  "save_slot_dir base rom_tag = map_option (\<lambda>base. save_slot_dir_under base rom_tag) base"

definition save_slot_path :: "path option \<Rightarrow> u64 \<Rightarrow> u8 \<Rightarrow> path option" where
  "save_slot_path base rom_tag slot = map_option (\<lambda>base. save_slot_path_under base rom_tag slot) base"

lemma digits16:
  "(\<And>k. k < m \<Longrightarrow> a div 16 ^ k mod 16 = b div 16 ^ k mod (16 :: nat)) \<Longrightarrow> a mod 16 ^ m = b mod 16 ^ m"
proof (induction m)
  case (Suc m)
  have "c mod 16 ^ Suc m = 16 ^ m * (c div 16 ^ m mod 16) + c mod 16 ^ m" for c :: nat
    using mod_mult2_eq [of c "16 ^ m" 16] by (simp add: mult.commute)
  with Suc show ?case by simp
qed simp

lemma hex16_inj: "hex16 v = hex16 w \<longleftrightarrow> v = w"
proof
  assume eq: "hex16 v = hex16 w"
  have inj: "\<forall>i \<in> set [0..<16]. \<forall>j \<in> set [0..<16]. ''0123456789abcdef'' ! i = ''0123456789abcdef'' ! j \<longrightarrow> i = j"
    by code_simp
  have "unat v div 16 ^ k mod 16 = unat w div 16 ^ k mod 16" if "k < 16" for k
  proof -
    have "''0123456789abcdef'' ! (unat v div 16 ^ k mod 16) = ''0123456789abcdef'' ! (unat w div 16 ^ k mod 16)"
      using eq that unfolding hex16_def by (auto simp: map_eq_conv)
    then show ?thesis using inj by simp
  qed
  then have "unat v mod 16 ^ 16 = unat w mod 16 ^ 16" by (rule digits16)
  moreover have "unat u < 16 ^ 16" for u :: u64 using unsigned_less [of u] by simp
  ultimately have "unat v = unat w" by simp
  then show "v = w" by (simp add: word_unat_eq_iff)
qed simp

lemma dec3_value:
  assumes "n < 256"
  shows "digits_value 10 0 (dec3 n) = Some n"
proof -
  have "\<forall>d \<in> set [0..<10]. to_digit 10 (''0123456789'' ! d) = Some d" by code_simp
  then have digit: "to_digit 10 (''0123456789'' ! (d mod 10)) = Some (d mod 10)" for d by simp
  have eq: "digits_value 10 0 (dec3 n) = (if n < 10 then Some (n mod 10) else if n < 100 then Some (n div 10 mod 10 * 10 + n mod 10)
      else Some ((n div 100 mod 10 * 10 + n div 10 mod 10) * 10 + n mod 10))"
    by (simp only: dec3_def Let_def digits_value.simps digit bind.bind_lunit mult_zero_left add_0 split: if_split) simp
  have "n div 100 mod 10 = n div 10 div 10" using assms by (simp add: div_mult2_eq [symmetric] less_mult_imp_div_less)
  then have three: "(n div 100 mod 10 * 10 + n div 10 mod 10) * 10 + n mod 10 = n" by (simp only: div_mult_mod_eq)
  have two: "n < 100 \<Longrightarrow> n div 10 mod 10 * 10 + n mod 10 = n" using less_mult_imp_div_less [of n 10 10] by simp
  show ?thesis unfolding eq three by (simp add: two)
qed

lemma dec3_inj: "dec3 (unat (a :: u8)) = dec3 (unat (b :: u8)) \<longleftrightarrow> a = b"
proof
  assume eq: "dec3 (unat a) = dec3 (unat b)"
  from dec3_value [OF word8_bound [of a]] dec3_value [OF word8_bound [of b]] have "Some (unat a) = Some (unat b)"
    unfolding eq by (rule box_equals [OF refl])
  then have "unat a = unat b" by (rule option.inject [THEN iffD1])
  then show "a = b" by (simp add: word_unat_eq_iff)
qed simp

text \<open>Two slots, of the same ROM or of two, never share a file.\<close>

lemma slot_paths_distinct:
  "save_slot_path_under base t s = save_slot_path_under base t' s' \<longleftrightarrow> t = t' \<and> s = s'"
  by (simp add: save_slot_path_under_def save_slot_dir_under_def hex16_inj dec3_inj)

end
