(* ===== verification/App_Actions.thy ===== *)
theory App_Actions
  imports Emu_Core Rom_Files
begin

text \<open>
  The menu actions of the window (\<open>crates/rusty2600-frontend/src/app.rs\<close>) that change the machine, the
  input or the saved slots, and the part of a render pass that plays a frame of netplay. The dialogs and the network are
  not under \<open>src\<close>: the file a dialog returns and what the network did are arguments of the actions. \<open>None\<close> is a
  panic.
\<close>

subsection \<open>State\<close>

text \<open>
  The file system: writing a file after creating its directory, and reading one. An error is a text.
\<close>

record ('d, 'w) files =
  fl_write :: "path \<Rightarrow> 'w \<Rightarrow> 'd \<Rightarrow> string option \<times> 'd"
  fl_read :: "path \<Rightarrow> 'd \<Rightarrow> string + 'w"

text \<open>What the code relies on: a file that was written is read back, and no other file changes.\<close>

definition files_keep :: "('d, 'w) files \<Rightarrow> bool" where
  "files_keep D \<longleftrightarrow> (\<forall>p bytes d. case fl_write D p bytes d of (e, d') \<Rightarrow>
     (e = None \<longrightarrow> fl_read D p d' = Inr bytes) \<and> (\<forall>q. q \<noteq> p \<longrightarrow> fl_read D q d' = fl_read D q d))"

datatype 'e status = Ready | Rom_Loaded string "string option" | Rom_Failed emu_error | Zip_Failed rom_archive_error
  | Read_Failed string | Rom_Closed | No_Rom_Loaded | No_Save_Directory | Slot_Saved u8 | Slot_Save_Failed string
  | Slot_Loaded u8 | Slot_Rejected u8 save_state_error | Slot_Read_Failed u8 string | Region_Set region
  | Net_Connecting | Net_Failed 'e | Net_Needs_Rom | Net_Disconnected | Net_Error 'e

text \<open>A netplay session: its own machine and the state of the rollback engine.\<close>

record ('f, 'k) net_session =
  ns_system :: "('f, cartridge) system"
  ns_engine :: 'k

record ('f, 'g, 'w, 'd, 'k, 'e) app =
  ap_core :: "('f, 'g, 'w) emu_core"
  ap_input :: input_state
  ap_binds :: key_bindings
  ap_region :: region
  ap_shell_paused :: bool
  ap_debugger_visible :: bool
  ap_status :: "'e status"
  ap_title :: "string option"
  ap_slots_dirty :: bool
  ap_last_frame :: "u8 list"
  ap_last_index :: "u8 list"
  ap_disk :: 'd
  ap_net :: "('f, 'k) net_session option"

subsection \<open>Keys and switches\<close>

definition latch_key :: "string \<Rightarrow> bool \<Rightarrow> ('f, 'g, 'w, 'd, 'k, 'e) app \<Rightarrow> ('f, 'g, 'w, 'd, 'k, 'e) app" where
  "latch_key code pressed app = (case action_for (ap_binds app) code of
     Some a \<Rightarrow> app\<lparr>ap_input := apply_action a pressed (ap_input app)\<rparr> | None \<Rightarrow> app)"

datatype switch_action = ToggleColor | ToggleLeftDifficulty | ToggleRightDifficulty

fun flip_switch :: "switch_action \<Rightarrow> switches \<Rightarrow> switches" where
  "flip_switch ToggleColor sw = sw\<lparr>sw_color := \<not> sw_color sw\<rparr>"
| "flip_switch ToggleLeftDifficulty sw = sw\<lparr>sw_left_difficulty := toggled (sw_left_difficulty sw)\<rparr>"
| "flip_switch ToggleRightDifficulty sw = sw\<lparr>sw_right_difficulty := toggled (sw_right_difficulty sw)\<rparr>"

definition apply_console_switch :: "switch_action \<Rightarrow> ('f, 'g, 'w, 'd, 'k, 'e) app \<Rightarrow> ('f, 'g, 'w, 'd, 'k, 'e) app" where
  "apply_console_switch sw app = app\<lparr>ap_input := (ap_input app)\<lparr>is_switches := flip_switch sw (is_switches (ap_input app))\<rparr>\<rparr>"

subsection \<open>ROMs\<close>

definition chosen_rom ::
  "(u8 list \<Rightarrow> zip_entry option list option) \<Rightarrow> string \<Rightarrow> u8 list \<Rightarrow> rom_archive_error + u8 list \<times> string option" where
  "chosen_rom Z filename raw_bytes =
     (if looks_like_zip filename then (case extract_first_rom Z raw_bytes of
        Inl e \<Rightarrow> Inl e | Inr (bytes, entry_name) \<Rightarrow> Inr (bytes, Some entry_name))
      else Inr (raw_bytes, None))"

definition open_rom ::
  "'f fops \<Rightarrow> (u8 list \<Rightarrow> zip_entry option list option) \<Rightarrow> string \<Rightarrow> u8 list \<Rightarrow>
   ('f, 'g, 'w, 'd, 'k, 'e) app \<Rightarrow> ('f, 'g, 'w, 'd, 'k, 'e) app option" where
  "open_rom F Z filename raw_bytes app = (case chosen_rom Z filename raw_bytes of
     Inl e \<Rightarrow> Some (app\<lparr>ap_status := Zip_Failed e\<rparr>)
   | Inr (bytes, entry_name) \<Rightarrow> (case load_rom F bytes (ap_core app) of
       None \<Rightarrow> None
     | Some (Inl e) \<Rightarrow> Some (app\<lparr>ap_status := Rom_Failed e\<rparr>)
     | Some (Inr core) \<Rightarrow> Some (app\<lparr>ap_core := core, ap_status := Rom_Loaded filename entry_name,
         ap_title := Some (case entry_name of Some n \<Rightarrow> n | None \<Rightarrow> filename)\<rparr>)))"

definition close_rom_action :: "'f fops \<Rightarrow> ('f, 'g, 'w, 'd, 'k, 'e) app \<Rightarrow> ('f, 'g, 'w, 'd, 'k, 'e) app" where
  "close_rom_action F app = app\<lparr>ap_core := close_rom F (ap_core app), ap_title := None,
     ap_last_frame := map (\<lambda>_. 0) (ap_last_frame app), ap_last_index := map (\<lambda>_. 0) (ap_last_index app), ap_status := Rom_Closed\<rparr>"

subsection \<open>Save slots\<close>

definition save_state_slot ::
  "('f, 'w) state_codec \<Rightarrow> ('d, 'w) files \<Rightarrow> path option \<Rightarrow> u8 \<Rightarrow> ('f, 'g, 'w, 'd, 'k, 'e) app \<Rightarrow> ('f, 'g, 'w, 'd, 'k, 'e) app" where
  "save_state_slot K D base slot app = (case ec_rom_tag (ap_core app) of
     None \<Rightarrow> app\<lparr>ap_status := No_Rom_Loaded\<rparr>
   | Some rom_tag \<Rightarrow> (let bytes = encode K (capture (ec_system (ap_core app)) rom_tag) in
       case save_slot_path base rom_tag slot of
         None \<Rightarrow> app\<lparr>ap_status := No_Save_Directory\<rparr>
       | Some path \<Rightarrow> (let (err, disk) = fl_write D path bytes (ap_disk app) in
           app\<lparr>ap_disk := disk, ap_status := (case err of None \<Rightarrow> Slot_Saved slot | Some e \<Rightarrow> Slot_Save_Failed e),
             ap_slots_dirty := True\<rparr>)))"

definition load_state_slot ::
  "('f, 'w) state_codec \<Rightarrow> ('d, 'w) files \<Rightarrow> path option \<Rightarrow> u8 \<Rightarrow> ('f, 'g, 'w, 'd, 'k, 'e) app \<Rightarrow> ('f, 'g, 'w, 'd, 'k, 'e) app" where
  "load_state_slot K D base slot app = (case ec_rom_tag (ap_core app) of
     None \<Rightarrow> app\<lparr>ap_status := No_Rom_Loaded\<rparr>
   | Some rom_tag \<Rightarrow> (case save_slot_path base rom_tag slot of
       None \<Rightarrow> app\<lparr>ap_status := No_Save_Directory\<rparr>
     | Some path \<Rightarrow> (case fl_read D path (ap_disk app) of
         Inl e \<Rightarrow> app\<lparr>ap_status := Slot_Read_Failed slot e\<rparr>
       | Inr bytes \<Rightarrow> (case restore K bytes rom_tag of
           Inl e \<Rightarrow> app\<lparr>ap_status := Slot_Rejected slot e\<rparr>
         | Inr s \<Rightarrow> app\<lparr>ap_core := (ap_core app)\<lparr>ec_system := s, ec_snapshots := []\<rparr>, ap_status := Slot_Loaded slot\<rparr>))))"

subsection \<open>Netplay\<close>

text \<open>Connecting: \<open>outcome\<close> is what opening the session came to.\<close>

definition netplay_connect :: "'e + 'k \<Rightarrow> ('f, 'g, 'w, 'd, 'k, 'e) app \<Rightarrow> ('f, 'g, 'w, 'd, 'k, 'e) app" where
  "netplay_connect outcome app =
     (if ec_rom_loaded (ap_core app) then (case outcome of
        Inr k \<Rightarrow> app\<lparr>ap_core := (ap_core app)\<lparr>ec_paused := True\<rparr>,
          ap_net := Some \<lparr>ns_system = ec_system (ap_core app), ns_engine = k\<rparr>, ap_status := Net_Connecting\<rparr>
      | Inl e \<Rightarrow> app\<lparr>ap_status := Net_Failed e\<rparr>)
      else app\<lparr>ap_status := Net_Needs_Rom\<rparr>)"

definition netplay_disconnect :: "('f, 'g, 'w, 'd, 'k, 'e) app \<Rightarrow> ('f, 'g, 'w, 'd, 'k, 'e) app" where
  "netplay_disconnect app = app\<lparr>ap_net := None, ap_core := (ap_core app)\<lparr>ec_paused := False\<rparr>, ap_status := Net_Disconnected\<rparr>"

text \<open>\<open>NetplaySession::advance_frame\<close>: the local player is always port 0.\<close>

definition local_input :: "input_state \<Rightarrow> port_input" where
  "local_input st = (let joy = is_joysticks st ! 0 in
     \<lparr>pi_up = j_up joy, pi_down = j_down joy, pi_left = j_left joy, pi_right = j_right joy, pi_fire = j_fire joy\<rparr>)"

text \<open>The render pass's netplay branch. The engine answers the local input with \<open>reply\<close>; the tag of the session is 0.\<close>

definition netplay_frame ::
  "'f fops \<Rightarrow> 'g f32_ops \<Rightarrow> ('f, 'w) state_codec \<Rightarrow> ('k, 'w) cells \<Rightarrow> (port_input \<Rightarrow> 'e engine_reply) \<Rightarrow>
   ('f, 'g, 'w, 'd, 'k, 'e) app \<Rightarrow> ('f, 'g, 'w, 'd, 'k, 'e) app option" where
  "netplay_frame F H K G reply app = (case ap_net app of
     None \<Rightarrow> Some app
   | Some session \<Rightarrow> do {
       (result, s, k) \<leftarrow> session_advance F cart_ops K G 0 (reply (local_input (ap_input app))) (ns_system session) (ns_engine session);
       let session = \<lparr>ns_system = s, ns_engine = k\<rparr>;
       Some (case result of
         Inr True \<Rightarrow> app\<lparr>ap_net := Some session, ap_core := extract_frame H ((ap_core app)\<lparr>ec_system := s\<rparr>)\<rparr>
       | Inr False \<Rightarrow> app\<lparr>ap_net := Some session\<rparr>
       | Inl e \<Rightarrow> app\<lparr>ap_net := None, ap_core := (ap_core app)\<lparr>ec_paused := False\<rparr>, ap_status := Net_Error e\<rparr>) })"

subsection \<open>Dispatch\<close>

datatype ('k, 'e) menu_action = Open_Rom string "string + u8 list" | Close_Rom | Save_State_Slot u8 | Load_State_Slot u8
  | Set_Region region | Console_Switch switch_action | Toggle_Pause | Toggle_Debugger | Netplay_Connect "'e + 'k"
  | Netplay_Disconnect

fun dispatch_action ::
  "'f fops \<Rightarrow> (u8 list \<Rightarrow> zip_entry option list option) \<Rightarrow> ('f, 'w) state_codec \<Rightarrow> ('d, 'w) files \<Rightarrow> path option \<Rightarrow>
   ('k, 'e) menu_action \<Rightarrow> ('f, 'g, 'w, 'd, 'k, 'e) app \<Rightarrow> ('f, 'g, 'w, 'd, 'k, 'e) app option" where
  "dispatch_action F Z K D base (Open_Rom filename contents) app = (case contents of
     Inl e \<Rightarrow> Some (app\<lparr>ap_status := Read_Failed e\<rparr>) | Inr raw_bytes \<Rightarrow> open_rom F Z filename raw_bytes app)"
| "dispatch_action F Z K D base Close_Rom app = Some (close_rom_action F app)"
| "dispatch_action F Z K D base (Save_State_Slot slot) app = Some (save_state_slot K D base slot app)"
| "dispatch_action F Z K D base (Load_State_Slot slot) app = Some (load_state_slot K D base slot app)"
| "dispatch_action F Z K D base (Set_Region r) app =
     Some (app\<lparr>ap_region := r, ap_core := (ap_core app)\<lparr>ec_region := r\<rparr>, ap_status := Region_Set r\<rparr>)"
| "dispatch_action F Z K D base (Console_Switch sw) app = Some (apply_console_switch sw app)"
| "dispatch_action F Z K D base Toggle_Pause app =
     (let paused = \<not> ec_paused (ap_core app) in Some (app\<lparr>ap_core := (ap_core app)\<lparr>ec_paused := paused\<rparr>, ap_shell_paused := paused\<rparr>))"
| "dispatch_action F Z K D base Toggle_Debugger app = Some (app\<lparr>ap_debugger_visible := \<not> ap_debugger_visible app\<rparr>)"
| "dispatch_action F Z K D base (Netplay_Connect outcome) app = Some (netplay_connect outcome app)"
| "dispatch_action F Z K D base Netplay_Disconnect app = Some (netplay_disconnect app)"

fun dispatch_actions ::
  "'f fops \<Rightarrow> (u8 list \<Rightarrow> zip_entry option list option) \<Rightarrow> ('f, 'w) state_codec \<Rightarrow> ('d, 'w) files \<Rightarrow> path option \<Rightarrow>
   ('k, 'e) menu_action list \<Rightarrow> ('f, 'g, 'w, 'd, 'k, 'e) app \<Rightarrow> ('f, 'g, 'w, 'd, 'k, 'e) app option" where
  "dispatch_actions F Z K D base [] app = Some app"
| "dispatch_actions F Z K D base (a # as) app = do {
     app \<leftarrow> dispatch_action F Z K D base a app;
     dispatch_actions F Z K D base as app }"

end
