(* ===== verification/App_Props.thy ===== *)
theory App_Props
  imports App_Actions
begin

text \<open>
  What the window's actions do to the saved slots and to the sound of netplay.
\<close>

subsection \<open>Save slots\<close>

lemma files_write:
  assumes "files_keep D"
  shows "fst (fl_write D p bytes d) = None \<Longrightarrow> fl_read D p (snd (fl_write D p bytes d)) = Inr bytes"
    and "q \<noteq> p \<Longrightarrow> fl_read D q (snd (fl_write D p bytes d)) = fl_read D q d"
proof -
  have "case fl_write D p bytes d of (e, d') \<Rightarrow>
     (e = None \<longrightarrow> fl_read D p d' = Inr bytes) \<and> (\<forall>q. q \<noteq> p \<longrightarrow> fl_read D q d' = fl_read D q d)"
    by (rule assms [unfolded files_keep_def, THEN spec, THEN spec, THEN spec])
  then show "fst (fl_write D p bytes d) = None \<Longrightarrow> fl_read D p (snd (fl_write D p bytes d)) = Inr bytes"
    "q \<noteq> p \<Longrightarrow> fl_read D q (snd (fl_write D p bytes d)) = fl_read D q d"
    by (simp_all only: split_beta simp_thms)
qed

lemma save_slot_parts:
  "ap_disk (save_state_slot K D (Some base) slot app) = (case ec_rom_tag (ap_core app) of None \<Rightarrow> ap_disk app
     | Some tag \<Rightarrow> snd (fl_write D (save_slot_path_under base tag slot) (encode K (capture (ec_system (ap_core app)) tag)) (ap_disk app)))"
  "ec_rom_tag (ap_core app) = Some tag \<Longrightarrow> ap_status (save_state_slot K D (Some base) slot app) = Slot_Saved slot \<Longrightarrow>
     fst (fl_write D (save_slot_path_under base tag slot) (encode K (capture (ec_system (ap_core app)) tag)) (ap_disk app)) = None"
  by (cases "ec_rom_tag (ap_core app)"; simp add: save_state_slot_def save_slot_path_def split_beta Let_def)
    (simp add: save_state_slot_def save_slot_path_def split_beta Let_def split: option.splits)

lemma saved_file:
  assumes "files_keep D" "ec_rom_tag (ap_core app) = Some tag"
    and "ap_status (save_state_slot K D (Some base) slot app) = Slot_Saved slot"
  shows "fl_read D (save_slot_path_under base tag slot) (ap_disk (save_state_slot K D (Some base) slot app)) =
    Inr (encode K (capture (ec_system (ap_core app)) tag))"
  using files_write(1) [OF assms(1) save_slot_parts(2) [OF assms(2,3)]] by (simp add: save_slot_parts(1) assms(2))

lemma other_saves_keep:
  assumes "files_keep D" "slot' \<noteq> slot"
  shows "fl_read D (save_slot_path_under base tag slot) (ap_disk (save_state_slot K D (Some base) slot' app)) =
    fl_read D (save_slot_path_under base tag slot) (ap_disk app)"
  using assms(2) by (auto simp: save_slot_parts(1) slot_paths_distinct files_write(2) [OF assms(1)] split: option.split)

lemma open_rom_disk: "open_rom F Z filename raw_bytes app = Some app' \<Longrightarrow> ap_disk app' = ap_disk app"
  unfolding open_rom_def by (auto split: sum.splits option.splits)

lemma other_actions_keep:
  assumes "files_keep D" "a \<noteq> Save_State_Slot slot" "dispatch_action F Z K D (Some base) a app = Some app'"
  shows "fl_read D (save_slot_path_under base tag slot) (ap_disk app') = fl_read D (save_slot_path_under base tag slot) (ap_disk app)"
proof (cases a)
  case (Save_State_Slot slot')
  then have "slot' \<noteq> slot" "app' = save_state_slot K D (Some base) slot' app" using assms(2,3) by auto
  then show ?thesis by (simp add: other_saves_keep [OF assms(1)])
next
  case (Open_Rom filename contents)
  have "ap_disk app' = ap_disk app"
  proof (cases contents)
    case (Inr raw_bytes)
    then show ?thesis using assms(3) Open_Rom by (intro open_rom_disk) simp
  qed (use assms(3) Open_Rom in auto)
  then show ?thesis by simp
next
  case (Load_State_Slot slot')
  then have "ap_disk app' = ap_disk app"
    using assms(3) by (auto simp: load_state_slot_def split: sum.splits option.splits)
  then show ?thesis by simp
next
  case (Netplay_Connect outcome)
  then show ?thesis using assms(3) by (cases outcome) (auto simp: netplay_connect_def)
qed (use assms(3) in \<open>auto simp: close_rom_action_def apply_console_switch_def netplay_disconnect_def Let_def\<close>)

lemma actions_keep:
  assumes "files_keep D" "Save_State_Slot slot \<notin> set as" "dispatch_actions F Z K D (Some base) as app = Some app'"
  shows "fl_read D (save_slot_path_under base tag slot) (ap_disk app') = fl_read D (save_slot_path_under base tag slot) (ap_disk app)"
  using assms(2,3)
proof (induction as arbitrary: app)
  case (Cons a as)
  from Cons.prems(2) obtain app1 where "dispatch_action F Z K D (Some base) a app = Some app1"
      "dispatch_actions F Z K D (Some base) as app1 = Some app'"
    unfolding dispatch_actions.simps bind_eq_Some_conv by (elim exE conjE) (rule that)
  moreover have "a \<noteq> Save_State_Slot slot" "Save_State_Slot slot \<notin> set as" using Cons.prems(1) by auto
  ultimately show ?case using other_actions_keep [OF assms(1), of a slot F Z K base app app1 tag] Cons.IH [of app1] by simp
qed simp

text \<open>
  C16: a save slot gives back what was saved in it. After the game was saved in a slot, any number of actions
  may follow, other games loaded and other slots saved; as long as this slot is not saved again, loading it with the same
  ROM restores the saved machine, but for what a save state leaves out, and empties the rewind history.
\<close>

theorem slot_roundtrip:
  assumes "files_keep D" "codec_keeps K" "ec_rom_tag (ap_core app) = Some tag"
    and "dispatch_action F Z K D (Some base) (Save_State_Slot slot) app = Some saved" "ap_status saved = Slot_Saved slot"
    and "Save_State_Slot slot \<notin> set as" "dispatch_actions F Z K D (Some base) as saved = Some later"
    and "ec_rom_tag (ap_core later) = Some tag"
  shows "\<exists>restored. dispatch_action F Z K D (Some base) (Load_State_Slot slot) later = Some restored \<and>
    ap_status restored = Slot_Loaded slot \<and> ec_system (ap_core restored) = kept_system (ec_system (ap_core app)) \<and>
    ec_snapshots (ap_core restored) = []"
proof -
  have "fl_read D (save_slot_path_under base tag slot) (ap_disk later) = Inr (encode K (capture (ec_system (ap_core app)) tag))"
    using saved_file [OF assms(1,3), of K base slot] assms(4,5) actions_keep [OF assms(1,6,7)] by simp
  then show ?thesis
    using assms(8) by (simp add: load_state_slot_def save_slot_path_def restore_capture [OF assms(2)])
qed

definition demo_disk :: "(path \<Rightarrow> 'w option, 'w) files" where
  "demo_disk = \<lparr>fl_write = (\<lambda>p bytes d. (None, d(p \<mapsto> bytes))),
     fl_read = (\<lambda>p d. case d p of None \<Rightarrow> Inl ''not found'' | Some bytes \<Rightarrow> Inr bytes)\<rparr>"

definition demo_app ::
  "'f fops \<Rightarrow> 'g f32_ops \<Rightarrow> 'd \<Rightarrow> ('f, 'g, ('f, cartridge) save_state, 'd, 'k, 'e) app" where
  "demo_app F H d = \<lparr>ap_core = (demo_core F H)\<lparr>ec_rom_tag := Some 7\<rparr>, ap_input = input_default, ap_binds = key_bindings_default,
     ap_region = Region_Ntsc, ap_shell_paused = False, ap_debugger_visible = False, ap_status = Ready, ap_title = None,
     ap_slots_dirty = False, ap_last_frame = [], ap_last_index = [], ap_disk = d, ap_net = None\<rparr>"

lemma slot_roundtrip_witness:
  "\<forall>(F :: 'f fops) (H :: 'g f32_ops). \<exists>later restored.
     dispatch_actions F (\<lambda>_. None) (demo_codec F) demo_disk (Some [''saves''])
       [Save_State_Slot 1, Toggle_Pause, Save_State_Slot 2] (demo_app F H (\<lambda>_. None) :: ('f, 'g, _, _, unit, unit) app) = Some later \<and>
     dispatch_action F (\<lambda>_. None) (demo_codec F) demo_disk (Some [''saves'']) (Load_State_Slot 1) later = Some restored \<and>
     ec_system (ap_core restored) = kept_system (ec_system (demo_core F H))"
proof (intro allI)
  fix F :: "'f fops" and H :: "'g f32_ops"
  let ?app = "demo_app F H (\<lambda>_. None) :: ('f, 'g, _, _, unit, unit) app"
  let ?do = "dispatch_action F (\<lambda>_. None) (demo_codec F) demo_disk (Some [''saves''])"
  let ?does = "dispatch_actions F (\<lambda>_. None) (demo_codec F) demo_disk (Some [''saves''])"
  let ?saved = "save_state_slot (demo_codec F) demo_disk (Some [''saves'']) 1 ?app"
  have "files_keep demo_disk" by (simp add: files_keep_def demo_disk_def)
  moreover have "ap_status ?saved = Slot_Saved 1" "ec_rom_tag (ap_core ?saved) = Some 7"
    by (simp_all add: save_state_slot_def save_slot_path_def demo_app_def demo_disk_def Let_def)
  moreover obtain later where later: "?does [Toggle_Pause, Save_State_Slot 2] ?saved = Some later" by (simp add: Let_def)
  moreover have "ec_rom_tag (ap_core later) = Some 7"
    using later calculation(3) by (auto simp: save_state_slot_def save_slot_path_def demo_disk_def Let_def split: option.splits)
  ultimately obtain restored where "?do (Load_State_Slot 1) later = Some restored"
      "ec_system (ap_core restored) = kept_system (ec_system (ap_core ?app))"
    using slot_roundtrip [of demo_disk "demo_codec F" ?app 7 F "\<lambda>_. None" "[''saves'']" 1 ?saved "[Toggle_Pause, Save_State_Slot 2]" later]
      demo_codec_keeps [of F] by (auto simp: demo_app_def)
  then show "\<exists>later restored. ?does [Save_State_Slot 1, Toggle_Pause, Save_State_Slot 2] ?app = Some later \<and>
     ?do (Load_State_Slot 1) later = Some restored \<and> ec_system (ap_core restored) = kept_system (ec_system (demo_core F H))"
    using later by (intro exI [of _ later] exI [of _ restored]) (simp add: demo_app_def)
qed

end
