(* ===== verification/Netplay_Sound.thy ===== *)
theory Netplay_Sound
  imports App_Actions
begin

text \<open>
  The sound of netplay. Playing only ever adds to the machine's sample buffer, and the session's own machine
  is never told that its samples were taken.
\<close>

subsection \<open>Playing only adds samples\<close>

definition samples_of :: "('f, 'c) bus \<Rightarrow> u8 list" where
  "samples_of b = tia_audio_buffer (b_tia b)"

lemma audio_buffer_kept [simp]:
  "tia_audio_buffer (tia_write F a v t) = tia_audio_buffer t"
  "tia_audio_buffer (snd (tia_read F a t)) = tia_audio_buffer t"
  "tia_audio_buffer (render_pixel t) = tia_audio_buffer t"
  "tia_audio_buffer (advance_beam t) = tia_audio_buffer t"
  by (simp_all add: tia_write_def write_register_def tia_read_def read_paddle_def on_objects_def
      on_channel_def set_pos_def render_pixel_def advance_beam_def Let_def split_beta)

lemma tick_samples:
  assumes "tick_color_clock t = Some t'"
  shows "prefix (tia_audio_buffer t) (tia_audio_buffer t')"
proof -
  have dot: "tia_audio_buffer u' = tia_audio_buffer u" if "store_dot u = Some u'" for u u' :: "'a tia"
    using that by (auto simp: store_dot_def Let_def bind_eq_Some_conv split: if_splits)
  have "prefix (tia_audio_buffer u) (tia_audio_buffer (push_sample u))" for u :: "'a tia"
    by (simp add: push_sample_def)
  then show ?thesis
    using assms by (auto simp: tick_color_clock_def bind_eq_Some_conv Let_def dest!: dot) (metis audio_buffer_kept(3,4))?
qed

lemma cpu_read_samples: "cpu_read F C a b = Some (v, b') \<Longrightarrow> samples_of b' = samples_of b"
  by (auto simp: cpu_read_def read_cart_def read_console_def samples_of_def split_beta Let_def
      bind_eq_Some_conv dest!: apply_oob_kept split: option.splits if_splits)

lemma cpu_write_samples: "cpu_write F C a v b = Some b' \<Longrightarrow> samples_of b' = samples_of b"
  by (auto simp: cpu_write_def write_cart_def write_console_def samples_of_def split_beta Let_def
      bind_eq_Some_conv dest!: apply_oob_kept split: option.splits if_splits)

lemma view_tick_samples:
  assumes "view_tick_cycle C v = Some v'"
  shows "prefix (samples_of (vw_bus v)) (samples_of (vw_bus v'))"
proof -
  let ?on = "\<lambda>t r. (vw_bus v)\<lparr>b_tia := t, b_riot := r\<rparr>"
  from assms obtain t1 t2 t3 r b where ticks: "tick_color_clock (b_tia (vw_bus v)) = Some t1" "tick_color_clock t1 = Some t2"
      "tick_color_clock t2 = Some t3"
    and board: "(case b_board (?on t3 r) of None \<Rightarrow> Some (?on t3 r)
      | Some c \<Rightarrow> Option.bind (bd_tick C c) (\<lambda>c. Some ((?on t3 r)\<lparr>b_board := Some c\<rparr>))) = Some b" and v': "vw_bus v' = b"
    unfolding view_tick_cycle_def Let_def by (auto simp: bind_eq_Some_conv)
  have "b_tia b = t3" using board by (cases "b_board (vw_bus v)") (auto simp: bind_eq_Some_conv)
  then show ?thesis unfolding samples_of_def v' using tick_samples [OF ticks(1)] tick_samples [OF ticks(2)] tick_samples [OF ticks(3)]
    by (auto intro: prefix_order.trans)
qed

lemma view_keeps_samples:
  "bus_read (view_ops F C) x v = Some (y, v') \<Longrightarrow> samples_of (vw_bus v') = samples_of (vw_bus v)"
  "bus_write (view_ops F C) x z v = Some v' \<Longrightarrow> samples_of (vw_bus v') = samples_of (vw_bus v)"
  "bus_tick_cycle (view_ops F C) v = Some v' \<Longrightarrow> prefix (samples_of (vw_bus v)) (samples_of (vw_bus v'))"
  by (auto simp: view_ops_def view_read_def view_write_def bind_eq_Some_conv
      dest: cpu_read_samples cpu_write_samples view_tick_samples)

lemma wpo_run: "wpo m P \<Longrightarrow> (\<And>r. m = Some r \<Longrightarrow> P r \<Longrightarrow> Q r) \<Longrightarrow> wpo m Q"
  by (auto simp: wpo_def)

text \<open>The machine keeps its invariant and has at least the samples \<open>heard\<close>.\<close>

definition view_hears :: "bool \<Rightarrow> u8 list \<Rightarrow> ('f, cartridge) cpu_view \<Rightarrow> bool" where
  "view_hears p heard v \<longleftrightarrow> view_ok plain_cart_ok p v \<and> prefix heard (samples_of (vw_bus v))"

interpretation hears: cpu_bus "view_ops F cart_ops" "view_hears p heard" view_mu for F p heard
proof unfold_locales
  fix v :: "('a, cartridge) cpu_view" and v' a x
  assume hears: "view_hears p heard v"
  then have ok: "view_ok plain_cart_ok p v" and heard: "prefix heard (samples_of (vw_bus v))" by (simp_all add: view_hears_def)
  show "wpo (bus_read (view_ops F cart_ops) a v) (\<lambda>(y, v'). view_hears p heard v')"
    using heard by (intro wpo_run [OF vcs.view.read_ok [OF ok]]) (auto simp: view_hears_def dest: view_keeps_samples)
  show "wpo (bus_write (view_ops F cart_ops) a x v) (view_hears p heard)"
    using heard by (intro wpo_run [OF vcs.view.write_ok [OF ok]]) (auto simp: view_hears_def dest: view_keeps_samples)
  show "wpo (bus_tick_cycle (view_ops F cart_ops) v) (view_hears p heard)"
    using heard by (intro wpo_run [OF vcs.view.tick_ok [OF ok]])
      (auto simp: view_hears_def dest: view_keeps_samples intro: prefix_order.trans)
  show "view_mu v' < view_mu v"
    if "bus_rdy_stall (view_ops F cart_ops) v" "bus_tick_cycle (view_ops F cart_ops) v = Some v'" "bus_rdy_stall (view_ops F cart_ops) v'"
    by (rule vcs.view.stall_progress [OF ok that])
qed

lemma step_samples:
  assumes "sys_ok plain_cart_ok s" "step_instruction F cart_ops s = Some (n, s')"
  shows "prefix (samples_of (sys_bus s)) (samples_of (sys_bus s'))"
proof (cases "cpu_jammed (sys_cpu s)")
  case True
  then show ?thesis
    using vcs.step_instruction_ok [OF assms(1), of F] assms(2) by (simp add: wpo_def)
next
  case False
  have "view_hears (b_board (sys_bus s) \<noteq> None) (samples_of (sys_bus s)) (the_view s)"
    using assms(1) by (simp add: view_hears_def view_ok_def sys_ok_def the_view_def)
  from hears.step_wp [OF this False, of F] assms(2) show ?thesis
    by (auto simp: step_instruction_def wpo_def put_view_def view_hears_def bind_eq_Some_conv)
qed

lemma frame_loop_samples:
  "sys_ok plain_cart_ok s \<Longrightarrow> frame_loop F cart_ops n old s = Some s' \<Longrightarrow>
   prefix (samples_of (sys_bus s)) (samples_of (sys_bus s'))"
proof (induction n arbitrary: old s)
  case (Suc n)
  from Suc.prems(2) obtain k s1 where s1: "step_instruction F cart_ops s = Some (k, s1)"
    and rest: "(if old AND 0x02 \<noteq> 0 \<and> sys_vsync s1 AND 0x02 = 0 then Some s1 else frame_loop F cart_ops n (sys_vsync s1) s1) = Some s'"
    by (auto simp: bind_eq_Some_conv Let_def)
  have "sys_ok plain_cart_ok s1" using vcs.step_instruction_ok [OF Suc.prems(1), of F] s1 by (simp add: wpo_def)
  then have "prefix (samples_of (sys_bus s1)) (samples_of (sys_bus s'))"
    using rest Suc.IH [of s1] by (auto split: if_splits)
  then show ?case by (rule prefix_order.trans [OF step_samples [OF Suc.prems(1) s1]])
qed simp

subsection \<open>A frame of netplay\<close>

lemma feed_frame_samples: "samples_of (sys_bus (feed_frame i s)) = samples_of (sys_bus s)"
  by (simp add: feed_frame_def samples_of_def Let_def)

lemma requests_samples:
  assumes "sys_ok plain_cart_ok s" "\<forall>f. LoadGameState f \<notin> set rs"
  shows "\<exists>s' k'. handle_requests F cart_ops K G tag rs s k adv = Some (s', k', adv \<or> (\<exists>p0 p1. AdvanceFrame p0 p1 \<in> set rs)) \<and>
    sys_ok plain_cart_ok s' \<and> prefix (samples_of (sys_bus s)) (samples_of (sys_bus s'))"
  using assms
proof (induction rs arbitrary: s k adv)
  case (Cons r rs)
  then have rest: "\<forall>f. LoadGameState f \<notin> set rs" by simp
  show ?case
  proof (cases r)
    case (SaveGameState f)
    show ?thesis unfolding SaveGameState handle_requests.simps Let_def
      using Cons.IH [OF Cons.prems(1) rest] by simp
  next
    case (AdvanceFrame p0 p1)
    obtain s1 where s1: "advance_one_frame F cart_ops (combine p0 p1) s = Some s1" "sys_ok plain_cart_ok s1"
      using vcs.advance_one_frame_ok [OF Cons.prems(1), of F "combine p0 p1"] by (auto simp: wpo_def)
    have "prefix (samples_of (sys_bus (feed_frame (combine p0 p1) s))) (samples_of (sys_bus s1))"
      using s1(1) by (intro frame_loop_samples [OF feed_frame_ok [OF Cons.prems(1)]]) (auto simp: advance_one_frame_def Let_def)
    then have "prefix (samples_of (sys_bus s)) (samples_of (sys_bus s1))" by (simp add: feed_frame_samples)
    moreover obtain s' k' where "handle_requests F cart_ops K G tag rs s1 k True = Some (s', k', True)"
        "sys_ok plain_cart_ok s'" "prefix (samples_of (sys_bus s1)) (samples_of (sys_bus s'))"
      using Cons.IH [OF s1(2) rest, of k True] by (auto simp only: simp_thms)
    moreover have "adv \<or> (\<exists>q0 q1. AdvanceFrame q0 q1 \<in> set (r # rs))" using AdvanceFrame by auto
    ultimately show ?thesis
      using s1(1) AdvanceFrame by (intro exI [of _ s'] exI [of _ k']) (auto intro: prefix_order.trans)
  qed (use Cons.prems(2) in auto)
qed simp

text \<open>The audio queue after a frame whose core empties the buffer \<open>xs\<close> into it.\<close>

definition heard_after :: "'g f32_ops \<Rightarrow> ('f, 'g, 'w) emu_core \<Rightarrow> u8 list \<Rightarrow> 'g list" where
  "heard_after H core xs = the (ec_audio_tx core) @ fst (dc_block_all H xs (ec_dc_blocker_x core, ec_dc_blocker_y core))"

lemma netplay_frame_sound:
  assumes "ap_net app = Some session" "sys_ok plain_cart_ok (ns_system session)"
    and "reply (local_input (ap_input app)) = Requests rs" "AdvanceFrame p p' \<in> set rs" "\<forall>f. LoadGameState f \<notin> set rs"
    and "ec_audio_tx (ap_core app) \<noteq> None"
  obtains app' session' new where "netplay_frame F H K G reply app = Some app'" "ap_net app' = Some session'"
    "sys_ok plain_cart_ok (ns_system session')"
    "samples_of (sys_bus (ns_system session')) = samples_of (sys_bus (ns_system session)) @ new"
    "ec_audio_tx (ap_core app') = Some (heard_after H (ap_core app) (samples_of (sys_bus (ns_system session'))))"
proof -
  have adv: "(False \<or> (\<exists>p0 p1. AdvanceFrame p0 p1 \<in> set rs)) = True" using assms(4) by blast
  obtain s k where ready: "handle_requests F cart_ops K G 0 rs (ns_system session) (ns_engine session) False = Some (s, k, True)"
      "sys_ok plain_cart_ok s" "prefix (samples_of (sys_bus (ns_system session))) (samples_of (sys_bus s))"
    using requests_samples [OF assms(2,5), of F K G 0 "ns_engine session" False, unfolded adv] by (elim exE conjE) (rule that)
  let ?session = "\<lparr>ns_system = s, ns_engine = k\<rparr>"
  let ?app = "app\<lparr>ap_net := Some ?session, ap_core := extract_frame H ((ap_core app)\<lparr>ec_system := s\<rparr>)\<rparr>"
  obtain new where "samples_of (sys_bus s) = samples_of (sys_bus (ns_system session)) @ new" using ready(3) by (rule prefixE)
  moreover have "netplay_frame F H K G reply app = Some ?app"
    by (simp add: netplay_frame_def session_advance_def assms(1,3) ready(1))
  moreover have "ec_audio_tx (ap_core ?app) = Some (heard_after H (ap_core app) (samples_of (sys_bus s)))"
    using assms(6) by (auto simp: heard_after_def extract_frame_eq Let_def emit_samples_def split_beta samples_of_def)
  ultimately show ?thesis using ready(2) by (intro that [of ?app ?session new]) simp_all
qed

text \<open>
  C17: netplay repeats its sound. Two frames in a row, with any input in between, on a cartridge without an ARM
  coprocessor and in which the engine rolls nothing back: both return; the first sends the queue (through the DC blocker) all
  samples of the session's machine, the old ones and its own, and the second sends all of these once more before its own.
  Taking the samples empties the window's copy of the machine, never the session's.
\<close>

theorem netplay_sound_repeats:
  assumes "ap_net app = Some session" "sys_ok plain_cart_ok (ns_system session)" "ec_audio_tx (ap_core app) \<noteq> None"
    and "reply (local_input (ap_input app)) = Requests rs" "AdvanceFrame p p' \<in> set rs" "\<forall>f. LoadGameState f \<notin> set rs"
    and "reply' (local_input inputs) = Requests rs'" "AdvanceFrame q q' \<in> set rs'" "\<forall>f. LoadGameState f \<notin> set rs'"
  shows "\<exists>app' app'' session'' old own own'. old = samples_of (sys_bus (ns_system session)) \<and>
    netplay_frame F H K G reply app = Some app' \<and>
    netplay_frame F H K G reply' (app'\<lparr>ap_input := inputs\<rparr>) = Some app'' \<and>
    ec_audio_tx (ap_core app') = Some (heard_after H (ap_core app) (old @ own)) \<and>
    ec_audio_tx (ap_core app'') = Some (heard_after H (ap_core app') (old @ own @ own')) \<and>
    ap_net app'' = Some session'' \<and> samples_of (sys_bus (ns_system session'')) = old @ own @ own'"
proof -
  obtain app' session' own where one: "netplay_frame F H K G reply app = Some app'" "ap_net app' = Some session'"
      "sys_ok plain_cart_ok (ns_system session')"
      "samples_of (sys_bus (ns_system session')) = samples_of (sys_bus (ns_system session)) @ own"
      "ec_audio_tx (ap_core app') = Some (heard_after H (ap_core app) (samples_of (sys_bus (ns_system session'))))"
    using netplay_frame_sound [where app = app and reply = reply and rs = rs, OF assms(1,2,4-6,3)] .
  have net: "ap_net (app'\<lparr>ap_input := inputs\<rparr>) = Some session'" "ec_audio_tx (ap_core (app'\<lparr>ap_input := inputs\<rparr>)) \<noteq> None"
    using one(2,5) by simp_all
  have reply': "reply' (local_input (ap_input (app'\<lparr>ap_input := inputs\<rparr>))) = Requests rs'" using assms(7) by simp
  obtain app'' session'' own' where "netplay_frame F H K G reply' (app'\<lparr>ap_input := inputs\<rparr>) = Some app''"
      "ap_net app'' = Some session''"
      "samples_of (sys_bus (ns_system session'')) = samples_of (sys_bus (ns_system session')) @ own'"
      "ec_audio_tx (ap_core app'') =
        Some (heard_after H (ap_core (app'\<lparr>ap_input := inputs\<rparr>)) (samples_of (sys_bus (ns_system session''))))"
    using netplay_frame_sound [where app = "app'\<lparr>ap_input := inputs\<rparr>" and reply = reply' and rs = rs',
      OF net(1) one(3) reply' assms(8,9) net(2)] .
  then show ?thesis using one
    by - (rule exI [of _ app'], rule exI [of _ app''], rule exI [of _ session''], simp, blast)
qed

lemma netplay_sound_repeats_witness:
  "\<forall>(F :: 'f fops) (H :: 'g f32_ops). \<exists>app :: ('f, 'g, ('f, cartridge) save_state, unit, unit, unit) app.
     \<exists>app' app'' own own'. ap_net app \<noteq> None \<and> ec_audio_tx (ap_core app) = Some [] \<and>
     netplay_frame F H (demo_codec F) \<lparr>cell_save = (\<lambda>_ _ _ k. k), cell_load = (\<lambda>_ _. None), checksum128 = (\<lambda>_. 0)\<rparr>
       (\<lambda>i. Requests [SaveGameState 0, AdvanceFrame i i]) app = Some app' \<and>
     netplay_frame F H (demo_codec F) \<lparr>cell_save = (\<lambda>_ _ _ k. k), cell_load = (\<lambda>_ _. None), checksum128 = (\<lambda>_. 0)\<rparr>
       (\<lambda>i. Requests [SaveGameState 1, AdvanceFrame i i]) (app'\<lparr>ap_input := input_default\<rparr>) = Some app'' \<and>
     ec_audio_tx (ap_core app') = Some (heard_after H (ap_core app) own) \<and>
     ec_audio_tx (ap_core app'') = Some (heard_after H (ap_core app') (own @ own'))"
proof (intro allI)
  fix F :: "'f fops" and H :: "'g f32_ops"
  let ?core = "(demo_core F H)\<lparr>ec_audio_tx := Some []\<rparr>"
  let ?session = "\<lparr>ns_system = ec_system ?core, ns_engine = ()\<rparr>"
  let ?app = "\<lparr>ap_core = ?core, ap_input = input_default, ap_binds = key_bindings_default,
     ap_region = Region_Ntsc, ap_shell_paused = False, ap_debugger_visible = False, ap_status = Ready, ap_title = None,
     ap_slots_dirty = False, ap_last_frame = [], ap_last_index = [], ap_disk = (), ap_net = Some ?session\<rparr>
     :: ('f, 'g, ('f, cartridge) save_state, unit, unit, unit) app"
  let ?G = "\<lparr>cell_save = (\<lambda>_ _ _ k. k), cell_load = (\<lambda>_ _. None), checksum128 = (\<lambda>_. 0)\<rparr> :: (unit, ('f, cartridge) save_state) cells"
  let ?r = "\<lambda>i. Requests [SaveGameState 0, AdvanceFrame i i]" and ?r' = "\<lambda>i. Requests [SaveGameState 1, AdvanceFrame i i]"
  let ?i = "local_input input_default"
  have "sys_ok plain_cart_ok (ns_system ?session)" using demo_core_playing [of F H] by (simp add: playing_def)
  from netplay_sound_repeats [where app = ?app and session = ?session and F = F and H = H and K = "demo_codec F" and G = ?G
      and reply = ?r and reply' = ?r' and rs = "[SaveGameState 0, AdvanceFrame ?i ?i]" and p = ?i and p' = ?i
      and rs' = "[SaveGameState 1, AdvanceFrame ?i ?i]" and q = ?i and q' = ?i and inputs = input_default, OF _ this]
  obtain app' app'' old own own' where
    "netplay_frame F H (demo_codec F) ?G ?r ?app = Some app'"
    "netplay_frame F H (demo_codec F) ?G ?r' (app'\<lparr>ap_input := input_default\<rparr>) = Some app''"
    "ec_audio_tx (ap_core app') = Some (heard_after H (ap_core ?app) (old @ own))"
    "ec_audio_tx (ap_core app'') = Some (heard_after H (ap_core app') ((old @ own) @ own'))"
    by auto
  moreover have "ap_net ?app \<noteq> None" "ec_audio_tx (ap_core ?app) = Some []" by simp_all
  ultimately show "\<exists>app :: ('f, 'g, ('f, cartridge) save_state, unit, unit, unit) app. \<exists>app' app'' own own'.
     ap_net app \<noteq> None \<and> ec_audio_tx (ap_core app) = Some [] \<and>
     netplay_frame F H (demo_codec F) ?G ?r app = Some app' \<and>
     netplay_frame F H (demo_codec F) ?G ?r' (app'\<lparr>ap_input := input_default\<rparr>) = Some app'' \<and>
     ec_audio_tx (ap_core app') = Some (heard_after H (ap_core app) own) \<and>
     ec_audio_tx (ap_core app'') = Some (heard_after H (ap_core app') (own @ own'))"
    by (intro exI conjI)
qed

end
