(* ===== verification/Achievements.thy ===== *)
theory Achievements
  imports Debugger_Props
begin

text \<open>
  Achievements: what the rcheevos C library is shown of the machine (\<open>crates/rusty2600-cheevos/src/memory.rs\<close>,
  \<open>read_trampoline\<close> in \<open>client.rs\<close>), its events as the program's own values (\<open>events.rs\<close>, \<open>util.rs\<close>), and the
  notifications made from them (\<open>crates/rusty2600-frontend/src/cheevos.rs\<close>). The library is not under \<open>src\<close>: the reads it
  makes, the events it raises and the outcomes of its requests are arguments. A pointer it passes is \<open>None\<close> where it is
  null; \<open>lossy\<close> is the standard library's lossy UTF-8 decoding. Texts made for the status bar are values of a datatype.
\<close>

subsection \<open>Memory\<close>

definition RIOT_RAM_LEN :: u32 where "RIOT_RAM_LEN = 0x80"
definition RIOT_RAM_BASE :: u16 where "RIOT_RAM_BASE = 0x0080"

definition ra_addr_to_riot :: "u32 \<Rightarrow> u16 option" where
  "ra_addr_to_riot addr = (if addr < RIOT_RAM_LEN then Some (RIOT_RAM_BASE + ucast addr) else None)"

text \<open>The bytes written to the library's buffer before the loop ends; \<open>None\<close> is a panic of the reader.\<close>

fun read_bytes :: "(u16 \<Rightarrow> u8 option) \<Rightarrow> u32 \<Rightarrow> nat \<Rightarrow> u8 list option" where
  "read_bytes reader address 0 = Some []"
| "read_bytes reader address (Suc n) = (case ra_addr_to_riot address of
     Some bus_addr \<Rightarrow> do { byte \<leftarrow> reader bus_addr; rest \<leftarrow> read_bytes reader (address + 1) n; Some (byte # rest) }
   | None \<Rightarrow> Some [])"

text \<open>
  The bytes the library is told it got: none where no reader is installed or the library's buffer is a null pointer, and
  none after a panic, which is caught.
\<close>

definition read_trampoline :: "(u16 \<Rightarrow> u8 option) option \<Rightarrow> bool \<Rightarrow> u32 \<Rightarrow> u32 \<Rightarrow> u8 list" where
  "read_trampoline reader null_buffer address num_bytes = (case reader of
     None \<Rightarrow> []
   | Some closure \<Rightarrow>
       if null_buffer then []
       else (case read_bytes closure address (unat num_bytes) of None \<Rightarrow> [] | Some bytes \<Rightarrow> bytes))"

subsection \<open>Events\<close>

definition cstr_to_string :: "(u8 list \<Rightarrow> string) \<Rightarrow> u8 list option \<Rightarrow> string" where
  "cstr_to_string lossy ptr = (case ptr of None \<Rightarrow> [] | Some bytes \<Rightarrow> lossy bytes)"

definition cchar_arr_to_string :: "(u8 list \<Rightarrow> string) \<Rightarrow> u8 list \<Rightarrow> string" where
  "cchar_arr_to_string lossy chars = lossy (takeWhile (\<lambda>c. c \<noteq> 0) chars)"

record rc_achievement =
  rca_title :: "u8 list option"
  rca_badge_name :: "u8 list"
  rca_measured_progress :: "u8 list"
  rca_id :: u32
  rca_points :: u32
  rca_badge_url :: "u8 list option"

record rc_leaderboard =
  rcl_title :: "u8 list option"
  rcl_id :: u32

record rc_tracker =
  rct_display :: "u8 list"
  rct_id :: u32

record rc_entry =
  rce_username :: "u8 list option"
  rce_rank :: u32
  rce_score :: "u8 list"

record rc_scoreboard =
  rcs_leaderboard_id :: u32
  rcs_submitted_score :: "u8 list"
  rcs_best_score :: "u8 list"
  rcs_new_rank :: u32
  rcs_num_entries :: u32
  rcs_top_entries :: "rc_entry list option"

record rc_server_error =
  rcse_message :: "u8 list option"
  rcse_api :: "u8 list option"

record rc_event =
  rce_type :: u32
  rce_achievement :: "rc_achievement option"
  rce_leaderboard :: "rc_leaderboard option"
  rce_tracker :: "rc_tracker option"
  rce_scoreboard :: "rc_scoreboard option"
  rce_server_error :: "rc_server_error option"

record scoreboard_entry =
  sbe_username :: string
  sbe_rank :: u32
  sbe_score :: string

datatype ra_event =
    AchievementTriggered u32 string u32 string
  | LeaderboardStarted u32 string
  | LeaderboardFailed u32 string
  | LeaderboardSubmitted u32 string
  | ChallengeIndicator u32 bool string
  | ProgressIndicator "bool option" string
  | LeaderboardTracker u32 "bool option" string
  | LeaderboardScoreboard u32 string string u32 u32 "scoreboard_entry list"
  | GameCompleted
  | SubsetCompleted
  | ResetRequested
  | Disconnected
  | Reconnected
  | ServerError string string
  | OtherEvent u32

definition translate_scoreboard :: "(u8 list \<Rightarrow> string) \<Rightarrow> rc_scoreboard option \<Rightarrow> ra_event" where
  "translate_scoreboard lossy sb = (case sb of
     None \<Rightarrow> LeaderboardScoreboard 0 [] [] 0 0 []
   | Some s \<Rightarrow> LeaderboardScoreboard (rcs_leaderboard_id s) (cchar_arr_to_string lossy (rcs_submitted_score s))
       (cchar_arr_to_string lossy (rcs_best_score s)) (rcs_new_rank s) (rcs_num_entries s)
       (case rcs_top_entries s of None \<Rightarrow> [] | Some es \<Rightarrow> map (\<lambda>e. \<lparr>sbe_username = cstr_to_string lossy (rce_username e),
          sbe_rank = rce_rank e, sbe_score = cchar_arr_to_string lossy (rce_score e)\<rparr>) es))"

text \<open>The three codes of an indicator or tracker: show, hide, and update otherwise.\<close>

definition shown_by :: "u32 \<Rightarrow> u32 \<Rightarrow> u32 \<Rightarrow> bool option" where
  "shown_by show_code hide_code t = (if t = show_code then Some True else if t = hide_code then Some False else None)"

definition translate_event :: "(u8 list \<Rightarrow> string) \<Rightarrow> rc_event \<Rightarrow> ra_event" where
  "translate_event lossy ev = (let
     t = rce_type ev; a = rce_achievement ev; l = rce_leaderboard ev; k = rce_tracker ev;
     lb_id = (case l of None \<Rightarrow> 0 | Some l \<Rightarrow> rcl_id l);
     lb_title = (case l of None \<Rightarrow> [] | Some l \<Rightarrow> cstr_to_string lossy (rcl_title l))
   in if t = 1 then AchievementTriggered (case a of None \<Rightarrow> 0 | Some a \<Rightarrow> rca_id a)
          (case a of None \<Rightarrow> [] | Some a \<Rightarrow> cstr_to_string lossy (rca_title a))
          (case a of None \<Rightarrow> 0 | Some a \<Rightarrow> rca_points a) (case a of None \<Rightarrow> [] | Some a \<Rightarrow> cstr_to_string lossy (rca_badge_url a))
      else if t = 2 then LeaderboardStarted lb_id lb_title
      else if t = 3 then LeaderboardFailed lb_id lb_title
      else if t = 4 then LeaderboardSubmitted lb_id lb_title
      else if t = 5 \<or> t = 6 then ChallengeIndicator (case a of None \<Rightarrow> 0 | Some a \<Rightarrow> rca_id a) (t = 5)
          (case a of None \<Rightarrow> [] | Some a \<Rightarrow> cchar_arr_to_string lossy (rca_badge_name a))
      else if t = 7 \<or> t = 8 \<or> t = 9 then ProgressIndicator (shown_by 7 8 t)
          (case a of None \<Rightarrow> [] | Some a \<Rightarrow> cchar_arr_to_string lossy (rca_measured_progress a))
      else if t = 10 \<or> t = 11 \<or> t = 12 then LeaderboardTracker (case k of None \<Rightarrow> 0 | Some k \<Rightarrow> rct_id k) (shown_by 10 11 t)
          (case k of None \<Rightarrow> [] | Some k \<Rightarrow> cchar_arr_to_string lossy (rct_display k))
      else if t = 13 then translate_scoreboard lossy (rce_scoreboard ev)
      else if t = 15 then GameCompleted
      else if t = 19 then SubsetCompleted
      else if t = 14 then ResetRequested
      else if t = 17 then Disconnected
      else if t = 18 then Reconnected
      else if t = 16 then ServerError
          (case rce_server_error ev of None \<Rightarrow> [] | Some e \<Rightarrow> cstr_to_string lossy (rcse_message e))
          (case rce_server_error ev of None \<Rightarrow> [] | Some e \<Rightarrow> cstr_to_string lossy (rcse_api e))
      else OtherEvent t)"

text \<open>The queue the event handler fills: a null event adds nothing.\<close>

definition event_handler :: "(u8 list \<Rightarrow> string) \<Rightarrow> rc_event option \<Rightarrow> ra_event list \<Rightarrow> ra_event list" where
  "event_handler lossy ev q = (case ev of None \<Rightarrow> q | Some ev \<Rightarrow> q @ [translate_event lossy ev])"

definition drain_events :: "ra_event list \<Rightarrow> ra_event list \<times> ra_event list" where
  "drain_events q = (q, [])"

subsection \<open>The frontend's side\<close>

datatype login_state = LoggedOut | LoggingIn | LoggedIn | Login_Failed string

record toast =
  to_title :: string
  to_points :: "u32 option"
  to_detail :: string
  to_is_error :: bool
  to_badge_url :: string

text \<open>An unlock's detail is its points; an error's is its message.\<close>

fun toast_for :: "ra_event \<Rightarrow> toast option" where
  "toast_for (AchievementTriggered i t p url) =
     Some \<lparr>to_title = t, to_points = Some p, to_detail = [], to_is_error = False, to_badge_url = url\<rparr>"
| "toast_for (ServerError msg api) =
     Some \<lparr>to_title = ''RetroAchievements error'', to_points = None, to_detail = msg, to_is_error = True, to_badge_url = []\<rparr>"
| "toast_for _ = None"

datatype cheevos_message = Msg_Unlocked string u32 | Msg_All_Earned | Msg_Connection_Lost | Msg_Connection_Restored
  | Msg_Error string

fun format_event :: "ra_event \<Rightarrow> cheevos_message option" where
  "format_event (AchievementTriggered i t p url) = Some (Msg_Unlocked t p)"
| "format_event GameCompleted = Some Msg_All_Earned"
| "format_event Disconnected = Some Msg_Connection_Lost"
| "format_event Reconnected = Some Msg_Connection_Restored"
| "format_event (ServerError msg api) = Some (Msg_Error msg)"
| "format_event _ = None"

record cheevos_state =
  cs_events :: "ra_event list"
  cs_game_loaded :: bool
  cs_login :: login_state
  cs_toasts :: "toast list"
  cs_username :: string
  cs_password :: string

definition cheevos_default :: cheevos_state where
  "cheevos_default = \<lparr>cs_events = [], cs_game_loaded = False, cs_login = LoggedOut, cs_toasts = [], cs_username = [], cs_password = []\<rparr>"

definition MAX_TOASTS :: nat where "MAX_TOASTS = 20"

definition push_toast :: "toast \<Rightarrow> toast list \<Rightarrow> toast list" where
  "push_toast t ts = (let ts = ts @ [t] in if length ts > MAX_TOASTS then tl ts else ts)"

text \<open>One frame: \<open>raised\<close> are the events the library raised during it.\<close>

definition pump :: "(u8 list \<Rightarrow> string) \<Rightarrow> rc_event option list \<Rightarrow> cheevos_state \<Rightarrow> cheevos_message list \<times> cheevos_state" where
  "pump lossy raised cs = (let
     queue = fold (event_handler lossy) raised (cs_events cs);
     (events, queue) = drain_events queue;
     toasts = fold (\<lambda>ev ts. case toast_for ev of Some t \<Rightarrow> push_toast t ts | None \<Rightarrow> ts) events (cs_toasts cs)
   in (List.map_filter format_event events, cs\<lparr>cs_events := queue, cs_toasts := toasts\<rparr>))"

text \<open>The requests, and what happens when the library reports how one ended.\<close>

definition begin_login :: "cheevos_state \<Rightarrow> cheevos_state" where
  "begin_login cs = cs\<lparr>cs_login := LoggingIn, cs_password := []\<rparr>"

definition login_done :: "string option \<Rightarrow> cheevos_state \<Rightarrow> cheevos_state" where
  "login_done err cs = cs\<lparr>cs_login := (case err of None \<Rightarrow> LoggedIn | Some e \<Rightarrow> Login_Failed e)\<rparr>"

definition logout :: "cheevos_state \<Rightarrow> cheevos_state" where
  "logout cs = cs\<lparr>cs_login := LoggedOut\<rparr>"

definition cheevos_load_rom :: "cheevos_state \<Rightarrow> cheevos_state" where
  "cheevos_load_rom cs = cs\<lparr>cs_game_loaded := False\<rparr>"

definition load_done :: "bool \<Rightarrow> cheevos_state \<Rightarrow> cheevos_state" where
  "load_done ok cs = cs\<lparr>cs_game_loaded := ok\<rparr>"

definition cheevos_close_rom :: "cheevos_state \<Rightarrow> cheevos_state" where
  "cheevos_close_rom cs = cs\<lparr>cs_game_loaded := False\<rparr>"

subsection \<open>What is proved\<close>

text \<open>No cartridge minds being shown a read of the console's own addresses, the two with a coprocessor included.\<close>

lemma snoop_returns:
  assumes "cart_ok c"
  shows "\<exists>c'. bd_snoop_read cart_ops addr v c = Some c'"
proof (cases "has_arm c")
  case False
  with assms have "plain_cart_ok c" by (simp add: plain_cart_ok_def)
  from cart.snoop_read_ok [of c, OF conjI [OF this refl]] show ?thesis by (auto simp: wpo_def)
next
  case True
  then show ?thesis by (cases c) (simp_all add: cart_ops_def dpp_board_def cdf_board_def)
qed

lemma peek_ram:
  assumes "bus_ok cart_ok b" "i < 128"
  shows "peek F cart_ops (0x80 + of_nat i) b = Some (riot_ram (b_riot b) ! i)"
proof -
  have "\<forall>i \<in> {..<128 :: nat}. (0x80 + of_nat i :: u16) AND 0x1280 = 0x0080 \<and> unat ((0x80 + of_nat i :: u16) AND 0x7F) = i"
    by code_simp
  then have a: "(0x80 + of_nat i :: u16) AND 0x1280 = 0x0080" "unat ((0x80 + of_nat i :: u16) AND 0x7F) = i"
    using assms(2) by blast+
  have len: "length (riot_ram (b_riot b)) = 128" using assms(1) by (simp add: bus_ok_def riot_ok_def)
  have board: "\<exists>c'. bd_snoop_read cart_ops x v c = Some c'" if "b_board b = Some c" for x v c
    using assms(1) that by (intro snoop_returns) (simp add: bus_ok_def)
  show ?thesis
  proof (cases "b_board b")
    case None
    then show ?thesis
      using len a(2) assms(2) by (simp add: peek_def cpu_read_def read_console_def riot_read_def Let_def vcs.ram_address [OF a(1)])
  next
    case (Some c)
    obtain c' where "bd_snoop_read cart_ops ((0x80 + of_nat i) AND 0x1FFF) (riot_ram (b_riot b) ! i) c = Some c'"
      using board [OF Some] by blast
    with Some show ?thesis
      using len a(2) assms(2) by (simp add: peek_def cpu_read_def read_console_def riot_read_def Let_def vcs.ram_address [OF a(1)])
  qed
qed

lemma ra_addr_some: "i < 128 \<Longrightarrow> ra_addr_to_riot (of_nat i) = Some (0x80 + of_nat i)"
proof -
  have "\<forall>i \<in> {..<128 :: nat}. ra_addr_to_riot (of_nat i) = Some (0x80 + of_nat i)" by code_simp
  then show "i < 128 \<Longrightarrow> ra_addr_to_riot (of_nat i) = Some (0x80 + of_nat i)" by simp
qed

lemma read_bytes_ram:
  assumes "bus_ok cart_ok b"
  shows "i \<le> 128 \<Longrightarrow> read_bytes (\<lambda>p. peek F cart_ops p b) (of_nat i) n = Some (take n (drop i (riot_ram (b_riot b))))"
proof (induction n arbitrary: i)
  case (Suc n)
  have len: "length (riot_ram (b_riot b)) = 128" using assms by (simp add: bus_ok_def riot_ok_def)
  show ?case
  proof (cases "i = 128")
    case True
    then show ?thesis using len by (simp add: ra_addr_to_riot_def RIOT_RAM_LEN_def)
  next
    case False
    then have i: "i < 128" using Suc.prems by simp
    have split: "drop i (riot_ram (b_riot b)) = riot_ram (b_riot b) ! i # drop (Suc i) (riot_ram (b_riot b))"
      using i len by (simp add: Cons_nth_drop_Suc)
    have "read_bytes (\<lambda>p. peek F cart_ops p b) (of_nat i + 1) n = Some (take n (drop (Suc i) (riot_ram (b_riot b))))"
      using Suc.IH [of "Suc i"] i by (simp add: add.commute)
    then show ?thesis by (simp add: ra_addr_some [OF i] peek_ram [OF assms i] split)
  qed
qed simp

text \<open>
  C20: achievements see the RAM and nothing else, whatever the cartridge, those with an ARM coprocessor included. Whatever range
  the library reads, none of the peeks panics, and it is shown the bytes of the machine's RAM from that address on, with a
  short read exactly where the RAM ends; a null buffer gets nothing.
\<close>

theorem achievements_read_ram:
  fixes b :: "('f, cartridge) bus" and address num_bytes :: u32
  assumes "bus_ok cart_ok b"
  defines "window \<equiv> take (unat num_bytes) (drop (unat address) (riot_ram (b_riot b)))"
  shows "read_bytes (\<lambda>p. peek F cart_ops p b) address (unat num_bytes) = Some window \<and>
    read_trampoline (Some (\<lambda>p. peek F cart_ops p b)) null_buffer address num_bytes = (if null_buffer then [] else window)"
proof -
  have "read_bytes (\<lambda>p. peek F cart_ops p b) address (unat num_bytes) = Some window"
  proof (cases "unat address \<le> 128")
    case True
    have "address = of_nat (unat address)" by simp
    with read_bytes_ram [OF assms(1) True, of F "unat num_bytes"] show ?thesis by (simp add: window_def)
  next
    case False
    then have "ra_addr_to_riot address = None" by (simp add: ra_addr_to_riot_def RIOT_RAM_LEN_def word_less_nat_alt)
    moreover have "length (riot_ram (b_riot b)) = 128" using assms(1) by (simp add: bus_ok_def riot_ok_def)
    ultimately show ?thesis using False by (cases "unat num_bytes") (simp_all add: window_def)
  qed
  then show ?thesis by (simp add: read_trampoline_def)
qed

lemma achievements_read_ram_witness:
  "\<forall>F :: 'f fops. length (read_trampoline (Some (\<lambda>p. peek F cart_ops p ((bus_new F)\<lparr>b_board := Some (BankCdf (demo_cdf Cdfj))\<rparr>)))
    False 0x70 64) = 16"
proof
  fix F :: "'f fops"
  let ?b = "(bus_new F)\<lparr>b_board := Some (BankCdf (demo_cdf Cdfj))\<rparr> :: ('f, cartridge) bus"
  have ok: "bus_ok cart_ok ?b" using demo_cdf_ok [of Cdfj] bus_ok_new [of _ F] by (auto simp: bus_ok_def)
  then have "length (riot_ram (b_riot ?b)) = 128" by (simp add: bus_ok_def riot_ok_def)
  moreover have "read_trampoline (Some (\<lambda>p. peek F cart_ops p ?b)) False 0x70 64 =
      take (unat (64 :: u32)) (drop (unat (0x70 :: u32)) (riot_ram (b_riot ?b)))"
    using achievements_read_ram [OF ok, where F = F and null_buffer = False and address = "0x70" and num_bytes = 64] by simp
  ultimately show "length (read_trampoline (Some (\<lambda>p. peek F cart_ops p ?b)) False 0x70 64) = 16" by simp
qed

definition last_of :: "nat \<Rightarrow> 'a list \<Rightarrow> 'a list" where
  "last_of n xs = drop (length xs - n) xs"

lemma last_of_last_of: "last_of n (last_of n xs @ ys) = last_of n (xs @ ys)"
proof (cases "length xs \<le> n")
  case False
  then have "drop (length xs - n) xs @ ys = drop (length xs - n) (xs @ ys)" by simp
  then have "last_of n (last_of n xs @ ys) = drop (length ys) (drop (length xs - n) (xs @ ys))"
    using False by (simp only: last_of_def length_append length_drop) simp
  also have "\<dots> = drop (length (xs @ ys) - n) (xs @ ys)" using False by (simp only: drop_drop length_append) (simp add: add.commute)
  finally show ?thesis by (simp only: last_of_def)
qed (simp add: last_of_def)

lemma push_toast_last: "length ts \<le> MAX_TOASTS \<Longrightarrow> push_toast t ts = last_of MAX_TOASTS (ts @ [t])"
proof (cases "length ts = MAX_TOASTS")
  case True
  then have "ts \<noteq> []" by (auto simp: MAX_TOASTS_def)
  then show ?thesis using True by (simp add: push_toast_def last_of_def Let_def drop_Suc MAX_TOASTS_def)
qed (simp add: push_toast_def last_of_def Let_def)

lemma push_toasts:
  "length ts \<le> MAX_TOASTS \<Longrightarrow> fold (\<lambda>ev ts. case toast_for ev of Some t \<Rightarrow> push_toast t ts | None \<Rightarrow> ts) events ts =
     last_of MAX_TOASTS (ts @ List.map_filter toast_for events)"
proof (induction events arbitrary: ts)
  case (Cons ev events)
  show ?case
  proof (cases "toast_for ev")
    case None
    then show ?thesis using Cons by (simp add: List.map_filter_simps)
  next
    case (Some t)
    have "length (push_toast t ts) \<le> MAX_TOASTS" using Cons.prems by (simp add: push_toast_def Let_def)
    from Cons.IH [OF this] show ?thesis
      using Some by (simp add: List.map_filter_simps push_toast_last [OF Cons.prems] last_of_last_of)
  qed
qed (simp add: List.map_filter_simps last_of_def)

lemma events_queued: "fold (event_handler lossy) raised q = q @ map (translate_event lossy) (List.map_filter id raised)"
  by (induction raised arbitrary: q) (auto simp: event_handler_def List.map_filter_simps split: option.split)

text \<open>
  a frame's notifications. All events the library raised, those left in the queue first, are taken in order; the
  list of toasts is the last twenty of the old ones followed by one for each unlock and each server error, and the queue is
  empty afterwards.
\<close>

theorem pump_keeps_last_toasts:
  assumes "length (cs_toasts cs) \<le> MAX_TOASTS"
  shows "let events = cs_events cs @ map (translate_event lossy) (List.map_filter id raised);
      toasts = cs_toasts cs @ List.map_filter toast_for events;
      (messages, cs') = pump lossy raised cs
    in messages = List.map_filter format_event events \<and> cs_events cs' = [] \<and>
       cs_toasts cs' = drop (length toasts - MAX_TOASTS) toasts \<and> length (cs_toasts cs') \<le> MAX_TOASTS"
  by (simp add: pump_def drain_events_def events_queued push_toasts [OF assms] last_of_def Let_def)

lemma pump_keeps_last_toasts_witness:
  "length (cs_toasts (snd (pump (\<lambda>_. ''x'') (replicate 30 (Some \<lparr>rce_type = 16, rce_achievement = None, rce_leaderboard = None,
     rce_tracker = None, rce_scoreboard = None, rce_server_error = None\<rparr>)) cheevos_default))) \<le> 20"
  using pump_keeps_last_toasts [of cheevos_default "\<lambda>_. ''x''" "replicate 30 (Some \<lparr>rce_type = 16, rce_achievement = None,
     rce_leaderboard = None, rce_tracker = None, rce_scoreboard = None, rce_server_error = None\<rparr>)"]
  by (simp add: cheevos_default_def MAX_TOASTS_def Let_def split_beta)

end
