(* ===== verification/Shader_Stack.thy ===== *)
theory Shader_Stack
  imports Shader_Preset
begin

text \<open>
  Presenting a frame through the stack of post-process passes (\<open>crates/rusty2600-frontend/src/shader_pass.rs\<close>,
  \<open>Gfx::present\<close> in \<open>gfx.rs\<close>). The graphics card is not under \<open>src\<close>: what a pass's shader makes of the texture it reads, and
  what the base blit makes of the frame, are parameters. A pass clears its target first, so it overwrites it.
\<close>

subsection \<open>The passes\<close>

definition active_passes :: "pass_kind list \<Rightarrow> pass_kind list" where
  "active_passes passes = map snd (filter (\<lambda>(i, kind). \<not> (requires_first_position kind \<and> i \<noteq> 0)) (enumerate 0 passes))"

text \<open>The two ping-pong textures, the palette-index texture, the uploaded frame and the window's surface.\<close>

record 'i gpu =
  gp_a :: 'i
  gp_b :: 'i
  gp_index :: 'i
  gp_frame :: 'i
  gp_target :: 'i

definition render_pass :: "(pass_kind \<Rightarrow> 'i \<Rightarrow> 'i) \<Rightarrow> nat \<Rightarrow> nat \<times> pass_kind \<Rightarrow> 'i gpu \<Rightarrow> 'i gpu" where
  "render_pass shade n = (\<lambda>(i, kind) g. let
     is_last = (i = n - 1);
     src = (if i = 0 \<and> requires_first_position kind then gp_index g else if i mod 2 = 0 then gp_a g else gp_b g);
     out = shade kind src
   in if is_last then g\<lparr>gp_target := out\<rparr> else if i mod 2 = 0 then g\<lparr>gp_b := out\<rparr> else g\<lparr>gp_a := out\<rparr>)"

definition render_stack :: "(pass_kind \<Rightarrow> 'i \<Rightarrow> 'i) \<Rightarrow> pass_kind list \<Rightarrow> 'i gpu \<Rightarrow> 'i gpu" where
  "render_stack shade passes g = (let active = active_passes passes; n = length active
     in fold (render_pass shade n) (enumerate 0 active) g)"

definition present :: "(pass_kind \<Rightarrow> 'i \<Rightarrow> 'i) \<Rightarrow> ('i \<Rightarrow> 'i) \<Rightarrow> pass_kind list \<Rightarrow> 'i gpu \<Rightarrow> 'i gpu" where
  "present shade blit passes g =
     (if passes = [] then g\<lparr>gp_target := blit (gp_frame g)\<rparr>
      else (let g = (if hd passes \<noteq> NtscComposite then g\<lparr>gp_a := blit (gp_frame g)\<rparr> else g) in render_stack shade passes g))"

subsection \<open>What is shown\<close>

lemma active_Cons: "active_passes (p # ps) = p # filter (\<lambda>k. \<not> requires_first_position k) ps"
proof -
  have "map snd (filter (\<lambda>(i, kind). \<not> (requires_first_position kind \<and> i \<noteq> 0)) (enumerate (Suc n) ps)) =
      filter (\<lambda>k. \<not> requires_first_position k) ps" for n
    by (induction ps arbitrary: n) simp_all
  then show ?thesis by (simp add: active_passes_def)
qed

text \<open>Before pass \<open>i\<close>, the picture so far is in the texture that pass reads.\<close>

lemma render_rest:
  assumes "ks \<noteq> []" "0 < i" "i + length ks = n" "list_all (\<lambda>k. \<not> requires_first_position k) ks"
    and "(if i mod 2 = 0 then gp_a g else gp_b g) = img"
  shows "gp_target (fold (render_pass shade n) (enumerate i ks) g) = foldl (\<lambda>img k. shade k img) img ks"
  using assms
proof (induction ks arbitrary: i g img)
  case (Cons k ks)
  show ?case
  proof (cases "ks = []")
    case True
    then show ?thesis using Cons.prems by (auto simp: render_pass_def Let_def)
  next
    case False
    let ?g = "render_pass shade n (i, k) g"
    have "i \<noteq> n - 1" using Cons.prems(3) False by (cases ks) auto
    then have "(if Suc i mod 2 = 0 then gp_a ?g else gp_b ?g) = shade k img"
      using Cons.prems(2,5) by (cases "i mod 2 = 0") (auto simp: render_pass_def Let_def mod_Suc)
    from Cons.IH [OF False _ _ _ this] Cons.prems(3,4) show ?thesis by simp
  qed
qed simp

text \<open>
  C18: the stack shows the composition of its passes. However long the list of passes is, and wherever a hand-edited
  configuration puts the NTSC decoder, what reaches the window is every pass applied in order to the picture of the one
  before, starting from the palette indices if the decoder is first and from the plain picture otherwise; a decoder anywhere
  else is left out.
\<close>

theorem present_composes:
  "gp_target (present shade blit passes g) =
     foldl (\<lambda>img k. shade k img)
       (if passes \<noteq> [] \<and> hd passes = NtscComposite then gp_index g else blit (gp_frame g))
       (take 1 passes @ filter (\<lambda>k. k \<noteq> NtscComposite) (drop 1 passes))"
proof (cases passes)
  case (Cons p ps)
  let ?rest = "filter (\<lambda>k. \<not> requires_first_position k) ps"
  let ?g = "if p \<noteq> NtscComposite then g\<lparr>gp_a := blit (gp_frame g)\<rparr> else g"
  let ?start = "if p = NtscComposite then gp_index g else blit (gp_frame g)"
  have rest: "?rest = filter (\<lambda>k. k \<noteq> NtscComposite) ps" by (simp add: requires_first_position_def)
  have "gp_target (fold (render_pass shade (Suc (length ?rest))) (enumerate 0 (p # ?rest)) ?g) =
      foldl (\<lambda>img k. shade k img) ?start (p # ?rest)"
  proof (cases "?rest = []")
    case True
    then show ?thesis by (simp add: render_pass_def Let_def requires_first_position_def)
  next
    case False
    let ?g1 = "render_pass shade (Suc (length ?rest)) (0, p) ?g"
    have "gp_b ?g1 = shade p ?start"
      using False by (simp add: render_pass_def Let_def requires_first_position_def)
    then have "gp_target (fold (render_pass shade (Suc (length ?rest))) (enumerate 1 ?rest) ?g1) =
        foldl (\<lambda>img k. shade k img) (shade p ?start) ?rest"
      using False by (intro render_rest) (simp_all add: list_all_iff)
    then show ?thesis by simp
  qed
  then show ?thesis by (simp add: Cons present_def render_stack_def active_Cons Let_def rest)
qed (simp add: present_def)

end
