(* ===== verification/Slot_Labels.thy ===== *)
theory Slot_Labels
  imports Rom_Files "HOL-Library.Signed_Division"
begin

text \<open>
  The labels of the save slots in the menu (\<open>SaveSlotInfo\<close> and \<open>format_unix_timestamp\<close> in
  \<open>crates/rusty2600-frontend/src/shell.rs\<close>): the time a slot was written, turned into a date of the Gregorian calendar.
  Every intermediate value is far below the width it is computed at (the days of a 64-bit count of seconds are below \<open>2\<^sup>48\<close>), and
  no subtraction goes below zero, so signed and unsigned ones are integers here.
\<close>

subsection \<open>The code\<close>

text \<open>\<open>civil_from_days\<close>: the days since the first of January 1970 as year, month and day.\<close>

definition civil_from_days :: "nat \<Rightarrow> int \<times> int \<times> int" where
  "civil_from_days days = (let
     z = int days + 719468;
     era = (if z \<ge> 0 then z else z - 146096) sdiv 146097;
     doe = z - era * 146097;
     yoe = (doe - doe div 1460 + doe div 36524 - doe div 146096) div 365;
     y = yoe + era * 400;
     doy = doe - (365 * yoe + yoe div 4 - yoe div 100);
     mp = (5 * doy + 2) div 153;
     d = doy - (153 * mp + 2) div 5 + 1;
     m = (if mp < 10 then mp + 3 else mp - 9);
     y = (if m \<le> 2 then y + 1 else y)
   in (y, m, d))"

text \<open>The date and the time of day of a count of seconds.\<close>

definition unix_timestamp :: "u64 \<Rightarrow> (int \<times> int \<times> int) \<times> nat \<times> nat \<times> nat" where
  "unix_timestamp secs = (let days = unat secs div 86400; time_of_day = unat secs mod 86400
   in (civil_from_days days, time_of_day div 3600, time_of_day mod 3600 div 60, time_of_day mod 60))"

text \<open>A number in decimal, with zeros in front up to a width.\<close>

definition pad :: "nat \<Rightarrow> nat \<Rightarrow> string" where
  "pad w n = (let s = dec_digits n in replicate (w - length s) CHR ''0'' @ s)"

definition format_unix_timestamp :: "u64 \<Rightarrow> string" where
  "format_unix_timestamp secs = (let ((y, m, d), hour, minute, second) = unix_timestamp secs in
     pad 4 (nat y) @ ''-'' @ pad 2 (nat m) @ ''-'' @ pad 2 (nat d) @ '' '' @ pad 2 hour @ '':'' @ pad 2 minute @ '':'' @ pad 2 second @ '' UTC'')"

text \<open>A slot; the time is in seconds from 1970, \<open>None\<close> inside where it lies before.\<close>

record save_slot_info =
  ssi_slot :: u8
  ssi_exists :: bool
  ssi_modified :: "u64 option option"

text \<open>\<open>metadata\<close> asks the file system about a path: absent, or there, with its time where it is known.\<close>

definition probe_slot :: "(path \<Rightarrow> u64 option option option) \<Rightarrow> path option \<Rightarrow> u64 \<Rightarrow> u8 \<Rightarrow> save_slot_info" where
  "probe_slot metadata base rom_tag slot = (let m = (case save_slot_path base rom_tag slot of None \<Rightarrow> None | Some p \<Rightarrow> metadata p)
   in \<lparr>ssi_slot = slot, ssi_exists = (m \<noteq> None), ssi_modified = (case m of None \<Rightarrow> None | Some t \<Rightarrow> t)\<rparr>)"

definition slot_label :: "save_slot_info \<Rightarrow> string" where
  "slot_label info = (case ssi_modified info of
     None \<Rightarrow> ''Slot '' @ dec3 (unat (ssi_slot info)) @ '' (empty)''
   | Some t \<Rightarrow> ''Slot '' @ dec3 (unat (ssi_slot info)) @ '' -- '' @ format_unix_timestamp (case t of None \<Rightarrow> 0 | Some secs \<Rightarrow> secs))"

subsection \<open>The calendar\<close>

definition leap_year :: "int \<Rightarrow> bool" where
  "leap_year y \<longleftrightarrow> 4 dvd y \<and> (\<not> 100 dvd y \<or> 400 dvd y)"

definition month_length :: "int \<Rightarrow> int \<Rightarrow> int" where
  "month_length y m = (if m = 2 then (if leap_year y then 29 else 28) else if m \<in> {4, 6, 9, 11} then 30 else 31)"

fun tomorrow :: "int \<times> int \<times> int \<Rightarrow> int \<times> int \<times> int" where
  "tomorrow (y, m, d) = (if d < month_length y m then (y, m, d + 1)
     else if m < 12 then (y, m + 1, 1) else (y + 1, 1, 1))"

text \<open>The date so many days after the first of January 1970.\<close>

fun date_after :: "nat \<Rightarrow> int \<times> int \<times> int" where
  "date_after 0 = (1970, 1, 1)"
| "date_after (Suc n) = tomorrow (date_after n)"

subsection \<open>Years of an era\<close>

text \<open>An era is 400 years that begin in March. The day of the era on which year \<open>y\<close> begins, and the year of a day.\<close>

definition year_start :: "int \<Rightarrow> int" where
  "year_start y = 365 * y + y div 4 - y div 100"

definition year_of_era :: "int \<Rightarrow> int" where
  "year_of_era doe = (doe - doe div 1460 + doe div 36524 - doe div 146096) div 365"

definition next_start :: "int \<Rightarrow> int" where
  "next_start y = (if y = 399 then 146097 else year_start (y + 1))"

text \<open>The month and day of a day of a year that begins in March.\<close>

definition march_date :: "int \<Rightarrow> int \<times> int" where
  "march_date doy = (let mp = (5 * doy + 2) div 153 in (if mp < 10 then mp + 3 else mp - 9, doy - (153 * mp + 2) div 5 + 1))"

definition era_date :: "int \<Rightarrow> int \<Rightarrow> int \<times> int \<times> int" where
  "era_date era doe = (let yoe = year_of_era doe; (m, d) = march_date (doe - year_start yoe)
     in (yoe + era * 400 + (if m \<le> 2 then 1 else 0), m, d))"

lemma civil_era: "civil_from_days n = era_date ((int n + 719468) div 146097) ((int n + 719468) mod 146097)"
proof -
  define z where "z = int n + 719468"
  have z: "(if z \<ge> 0 then z else z - 146096) sdiv 146097 = z div 146097" by (simp add: z_def signed_divide_int_def)
  have next_year: "(if c then y + 1 else y) = y + (if c then 1 else 0)" for c and y :: int by simp
  show ?thesis
    unfolding civil_from_days_def era_date_def march_date_def year_of_era_def year_start_def
    by (simp only: Let_def z_def [symmetric] z minus_div_mult_eq_mod prod.case next_year)
qed

lemma step_grows:
  fixes a :: int
  shows "a' \<le> a + 1 \<Longrightarrow> b \<le> b' \<Longrightarrow> c = 0 \<Longrightarrow> c' = 0 \<Longrightarrow> d - a + b - c \<le> d + 1 - a' + b' - c'"
  by simp

lemma year_of_era_mono:
  assumes "0 \<le> a" "a \<le> b" "b < 146097"
  shows "year_of_era a \<le> year_of_era b"
proof -
  let ?g = "\<lambda>d :: int. d - d div 1460 + d div 36524 - d div 146096"
  have one: "?g d \<le> ?g (d + 1)" if "0 \<le> d" "d < 146096" for d
  proof (cases "d = 146095")
    case False
    then have "d div 146096 = 0" "(d + 1) div 146096 = 0" using that by simp_all
    moreover have "(d + 1) div 1460 \<le> (d + 1460) div 1460" "d div 36524 \<le> (d + 1) div 36524" by (rule zdiv_mono1; simp)+
    then have "(d + 1) div 1460 \<le> d div 1460 + 1" "d div 36524 \<le> (d + 1) div 36524" by (simp_all only: div_add_self2 simp_thms) 
    ultimately show ?thesis by (intro step_grows)
  qed simp
  have "?g a \<le> ?g (a + int n)" if "a + int n < 146097" for n
    using that
  proof (induction n)
    case (Suc n)
    then have "?g a \<le> ?g (a + int n)" by simp
    also have "\<dots> \<le> ?g (a + int n + 1)" using Suc.prems assms(1) by (intro one) simp_all
    finally show ?case by (simp only: of_nat_Suc add.assoc add.commute [of 1])
  qed simp
  from this [of "nat (b - a)"] show ?thesis using assms unfolding year_of_era_def by (intro zdiv_mono1) simp_all
qed

definition year_ok :: "int \<Rightarrow> bool" where
  "year_ok y \<longleftrightarrow> year_of_era (year_start y) = y \<and> year_of_era (next_start y - 1) = y \<and>
     next_start y - year_start y = (if leap_year (y + 1) then 366 else 365) \<and> 0 \<le> year_start y \<and> next_start y \<le> 146097"

lemma years_ok:
  "list_all year_ok [0..79]" "list_all year_ok [80..159]" "list_all year_ok [160..239]" "list_all year_ok [240..319]"
  "list_all year_ok [320..399]"
  by code_simp+

lemma year_ends:
  assumes "0 \<le> y" "y < 400"
  shows "year_of_era (year_start y) = y" "year_of_era (next_start y - 1) = y"
    "next_start y - year_start y = (if leap_year (y + 1) then 366 else 365)" "0 \<le> year_start y" "next_start y \<le> 146097"
proof -
  consider "y \<in> set [0..79]" | "y \<in> set [80..159]" | "y \<in> set [160..239]" | "y \<in> set [240..319]" | "y \<in> set [320..399]"
    using assms unfolding set_upto atLeastAtMost_iff by linarith
  then have "year_ok y" by cases (rule years_ok [unfolded list_all_iff, THEN bspec]; assumption)+
  then show "year_of_era (year_start y) = y" "year_of_era (next_start y - 1) = y"
    "next_start y - year_start y = (if leap_year (y + 1) then 366 else 365)" "0 \<le> year_start y" "next_start y \<le> 146097"
    unfolding year_ok_def by blast+
qed

lemma year_bounds:
  assumes "0 \<le> doe" "doe < 146097"
  shows "0 \<le> year_of_era doe" "year_of_era doe < 400" "year_start (year_of_era doe) \<le> doe" "doe < next_start (year_of_era doe)"
proof -
  let ?y = "year_of_era doe"
  have "year_of_era 0 = 0" "year_of_era 146096 = 399" by (simp_all add: year_of_era_def)
  then show y: "0 \<le> ?y" "?y < 400"
    using year_of_era_mono [of 0 doe] year_of_era_mono [of doe 146096] assms by simp_all
  show "year_start ?y \<le> doe"
  proof (rule ccontr)
    assume less: "\<not> year_start ?y \<le> doe"
    have "?y \<noteq> 0" using less assms(1) by (auto simp: year_start_def)
    then have "0 \<le> ?y - 1" "?y - 1 < 400" "next_start (?y - 1) = year_start ?y" using y by (simp_all add: next_start_def)
    then have "year_of_era (year_start ?y - 1) = ?y - 1" "year_start ?y \<le> 146097" using year_ends [of "?y - 1"] by auto
    then show False using year_of_era_mono [OF assms(1), of "year_start ?y - 1"] less by simp
  qed
  show "doe < next_start ?y"
  proof (rule ccontr)
    assume more: "\<not> doe < next_start ?y"
    have "?y \<noteq> 399" using more assms(2) by (auto simp: next_start_def)
    then have "0 \<le> ?y + 1" "?y + 1 < 400" "next_start ?y = year_start (?y + 1)" using y by (simp_all add: next_start_def)
    then have "year_of_era (next_start ?y) = ?y + 1" "0 \<le> next_start ?y" using year_ends [of "?y + 1"] by auto
    then show False using year_of_era_mono [of "next_start ?y" doe] assms(2) more by simp
  qed
qed

lemma year_unique:
  assumes "0 \<le> y" "y < 400" "year_start y \<le> doe" "doe < next_start y"
  shows "year_of_era doe = y"
  using year_ends [OF assms(1,2)] year_of_era_mono [of "year_start y" doe] year_of_era_mono [of doe "next_start y - 1"] assms(3,4)
  by simp

lemma leap_era: "leap_year (y + era * 400) = leap_year y"
proof -
  have "(4 :: int) dvd era * 400" "(100 :: int) dvd era * 400" "(400 :: int) dvd era * 400" by (simp_all add: dvd_mult)
  then show ?thesis by (simp add: leap_year_def dvd_add_left_iff)
qed

subsection \<open>From one day to the next\<close>

lemma march_step:
  assumes "0 \<le> doy" "doy < 364" "march_date doy = (m, d)"
  shows "march_date (doy + 1) = (if d < (if m = 2 then 28 else if m \<in> {4, 6, 9, 11} then 30 else 31) then (m, d + 1)
      else if m < 12 then (m + 1, 1) else (1, 1))" "m = 2 \<Longrightarrow> d < 28" "1 \<le> m" "m \<le> 12"
proof -
  let ?P = "\<lambda>doy. case march_date doy of (m, d) \<Rightarrow> march_date (doy + 1) =
      (if d < (if m = 2 then 28 else if m \<in> {4, 6, 9, 11} then 30 else 31) then (m, d + 1)
       else if m < 12 then (m + 1, 1) else (1, 1)) \<and> (m = 2 \<longrightarrow> d < 28) \<and> 1 \<le> m \<and> m \<le> 12"
  have "list_all ?P [0..363]" by code_simp
  moreover have "doy \<in> set [0..363]" using assms(1,2) by simp
  ultimately have "?P doy" unfolding list_all_iff by (rule bspec)
  then show "march_date (doy + 1) = (if d < (if m = 2 then 28 else if m \<in> {4, 6, 9, 11} then 30 else 31) then (m, d + 1)
      else if m < 12 then (m + 1, 1) else (1, 1))" "m = 2 \<Longrightarrow> d < 28" "1 \<le> m" "m \<le> 12"
    unfolding assms(3) prod.case by blast+
qed

lemma march_ends: "march_date 0 = (3, 1)" "march_date 364 = (2, 28)" "march_date 365 = (2, 29)"
  by (simp_all add: march_date_def)

text \<open>Within a year, and from its last day to the next.\<close>

lemma year_step:
  assumes "0 \<le> doy" "doy + 1 < (if leap_year (y + 1) then 366 else 365)"
    and "march_date doy = (m, d)" "march_date (doy + 1) = (m', d')"
  shows "tomorrow (y + (if m \<le> 2 then 1 else 0), m, d) = (y + (if m' \<le> 2 then 1 else 0), m', d')"
proof (cases "doy < 364")
  case True
  note step = march_step [OF assms(1) True assms(3), unfolded assms(4)]
  show ?thesis
  proof (cases "m = 2")
    case True
    then show ?thesis using step(1,2) by (simp add: month_length_def)
  next
    case False
    then show ?thesis using step(1,3,4) by (auto simp: month_length_def split: if_splits)
  qed
next
  case False
  then have "doy = 364" "leap_year (y + 1)" using assms(2) by (auto split: if_splits)
  then show ?thesis using assms(3,4) by (simp add: march_ends month_length_def)
qed

lemma year_last:
  assumes "march_date ((if leap_year (y + 1) then 366 else 365) - 1) = (m, d)"
  shows "tomorrow (y + (if m \<le> 2 then 1 else 0), m, d) = (y + 1, 3, 1)"
  using assms by (cases "leap_year (y + 1)") (auto simp: march_ends month_length_def)

lemma era_step:
  assumes "0 \<le> doe" "doe < 146097"
  shows "tomorrow (era_date era doe) = (if doe + 1 < 146097 then era_date era (doe + 1) else era_date (era + 1) 0)"
proof -
  let ?y = "year_of_era doe" and ?doy = "doe - year_start (year_of_era doe)"
  let ?len = "if leap_year (?y + era * 400 + 1) then 366 else 365 :: int"
  note y = year_bounds [OF assms]
  have len: "next_start ?y - year_start ?y = ?len"
    using year_ends(3) [OF y(1,2)] leap_era [of "?y + 1" era] by (simp add: algebra_simps)
  obtain m d where md: "march_date ?doy = (m, d)" by fastforce
  then have here: "era_date era doe = (?y + era * 400 + (if m \<le> 2 then 1 else 0), m, d)" by (simp add: era_date_def Let_def)
  show ?thesis
  proof (cases "doe + 1 < next_start ?y")
    case True
    then have next_day: "year_of_era (doe + 1) = ?y" "doe + 1 < 146097" "doe + 1 - year_start ?y = ?doy + 1" "?doy + 1 < ?len"
      using y year_ends(5) [OF y(1,2)] len by (auto intro: year_unique)
    obtain m' d' where md': "march_date (?doy + 1) = (m', d')" by fastforce
    have "era_date era (doe + 1) = (?y + era * 400 + (if m' \<le> 2 then 1 else 0), m', d')"
      unfolding era_date_def Let_def next_day(1,3) md' prod.case ..
    moreover have "0 \<le> ?doy" using y(3) by simp
    ultimately show ?thesis unfolding here using year_step [OF _ next_day(4) md md'] next_day(2) by (simp only: if_True)
  next
    case False
    then have last_day: "doe + 1 = next_start ?y" "?doy = ?len - 1" using y(4) len by auto
    have tomorrow: "tomorrow (era_date era doe) = (?y + era * 400 + 1, 3, 1)"
      unfolding here using md unfolding last_day(2) by (rule year_last)
    show ?thesis
    proof (cases "?y = 399")
      case True
      then show ?thesis unfolding tomorrow last_day(1) by (simp add: next_start_def era_date_def year_of_era_def year_start_def march_ends)
    next
      case False
      then have next_year: "0 \<le> ?y + 1" "?y + 1 < 400" "next_start ?y = year_start (?y + 1)" using y by (simp_all add: next_start_def)
      then have "year_of_era (next_start ?y) = ?y + 1" "next_start ?y < 146097"
        using year_ends [OF next_year(1,2)] by (auto split: if_splits)
      then show ?thesis unfolding tomorrow last_day(1) using next_year(3) by (simp add: era_date_def march_ends)
    qed
  qed
qed

lemma next_div_mod:
  fixes z k :: int
  assumes "0 < k"
  shows "(z + 1) div k = (if z mod k + 1 < k then z div k else z div k + 1)"
    "(z + 1) mod k = (if z mod k + 1 < k then z mod k + 1 else 0)"
proof -
  have r: "0 \<le> z mod k" "z mod k < k" using assms by simp_all
  consider "z mod k + 1 < k" | "z mod k + 1 = k" using r by linarith
  then have "(z + 1) div k = (if z mod k + 1 < k then z div k else z div k + 1) \<and>
    (z + 1) mod k = (if z mod k + 1 < k then z mod k + 1 else 0)"
  proof cases
    case 1
    have z: "z + 1 = (z mod k + 1) + z div k * k" using div_mult_mod_eq [of z k] by linarith
    have "((z mod k + 1) + z div k * k) div k = z div k" "((z mod k + 1) + z div k * k) mod k = z mod k + 1"
      using 1 r(1) assms by (simp_all only: div_mult_self1 mod_mult_self1) simp_all
    then show ?thesis using 1 unfolding z [symmetric] by simp
  next
    case 2
    have "z + 1 = z div k * k + k" using div_mult_mod_eq [of z k] 2 by linarith
    then have z: "z + 1 = (z div k + 1) * k" by (simp only: distrib_right mult_1)
    show ?thesis using 2 assms unfolding z by simp
  qed
  then show "(z + 1) div k = (if z mod k + 1 < k then z div k else z div k + 1)"
    "(z + 1) mod k = (if z mod k + 1 < k then z mod k + 1 else 0)" by blast+
qed

lemma civil_is_date: "civil_from_days n = date_after n"
proof (induction n)
  case 0
  show ?case unfolding civil_era by (simp add: era_date_def year_of_era_def year_start_def march_date_def Let_def)
next
  case (Suc n)
  let ?z = "int n + 719468"
  have z: "int (Suc n) + 719468 = ?z + 1" by simp
  have "(?z + 1) div 146097 = (if ?z mod 146097 + 1 < 146097 then ?z div 146097 else ?z div 146097 + 1)"
    "(?z + 1) mod 146097 = (if ?z mod 146097 + 1 < 146097 then ?z mod 146097 + 1 else 0)"
    by (rule next_div_mod, simp)+
  then have "civil_from_days (Suc n) = tomorrow (civil_from_days n)"
    unfolding civil_era z using era_step [of "?z mod 146097" "?z div 146097"] by auto
  then show ?case by (simp add: Suc.IH)
qed

text \<open>
  C19: the label of a save slot tells the right time. The date computed from a count of seconds, by Hinnant's arithmetic without
  loops, is the date the Gregorian calendar reaches that many days after the first of January 1970, month lengths and leap years
  included, for every 64-bit count; hour, minute and second are in range and make up the rest of the day.
\<close>

theorem timestamp_is_calendar:
  "case unix_timestamp secs of (date, hour, minute, second) \<Rightarrow>
     date = date_after (unat secs div 86400) \<and> hour < 24 \<and> minute < 60 \<and> second < 60 \<and>
     86400 * (unat secs div 86400) + 3600 * hour + 60 * minute + second = unat secs"
proof -
  let ?t = "unat secs mod 86400"
  have "?t div 3600 < 24" by (simp add: less_mult_imp_div_less)
  moreover have "?t mod 3600 div 60 < 60" by (simp add: less_mult_imp_div_less)
  moreover have "?t mod 60 = ?t mod 3600 mod 60" by (simp add: mod_mod_cancel)
  then have "3600 * (?t div 3600) + 60 * (?t mod 3600 div 60) + ?t mod 60 = ?t"
    using div_mult_mod_eq [of ?t 3600] div_mult_mod_eq [of "?t mod 3600" 60] by simp
  moreover have "86400 * (unat secs div 86400) + ?t = unat secs" by (rule mult_div_mod_eq)
  moreover have "?t mod 60 < 60" by simp
  ultimately show ?thesis by (simp only: unix_timestamp_def Let_def civil_is_date prod.case simp_thms add.assoc)
qed

end
