(* ===== verification/Hd_Pack.thy ===== *)
theory Hd_Pack
  imports Emu_Core
begin

text \<open>
  The sprite packs of the optional feature \<open>hd-pack\<close>: the tag the TIA gives every dot
  (\<open>crates/rusty2600-tia/src/lib.rs\<close>), the pack and its loader (\<open>crates/rusty2600-frontend/src/sprite_pack.rs\<close>),
  and the splice of replacement bitmaps into a frame (\<open>EmuCore::step_frame\<close> in \<open>emu_thread.rs\<close>). The manifest's TOML
  and the file system are parameters. Widths and heights are 32-bit words, sizes natural numbers but for the product the
  loader compares, which wraps at 64 bits.
\<close>

subsection \<open>Which object a dot shows\<close>

datatype object_id = Background | Playfield | Ball | Missile0 | Missile1 | Player0 | Player1

record object_tag =
  ot_object :: object_id
  ot_grp :: u8
  ot_nusiz :: u8

definition tag_default :: object_tag where
  "tag_default = \<lparr>ot_object = Background, ot_grp = 0, ot_nusiz = 0\<rparr>"

text \<open>The graphics byte a player is drawn from where the dot lies in one of its copies, and 0 elsewhere.\<close>

definition captured_grp :: "objects \<Rightarrow> nat \<Rightarrow> u16 \<Rightarrow> u8" where
  "captured_grp ob i x = (case check_pm x (ucast (ob_pos ob ! i)) (ob_nusiz ob ! i) False of
     Some offset \<Rightarrow> (if ob_vdelp ob ! i then ob_old_grp ob ! i else ob_grp ob ! i)
   | None \<Rightarrow> 0)"

definition plain_tag :: "object_id \<Rightarrow> object_tag" where
  "plain_tag ob = \<lparr>ot_object = ob, ot_grp = 0, ot_nusiz = 0\<rparr>"

definition player_tag :: "objects \<Rightarrow> nat \<Rightarrow> u16 \<Rightarrow> object_tag" where
  "player_tag ob i x = \<lparr>ot_object = (if i = 0 then Player0 else Player1), ot_grp = captured_grp ob i x, ot_nusiz = ob_nusiz ob ! i\<rparr>"

definition tag_at :: "objects \<Rightarrow> u16 \<Rightarrow> pixels \<Rightarrow> object_tag" where
  "tag_at ob x p =
     (if ob_ctrlpf ob AND 0x04 \<noteq> 0 then
        (if px_pf p then plain_tag Playfield
         else if px_bl p then plain_tag Ball
         else if px_p0 p then player_tag ob 0 x
         else if px_m0 p then plain_tag Missile0
         else if px_p1 p then player_tag ob 1 x
         else if px_m1 p then plain_tag Missile1
         else tag_default)
      else if px_p0 p then player_tag ob 0 x
      else if px_m0 p then plain_tag Missile0
      else if px_p1 p then player_tag ob 1 x
      else if px_m1 p then plain_tag Missile1
      else if px_pf p then plain_tag Playfield
      else if px_bl p then plain_tag Ball
      else tag_default)"

text \<open>The tag \<open>render_pixel\<close> leaves, and the mask in which the tick then keeps it.\<close>

definition render_tag :: "'f tia \<Rightarrow> object_tag" where
  "render_tag t =
     (if tia_color_clock t < 68 \<or> tia_scanline t \<ge> 300 then tag_default
      else (let x = tia_color_clock t - 68 in tag_at (tia_objects t) x (pixels_at (tia_objects t) x)))"

definition store_tag :: "'f tia \<Rightarrow> object_tag \<Rightarrow> object_tag list \<Rightarrow> object_tag list" where
  "store_tag t tag tags =
     (if tia_color_clock t \<ge> 68 \<and> unat (tia_scanline t) < 312 then (let
        x = unat (tia_color_clock t - 68);
        idx = unat (tia_scanline t) * 160 + x;
        tags = (if length tags \<le> idx then resize_to (312 * 160) tag_default tags else tags)
      in tags[idx := tag])
      else tags)"

definition tagged_tick :: "'f tia \<times> object_tag list \<Rightarrow> ('f tia \<times> object_tag list) option" where
  "tagged_tick = (\<lambda>(t, tags). do {
     t' \<leftarrow> tick_color_clock t;
     let tag = render_tag (advance_beam t);
     Some (t', store_tag (advance_beam t) tag tags) })"

subsection \<open>Packs\<close>

type_synonym sprite_key = "u8 \<times> u8"

definition sprite_key_new :: "u8 \<Rightarrow> u8 \<Rightarrow> sprite_key" where
  "sprite_key_new grp nusiz = (grp, nusiz AND 0x07)"

record sprite_bitmap =
  bm_width :: u32
  bm_height :: u32
  bm_rgba :: "u8 list"

type_synonym sprite_pack = "sprite_key \<rightharpoonup> sprite_bitmap"

record manifest_entry =
  me_grp :: u8
  me_nusiz :: u8
  me_width :: u32
  me_height :: u32
  me_file :: string

datatype 'e pack_error = Manifest_Read 'e | Manifest_Parse 'e | Sprite_Read string 'e
  | Size_Mismatch string u32 u32 u64 nat

fun load_sprites :: "(string \<Rightarrow> 'e + u8 list) \<Rightarrow> manifest_entry list \<Rightarrow> sprite_pack \<Rightarrow> 'e pack_error + sprite_pack" where
  "load_sprites files [] sprites = Inr sprites"
| "load_sprites files (e # es) sprites = (case files (me_file e) of
     Inl err \<Rightarrow> Inl (Sprite_Read (me_file e) err)
   | Inr bytes \<Rightarrow> (let expected = ucast (me_width e) * ucast (me_height e) * 4 :: u64 in
       if length bytes \<noteq> unat expected
       then Inl (Size_Mismatch (me_file e) (me_width e) (me_height e) expected (length bytes))
       else load_sprites files es (sprites(sprite_key_new (me_grp e) (me_nusiz e) \<mapsto>
         \<lparr>bm_width = me_width e, bm_height = me_height e, bm_rgba = bytes\<rparr>))))"

definition load_pack :: "('e + string) \<Rightarrow> (string \<Rightarrow> 'e + manifest_entry list) \<Rightarrow> (string \<Rightarrow> 'e + u8 list) \<Rightarrow> 'e pack_error + sprite_pack" where
  "load_pack manifest parse files = (case manifest of
     Inl err \<Rightarrow> Inl (Manifest_Read err)
   | Inr text \<Rightarrow> (case parse text of Inl err \<Rightarrow> Inl (Manifest_Parse err) | Inr es \<Rightarrow> load_sprites files es Map.empty))"

definition pack_lookup :: "sprite_pack \<Rightarrow> u8 \<Rightarrow> u8 \<Rightarrow> sprite_bitmap option" where
  "pack_lookup pack grp nusiz = pack (sprite_key_new grp nusiz)"

subsection \<open>The splice\<close>

definition sprite_scale :: "u8 \<Rightarrow> nat" where
  "sprite_scale nusiz = (if nusiz AND 0x07 = 5 then 2 else if nusiz AND 0x07 = 7 then 4 else 1)"

definition footprint :: "u8 \<Rightarrow> nat" where "footprint nusiz = 8 * sprite_scale nusiz"

type_synonym run_key = "object_id \<times> u8 \<times> u8"

definition candidate_key :: "object_tag \<Rightarrow> run_key option" where
  "candidate_key tag = (if ot_object tag = Player0 \<or> ot_object tag = Player1
     then Some (ot_object tag, ot_grp tag, ot_nusiz tag) else None)"

definition mask_at :: "object_tag list \<Rightarrow> nat \<Rightarrow> object_tag" where
  "mask_at tags src = (if src < length tags then tags ! src else tag_default)"

text \<open>A run of dots of one player along a line: where it began, and its key.\<close>

definition run_continues :: "nat \<Rightarrow> run_key option \<Rightarrow> nat \<times> run_key option \<Rightarrow> bool" where
  "run_continues x candidate = (\<lambda>(start, key). case key of
     None \<Rightarrow> False
   | Some (obj, grp, nusiz) \<Rightarrow> x - start < footprint nusiz \<and> (candidate = None \<or> candidate = Some (obj, grp, nusiz)))"

definition next_run :: "nat \<Rightarrow> run_key option \<Rightarrow> nat \<times> run_key option \<Rightarrow> nat \<times> run_key option" where
  "next_run x candidate run = (if run_continues x candidate run then run else (x, candidate))"

definition blend :: "u8 \<Rightarrow> u8 \<Rightarrow> u32 \<Rightarrow> u32" where
  "blend c a bg = (ucast c * ucast a + bg * (255 - ucast a)) div 255"

definition blended :: "sprite_bitmap \<Rightarrow> nat \<Rightarrow> rgb \<Rightarrow> rgb" where
  "blended bm idx c = (let a = bm_rgba bm ! (idx + 3);
     out_r = blend (bm_rgba bm ! idx) a (drop_bit 16 c AND 0xFF);
     out_g = blend (bm_rgba bm ! (idx + 1)) a (drop_bit 8 c AND 0xFF);
     out_b = blend (bm_rgba bm ! (idx + 2)) a (c AND 0xFF)
   in (push_bit 16 out_r OR push_bit 8 out_g) OR out_b)"

text \<open>The replacement colour of a dot, if its run has one there.\<close>

definition replacement :: "sprite_pack \<Rightarrow> nat \<times> run_key option \<Rightarrow> nat \<Rightarrow> nat \<Rightarrow> rgb \<Rightarrow> rgb option" where
  "replacement pack run y x c = (case run of
     (start, None) \<Rightarrow> None
   | (start, Some (obj, grp, nusiz)) \<Rightarrow> (case pack_lookup pack grp nusiz of
       None \<Rightarrow> None
     | Some bm \<Rightarrow>
         if bm_width bm > 0 \<and> bm_height bm > 0 \<and> x - start < footprint nusiz then (let
           bmp_x = min ((x - start) * unat (bm_width bm) div footprint nusiz) (unat (bm_width bm) - 1);
           bmp_y = y mod unat (bm_height bm);
           idx = (bmp_y * unat (bm_width bm) + bmp_x) * 4
         in if idx + 3 < length (bm_rgba bm) \<and> bm_rgba bm ! (idx + 3) > 0 then Some (blended bm idx c) else None)
         else None))"

definition splice_dot ::
  "region \<Rightarrow> u8 list \<Rightarrow> object_tag list \<Rightarrow> sprite_pack option \<Rightarrow> nat \<Rightarrow> nat \<Rightarrow> (nat \<times> run_key option) \<times> frame \<Rightarrow> (nat \<times> run_key option) \<times> frame" where
  "splice_dot r video tags sprites y x = (\<lambda>(run, f). let
     color_idx = picture_dot r video x y;
     c = lookup_color r (drop_bit 1 color_idx)
   in case sprites of
        None \<Rightarrow> (run, put_index x y (drop_bit 1 color_idx) (put_dot x y c f))
      | Some pack \<Rightarrow> (let
          run = next_run x (candidate_key (mask_at tags ((y + vblank_lines r) * 160 + x))) run;
          shown = (case replacement pack run y x c of Some out \<Rightarrow> out | None \<Rightarrow> c)
        in (run, put_index x y (drop_bit 1 color_idx) (put_dot x y shown f))))"

definition splice_line :: "region \<Rightarrow> u8 list \<Rightarrow> object_tag list \<Rightarrow> sprite_pack option \<Rightarrow> nat \<Rightarrow> frame \<Rightarrow> frame" where
  "splice_line r video tags sprites y f = snd (fold (splice_dot r video tags sprites y) [0..<160] ((0, None), f))"

definition splice_frame :: "region \<Rightarrow> u8 list \<Rightarrow> object_tag list \<Rightarrow> sprite_pack option \<Rightarrow> frame" where
  "splice_frame r video tags sprites = fold (splice_line r video tags sprites) [0..<active_height r] (black VCS_W (active_height r))"

subsection \<open>Tags and colours\<close>

text \<open>The colour register an object is drawn in.\<close>

definition object_color :: "objects \<Rightarrow> u16 \<Rightarrow> object_id \<Rightarrow> u8" where
  "object_color ob x obj = (case obj of
     Background \<Rightarrow> ob_colu ob ! 3
   | Playfield \<Rightarrow> (if ob_ctrlpf ob AND 0x02 \<noteq> 0 then ob_colu ob ! (if x < 80 then 0 else 1) else ob_colu ob ! 2)
   | Ball \<Rightarrow> ob_colu ob ! 2
   | Missile0 \<Rightarrow> ob_colu ob ! 0 | Player0 \<Rightarrow> ob_colu ob ! 0
   | Missile1 \<Rightarrow> ob_colu ob ! 1 | Player1 \<Rightarrow> ob_colu ob ! 1)"

lemma tag_color: "color_at ob x p = object_color ob x (ot_object (tag_at ob x p))"
  by (simp add: color_at_def tag_at_def object_color_def plain_tag_def player_tag_def tag_default_def Let_def)

lemma tag_player:
  assumes "candidate_key (tag_at ob x (pixels_at ob x)) = Some (obj, grp, nusiz)"
  shows "\<exists>i \<in> {0, 1}. \<exists>offset. nusiz = ob_nusiz ob ! i \<and> check_pm x (ucast (ob_pos ob ! i)) nusiz False = Some offset \<and>
    grp AND push_bit (unat (if ob_refp ob ! i then offset else 7 - offset)) 1 \<noteq> 0"
proof -
  have "\<exists>i \<in> {0, 1}. player_pixel ob i x \<and> grp = captured_grp ob i x \<and> nusiz = ob_nusiz ob ! i"
    using assms by (auto simp: candidate_key_def tag_at_def plain_tag_def player_tag_def tag_default_def pixels_at_def split: if_splits)
  then show ?thesis by (auto simp: player_pixel_def captured_grp_def Let_def split: option.splits)
qed

text \<open>
  the tag of a dot names what the dot shows. The colour the TIA puts at a dot is the colour register of the object in its
  tag; and where the tag names a player, the byte it carries is the one drawn there, with the bit of this dot set.
\<close>

theorem tag_names_what_is_shown:
  assumes "render_tag t = tag" "\<not> (tia_color_clock t < 68 \<or> tia_scanline t \<ge> 300)"
  defines "ob \<equiv> tia_objects t" and "x \<equiv> tia_color_clock t - 68"
  shows "tia_current_color (render_pixel t) = object_color ob x (ot_object tag) \<and>
    (ot_object tag \<in> {Player0, Player1} \<longrightarrow> (\<exists>i \<in> {0, 1}. \<exists>offset. ot_nusiz tag = ob_nusiz ob ! i \<and>
       check_pm x (ucast (ob_pos ob ! i)) (ot_nusiz tag) False = Some offset \<and>
       ot_grp tag AND push_bit (unat (if ob_refp ob ! i then offset else 7 - offset)) 1 \<noteq> 0))"
proof -
  have tag: "tag = tag_at ob x (pixels_at ob x)" using assms by (simp add: render_tag_def Let_def)
  have "ot_object tag \<in> {Player0, Player1} \<Longrightarrow> candidate_key tag = Some (ot_object tag, ot_grp tag, ot_nusiz tag)"
    by (auto simp: candidate_key_def)
  then show ?thesis using assms(2) tag tag_player [of ob x] unfolding ob_def x_def
    by (auto simp: render_pixel_def Let_def tag_color simp del: One_nat_def)
qed

subsection \<open>What a pack changes\<close>

definition run_after :: "region \<Rightarrow> object_tag list \<Rightarrow> nat \<Rightarrow> nat \<Rightarrow> nat \<times> run_key option" where
  "run_after r tags y n = fold (\<lambda>x. next_run x (candidate_key (mask_at tags ((y + vblank_lines r) * 160 + x)))) [0..<n] (0, None)"

definition plain_color :: "region \<Rightarrow> u8 list \<Rightarrow> nat \<Rightarrow> nat \<Rightarrow> rgb" where
  "plain_color r video x y = lookup_color r (drop_bit 1 (picture_dot r video x y))"

definition shown_color :: "region \<Rightarrow> u8 list \<Rightarrow> object_tag list \<Rightarrow> sprite_pack option \<Rightarrow> nat \<Rightarrow> nat \<Rightarrow> rgb" where
  "shown_color r video tags sprites x y = (case sprites of
     None \<Rightarrow> plain_color r video x y
   | Some pack \<Rightarrow> (case replacement pack (run_after r tags y (Suc x)) y x (plain_color r video x y) of
       Some out \<Rightarrow> out | None \<Rightarrow> plain_color r video x y))"

lemma splice_dots:
  "fold (splice_dot r video tags sprites y) [0..<n] ((0, None), f) =
     ((case sprites of None \<Rightarrow> (0, None) | Some _ \<Rightarrow> run_after r tags y n),
      fold (\<lambda>x f. put_index x y (drop_bit 1 (picture_dot r video x y)) (put_dot x y (shown_color r video tags sprites x y) f)) [0..<n] f)"
  by (induction n) (simp_all add: run_after_def splice_dot_def shown_color_def plain_color_def Let_def split: option.split)

lemma splice_frame_shows:
  assumes "x < 160" "y < active_height r"
  shows "dot_of (splice_frame r video tags sprites) x y =
      (rgba (shown_color r video tags sprites x y), drop_bit 1 (picture_dot r video x y))"
    and "frame_ok 160 (active_height r) (splice_frame r video tags sprites)"
proof -
  have ok: "frame_ok 160 (active_height r) (black VCS_W (active_height r))" by (simp add: VCS_W_def)
  have sets: "set [0..<160] \<subseteq> {..<160::nat}" "set [0..<active_height r] \<subseteq> {..<active_height r}" by auto
  have eq: "splice_frame r video tags sprites =
      fold (\<lambda>y. fold (\<lambda>x f. put_index x y (drop_bit 1 (picture_dot r video x y)) (put_dot x y (shown_color r video tags sprites x y) f)) [0..<160])
        [0..<active_height r] (black VCS_W (active_height r))"
    by (simp add: splice_frame_def splice_line_def [abs_def] splice_dots)
  from fill_frame [OF ok sets assms, of "\<lambda>x y. drop_bit 1 (picture_dot r video x y)" "shown_color r video tags sprites"]
  show "dot_of (splice_frame r video tags sprites) x y =
      (rgba (shown_color r video tags sprites x y), drop_bit 1 (picture_dot r video x y))"
    "frame_ok 160 (active_height r) (splice_frame r video tags sprites)"
    unfolding eq using assms by simp_all
qed

lemma run_began:
  "run_after r tags y n = (start, Some key) \<Longrightarrow>
     start < n \<and> candidate_key (mask_at tags ((y + vblank_lines r) * 160 + start)) = Some key"
proof (induction n)
  case (Suc n)
  have "run_after r tags y (Suc n) =
      next_run n (candidate_key (mask_at tags ((y + vblank_lines r) * 160 + n))) (run_after r tags y n)"
    by (simp add: run_after_def)
  with Suc show ?case by (auto simp: next_run_def less_Suc_eq split: if_splits)
qed (simp add: run_after_def)

lemma replacement_some:
  assumes "replacement pack (start, Some (obj, grp, nusiz)) y x c = Some out"
  obtains bm idx where "pack_lookup pack grp nusiz = Some bm" "x - start < footprint nusiz" "idx + 3 < length (bm_rgba bm)"
    "bm_rgba bm ! (idx + 3) > 0" "out = blended bm idx c"
  using assms unfolding replacement_def prod.case option.case Let_def by (auto split: option.splits if_splits)

text \<open>
  a sprite pack is cosmetic. Whatever pack is loaded, the frame has its size and its colour numbers unchanged, and with none
  loaded it is the plain frame. A dot differs from the plain frame only inside the footprint of a player dot
  on its own line, to the left or at the dot, whose byte and copy mode the pack replaces with a bitmap that is not transparent
  there; it then shows that bitmap's pixel blended over the plain colour.
\<close>

theorem pack_is_cosmetic:
  fixes video :: "u8 list"
  assumes "x < 160" "y < active_height r"
  defines "c \<equiv> lookup_color r (drop_bit 1 (picture_dot r video x y))"
  shows "splice_frame r video tags None = draw_frame r video \<and>
    frame_ok 160 (active_height r) (splice_frame r video tags sprites) \<and>
    (\<exists>out. dot_of (splice_frame r video tags sprites) x y = (rgba out, drop_bit 1 (picture_dot r video x y)) \<and>
      (out \<noteq> c \<longrightarrow> (\<exists>pack start obj grp nusiz bm idx.
         sprites = Some pack \<and> start \<le> x \<and> x - start < footprint nusiz \<and>
         candidate_key (mask_at tags ((y + vblank_lines r) * 160 + start)) = Some (obj, grp, nusiz) \<and>
         pack_lookup pack grp nusiz = Some bm \<and> idx + 3 < length (bm_rgba bm) \<and> bm_rgba bm ! (idx + 3) > 0 \<and>
         out = blended bm idx c)))"
proof (intro conjI)
  have "splice_line r video tags None = (\<lambda>y. fold (\<lambda>x f. put_index x y (drop_bit 1 (picture_dot r video x y)) (put_dot x y (plain_color r video x y) f)) [0..<160])"
    by (intro ext) (simp add: splice_line_def splice_dots shown_color_def)
  then show "splice_frame r video tags None = draw_frame r video"
    by (simp add: splice_frame_def draw_frame_def draw_onto_def plain_color_def Let_def)
  show "frame_ok 160 (active_height r) (splice_frame r video tags sprites)" by (rule splice_frame_shows(2) [OF assms(1,2)])
  let ?out = "shown_color r video tags sprites x y"
  have "\<exists>pack start obj grp nusiz bm idx.
         sprites = Some pack \<and> start \<le> x \<and> x - start < footprint nusiz \<and>
         candidate_key (mask_at tags ((y + vblank_lines r) * 160 + start)) = Some (obj, grp, nusiz) \<and>
         pack_lookup pack grp nusiz = Some bm \<and> idx + 3 < length (bm_rgba bm) \<and> bm_rgba bm ! (idx + 3) > 0 \<and>
         ?out = blended bm idx c" if out: "?out \<noteq> c"
  proof -
    obtain pack where pack: "sprites = Some pack" "replacement pack (run_after r tags y (Suc x)) y x c = Some ?out"
    proof (cases sprites)
      case None
      then show ?thesis using out by (simp add: shown_color_def plain_color_def c_def)
    next
      case (Some pack)
      then have "replacement pack (run_after r tags y (Suc x)) y x c = Some ?out"
        using out unfolding shown_color_def plain_color_def c_def
        by (cases "replacement pack (run_after r tags y (Suc x)) y x (lookup_color r (drop_bit 1 (picture_dot r video x y)))") simp_all
      with Some show ?thesis by (rule that)
    qed
    then obtain start obj grp nusiz where run: "run_after r tags y (Suc x) = (start, Some (obj, grp, nusiz))"
      by (cases "run_after r tags y (Suc x)") (auto simp: replacement_def split: option.splits)
    obtain bm idx where bm: "pack_lookup pack grp nusiz = Some bm" "x - start < footprint nusiz" "idx + 3 < length (bm_rgba bm)"
      "bm_rgba bm ! (idx + 3) > 0" "?out = blended bm idx c"
      using pack(2) unfolding run by (rule replacement_some)
    have "start \<le> x" using run_began [OF run] by simp
    with run_began [OF run] pack(1) bm show ?thesis by blast
  qed
  then show "\<exists>out. dot_of (splice_frame r video tags sprites) x y = (rgba out, drop_bit 1 (picture_dot r video x y)) \<and>
      (out \<noteq> c \<longrightarrow> (\<exists>pack start obj grp nusiz bm idx.
         sprites = Some pack \<and> start \<le> x \<and> x - start < footprint nusiz \<and>
         candidate_key (mask_at tags ((y + vblank_lines r) * 160 + start)) = Some (obj, grp, nusiz) \<and>
         pack_lookup pack grp nusiz = Some bm \<and> idx + 3 < length (bm_rgba bm) \<and> bm_rgba bm ! (idx + 3) > 0 \<and>
         out = blended bm idx c))"
    using splice_frame_shows(1) [OF assms(1,2)] by blast
qed

lemma pack_is_cosmetic_witness:
  "\<exists>out. dot_of (splice_frame Region_Ntsc [] [] (Some Map.empty)) 159 191 =
     (rgba out, drop_bit 1 (picture_dot Region_Ntsc [] 159 191))"
  using pack_is_cosmetic [of 159 191 Region_Ntsc "[]" "[]" "Some Map.empty"] by (auto simp: VISIBLE_HEIGHT_NTSC_def)

text \<open>An opaque pixel of a bitmap replaces the colour.\<close>

lemma blend_opaque: "blend c 255 bg = ucast c"
proof -
  have "unat (ucast c * 255 :: u32) = unat c * 255" using word8_bound [of c] by (simp add: unat_word_ariths unsigned_ucast_eq take_bit_nat_eq_self)
  then show ?thesis using word8_bound [of c] by (simp add: blend_def word_unat_eq_iff unat_div unsigned_ucast_eq take_bit_nat_eq_self)
qed

end
