(* ===== verification/Av_Record.thy ===== *)
theory Av_Record
  imports Rom_Files Palette
begin

text \<open>
  The recorder of the optional feature \<open>av-record\<close> (\<open>crates/rusty2600-frontend/src/av_record.rs\<close>), and how the core
  feeds it (\<open>extract_frame\<close> and \<open>run_frame\<close> in \<open>emu_thread.rs\<close>). The disk is the files by path; the
  buffering of a writer is left out, as everything is flushed before it is read. What the system refuses is an
  argument of each operation: \<open>None\<close>, or the error. \<open>ffmpeg\<close> is a parameter.
\<close>

subsection \<open>The disk\<close>

datatype 'e io_error = Os_Error 'e | Already_Exists | Invalid_Data | Broken_Pipe

type_synonym disk = "string \<rightharpoonup> u8 list"

definition create_new :: "'e option \<Rightarrow> string \<Rightarrow> disk \<Rightarrow> 'e io_error + disk" where
  "create_new refused p d = (case refused of
     Some e \<Rightarrow> Inl (Os_Error e)
   | None \<Rightarrow> if p \<in> dom d then Inl Already_Exists else Inr (d(p \<mapsto> [])))"

text \<open>Appending to an open file; a write that fails may have written some of the bytes.\<close>

definition write_all :: "(nat \<times> 'e) option \<Rightarrow> string \<Rightarrow> u8 list \<Rightarrow> disk \<Rightarrow> 'e io_error option \<times> disk" where
  "write_all fault p bytes d = (let old = (case d p of None \<Rightarrow> [] | Some c \<Rightarrow> c) in case fault of
     Some (n, e) \<Rightarrow> (Some (Os_Error e), d(p \<mapsto> old @ take n bytes))
   | None \<Rightarrow> (None, d(p \<mapsto> old @ bytes)))"

definition remove_file :: "string \<Rightarrow> disk \<Rightarrow> disk" where
  "remove_file p d = d(p := None)"

subsection \<open>Parameters\<close>

datatype container = Mp4 | Mkv

text \<open>\<open>Path::extension\<close>: what follows the last dot of the file name, unless that dot begins it.\<close>

definition path_extension :: "string \<Rightarrow> string option" where
  "path_extension path = (let name = rev (takeWhile (\<lambda>c. c \<noteq> CHR ''/'') (dropWhile (\<lambda>c. c = CHR ''/'') (rev path))) in
     if name \<noteq> ''..'' \<and> CHR ''.'' \<in> set (tl name) then Some (rev (takeWhile (\<lambda>c. c \<noteq> CHR ''.'') (rev name))) else None)"

definition container_from_path :: "string \<Rightarrow> container" where
  "container_from_path path = (if map_option (map to_ascii_lowercase) (path_extension path) = Some ''mkv'' then Mkv else Mp4)"

record av_params =
  av_out_path :: string
  av_width :: u32
  av_height :: u32
  av_sample_rate :: u32
  av_fps_num :: u32
  av_fps_den :: u32

definition frame_bytes :: "u32 \<Rightarrow> u32 \<Rightarrow> nat" where
  "frame_bytes width height = unat (ucast width * ucast height * 4 :: u64)"

definition ffmpeg_args :: "av_params \<Rightarrow> string \<Rightarrow> string \<Rightarrow> string list" where
  "ffmpeg_args p video_raw audio_raw =
     [''-y'', ''-f'', ''rawvideo'', ''-pixel_format'', ''rgba'',
      ''-video_size'', dec_digits (unat (av_width p)) @ ''x'' @ dec_digits (unat (av_height p)),
      ''-framerate'', dec_digits (unat (av_fps_num p)) @ ''/'' @ dec_digits (unat (av_fps_den p)),
      ''-i'', video_raw,
      ''-f'', ''f32le'', ''-ar'', dec_digits (unat (av_sample_rate p)), ''-ac'', ''1'', ''-i'', audio_raw,
      ''-c:v'', ''libx264'', ''-preset'', ''veryfast'', ''-crf'', ''18'', ''-pix_fmt'', ''yuv420p'',
      ''-c:a'', ''aac'', ''-b:a'', ''192k'', ''-shortest'', av_out_path p]"

definition capture_path :: "string \<Rightarrow> string \<Rightarrow> string" where
  "capture_path out_path suffix = out_path @ suffix"

subsection \<open>The recorder\<close>

datatype 'e av_error = Ffmpeg_Missing 'e | Sidecar "'e io_error" | Encode_Failed string

record recorder =
  rec_params :: av_params
  rec_video :: bool
  rec_video_path :: string
  rec_audio :: bool
  rec_audio_path :: string
  rec_frames :: u64
  rec_samples :: u64

definition recorder_start :: "'e option \<Rightarrow> 'e option \<Rightarrow> 'e option \<Rightarrow> av_params \<Rightarrow> disk \<Rightarrow> ('e av_error + recorder) \<times> disk" where
  "recorder_start no_ffmpeg no_video no_audio params d = (case no_ffmpeg of
     Some e \<Rightarrow> (Inl (Ffmpeg_Missing e), d)
   | None \<Rightarrow> (let
       video_path = capture_path (av_out_path params) ''.video.rusty2600-avtmp'';
       audio_path = capture_path (av_out_path params) ''.audio.rusty2600-avtmp''
     in case create_new no_video video_path d of
          Inl e \<Rightarrow> (Inl (Sidecar e), d)
        | Inr d \<Rightarrow> (case create_new no_audio audio_path d of
            Inl e \<Rightarrow> (Inl (Sidecar e), remove_file video_path d)
          | Inr d \<Rightarrow> (Inr \<lparr>rec_params = params, rec_video = True, rec_video_path = video_path,
              rec_audio = True, rec_audio_path = audio_path, rec_frames = 0, rec_samples = 0\<rparr>, d))))"

definition push_video :: "(nat \<times> 'e) option \<Rightarrow> u8 list \<Rightarrow> recorder \<Rightarrow> disk \<Rightarrow> 'e av_error option \<times> recorder \<times> disk" where
  "push_video fault framebuffer r d =
     (if length framebuffer \<noteq> frame_bytes (av_width (rec_params r)) (av_height (rec_params r)) then (Some (Sidecar Invalid_Data), r, d)
      else if \<not> rec_video r then (Some (Sidecar Broken_Pipe), r, d)
      else (case write_all fault (rec_video_path r) framebuffer d of
        (Some e, d) \<Rightarrow> (Some (Sidecar e), r, d)
      | (None, d) \<Rightarrow> (None, r\<lparr>rec_frames := rec_frames r + 1\<rparr>, d)))"

text \<open>A sample is the bit pattern of an \<open>f32\<close>.\<close>

definition le_bytes :: "u32 \<Rightarrow> u8 list" where
  "le_bytes s = [ucast s, ucast (drop_bit 8 s), ucast (drop_bit 16 s), ucast (drop_bit 24 s)]"

definition push_audio :: "(nat \<times> 'e) option \<Rightarrow> u32 list \<Rightarrow> recorder \<Rightarrow> disk \<Rightarrow> 'e av_error option \<times> recorder \<times> disk" where
  "push_audio fault samples r d =
     (if \<not> rec_audio r then (Some (Sidecar Broken_Pipe), r, d)
      else (case write_all fault (rec_audio_path r) (concat (map le_bytes samples)) d of
        (Some e, d) \<Rightarrow> (Some (Sidecar e), r, d)
      | (None, d) \<Rightarrow> (None, r\<lparr>rec_samples := rec_samples r + of_nat (length samples)\<rparr>, d)))"

definition drop_recorder :: "recorder \<Rightarrow> disk \<Rightarrow> disk" where
  "drop_recorder r d = remove_file (rec_audio_path r) (remove_file (rec_video_path r) d)"

text \<open>What running \<open>ffmpeg\<close> comes to.\<close>

datatype spawn_result = Exited bool string | Not_Spawned string

text \<open>Stopping; the recorder is dropped on every way out.\<close>

definition recorder_stop ::
  "(string list \<Rightarrow> disk \<Rightarrow> spawn_result \<times> disk) \<Rightarrow> 'e option \<Rightarrow> 'e option \<Rightarrow> recorder \<Rightarrow> disk \<Rightarrow> ('e av_error + string) \<times> disk" where
  "recorder_stop ffmpeg video_flush audio_flush r d =
     (case (if rec_video r then video_flush else None) of
        Some e \<Rightarrow> (Inl (Sidecar (Os_Error e)), drop_recorder (r\<lparr>rec_video := False\<rparr>) d)
      | None \<Rightarrow> (case (if rec_audio r then audio_flush else None) of
          Some e \<Rightarrow> (Inl (Sidecar (Os_Error e)), drop_recorder (r\<lparr>rec_video := False, rec_audio := False\<rparr>) d)
        | None \<Rightarrow> (let
            (result, d) = ffmpeg (ffmpeg_args (rec_params r) (rec_video_path r) (rec_audio_path r)) d;
            d = remove_file (rec_audio_path r) (remove_file (rec_video_path r) d);
            answer = (case result of
                Exited True err \<Rightarrow> Inr (av_out_path (rec_params r))
              | Exited False err \<Rightarrow> Inl (Encode_Failed err)
              | Not_Spawned err \<Rightarrow> Inl (Encode_Failed err))
          in (answer, drop_recorder (r\<lparr>rec_video := False, rec_audio := False\<rparr>) d))))"

subsection \<open>The core's taps\<close>

type_synonym recording = "recorder option \<times> disk"

text \<open>A push that fails ends the recording.\<close>

definition tap :: "(recorder \<Rightarrow> disk \<Rightarrow> 'e av_error option \<times> recorder \<times> disk) \<Rightarrow> recording \<Rightarrow> recording" where
  "tap push = (\<lambda>(r, d). case r of
     None \<Rightarrow> (None, d)
   | Some r \<Rightarrow> (case push r d of (Some e, r, d) \<Rightarrow> (None, drop_recorder r d) | (None, r, d) \<Rightarrow> (Some r, d)))"

text \<open>The samples and the picture of one frame, with the faults of their writes.\<close>

record 'e tapped =
  tp_samples :: "u32 list"
  tp_framebuffer :: "u8 list"
  tp_region :: region
  tp_audio_fault :: "(nat \<times> 'e) option"
  tp_video_fault :: "(nat \<times> 'e) option"

definition shown_part :: "'e tapped \<Rightarrow> u8 list" where
  "shown_part t = take (min (VCS_W * active_height (tp_region t) * 4) (length (tp_framebuffer t))) (tp_framebuffer t)"

definition tap_frame :: "'e tapped \<Rightarrow> recording \<Rightarrow> recording" where
  "tap_frame t rec = (let
     rec = (if tp_samples t \<noteq> [] then tap (push_audio (tp_audio_fault t) (tp_samples t)) rec else rec)
   in tap (push_video (tp_video_fault t) (shown_part t)) rec)"

subsection \<open>The menu's toggle\<close>

datatype 'e av_status = Unchanged | Recording_Saved string | Recording_Failed "'e av_error" | Recording_Started
  | Recording_Unavailable "'e av_error"

text \<open>
  \<open>chosen\<close> is the path the dialog gives, \<open>fps_num\<close> the region's frame rate in millionths, rounded; \<open>refused\<close> what the
  system refuses: the first two of it the flushes of stopping, all three the probe and the two files of starting.
\<close>

definition av_record_toggle ::
  "(string list \<Rightarrow> disk \<Rightarrow> spawn_result \<times> disk) \<Rightarrow> 'e option \<times> 'e option \<times> 'e option \<Rightarrow> string option \<Rightarrow> region \<Rightarrow> u32 option \<Rightarrow>
   u32 \<Rightarrow> recording \<Rightarrow> 'e av_status \<times> recording" where
  "av_record_toggle ffmpeg refused chosen region device_rate fps_num = (\<lambda>(recorder, d). let (e1, e2, e3) = refused in
     case recorder of
       Some r \<Rightarrow> (case recorder_stop ffmpeg e1 e2 r d of
         (Inr path, d) \<Rightarrow> (Recording_Saved path, None, d) | (Inl e, d) \<Rightarrow> (Recording_Failed e, None, d))
     | None \<Rightarrow> (case chosen of
         None \<Rightarrow> (Unchanged, None, d)
       | Some path \<Rightarrow> (let
           params = \<lparr>av_out_path = path, av_width = of_nat VCS_W, av_height = of_nat (active_height region),
             av_sample_rate = (case device_rate of None \<Rightarrow> 48000 | Some n \<Rightarrow> n), av_fps_num = fps_num, av_fps_den = 1000000\<rparr>
         in case recorder_start e1 e2 e3 params d of
              (Inr r, d) \<Rightarrow> (Recording_Started, Some r, d) | (Inl e, d) \<Rightarrow> (Recording_Unavailable e, None, d))))"

subsection \<open>What a recording leaves\<close>

text \<open>
  A recording on a disk that was \<open>d\<^sub>0\<close>: its two files are new, and hold the frames and the samples given so far; nothing else
  on the disk has changed.
\<close>

definition recording_ok :: "disk \<Rightarrow> av_params \<Rightarrow> u8 list list \<Rightarrow> u32 list \<Rightarrow> recording \<Rightarrow> bool" where
  "recording_ok d0 params pictures samples = (\<lambda>(r, d). case r of
     None \<Rightarrow> d = d0
   | Some r \<Rightarrow> r = \<lparr>rec_params = params, rec_video = True, rec_video_path = capture_path (av_out_path params) ''.video.rusty2600-avtmp'',
       rec_audio = True, rec_audio_path = capture_path (av_out_path params) ''.audio.rusty2600-avtmp'',
       rec_frames = of_nat (length pictures), rec_samples = of_nat (length samples)\<rparr> \<and>
       rec_video_path r \<notin> dom d0 \<and> rec_audio_path r \<notin> dom d0 \<and>
       list_all (\<lambda>p. length p = frame_bytes (av_width params) (av_height params)) pictures \<and>
       d = d0(rec_video_path r \<mapsto> concat pictures, rec_audio_path r \<mapsto> concat (map le_bytes samples)))"

lemma capture_paths_differ: "capture_path p ''.video.rusty2600-avtmp'' \<noteq> capture_path p ''.audio.rusty2600-avtmp''"
  by (simp add: capture_path_def)

lemma start_ok:
  "recorder_start no_ffmpeg no_video no_audio params d0 = (Inr r, d) \<Longrightarrow> recording_ok d0 params [] [] (Some r, d)"
  "recorder_start no_ffmpeg no_video no_audio params d0 = (Inl e, d) \<Longrightarrow> d = d0"
  using capture_paths_differ [of "av_out_path params"]
  by (auto simp: recorder_start_def recording_ok_def create_new_def remove_file_def Let_def dom_def fun_upd_twist
      split: option.splits if_splits)

lemma drop_ok:
  assumes "recording_ok d0 params pictures samples (Some r, d)"
  shows "drop_recorder r (d(rec_video_path r := v, rec_audio_path r := a)) = d0"
  using assms by (auto simp: recording_ok_def drop_recorder_def remove_file_def dom_def fun_eq_iff)

lemma tap_audio_ok:
  assumes "recording_ok d0 params pictures samples rec"
  shows "recording_ok d0 params pictures (samples @ new) (tap (push_audio fault new) rec)"
proof (cases rec)
  case (Pair r d)
  show ?thesis
  proof (cases r)
    case None
    then show ?thesis using assms Pair by (simp add: recording_ok_def tap_def)
  next
    case (Some r)
    note ok = assms [unfolded Pair Some]
    show ?thesis
    proof (cases fault)
      case None
      then show ?thesis using ok capture_paths_differ [of "av_out_path params"] unfolding Pair Some
        by (auto simp: recording_ok_def tap_def push_audio_def write_all_def Let_def)
    next
      case (Some f)
      then show ?thesis using drop_ok [OF ok, of "d (rec_video_path r)"] ok unfolding Pair \<open>_ = Some r\<close>
        by (cases f) (auto simp: recording_ok_def tap_def push_audio_def write_all_def Let_def)
    qed
  qed
qed

lemma tap_video_ok:
  assumes "recording_ok d0 params pictures samples rec"
  shows "recording_ok d0 params (pictures @ [new]) samples (tap (push_video fault new) rec)"
proof (cases rec)
  case (Pair r d)
  show ?thesis
  proof (cases r)
    case None
    then show ?thesis using assms Pair by (simp add: recording_ok_def tap_def)
  next
    case (Some r)
    note ok = assms [unfolded Pair Some]
    consider "length new \<noteq> frame_bytes (av_width params) (av_height params)"
      | "length new = frame_bytes (av_width params) (av_height params)" "fault = None"
      | f where "length new = frame_bytes (av_width params) (av_height params)" "fault = Some f" by (cases fault) auto
    then show ?thesis
    proof cases
      case 1
      then show ?thesis using drop_ok [OF ok, of "d (rec_video_path r)" "d (rec_audio_path r)"] ok unfolding Pair Some
        by (auto simp: recording_ok_def tap_def push_video_def)
    next
      case 2
      then show ?thesis using ok capture_paths_differ [of "av_out_path params"] unfolding Pair Some
        by (auto simp: recording_ok_def tap_def push_video_def write_all_def Let_def fun_upd_twist)
    next
      case 3
      have "drop_recorder r (d(rec_video_path r := v)) = d0" for v
        using ok by (auto simp: recording_ok_def drop_recorder_def remove_file_def dom_def fun_eq_iff)
      moreover have "rec_video r" "rec_params r = params" using ok by (simp_all add: recording_ok_def)
      ultimately show ?thesis using 3 unfolding Pair Some
        by (cases f) (simp add: recording_ok_def tap_def push_video_def write_all_def Let_def)
    qed
  qed
qed

lemma taps_ok:
  assumes "recording_ok d0 params pictures samples rec"
  shows "recording_ok d0 params (pictures @ map shown_part ts) (samples @ concat (map tp_samples ts)) (fold tap_frame ts rec)"
  using assms
proof (induction ts arbitrary: pictures samples rec)
  case (Cons t ts)
  have "recording_ok d0 params pictures (samples @ tp_samples t)
      (if tp_samples t \<noteq> [] then tap (push_audio (tp_audio_fault t) (tp_samples t)) rec else rec)"
    using tap_audio_ok [OF Cons.prems, of "tp_samples t" "tp_audio_fault t"] Cons.prems by simp
  then have "recording_ok d0 params (pictures @ [shown_part t]) (samples @ tp_samples t) (tap_frame t rec)"
    unfolding tap_frame_def Let_def by (rule tap_video_ok)
  from Cons.IH [OF this] show ?case by simp
qed simp

text \<open>
  a recording is faithful, or leaves no trace. However the frames come and whichever write fails, a recording that is still
  running has in its two files exactly the pictures and the samples of all frames since it was started, each picture of the
  recording's size, and nothing else on the disk has changed; a recording that a failure has ended, or
  that is dropped, leaves the disk as it was before; and one that is stopped shows \<open>ffmpeg\<close> the complete files
  and then removes them, whatever \<open>ffmpeg\<close> answers.
\<close>

theorem recording_faithful:
  fixes no_ffmpeg :: "'e option"
  assumes "recorder_start no_ffmpeg no_video no_audio params d0 = (Inr r, d)"
  defines "vp \<equiv> capture_path (av_out_path params) ''.video.rusty2600-avtmp''"
    and "ap \<equiv> capture_path (av_out_path params) ''.audio.rusty2600-avtmp''"
  shows "case fold tap_frame ts (Some r, d) of
     (None, d') \<Rightarrow> d' = d0
   | (Some r', d') \<Rightarrow> drop_recorder r' d' = d0 \<and> rec_frames r' = of_nat (length ts) \<and>
       list_all (\<lambda>t. length (shown_part t) = frame_bytes (av_width params) (av_height params)) ts \<and>
       d' = d0(vp \<mapsto> concat (map shown_part ts), ap \<mapsto> concat (map le_bytes (concat (map tp_samples ts)))) \<and>
       (\<forall>ffmpeg answer left. ffmpeg (ffmpeg_args params vp ap) d' = (answer, left) \<longrightarrow>
          snd (recorder_stop ffmpeg (None :: 'e option) None r' d') = left(vp := None, ap := None))"
proof (cases "fold tap_frame ts (Some r, d)")
  case (Pair r' d')
  have ok: "recording_ok d0 params (map shown_part ts) (concat (map tp_samples ts)) (r', d')"
    using taps_ok [OF start_ok(1) [OF assms(1)], of ts] unfolding Pair by simp
  show ?thesis
  proof (cases r')
    case None
    then show ?thesis using ok Pair by (simp add: recording_ok_def)
  next
    case (Some r')
    note ok = ok [unfolded Some]
    have "drop_recorder r' d' = d0" using drop_ok [OF ok, of "d' (rec_video_path r')" "d' (rec_audio_path r')"] by simp
    moreover have "rec_frames r' = of_nat (length ts)"
      "list_all (\<lambda>t. length (shown_part t) = frame_bytes (av_width params) (av_height params)) ts"
      "d' = d0(vp \<mapsto> concat (map shown_part ts), ap \<mapsto> concat (map le_bytes (concat (map tp_samples ts))))"
      using ok by (simp_all add: recording_ok_def vp_def ap_def list_all_iff)
    moreover have "snd (recorder_stop ffmpeg (None :: 'e option) None r' d') = left(vp := None, ap := None)"
      if "ffmpeg (ffmpeg_args params vp ap) d' = (answer, left)" for ffmpeg :: "string list \<Rightarrow> disk \<Rightarrow> spawn_result \<times> disk" and answer left
      using ok that
      by (auto simp: recording_ok_def recorder_stop_def drop_recorder_def remove_file_def vp_def ap_def Let_def fun_eq_iff)
    ultimately show ?thesis unfolding Pair Some by simp
  qed
qed

definition demo_params :: av_params where
  "demo_params = \<lparr>av_out_path = ''clip.mp4'', av_width = 1, av_height = 1, av_sample_rate = 48000, av_fps_num = 60, av_fps_den = 1\<rparr>"

lemma recording_faithful_witness:
  "\<exists>r d. recorder_start (None :: nat option) None None demo_params Map.empty = (Inr r, d) \<and>
     (case fold tap_frame [] (Some r, d) of (None, d') \<Rightarrow> False | (Some r', d') \<Rightarrow> drop_recorder r' d' = Map.empty)"
proof -
  obtain r d where start: "recorder_start (None :: nat option) None None demo_params Map.empty = (Inr r, d)"
    using capture_paths_differ [of "av_out_path demo_params"] by (auto simp: recorder_start_def create_new_def Let_def)
  from recording_faithful [OF start, of "[]"] have "drop_recorder r d = Map.empty" unfolding fold.simps id_apply prod.case option.case by (rule conjunct1)
  with start show ?thesis by auto
qed

end
