(* ===== verification/Spec2Isabelle.thy ===== *)
theory Spec2Isabelle
  imports Cycles Alu_Props Stack_Props Emu_Core Audio_Ring Asm_Roundtrip Debugger_Props Script_Props Share_Link Shader_Preset Mobile App_Props Netplay_Sound Achievements Shader_Stack Slot_Labels Hd_Pack Av_Record
begin

text \<open>
  A model of Rusty2600, an emulator of the Atari 2600 written in Rust. The directories named below are under
  \<open>crates/\<close>.

  \<^bold>\<open>The program.\<close> A \<open>System\<close> is a 6507 CPU and a \<open>Bus\<close>, on which sit the TIA (picture, sound,
  paddles), the RIOT (RAM, ports, timer) and a cartridge. The cartridge is one of 25 boards; two of them carry an ARM
  coprocessor, interpreted by the Thumb crate. The scheduler runs the chips in lockstep: each bus access of an
  instruction is one CPU cycle, in which the TIA advances three color clocks and the RIOT and the cartridge one cycle,
  and a write to WSYNC stalls the CPU until the line ends. Around the machine stand save states and movies,
  the frame loop shared by the desktop, netplay and mobile frontends, the desktop's emulation core (rewind, run-ahead,
  published frames, the audio queue), host input, and the tools of the window: debugger, assembler, watch expressions,
  scripts, achievements, save slots, share links, shader presets and the stack of shader passes.

  \<^bold>\<open>Theories and sources.\<close>
  \<^item> \<open>Prelude\<close>: integer types, checked indexing, \<open>wpo\<close> (a computation returns and its result satisfies a
    predicate), masks and bounds. \<open>Rust_Str\<close>: the string operations of Rust's library.
  \<^item> \<open>Audio\<close>, \<open>Paddle\<close>, \<open>Tia\<close>, \<open>Tia_Props\<close>: \<open>rusty2600-tia\<close>. \<open>Riot\<close>:
    \<open>rusty2600-riot\<close>.
  \<^item> \<open>Board\<close> (the trait), \<open>Boards_Banked\<close>, \<open>Boards_Ram\<close>, \<open>Boards_Snoop\<close>, \<open>Board_4A50\<close>,
    \<open>Board_Dpc\<close>, \<open>Board_Ar\<close>, \<open>Board_DpcPlus\<close>, \<open>Board_Cdf\<close>, \<open>Cartridge\<close> (the enum and its
    dispatch), \<open>Detect\<close>: \<open>rusty2600-cart/src/lib.rs\<close>.
  \<^item> \<open>Thumb_State\<close>, \<open>Thumb_Exec\<close>, \<open>Thumb_Safe\<close>, \<open>Thumb_Props\<close>: \<open>rusty2600-thumb\<close>.
  \<^item> \<open>Status\<close>, \<open>Cpu\<close>, \<open>Alu\<close>, \<open>Dispatch\<close>: \<open>rusty2600-cpu\<close>, with the facts about them in
    \<open>Cpu_Exec\<close>, \<open>Alu_Props\<close>, \<open>Cpu_Symmetry\<close>, \<open>Cycles\<close>, \<open>Stack_Props\<close>.
  \<^item> \<open>Bus\<close>, \<open>Scheduler\<close>, \<open>Save_State\<close>: \<open>rusty2600-core\<close> (\<open>bus.rs\<close>, \<open>scheduler.rs\<close>,
    \<open>save_state.rs\<close>, \<open>movie.rs\<close>).
  \<^item> \<open>Frames\<close>: the frame loop, \<open>rusty2600-netplay\<close> (\<open>session.rs\<close>, \<open>frame_advance.rs\<close>) and the movie
    editor of \<open>debugger/tastudio_panel.rs\<close>.
  \<^item> In \<open>rusty2600-frontend/src\<close>: \<open>Input\<close> (\<open>input.rs\<close>), \<open>Palette\<close> (\<open>palette.rs\<close>,
    \<open>present_buffer.rs\<close>), \<open>Emu_Core\<close> (\<open>emu_thread.rs\<close>, \<open>runahead.rs\<close>), \<open>Audio_Ring\<close>
    (\<open>audio_ring.rs\<close>), \<open>Disasm\<close> and \<open>Asm_Roundtrip\<close> (\<open>debugger/disasm.rs\<close>,
    \<open>debugger/assembler.rs\<close>), \<open>Expr\<close> (\<open>debugger/expr.rs\<close>), \<open>Debugger\<close> and \<open>Debugger_Props\<close> (the
    other panels of \<open>debugger\<close>, and their actions in \<open>app.rs\<close>), \<open>Share_Link\<close> (\<open>share_link.rs\<close>),
    \<open>Shader_Preset\<close> (\<open>slang_preset.rs\<close>), \<open>Shader_Stack\<close> (\<open>shader_pass.rs\<close>, \<open>present\<close> in
    \<open>gfx.rs\<close>), \<open>Rom_Files\<close> (\<open>rom_archive.rs\<close>, the slot paths of \<open>config.rs\<close>), \<open>Slot_Labels\<close>
    (the slot labels of \<open>shell.rs\<close>), \<open>App_Actions\<close>, \<open>App_Props\<close> and \<open>Netplay_Sound\<close> (the menu actions
    and the netplay branch of \<open>app.rs\<close>, \<open>netplay_session.rs\<close>), \<open>Hd_Pack\<close> (the \<open>hd-pack\<close> feature in
    \<open>sprite_pack.rs\<close>, the TIA and \<open>emu_thread.rs\<close>), \<open>Av_Record\<close> (the \<open>av-record\<close> feature: \<open>av_record.rs\<close>,
    its taps in \<open>emu_thread.rs\<close>, its action in \<open>app.rs\<close>).
  \<^item> \<open>Script\<close>, \<open>Script_Props\<close>: \<open>rusty2600-script\<close> and \<open>frontend/src/scripting.rs\<close>.
    \<open>Achievements\<close>: \<open>rusty2600-cheevos\<close> and \<open>frontend/src/cheevos.rs\<close>. \<open>Mobile\<close>:
    \<open>rusty2600-mobile\<close>.

  \<^bold>\<open>State and operations.\<close> A struct is a record, an enum a datatype, a method a function from the old state to the
  new one. Integers keep their width as words. Where a method can panic it returns an option, and \<open>None\<close> stands for not
  returning: a panic, an index out of range, a remainder by zero, a stall that never ends, a failed \<open>expect\<close>; for a
  constructor it is the refusal of an image. A \<open>Result\<close> is a sum with the error on the left. Arithmetic wraps, as in the
  release profile, and a shift by too large an amount masks the amount. Every interface is a locale, interpreted on the
  model's own definitions: \<open>board\<close> (what the bus needs of a cartridge), \<open>banked_board\<close> and \<open>snooping_board\<close>
  (families of boards), \<open>thumb_mem\<close> (what the coprocessor needs of its memory), \<open>vcs_bus\<close> and \<open>cpu_bus\<close>
  (what the scheduler and the CPU need of the bus), \<open>bus_symmetry\<close> (maps of the bus state that instructions respect),
  \<open>stack_bus\<close>, \<open>script_host\<close>.

  \<^bold>\<open>Groups of lemmas.\<close> Safety: each board, chip and the CPU keep their invariants and return, which together make every
  detected ROM without a coprocessor run for ever; with one, exactly the opcodes of six upper bytes can end it, and a call
  that executes none of them returns. Timing: the cycles of an instruction on the bus are those it declares and exactly those of
  the data sheets, the clocks stay in lockstep, stalls end. Values: binary and decimal arithmetic, subroutine calls, timer, pixels, palettes. State: what a save
  state keeps decides the run that follows; rewind, rollback, run-ahead, the debugger, achievements and locked scripts leave the
  machine as they should. Equivalences: the two frame styles, the mobile frame, the shader stack as a
  composition of passes, the date of a slot label as the calendar's. Round trips: assembler and disassembler, share links,
  shared input, save slots. The queue of samples is correct for every interleaving of the loads and stores of its two
  threads, each in program order.

  \<^bold>\<open>The coprocessor.\<close> A program of the ARM coprocessor can panic, so a claim that a whole machine returns is for
  every cartridge but the two boards that have one (\<open>plain_cart_ok\<close>, and \<open>calm\<close> and \<open>playing\<close>, which
  include it), and its text says so. What those two boards do themselves is proved apart: when a call returns and when it
  panics, and that accesses which call no program keep the board well formed. Claims about values (arithmetic, cycles of an
  instruction that returns, restored states, save slots, achievements) hold for every cartridge.

  \<^bold>\<open>Bounds and fuel.\<close> All bounds are the source's: a frame loop stops after 200,000 instructions (the frontend's after
  200,001), a call of the coprocessor after \<open>ARM_STEP_SAFETY_CAP\<close> steps, Continue in the debugger after 1,000,000
  instructions, rewind keeps 600 snapshots. A loop that the source bounds recurses on that bound, so it needs no further
  fuel; the only unbounded loop, the stall of the CPU by WSYNC, returns \<open>None\<close> where it would not end, and is proved to end
  within a line.

  \<^bold>\<open>Parameters.\<close> Code that is not in the repository is an argument: \<open>f64\<close> arithmetic and \<open>libm::exp\<close> (\<open>F\<close>, a
  record of operations over any type), \<open>f32\<close> conversion of samples (\<open>H\<close>), the \<open>postcard\<close> codec (\<open>K\<close>, assumed
  to decode what it encoded), the \<open>ggrs\<close> engine's requests and its cells (\<open>G\<close>), the Lua program (the calls it makes),
  \<open>toml\<close>, \<open>zip\<close>, the file system and its faults, \<open>ffmpeg\<close>, the rcheevos library's events, the shaders' effect on a
  texture. The
  coprocessor's cycle counter, an \<open>f32\<close>, is a rational rounded where the source rounds.

  \<^bold>\<open>Not modelled.\<close> The rate servo and the resampler (\<open>f32\<close>
  filters); the engine, sockets, STUN and WebRTC transports of netplay; the FFI to Lua and to rcheevos, and its HTTP transport;
  windows, menus and panels as drawn, GPU set-up and the audio device; the shader sources; the browser bindings; the settings file; the
  command line; the test harness. These are calls into libraries whose code the repository does not hold, or text.
\<close>

subsection \<open>The machine on a detected image\<close>

text \<open>
  C1: an image that \<open>detect\<close> accepts as a scheme without an ARM coprocessor runs for ever: from
  power-on with any seed, reset returns, and so does every number of instructions after it. No
  program makes the machine panic or stall, and the machine's invariant holds throughout.
\<close>

theorem detected_rom_runs:
  assumes "detect rom = Some c" "\<not> has_arm c"
  shows "wpo (do { s \<leftarrow> system_reset F cart_ops (plug c (system_new F seed));
                   run_instructions F cart_ops k s })
    (\<lambda>s. sys_ok plain_cart_ok s)"
proof (rule machine_never_stuck)
  show "plain_cart_ok c" using detected_board_ok [OF assms(1)] assms(2) by (simp add: plain_cart_ok_def)
qed

lemma detected_rom_runs_witness:
  "\<forall>(F :: 'f fops). \<exists>c. wpo (do { s \<leftarrow> system_reset F cart_ops (plug c (system_new F 42));
             run_instructions F cart_ops 1000 s }) (\<lambda>s. sys_ok plain_cart_ok s)"
proof (intro allI)
  fix F :: "'f fops"
  obtain c where "detect (replicate 0x1000 0xEA) = Some c" "\<not> has_arm c"
    using detect_4k [of "replicate 0x1000 0xEA"] by auto
  then show "\<exists>c. wpo (do { s \<leftarrow> system_reset F cart_ops (plug c (system_new F 42));
             run_instructions F cart_ops 1000 s }) (\<lambda>s. sys_ok plain_cart_ok s)"
    using detected_rom_runs [of _ _ F 42 1000] by blast
qed

end
